(* ===== verification/Prelude.thy ===== *)
theory Prelude
  imports Main "HOL-Library.Word"
begin

text \<open>
  Shared vocabulary of the development: machine types, the C string functions of the
  standard library that the sources call (\<open>strchr\<close>, \<open>strrchr\<close>, \<open>strstr\<close>,
  \<open>strtol\<close>, \<open>atoi\<close>, \<open>strtok_r\<close>, the \<open>%s\<close> conversion of \<open>sscanf\<close>, decimal
  \<open>printf\<close> conversions, \<open>memcpy\<close> and \<open>memmove\<close>), and the generic lemmas that
  the components share.

  A byte of the proxy is a \<open>char\<close> (eight bits), a C string is the list of its bytes
  before the terminating NUL. A pointer into a string is the suffix it points at or, where
  the code subtracts pointers, its offset.
\<close>

section \<open>Machine types\<close>

unbundle bit_operations_syntax

type_synonym byte = char
type_synonym bytes = "char list"
type_synonym u8 = "8 word"
type_synonym u16 = "16 word"
type_synonym u32 = "32 word"
type_synonym u64 = "64 word"
type_synonym octets = "8 word list"

named_theorems cstring_simps \<open>evaluation rules of the C string functions\<close>
named_theorems conn_simps \<open>what the connection operations do to each field\<close>

abbreviation ascii :: "char \<Rightarrow> nat" where
  "ascii c \<equiv> of_char c"

abbreviation NUL :: char where
  "NUL \<equiv> CHR 0x00"

abbreviation CRLF :: string where
  "CRLF \<equiv> [CHR 0x0D, CHR 0x0A]"

section \<open>Character classes and C strings\<close>

definition is_space :: "char \<Rightarrow> bool" where
  "is_space c \<longleftrightarrow> ascii c = 32 \<or> (9 \<le> ascii c \<and> ascii c \<le> 13)"

definition is_digit :: "char \<Rightarrow> bool" where
  "is_digit c \<longleftrightarrow> 48 \<le> ascii c \<and> ascii c \<le> 57"

definition digit_val :: "char \<Rightarrow> nat" where
  "digit_val c = ascii c - 48"

definition digit_char :: "nat \<Rightarrow> char" where
  "digit_char d = char_of (48 + d)"

text \<open>The C string that starts at the first byte of a buffer.\<close>

definition cstr :: "bytes \<Rightarrow> string" where
  "cstr bs = takeWhile (\<lambda>c. c \<noteq> NUL) bs"

section \<open>Searching: strchr, strrchr, strpbrk, strstr\<close>

fun first_pos :: "('a \<Rightarrow> bool) \<Rightarrow> 'a list \<Rightarrow> nat option" where
  "first_pos P [] = None"
| "first_pos P (x # xs) = (if P x then Some 0 else map_option Suc (first_pos P xs))"

fun last_pos :: "('a \<Rightarrow> bool) \<Rightarrow> 'a list \<Rightarrow> nat option" where
  "last_pos P [] = None"
| "last_pos P (x # xs) =
     (case last_pos P xs of
        Some i \<Rightarrow> Some (Suc i)
      | None \<Rightarrow> if P x then Some 0 else None)"

definition strchr :: "string \<Rightarrow> char \<Rightarrow> nat option" where
  "strchr s c = first_pos (\<lambda>x. x = c) s"

definition strrchr :: "string \<Rightarrow> char \<Rightarrow> nat option" where
  "strrchr s c = last_pos (\<lambda>x. x = c) s"

definition strpbrk :: "string \<Rightarrow> string \<Rightarrow> nat option" where
  "strpbrk s accept = first_pos (\<lambda>x. x \<in> set accept) s"

definition strncmp_eq :: "string \<Rightarrow> string \<Rightarrow> bool" where
  "strncmp_eq s lit \<longleftrightarrow> take (length lit) s = lit"

fun strstr :: "string \<Rightarrow> string \<Rightarrow> nat option" where
  "strstr [] needle = (if needle = [] then Some 0 else None)"
| "strstr (c # cs) needle =
     (if take (length needle) (c # cs) = needle then Some 0
      else map_option Suc (strstr cs needle))"

section \<open>Numbers: strtol, atoi, decimal printing\<close>

definition LONG_MAX :: int where "LONG_MAX = 9223372036854775807"
definition LONG_MIN :: int where "LONG_MIN = - 9223372036854775808"

fun scan_digits :: "int \<Rightarrow> string \<Rightarrow> int \<times> string" where
  "scan_digits acc [] = (acc, [])"
| "scan_digits acc (c # cs) =
     (if is_digit c then scan_digits (acc * 10 + int (digit_val c)) cs else (acc, c # cs))"

text \<open>
  \<open>strtol (s, &end, 10)\<close>: the value, the suffix \<open>end\<close> points at, and whether
  \<open>errno\<close> was set to \<open>ERANGE\<close>. Without a digit nothing is consumed.
\<close>

definition strtol :: "string \<Rightarrow> int \<times> string \<times> bool" where
  "strtol s =
     (let t = dropWhile is_space s;
          neg = (t \<noteq> [] \<and> hd t = CHR ''-'');
          u = (if t \<noteq> [] \<and> (hd t = CHR ''-'' \<or> hd t = CHR ''+'') then tl t else t)
      in if u = [] \<or> \<not> is_digit (hd u) then (0, s, False)
         else (let (v, rest) = scan_digits 0 u;
                   w = (if neg then - v else v)
               in if w > LONG_MAX then (LONG_MAX, rest, True)
                  else if w < LONG_MIN then (LONG_MIN, rest, True)
                  else (w, rest, False)))"

text \<open>\<open>atoi\<close> of the platform is \<open>(int) strtol (s, NULL, 10)\<close>: the low 32 bits.\<close>

definition atoi :: "string \<Rightarrow> int" where
  "atoi s = sint (word_of_int (fst (strtol s)) :: 32 word)"

fun show_nat :: "nat \<Rightarrow> string" where
  "show_nat n = (if n < 10 then [digit_char n] else show_nat (n div 10) @ [digit_char (n mod 10)])"

declare show_nat.simps [simp del]

definition show_int :: "int \<Rightarrow> string" where
  "show_int i = (if i < 0 then CHR ''-'' # show_nat (nat (- i)) else show_nat (nat i))"

section \<open>Tokens: strtok_r and sscanf\<close>

definition strtok_r :: "char \<Rightarrow> string \<Rightarrow> (string \<times> string) option" where
  "strtok_r d s =
     (let t = dropWhile (\<lambda>c. c = d) s
      in if t = [] then None
         else Some (takeWhile (\<lambda>c. c \<noteq> d) t, tl (dropWhile (\<lambda>c. c \<noteq> d) t)))"

text \<open>One \<open>%<width>s\<close> conversion: skip white space, take at most \<open>w\<close> other characters.\<close>

definition scan_word :: "nat \<Rightarrow> string \<Rightarrow> (string \<times> string) option" where
  "scan_word w s =
     (let t = dropWhile is_space s;
          tok = take w (takeWhile (\<lambda>c. \<not> is_space c) t)
      in if tok = [] then None else Some (tok, drop (length tok) t))"

section \<open>Arrays: memcpy and memmove\<close>

text \<open>\<open>memcpy (dst + off, src, length src)\<close> on an array.\<close>

definition memcpy_at :: "nat \<Rightarrow> 'a list \<Rightarrow> 'a list \<Rightarrow> 'a list" where
  "memcpy_at off src dst = take off dst @ src @ drop (off + length src) dst"

text \<open>\<open>memmove (buf, buf + n, m)\<close>: move \<open>m\<close> elements down to the front.\<close>

definition memmove_front :: "nat \<Rightarrow> nat \<Rightarrow> 'a list \<Rightarrow> 'a list" where
  "memmove_front n m buf = take m (drop n buf) @ drop (length (take m (drop n buf))) buf"

section \<open>Lemmas on searching\<close>

lemma first_pos_Some:
  assumes "first_pos P xs = Some i"
  shows "i < length xs \<and> P (xs ! i) \<and> (\<forall>j < i. \<not> P (xs ! j))"
  using assms
proof (induction xs arbitrary: i)
  case Nil
  then show ?case by simp
next
  case (Cons x xs)
  then show ?case
    by (cases "P x") (auto simp: nth_Cons less_Suc_eq_0_disj split: nat.splits)
qed

lemma first_pos_None: "first_pos P xs = None \<longleftrightarrow> (\<forall>x \<in> set xs. \<not> P x)"
  by (induction xs) auto

lemma last_pos_None: "last_pos P xs = None \<longleftrightarrow> (\<forall>x \<in> set xs. \<not> P x)"
  by (induction xs) (auto split: option.splits)

lemma last_pos_Some:
  assumes "last_pos P xs = Some i"
  shows "i < length xs \<and> P (xs ! i) \<and> (\<forall>x \<in> set (drop (Suc i) xs). \<not> P x)"
  using assms
proof (induction xs arbitrary: i)
  case Nil
  then show ?case by simp
next
  case (Cons x xs)
  show ?case
  proof (cases "last_pos P xs")
    case None
    then have none: "\<forall>x \<in> set xs. \<not> P x" by (simp add: last_pos_None)
    with Cons.prems None have "P x" "i = 0" by (auto split: if_splits)
    with none show ?thesis by simp
  next
    case (Some j)
    with Cons.prems have "i = Suc j" by simp
    with Cons.IH [OF Some] show ?thesis by simp
  qed
qed

lemma last_pos_append:
  "last_pos P (xs @ ys) =
     (case last_pos P ys of Some i \<Rightarrow> Some (length xs + i) | None \<Rightarrow> last_pos P xs)"
  by (induction xs; cases "last_pos P ys") auto

lemma first_pos_append:
  "first_pos P (xs @ ys) =
     (case first_pos P xs of Some i \<Rightarrow> Some i | None \<Rightarrow> map_option (\<lambda>i. length xs + i) (first_pos P ys))"
proof (induction xs)
  case Nil
  then show ?case by (cases "first_pos P ys") auto
next
  case (Cons x xs)
  then show ?case by (cases "first_pos P xs"; cases "first_pos P ys") auto
qed

lemma strstr_Some:
  assumes "strstr s needle = Some k"
  shows "take (length needle) (drop k s) = needle \<and> k + length needle \<le> length s"
  using assms
proof (induction s arbitrary: k)
  case Nil
  then show ?case by (simp split: if_splits)
next
  case (Cons c cs)
  show ?case
  proof (cases "take (length needle) (c # cs) = needle")
    case True
    moreover from True have "length needle \<le> length (c # cs)"
      by (metis length_take min.cobounded1)
    ultimately show ?thesis using Cons.prems by simp
  next
    case False
    with Cons.prems obtain j where "strstr cs needle = Some j" "k = Suc j" by auto
    with Cons.IH show ?thesis by simp
  qed
qed

lemma strstr_None:
  assumes "strstr s needle = None"
  shows "take (length needle) (drop k s) \<noteq> needle"
  using assms
proof (induction s arbitrary: k)
  case Nil
  then show ?case by (simp split: if_splits)
next
  case (Cons c cs)
  then show ?case by (cases k) (auto split: if_splits)
qed

section \<open>Lemmas on numbers\<close>

lemma is_digit_digit_char [simp]: "d < 10 \<Longrightarrow> is_digit (digit_char d)"
  by (simp add: is_digit_def digit_char_def)

lemma digit_val_digit_char [simp]: "d < 10 \<Longrightarrow> digit_val (digit_char d) = d"
  by (simp add: digit_val_def digit_char_def)

lemma digit_char_numeral [simp]:
  "digit_char 0 = CHR ''0''" "digit_char 1 = CHR ''1''" "digit_char (Suc 0) = CHR ''1''"
  "digit_char 2 = CHR ''2''" "digit_char 3 = CHR ''3''" "digit_char 4 = CHR ''4''"
  "digit_char 5 = CHR ''5''" "digit_char 6 = CHR ''6''" "digit_char 7 = CHR ''7''"
  "digit_char 8 = CHR ''8''" "digit_char 9 = CHR ''9''"
  by code_simp+

lemma is_digit_not_space: "is_digit c \<Longrightarrow> \<not> is_space c"
  by (auto simp: is_digit_def is_space_def)

lemma show_nat_nonempty [simp]: "show_nat n \<noteq> []"
  by (subst show_nat.simps) simp

lemma show_nat_digits: "c \<in> set (show_nat n) \<Longrightarrow> is_digit c"
proof (induction n rule: show_nat.induct)
  case (1 n)
  then show ?case
    by (cases "n < 10") (auto simp: show_nat.simps [of n])
qed

lemma scan_digits_append_digits:
  assumes "\<forall>c \<in> set ds. is_digit c"
  shows "scan_digits acc (ds @ rest) =
     scan_digits (fold (\<lambda>c a. a * 10 + int (digit_val c)) ds acc) rest"
  using assms by (induction ds arbitrary: acc) auto

lemma fold_show_nat:
  "fold (\<lambda>c a. a * 10 + int (digit_val c)) (show_nat n) 0 = int n"
proof (induction n rule: show_nat.induct)
  case (1 n)
  show ?case
  proof (cases "n < 10")
    case True
    then show ?thesis by (simp add: show_nat.simps [of n])
  next
    case False
    with 1 have "fold (\<lambda>c a. a * 10 + int (digit_val c)) (show_nat n) 0
        = int (n div 10) * 10 + int (n mod 10)"
      by (simp add: show_nat.simps [of n])
    also have "\<dots> = int n"
      by (metis div_mult_mod_eq of_nat_add of_nat_mult of_nat_numeral)
    finally show ?thesis .
  qed
qed

text \<open>Reading back what \<open>%d\<close> printed: the round trip of \<open>printf\<close> and \<open>strtol\<close>.\<close>

lemma scan_digits_show_nat:
  assumes "rest = [] \<or> \<not> is_digit (hd rest)"
  shows "scan_digits 0 (show_nat n @ rest) = (int n, rest)"
proof -
  have "scan_digits (int n) rest = (int n, rest)"
    using assms by (cases rest) auto
  then show ?thesis
    using scan_digits_append_digits [of "show_nat n" 0 rest] show_nat_digits fold_show_nat
    by simp
qed

lemma hd_show_nat: "is_digit (hd (show_nat n))"
  using show_nat_digits [of "hd (show_nat n)" n] by simp

lemma is_digit_not_sign: "is_digit c \<Longrightarrow> c \<noteq> CHR ''-'' \<and> c \<noteq> CHR ''+''"
  by (auto simp: is_digit_def)

lemma dropWhile_hd_False: "xs \<noteq> [] \<Longrightarrow> \<not> P (hd xs) \<Longrightarrow> dropWhile P xs = xs"
  by (cases xs) auto

lemma strtol_show_nat:
  assumes "int n \<le> LONG_MAX" and rest: "rest = [] \<or> \<not> is_digit (hd rest)"
  shows "strtol (show_nat n @ rest) = (int n, rest, False)"
proof -
  let ?s = "show_nat n @ rest"
  have hd: "hd ?s = hd (show_nat n)" by simp
  have dig: "is_digit (hd ?s)" using hd_show_nat [of n] hd by simp
  have drop: "dropWhile is_space ?s = ?s"
    by (rule dropWhile_hd_False) (use dig is_digit_not_space in auto)
  have lo: "\<not> int n < LONG_MIN" by (simp add: LONG_MIN_def)
  show ?thesis
    unfolding strtol_def drop Let_def
    using dig is_digit_not_sign [OF dig] scan_digits_show_nat [OF rest, of n] assms(1) lo
    by auto
qed

section \<open>Lemmas on tokens and arrays\<close>

lemma strtok_r_Some:
  assumes "strtok_r d s = Some (tok, rest)"
  shows "tok \<noteq> [] \<and> d \<notin> set tok \<and> length rest < length s"
proof -
  let ?t = "dropWhile (\<lambda>c. c = d) s"
  from assms have t: "?t \<noteq> []" and tok: "tok = takeWhile (\<lambda>c. c \<noteq> d) ?t"
    and rest: "rest = tl (dropWhile (\<lambda>c. c \<noteq> d) ?t)"
    by (auto simp: strtok_r_def Let_def split: if_splits)
  have "hd ?t \<noteq> d" using hd_dropWhile [OF t] by simp
  with t tok have "tok \<noteq> []" by (cases ?t) auto
  moreover have "d \<notin> set tok" using tok by (auto dest: set_takeWhileD)
  moreover have "length rest < length s"
  proof -
    have "length (dropWhile (\<lambda>c. c \<noteq> d) ?t) \<le> length ?t" by (rule length_dropWhile_le)
    moreover have "length ?t \<le> length s" by (rule length_dropWhile_le)
    moreover have "length (dropWhile (\<lambda>c. c \<noteq> d) ?t) < length ?t"
      using \<open>hd ?t \<noteq> d\<close> t length_dropWhile_le [of "\<lambda>c. c \<noteq> d" "tl ?t"]
      by (cases ?t) auto
    ultimately show ?thesis using rest by simp
  qed
  ultimately show ?thesis by simp
qed

lemma strtok_r_length: "strtok_r d s = Some (tok, rest) \<Longrightarrow> length rest < length s"
  using strtok_r_Some by blast

lemma scan_word_Some:
  assumes "scan_word w s = Some (tok, rest)"
  shows "tok \<noteq> [] \<and> length tok \<le> w \<and> (\<forall>c \<in> set tok. \<not> is_space c)"
  using assms
  by (auto simp: scan_word_def Let_def split: if_splits dest!: in_set_takeD set_takeWhileD)

lemma length_memcpy_at [simp]:
  "off + length src \<le> length dst \<Longrightarrow> length (memcpy_at off src dst) = length dst"
  by (simp add: memcpy_at_def)

lemma take_memcpy_at [simp]:
  "off \<le> length dst \<Longrightarrow> take (off + length src) (memcpy_at off src dst) = take off dst @ src"
  by (simp add: memcpy_at_def)

lemma length_memmove_front [simp]: "length (memmove_front n m buf) = length buf"
  by (simp add: memmove_front_def)

lemma take_memmove_front [simp]:
  "n + m \<le> length buf \<Longrightarrow> take m (memmove_front n m buf) = take m (drop n buf)"
  by (simp add: memmove_front_def)

lemma cstr_no_NUL: "NUL \<notin> set (cstr bs)"
  by (auto simp: cstr_def dest: set_takeWhileD)

lemma length_cstr: "length (cstr bs) \<le> length bs"
  by (simp add: cstr_def length_takeWhile_le)

lemma cstr_ident: "NUL \<notin> set bs \<Longrightarrow> cstr bs = bs"
  by (auto simp: cstr_def takeWhile_eq_all_conv)

lemma take_cstr: "n \<le> length (cstr bs) \<Longrightarrow> take n (cstr bs) = take n bs"
  unfolding cstr_def by (metis takeWhile_dropWhile_id take_append append_Nil2 diff_is_0_eq take0)

lemmas cstr_facts = cstr_no_NUL length_cstr cstr_ident

end
