(* ===== verification/Byte_Buffer.thy ===== *)
theory Byte_Buffer
  imports Prelude
begin

text \<open>
  The byte buffers of \<open>struct connection\<close> (\<open>src/proxy-engine/main.c\<close>): a fixed array
  with a fill count. Data is appended by \<open>append_bytes\<close> and consumed from the front by
  \<open>memmove\<close>. The interface the rest of the engine relies on is the locale
  \<open>byte_queue\<close>: a bounded first-in first-out queue of bytes. It is interpreted on the
  array representation, and on plain lists, which is the representation the connection
  records of the later theories use.
\<close>

section \<open>The array representation\<close>

record buffer =
  cells :: bytes
  fill :: nat

definition append_bytes :: "bytes \<Rightarrow> nat \<Rightarrow> nat \<Rightarrow> bytes \<Rightarrow> nat \<Rightarrow> (bytes \<times> nat) option" where
  "append_bytes buffer len capacity src count =
     (if count > capacity - len then None
      else Some (memcpy_at len (take count src) buffer, len + count))"

text \<open>
  The consumption at the end of \<open>flush_remote\<close> and \<open>flush_local\<close>:
  \<open>memmove (b, b + count, len - count); len -= count\<close>.
\<close>

definition consume_bytes :: "nat \<Rightarrow> buffer \<Rightarrow> buffer" where
  "consume_bytes count b =
     \<lparr>cells = memmove_front count (fill b - count) (cells b), fill = fill b - count\<rparr>"

definition push_buffer :: "bytes \<Rightarrow> buffer \<Rightarrow> buffer option" where
  "push_buffer src b =
     map_option (\<lambda>(cs, n). \<lparr>cells = cs, fill = n\<rparr>)
       (append_bytes (cells b) (fill b) (length (cells b)) src (length src))"

definition buffer_content :: "buffer \<Rightarrow> bytes" where
  "buffer_content b = take (fill b) (cells b)"

definition buffer_ok :: "buffer \<Rightarrow> bool" where
  "buffer_ok b \<longleftrightarrow> fill b \<le> length (cells b)"

section \<open>The list representation\<close>

definition push_list :: "nat \<Rightarrow> bytes \<Rightarrow> bytes \<Rightarrow> bytes option" where
  "push_list cap src xs = (if length src > cap - length xs then None else Some (xs @ src))"

section \<open>The queue interface\<close>

datatype queue_op = Push bytes | Pop nat

text \<open>
  A run of a queue: a push that does not fit and a pop of more than there is change
  nothing; the run returns the final queue, all bytes accepted and all bytes handed out.
\<close>

fun queue_run :: "('q \<Rightarrow> bytes) \<Rightarrow> (bytes \<Rightarrow> 'q \<Rightarrow> 'q option) \<Rightarrow> (nat \<Rightarrow> 'q \<Rightarrow> 'q)
    \<Rightarrow> queue_op list \<Rightarrow> 'q \<Rightarrow> 'q \<times> bytes \<times> bytes" where
  "queue_run content push pop [] q = (q, [], [])"
| "queue_run content push pop (Push xs # ops) q =
     (case push xs q of
        None \<Rightarrow> queue_run content push pop ops q
      | Some q' \<Rightarrow> (let (r, i, out) = queue_run content push pop ops q' in (r, xs @ i, out)))"
| "queue_run content push pop (Pop n # ops) q =
     (if n \<le> length (content q)
      then (let (r, i, out) = queue_run content push pop ops (pop n q)
            in (r, i, take n (content q) @ out))
      else queue_run content push pop ops q)"

locale byte_queue =
  fixes content :: "'q \<Rightarrow> bytes"
    and invar :: "'q \<Rightarrow> bool"
    and room :: "'q \<Rightarrow> nat"
    and push :: "bytes \<Rightarrow> 'q \<Rightarrow> 'q option"
    and pop :: "nat \<Rightarrow> 'q \<Rightarrow> 'q"
  assumes push_fits: "invar q \<Longrightarrow> length xs \<le> room q \<Longrightarrow>
            \<exists>q'. push xs q = Some q' \<and> content q' = content q @ xs \<and> invar q'
                 \<and> room q' + length xs = room q"
    and push_full: "invar q \<Longrightarrow> room q < length xs \<Longrightarrow> push xs q = None"
    and pop_content: "invar q \<Longrightarrow> n \<le> length (content q) \<Longrightarrow> content (pop n q) = drop n (content q)"
    and pop_invar: "invar q \<Longrightarrow> n \<le> length (content q) \<Longrightarrow> invar (pop n q)"
    and pop_room: "invar q \<Longrightarrow> n \<le> length (content q) \<Longrightarrow> room (pop n q) = room q + n"
begin

lemma push_Some_iff:
  assumes "invar q"
  shows "push xs q = Some q' \<Longrightarrow>
     length xs \<le> room q \<and> content q' = content q @ xs \<and> invar q' \<and> room q' + length xs = room q"
proof -
  assume p: "push xs q = Some q'"
  have "length xs \<le> room q"
    using push_full [OF assms, of xs] p by (cases "room q < length xs") auto
  with push_fits [OF assms, of xs] p show ?thesis by auto
qed

lemma stream_integrity:
  assumes "invar q" and "queue_run content push pop ops q = (r, i, out)"
  shows "invar r \<and> out @ content r = content q @ i
       \<and> room r + length i = room q + length out"
  using assms
proof (induction ops arbitrary: q r i out)
  case Nil
  then show ?case by simp
next
  case (Cons op ops)
  show ?case
  proof (cases op)
    case (Push xs)
    show ?thesis
    proof (cases "push xs q")
      case None
      with Cons Push show ?thesis by simp
    next
      case (Some q')
      obtain r' i' out' where run: "queue_run content push pop ops q' = (r', i', out')"
        by (cases "queue_run content push pop ops q'")
      note q' = push_Some_iff [OF Cons.prems(1) Some]
      with Cons.IH [OF _ run] have "invar r' \<and> out' @ content r' = content q' @ i'
          \<and> room r' + length i' = room q' + length out'" by simp
      with Cons.prems(2) Push Some run q' show ?thesis by auto
    qed
  next
    case (Pop n)
    show ?thesis
    proof (cases "n \<le> length (content q)")
      case False
      with Cons Pop show ?thesis by simp
    next
      case True
      obtain r' i' out' where run: "queue_run content push pop ops (pop n q) = (r', i', out')"
        by (cases "queue_run content push pop ops (pop n q)")
      note q' = pop_content [OF Cons.prems(1) True] pop_invar [OF Cons.prems(1) True]
        pop_room [OF Cons.prems(1) True]
      with Cons.IH [OF _ run] have "invar r' \<and> out' @ content r' = drop n (content q) @ i'
          \<and> room r' + length i' = room q + n + length out'" by simp
      moreover have "take n (content q) @ drop n (content q) @ i' = content q @ i'"
        by (metis append.assoc append_take_drop_id)
      ultimately show ?thesis using Cons.prems(2) Pop True run by auto
    qed
  qed
qed

end

section \<open>The array buffer is a byte queue\<close>

lemma append_bytes_None:
  "append_bytes buf len cap src n = None \<longleftrightarrow> n > cap - len"
  by (simp add: append_bytes_def)

lemma push_buffer_Some:
  assumes "buffer_ok b" and "length xs \<le> length (cells b) - fill b"
  shows "push_buffer xs b = Some \<lparr>cells = memcpy_at (fill b) xs (cells b), fill = fill b + length xs\<rparr>"
  using assms by (simp add: push_buffer_def append_bytes_def)

interpretation array_queue:
  byte_queue buffer_content buffer_ok "\<lambda>b. length (cells b) - fill b" push_buffer consume_bytes
proof (unfold_locales, goal_cases)
  case (1 q xs)
  then show ?case
    using push_buffer_Some [OF 1] by (simp add: buffer_ok_def buffer_content_def)
next
  case (2 q xs)
  then show ?case by (simp add: push_buffer_def append_bytes_None)
next
  case (3 q n)
  then show ?case by (simp add: buffer_ok_def buffer_content_def consume_bytes_def take_drop)
next
  case (4 q n)
  then show ?case by (simp add: buffer_ok_def buffer_content_def consume_bytes_def)
next
  case (5 q n)
  then show ?case by (simp add: buffer_ok_def buffer_content_def consume_bytes_def)
qed

section \<open>The list buffer is a byte queue, and the array refines it\<close>

lemma push_list_Some:
  "push_list cap src xs = Some ys \<longleftrightarrow> length src \<le> cap - length xs \<and> ys = xs @ src"
  by (auto simp: push_list_def)

interpretation list_queue:
  byte_queue "\<lambda>xs. xs" "\<lambda>xs. length xs \<le> cap" "\<lambda>xs. cap - length xs" "push_list cap" drop
  for cap
proof (unfold_locales, goal_cases)
  case (1 q xs)
  then show ?case by (auto simp: push_list_def)
qed (auto simp: push_list_def)

text \<open>C22: no interleaving of \<open>append_bytes\<close> and the consuming \<open>memmove\<close> on a connection
  buffer loses, duplicates or reorders a byte, and the fill count never passes the array.\<close>

theorem buffer_stream_integrity:
  assumes "buffer_ok b" and "queue_run buffer_content push_buffer consume_bytes ops b = (r, accepted, handed_out)"
  shows "handed_out @ buffer_content r = buffer_content b @ accepted \<and> buffer_ok r"
  using array_queue.stream_integrity [OF assms] by simp

theorem buffer_stream_integrity_witness:
  "buffer_ok \<lparr>cells = ''xyz....'', fill = 3\<rparr>
   \<and> (let (r, accepted, handed_out) =
            queue_run buffer_content push_buffer consume_bytes [Push ''ab'', Pop 4, Push ''hello'', Push ''toolong'']
              \<lparr>cells = ''xyz....'', fill = 3\<rparr>
      in handed_out @ buffer_content r = ''xyz'' @ accepted \<and> accepted = ''abhello'')"
proof -
  let ?b = "\<lparr>cells = ''xyz....'', fill = 3\<rparr>"
  let ?ops = "[Push ''ab'', Pop 4, Push ''hello'', Push ''toolong'']"
  have ok: "buffer_ok ?b" by (simp add: buffer_ok_def)
  obtain r i out where run: "queue_run buffer_content push_buffer consume_bytes ?ops ?b = (r, i, out)"
    by (cases "queue_run buffer_content push_buffer consume_bytes ?ops ?b")
  have "i = ''abhello''"
    using run
    by (simp add: push_buffer_def append_bytes_def consume_bytes_def buffer_content_def
        memcpy_at_def memmove_front_def eval_nat_numeral)
  with buffer_stream_integrity [OF ok run] run ok show ?thesis
    by (simp add: buffer_content_def)
qed

text \<open>Appending to the array is appending to the list it represents (functional refinement).\<close>

theorem push_buffer_refines_list:
  assumes "buffer_ok b"
  shows "map_option buffer_content (push_buffer xs b)
       = push_list (length (cells b)) xs (buffer_content b)"
proof (cases "length xs \<le> length (cells b) - fill b")
  case True
  with assms show ?thesis
    by (simp add: push_buffer_Some push_list_def buffer_content_def buffer_ok_def)
next
  case False
  with assms show ?thesis
    by (simp add: push_buffer_def append_bytes_def push_list_def buffer_content_def buffer_ok_def)
qed

end
