(* ===== verification/Lwip_Def.thy ===== *)
theory Lwip_Def
  imports Prelude
begin

text \<open>
  \<open>src/lwip/src/core/def.c\<close>: byte order conversion on a little-endian machine, and lwIP's
  own versions of \<open>strnstr\<close>, \<open>stricmp\<close>, \<open>strnicmp\<close>, \<open>itoa\<close> and the constant-time
  comparison. The lemmas show that each computes what its name promises.
\<close>

section \<open>Byte order\<close>

definition lwip_htons :: "u16 \<Rightarrow> u16" where
  "lwip_htons n = (push_bit 8 (n AND 0x00ff)) OR (drop_bit 8 (n AND 0xff00))"

definition lwip_htonl :: "u32 \<Rightarrow> u32" where
  "lwip_htonl n =
     (push_bit 24 (n AND 0x000000ff)) OR
     (push_bit 8 (n AND 0x0000ff00)) OR
     (drop_bit 8 (n AND 0x00ff0000)) OR
     (drop_bit 24 (n AND 0xff000000))"

section \<open>String search and comparison\<close>

text \<open>
  The loop of \<open>lwip_strnstr\<close>, on the suffix \<open>p\<close> points at; \<open>n\<close> is what is left of the
  limit, so \<open>p + tokenlen \<le> buffer + n\<close> is \<open>length token \<le> n\<close>.
\<close>

fun strnstr_loop :: "string \<Rightarrow> string \<Rightarrow> nat \<Rightarrow> nat option" where
  "strnstr_loop [] token n = None"
| "strnstr_loop (c # cs) token n =
     (if length token \<le> n
      then (if c = hd token \<and> strncmp_eq (c # cs) token then Some 0
            else map_option Suc (strnstr_loop cs token (n - 1)))
      else None)"

definition lwip_strnstr :: "string \<Rightarrow> string \<Rightarrow> nat \<Rightarrow> nat option" where
  "lwip_strnstr buffer token n = (if token = [] then Some 0 else strnstr_loop buffer token n)"

text \<open>\<open>c | 0x20\<close> on a character.\<close>

definition or20 :: "char \<Rightarrow> char" where
  "or20 c = char_of (ascii c OR 0x20)"

definition is_lower_range :: "char \<Rightarrow> bool" where
  "is_lower_range c \<longleftrightarrow> ascii CHR ''a'' \<le> ascii c \<and> ascii c \<le> ascii CHR ''z''"

text \<open>One comparison step of \<open>lwip_stricmp\<close> and \<open>lwip_strnicmp\<close>: false where they return 1.\<close>

definition icmp_step :: "char \<Rightarrow> char \<Rightarrow> bool" where
  "icmp_step c1 c2 \<longleftrightarrow>
     (if c1 \<noteq> c2 then (if is_lower_range (or20 c1) then or20 c1 = or20 c2 else False) else True)"

text \<open>The terminating NUL is the character after the end of the list.\<close>

definition at0 :: "string \<Rightarrow> char" where
  "at0 s = (case s of [] \<Rightarrow> NUL | c # _ \<Rightarrow> c)"

function lwip_stricmp :: "string \<Rightarrow> string \<Rightarrow> int" where
  "lwip_stricmp s1 s2 =
     (if \<not> icmp_step (at0 s1) (at0 s2) then 1
      else if at0 s1 \<noteq> NUL then lwip_stricmp (tl s1) (tl s2) else 0)"
  by pat_completeness auto
termination
  by (relation "measure (\<lambda>(s1, s2). length s1)") (auto simp: at0_def split: list.splits)

declare lwip_stricmp.simps [simp del]

text \<open>\<open>len\<close> is the value before the loop; it is at least 1 in every call (\<open>do ... while\<close>).\<close>

function lwip_strnicmp :: "string \<Rightarrow> string \<Rightarrow> nat \<Rightarrow> int" where
  "lwip_strnicmp s1 s2 len =
     (if \<not> icmp_step (at0 s1) (at0 s2) then 1
      else if len - 1 \<noteq> 0 \<and> at0 s1 \<noteq> NUL then lwip_strnicmp (tl s1) (tl s2) (len - 1) else 0)"
  by pat_completeness auto
termination
  by (relation "measure (\<lambda>(s1, s2, len). length s1)") (auto simp: at0_def split: list.splits)

declare lwip_strnicmp.simps [simp del]

text \<open>\<open>lwip_strnistr\<close>: the same search with the case-insensitive comparison.\<close>

fun strnistr_loop :: "string \<Rightarrow> string \<Rightarrow> nat \<Rightarrow> nat option" where
  "strnistr_loop [] token n = None"
| "strnistr_loop (c # cs) token n =
     (if length token \<le> n
      then (if lwip_strnicmp (c # cs) token (length token) = 0 then Some 0
            else map_option Suc (strnistr_loop cs token (n - 1)))
      else None)"

definition lwip_strnistr :: "string \<Rightarrow> string \<Rightarrow> nat \<Rightarrow> nat option" where
  "lwip_strnistr buffer token n = (if token = [] then Some 0 else strnistr_loop buffer token n)"

section \<open>itoa\<close>

text \<open>
  The loop that fills the buffer from its end: \<open>n\<close> and the free cells between \<open>res\<close> and
  \<open>tmp\<close> on entry, the digits written so far; the result is what is left of \<open>n\<close> and the
  digits.
\<close>

fun itoa_loop :: "nat \<Rightarrow> nat \<Rightarrow> string \<Rightarrow> nat \<times> string" where
  "itoa_loop n 0 acc = (n, acc)"
| "itoa_loop n (Suc free) acc =
     (if n \<noteq> 0 then itoa_loop (n div 10) free (digit_char (n mod 10) # acc) else (n, acc))"

text \<open>The string left in \<open>result\<close>; \<open>None\<close> where nothing is written (\<open>bufsize\<close> 0).\<close>

definition lwip_itoa :: "nat \<Rightarrow> int \<Rightarrow> string option" where
  "lwip_itoa bufsize number =
     (let n = (if number \<ge> 0 then nat number else nat (- number)) in
      if bufsize < 2 then (if bufsize = 1 then Some [] else None)
      else (let sign = (if number < 0 then [CHR ''-''] else []);
                free = bufsize - 1 - length sign;
                (m, ds) = itoa_loop n free []
            in if m \<noteq> 0 then Some []
               else if ds = [] then Some (sign @ ''0'')
               else Some (sign @ ds)))"

section \<open>Constant-time comparison\<close>

definition lwip_memcmp_consttime :: "u8 list \<Rightarrow> u8 list \<Rightarrow> nat \<Rightarrow> u8" where
  "lwip_memcmp_consttime a1 a2 len =
     fold (\<lambda>i ret. ret OR (a1 ! i XOR a2 ! i)) [0..<len] 0"

section \<open>Correctness\<close>

lemma byte_masks:
  "(0xff :: u32) = mask 8" "(0xff00 :: u32) = push_bit 8 (mask 8)"
  "(0xff0000 :: u32) = push_bit 16 (mask 8)" "(0xff000000 :: u32) = push_bit 24 (mask 8)"
  by (simp_all add: mask_numeral)

lemma lwip_htonl_bit_cases:
  "i < 8 \<Longrightarrow> bit (lwip_htonl n) i = bit n (i + 24)"
  "8 \<le> i \<Longrightarrow> i < 16 \<Longrightarrow> bit (lwip_htonl n) i = bit n (i + 8)"
  "16 \<le> i \<Longrightarrow> i < 24 \<Longrightarrow> bit (lwip_htonl n) i = bit n (i - 8)"
  "24 \<le> i \<Longrightarrow> i < 32 \<Longrightarrow> bit (lwip_htonl n) i = bit n (i - 24)"
  unfolding lwip_htonl_def byte_masks
  subgoal by (simp add: bit_simps add.commute)
  subgoal by (simp add: bit_simps add.commute) arith
  subgoal by (simp add: bit_simps) arith
  subgoal by (simp add: bit_simps) arith
  done

lemma lwip_htonl_involution: "lwip_htonl (lwip_htonl n) = n"
proof (rule bit_word_eqI)
  fix i assume "i < LENGTH(32)"
  then consider "i < 8" | "8 \<le> i" "i < 16" | "16 \<le> i" "i < 24" | "24 \<le> i" "i < 32"
    by fastforce
  then show "bit (lwip_htonl (lwip_htonl n)) i = bit n i"
    by cases (simp_all add: lwip_htonl_bit_cases)
qed

lemma lwip_htons_bit_cases:
  "i < 8 \<Longrightarrow> bit (lwip_htons n) i = bit n (i + 8)"
  "8 \<le> i \<Longrightarrow> i < 16 \<Longrightarrow> bit (lwip_htons n) i = bit n (i - 8)"
proof -
  have m: "(0xff :: u16) = mask 8" "(0xff00 :: u16) = push_bit 8 (mask 8)"
    by (simp_all add: mask_numeral)
  show "i < 8 \<Longrightarrow> bit (lwip_htons n) i = bit n (i + 8)"
    unfolding lwip_htons_def m by (simp add: bit_simps add.commute)
  show "8 \<le> i \<Longrightarrow> i < 16 \<Longrightarrow> bit (lwip_htons n) i = bit n (i - 8)"
    unfolding lwip_htons_def m by (simp add: bit_simps) arith
qed

lemma lwip_htons_involution: "lwip_htons (lwip_htons n) = n"
proof (rule bit_word_eqI)
  fix i assume "i < LENGTH(16)"
  then consider "i < 8" | "8 \<le> i" "i < 16" by fastforce
  then show "bit (lwip_htons (lwip_htons n)) i = bit n i"
    by cases (simp_all add: lwip_htons_bit_cases)
qed

lemma strnstr_loop_Some:
  assumes "strnstr_loop s token n = Some k" and "token \<noteq> []"
  shows "take (length token) (drop k s) = token \<and> k + length token \<le> n \<and> k < length s
     \<and> (\<forall>j < k. take (length token) (drop j s) \<noteq> token)"
  using assms
proof (induction s token n arbitrary: k rule: strnstr_loop.induct)
  case (2 c cs token n)
  show ?case
  proof (cases "strncmp_eq (c # cs) token")
    case True
    moreover from True 2(3) have "hd token = c"
      by (cases token) (auto simp: strncmp_eq_def)
    ultimately show ?thesis using 2(2) by (auto simp: strncmp_eq_def split: if_splits)
  next
    case False
    with 2(2) obtain j where j: "strnstr_loop cs token (n - 1) = Some j" "k = Suc j"
      and le: "length token \<le> n" by (auto split: if_splits)
    from 2(1) [OF le _ j(1) 2(3)] False have
      IH: "take (length token) (drop j cs) = token" "j + length token \<le> n - 1" "j < length cs"
        "\<forall>i < j. take (length token) (drop i cs) \<noteq> token" by auto
    moreover have "\<forall>i < k. take (length token) (drop i (c # cs)) \<noteq> token"
    proof (intro allI impI)
      fix i assume "i < k"
      then show "take (length token) (drop i (c # cs)) \<noteq> token"
        using False IH(4) j(2) by (cases i) (auto simp: strncmp_eq_def)
    qed
    moreover have "k + length token \<le> n"
      using IH(2) j(2) 2(3) by (cases token) auto
    ultimately show ?thesis using j(2) by auto
  qed
qed simp

lemma word_or_eq_zero: "x OR y = 0 \<longleftrightarrow> x = 0 \<and> y = (0 :: 'a::len word)"
  by (auto simp: bit_eq_iff bit_simps)

lemma word_xor_eq_zero: "x XOR y = 0 \<longleftrightarrow> x = (y :: 'a::len word)"
  by (auto simp: bit_eq_iff bit_simps)

lemma fold_or_zero:
  "fold (\<lambda>i ret. ret OR f i) xs (acc :: 'a::len word) = 0 \<longleftrightarrow> acc = 0 \<and> (\<forall>i \<in> set xs. f i = 0)"
  by (induction xs arbitrary: acc) (auto simp: word_or_eq_zero)

lemma lwip_memcmp_consttime_zero:
  assumes "len \<le> length a" and "len \<le> length b"
  shows "lwip_memcmp_consttime a b len = 0 \<longleftrightarrow> take len a = take len b"
proof -
  have "lwip_memcmp_consttime a b len = 0 \<longleftrightarrow> (\<forall>i < len. a ! i = b ! i)"
    by (auto simp: lwip_memcmp_consttime_def fold_or_zero word_xor_eq_zero)
  also have "\<dots> \<longleftrightarrow> take len a = take len b"
    using assms by (simp add: list_eq_iff_nth_eq)
  finally show ?thesis .
qed

lemma itoa_loop_enough:
  assumes "n < 10 ^ free"
  shows "itoa_loop n free acc = (0, (if n = 0 then [] else show_nat n) @ acc)"
  using assms
proof (induction n free acc rule: itoa_loop.induct)
  case (1 n acc)
  then show ?case by simp
next
  case (2 n free acc)
  show ?case
  proof (cases "n = 0")
    case False
    have "n div 10 < 10 ^ free" using 2(2) by (simp add: less_mult_imp_div_less mult.commute)
    with 2(1) False show ?thesis
      by (auto simp: show_nat.simps [of n])
  qed simp
qed

lemma lwip_itoa_show_int:
  assumes "2 \<le> bufsize" and "nat \<bar>number\<bar> < 10 ^ (bufsize - 1 - (if number < 0 then 1 else 0))"
  shows "lwip_itoa bufsize number = Some (show_int number)"
proof -
  have z: "show_nat 0 = ''0''" by code_simp
  show ?thesis
  proof (cases "number < 0")
    case True
    with assms itoa_loop_enough [of "nat (- number)" "bufsize - 2" "[]"]
    show ?thesis by (auto simp: lwip_itoa_def show_int_def Let_def numeral_2_eq_2)
  next
    case False
    with assms itoa_loop_enough [of "nat number" "bufsize - 1" "[]"] z
    show ?thesis by (auto simp: lwip_itoa_def show_int_def Let_def)
  qed
qed
end
