(* ===== verification/Ip4_Addr.thy ===== *)
theory Ip4_Addr
  imports Lwip_Def
begin

text \<open>
  \<open>src/lwip/src/core/ipv4/ip4_addr.c\<close>: IPv4 address text. \<open>ip4addr_aton\<close> accepts the
  classical \<open>inet_aton\<close> forms (one to four parts, decimal, octal or hexadecimal),
  \<open>ip4addr_ntoa_r\<close> prints the dotted decimal form into a buffer of a given size. An
  address is the 32-bit value in network byte order as a little-endian machine holds it, so
  its first octet is the least significant byte. The main results: printing and parsing are
  inverse, and the netmask check accepts exactly the contiguous masks.
\<close>

section \<open>Parsing\<close>

definition is_lower :: "char \<Rightarrow> bool" where
  "is_lower c \<longleftrightarrow> 97 \<le> ascii c \<and> ascii c \<le> 122"

definition is_xdigit :: "char \<Rightarrow> bool" where
  "is_xdigit c \<longleftrightarrow> is_digit c \<or> (97 \<le> ascii c \<and> ascii c \<le> 102) \<or> (65 \<le> ascii c \<and> ascii c \<le> 70)"

text \<open>The inner loop: the value so far and the text that \<open>cp\<close> points at.\<close>

fun aton_digits :: "nat \<Rightarrow> u32 \<Rightarrow> string \<Rightarrow> u32 \<times> string" where
  "aton_digits base val [] = (val, [])"
| "aton_digits base val (c # cs) =
     (if is_digit c then
        (if base = 8 \<and> digit_val c \<ge> 8 then (val, c # cs)
         else aton_digits base (val * of_nat base + of_nat (digit_val c)) cs)
      else if base = 16 \<and> is_xdigit c then
        aton_digits base
          (push_bit 4 val OR of_nat (ascii c + 10 - (if is_lower c then 97 else 65))) cs
      else (val, c # cs))"

text \<open>One number: base detection, then the digits.\<close>

definition aton_number :: "string \<Rightarrow> (u32 \<times> string) option" where
  "aton_number s =
     (if s = [] \<or> \<not> is_digit (hd s) then None
      else if hd s = CHR ''0'' then
        (if tl s \<noteq> [] \<and> (hd (tl s) = CHR ''x'' \<or> hd (tl s) = CHR ''X'')
         then Some (aton_digits 16 0 (tl (tl s)))
         else Some (aton_digits 8 0 (tl s)))
      else Some (aton_digits 10 0 s))"

text \<open>The outer loop: the parts stored so far; the result holds the last value and the rest.\<close>

function aton_parts :: "u32 list \<Rightarrow> string \<Rightarrow> (u32 list \<times> u32 \<times> string) option" where
  "aton_parts parts s =
     (case aton_number s of
        None \<Rightarrow> None
      | Some (val, rest) \<Rightarrow>
          if rest \<noteq> [] \<and> hd rest = CHR ''.'' then
            (if length parts \<ge> 3 then None else aton_parts (parts @ [val]) (tl rest))
          else Some (parts, val, rest))"
  by pat_completeness auto
termination
  by (relation "measure (\<lambda>(parts, s). 3 - length parts)") auto

declare aton_parts.simps [simp del]

definition aton_combine :: "u32 list \<Rightarrow> u32 \<Rightarrow> u32 option" where
  "aton_combine parts val =
     (case parts of
        [] \<Rightarrow> Some val
      | [a] \<Rightarrow> if val > 0xffffff \<or> a > 0xff then None else Some (val OR push_bit 24 a)
      | [a, b] \<Rightarrow> if val > 0xffff \<or> a > 0xff \<or> b > 0xff then None
                 else Some (val OR (push_bit 24 a OR push_bit 16 b))
      | [a, b, c] \<Rightarrow> if val > 0xff \<or> a > 0xff \<or> b > 0xff \<or> c > 0xff then None
                    else Some (val OR (push_bit 24 a OR push_bit 16 b OR push_bit 8 c))
      | _ \<Rightarrow> None)"

definition ip4addr_aton :: "string \<Rightarrow> u32 option" where
  "ip4addr_aton cp =
     (case aton_parts [] cp of
        None \<Rightarrow> None
      | Some (parts, val, rest) \<Rightarrow>
          if rest \<noteq> [] \<and> \<not> is_space (hd rest) then None
          else map_option lwip_htonl (aton_combine parts val))"

definition IPADDR_NONE :: u32 where "IPADDR_NONE = 0xffffffff"
definition IPADDR_ANY :: u32 where "IPADDR_ANY = 0"
definition IPADDR_BROADCAST :: u32 where "IPADDR_BROADCAST = 0xffffffff"

definition ipaddr_addr :: "string \<Rightarrow> u32" where
  "ipaddr_addr cp = (case ip4addr_aton cp of Some v \<Rightarrow> v | None \<Rightarrow> IPADDR_NONE)"

section \<open>Printing\<close>

definition octet :: "u32 \<Rightarrow> nat \<Rightarrow> nat" where
  "octet a n = unat (take_bit 8 (drop_bit (8 * n) a))"

text \<open>The \<open>do ... while\<close> loop that leaves the digits of an octet in \<open>inv\<close>, last digit first.\<close>

fun octet_inv :: "nat \<Rightarrow> string" where
  "octet_inv n = digit_char (n mod 10) # (if n div 10 \<noteq> 0 then octet_inv (n div 10) else [])"

declare octet_inv.simps [simp del]

text \<open>Writing characters with the check \<open>len++ >= buflen\<close> before each.\<close>

fun put_chars :: "int \<Rightarrow> string \<Rightarrow> string \<Rightarrow> string option" where
  "put_chars buflen buf [] = Some buf"
| "put_chars buflen buf (c # cs) =
     (if int (length buf) \<ge> buflen then None else put_chars buflen (buf @ [c]) cs)"

fun ntoa_octets :: "u32 \<Rightarrow> int \<Rightarrow> nat list \<Rightarrow> string \<Rightarrow> string option" where
  "ntoa_octets a buflen [] buf = Some buf"
| "ntoa_octets a buflen (n # ns) buf =
     (case put_chars buflen buf (rev (octet_inv (octet a n)) @ ''.'') of
        None \<Rightarrow> None
      | Some buf' \<Rightarrow> ntoa_octets a buflen ns buf')"

definition ip4addr_ntoa_r :: "u32 \<Rightarrow> int \<Rightarrow> string option" where
  "ip4addr_ntoa_r a buflen = map_option butlast (ntoa_octets a buflen [0, 1, 2, 3] [])"

definition IP4ADDR_STRLEN_MAX :: int where "IP4ADDR_STRLEN_MAX = 16"

definition ip4addr_ntoa :: "u32 \<Rightarrow> string option" where
  "ip4addr_ntoa a = ip4addr_ntoa_r a IP4ADDR_STRLEN_MAX"

text \<open>The dotted decimal form of four octets, as \<open>inet_ntop\<close> of the C library prints it.\<close>

definition dotted :: "nat \<Rightarrow> nat \<Rightarrow> nat \<Rightarrow> nat \<Rightarrow> string" where
  "dotted a b c d = show_nat a @ ''.'' @ show_nat b @ ''.'' @ show_nat c @ ''.'' @ show_nat d"

section \<open>Broadcast and netmask checks\<close>

record netif4 =
  nif_broadcast :: bool
  nif_addr :: u32
  nif_netmask :: u32

definition ip4_addr_isbroadcast_u32 :: "u32 \<Rightarrow> netif4 \<Rightarrow> bool" where
  "ip4_addr_isbroadcast_u32 addr nif =
     (if NOT addr = IPADDR_ANY \<or> addr = IPADDR_ANY then True
      else if \<not> nif_broadcast nif then False
      else if addr = nif_addr nif then False
      else if addr AND nif_netmask nif = nif_addr nif AND nif_netmask nif
              \<and> addr AND NOT (nif_netmask nif) = IPADDR_BROADCAST AND NOT (nif_netmask nif)
      then True else False)"

function nm_first_zero :: "u32 \<Rightarrow> u32 \<Rightarrow> u32" where
  "nm_first_zero nm m =
     (if m \<noteq> 0 then (if nm AND m = 0 then m else nm_first_zero nm (drop_bit 1 m)) else m)"
  by pat_completeness auto

lemma drop_bit_one_less: "m \<noteq> 0 \<Longrightarrow> unat (drop_bit 1 m) < unat (m :: u32)"
proof -
  assume "m \<noteq> 0"
  then have "0 < unat m" by (simp add: unat_gt_0)
  then show ?thesis by (simp add: drop_bit_eq_div unat_div)
qed

termination nm_first_zero
  by (relation "measure (\<lambda>(nm, m). unat m)") (auto intro: drop_bit_one_less [simplified])

function nm_rest_zero :: "u32 \<Rightarrow> u32 \<Rightarrow> bool" where
  "nm_rest_zero nm m =
     (if m \<noteq> 0 then (if nm AND m \<noteq> 0 then False else nm_rest_zero nm (drop_bit 1 m)) else True)"
  by pat_completeness auto
termination nm_rest_zero
  by (relation "measure (\<lambda>(nm, m). unat m)") (auto intro: drop_bit_one_less [simplified])

declare nm_first_zero.simps [simp del] nm_rest_zero.simps [simp del]

definition ip4_addr_netmask_valid :: "u32 \<Rightarrow> bool" where
  "ip4_addr_netmask_valid netmask =
     (let nm = lwip_htonl netmask in nm_rest_zero nm (nm_first_zero nm (push_bit 31 1)))"

section \<open>Round trip of address text\<close>

lemma rev_octet_inv: "rev (octet_inv n) = show_nat n"
proof (induction n rule: octet_inv.induct)
  case (1 n)
  then show ?case by (auto simp: octet_inv.simps [of n] show_nat.simps [of n])
qed

lemma hd_show_nat_pos: "0 < n \<Longrightarrow> hd (show_nat n) \<noteq> CHR ''0''"
proof (induction n rule: show_nat.induct)
  case (1 n)
  show ?case
  proof (cases "n < 10")
    case True
    with 1(2) have "digit_char n \<noteq> digit_char 0"
      by (metis digit_val_digit_char less_numeral_extra(3) zero_less_numeral)
    with True show ?thesis by (simp add: show_nat.simps [of n])
  next
    case False
    with 1 show ?thesis by (simp add: show_nat.simps [of n])
  qed
qed

lemma aton_digits_decimal:
  assumes "\<forall>c \<in> set ds. is_digit c" and "rest = [] \<or> \<not> is_digit (hd rest)"
  shows "aton_digits 10 val (ds @ rest) =
     (fold (\<lambda>c v. v * 10 + of_nat (digit_val c)) ds val, rest)"
  using assms by (induction ds arbitrary: val) (cases rest; auto)+

lemma fold_show_nat_u32:
  "fold (\<lambda>c v. v * 10 + of_nat (digit_val c)) (show_nat n) 0 = (of_nat n :: u32)"
proof (induction n rule: show_nat.induct)
  case (1 n)
  show ?case
  proof (cases "n < 10")
    case True
    then show ?thesis by (simp add: show_nat.simps [of n])
  next
    case False
    with 1 have "fold (\<lambda>c v. v * 10 + of_nat (digit_val c)) (show_nat n) 0
        = (of_nat (n div 10) * 10 + of_nat (n mod 10) :: u32)"
      by (simp add: show_nat.simps [of n])
    also have "\<dots> = of_nat (n div 10 * 10 + n mod 10)" by (simp only: of_nat_add of_nat_mult of_nat_numeral)
    finally show ?thesis by simp
  qed
qed

lemma aton_number_show_nat:
  assumes "rest = [] \<or> hd rest = CHR ''.''"
  shows "aton_number (show_nat n @ rest) = Some (of_nat n, rest)"
proof -
  have rest: "rest = [] \<or> \<not> is_digit (hd rest)" using assms by (auto simp: is_digit_def)
  have dig: "is_digit (hd (show_nat n @ rest))" using hd_show_nat [of n] by simp
  show ?thesis
  proof (cases "n = 0")
    case True
    have z: "show_nat 0 = ''0''" by code_simp
    have "aton_digits 8 0 rest = (0, rest)" using rest by (cases rest) auto
    with True z dig assms show ?thesis by (auto simp: aton_number_def)
  next
    case False
    with aton_digits_decimal [OF _ rest, of "show_nat n" 0] show_nat_digits fold_show_nat_u32
      dig hd_show_nat_pos [of n]
    show ?thesis by (auto simp: aton_number_def)
  qed
qed

lemma aton_parts_dotted:
  "aton_parts [] (dotted a b c d) = Some ([of_nat a, of_nat b, of_nat c], of_nat d, [])"
  unfolding dotted_def
  by (simp add: aton_parts.simps aton_number_show_nat aton_number_show_nat [of "[]", simplified])

lemma put_chars_enough:
  "int (length buf + length cs) \<le> buflen \<Longrightarrow> put_chars buflen buf cs = Some (buf @ cs)"
  by (induction cs arbitrary: buf) auto

lemma length_show_nat_octet: "n < 1000 \<Longrightarrow> length (show_nat n) \<le> 3"
  by (simp add: show_nat.simps)

lemma octet_less: "octet a n < 256"
  unfolding octet_def unsigned_take_bit_eq using take_bit_nat_less_exp [of 8] by simp

lemma ntoa_octets_dotted:
  assumes "16 \<le> buflen"
  shows "ntoa_octets a buflen [0, 1, 2, 3] [] =
     Some (dotted (octet a 0) (octet a 1) (octet a 2) (octet a 3) @ ''.'')"
proof -
  have len: "length (show_nat (octet a n)) \<le> 3" for n
    using length_show_nat_octet octet_less [of a n] by simp
  have l: "length (show_nat (octet a 0)) \<le> 3" "length (show_nat (octet a 1)) \<le> 3"
    "length (show_nat (octet a 2)) \<le> 3" "length (show_nat (octet a 3)) \<le> 3"
    by (rule len)+
  show ?thesis
    using l assms by (simp add: rev_octet_inv put_chars_enough dotted_def)
qed

lemma ip4addr_ntoa_r_dotted:
  "16 \<le> buflen \<Longrightarrow> ip4addr_ntoa_r a buflen =
     Some (dotted (octet a 0) (octet a 1) (octet a 2) (octet a 3))"
  unfolding ip4addr_ntoa_r_def
  by (simp only: ntoa_octets_dotted option.map butlast_snoc)

lemma of_nat_octet: "(of_nat (octet a n) :: u32) = take_bit 8 (drop_bit (8 * n) a)"
  by (simp add: octet_def)

lemma htonl_octets:
  "lwip_htonl (of_nat (octet a 3) OR (push_bit 24 (of_nat (octet a 0)) OR
      push_bit 16 (of_nat (octet a 1)) OR push_bit 8 (of_nat (octet a 2)))) = a"
  (is "lwip_htonl ?v = a")
proof -
  have "?v = lwip_htonl a"
  proof (rule bit_word_eqI)
    fix i assume "i < LENGTH(32)"
    then consider "i < 8" | "8 \<le> i" "i < 16" | "16 \<le> i" "i < 24" | "24 \<le> i" "i < 32"
      by fastforce
    then show "bit ?v i = bit (lwip_htonl a) i"
    proof cases
      case 1
      then show ?thesis by (simp add: lwip_htonl_bit_cases of_nat_octet bit_simps add.commute)
    next
      case 2
      then show ?thesis by (simp add: lwip_htonl_bit_cases of_nat_octet bit_simps add.commute) arith
    next
      case 3
      then show ?thesis by (simp add: lwip_htonl_bit_cases of_nat_octet bit_simps) arith
    next
      case 4
      then show ?thesis by (simp add: lwip_htonl_bit_cases of_nat_octet bit_simps) arith
    qed
  qed
  then show ?thesis by (simp add: lwip_htonl_involution)
qed

lemma of_nat_octet_le: "n < 256 \<Longrightarrow> \<not> (0xff :: u32) < of_nat n"
  by (simp add: word_less_nat_alt unat_of_nat)

lemma ip4addr_aton_dotted:
  assumes "a < 256" "b < 256" "c < 256" "d < 256"
  shows "ip4addr_aton (dotted a b c d) = Some (lwip_htonl (of_nat d OR
     (push_bit 24 (of_nat a) OR push_bit 16 (of_nat b) OR push_bit 8 (of_nat c))))"
  using assms by (simp add: ip4addr_aton_def aton_parts_dotted aton_combine_def of_nat_octet_le)

text \<open>printing an address and parsing the text gives the address back, for every one of
  the 2^32 addresses and every buffer of at least 16 bytes.\<close>

theorem ip4addr_text_roundtrip:
  assumes "16 \<le> buflen"
  shows "\<exists>s. ip4addr_ntoa_r a buflen = Some s \<and> ip4addr_aton s = Some a"
  using ip4addr_ntoa_r_dotted [OF assms] ip4addr_aton_dotted htonl_octets octet_less by simp

theorem ip4addr_text_roundtrip_witness:
  "(16::int) \<le> 32 \<and> ip4addr_ntoa_r 0x0500000A 32 = Some ''10.0.0.5'' \<and> ip4addr_aton ''10.0.0.5'' = Some 0x0500000A"
proof -
  have h: "(16::int) \<le> 32" by simp
  have "ip4addr_ntoa_r 0x0500000A 32 = Some ''10.0.0.5''" by code_simp
  with ip4addr_text_roundtrip [OF h, of "0x0500000A"] show ?thesis by simp
qed

section \<open>Contiguous netmasks\<close>

lemma drop_exp_Suc: "Suc i < 32 \<Longrightarrow> drop_bit 1 ((2::u32) ^ Suc i) = 2 ^ i"
  by (rule bit_word_eqI) (auto simp: bit_simps bit_exp_iff)

lemma drop_exp_zero: "drop_bit 1 ((2::u32) ^ 0) = 0"
  by (rule bit_word_eqI) (auto simp: bit_simps bit_exp_iff)

lemma nm_first_zero_exp:
  "i < 32 \<Longrightarrow> nm_first_zero nm (2 ^ i) =
     (if \<not> bit nm i then 2 ^ i else nm_first_zero nm (drop_bit 1 (2 ^ i)))"
  by (subst nm_first_zero.simps) (simp add: and_exp_eq_0_iff_not_bit)

lemma nm_rest_zero_exp:
  "i < 32 \<Longrightarrow> nm_rest_zero nm (2 ^ i) = (\<not> bit nm i \<and> nm_rest_zero nm (drop_bit 1 (2 ^ i)))"
  by (subst nm_rest_zero.simps) (simp add: and_exp_eq_0_iff_not_bit)

lemma nm_rest_zero_iff: "i < 32 \<Longrightarrow> nm_rest_zero nm (2 ^ i) \<longleftrightarrow> (\<forall>j \<le> i. \<not> bit nm j)"
proof (induction i)
  case 0
  then show ?case
    by (simp only: nm_rest_zero_exp drop_exp_zero) (simp add: nm_rest_zero.simps)
next
  case (Suc i)
  then show ?case
    by (simp only: nm_rest_zero_exp drop_exp_Suc) (auto simp: le_Suc_eq)
qed

lemma nm_loops_iff:
  "i < 32 \<Longrightarrow> nm_rest_zero nm (nm_first_zero nm (2 ^ i)) \<longleftrightarrow>
     (\<exists>k \<le> Suc i. \<forall>j \<le> i. bit nm j \<longleftrightarrow> k \<le> j)"
proof (induction i)
  case 0
  have "nm_first_zero nm 0 = 0" "nm_rest_zero nm 0"
    by (simp_all add: nm_first_zero.simps nm_rest_zero.simps)
  with 0 have "nm_rest_zero nm (nm_first_zero nm (2 ^ 0))"
    by (simp only: nm_first_zero_exp nm_rest_zero_iff drop_exp_zero) (simp add: nm_rest_zero_iff [of 0, simplified])
  moreover have "\<exists>k \<le> Suc 0. \<forall>j \<le> 0. bit nm j \<longleftrightarrow> k \<le> j"
    by (rule exI [of _ "if bit nm 0 then 0 else 1"]) auto
  ultimately show ?case by blast
next
  case (Suc i)
  show ?case
  proof (cases "bit nm (Suc i)")
    case True
    with Suc have "nm_rest_zero nm (nm_first_zero nm (2 ^ Suc i)) \<longleftrightarrow>
        (\<exists>k \<le> Suc i. \<forall>j \<le> i. bit nm j \<longleftrightarrow> k \<le> j)"
      by (simp only: nm_first_zero_exp drop_exp_Suc) simp
    also have "\<dots> \<longleftrightarrow> (\<exists>k \<le> Suc (Suc i). \<forall>j \<le> Suc i. bit nm j \<longleftrightarrow> k \<le> j)"
      using True by (metis le_Suc_eq le_refl)
    finally show ?thesis .
  next
    case False
    with Suc.prems have "nm_rest_zero nm (nm_first_zero nm (2 ^ Suc i)) \<longleftrightarrow> (\<forall>j \<le> Suc i. \<not> bit nm j)"
      by (simp only: nm_first_zero_exp nm_rest_zero_iff if_True not_False_eq_True)
    also have "\<dots> \<longleftrightarrow> (\<exists>k \<le> Suc (Suc i). \<forall>j \<le> Suc i. bit nm j \<longleftrightarrow> k \<le> j)"
      using False by (metis le_Suc_eq le_refl not_less_eq_eq)
    finally show ?thesis .
  qed
qed

text \<open>the netmask check accepts exactly the masks whose host-order value is a block of
  ones followed by a block of zeros.\<close>

theorem ip4_addr_netmask_valid_iff:
  "ip4_addr_netmask_valid netmask \<longleftrightarrow> (\<exists>k \<le> 32. lwip_htonl netmask = NOT (mask k))"
proof -
  have m: "push_bit 31 (1 :: u32) = 2 ^ 31" by simp
  have "lwip_htonl netmask = NOT (mask k) \<longleftrightarrow> (\<forall>j \<le> 31. bit (lwip_htonl netmask) j \<longleftrightarrow> k \<le> j)"
    if "k \<le> 32" for k
    by (auto simp: bit_eq_iff bit_simps not_le le_less_trans dest: bit_imp_le_length)
  then show ?thesis
    using nm_loops_iff [of 31 "lwip_htonl netmask"]
    unfolding ip4_addr_netmask_valid_def Let_def m by auto
qed
end
