(* ===== verification/Proxy_State.thy ===== *)
theory Proxy_State
  imports Byte_Buffer Ip4_Addr
begin

text \<open>
  The data of \<open>src/proxy-engine/main.c\<close>: listeners, connections, the global variables of the
  engine, and the calls it makes to the operating system and to lwIP. A buffer with its
  fill count is the list of its valid bytes (\<open>Byte_Buffer\<close> justifies this). A file
  descriptor is an \<open>int\<close> (negative: none), a \<open>tcp_pcb *\<close> a number or \<open>None\<close> for NULL.

  Calls into lwIP and the system are recorded as a list of effects; what they return is
  taken from an environment record, one snapshot per handler, so that every theorem holds for
  whatever they answer.
\<close>

section \<open>Constants\<close>

definition MAX_CONNECTIONS :: nat where "MAX_CONNECTIONS = 128"
definition MAX_LISTENERS :: nat where "MAX_LISTENERS = 34"
definition MAX_HEADER :: nat where "MAX_HEADER = 8192"
definition BUFFER_SIZE :: nat where "BUFFER_SIZE = 65536"
definition MAX_CONTROL_REQUEST :: nat where "MAX_CONTROL_REQUEST = 16384"
definition TCP_MSS :: nat where "TCP_MSS = 1360"
definition HOST_SIZE :: nat where "HOST_SIZE = 256"

lemmas limits = MAX_CONNECTIONS_def MAX_LISTENERS_def MAX_HEADER_def BUFFER_SIZE_def
  MAX_CONTROL_REQUEST_def TCP_MSS_def HOST_SIZE_def

section \<open>Types\<close>

datatype listener_kind = HTTP_PROXY | SOCKS_PROXY | FORWARD

datatype connection_phase =
  PROXY_HEADER | SOCKS_GREETING | SOCKS_REQUEST | RESOLVING | CONNECTING | STREAMING
| CONNECTION_CLOSED

datatype err_t =
  ERR_OK | ERR_MEM | ERR_BUF | ERR_TIMEOUT | ERR_RTE | ERR_INPROGRESS | ERR_VAL
| ERR_WOULDBLOCK | ERR_USE | ERR_ALREADY | ERR_ISCONN | ERR_CONN | ERR_IF | ERR_ABRT
| ERR_RST | ERR_CLSD | ERR_ARG

type_synonym pcb = nat

record listener =
  l_fd :: int
  l_kind :: listener_kind
  local_port :: int
  remote_port :: int
  remote_host :: string

record connection =
  fd :: int
  kind :: listener_kind
  phase :: connection_phase
  tcp :: "pcb option"
  resolving :: bool
  remote_closed :: bool
  http_connect :: bool
  host :: string
  port :: int
  header :: bytes
  to_remote :: bytes
  to_local :: bytes

datatype effect =
  Accept_fd int
| Close_fd int
| Write_fd int bytes
| Socket_fd int
| Listen_fd int int
| Close_listener int
| Reply int bytes
| Close_peer int
| Tcp_attach pcb
| Tcp_detach pcb
| Tcp_abort pcb
| Tcp_close pcb err_t
| Tcp_write pcb bytes
| Tcp_output pcb
| Tcp_connect pcb u32 u16
| Tcp_recved pcb nat
| Dns_query string
| Ppp_close
| Kill int
| Unlink string

record net_env =
  env_sndbuf :: "pcb \<Rightarrow> u16"
  env_write :: "pcb \<Rightarrow> bytes \<Rightarrow> err_t"
  env_close :: "pcb \<Rightarrow> err_t"
  env_new :: "pcb option"
  env_connect :: "pcb \<Rightarrow> u32 \<Rightarrow> u16 \<Rightarrow> err_t"
  env_dns :: "string \<Rightarrow> err_t \<times> u32"

record engine =
  connections :: "connection list"
  listeners :: "listener list"
  link_up :: bool
  stop_requested :: bool
  sent_bytes :: u64
  received_bytes :: u64
  connected_since_ms :: u64
  pty_fd :: int
  control_fd :: int
  control_socket_path :: "string option"
  pptp_pid :: int
  vpn_password :: bytes
  effects :: "effect list"

text \<open>A cleared slot: \<open>memset (c, 0, sizeof *c)\<close>.\<close>

definition zero_connection :: connection where
  "zero_connection =
     \<lparr>fd = 0, kind = HTTP_PROXY, phase = PROXY_HEADER, tcp = None, resolving = False,
      remote_closed = False, http_connect = False, host = [], port = 0, header = [],
      to_remote = [], to_local = []\<rparr>"

section \<open>Operating on one slot of the connection table\<close>

definition emit :: "effect list \<Rightarrow> engine \<Rightarrow> engine" where
  "emit es s = s\<lparr>effects := effects s @ es\<rparr>"

definition with_conn ::
    "nat \<Rightarrow> (connection \<Rightarrow> connection \<times> effect list) \<Rightarrow> engine \<Rightarrow> engine" where
  "with_conn i f s =
     (let (c, es) = f (connections s ! i)
      in emit es (s\<lparr>connections := (connections s)[i := c]\<rparr>))"

text \<open>
  The descriptors of client sockets that a list of calls accepted and closed, and the
  protocol control blocks it took over from and gave back to lwIP.
\<close>

fun accepted_fds :: "effect list \<Rightarrow> int list" where
  "accepted_fds [] = []"
| "accepted_fds (Accept_fd n # es) = n # accepted_fds es"
| "accepted_fds (_ # es) = accepted_fds es"

fun closed_fds :: "effect list \<Rightarrow> int list" where
  "closed_fds [] = []"
| "closed_fds (Close_fd n # es) = n # closed_fds es"
| "closed_fds (_ # es) = closed_fds es"

text \<open>The listening sockets a list of calls created and closed.\<close>

fun opened_sockets :: "effect list \<Rightarrow> int list" where
  "opened_sockets [] = []"
| "opened_sockets (Socket_fd n # es) = n # opened_sockets es"
| "opened_sockets (_ # es) = opened_sockets es"

fun closed_sockets :: "effect list \<Rightarrow> int list" where
  "closed_sockets [] = []"
| "closed_sockets (Close_listener n # es) = n # closed_sockets es"
| "closed_sockets (_ # es) = closed_sockets es"

fun attached_pcbs :: "effect list \<Rightarrow> pcb list" where
  "attached_pcbs [] = []"
| "attached_pcbs (Tcp_attach p # es) = p # attached_pcbs es"
| "attached_pcbs (_ # es) = attached_pcbs es"

fun released_pcbs :: "effect list \<Rightarrow> pcb list" where
  "released_pcbs [] = []"
| "released_pcbs (Tcp_abort p # es) = p # released_pcbs es"
| "released_pcbs (Tcp_close p r # es) = (if r = ERR_OK then [p] else []) @ released_pcbs es"
| "released_pcbs (_ # es) = released_pcbs es"

definition held_fd :: "connection \<Rightarrow> int list" where
  "held_fd c = (if 0 \<le> fd c then [fd c] else [])"

definition held_pcb :: "connection \<Rightarrow> pcb list" where
  "held_pcb c = (case tcp c of None \<Rightarrow> [] | Some p \<Rightarrow> [p])"

definition remote_open :: "connection \<Rightarrow> bool" where
  "remote_open c \<longleftrightarrow> 0 \<le> fd c
     \<and> (phase c = RESOLVING \<or> phase c = CONNECTING \<or> phase c = STREAMING)"

section \<open>Well-formed connections\<close>

definition valid_port :: "int \<Rightarrow> bool" where
  "valid_port value \<longleftrightarrow> value > 0 \<and> value \<le> 65535"

definition target_ok :: "connection \<Rightarrow> bool" where
  "target_ok c \<longleftrightarrow> host c \<noteq> [] \<and> length (host c) < HOST_SIZE \<and> NUL \<notin> set (host c) \<and> valid_port (port c)"

definition header_phase :: "connection_phase \<Rightarrow> bool" where
  "header_phase p \<longleftrightarrow> p = PROXY_HEADER \<or> p = SOCKS_GREETING \<or> p = SOCKS_REQUEST"

definition remote_phase :: "connection_phase \<Rightarrow> bool" where
  "remote_phase p \<longleftrightarrow> p = RESOLVING \<or> p = CONNECTING \<or> p = STREAMING"

definition buffers_ok :: "connection \<Rightarrow> bool" where
  "buffers_ok c \<longleftrightarrow> length (to_remote c) \<le> BUFFER_SIZE \<and> length (to_local c) \<le> BUFFER_SIZE
     \<and> length (header c) < MAX_HEADER"

text \<open>What the phase says about the rest of an open connection.\<close>

definition phase_ok :: "connection \<Rightarrow> bool" where
  "phase_ok c \<longleftrightarrow>
     phase c \<noteq> CONNECTION_CLOSED
     \<and> (header_phase (phase c) \<longrightarrow> tcp c = None \<and> \<not> resolving c \<and> to_remote c = [])
     \<and> (phase c = RESOLVING \<longrightarrow> tcp c = None \<and> resolving c)
     \<and> (phase c = CONNECTING \<or> phase c = STREAMING \<longrightarrow>
          \<not> resolving c \<and> (tcp c = None \<longrightarrow> remote_closed c \<and> to_local c \<noteq> []))
     \<and> (remote_phase (phase c) \<longrightarrow> target_ok c)"

definition conn_ok :: "connection \<Rightarrow> bool" where
  "conn_ok c \<longleftrightarrow> buffers_ok c \<and> (if fd c < 0 then tcp c = None else phase_ok c)"

lemmas conn_defs = conn_ok_def buffers_ok_def phase_ok_def header_phase_def remote_phase_def

lemma effect_projections_append [simp]:
  "accepted_fds (es @ fs) = accepted_fds es @ accepted_fds fs"
  "closed_fds (es @ fs) = closed_fds es @ closed_fds fs"
  "attached_pcbs (es @ fs) = attached_pcbs es @ attached_pcbs fs"
  "released_pcbs (es @ fs) = released_pcbs es @ released_pcbs fs"
  "opened_sockets (es @ fs) = opened_sockets es @ opened_sockets fs"
  "closed_sockets (es @ fs) = closed_sockets es @ closed_sockets fs"
  subgoal by (induction es rule: accepted_fds.induct) simp_all
  subgoal by (induction es rule: closed_fds.induct) simp_all
  subgoal by (induction es rule: attached_pcbs.induct) simp_all
  subgoal by (induction es rule: released_pcbs.induct) simp_all
  subgoal by (induction es rule: opened_sockets.induct) simp_all
  subgoal by (induction es rule: closed_sockets.induct) simp_all
  done

lemma with_conn_connections [simp]:
  "connections (with_conn i f s) = (connections s)[i := fst (f (connections s ! i))]"
  by (simp add: with_conn_def emit_def Let_def split: prod.splits)

lemma with_conn_frame [simp]:
  "listeners (with_conn i f s) = listeners s"
  "link_up (with_conn i f s) = link_up s"
  "stop_requested (with_conn i f s) = stop_requested s"
  "sent_bytes (with_conn i f s) = sent_bytes s"
  "received_bytes (with_conn i f s) = received_bytes s"
  "connected_since_ms (with_conn i f s) = connected_since_ms s"
  by (simp_all add: with_conn_def emit_def Let_def split: prod.splits)

lemma with_conn_effects:
  "effects (with_conn i f s) = effects s @ snd (f (connections s ! i))"
  by (simp add: with_conn_def emit_def Let_def split: prod.splits)

lemma conn_ok_header_phase:
  "conn_ok c \<Longrightarrow> 0 \<le> fd c \<Longrightarrow> header_phase (phase c) \<Longrightarrow>
     tcp c = None \<and> \<not> resolving c \<and> to_remote c = []"
  by (simp add: conn_ok_def phase_ok_def)

lemma list_all_update: "list_all P xs \<Longrightarrow> P y \<Longrightarrow> list_all P (xs[i := y])"
  by (metis list_all_length length_list_update nth_list_update_eq nth_list_update_neq)

lemma list_all_nth: "list_all P xs \<Longrightarrow> i < length xs \<Longrightarrow> P (xs ! i)"
  by (simp add: list_all_length)

end
