(* ===== verification/Proxy_Connection.thy ===== *)
theory Proxy_Connection
  imports Proxy_State
begin

text \<open>
  The life of one proxied connection (\<open>src/proxy-engine/main.c\<close>, \<open>close_connection\<close> to
  \<open>set_target\<close>, and \<open>flush_local\<close>): the callbacks lwIP invokes, the DNS callback, starting
  the remote connection, and moving bytes in both directions. Every operation maps a
  connection to the new connection and the calls it made.
\<close>

section \<open>Operations\<close>

definition close_connection :: "connection \<Rightarrow> connection \<times> effect list" where
  "close_connection c =
     (c\<lparr>fd := -1, tcp := None, phase := CONNECTION_CLOSED,
        to_remote := [], to_local := [], header := []\<rparr>,
      (if fd c \<ge> 0 then [Close_fd (fd c)] else []) @
      (case tcp c of None \<Rightarrow> [] | Some p \<Rightarrow> [Tcp_detach p, Tcp_abort p]))"

definition local_reply :: "bytes \<Rightarrow> connection \<Rightarrow> connection option" where
  "local_reply data c =
     map_option (\<lambda>b. c\<lparr>to_local := b\<rparr>) (push_list BUFFER_SIZE data (to_local c))"

definition flush_count :: "net_env \<Rightarrow> pcb \<Rightarrow> connection \<Rightarrow> nat" where
  "flush_count env p c =
     (let space = unat (env_sndbuf env p);
          count = (if length (to_remote c) < space then length (to_remote c) else space)
      in if count > TCP_MSS then TCP_MSS else count)"

definition flush_remote :: "net_env \<Rightarrow> connection \<Rightarrow> connection \<times> effect list" where
  "flush_remote env c =
     (case tcp c of
        None \<Rightarrow> (c, [])
      | Some p \<Rightarrow>
          if phase c \<noteq> STREAMING \<or> to_remote c = [] then (c, [])
          else (let count = flush_count env p c in
                if count = 0 then (c, [])
                else if env_write env p (take count (to_remote c)) \<noteq> ERR_OK then (c, [])
                else (c\<lparr>to_remote := drop count (to_remote c)\<rparr>,
                      [Tcp_write p (take count (to_remote c)), Tcp_output p])))"

definition on_tcp_sent :: "net_env \<Rightarrow> nat \<Rightarrow> u16 \<Rightarrow> engine \<Rightarrow> err_t \<times> engine" where
  "on_tcp_sent env i len s =
     (ERR_OK, with_conn i (flush_remote env) (s\<lparr>sent_bytes := sent_bytes s + ucast len\<rparr>))"

definition on_tcp_poll :: "net_env \<Rightarrow> nat \<Rightarrow> engine \<Rightarrow> err_t \<times> engine" where
  "on_tcp_poll env i s = (ERR_OK, with_conn i (flush_remote env) s)"

definition on_tcp_error :: "connection \<Rightarrow> connection \<times> effect list" where
  "on_tcp_error c = close_connection (c\<lparr>tcp := None\<rparr>)"

text \<open>The end of the remote stream: \<open>p\<close> is NULL in the callback.\<close>

definition remote_end :: "net_env \<Rightarrow> pcb \<Rightarrow> connection \<Rightarrow> err_t \<times> connection \<times> effect list" where
  "remote_end env p c =
     (let c1 = c\<lparr>remote_closed := True\<rparr>;
          r = env_close env p;
          ret = (if r \<noteq> ERR_OK then ERR_ABRT else ERR_OK);
          es = [Tcp_detach p, Tcp_close p r] @ (if r \<noteq> ERR_OK then [Tcp_abort p] else []);
          c2 = c1\<lparr>tcp := None\<rparr>
      in if to_local c2 = []
         then (let (c3, es') = close_connection c2 in (ret, c3, es @ es'))
         else (ret, c2, es))"

text \<open>
  The receive callback: \<open>data\<close> is \<open>None\<close> for a NULL pbuf. The number is what is added to
  \<open>received_bytes\<close>.
\<close>

definition on_tcp_receive ::
    "net_env \<Rightarrow> pcb \<Rightarrow> bytes option \<Rightarrow> err_t \<Rightarrow> connection \<Rightarrow> err_t \<times> nat \<times> connection \<times> effect list" where
  "on_tcp_receive env p data err c =
     (if err \<noteq> ERR_OK then (err, 0, c, [])
      else (case data of
              None \<Rightarrow> (let (r, c', es) = remote_end env p c in (r, 0, c', es))
            | Some bs \<Rightarrow>
                if length bs > BUFFER_SIZE - length (to_local c) then (ERR_MEM, 0, c, [])
                else (ERR_OK, length bs, c\<lparr>to_local := to_local c @ bs\<rparr>,
                      [Tcp_recved p (length bs)])))"

definition http_ok_reply :: bytes where
  "http_ok_reply = ''HTTP/1.1 200 Connection Established'' @ CRLF @ CRLF"

definition socks_ok_reply :: bytes where
  "socks_ok_reply = map char_of [5, 0, 0, 1, 0, 0, 0, 0, 0, 0 :: nat]"

definition on_tcp_connected ::
    "net_env \<Rightarrow> err_t \<Rightarrow> connection \<Rightarrow> err_t \<times> connection \<times> effect list" where
  "on_tcp_connected env err c =
     (if err \<noteq> ERR_OK then (ERR_ABRT, close_connection c)
      else (let c1 = c\<lparr>phase := STREAMING\<rparr>;
                replied = (if kind c1 = HTTP_PROXY \<and> http_connect c1 then local_reply http_ok_reply c1
                           else if kind c1 = SOCKS_PROXY then local_reply socks_ok_reply c1
                           else Some c1)
            in case replied of
                 None \<Rightarrow> (ERR_ABRT, close_connection c1)
               | Some c2 \<Rightarrow> (ERR_OK, flush_remote env c2)))"

definition connect_ip :: "net_env \<Rightarrow> u32 \<Rightarrow> connection \<Rightarrow> connection \<times> effect list" where
  "connect_ip env address c =
     (let c1 = c\<lparr>resolving := False\<rparr> in
      if phase c1 = CONNECTION_CLOSED \<or> fd c1 < 0 then (c1, [])
      else (case env_new env of
              None \<Rightarrow> close_connection (c1\<lparr>tcp := None\<rparr>)
            | Some p \<Rightarrow>
                (let c2 = c1\<lparr>tcp := Some p, phase := CONNECTING\<rparr>;
                     dport = word_of_int (port c2) :: u16;
                     es = [Tcp_attach p, Tcp_connect p address dport]
                 in if env_connect env p address dport \<noteq> ERR_OK
                    then (let (c3, es') = close_connection c2 in (c3, es @ es'))
                    else (c2, es))))"

definition dns_done :: "net_env \<Rightarrow> u32 option \<Rightarrow> connection \<Rightarrow> connection \<times> effect list" where
  "dns_done env address c =
     (case address of
        None \<Rightarrow> close_connection (c\<lparr>resolving := False\<rparr>)
      | Some a \<Rightarrow> connect_ip env a c)"

text \<open>\<open>IP_IS_V4\<close> is the constant 1 in an IPv4-only build (\<open>LWIP_IPV6\<close> is 0).\<close>

definition IP_IS_V4 :: "u32 \<Rightarrow> bool" where
  "IP_IS_V4 address = True"

definition start_connection :: "net_env \<Rightarrow> bool \<Rightarrow> connection \<Rightarrow> connection \<times> effect list" where
  "start_connection env link c =
     (if \<not> link then close_connection c
      else (case ip4addr_aton (host c) of
              Some a \<Rightarrow> if \<not> IP_IS_V4 a then close_connection c else connect_ip env a c
            | None \<Rightarrow>
                (let c1 = c\<lparr>phase := RESOLVING, resolving := True\<rparr>;
                     (result, a) = env_dns env (host c1)
                 in if result = ERR_OK
                    then (let (c2, es) = connect_ip env a c1 in (c2, Dns_query (host c1) # es))
                    else if result \<noteq> ERR_INPROGRESS
                    then (let (c2, es) = close_connection (c1\<lparr>resolving := False\<rparr>)
                          in (c2, Dns_query (host c1) # es))
                    else (c1, [Dns_query (host c1)]))))"

definition set_target :: "string \<Rightarrow> int \<Rightarrow> connection \<Rightarrow> connection option" where
  "set_target h p c =
     (if h = [] \<or> length h \<ge> HOST_SIZE \<or> \<not> valid_port p then None
      else Some (c\<lparr>host := h, port := p\<rparr>))"

text \<open>
  \<open>flush_local\<close>: \<open>written\<close> is what \<open>write\<close> returned, \<open>again\<close> whether \<open>errno\<close> was
  \<open>EAGAIN\<close> or \<open>EINTR\<close>.
\<close>

definition flush_local :: "int \<Rightarrow> bool \<Rightarrow> connection \<Rightarrow> connection \<times> effect list" where
  "flush_local written again c =
     (if fd c < 0 \<or> to_local c = [] then (c, [])
      else if written > 0 then
        (let c1 = c\<lparr>to_local := drop (nat written) (to_local c)\<rparr>;
             es = [Write_fd (fd c) (take (nat written) (to_local c))]
         in if remote_closed c1 \<and> to_local c1 = []
            then (let (c2, es') = close_connection c1 in (c2, es @ es'))
            else (c1, es))
      else if written < 0 \<and> \<not> again then close_connection c
      else (c, []))"

text \<open>The slot part of the two callbacks that also return an error code.\<close>

definition receive_slot :: "net_env \<Rightarrow> pcb \<Rightarrow> bytes option \<Rightarrow> err_t \<Rightarrow> connection \<Rightarrow> connection \<times> effect list" where
  "receive_slot env p data err c = (case on_tcp_receive env p data err c of (r, n, x) \<Rightarrow> x)"

definition connected_slot :: "net_env \<Rightarrow> err_t \<Rightarrow> connection \<Rightarrow> connection \<times> effect list" where
  "connected_slot env err c = snd (on_tcp_connected env err c)"

text \<open>A connection that may be handed to \<open>start_connection\<close>.\<close>

definition ready :: "connection \<Rightarrow> bool" where
  "ready c \<longleftrightarrow> buffers_ok c \<and> 0 \<le> fd c \<and> tcp c = None \<and> target_ok c \<and> phase c \<noteq> CONNECTION_CLOSED"

section \<open>What each operation does to the fields\<close>

lemma close_connection_fields [simp]:
  "fd (fst (close_connection c)) = -1"
  "tcp (fst (close_connection c)) = None"
  "phase (fst (close_connection c)) = CONNECTION_CLOSED"
  "to_remote (fst (close_connection c)) = []"
  "to_local (fst (close_connection c)) = []"
  "header (fst (close_connection c)) = []"
  "resolving (fst (close_connection c)) = resolving c"
  by (simp_all add: close_connection_def)

lemma close_connection_ok [simp]: "conn_ok (fst (close_connection c))"
  by (simp add: conn_ok_def buffers_ok_def limits)

lemma fst_let_close [simp]:
  "fst (let (c', es') = x in (c', f es')) = fst x"
  by (simp split: prod.splits)

lemma local_reply_Some:
  "local_reply d c = Some c' \<Longrightarrow>
     c' = c\<lparr>to_local := to_local c @ d\<rparr> \<and> length (to_local c) + length d \<le> max BUFFER_SIZE (length (to_local c))"
  by (auto simp: local_reply_def push_list_Some)

lemma flush_count_le:
  "flush_count env p c \<le> length (to_remote c) \<and> flush_count env p c \<le> unat (env_sndbuf env p)
     \<and> flush_count env p c \<le> TCP_MSS"
  by (auto simp: flush_count_def Let_def)

lemma held_fd_update [simp]:
  "held_fd (c\<lparr>phase := p\<rparr>) = held_fd c" "held_fd (c\<lparr>resolving := r\<rparr>) = held_fd c"
  "held_fd (c\<lparr>tcp := t\<rparr>) = held_fd c" "held_fd (c\<lparr>to_local := xs\<rparr>) = held_fd c"
  "held_fd (c\<lparr>to_remote := xs\<rparr>) = held_fd c" "held_fd (c\<lparr>header := xs\<rparr>) = held_fd c"
  "held_fd (c\<lparr>host := h\<rparr>) = held_fd c" "held_fd (c\<lparr>port := n\<rparr>) = held_fd c"
  "held_fd (c\<lparr>http_connect := r\<rparr>) = held_fd c" "held_fd (c\<lparr>remote_closed := r\<rparr>) = held_fd c"
  by (simp_all add: held_fd_def)

lemma held_pcb_update [simp]:
  "held_pcb (c\<lparr>phase := p\<rparr>) = held_pcb c" "held_pcb (c\<lparr>resolving := r\<rparr>) = held_pcb c"
  "held_pcb (c\<lparr>tcp := None\<rparr>) = []" "held_pcb (c\<lparr>tcp := Some q\<rparr>) = [q]"
  "held_pcb (c\<lparr>to_local := xs\<rparr>) = held_pcb c"
  "held_pcb (c\<lparr>to_remote := xs\<rparr>) = held_pcb c" "held_pcb (c\<lparr>header := xs\<rparr>) = held_pcb c"
  "held_pcb (c\<lparr>host := h\<rparr>) = held_pcb c" "held_pcb (c\<lparr>port := n\<rparr>) = held_pcb c"
  "held_pcb (c\<lparr>http_connect := r\<rparr>) = held_pcb c" "held_pcb (c\<lparr>remote_closed := r\<rparr>) = held_pcb c"
  by (simp_all add: held_pcb_def)

section \<open>The contract of a slot handler\<close>

locale slot_handler =
  fixes f :: "bool \<Rightarrow> connection \<Rightarrow> connection \<times> effect list"
    and pre :: "connection \<Rightarrow> bool"
  assumes keeps_ok: "conn_ok c \<Longrightarrow> pre c \<Longrightarrow> conn_ok (fst (f link c))"
    and gated: "conn_ok c \<Longrightarrow> pre c \<Longrightarrow> remote_open (fst (f link c)) \<Longrightarrow> link \<or> remote_open c"
    and fd_conserved: "conn_ok c \<Longrightarrow> pre c \<Longrightarrow>
          closed_fds (snd (f link c)) @ held_fd (fst (f link c)) = held_fd c"
    and accepts_none: "conn_ok c \<Longrightarrow> pre c \<Longrightarrow> accepted_fds (snd (f link c)) = []"

locale pcb_handler = slot_handler +
  assumes pcb_conserved: "conn_ok c \<Longrightarrow> pre c \<Longrightarrow>
          released_pcbs (snd (f link c)) @ held_pcb (fst (f link c))
            = held_pcb c @ attached_pcbs (snd (f link c))"

lemma close_connection_conserves:
  "closed_fds (snd (close_connection c)) = held_fd c"
  "held_fd (fst (close_connection c)) = []"
  "released_pcbs (snd (close_connection c)) = held_pcb c"
  "held_pcb (fst (close_connection c)) = []"
  "attached_pcbs (snd (close_connection c)) = []"
  "accepted_fds (snd (close_connection c)) = []"
  "\<not> remote_open (fst (close_connection c))"
  by (auto simp: close_connection_def held_fd_def held_pcb_def remote_open_def split: option.splits)

lemmas handler_defs = conn_defs held_fd_def held_pcb_def remote_open_def
lemmas close_simps = close_connection_conserves

interpretation close: pcb_handler "\<lambda>_. close_connection" "\<lambda>_. True"
  by unfold_locales (auto simp: close_simps)

lemma flush_remote_cases:
  obtains (idle) "flush_remote env c = (c, [])"
  | (sent) p n where "tcp c = Some p" "phase c = STREAMING" "0 < n" "n \<le> length (to_remote c)"
      "n \<le> unat (env_sndbuf env p)" "n \<le> TCP_MSS"
      "env_write env p (take n (to_remote c)) = ERR_OK"
      "flush_remote env c = (c\<lparr>to_remote := drop n (to_remote c)\<rparr>,
         [Tcp_write p (take n (to_remote c)), Tcp_output p])"
proof (cases "flush_remote env c = (c, [])")
  case True
  then show ?thesis by (rule idle)
next
  case False
  then obtain p where p: "tcp c = Some p" by (auto simp: flush_remote_def split: option.splits)
  let ?n = "flush_count env p c"
  from False p have "phase c = STREAMING" "0 < ?n" "env_write env p (take ?n (to_remote c)) = ERR_OK"
    "flush_remote env c = (c\<lparr>to_remote := drop ?n (to_remote c)\<rparr>,
         [Tcp_write p (take ?n (to_remote c)), Tcp_output p])"
    by (auto simp: flush_remote_def Let_def split: if_splits)
  with p flush_count_le [of env p c] show ?thesis by (intro sent) auto
qed

lemma streaming_drop_ok:
  "conn_ok c \<Longrightarrow> phase c = STREAMING \<Longrightarrow> conn_ok (c\<lparr>to_remote := drop n (to_remote c)\<rparr>)"
  by (auto simp: conn_defs target_ok_def)

interpretation flush_r: pcb_handler "\<lambda>_. flush_remote env" "\<lambda>_. True" for env
proof (unfold_locales, goal_cases)
  case (1 c)
  then show ?case
    by (cases rule: flush_remote_cases [of env c]) (auto intro: streaming_drop_ok)
next
  case (2 c)
  then show ?case
    by (cases rule: flush_remote_cases [of env c]) (auto simp: remote_open_def)
next
  case (3 c)
  then show ?case
    by (cases rule: flush_remote_cases [of env c]) (auto simp: held_fd_def)
next
  case (4 c)
  then show ?case
    by (cases rule: flush_remote_cases [of env c]) auto
next
  case (5 c)
  then show ?case
    by (cases rule: flush_remote_cases [of env c]) (auto simp: held_pcb_def)
qed

interpretation tcp_error: slot_handler "\<lambda>_. on_tcp_error" "\<lambda>_. True"
  by unfold_locales (auto simp: on_tcp_error_def close_simps held_fd_def)

lemma remote_end_laws:
  assumes "conn_ok c" and "tcp c = Some p"
  shows "conn_ok (fst (snd (remote_end env p c)))"
    and "remote_open (fst (snd (remote_end env p c))) \<Longrightarrow> remote_open c"
    and "closed_fds (snd (snd (remote_end env p c))) @ held_fd (fst (snd (remote_end env p c))) = held_fd c"
    and "accepted_fds (snd (snd (remote_end env p c))) = []"
    and "released_pcbs (snd (snd (remote_end env p c))) @ held_pcb (fst (snd (remote_end env p c)))
            = held_pcb c @ attached_pcbs (snd (snd (remote_end env p c)))"
  using assms
  by (auto simp: remote_end_def handler_defs target_ok_def close_connection_def limits Let_def split: if_splits)

interpretation receive: pcb_handler "\<lambda>_. receive_slot env p data err" "\<lambda>c. tcp c = Some p"
  for env p data err
proof (unfold_locales, goal_cases)
  case (1 c)
  then show ?case
    using remote_end_laws(1) [OF 1, of env]
    by (auto simp: receive_slot_def on_tcp_receive_def handler_defs target_ok_def split: option.splits prod.splits)
next
  case (2 c)
  then show ?case
    using remote_end_laws(2) [OF 2(1,2), of env]
    by (auto simp: receive_slot_def on_tcp_receive_def remote_open_def split: option.splits prod.splits if_splits)
next
  case (3 c)
  then show ?case
    using remote_end_laws(3) [OF 3, of env]
    by (auto simp: receive_slot_def on_tcp_receive_def held_fd_def split: option.splits prod.splits if_splits)
next
  case (4 c)
  then show ?case
    by (auto simp: receive_slot_def on_tcp_receive_def remote_end_def close_connection_def Let_def split: option.splits prod.splits if_splits)
next
  case (5 c)
  then show ?case
    using remote_end_laws(5) [OF 5, of env]
    by (auto simp: receive_slot_def on_tcp_receive_def held_pcb_def split: option.splits prod.splits if_splits)
qed

lemma local_reply_ok:
  assumes "local_reply d c = Some c'" and "conn_ok c"
  shows "conn_ok c' \<and> fd c' = fd c \<and> tcp c' = tcp c \<and> phase c' = phase c"
  using assms local_reply_Some [OF assms(1)]
  by (auto simp: conn_defs target_ok_def max_def split: if_splits)

lemma connected_streaming_ok:
  "conn_ok c \<Longrightarrow> tcp c = Some p \<Longrightarrow> conn_ok (c\<lparr>phase := STREAMING\<rparr>)"
  by (cases "phase c") (auto simp: conn_defs target_ok_def split: if_splits)

lemma connected_slot_cases:
  assumes "conn_ok c" and "tcp c = Some p"
  obtains (closed) c1 where "connected_slot env err c = close_connection c1"
      "held_fd c1 = held_fd c" "held_pcb c1 = held_pcb c"
  | (flushed) c2 where "connected_slot env err c = flush_remote env c2" "conn_ok c2"
      "held_fd c2 = held_fd c" "held_pcb c2 = held_pcb c"
proof (cases "err = ERR_OK")
  case False
  then show ?thesis by (intro closed [of c]) (auto simp: connected_slot_def on_tcp_connected_def)
next
  case True
  let ?c1 = "c\<lparr>phase := STREAMING\<rparr>"
  let ?r = "if kind c = HTTP_PROXY \<and> http_connect c then local_reply http_ok_reply ?c1
            else if kind c = SOCKS_PROXY then local_reply socks_ok_reply ?c1 else Some ?c1"
  have ok: "conn_ok ?c1" using assms by (rule connected_streaming_ok)
  have slot: "connected_slot env err c =
      (case ?r of None \<Rightarrow> close_connection ?c1 | Some c2 \<Rightarrow> flush_remote env c2)"
    using True by (auto simp: connected_slot_def on_tcp_connected_def Let_def split: option.splits)
  show ?thesis
  proof (cases ?r)
    case None
    with slot show ?thesis by (intro closed [of ?c1]) (auto simp: held_fd_def held_pcb_def)
  next
    case (Some c2)
    then have "conn_ok c2 \<and> fd c2 = fd c \<and> tcp c2 = tcp c \<and> phase c2 = STREAMING"
      using local_reply_ok [OF _ ok] ok by (auto split: if_splits)
    with slot Some show ?thesis by (intro flushed [of c2]) (auto simp: held_fd_def held_pcb_def)
  qed
qed

lemma tcp_open_remote: "conn_ok c \<Longrightarrow> tcp c = Some p \<Longrightarrow> remote_open c"
  by (cases "phase c") (auto simp: conn_defs remote_open_def split: if_splits)

interpretation connected: pcb_handler "\<lambda>_. connected_slot env err" "\<lambda>c. tcp c \<noteq> None" for env err
proof (unfold_locales, goal_cases)
  case (1 c)
  then obtain p where "tcp c = Some p" by auto
  then show ?case
    by (rule connected_slot_cases [OF 1(1), of p env err]) (auto simp: flush_r.keeps_ok)
next
  case (2 c)
  then show ?case using tcp_open_remote by auto
next
  case (3 c)
  then obtain p where "tcp c = Some p" by auto
  then show ?case
    by (rule connected_slot_cases [OF 3(1), of p env err])
      (auto simp: flush_r.fd_conserved close_simps)
next
  case (4 c)
  then obtain p where "tcp c = Some p" by auto
  then show ?case
    by (rule connected_slot_cases [OF 4(1), of p env err])
      (auto simp: flush_r.accepts_none close_simps)
next
  case (5 c)
  then obtain p where "tcp c = Some p" by auto
  then show ?case
    by (rule connected_slot_cases [OF 5(1), of p env err])
      (auto simp: flush_r.pcb_conserved close_simps)
qed
lemma connecting_ok:
  "ready c \<Longrightarrow> conn_ok (c\<lparr>resolving := False, tcp := Some p, phase := CONNECTING\<rparr>)"
  by (auto simp: ready_def conn_defs target_ok_def)

lemma connect_ip_cases:
  assumes "ready c"
  obtains (refused) c1 es where "connect_ip env a c = (fst (close_connection c1), es @ snd (close_connection c1))"
      "held_fd c1 = held_fd c" "held_pcb c1 = attached_pcbs es" "released_pcbs es = []"
      "closed_fds es = []" "accepted_fds es = []" "\<not> resolving c1"
  | (connecting) p where
      "connect_ip env a c = (c\<lparr>resolving := False, tcp := Some p, phase := CONNECTING\<rparr>,
         [Tcp_attach p, Tcp_connect p a (word_of_int (port c))])"
      "env_new env = Some p" "env_connect env p a (word_of_int (port c)) = ERR_OK"
proof (cases "env_new env")
  case None
  with assms show ?thesis
    by (intro refused [of "c\<lparr>resolving := False, tcp := None\<rparr>" "[]"])
      (auto simp: connect_ip_def ready_def held_fd_def held_pcb_def)
next
  case (Some p)
  let ?es = "[Tcp_attach p, Tcp_connect p a (word_of_int (port c))]"
  let ?c2 = "c\<lparr>resolving := False, tcp := Some p, phase := CONNECTING\<rparr>"
  show ?thesis
  proof (cases "env_connect env p a (word_of_int (port c)) = ERR_OK")
    case True
    with Some assms show ?thesis by (intro connecting [of p]) (auto simp: connect_ip_def ready_def Let_def)
  next
    case False
    with Some assms show ?thesis
      by (intro refused [of ?c2 ?es])
        (auto simp: connect_ip_def ready_def held_fd_def held_pcb_def Let_def split: prod.splits)
  qed
qed

lemma connect_ip_laws:
  assumes "ready c"
  shows "conn_ok (fst (connect_ip env a c))"
    and "closed_fds (snd (connect_ip env a c)) @ held_fd (fst (connect_ip env a c)) = held_fd c"
    and "accepted_fds (snd (connect_ip env a c)) = []"
    and "released_pcbs (snd (connect_ip env a c)) @ held_pcb (fst (connect_ip env a c))
           = held_pcb c @ attached_pcbs (snd (connect_ip env a c))"
  subgoal by (rule connect_ip_cases [OF assms, of env a]) (auto simp: close_simps connecting_ok [OF assms])
  subgoal by (rule connect_ip_cases [OF assms, of env a]) (simp_all add: close_simps)
  subgoal by (rule connect_ip_cases [OF assms, of env a]) (simp_all add: close_simps)
  subgoal
    by (rule connect_ip_cases [OF assms, of env a])
      (use assms in \<open>auto simp: close_simps ready_def held_pcb_def [of c]\<close>)
  done

lemma pending_ready: "conn_ok c \<Longrightarrow> resolving c \<Longrightarrow> 0 \<le> fd c \<Longrightarrow> ready c \<and> phase c = RESOLVING"
  by (cases "phase c") (auto simp: conn_defs ready_def)

lemma connect_ip_dead: "fd c < 0 \<Longrightarrow> connect_ip env a c = (c\<lparr>resolving := False\<rparr>, [])"
  by (simp add: connect_ip_def Let_def)

interpretation dns: pcb_handler "\<lambda>_. dns_done env address" resolving for env address
proof (unfold_locales, goal_cases)
  case (1 c)
  show ?case
  proof (cases "fd c < 0")
    case True
    with 1 show ?thesis by (auto simp: dns_done_def connect_ip_dead conn_ok_def buffers_ok_def split: option.splits)
  next
    case False
    with 1 pending_ready [of c] show ?thesis
      by (auto simp: dns_done_def connect_ip_laws split: option.splits)
  qed
next
  case (2 c)
  show ?case
  proof (cases "fd c < 0")
    case True
    with 2 show ?thesis by (auto simp: dns_done_def connect_ip_dead close_simps remote_open_def split: option.splits)
  next
    case False
    with 2 pending_ready [of c] show ?thesis by (auto simp: remote_open_def)
  qed
next
  case (3 c)
  show ?case
  proof (cases "fd c < 0")
    case True
    then show ?thesis by (auto simp: dns_done_def connect_ip_dead close_simps held_fd_def split: option.splits)
  next
    case False
    with 3 pending_ready [of c] show ?thesis
      by (auto simp: dns_done_def connect_ip_laws close_simps split: option.splits)
  qed
next
  case (4 c)
  show ?case
    by (auto simp: dns_done_def connect_ip_def close_connection_def Let_def split: option.splits)
next
  case (5 c)
  show ?case
  proof (cases "fd c < 0")
    case True
    then show ?thesis by (auto simp: dns_done_def connect_ip_dead close_simps held_pcb_def split: option.splits)
  next
    case False
    with 5 pending_ready [of c] show ?thesis
      by (auto simp: dns_done_def connect_ip_laws close_simps split: option.splits)
  qed
qed

lemma ready_resolving: "ready c \<Longrightarrow> ready (c\<lparr>phase := RESOLVING, resolving := True\<rparr>)"
  by (auto simp: ready_def buffers_ok_def target_ok_def)

lemma resolving_ok: "ready c \<Longrightarrow> conn_ok (c\<lparr>phase := RESOLVING, resolving := True\<rparr>)"
  by (auto simp: ready_def conn_defs target_ok_def)

lemma start_connection_cases:
  obtains (closed) c1 es where "start_connection env link c = (fst (close_connection c1), es @ snd (close_connection c1))"
      "held_fd c1 = held_fd c" "held_pcb c1 = held_pcb c" "es = [] \<or> es = [Dns_query (host c)]"
  | (direct) a where "link" "ip4addr_aton (host c) = Some a" "start_connection env link c = connect_ip env a c"
  | (cached) a where "link" "ip4addr_aton (host c) = None" "env_dns env (host c) = (ERR_OK, a)"
      "start_connection env link c =
        (let r = connect_ip env a (c\<lparr>phase := RESOLVING, resolving := True\<rparr>) in (fst r, Dns_query (host c) # snd r))"
  | (pending) "link" "ip4addr_aton (host c) = None" "fst (env_dns env (host c)) = ERR_INPROGRESS"
      "start_connection env link c = (c\<lparr>phase := RESOLVING, resolving := True\<rparr>, [Dns_query (host c)])"
proof (cases link)
  case False
  then show ?thesis by (intro closed [of c "[]"]) (auto simp: start_connection_def)
next
  case True
  show ?thesis
  proof (cases "ip4addr_aton (host c)")
    case (Some a)
    with True show ?thesis by (intro direct [of a]) (auto simp: start_connection_def IP_IS_V4_def)
  next
    case None
    obtain r a where dns: "env_dns env (host c) = (r, a)" by (cases "env_dns env (host c)")
    show ?thesis
    proof (cases "r = ERR_OK")
      case True
      with None dns \<open>link\<close> show ?thesis
        by (intro cached [of a]) (auto simp: start_connection_def Let_def split: prod.splits)
    next
      case False
      show ?thesis
      proof (cases "r = ERR_INPROGRESS")
        case True
        with None dns \<open>link\<close> show ?thesis
          by (intro pending) (auto simp: start_connection_def Let_def)
      next
        case notpending: False
        with None dns \<open>link\<close> False show ?thesis
          by (intro closed [of "c\<lparr>phase := RESOLVING, resolving := False\<rparr>" "[Dns_query (host c)]"])
            (auto simp: start_connection_def Let_def split: prod.splits)
      qed
    qed
  qed
qed

lemma start_connection_laws:
  assumes "ready c"
  shows "conn_ok (fst (start_connection env link c))"
    and "\<not> link \<Longrightarrow> fd (fst (start_connection env link c)) = -1"
    and "closed_fds (snd (start_connection env link c)) @ held_fd (fst (start_connection env link c)) = held_fd c"
    and "accepted_fds (snd (start_connection env link c)) = []"
    and "released_pcbs (snd (start_connection env link c)) @ held_pcb (fst (start_connection env link c))
           = held_pcb c @ attached_pcbs (snd (start_connection env link c))"
  subgoal
    by (rule start_connection_cases [of env link c])
      (auto simp: connect_ip_laws [OF assms] connect_ip_laws [OF ready_resolving [OF assms]] Let_def
        resolving_ok [OF assms])
  subgoal by (simp add: start_connection_def)
  subgoal
    by (rule start_connection_cases [of env link c])
      (auto simp: connect_ip_laws [OF assms] connect_ip_laws [OF ready_resolving [OF assms]] Let_def close_simps)
  subgoal
    by (rule start_connection_cases [of env link c])
      (auto simp: connect_ip_laws [OF assms] connect_ip_laws [OF ready_resolving [OF assms]] Let_def close_simps)
  subgoal
    by (rule start_connection_cases [of env link c])
      (auto simp: connect_ip_laws [OF assms] connect_ip_laws [OF ready_resolving [OF assms]] Let_def close_simps)
  done

lemma set_target_Some:
  "set_target h p c = Some c' \<Longrightarrow> NUL \<notin> set h \<Longrightarrow> c' = c\<lparr>host := h, port := p\<rparr> \<and> target_ok c'"
  by (auto simp: set_target_def target_ok_def split: if_splits)

lemma local_drop_ok:
  assumes "conn_ok c" "0 \<le> fd c" "\<not> (remote_closed c \<and> drop n (to_local c) = [])"
  shows "conn_ok (c\<lparr>to_local := drop n (to_local c)\<rparr>)"
  using assms by (cases "phase c") (auto simp: conn_defs target_ok_def)

lemma flush_local_cases:
  obtains (idle) "flush_local written again c = (c, [])"
  | (failed) "flush_local written again c = close_connection c"
  | (wrote) n where "0 \<le> fd c" "\<not> (remote_closed c \<and> drop n (to_local c) = [])"
      "flush_local written again c = (c\<lparr>to_local := drop n (to_local c)\<rparr>, [Write_fd (fd c) (take n (to_local c))])"
  | (drained) n where "0 \<le> fd c"
      "flush_local written again c =
        (let r = close_connection (c\<lparr>to_local := drop n (to_local c)\<rparr>)
         in (fst r, Write_fd (fd c) (take n (to_local c)) # snd r))"
proof (cases "fd c < 0 \<or> to_local c = [] \<or> (written \<le> 0 \<and> (written = 0 \<or> again))")
  case True
  then show ?thesis by (intro idle) (auto simp: flush_local_def)
next
  case False
  then consider "written < 0" | "written > 0" by linarith
  then show ?thesis
  proof cases
    case 1
    with False show ?thesis by (intro failed) (auto simp: flush_local_def)
  next
    case 2
    let ?n = "nat written"
    show ?thesis
    proof (cases "remote_closed c \<and> drop ?n (to_local c) = []")
      case True
      with False 2 show ?thesis
        by (intro drained [of ?n]) (auto simp: flush_local_def Let_def split: prod.splits)
    next
      case no: False
      with False 2 show ?thesis by (intro wrote [of ?n]) (auto simp: flush_local_def Let_def)
    qed
  qed
qed

interpretation flush_l: pcb_handler "\<lambda>_. flush_local written again" "\<lambda>_. True" for written again
proof (unfold_locales, goal_cases)
  case (1 c)
  show ?case
    by (rule flush_local_cases [of written again c])
      (use 1 in \<open>auto simp: local_drop_ok Let_def\<close>)
next
  case (2 c)
  show ?case
    by (rule flush_local_cases [of written again c])
      (use 2 in \<open>auto simp: remote_open_def Let_def\<close>)
next
  case (3 c)
  show ?case
    by (rule flush_local_cases [of written again c]) (simp_all add: close_simps Let_def)
next
  case (4 c)
  show ?case
    by (rule flush_local_cases [of written again c]) (simp_all add: close_simps Let_def)
next
  case (5 c)
  show ?case
    by (rule flush_local_cases [of written again c]) (simp_all add: close_simps Let_def)
qed
end
