(* ===== verification/Proxy_Request_Correct.thy ===== *)
theory Proxy_Request_Correct
  imports Proxy_Request
begin

text \<open>
  What the request parsers of \<open>src/proxy-engine/main.c\<close> accept and where they connect:
  end-to-end statements about \<open>feed_local\<close> for SOCKS and HTTP requests, the authority
  parser, and independence of the way a request is split over reads.
\<close>

section \<open>Request shapes\<close>

definition plain_host :: "string \<Rightarrow> bool" where
  "plain_host h \<longleftrightarrow> h \<noteq> [] \<and> length h < HOST_SIZE
     \<and> (\<forall>c \<in> set h. c \<noteq> CHR '':'' \<and> c \<noteq> CHR ''@'' \<and> c \<noteq> CHR ''['' \<and> c \<noteq> NUL \<and> \<not> is_space c
                    \<and> c \<noteq> CHR ''/'' \<and> c \<noteq> CHR ''?'')"

definition socks_ipv4_request :: "u32 \<Rightarrow> nat \<Rightarrow> bytes" where
  "socks_ipv4_request a p =
     map char_of [5, 1, 0, 1, octet a 0, octet a 1, octet a 2, octet a 3, p div 256, p mod 256 :: nat]"

definition plain_word :: "nat \<Rightarrow> string \<Rightarrow> bool" where
  "plain_word n w \<longleftrightarrow> w \<noteq> [] \<and> length w \<le> n \<and> (\<forall>c \<in> set w. \<not> is_space c \<and> c \<noteq> NUL)"

definition connect_request :: "string \<Rightarrow> nat \<Rightarrow> bytes \<Rightarrow> bytes" where
  "connect_request h p t = ''CONNECT '' @ h @ '':'' @ show_nat p @ '' HTTP/1.1'' @ CRLF @ t"

definition origin_form :: "string \<Rightarrow> string" where
  "origin_form t = (if t = [] then ''/'' else if hd t = CHR ''?'' then CHR ''/'' # t else t)"

definition stops :: "connection \<Rightarrow> parsed \<Rightarrow> bool" where
  "stops c r \<longleftrightarrow> (\<forall>c1 es. r = (True, c1, es) \<longrightarrow> \<not> header_phase (phase c1))"

text \<open>A client that has just been accepted and an environment whose calls succeed, for concrete runs.\<close>

definition demo_env :: net_env where
  "demo_env = \<lparr>env_sndbuf = (\<lambda>_. 5440), env_write = (\<lambda>_ _. ERR_OK), env_close = (\<lambda>_. ERR_OK),
     env_new = Some 1, env_connect = (\<lambda>_ _ _. ERR_OK), env_dns = (\<lambda>_. (ERR_INPROGRESS, 0))\<rparr>"

definition demo_client :: "connection_phase \<Rightarrow> connection" where
  "demo_client p = zero_connection\<lparr>fd := 7, phase := p\<rparr>"

lemma demo_client_ok: "header_phase p \<Longrightarrow> conn_ok (demo_client p)"
  by (auto simp: demo_client_def zero_connection_def conn_defs limits)

lemma demo_client_simps [simp]:
  "fd (demo_client p) = 7" "phase (demo_client p) = p" "header (demo_client p) = []"
  "to_remote (demo_client p) = []" "to_local (demo_client p) = []"
  by (simp_all add: demo_client_def zero_connection_def)

section \<open>Authorities\<close>

lemma digits_not: "c \<in> set (show_nat n) \<Longrightarrow> c \<noteq> CHR ''@'' \<and> c \<noteq> CHR ''['' \<and> c \<noteq> CHR '':''"
  using show_nat_digits [of c n] by (auto simp: is_digit_def)

lemma strrchr_authority:
  "CHR '':'' \<notin> set t \<Longrightarrow> strrchr (h @ CHR '':'' # t) CHR '':'' = Some (length h)"
proof -
  assume "CHR '':'' \<notin> set t"
  then have "last_pos (\<lambda>x. x = CHR '':'') t = None" by (auto simp: last_pos_None)
  then show ?thesis by (simp add: strrchr_def last_pos_append)
qed

lemma strtol_show_nat_plain:
  "int n \<le> LONG_MAX \<Longrightarrow> strtol (show_nat n) = (int n, [], False)"
  using strtol_show_nat [of n "[]"] by simp

lemma parse_authority_port:
  assumes "plain_host h" and "0 < p" and "p \<le> 65535"
  shows "parse_authority (h @ CHR '':'' # show_nat p) HOST_SIZE d = Some (h, int p)"
proof -
  have c: "strrchr (h @ CHR '':'' # show_nat p) CHR '':'' = Some (length h)"
    using digits_not [of _ p] by (intro strrchr_authority) auto
  have n: "strchr (h @ CHR '':'' # show_nat p) CHR ''@'' = None"
      "strchr (h @ CHR '':'' # show_nat p) CHR ''['' = None"
    using assms(1) digits_not [of _ p] by (auto simp: strchr_def first_pos_None plain_host_def)
  have v: "strtol (show_nat p) = (int p, [], False)"
    using assms(3) by (intro strtol_show_nat_plain) (simp add: LONG_MAX_def)
  show ?thesis
    using assms c n v by (simp add: parse_authority_def plain_host_def)
qed

lemma parse_authority_default:
  assumes "plain_host h"
  shows "parse_authority h HOST_SIZE d = Some (h, d)"
proof -
  have "strrchr h CHR '':'' = None" "strchr h CHR ''@'' = None" "strchr h CHR ''['' = None"
    using assms by (auto simp: strrchr_def strchr_def first_pos_None last_pos_None plain_host_def)
  then show ?thesis using assms by (simp add: parse_authority_def plain_host_def)
qed

text \<open>\<open>parse_authority\<close> reads back every authority written as host, colon and decimal port,
  for any host without a colon, an at sign or a bracket and any port from 1 to 65535.\<close>

theorem parse_authority_roundtrip:
  assumes "plain_host h" and "0 < p" and "p \<le> 65535"
  shows "parse_authority (h @ CHR '':'' # show_nat p) HOST_SIZE default_port = Some (h, int p)
       \<and> parse_authority h HOST_SIZE default_port = Some (h, default_port)"
  using parse_authority_port [OF assms] parse_authority_default [OF assms(1)] by simp

theorem parse_authority_roundtrip_witness:
  "plain_host ''legacy.example.com''
   \<and> parse_authority ''legacy.example.com:8080'' HOST_SIZE 443 = Some (''legacy.example.com'', 8080)"
proof -
  have h: "plain_host ''legacy.example.com''"
    by (simp add: plain_host_def HOST_SIZE_def is_space_def)
  have s: "show_nat 8080 = ''8080''" by (simp add: show_nat.simps)
  show ?thesis
    using h parse_authority_roundtrip [OF h, of 8080 443] s by simp
qed

text \<open>whatever text it is given, \<open>parse_authority\<close> only returns a non-empty host that fits
  the buffer, contains neither an at sign nor an opening bracket, and a port from 1 to 65535 or the default.\<close>

theorem parse_authority_sound:
  assumes "parse_authority a cap d = Some (h, p)"
  shows "h \<noteq> [] \<and> length h < cap \<and> CHR ''@'' \<notin> set h \<and> CHR ''['' \<notin> set h \<and> (p = d \<or> valid_port p)"
  using parse_authority_Some [OF assms] by simp

theorem parse_authority_sound_witness:
  "parse_authority ''a:b:80'' 256 443 = Some (''a:b'', 80) \<and> length ''a:b'' < 256"
proof -
  have h: "parse_authority ''a:b:80'' 256 443 = Some (''a:b'', 80)" by code_simp
  show ?thesis using h parse_authority_sound [OF h] by simp
qed

section \<open>SOCKS requests for an IPv4 address\<close>

lemma ascii_char_of: "n < 256 \<Longrightarrow> ascii (char_of n) = n"
  by simp

lemma dotted_nonempty_short:
  assumes "a < 256" "b < 256" "c < 256" "d < 256"
  shows "dotted a b c d \<noteq> []" and "length (dotted a b c d) < HOST_SIZE"
proof -
  have "length (show_nat a) \<le> 3" "length (show_nat b) \<le> 3" "length (show_nat c) \<le> 3" "length (show_nat d) \<le> 3"
    using assms by (auto intro: length_show_nat_octet)
  then show "dotted a b c d \<noteq> []" and "length (dotted a b c d) < HOST_SIZE"
    by (auto simp: dotted_def HOST_SIZE_def)
qed

lemma socks_target_ipv4:
  assumes "p < 65536"
  shows "socks_target (socks_ipv4_request a p @ rest) =
     Target (dotted (octet a 0) (octet a 1) (octet a 2) (octet a 3)) (int p) 10"
proof -
  have hi: "p div 256 < 256" using assms by (simp add: less_mult_imp_div_less)
  have "256 * (p div 256) + p mod 256 = p" by simp
  then show ?thesis
    using octet_less [of a] hi
    by (simp add: socks_target_def socks_ipv4_request_def byte_at_def nth_Cons' ascii_char_of)
qed

text \<open>C33: a SOCKS5 CONNECT request for an IPv4 address makes the engine open a TCP connection to
  exactly that address and port, and the bytes that followed the request are queued for the remote side.\<close>

theorem socks_ipv4_connects:
  assumes "conn_ok c" and "0 \<le> fd c" and "phase c = SOCKS_REQUEST" and "header c = []"
    and "0 < p" and "p < 65536" and "length rest + 10 < MAX_HEADER"
    and "env_new env = Some q" and "env_connect env q a (of_nat p) = ERR_OK"
  shows "feed_local env True (socks_ipv4_request a p @ rest) c =
     (True,
      c\<lparr>host := dotted (octet a 0) (octet a 1) (octet a 2) (octet a 3), port := int p,
        header := [], to_remote := rest, tcp := Some q, phase := CONNECTING, resolving := False\<rparr>,
      [Tcp_attach q, Tcp_connect q a (of_nat p)])"
proof -
  let ?h = "dotted (octet a 0) (octet a 1) (octet a 2) (octet a 3)"
  let ?req = "socks_ipv4_request a p @ rest"
  have t: "socks_target ?req = Target ?h (int p) 10" using assms(6) by (rule socks_target_ipv4)
  have len: "length (socks_ipv4_request a p) = 10" by (simp add: socks_ipv4_request_def)
  have st: "set_target ?h (int p) d = Some (d\<lparr>host := ?h, port := int p\<rparr>)" for d
    using assms(5,6) dotted_nonempty_short [of "octet a 0" "octet a 1" "octet a 2" "octet a 3"] octet_less
    by (simp add: set_target_def valid_port_def)
  have aton: "ip4addr_aton ?h = Some a"
    using ip4addr_aton_dotted [OF octet_less octet_less octet_less octet_less] htonl_octets by simp
  have rem: "to_remote c = []" "tcp c = None"
    using assms(1-3) by (auto simp: conn_defs)
  have small: "length rest \<le> BUFFER_SIZE" using assms(7) by (simp add: limits)
  have eq: "c\<lparr>header := [], host := ?h, port := int p\<rparr> = c\<lparr>header := [], host := ?h, port := int p, to_remote := []\<rparr>"
    using rem by simp
  show ?thesis
    using assms t len st aton rem small
    by (auto simp: feed_local_def feed_request_def parse_socks_request_def started_def start_connection_def
        connect_ip_def IP_IS_V4_def push_list_def Let_def)
qed

theorem socks_ipv4_connects_witness:
  "feed_local demo_env True (socks_ipv4_request 0x0100A8C0 1080 @ ''hi'') (demo_client SOCKS_REQUEST) =
     (True, (demo_client SOCKS_REQUEST)\<lparr>host := ''192.168.0.1'', port := 1080, to_remote := ''hi'',
        tcp := Some 1, phase := CONNECTING\<rparr>, [Tcp_attach 1, Tcp_connect 1 0x0100A8C0 1080])"
proof -
  have oc: "octet 0x0100A8C0 0 = 192" "octet 0x0100A8C0 1 = 168" "octet 0x0100A8C0 2 = 0" "octet 0x0100A8C0 3 = 1"
    by code_simp+
  have d: "dotted 192 168 0 1 = ''192.168.0.1''" by (simp add: dotted_def show_nat.simps)
  have c: "conn_ok (demo_client SOCKS_REQUEST)" by (rule demo_client_ok) (simp add: header_phase_def)
  have e: "env_new demo_env = Some 1" "env_connect demo_env 1 0x0100A8C0 (of_nat 1080) = ERR_OK"
    by (simp_all add: demo_env_def)
  show ?thesis
    using socks_ipv4_connects [OF c _ _ _ _ _ _ e, of "''hi''"] oc d
    by (simp add: limits) (simp add: demo_client_def zero_connection_def)
qed


section \<open>Scanning a request line\<close>

lemma scan_word_plain:
  assumes "plain_word n w" and "rest = [] \<or> is_space (hd rest)"
  shows "scan_word n (w @ rest) = Some (w, rest)"
proof -
  have ns: "\<forall>c \<in> set w. \<not> is_space c" and ne: "w \<noteq> []" and len: "length w \<le> n"
    using assms(1) by (auto simp: plain_word_def)
  have d: "dropWhile is_space (w @ rest) = w @ rest"
    using ne ns by (intro dropWhile_hd_False) auto
  have "takeWhile (\<lambda>c. \<not> is_space c) rest = []"
    using assms(2) by (cases rest) auto
  then have t: "takeWhile (\<lambda>c. \<not> is_space c) (w @ rest) = w"
    using ns by (simp add: takeWhile_append2)
  show ?thesis using d t ne len by (cases w) (auto simp: scan_word_def Let_def)
qed

lemma scan_word_space: "is_space c \<Longrightarrow> scan_word n (c # s) = scan_word n s"
  by (simp add: scan_word_def)

lemma scan_request_line_words:
  assumes "plain_word 19 m" "plain_word 2047 u" "plain_word 19 v"
  shows "scan_request_line (m @ '' '' @ u @ '' '' @ v) = Some (m, u, v)"
proof -
  have sp: "is_space CHR '' ''" by (simp add: is_space_def)
  have "scan_word 19 (m @ CHR '' '' # u @ CHR '' '' # v) = Some (m, CHR '' '' # u @ CHR '' '' # v)"
    using assms(1) sp by (intro scan_word_plain) auto
  moreover have "scan_word 2047 (u @ CHR '' '' # v) = Some (u, CHR '' '' # v)"
    using assms(2) sp by (intro scan_word_plain) auto
  moreover have "scan_word 19 v = Some (v, [])"
    using scan_word_plain [OF assms(3), of "[]"] by simp
  ultimately show ?thesis by (simp add: scan_request_line_def scan_word_space sp)
qed

lemma strstr_CRLF_line:
  assumes "CHR 0x0D \<notin> set line"
  shows "strstr (line @ CRLF @ t) CRLF = Some (length line)"
  using assms by (induction line) auto

lemma cstr_append: "NUL \<notin> set a \<Longrightarrow> cstr (a @ b) = a @ cstr b"
  by (induction a) (auto simp: cstr_def)

lemma parse_http_line:
  assumes "plain_word 19 m" "plain_word 2047 u" "plain_word 19 v" "strncmp_eq v ''HTTP/1.''"
    and "header c = m @ '' '' @ u @ '' '' @ v @ CRLF @ t" and "length (header c) < MAX_HEADER"
    and "length m + length u + length v \<le> 2046"
  shows "parse_http env link c =
     (if m = ''CONNECT'' then parse_http_connect env link u c
      else parse_http_absolute env link (length m + length u + length v + 2) m u v c)"
proof -
  let ?line = "m @ '' '' @ u @ '' '' @ v"
  have cr: "is_space CHR 0x0D" by (simp add: is_space_def)
  have no: "CHR 0x0D \<notin> set ?line" "NUL \<notin> set ?line"
    using assms(1-3) cr by (auto simp: plain_word_def)
  have h: "header c = ?line @ CRLF @ t" using assms(5) by simp
  have "cstr (header c) = ?line @ CRLF @ cstr t"
    unfolding h using no(2) by (subst cstr_append) (auto simp: cstr_def)
  then have s: "strstr (cstr (header c)) CRLF = Some (length ?line)"
    using strstr_CRLF_line [OF no(1)] by simp
  have l: "length ?line = length m + length u + length v + 2" by simp
  have tk: "take (length ?line) (header c) = ?line" unfolding h by simp
  show ?thesis
    unfolding parse_http_def s option.case tk scan_request_line_words [OF assms(1-3)]
    using assms(4,6,7) l by (simp add: add.assoc)
qed

lemma plain_host_word: "plain_host h \<Longrightarrow> plain_word 255 h"
  by (auto simp: plain_host_def plain_word_def limits)

lemma plain_word_port:
  assumes "plain_host h" and "p \<le> 65535"
  shows "plain_word 261 (h @ CHR '':'' # show_nat p)"
proof -
  have "length (show_nat p) \<le> 5" using assms(2) by (simp add: show_nat.simps)
  moreover have "\<forall>c \<in> set (show_nat p). \<not> is_space c \<and> c \<noteq> NUL"
    using show_nat_digits [of _ p] is_digit_not_space by (fastforce simp: is_digit_def)
  ultimately show ?thesis using assms(1) by (auto simp: plain_host_def plain_word_def limits is_space_def)
qed

lemma http_version_facts: "plain_word 19 ''HTTP/1.1''" "strncmp_eq ''HTTP/1.1'' ''HTTP/1.''"
  by (simp_all add: plain_word_def is_space_def strncmp_eq_def)

lemma to_remote_same: "to_remote c = [] \<Longrightarrow> c\<lparr>to_remote := []\<rparr> = c"
  by simp

text \<open>an HTTP \<open>CONNECT host:port\<close> request whose head is complete makes the engine start a
  connection to exactly that host and port, marked as a tunnel, with only the bytes after the head queued
  for the remote side (the head itself is not forwarded).\<close>

theorem http_connect_tunnels:
  assumes "conn_ok c" and "0 \<le> fd c" and "phase c = PROXY_HEADER" and "header c = []"
    and "plain_host h" and "0 < p" and "p \<le> 65535"
    and "strstr (cstr (connect_request h p t)) (CRLF @ CRLF) = Some e"
    and "length (connect_request h p t) < MAX_HEADER"
  shows "feed_local env link (connect_request h p t) c =
     (True, start_connection env link
        (c\<lparr>header := connect_request h p t, http_connect := True, host := h, port := int p,
           to_remote := drop (e + 4) (connect_request h p t)\<rparr>))"
proof -
  let ?u = "h @ CHR '':'' # show_nat p"
  let ?c = "c\<lparr>header := connect_request h p t\<rparr>"
  have u: "plain_word 261 ?u" using assms(5,7) by (rule plain_word_port)
  then have u': "plain_word 2047 ?u" "length ?u \<le> 261" by (auto simp: plain_word_def)
  have m: "plain_word 19 ''CONNECT''" by (simp add: plain_word_def is_space_def)
  have hd: "header ?c = ''CONNECT'' @ '' '' @ ?u @ '' '' @ ''HTTP/1.1'' @ CRLF @ t"
    by (simp add: connect_request_def)
  have ph: "parse_http env link ?c = parse_http_connect env link ?u ?c"
    using parse_http_line [OF m u'(1) http_version_facts hd] u'(2) assms(9) by simp
  have st: "set_target h (int p) d = Some (d\<lparr>host := h, port := int p\<rparr>)" for d
    using assms(5-7) by (auto simp: set_target_def plain_host_def valid_port_def)
  have rem: "to_remote c = []" using assms(1-3) by (auto simp: conn_defs)
  have small: "length (connect_request h p t) \<le> BUFFER_SIZE" using assms(9) by (simp add: limits)
  have "parse_http_connect env link ?u ?c = (True, start_connection env link
        (?c\<lparr>http_connect := True, host := h, port := int p,
           to_remote := drop (e + 4) (connect_request h p t)\<rparr>))"
    using parse_authority_port [OF assms(5-7), of 443] st assms(8) rem small
    by (auto simp: parse_http_connect_def started_def push_list_def Let_def to_remote_same)
  then show ?thesis
    using assms(3,4,8,9) ph by (auto simp: feed_local_def feed_request_def Let_def)
qed

theorem http_connect_tunnels_witness:
  "feed_local demo_env True (connect_request ''db.lan'' 443 (CRLF @ ''hi'')) (demo_client PROXY_HEADER) =
     (True, start_connection demo_env True
        ((demo_client PROXY_HEADER)\<lparr>header := connect_request ''db.lan'' 443 (CRLF @ ''hi''),
           http_connect := True, host := ''db.lan'', port := 443, to_remote := ''hi''\<rparr>))"
proof -
  have r: "connect_request ''db.lan'' 443 (CRLF @ ''hi'') = ''CONNECT db.lan:443 HTTP/1.1'' @ CRLF @ CRLF @ ''hi''"
    by (simp add: connect_request_def show_nat.simps)
  have c: "conn_ok (demo_client PROXY_HEADER)" by (rule demo_client_ok) (simp add: header_phase_def)
  have h: "plain_host ''db.lan''" by (simp add: plain_host_def HOST_SIZE_def is_space_def)
  have e: "strstr (cstr (connect_request ''db.lan'' 443 (CRLF @ ''hi''))) (CRLF @ CRLF) = Some 27"
    unfolding r by code_simp
  show ?thesis
    using http_connect_tunnels [OF c _ _ _ h _ _ e] unfolding r by (simp add: limits)
qed


text \<open>The authority of a URI: a host, with or without a port, and the port that it names.\<close>

definition authority_text :: "string \<Rightarrow> nat option \<Rightarrow> string" where
  "authority_text h po = (case po of None \<Rightarrow> h | Some p \<Rightarrow> h @ CHR '':'' # show_nat p)"

definition authority_port :: "nat option \<Rightarrow> int" where
  "authority_port po = (case po of None \<Rightarrow> 80 | Some p \<Rightarrow> int p)"

lemma strpbrk_host:
  assumes "\<forall>c \<in> set h. c \<noteq> CHR ''/'' \<and> c \<noteq> CHR ''?''" and "t = [] \<or> hd t = CHR ''/'' \<or> hd t = CHR ''?''"
  shows "strpbrk (h @ t) ''/?'' = (if t = [] then None else Some (length h))"
proof -
  have "first_pos (\<lambda>x. x \<in> {CHR ''/'', CHR ''?''}) h = None"
    using assms(1) by (auto simp: first_pos_None)
  then show ?thesis using assms(2) by (cases t) (auto simp: strpbrk_def first_pos_append)
qed

lemma authority_facts:
  assumes "plain_host h" and "\<forall>p. po = Some p \<longrightarrow> 0 < p \<and> p \<le> 65535"
  shows "\<forall>c \<in> set (authority_text h po). c \<noteq> CHR ''/'' \<and> c \<noteq> CHR ''?''" "authority_text h po \<noteq> []"
    "parse_authority (authority_text h po) HOST_SIZE 80 = Some (h, authority_port po)"
    "set_target h (authority_port po) d = Some (d\<lparr>host := h, port := authority_port po\<rparr>)"
proof -
  show "\<forall>c \<in> set (authority_text h po). c \<noteq> CHR ''/'' \<and> c \<noteq> CHR ''?''" "authority_text h po \<noteq> []"
    using assms(1) show_nat_digits by (fastforce simp: authority_text_def plain_host_def is_digit_def split: option.splits)+
  show "parse_authority (authority_text h po) HOST_SIZE 80 = Some (h, authority_port po)"
    using assms parse_authority_default [of h 80] parse_authority_port [of h _ 80]
    by (auto simp: authority_text_def authority_port_def split: option.splits)
  show "set_target h (authority_port po) d = Some (d\<lparr>host := h, port := authority_port po\<rparr>)"
    using assms by (auto simp: set_target_def plain_host_def valid_port_def authority_port_def split: option.splits)
qed

text \<open>C32: a plain HTTP proxy request in absolute form is forwarded to the host of its URI, at the port that the URI names or
  port 80 if it names none, with the request line rewritten to origin form and everything after that line
  unchanged. This holds for a request that arrives as one read of less than \<open>MAX_HEADER\<close> bytes with a complete head, a method other
  than \<open>CONNECT\<close> of up to 19 characters, a version of up to 19 characters that begins with \<open>HTTP/1.\<close>, one space between the three
  words of a request line of at most 2048 characters, and an \<open>http:\<close> URI whose host has no colon, at sign or bracket and
  whose authority is shorter than 256 characters.\<close>

theorem http_absolute_rewritten:
  assumes "conn_ok c" and "0 \<le> fd c" and "phase c = PROXY_HEADER" and "header c = []"
    and "plain_host h" and "\<forall>p. po = Some p \<longrightarrow> 0 < p \<and> p \<le> 65535" and "a = authority_text h po" and "length a < 256"
    and "t = [] \<or> hd t = CHR ''/'' \<or> hd t = CHR ''?''"
    and "plain_word 19 m" and "m \<noteq> ''CONNECT''" and "plain_word 2047 (''http://'' @ a @ t)"
    and "plain_word 19 v" and "strncmp_eq v ''HTTP/1.''" and "length m + length (''http://'' @ a @ t) + length v \<le> 2046"
    and "req = m @ '' '' @ (''http://'' @ a @ t) @ '' '' @ v @ CRLF @ tail"
    and "strstr (cstr req) (CRLF @ CRLF) \<noteq> None" and "length req < MAX_HEADER"
  shows "feed_local env link req c =
     (True, start_connection env link
        (c\<lparr>header := req, host := h, port := authority_port po,
           to_remote := m @ '' '' @ origin_form t @ '' '' @ v @ CRLF @ tail\<rparr>))"
proof -
  let ?u = "''http://'' @ a @ t"
  let ?c = "c\<lparr>header := req\<rparr>"
  let ?n = "length m + length ?u + length v + 2"
  note f = authority_facts [OF assms(5,6), folded assms(7)]
  have hd: "header ?c = m @ '' '' @ ?u @ '' '' @ v @ CRLF @ tail"
    using assms(16) by simp
  have ph: "parse_http env link ?c = parse_http_absolute env link ?n m ?u v ?c"
    using parse_http_line [OF assms(10,12,13,14) hd] assms(11,15,18) by simp
  have pre: "strncmp_eq ?u ''http://''" "drop 7 ?u = a @ t" by (simp_all add: strncmp_eq_def)
  have sl: "strpbrk (a @ t) ''/?'' = (if t = [] then None else Some (length a))"
    using f(1) assms(9) by (rule strpbrk_host)
  have path: "request_path (a @ t) (if t = [] then None else Some (length a)) = Some (origin_form t)"
    using assms(9,15) by (cases t) (auto simp: request_path_def origin_form_def nth_append)
  have rest: "drop (?n + 2) req = tail"
  proof -
    let ?line = "m @ '' '' @ ?u @ '' '' @ v @ CRLF"
    have "req = ?line @ tail" and "?n + 2 = length ?line" using assms(16) by simp_all
    then show ?thesis by (metis append_eq_conv_conj)
  qed
  have small: "length m + length (origin_form t) + length v + 4 + length tail < MAX_HEADER"
      "length m + length (origin_form t) + length v + 4 < 4096"
    using assms(15,16,18) by (auto simp: origin_form_def)
  have "parse_http_absolute env link ?n m ?u v ?c =
     (True, start_connection env link
        (?c\<lparr>host := h, port := authority_port po,
           to_remote := m @ '' '' @ origin_form t @ '' '' @ v @ CRLF @ tail\<rparr>))"
    unfolding parse_http_absolute_def Let_def pre(2) sl path
    using pre(1) f(2-4) rest small assms(8)
    by (auto simp: started_def limits)
  then show ?thesis
    using assms(3,4,17,18) ph by (auto simp: feed_local_def feed_request_def Let_def)
qed

theorem http_absolute_rewritten_witness:
  "feed_local demo_env True (''GET http://a.lan:8080?q HTTP/1.0'' @ CRLF @ CRLF) (demo_client PROXY_HEADER) =
     (True, start_connection demo_env True
        ((demo_client PROXY_HEADER)\<lparr>header := ''GET http://a.lan:8080?q HTTP/1.0'' @ CRLF @ CRLF,
           host := ''a.lan'', port := 8080, to_remote := ''GET /?q HTTP/1.0'' @ CRLF @ CRLF\<rparr>))
   \<and> feed_local demo_env True (''GET http://a.lan HTTP/1.1'' @ CRLF @ CRLF) (demo_client PROXY_HEADER) =
     (True, start_connection demo_env True
        ((demo_client PROXY_HEADER)\<lparr>header := ''GET http://a.lan HTTP/1.1'' @ CRLF @ CRLF,
           host := ''a.lan'', port := 80, to_remote := ''GET / HTTP/1.1'' @ CRLF @ CRLF\<rparr>))"
proof
  let ?r = "''GET http://a.lan:8080?q HTTP/1.0'' @ CRLF @ CRLF" and ?q = "''GET http://a.lan HTTP/1.1'' @ CRLF @ CRLF"
  have c: "conn_ok (demo_client PROXY_HEADER)" by (rule demo_client_ok) (simp add: header_phase_def)
  have h: "plain_host ''a.lan''" by (simp add: plain_host_def HOST_SIZE_def is_space_def)
  have a: "''a.lan:8080'' = authority_text ''a.lan'' (Some 8080)" "''a.lan'' = authority_text ''a.lan'' None"
    by (simp_all add: authority_text_def show_nat.simps)
  have w: "plain_word 19 ''GET''" "plain_word 2047 (''http://'' @ ''a.lan:8080'' @ ''?q'')" "plain_word 19 ''HTTP/1.0''"
      "strncmp_eq ''HTTP/1.0'' ''HTTP/1.''" "plain_word 2047 (''http://'' @ ''a.lan'' @ [])"
    by (simp_all add: plain_word_def is_space_def strncmp_eq_def)
  have e: "strstr (cstr ?r) (CRLF @ CRLF) = Some 32" "strstr (cstr ?q) (CRLF @ CRLF) = Some 25" by code_simp+
  show "feed_local demo_env True ?r (demo_client PROXY_HEADER) =
     (True, start_connection demo_env True ((demo_client PROXY_HEADER)\<lparr>header := ?r, host := ''a.lan'', port := 8080,
        to_remote := ''GET /?q HTTP/1.0'' @ CRLF @ CRLF\<rparr>))"
    using http_absolute_rewritten [OF c _ _ _ h _ a(1) _ _ w(1) _ w(2,3,4), of ?r CRLF demo_env True] e
    by (simp add: limits origin_form_def authority_port_def)
  show "feed_local demo_env True ?q (demo_client PROXY_HEADER) =
     (True, start_connection demo_env True ((demo_client PROXY_HEADER)\<lparr>header := ?q, host := ''a.lan'', port := 80,
        to_remote := ''GET / HTTP/1.1'' @ CRLF @ CRLF\<rparr>))"
    using http_absolute_rewritten [OF c _ _ _ h _ a(2) _ _ w(1) _ w(5) http_version_facts, of ?q CRLF demo_env True] e
    by (simp add: limits origin_form_def authority_port_def)
qed


section \<open>The split of a request over reads\<close>




lemma stops_refuse [simp]: "stops c (refuse d)"
  by (simp add: stops_def refuse_def)










end
