(* ===== verification/Proxy_Listeners.thy ===== *)
theory Proxy_Listeners
  imports Proxy_State "HOL-Library.Multiset"
begin

text \<open>
  The listener table of \<open>src/proxy-engine/main.c\<close>: opening loopback sockets, adding a
  listener at start-up, the \<open>--forward\<close> syntax, and replacing the whole table through the
  control socket (\<open>reconfigure_listeners\<close>, \<open>apply_request\<close>). The array \<open>listeners\<close> with
  \<open>listener_count\<close> is a list. What the socket calls answer for a port is a record of type
  \<open>sock_answer\<close>, a parameter of every operation that opens sockets.
\<close>

section \<open>Sockets\<close>

record sock_answer =
  sa_socket :: int
  sa_bind_fails :: bool
  sa_listen_fails :: bool
  sa_getfl :: int
  sa_setfl :: int

definition nonblocking :: "sock_answer \<Rightarrow> int" where
  "nonblocking a = (if sa_getfl a < 0 then -1 else sa_setfl a)"

definition listen_loopback :: "sock_answer \<Rightarrow> int \<Rightarrow> int \<times> effect list" where
  "listen_loopback a p =
     (let n = sa_socket a in
      if n < 0 then (-1, [])
      else if sa_bind_fails a \<or> sa_listen_fails a \<or> nonblocking a \<noteq> 0
      then (-1, [Socket_fd n, Close_listener n])
      else (n, [Socket_fd n, Listen_fd n p]))"

section \<open>Adding one listener\<close>

definition add_listener ::
    "listener_kind \<Rightarrow> int \<Rightarrow> string option \<Rightarrow> int \<Rightarrow> listener list \<Rightarrow> listener list option" where
  "add_listener k lp h rp ls =
     (if length ls = MAX_LISTENERS \<or> \<not> valid_port lp then None
      else if \<exists>l \<in> set ls. local_port l = lp then None
      else Some (ls @ [\<lparr>l_fd = -1, l_kind = k, local_port = lp, remote_port = rp,
                        remote_host = (case h of None \<Rightarrow> [] | Some t \<Rightarrow> take (HOST_SIZE - 1) t)\<rparr>]))"

text \<open>
  \<open>LOCAL:HOST:REMOTE\<close>: the text before the first colon, the text after the last one, and
  what is between them.
\<close>

definition parse_forward :: "string \<Rightarrow> listener list \<Rightarrow> listener list option" where
  "parse_forward spec ls =
     (if length spec \<ge> 512 then None
      else case (strchr spec CHR '':'', strrchr spec CHR '':'') of
        (Some i, Some j) \<Rightarrow>
          if i = j then None
          else (let (local_p, end1, _) = strtol (take i spec);
                    h = take (j - Suc i) (drop (Suc i) spec);
                    (remote_p, end2, _) = strtol (drop (Suc j) spec)
                in if end1 \<noteq> [] \<or> end2 \<noteq> [] \<or> h = [] \<or> length h \<ge> 256
                      \<or> local_p < 1 \<or> local_p > 65535 \<or> remote_p < 1 \<or> remote_p > 65535
                   then None
                   else add_listener FORWARD local_p (Some h) remote_p ls)
      | _ \<Rightarrow> None)"

definition parse_port_number :: "string option \<Rightarrow> int option" where
  "parse_port_number text =
     (case text of
        None \<Rightarrow> None
      | Some t \<Rightarrow>
          if t = [] \<or> \<not> list_all is_digit t then None
          else (let (v, rest, erange) = strtol t
                in if erange \<or> rest \<noteq> [] \<or> v < 1 \<or> v > 65535 then None else Some v))"

definition host_char :: "char \<Rightarrow> bool" where
  "host_char c \<longleftrightarrow> (97 \<le> ascii c \<and> ascii c \<le> 122) \<or> (65 \<le> ascii c \<and> ascii c \<le> 90)
     \<or> (48 \<le> ascii c \<and> ascii c \<le> 57) \<or> c = CHR ''.'' \<or> c = CHR ''-'' \<or> c = CHR ''_''"

definition safe_host :: "string \<Rightarrow> bool" where
  "safe_host h \<longleftrightarrow> h \<noteq> [] \<and> length h < HOST_SIZE \<and> list_all host_char h"

section \<open>Replacing the table\<close>

fun port_fd :: "int \<Rightarrow> listener list \<Rightarrow> int" where
  "port_fd p [] = -1"
| "port_fd p (l # ls) = (if local_port l = p then l_fd l else port_fd p ls)"

datatype open_result =
  Open_failed int "effect list"
| Opened "listener list" "effect list"

text \<open>
  The first loop of \<open>reconfigure_listeners\<close>: reuse the socket of a port that is already
  served, open the others; on a failure close the sockets opened so far, in order.
\<close>

fun open_requested ::
    "(int \<Rightarrow> sock_answer) \<Rightarrow> listener list \<Rightarrow> listener list \<Rightarrow> listener list \<Rightarrow> int list
       \<Rightarrow> effect list \<Rightarrow> open_result" where
  "open_requested ans old [] done opened es = Opened done es"
| "open_requested ans old (r # rs) done opened es =
     (let n = port_fd (local_port r) old in
      if n < 0 then
        (let (m, es') = listen_loopback (ans (local_port r)) (local_port r) in
         if m < 0 then Open_failed (local_port r) (es @ es' @ map Close_listener opened)
         else open_requested ans old rs (done @ [r\<lparr>l_fd := m\<rparr>]) (opened @ [m]) (es @ es'))
      else open_requested ans old rs (done @ [r\<lparr>l_fd := n\<rparr>]) opened es)"

definition close_unkept :: "listener list \<Rightarrow> listener list \<Rightarrow> effect list" where
  "close_unkept old new =
     map (\<lambda>l. Close_listener (l_fd l)) (filter (\<lambda>l. \<not> (\<exists>r \<in> set new. l_fd l = l_fd r)) old)"

text \<open>The result: whether it succeeded, \<open>*failed_port\<close>, the table and the calls made.\<close>

definition reconfigure_listeners ::
    "(int \<Rightarrow> sock_answer) \<Rightarrow> listener list \<Rightarrow> int \<Rightarrow> listener list \<Rightarrow> bool \<times> int \<times> listener list \<times> effect list" where
  "reconfigure_listeners ans requested failed_port old =
     (case open_requested ans old requested [] [] [] of
        Open_failed p es \<Rightarrow> (False, p, old, es)
      | Opened new es \<Rightarrow> (True, failed_port, new, es @ close_unkept old new))"

definition plain_listener :: "listener_kind \<Rightarrow> int \<Rightarrow> listener" where
  "plain_listener k p =
     \<lparr>l_fd = -1, l_kind = k, local_port = p, remote_port = 0, remote_host = []\<rparr>"

definition forward_listener :: "int \<Rightarrow> string \<Rightarrow> int \<Rightarrow> listener" where
  "forward_listener lp h rp =
     \<lparr>l_fd = -1, l_kind = FORWARD, local_port = lp, remote_port = rp, remote_host = h\<rparr>"

text \<open>\<open>strtok_r\<close> on the fields of a line; a missing field leaves the rest empty.\<close>

definition next_field :: "string \<Rightarrow> string option \<times> string" where
  "next_field s = (case strtok_r CHR '' '' s of None \<Rightarrow> (None, []) | Some (t, r) \<Rightarrow> (Some t, r))"

text \<open>A forward line after its keyword \<open>F\<close>.\<close>

definition forward_line :: "string \<Rightarrow> listener list \<Rightarrow> listener option" where
  "forward_line fs acc =
     (let (lt, f1) = next_field fs;
          (h, f2) = next_field f1;
          (rt, f3) = next_field f2
      in case (lt, h, rt) of
           (Some _, Some ht, Some _) \<Rightarrow>
             if fst (next_field f3) \<noteq> None \<or> \<not> safe_host ht then None
             else (case (parse_port_number lt, parse_port_number rt) of
                     (Some lp, Some rp) \<Rightarrow>
                       if \<exists>l \<in> set acc. local_port l = lp then None
                       else Some (forward_listener lp ht rp)
                   | _ \<Rightarrow> None)
         | _ \<Rightarrow> None)"

function (sequential) apply_lines :: "string \<Rightarrow> listener list \<Rightarrow> listener list option" where
  "apply_lines text acc =
     (case strtok_r CHR ''\<newline>'' text of
        None \<Rightarrow> None
      | Some (line, rest) \<Rightarrow>
          (case next_field line of
             (None, _) \<Rightarrow> None
           | (Some k, fs) \<Rightarrow>
               if k = ''END'' then
                 (if fst (next_field fs) \<noteq> None \<or> strtok_r CHR ''\<newline>'' rest \<noteq> None then None
                  else Some acc)
               else if k \<noteq> ''F'' \<or> length acc = MAX_LISTENERS then None
               else (case forward_line fs acc of
                       None \<Rightarrow> None
                     | Some l \<Rightarrow> apply_lines rest (acc @ [l]))))"
  by pat_completeness auto
termination
  by (relation "measure (length \<circ> fst)") (auto dest: strtok_r_length)

declare apply_lines.simps [simp del]

text \<open>The configuration a request asks for; \<open>None\<close> where it is malformed.\<close>

definition parse_apply :: "string \<Rightarrow> listener list option" where
  "parse_apply request =
     (case strtok_r CHR ''\<newline>'' request of
        None \<Rightarrow> None
      | Some (line, rest) \<Rightarrow>
          (let (command, f1) = next_field line;
               (http_text, f2) = next_field f1;
               (socks_text, f3) = next_field f2
           in if command \<noteq> Some ''APPLY'' \<or> http_text = None \<or> socks_text = None
                 \<or> fst (next_field f3) \<noteq> None
              then None
              else (case (parse_port_number http_text, parse_port_number socks_text) of
                      (Some http, Some socks) \<Rightarrow>
                        if http = socks then None
                        else apply_lines rest [plain_listener HTTP_PROXY http, plain_listener SOCKS_PROXY socks]
                    | _ \<Rightarrow> None)))"

definition apply_request ::
    "(int \<Rightarrow> sock_answer) \<Rightarrow> string \<Rightarrow> int \<Rightarrow> listener list \<Rightarrow> bool \<times> int \<times> listener list \<times> effect list" where
  "apply_request ans request failed_port old =
     (case parse_apply request of
        None \<Rightarrow> (False, failed_port, old, [])
      | Some requested \<Rightarrow> reconfigure_listeners ans requested failed_port old)"

section \<open>Well-formed tables\<close>

definition listener_ok :: "listener \<Rightarrow> bool" where
  "listener_ok l \<longleftrightarrow> valid_port (local_port l)
     \<and> (l_kind l = FORWARD \<longrightarrow> remote_host l \<noteq> [] \<and> length (remote_host l) < HOST_SIZE
          \<and> NUL \<notin> set (remote_host l) \<and> valid_port (remote_port l))"

definition listeners_ok :: "listener list \<Rightarrow> bool" where
  "listeners_ok ls \<longleftrightarrow> length ls \<le> MAX_LISTENERS \<and> distinct (map local_port ls) \<and> list_all listener_ok ls"

text \<open>A table whose listeners all have a socket of their own.\<close>

definition sockets_ok :: "listener list \<Rightarrow> bool" where
  "sockets_ok ls \<longleftrightarrow> list_all (\<lambda>l. 0 \<le> l_fd l) ls \<and> distinct (map l_fd ls)"

text \<open>Two tables that differ in their sockets only.\<close>

definition same_config :: "listener list \<Rightarrow> listener list \<Rightarrow> bool" where
  "same_config ls ms \<longleftrightarrow> map (\<lambda>l. l\<lparr>l_fd := -1\<rparr>) ls = map (\<lambda>l. l\<lparr>l_fd := -1\<rparr>) ms"

text \<open>The request the configuration client writes for two ports and a list of forwards.\<close>

definition forward_text :: "nat \<times> string \<times> nat \<Rightarrow> string" where
  "forward_text f =
     (case f of (l, h, r) \<Rightarrow> ''F '' @ show_nat l @ '' '' @ h @ '' '' @ show_nat r @ [CHR ''\<newline>''])"

definition apply_text :: "nat \<Rightarrow> nat \<Rightarrow> (nat \<times> string \<times> nat) list \<Rightarrow> string" where
  "apply_text http socks fs =
     ''APPLY '' @ show_nat http @ '' '' @ show_nat socks @ [CHR ''\<newline>'']
       @ concat (map forward_text fs) @ ''END'' @ [CHR ''\<newline>'']"

text \<open>The socket a requested listener ends up with.\<close>

definition served :: "(int \<Rightarrow> sock_answer) \<Rightarrow> listener list \<Rightarrow> listener \<Rightarrow> listener" where
  "served ans old r =
     r\<lparr>l_fd := (if port_fd (local_port r) old < 0 then sa_socket (ans (local_port r))
               else port_fd (local_port r) old)\<rparr>"

text \<open>What the kernel guarantees of \<open>socket\<close>: a descriptor that is not in use.\<close>

definition fresh_sockets :: "(int \<Rightarrow> sock_answer) \<Rightarrow> listener list \<Rightarrow> listener list \<Rightarrow> bool" where
  "fresh_sockets ans requested old \<longleftrightarrow>
     list_all (\<lambda>r. sa_socket (ans (local_port r)) \<notin> l_fd ` set old) requested
     \<and> distinct (filter (\<lambda>n. 0 \<le> n) (map (\<lambda>r. sa_socket (ans (local_port r))) requested))"

text \<open>A small table and a kernel that serves every port but 81, for concrete runs.\<close>

definition demo_table :: "listener list" where
  "demo_table = [(plain_listener HTTP_PROXY 18080)\<lparr>l_fd := 5\<rparr>, (plain_listener SOCKS_PROXY 11080)\<lparr>l_fd := 6\<rparr>]"

definition demo_answer :: "int \<Rightarrow> sock_answer" where
  "demo_answer p = \<lparr>sa_socket = 100 + p, sa_bind_fails = (p = 81), sa_listen_fails = False, sa_getfl = 0, sa_setfl = 0\<rparr>"

definition demo_request :: "listener list" where
  "demo_request = [plain_listener HTTP_PROXY 18080, plain_listener SOCKS_PROXY 1080, forward_listener 81 ''db'' 80]"

lemma listen_loopback_cases:
  obtains (failed) es where "listen_loopback a p = (-1, es)" "opened_sockets es = closed_sockets es"
  | (listening) "listen_loopback a p = (sa_socket a, [Socket_fd (sa_socket a), Listen_fd (sa_socket a) p])"
      "0 \<le> sa_socket a"
proof (cases "fst (listen_loopback a p) < 0")
  case True
  then show ?thesis by (intro failed [of "snd (listen_loopback a p)"]) (auto simp: listen_loopback_def Let_def split: if_splits)
next
  case False
  then show ?thesis by (intro listening) (auto simp: listen_loopback_def Let_def split: if_splits)
qed

section \<open>Lookups by port\<close>

lemma port_fd_member:
  "distinct (map local_port ls) \<Longrightarrow> l \<in> set ls \<Longrightarrow> port_fd (local_port l) ls = l_fd l"
  by (induction ls) auto

lemma port_fd_absent: "p \<notin> local_port ` set ls \<Longrightarrow> port_fd p ls = -1"
  by (induction ls) auto

lemma port_fd_served:
  assumes "sockets_ok ls" and "distinct (map local_port ls)"
  shows "0 \<le> port_fd p ls \<longleftrightarrow> p \<in> local_port ` set ls"
proof
  assume "p \<in> local_port ` set ls"
  then obtain l where "l \<in> set ls" "p = local_port l" by auto
  then show "0 \<le> port_fd p ls"
    using port_fd_member [OF assms(2)] assms(1) by (auto simp: sockets_ok_def list_all_iff)
next
  assume "0 \<le> port_fd p ls"
  then show "p \<in> local_port ` set ls" using port_fd_absent [of p ls] by fastforce
qed

section \<open>The opening loop\<close>

lemma open_requested_Opened:
  assumes "open_requested ans old rs acc opened es = Opened new es'"
  shows "new = acc @ map (served ans old) rs
     \<and> opened_sockets es' = opened_sockets es
          @ map (\<lambda>r. sa_socket (ans (local_port r))) (filter (\<lambda>r. port_fd (local_port r) old < 0) rs)
     \<and> closed_sockets es' = closed_sockets es
     \<and> list_all (\<lambda>r. 0 \<le> l_fd (served ans old r)) rs"
  using assms
proof (induction rs arbitrary: acc opened es)
  case Nil
  then show ?case by simp
next
  case (Cons r rs)
  show ?case
  proof (cases "port_fd (local_port r) old < 0")
    case False
    then show ?thesis using Cons.IH [of "acc @ [served ans old r]" opened es] Cons.prems
      by (simp add: served_def)
  next
    case True
    show ?thesis
      by (rule listen_loopback_cases [of "ans (local_port r)" "local_port r"])
        (use True Cons.IH [of "acc @ [served ans old r]" "opened @ [sa_socket (ans (local_port r))]"] Cons.prems
          in \<open>auto simp: served_def\<close>)
  qed
qed

lemma closed_sockets_map [simp]: "closed_sockets (map Close_listener ns) = ns"
  by (induction ns) auto

lemma opened_sockets_map [simp]: "opened_sockets (map Close_listener ns) = []"
  by (induction ns) auto

lemma open_requested_failed:
  assumes "open_requested ans old rs acc opened es = Open_failed p es'"
    and "opened_sockets es = opened" and "closed_sockets es = []"
  shows "mset (opened_sockets es') = mset (closed_sockets es') \<and> p \<in> local_port ` set rs
     \<and> port_fd p old < 0"
  using assms
proof (induction rs arbitrary: acc opened es)
  case Nil
  then show ?case by simp
next
  case (Cons r rs)
  show ?case
  proof (cases "port_fd (local_port r) old < 0")
    case False
    then show ?thesis using Cons.IH [of "acc @ [served ans old r]" opened es] Cons.prems
      by (simp add: served_def)
  next
    case True
    show ?thesis
      by (rule listen_loopback_cases [of "ans (local_port r)" "local_port r"])
        (use True Cons.IH [of "acc @ [served ans old r]" "opened @ [sa_socket (ans (local_port r))]"] Cons.prems
          in \<open>auto simp: served_def\<close>)
  qed
qed

lemma closed_unkept [simp]:
  "closed_sockets (close_unkept old new) = map l_fd (filter (\<lambda>l. l_fd l \<notin> l_fd ` set new) old)"
  "opened_sockets (close_unkept old new) = []"
proof -
  have c: "closed_sockets (map (\<lambda>l. Close_listener (l_fd l)) xs) = map l_fd xs"
    "opened_sockets (map (\<lambda>l. Close_listener (l_fd l)) xs) = []" for xs :: "listener list"
    by (induction xs) auto
  show "closed_sockets (close_unkept old new) = map l_fd (filter (\<lambda>l. l_fd l \<notin> l_fd ` set new) old)"
    "opened_sockets (close_unkept old new) = []"
    by (simp_all add: close_unkept_def c image_iff)
qed

section \<open>Conservation of sockets\<close>

lemma l_fd_served:
  "l_fd (served ans old r) = (if port_fd (local_port r) old < 0 then sa_socket (ans (local_port r))
     else port_fd (local_port r) old)"
  by (simp add: served_def)

lemma served_member:
  assumes "sockets_ok old" "distinct (map local_port old)" "l \<in> set old" "local_port l = local_port r"
  shows "l_fd (served ans old r) = l_fd l"
proof -
  have "0 \<le> l_fd l" using assms(1,3) by (simp add: sockets_ok_def list_all_iff)
  moreover have "port_fd (local_port r) old = l_fd l" using port_fd_member [OF assms(2,3)] assms(4) by simp
  ultimately show ?thesis by (simp add: l_fd_served)
qed

lemma kept_iff:
  assumes "sockets_ok old" "distinct (map local_port old)" "fresh_sockets ans rs old" "l \<in> set old"
  shows "l_fd l \<in> l_fd ` served ans old ` set rs \<longleftrightarrow> local_port l \<in> local_port ` set rs"
proof
  assume "l_fd l \<in> l_fd ` served ans old ` set rs"
  then obtain r where r: "r \<in> set rs" "l_fd l = l_fd (served ans old r)" by auto
  have pos: "\<not> port_fd (local_port r) old < 0"
    using r assms(3) imageI [OF assms(4), of l_fd] by (auto simp: l_fd_served fresh_sockets_def list_all_iff)
  then obtain m where m: "m \<in> set old" "local_port r = local_port m"
    using port_fd_served [OF assms(1,2), of "local_port r"] by auto
  then have "l_fd m = l_fd l" using r(2) pos port_fd_member [OF assms(2) m(1)] by (simp add: l_fd_served)
  then have "m = l" using m(1) assms(1,4) by (auto simp: sockets_ok_def distinct_map inj_on_def)
  then show "local_port l \<in> local_port ` set rs" using r(1) m(2) by (metis imageI)
next
  assume "local_port l \<in> local_port ` set rs"
  then obtain r where r: "r \<in> set rs" "local_port l = local_port r" by auto
  then show "l_fd l \<in> l_fd ` served ans old ` set rs"
    using served_member [OF assms(1,2,4)] by (metis imageI)
qed

lemma reused_mset:
  assumes "sockets_ok old" "distinct (map local_port old)" "distinct (map local_port rs)"
  shows "mset (map l_fd (filter (\<lambda>l. local_port l \<in> local_port ` set rs) old))
       = mset (map (\<lambda>r. port_fd (local_port r) old) (filter (\<lambda>r. 0 \<le> port_fd (local_port r) old) rs))"
    (is "mset ?xs = mset ?ys")
proof -
  have dx: "distinct ?xs" using assms(1) by (simp add: sockets_ok_def distinct_map_filter)
  have inj: "a = b" if "a \<in> set rs" "b \<in> set rs" "local_port a = local_port b" for a b
    using that assms(3) by (auto simp: distinct_map inj_on_def)
  have fd_port: "p = q" if "port_fd p old = port_fd q old" "0 \<le> port_fd p old" for p q
  proof -
    have "p \<in> local_port ` set old" "q \<in> local_port ` set old"
      using port_fd_served [OF assms(1,2), of p] port_fd_served [OF assms(1,2), of q] that by simp_all
    then obtain l m where "l \<in> set old" "p = local_port l" "m \<in> set old" "q = local_port m" by auto
    then show ?thesis
      using that port_fd_member [OF assms(2)] assms(1) by (auto simp: sockets_ok_def distinct_map inj_on_def)
  qed
  have dy: "distinct ?ys"
    using assms(3) fd_port inj by (auto simp: distinct_map inj_on_def)
  have "set ?xs = set ?ys"
    using port_fd_member [OF assms(2)] port_fd_served [OF assms(1,2)] by force
  then show ?thesis using dx dy set_eq_iff_mset_eq_distinct by blast
qed

lemma mset_map_split:
  "mset (map f xs) = mset (map f (filter P xs)) + mset (map f (filter (\<lambda>x. \<not> P x) xs))"
  by (induction xs) auto

lemma reconfigure_success_mset:
  assumes "sockets_ok old" "distinct (map local_port old)" "distinct (map local_port rs)"
    "fresh_sockets ans rs old" and new: "new = map (served ans old) rs"
  shows "mset (map l_fd old)
      + mset (map (\<lambda>r. sa_socket (ans (local_port r))) (filter (\<lambda>r. port_fd (local_port r) old < 0) rs))
    = mset (map l_fd new) + mset (map l_fd (filter (\<lambda>l. l_fd l \<notin> l_fd ` set new) old))"
proof -
  let ?P = "\<lambda>r. port_fd (local_port r) old < 0"
  have "l_fd ` set new = l_fd ` served ans old ` set rs" using new by (simp add: image_image)
  then have k: "filter (\<lambda>l. l_fd l \<notin> l_fd ` set new) old = filter (\<lambda>l. local_port l \<notin> local_port ` set rs) old"
    using kept_iff [OF assms(1,2,4)] by (intro filter_cong) simp_all
  have "mset (map l_fd new) = mset (map (\<lambda>r. l_fd (served ans old r)) rs)"
    using new by (simp add: comp_def)
  also have "\<dots> = mset (map (\<lambda>r. sa_socket (ans (local_port r))) (filter ?P rs))
      + mset (map (\<lambda>r. port_fd (local_port r) old) (filter (\<lambda>r. \<not> ?P r) rs))"
  proof -
    have "map (\<lambda>r. l_fd (served ans old r)) (filter ?P rs) = map (\<lambda>r. sa_socket (ans (local_port r))) (filter ?P rs)"
      "map (\<lambda>r. l_fd (served ans old r)) (filter (\<lambda>r. \<not> ?P r) rs) = map (\<lambda>r. port_fd (local_port r) old) (filter (\<lambda>r. \<not> ?P r) rs)"
      by (rule map_cong, auto simp: l_fd_served)+
    then show ?thesis using mset_map_split [of "\<lambda>r. l_fd (served ans old r)" rs ?P] by argo
  qed
  finally have n: "mset (map l_fd new) = mset (map (\<lambda>r. sa_socket (ans (local_port r))) (filter ?P rs))
      + mset (map l_fd (filter (\<lambda>l. local_port l \<in> local_port ` set rs) old))"
    using reused_mset [OF assms(1-3)] by (simp add: not_less)
  show ?thesis
    unfolding n k using mset_map_split [of l_fd old "\<lambda>l. local_port l \<in> local_port ` set rs"] by simp
qed

lemma same_config_served: "same_config (map (served ans old) rs) rs"
  by (simp add: same_config_def served_def)

lemma same_config_ports: "same_config ls ms \<Longrightarrow> map local_port ls = map local_port ms"
  unfolding same_config_def by (drule arg_cong [where f = "map local_port"]) (simp add: comp_def)

text \<open>C18: replacing the listener table through \<open>reconfigure_listeners\<close> neither leaks nor double-closes a
  socket: the sockets held before plus those created are exactly those held afterwards plus those closed,
  whether the call succeeds or fails half way.\<close>

theorem reconfigure_conserves_sockets:
  assumes "sockets_ok old" and "distinct (map local_port old)" and "distinct (map local_port requested)"
    and "fresh_sockets ans requested old"
    and "reconfigure_listeners ans requested fp old = (ok, fp', new, es)"
  shows "mset (map l_fd old) + mset (opened_sockets es) = mset (map l_fd new) + mset (closed_sockets es)"
proof (cases "open_requested ans old requested [] [] []")
  case (Open_failed p fs)
  then show ?thesis
    using assms(5) open_requested_failed [OF Open_failed] by (auto simp: reconfigure_listeners_def)
next
  case (Opened n fs)
  then show ?thesis
    using assms(5) open_requested_Opened [OF Opened] reconfigure_success_mset [OF assms(1-4)]
    by (auto simp: reconfigure_listeners_def)
qed

theorem reconfigure_conserves_sockets_witness:
  "reconfigure_listeners demo_answer demo_request 0 demo_table =
     (False, 81, demo_table, [Socket_fd 1180, Listen_fd 1180 1080, Socket_fd 181, Close_listener 181, Close_listener 1180])
   \<and> mset (map l_fd demo_table) + mset [1180, 181] = mset (map l_fd demo_table) + mset [181, 1180]"
proof -
  have r: "reconfigure_listeners demo_answer demo_request 0 demo_table =
     (False, 81, demo_table, [Socket_fd 1180, Listen_fd 1180 1080, Socket_fd 181, Close_listener 181, Close_listener 1180])"
    by code_simp
  have h: "sockets_ok demo_table" "distinct (map local_port demo_table)" "distinct (map local_port demo_request)"
    "fresh_sockets demo_answer demo_request demo_table"
    by code_simp+
  show ?thesis using reconfigure_conserves_sockets [OF h r] r by simp
qed

text \<open>C19: \<open>reconfigure_listeners\<close> is a transaction: on success the table is the requested one, with every
  listener on an open socket and the sockets of unchanged ports kept; on failure the table is
  untouched and the reported port is one that was requested and not yet served.\<close>

theorem reconfigure_transaction:
  assumes "sockets_ok old" and "distinct (map local_port old)"
    and "reconfigure_listeners ans requested fp old = (ok, fp', new, es)"
  shows "if ok then same_config new requested \<and> fp' = fp \<and> list_all (\<lambda>l. 0 \<le> l_fd l) new
              \<and> list_all (\<lambda>l. list_all (\<lambda>m. local_port l = local_port m \<longrightarrow> l_fd l = l_fd m) new) old
         else new = old \<and> fp' \<in> local_port ` set requested \<and> fp' \<notin> local_port ` set old"
proof (cases "open_requested ans old requested [] [] []")
  case (Open_failed p fs)
  then show ?thesis
    using assms(3) open_requested_failed [OF Open_failed] port_fd_served [OF assms(1,2), of p]
    by (auto simp: reconfigure_listeners_def)
next
  case (Opened n fs)
  have n: "n = map (served ans old) requested" "list_all (\<lambda>r. 0 \<le> l_fd (served ans old r)) requested"
    using open_requested_Opened [OF Opened] by simp_all
  have port: "local_port (served ans old r) = local_port r" for r by (simp add: served_def)
  have "ok" "fp' = fp" "new = n" using Opened assms(3) by (auto simp: reconfigure_listeners_def)
  then show ?thesis
    using n served_member [OF assms(1,2)]
    by (auto simp: same_config_served list_all_iff port)
qed

theorem reconfigure_transaction_witness:
  "reconfigure_listeners demo_answer (take 2 demo_request) 0 demo_table =
     (True, 0, [(plain_listener HTTP_PROXY 18080)\<lparr>l_fd := 5\<rparr>, (plain_listener SOCKS_PROXY 1080)\<lparr>l_fd := 1180\<rparr>],
      [Socket_fd 1180, Listen_fd 1180 1080, Close_listener 6])
   \<and> same_config [(plain_listener HTTP_PROXY 18080)\<lparr>l_fd := 5\<rparr>, (plain_listener SOCKS_PROXY 1080)\<lparr>l_fd := 1180\<rparr>]
       (take 2 demo_request)"
proof -
  have r: "reconfigure_listeners demo_answer (take 2 demo_request) 0 demo_table =
     (True, 0, [(plain_listener HTTP_PROXY 18080)\<lparr>l_fd := 5\<rparr>, (plain_listener SOCKS_PROXY 1080)\<lparr>l_fd := 1180\<rparr>],
      [Socket_fd 1180, Listen_fd 1180 1080, Close_listener 6])"
    by code_simp
  have h: "sockets_ok demo_table" "distinct (map local_port demo_table)" by code_simp+
  show ?thesis using reconfigure_transaction [OF h r] r by simp
qed

section \<open>Requests for a new table\<close>

lemma is_digit_char_facts:
  "is_digit c \<Longrightarrow> c \<noteq> CHR '' ''" "is_digit c \<Longrightarrow> c \<noteq> CHR ''\<newline>''" "is_digit c \<Longrightarrow> c \<noteq> NUL"
  by (auto simp: is_digit_def)

lemma host_char_facts:
  "host_char c \<Longrightarrow> c \<noteq> CHR '' ''" "host_char c \<Longrightarrow> c \<noteq> CHR ''\<newline>''" "host_char c \<Longrightarrow> c \<noteq> NUL"
  by (auto simp: host_char_def)

lemma parse_port_number_Some: "parse_port_number t = Some v \<Longrightarrow> valid_port v"
  by (auto simp: parse_port_number_def valid_port_def split: option.splits if_splits prod.splits)

lemma parse_port_number_show:
  assumes "valid_port (int n)"
  shows "parse_port_number (Some (show_nat n)) = Some (int n)"
proof -
  have "strtol (show_nat n) = (int n, [], False)"
    using strtol_show_nat [of n "[]"] assms by (simp add: valid_port_def LONG_MAX_def)
  moreover have "list_all is_digit (show_nat n)" by (simp add: list_all_iff show_nat_digits)
  ultimately show ?thesis using assms by (simp add: parse_port_number_def valid_port_def)
qed

lemma strtok_r_line:
  assumes "t \<noteq> []" and "d \<notin> set t"
  shows "strtok_r d (t @ d # rest) = Some (t, rest)" and "strtok_r d t = Some (t, [])"
proof -
  have 1: "dropWhile (\<lambda>c. c = d) (t @ r) = t @ r" for r
    using assms by (cases t) auto
  have 2: "takeWhile (\<lambda>c. c \<noteq> d) (t @ d # rest) = t" "dropWhile (\<lambda>c. c \<noteq> d) (t @ d # rest) = d # rest"
    using assms(2) by (induction t) auto
  have 3: "takeWhile (\<lambda>c. c \<noteq> d) t = t" "dropWhile (\<lambda>c. c \<noteq> d) t = []"
    using assms(2) by (auto simp: takeWhile_eq_all_conv dropWhile_eq_Nil_conv)
  show "strtok_r d (t @ d # rest) = Some (t, rest)" using 1 [of "d # rest"] 2 assms(1) by (simp add: strtok_r_def)
  show "strtok_r d t = Some (t, [])" using 1 [of "[]"] assms(1) unfolding strtok_r_def append_Nil2 Let_def by (simp add: 3)
qed

lemma next_field_word:
  assumes "t \<noteq> []" and "CHR '' '' \<notin> set t"
  shows "next_field (t @ CHR '' '' # rest) = (Some t, rest)" and "next_field t = (Some t, [])"
  using strtok_r_line [OF assms] by (simp_all add: next_field_def)

lemma next_field_empty [simp]: "next_field [] = (None, [])"
  by (simp add: next_field_def strtok_r_def)

lemma forward_line_Some:
  assumes "forward_line fs acc = Some l"
  shows "listener_ok l \<and> l_kind l = FORWARD \<and> safe_host (remote_host l) \<and> local_port l \<notin> local_port ` set acc"
proof -
  have "NUL \<notin> set h" if "safe_host h" for h
    using that host_char_facts(3) by (auto simp: safe_host_def list_all_iff)
  then show ?thesis
    using assms parse_port_number_Some
    by (auto simp: forward_line_def Let_def forward_listener_def listener_ok_def safe_host_def
        split: option.splits if_splits prod.splits)
qed

lemma listeners_ok_snoc:
  assumes "listeners_ok acc" "listener_ok l" "local_port l \<notin> local_port ` set acc" "length acc \<noteq> MAX_LISTENERS"
  shows "listeners_ok (acc @ [l])"
  using assms by (auto simp: listeners_ok_def)

lemma apply_lines_sound:
  assumes "apply_lines t acc = Some ls" and "listeners_ok acc"
  shows "listeners_ok ls
     \<and> (\<exists>fs. ls = acc @ fs \<and> list_all (\<lambda>l. l_kind l = FORWARD \<and> safe_host (remote_host l)) fs)"
  using assms
proof (induction t acc rule: apply_lines.induct)
  case (1 t acc)
  obtain line rest k fs where s: "strtok_r CHR ''\<newline>'' t = Some (line, rest)" "next_field line = (Some k, fs)"
    using 1(2) by (auto simp: apply_lines.simps [of t acc] split: option.splits prod.splits)
  show ?case
  proof (cases "k = ''END''")
    case True
    then have "ls = acc" using 1(2) s by (auto simp: apply_lines.simps [of t acc] split: if_splits)
    then show ?thesis using 1(3) by simp
  next
    case False
    then obtain l where l: "forward_line fs acc = Some l" "k = ''F''" "length acc \<noteq> MAX_LISTENERS"
        "apply_lines rest (acc @ [l]) = Some ls"
      using 1(2) s by (auto simp: apply_lines.simps [of t acc] split: if_splits option.splits)
    have ok: "listeners_ok (acc @ [l])"
      using forward_line_Some [OF l(1)] 1(3) l(3) by (intro listeners_ok_snoc) auto
    have "listeners_ok ls
       \<and> (\<exists>fs. ls = (acc @ [l]) @ fs \<and> list_all (\<lambda>l. l_kind l = FORWARD \<and> safe_host (remote_host l)) fs)"
      using 1(1) [OF s(1) refl s(2) [symmetric] refl _ _ l(1)] False l(2-4) ok by simp
    then show ?thesis using forward_line_Some [OF l(1)] by auto
  qed
qed

lemma parse_apply_shape:
  assumes "parse_apply request = Some ls"
  shows "listeners_ok ls \<and> (\<exists>http socks fs. ls = plain_listener HTTP_PROXY http # plain_listener SOCKS_PROXY socks # fs
     \<and> list_all (\<lambda>l. l_kind l = FORWARD \<and> safe_host (remote_host l)) fs)"
proof -
  obtain rest http socks where r: "apply_lines rest [plain_listener HTTP_PROXY http, plain_listener SOCKS_PROXY socks] = Some ls"
      "http \<noteq> socks" "valid_port http" "valid_port socks"
    using assms parse_port_number_Some
    by (auto simp: parse_apply_def Let_def split: option.splits if_splits prod.splits)
  have "listeners_ok [plain_listener HTTP_PROXY http, plain_listener SOCKS_PROXY socks]"
    using r(2-4) by (simp add: listeners_ok_def listener_ok_def plain_listener_def limits)
  then show ?thesis using apply_lines_sound [OF r(1)] by auto
qed

lemma parse_apply_table: "parse_apply request = Some ls \<Longrightarrow> listeners_ok ls"
  using parse_apply_shape by blast

text \<open>any table accepted from an \<open>APPLY\<close> request fits the listener array, has pairwise distinct and
  valid ports, starts with one HTTP and one SOCKS listener, and continues with forwards whose hosts are
  plain host names.\<close>

theorem parse_apply_sound:
  assumes "parse_apply request = Some ls"
  shows "listeners_ok ls \<and> (\<exists>http socks fs. ls = plain_listener HTTP_PROXY http # plain_listener SOCKS_PROXY socks # fs
     \<and> list_all (\<lambda>l. l_kind l = FORWARD \<and> safe_host (remote_host l)) fs)"
  using assms by (rule parse_apply_shape)

theorem parse_apply_sound_witness:
  "listeners_ok [plain_listener HTTP_PROXY 80, plain_listener SOCKS_PROXY 81, forward_listener 82 ''db.lan'' 5432]"
proof -
  have r: "parse_apply (''APPLY 80 81'' @ [CHR ''\<newline>''] @ ''F 82 db.lan 5432'' @ [CHR ''\<newline>''] @ ''END'') =
      Some [plain_listener HTTP_PROXY 80, plain_listener SOCKS_PROXY 81, forward_listener 82 ''db.lan'' 5432]"
    by code_simp
  show ?thesis using parse_apply_sound [OF r] by simp
qed

lemma forward_line_text:
  assumes "valid_port (int l)" "safe_host h" "valid_port (int r)" "int l \<notin> local_port ` set acc"
  shows "forward_line (show_nat l @ CHR '' '' # h @ CHR '' '' # show_nat r) acc =
     Some (forward_listener (int l) h (int r))"
proof -
  have sp: "CHR '' '' \<notin> set (show_nat n)" for n using show_nat_digits is_digit_char_facts(1) by blast
  have h: "h \<noteq> []" "CHR '' '' \<notin> set h"
    using assms(2) host_char_facts(1) by (auto simp: safe_host_def list_all_iff)
  show ?thesis
    using next_field_word(1) [OF show_nat_nonempty sp] next_field_word(2) [OF show_nat_nonempty sp]
      next_field_word(1) [OF h] parse_port_number_show assms
    by (auto simp: forward_line_def Let_def image_iff)
qed

lemma apply_lines_text:
  assumes "list_all (\<lambda>(l, h, r). valid_port (int l) \<and> safe_host h \<and> valid_port (int r)) fs"
    and "distinct (map local_port acc @ map (int \<circ> fst) fs)"
    and "length acc + length fs \<le> MAX_LISTENERS"
  shows "apply_lines (concat (map forward_text fs) @ ''END'' @ [CHR ''\<newline>'']) acc =
     Some (acc @ map (\<lambda>(l, h, r). forward_listener (int l) h (int r)) fs)"
  using assms
proof (induction fs arbitrary: acc)
  case Nil
  have "strtok_r CHR ''\<newline>'' (''END'' @ [CHR ''\<newline>'']) = Some (''END'', [])"
    by (rule strtok_r_line) auto
  moreover have "next_field ''END'' = (Some ''END'', [])" by (rule next_field_word) auto
  moreover have "strtok_r CHR ''\<newline>'' [] = None" by (simp add: strtok_r_def)
  ultimately show ?case by (subst apply_lines.simps) simp
next
  case (Cons f fs)
  obtain l h r where f: "f = (l, h, r)" by (cases f)
  let ?line = "''F'' @ CHR '' '' # show_nat l @ CHR '' '' # h @ CHR '' '' # show_nat r"
  let ?rest = "concat (map forward_text fs) @ ''END'' @ [CHR ''\<newline>'']"
  have ok: "valid_port (int l)" "safe_host h" "valid_port (int r)" "int l \<notin> local_port ` set acc"
    using Cons.prems f by auto
  have nl: "CHR ''\<newline>'' \<notin> set (show_nat n)" for n using show_nat_digits is_digit_char_facts(2) by blast
  have nh: "CHR ''\<newline>'' \<notin> set h" using ok(2) host_char_facts(2) by (auto simp: safe_host_def list_all_iff)
  have "concat (map forward_text (f # fs)) @ ''END'' @ [CHR ''\<newline>''] = ?line @ CHR ''\<newline>'' # ?rest"
    by (simp add: f forward_text_def)
  moreover have "strtok_r CHR ''\<newline>'' (?line @ CHR ''\<newline>'' # ?rest) = Some (?line, ?rest)"
    using nl nh by (intro strtok_r_line) auto
  moreover have "next_field ?line = (Some ''F'', show_nat l @ CHR '' '' # h @ CHR '' '' # show_nat r)"
    by (rule next_field_word) auto
  moreover have "apply_lines ?rest (acc @ [forward_listener (int l) h (int r)]) =
      Some ((acc @ [forward_listener (int l) h (int r)]) @ map (\<lambda>(l, h, r). forward_listener (int l) h (int r)) fs)"
    using Cons.prems f by (intro Cons.IH) (auto simp: forward_listener_def)
  moreover have "length acc \<noteq> MAX_LISTENERS" using Cons.prems(3) by simp
  ultimately show ?case
    using forward_line_text [OF ok] f by (subst apply_lines.simps) simp
qed

text \<open>C20: the text a client sends for a valid configuration is read back as exactly that configuration:
  HTTP and SOCKS port, then every forward in order.\<close>

theorem parse_apply_roundtrip:
  assumes "distinct (http # socks # map fst fs)"
    and "list_all (\<lambda>n. valid_port (int n)) [http, socks]"
    and "list_all (\<lambda>(l, h, r). valid_port (int l) \<and> safe_host h \<and> valid_port (int r)) fs"
    and "length fs + 2 \<le> MAX_LISTENERS"
  shows "parse_apply (apply_text http socks fs) =
     Some (plain_listener HTTP_PROXY (int http) # plain_listener SOCKS_PROXY (int socks)
             # map (\<lambda>(l, h, r). forward_listener (int l) h (int r)) fs)"
proof -
  let ?line = "''APPLY'' @ CHR '' '' # show_nat http @ CHR '' '' # show_nat socks"
  let ?acc = "[plain_listener HTTP_PROXY (int http), plain_listener SOCKS_PROXY (int socks)]"
  let ?rest = "concat (map forward_text fs) @ ''END'' @ [CHR ''\<newline>'']"
  have nl: "CHR ''\<newline>'' \<notin> set (show_nat n)" "CHR '' '' \<notin> set (show_nat n)" for n
    using show_nat_digits is_digit_char_facts by blast+
  have "strtok_r CHR ''\<newline>'' (?line @ CHR ''\<newline>'' # ?rest) = Some (?line, ?rest)"
    using nl by (intro strtok_r_line) auto
  moreover have "next_field ?line = (Some ''APPLY'', show_nat http @ CHR '' '' # show_nat socks)"
    by (rule next_field_word) auto
  moreover have "distinct (map local_port ?acc @ map (int \<circ> fst) fs)"
    using assms(1) by (auto simp: plain_listener_def distinct_map inj_on_def comp_def image_iff)
  then have "apply_lines ?rest ?acc = Some (?acc @ map (\<lambda>(l, h, r). forward_listener (int l) h (int r)) fs)"
    using assms(3,4) by (intro apply_lines_text) simp_all
  ultimately show ?thesis
    using next_field_word(1) [OF show_nat_nonempty nl(2)] next_field_word(2) [OF show_nat_nonempty nl(2)]
      parse_port_number_show assms(1,2)
    by (simp add: parse_apply_def apply_text_def)
qed

theorem parse_apply_roundtrip_witness:
  "parse_apply (apply_text 80 81 [(82, ''db.lan'', 5432)]) =
     Some [plain_listener HTTP_PROXY 80, plain_listener SOCKS_PROXY 81, forward_listener 82 ''db.lan'' 5432]"
proof -
  have "safe_host ''db.lan''" by code_simp
  then show ?thesis
    using parse_apply_roundtrip [of 80 81 "[(82, ''db.lan'', 5432)]"] by (simp add: valid_port_def limits)
qed

section \<open>Listeners from the command line\<close>

lemma add_listener_ok:
  assumes "add_listener k lp h rp ls = Some ms" and "listeners_ok ls"
    and "k = FORWARD \<Longrightarrow> \<exists>t. h = Some t \<and> t \<noteq> [] \<and> NUL \<notin> set t \<and> valid_port rp"
  shows "listeners_ok ms"
proof -
  have "NUL \<notin> set (take n t)" if "NUL \<notin> set t" for n t
    using that by (meson in_set_takeD)
  then show ?thesis
    using assms by (auto simp: add_listener_def listeners_ok_def listener_ok_def limits min_def split: if_splits)
qed

lemma parse_forward_table:
  assumes "parse_forward spec ls = Some ms" and "listeners_ok ls" and "NUL \<notin> set spec"
  shows "listeners_ok ms \<and> (\<exists>l. ms = ls @ [l] \<and> l_kind l = FORWARD)"
proof -
  have "set (take n (drop m spec)) \<subseteq> set spec" for m n
    by (meson set_take_subset set_drop_subset subset_trans)
  then obtain h lp rp where a: "add_listener FORWARD lp (Some h) rp ls = Some ms" "h \<noteq> []" "valid_port rp" "set h \<subseteq> set spec"
    using assms(1) by (auto simp: parse_forward_def Let_def valid_port_def split: option.splits if_splits prod.splits)
  then show ?thesis
    using add_listener_ok [OF a(1) assms(2)] assms(3) by (auto simp: add_listener_def split: if_splits)
qed

text \<open>a \<open>--forward\<close> argument is only accepted into a well-formed table, and leaves it well-formed.\<close>

theorem parse_forward_ok:
  assumes "parse_forward spec ls = Some ms" and "listeners_ok ls" and "NUL \<notin> set spec"
  shows "listeners_ok ms \<and> (\<exists>l. ms = ls @ [l] \<and> l_kind l = FORWARD)"
  using assms by (rule parse_forward_table)

theorem parse_forward_ok_witness:
  "listeners_ok (demo_table @ [forward_listener 81 ''db'' 80])"
proof -
  have r: "parse_forward ''81:db:80'' demo_table = Some (demo_table @ [forward_listener 81 ''db'' 80])" by code_simp
  have h: "listeners_ok demo_table" by code_simp
  show ?thesis using parse_forward_ok [OF r h] by simp
qed

end
