(* ===== verification/Proxy_Control.thy ===== *)
theory Proxy_Control
  imports Proxy_Listeners
begin

text \<open>
  The control socket of \<open>src/proxy-engine/main.c\<close>: reading one request (\<open>handle_control\<close>),
  the \<open>STOP\<close>, \<open>STATUS\<close> and \<open>APPLY\<close> commands and their replies, and creating and removing the
  socket (\<open>listen_control\<close>, \<open>cleanup_control_socket\<close>).

  What \<open>read\<close> returns on the peer is a list of answers; the receive timeout of one second turns
  a peer that sends nothing more into an error, so an exhausted list is an error too.
\<close>

section \<open>The socket\<close>

definition SUN_PATH_SIZE :: nat where "SUN_PATH_SIZE = 104"

record control_answer =
  ca_socket :: int
  ca_bind_fails :: bool
  ca_chmod_fails :: bool
  ca_listen_fails :: bool
  ca_nonblocking :: int

definition listen_control :: "control_answer \<Rightarrow> string option \<Rightarrow> int \<times> effect list" where
  "listen_control a path =
     (case path of
        None \<Rightarrow> (-1, [])
      | Some p \<Rightarrow>
          if length p \<ge> SUN_PATH_SIZE then (-1, [])
          else (let n = ca_socket a in
                if n < 0 then (-1, [])
                else if ca_bind_fails a \<or> ca_chmod_fails a \<or> ca_listen_fails a \<or> ca_nonblocking a \<noteq> 0
                then (-1, [Socket_fd n, Close_listener n])
                else (n, [Socket_fd n])))"

definition cleanup_control_socket :: "engine \<Rightarrow> engine" where
  "cleanup_control_socket s =
     (let s1 = (if control_fd s \<ge> 0 then (emit [Close_listener (control_fd s)] s)\<lparr>control_fd := -1\<rparr> else s)
      in case control_socket_path s1 of
           None \<Rightarrow> s1
         | Some p \<Rightarrow> (emit [Unlink p] s1)\<lparr>control_socket_path := None\<rparr>)"

section \<open>Reading a request\<close>

datatype control_read = Ctl_data bytes | Ctl_eof | Ctl_eintr | Ctl_error

text \<open>The loop of \<open>handle_control\<close>: the bytes read so far grow up to \<open>sizeof request - 1\<close>.\<close>

fun control_request :: "control_read list \<Rightarrow> bytes \<Rightarrow> bytes" where
  "control_request rs got =
     (if length got < MAX_CONTROL_REQUEST - 1 then
        (case rs of
           [] \<Rightarrow> []
         | Ctl_data d # rs' \<Rightarrow>
             if d = [] then got
             else control_request rs' (got @ take (MAX_CONTROL_REQUEST - 1 - length got) d)
         | Ctl_eof # rs' \<Rightarrow> got
         | Ctl_eintr # rs' \<Rightarrow> control_request rs' got
         | Ctl_error # rs' \<Rightarrow> [])
      else got)"

declare control_request.simps [simp del]

section \<open>Replies\<close>

definition show_bool :: "bool \<Rightarrow> string" where
  "show_bool b = (if b then ''1'' else ''0'')"

text \<open>\<open>listeners[i].local_port\<close>; the array is zero beyond the table.\<close>

definition port_at :: "nat \<Rightarrow> listener list \<Rightarrow> int" where
  "port_at i ls = (if i < length ls then local_port (ls ! i) else 0)"

definition elapsed_seconds :: "u64 \<Rightarrow> engine \<Rightarrow> u64" where
  "elapsed_seconds now s =
     (if link_up s \<and> connected_since_ms s \<noteq> 0 then (now - connected_since_ms s) div 1000 else 0)"

definition status_reply :: "u64 \<Rightarrow> engine \<Rightarrow> string" where
  "status_reply now s =
     ''STATUS '' @ show_bool (link_up s) @ '' '' @ show_nat (unat (sent_bytes s))
       @ '' '' @ show_nat (unat (received_bytes s)) @ '' '' @ show_nat (unat (elapsed_seconds now s))
       @ '' '' @ show_int (port_at 0 (listeners s)) @ '' '' @ show_int (port_at 1 (listeners s))
       @ [CHR ''\<newline>'']"

definition apply_reply :: "bool \<Rightarrow> int \<Rightarrow> string" where
  "apply_reply ok failed_port =
     (if ok then ''OK APPLY'' @ [CHR ''\<newline>'']
      else ''ERR APPLY '' @ show_int failed_port @ [CHR ''\<newline>''])"

section \<open>The handler\<close>

definition control_command ::
    "(int \<Rightarrow> sock_answer) \<Rightarrow> u64 \<Rightarrow> int \<Rightarrow> string \<Rightarrow> engine \<Rightarrow> engine" where
  "control_command ans now peer request s =
     (if request = ''STOP'' @ [CHR ''\<newline>''] then
        (emit [Reply peer (''OK STOP'' @ [CHR ''\<newline>''])] s)\<lparr>stop_requested := True\<rparr>
      else if request = ''STATUS'' @ [CHR ''\<newline>''] then
        emit [Reply peer (status_reply now s)] s
      else if strncmp_eq request ''APPLY '' then
        (let (ok, failed_port, ls, es) = apply_request ans request 0 (listeners s)
         in emit (es @ [Reply peer (apply_reply ok failed_port)]) (s\<lparr>listeners := ls\<rparr>))
      else emit [Reply peer (''ERR COMMAND'' @ [CHR ''\<newline>''])] s)"

definition handle_control ::
    "bool \<Rightarrow> control_read list \<Rightarrow> (int \<Rightarrow> sock_answer) \<Rightarrow> u64 \<Rightarrow> int \<Rightarrow> engine \<Rightarrow> engine" where
  "handle_control fcntl_ok rs ans now peer s =
     (if \<not> fcntl_ok then emit [Close_peer peer] s
      else (let request = control_request rs [] in
            if request = [] then emit [Close_peer peer] s
            else emit [Close_peer peer] (control_command ans now peer (cstr request) s)))"

section \<open>What a control connection can do\<close>

text \<open>The calls that change the listener table.\<close>

definition table_effect :: "effect \<Rightarrow> bool" where
  "table_effect e = (case e of Socket_fd n \<Rightarrow> True | Listen_fd n p \<Rightarrow> True | Close_listener n \<Rightarrow> True | _ \<Rightarrow> False)"

definition reply_to :: "int \<Rightarrow> effect \<Rightarrow> bool" where
  "reply_to peer e = (case e of Reply q d \<Rightarrow> q = peer | _ \<Rightarrow> False)"

text \<open>The calls of one control connection: changes of the table, at most one reply, then the close.\<close>

definition control_calls :: "int \<Rightarrow> effect list \<Rightarrow> bool" where
  "control_calls peer es \<longleftrightarrow> es \<noteq> [] \<and> last es = Close_peer peer
     \<and> list_all (\<lambda>e. table_effect e \<or> reply_to peer e) (butlast es)
     \<and> length (filter (reply_to peer) es) \<le> 1"

definition demo_engine :: engine where
  "demo_engine = \<lparr>connections = [], listeners = demo_table, link_up = False, stop_requested = False,
     sent_bytes = 0, received_bytes = 0, connected_since_ms = 0, pty_fd = 3, control_fd = 4,
     control_socket_path = None, pptp_pid = 99, vpn_password = [], effects = []\<rparr>"

section \<open>Bounds\<close>

lemma control_request_length:
  "length got \<le> MAX_CONTROL_REQUEST - 1 \<Longrightarrow> length (control_request rs got) \<le> MAX_CONTROL_REQUEST - 1"
proof (induction rs arbitrary: got)
  case Nil
  then show ?case by (subst control_request.simps) simp
next
  case (Cons r rs)
  show ?case
  proof (cases r)
    case (Ctl_data d)
    have "length (got @ take (MAX_CONTROL_REQUEST - 1 - length got) d) \<le> MAX_CONTROL_REQUEST - 1"
      using Cons.prems by simp
    then show ?thesis
      using Ctl_data Cons.prems Cons.IH by (subst control_request.simps) simp
  qed (use Cons in \<open>(subst control_request.simps, simp)+\<close>)
qed

lemma length_show_nat: "n < 10 ^ k \<Longrightarrow> 0 < k \<Longrightarrow> length (show_nat n) \<le> k"
proof (induction k arbitrary: n)
  case 0
  then show ?case by simp
next
  case (Suc k)
  show ?case
  proof (cases "n < 10")
    case True
    then show ?thesis by (simp add: show_nat.simps [of n])
  next
    case False
    have k: "0 < k" using False Suc.prems(1) by (cases k) auto
    have "n div 10 < 10 ^ k" using Suc.prems(1) by (intro less_mult_imp_div_less) (simp add: mult.commute)
    with k show ?thesis using Suc.IH [of "n div 10"] False by (simp add: show_nat.simps [of n])
  qed
qed

lemma length_show_u64: "length (show_nat (unat (w :: u64))) \<le> 20"
proof -
  have "unat w < 2 ^ 64" using unsigned_less [of w] by simp
  then show ?thesis by (intro length_show_nat) simp_all
qed

lemma length_show_port: "0 \<le> p \<Longrightarrow> p \<le> 65535 \<Longrightarrow> length (show_int p) \<le> 5"
  using length_show_nat [of "nat p" 5] by (simp add: show_int_def)

lemma port_at_range: "listeners_ok ls \<Longrightarrow> 0 \<le> port_at i ls \<and> port_at i ls \<le> 65535"
  using list_all_nth [of listener_ok ls i]
  by (auto simp: port_at_def listeners_ok_def listener_ok_def valid_port_def)

text \<open>the \<open>STATUS\<close> reply of an engine with a well-formed listener table always fits the 256-byte buffer
  it is formatted into, whatever the 64-bit counters hold.\<close>

theorem status_reply_fits:
  assumes "listeners_ok (listeners s)"
  shows "length (status_reply now s) < 256"
  using length_show_u64 [of "sent_bytes s"] length_show_u64 [of "received_bytes s"]
    length_show_u64 [of "elapsed_seconds now s"]
    port_at_range [OF assms, of 0] port_at_range [OF assms, of 1]
    length_show_port [of "port_at 0 (listeners s)"] length_show_port [of "port_at 1 (listeners s)"]
  by (simp add: status_reply_def show_bool_def)

theorem status_reply_fits_witness:
  "length (status_reply 5 demo_engine) < 256"
proof -
  have "listeners_ok (listeners demo_engine)" by code_simp
  then show ?thesis by (rule status_reply_fits)
qed

section \<open>Frame and protocol\<close>

lemma emit_simps [simp]:
  "connections (emit es s) = connections s" "listeners (emit es s) = listeners s"
  "link_up (emit es s) = link_up s" "stop_requested (emit es s) = stop_requested s"
  "sent_bytes (emit es s) = sent_bytes s" "received_bytes (emit es s) = received_bytes s"
  "connected_since_ms (emit es s) = connected_since_ms s" "pty_fd (emit es s) = pty_fd s"
  "control_fd (emit es s) = control_fd s" "control_socket_path (emit es s) = control_socket_path s"
  "pptp_pid (emit es s) = pptp_pid s" "vpn_password (emit es s) = vpn_password s"
  "effects (emit es s) = effects s @ es"
  by (simp_all add: emit_def)

lemma listen_loopback_effects: "list_all table_effect (snd (listen_loopback a p))"
  by (simp add: listen_loopback_def Let_def table_effect_def)

lemma open_requested_effects:
  assumes "list_all table_effect es"
  shows "case open_requested ans old rs acc opened es of
           Open_failed p es' \<Rightarrow> list_all table_effect es' | Opened new es' \<Rightarrow> list_all table_effect es'"
  using assms
proof (induction rs arbitrary: acc opened es)
  case Nil
  then show ?case by simp
next
  case (Cons r rs)
  obtain m es' where l: "listen_loopback (ans (local_port r)) (local_port r) = (m, es')"
    by (cases "listen_loopback (ans (local_port r)) (local_port r)")
  have "list_all table_effect es'" using listen_loopback_effects [of "ans (local_port r)" "local_port r"] l by simp
  then have "list_all table_effect (es @ es')" "list_all table_effect (es @ es' @ map Close_listener opened)"
    using Cons.prems by (auto simp: list_all_iff table_effect_def)
  then show ?case using Cons l by (simp add: Let_def)
qed

lemma apply_request_cases:
  assumes "apply_request ans t fp old = (ok, fp', new, es)"
  obtains (malformed) "\<not> ok" "new = old" "es = []"
  | (failed) rs where "parse_apply t = Some rs" "open_requested ans old rs [] [] [] = Open_failed fp' es" "\<not> ok" "new = old"
  | (applied) rs fs where "parse_apply t = Some rs" "open_requested ans old rs [] [] [] = Opened new fs" "ok"
      "es = fs @ close_unkept old new"
  using assms
  by (auto simp: apply_request_def reconfigure_listeners_def split: option.splits open_result.splits)

lemma close_unkept_effects: "list_all table_effect (close_unkept old new)"
  by (simp add: close_unkept_def list_all_iff table_effect_def)

lemma apply_request_effects:
  assumes "apply_request ans t fp old = (ok, fp', new, es)"
  shows "list_all table_effect es"
  using assms
proof (cases rule: apply_request_cases)
  case malformed
  then show ?thesis by simp
next
  case (failed rs)
  then show ?thesis using open_requested_effects [of "[]" ans old rs "[]" "[]"] by simp
next
  case (applied rs fs)
  then show ?thesis using open_requested_effects [of "[]" ans old rs "[]" "[]"] close_unkept_effects by simp
qed

lemma same_config_ok:
  assumes "same_config ls ms"
  shows "listeners_ok ls = listeners_ok ms"
proof -
  have ports: "map local_port ls = map local_port ms" using same_config_ports [OF assms] .
  have "length ls = length ms" using ports by (metis length_map)
  moreover have "list_all listener_ok (map (\<lambda>l. l\<lparr>l_fd := -1\<rparr>) xs) = list_all listener_ok xs" for xs
    by (simp add: list_all_iff listener_ok_def)
  ultimately show ?thesis using assms ports by (metis listeners_ok_def same_config_def)
qed

lemma apply_request_table:
  assumes "apply_request ans t fp old = (ok, fp', new, es)" and "listeners_ok old"
  shows "listeners_ok new" and "\<not> ok \<Longrightarrow> new = old"
proof -
  have "new = old \<or> (ok \<and> (\<exists>rs. parse_apply t = Some rs \<and> same_config new rs))"
    by (rule apply_request_cases [OF assms(1)])
      (use open_requested_Opened same_config_served in \<open>fastforce+\<close>)
  moreover have "listeners_ok rs" if "parse_apply t = Some rs" for rs
    using that by (rule parse_apply_table)
  ultimately show "listeners_ok new" and "\<not> ok \<Longrightarrow> new = old"
    using assms(2) same_config_ok by auto
qed

lemma table_not_reply: "list_all table_effect es \<Longrightarrow> filter (reply_to peer) es = []"
  by (induction es) (auto simp: table_effect_def reply_to_def split: effect.splits)

lemma control_command_frame:
  shows "\<exists>es r. effects (control_command ans now peer t s) = effects s @ es @ [Reply peer r] \<and> list_all table_effect es"
    and "connections (control_command ans now peer t s) = connections s"
    and "link_up (control_command ans now peer t s) = link_up s"
    and "listeners_ok (listeners s) \<Longrightarrow> listeners_ok (listeners (control_command ans now peer t s))"
    and "stop_requested (control_command ans now peer t s) =
           (stop_requested s \<or> t = ''STOP'' @ [CHR ''\<newline>''])"
proof -
  obtain ok fp ls es where a: "apply_request ans t 0 (listeners s) = (ok, fp, ls, es)"
    by (metis surj_pair)
  note f = apply_request_effects [OF a] apply_request_table(1) [OF a]
  have no: "\<not> strncmp_eq (''STOP'' @ [CHR ''\<newline>'']) ''APPLY ''" by (simp add: strncmp_eq_def)
  show "\<exists>es r. effects (control_command ans now peer t s) = effects s @ es @ [Reply peer r] \<and> list_all table_effect es"
    using a f by (auto simp: control_command_def intro: exI [of _ "[]"])
  show "connections (control_command ans now peer t s) = connections s"
    "link_up (control_command ans now peer t s) = link_up s"
    using a by (auto simp: control_command_def)
  show "listeners_ok (listeners s) \<Longrightarrow> listeners_ok (listeners (control_command ans now peer t s))"
    using a f by (auto simp: control_command_def)
  show "stop_requested (control_command ans now peer t s) = (stop_requested s \<or> t = ''STOP'' @ [CHR ''\<newline>''])"
    using a no by (auto simp: control_command_def)
qed

lemma handle_control_stop:
  "stop_requested (handle_control fcntl_ok rs ans now peer s) \<longleftrightarrow>
     stop_requested s \<or> (fcntl_ok \<and> cstr (control_request rs []) = ''STOP'' @ [CHR ''\<newline>''])"
  by (auto simp: handle_control_def Let_def control_command_frame(5) cstr_def)

lemma handle_control_frame:
  "connections (handle_control fcntl_ok rs ans now peer s) = connections s"
  "link_up (handle_control fcntl_ok rs ans now peer s) = link_up s"
  "listeners_ok (listeners s) \<Longrightarrow> listeners_ok (listeners (handle_control fcntl_ok rs ans now peer s))"
  by (auto simp: handle_control_def Let_def control_command_frame)

lemma handle_control_calls:
  "\<exists>es. effects (handle_control fcntl_ok rs ans now peer s) = effects s @ es \<and> control_calls peer es"
proof (cases "fcntl_ok \<and> control_request rs [] \<noteq> []")
  case False
  then show ?thesis
    by (intro exI [of _ "[Close_peer peer]"]) (auto simp: handle_control_def Let_def control_calls_def reply_to_def)
next
  case True
  obtain es r where e: "effects (control_command ans now peer (cstr (control_request rs [])) s) = effects s @ es @ [Reply peer r]"
      "list_all table_effect es"
    using control_command_frame(1) by blast
  have "control_calls peer (es @ [Reply peer r, Close_peer peer])"
    using e(2) table_not_reply [OF e(2), of peer] by (auto simp: control_calls_def reply_to_def butlast_append list_all_iff)
  then show ?thesis using True e(1) by (auto simp: handle_control_def Let_def)
qed

text \<open>C31: serving a control connection never touches a proxied connection or the link state, keeps the
  listener table well-formed, closes the peer exactly once as its last call after at most one reply, and
  requests a stop exactly when the bytes received form the \<open>STOP\<close> command.\<close>

theorem handle_control_contract:
  assumes "listeners_ok (listeners s)" and "s' = handle_control fcntl_ok rs ans now peer s"
  shows "connections s' = connections s \<and> link_up s' = link_up s \<and> listeners_ok (listeners s')
     \<and> (\<exists>es. effects s' = effects s @ es \<and> control_calls peer es)
     \<and> (stop_requested s' \<longleftrightarrow>
          stop_requested s \<or> (fcntl_ok \<and> cstr (control_request rs []) = ''STOP'' @ [CHR ''\<newline>'']))"
  using assms handle_control_frame handle_control_calls handle_control_stop by simp

theorem handle_control_contract_witness:
  "stop_requested (handle_control True [Ctl_data ''ST'', Ctl_eintr, Ctl_data (''OP'' @ [CHR ''\<newline>'']), Ctl_eof]
      demo_answer 5 9 demo_engine)"
proof -
  let ?rs = "[Ctl_data ''ST'', Ctl_eintr, Ctl_data (''OP'' @ [CHR ''\<newline>'']), Ctl_eof]"
  have l: "listeners_ok (listeners demo_engine)" by code_simp
  have r: "cstr (control_request ?rs []) = ''STOP'' @ [CHR ''\<newline>'']"
    by (simp add: control_request.simps cstr_def limits)
  show ?thesis using handle_control_contract [OF l refl, of True ?rs demo_answer 5 9] r by simp
qed

end
