(* ===== verification/Ppp_Const.thy ===== *)
theory Ppp_Const
  imports Prelude
begin

text \<open>Numbers of the PPP headers that several components use: protocols, phases, status codes and the number of MPPE.\<close>

definition CI_MPPE :: u8 where "CI_MPPE = 18"

definition PPP_IP :: u16 where "PPP_IP = 0x21"
definition PPP_VJC_COMP :: u16 where "PPP_VJC_COMP = 0x2d"
definition PPP_VJC_UNCOMP :: u16 where "PPP_VJC_UNCOMP = 0x2f"
definition PPP_COMP :: u16 where "PPP_COMP = 0xfd"
definition PPP_IPCP :: u16 where "PPP_IPCP = 0x8021"
definition PPP_CCP :: u16 where "PPP_CCP = 0x80fd"
definition PPP_LCP :: u16 where "PPP_LCP = 0xc021"
definition PPP_CHAP :: u16 where "PPP_CHAP = 0xc223"

lemmas ppp_protocols = PPP_IP_def PPP_VJC_COMP_def PPP_VJC_UNCOMP_def PPP_COMP_def PPP_IPCP_def PPP_CCP_def PPP_LCP_def PPP_CHAP_def

datatype ppp_phase =
  PPP_PHASE_DEAD | PPP_PHASE_MASTER | PPP_PHASE_HOLDOFF | PPP_PHASE_INITIALIZE | PPP_PHASE_SERIALCONN | PPP_PHASE_DORMANT
| PPP_PHASE_ESTABLISH | PPP_PHASE_AUTHENTICATE | PPP_PHASE_CALLBACK | PPP_PHASE_NETWORK | PPP_PHASE_RUNNING
| PPP_PHASE_TERMINATE | PPP_PHASE_DISCONNECT

primrec phase_number :: "ppp_phase \<Rightarrow> nat" where
  "phase_number PPP_PHASE_DEAD = 0"
| "phase_number PPP_PHASE_MASTER = 1"
| "phase_number PPP_PHASE_HOLDOFF = 2"
| "phase_number PPP_PHASE_INITIALIZE = 3"
| "phase_number PPP_PHASE_SERIALCONN = 4"
| "phase_number PPP_PHASE_DORMANT = 5"
| "phase_number PPP_PHASE_ESTABLISH = 6"
| "phase_number PPP_PHASE_AUTHENTICATE = 7"
| "phase_number PPP_PHASE_CALLBACK = 8"
| "phase_number PPP_PHASE_NETWORK = 9"
| "phase_number PPP_PHASE_RUNNING = 10"
| "phase_number PPP_PHASE_TERMINATE = 11"
| "phase_number PPP_PHASE_DISCONNECT = 12"

text \<open>The phases are compared by number.\<close>

instantiation ppp_phase :: linorder
begin

definition less_eq_ppp_phase :: "ppp_phase \<Rightarrow> ppp_phase \<Rightarrow> bool" where
  "less_eq_ppp_phase a b \<longleftrightarrow> phase_number a \<le> phase_number b"

definition less_ppp_phase :: "ppp_phase \<Rightarrow> ppp_phase \<Rightarrow> bool" where
  "less_ppp_phase a b \<longleftrightarrow> phase_number a < phase_number b"

instance
proof
  fix a b c :: ppp_phase
  show "a < b \<longleftrightarrow> a \<le> b \<and> \<not> b \<le> a" by (auto simp: less_ppp_phase_def less_eq_ppp_phase_def)
  show "a \<le> a" by (simp add: less_eq_ppp_phase_def)
  show "a \<le> b \<Longrightarrow> b \<le> c \<Longrightarrow> a \<le> c" by (simp add: less_eq_ppp_phase_def)
  show "a \<le> b \<Longrightarrow> b \<le> a \<Longrightarrow> a = b" by (cases a; cases b) (simp_all add: less_eq_ppp_phase_def)
  show "a \<le> b \<or> b \<le> a" by (auto simp: less_eq_ppp_phase_def)
qed

end

definition PPPERR_NONE :: int where "PPPERR_NONE = 0"
definition PPPERR_OPEN :: int where "PPPERR_OPEN = 2"
definition PPPERR_USER :: int where "PPPERR_USER = 5"
definition PPPERR_CONNECT :: int where "PPPERR_CONNECT = 6"
definition PPPERR_AUTHFAIL :: int where "PPPERR_AUTHFAIL = 7"
definition PPPERR_PROTOCOL :: int where "PPPERR_PROTOCOL = 8"
definition PPPERR_PEERDEAD :: int where "PPPERR_PEERDEAD = 9"
definition PPPERR_LOOPBACK :: int where "PPPERR_LOOPBACK = 12"

end
