(* ===== verification/Proxy_Engine.thy ===== *)
theory Proxy_Engine
  imports Proxy_Request Proxy_Control Ppp_Const
begin

text \<open>
  The engine around the connections (\<open>src/proxy-engine/main.c\<close>): accepting clients, the PPP
  status callback, the command line and start-up, reading the password, one turn of the main
  loop, and the shutdown. The callbacks of lwIP and the turns of the loop form step relations;
  the invariant of all reachable states is proved by rule induction.
\<close>

section \<open>Accepting clients\<close>

definition free_slot :: "connection list \<Rightarrow> nat option" where
  "free_slot cs = first_pos (\<lambda>c. fd c < 0 \<and> \<not> resolving c) cs"

definition fresh_connection :: "int \<Rightarrow> listener \<Rightarrow> connection" where
  "fresh_connection n l =
     zero_connection\<lparr>fd := n, kind := l_kind l,
       phase := (if l_kind l = SOCKS_PROXY then SOCKS_GREETING else PROXY_HEADER)\<rparr>"

definition admit :: "net_env \<Rightarrow> bool \<Rightarrow> int \<Rightarrow> listener \<Rightarrow> connection \<times> effect list" where
  "admit env link n l =
     (let c = fresh_connection n l in
      if l_kind l = FORWARD then
        (case set_target (remote_host l) (remote_port l) c of
           None \<Rightarrow> close_connection c
         | Some c1 \<Rightarrow> start_connection env link c1)
      else (c, []))"

text \<open>
  One answer of \<open>accept\<close>: the descriptor, whether \<open>nonblocking\<close> failed on it, and how lwIP will
  answer if a connection is started. A negative descriptor, or the end of the list, ends the loop.
\<close>

fun accept_client :: "(int \<times> bool \<times> net_env) list \<Rightarrow> listener \<Rightarrow> engine \<Rightarrow> engine" where
  "accept_client [] l s = s"
| "accept_client ((n, bad, env) # as) l s =
     (if n < 0 then s
      else accept_client as l
       (if bad then emit [Accept_fd n, Close_fd n] s
        else (case free_slot (connections s) of
                None \<Rightarrow> emit [Accept_fd n, Close_fd n] s
              | Some i \<Rightarrow> with_conn i (\<lambda>_. admit env (link_up s) n l) (emit [Accept_fd n] s))))"

section \<open>The state of the link\<close>

definition close_slot :: "nat \<Rightarrow> engine \<Rightarrow> engine" where
  "close_slot i s = (if fd (connections s ! i) \<ge> 0 then with_conn i close_connection s else s)"

definition close_all :: "engine \<Rightarrow> engine" where
  "close_all s = fold close_slot [0..<MAX_CONNECTIONS] s"

definition ppp_status :: "int \<Rightarrow> u8 \<Rightarrow> u8 \<Rightarrow> u64 \<Rightarrow> engine \<Rightarrow> engine" where
  "ppp_status status tx rx now s =
     (let was_up = link_up s;
          s1 = s\<lparr>link_up := (status = PPPERR_NONE \<and> tx = CI_MPPE \<and> rx = CI_MPPE)\<rparr>
      in if link_up s1 then
           (if \<not> was_up then s1\<lparr>connected_since_ms := now, sent_bytes := 0, received_bytes := 0\<rparr> else s1)
         else close_all (s1\<lparr>connected_since_ms := 0\<rparr>))"

text \<open>
  \<open>ppp_output\<close>: the answers of \<open>write\<close> on the pseudo terminal; \<open>Inl True\<close> is \<open>EINTR\<close>, \<open>Inl False\<close>
  another error, \<open>Inr n\<close> the count returned. It returns how much was sent.
\<close>

fun ppp_output :: "(bool + nat) list \<Rightarrow> nat \<Rightarrow> nat \<Rightarrow> nat" where
  "ppp_output [] len sent = sent"
| "ppp_output (a # as) len sent =
     (if sent < len then
        (case a of
           Inr n \<Rightarrow> if n > 0 then ppp_output as len (sent + min n (len - sent)) else sent
         | Inl True \<Rightarrow> ppp_output as len sent
         | Inl False \<Rightarrow> sent)
      else sent)"

definition on_signal :: "engine \<Rightarrow> engine" where
  "on_signal s = s\<lparr>stop_requested := True\<rparr>"

definition erase_secret :: "nat \<Rightarrow> bytes \<Rightarrow> bytes" where
  "erase_secret len memory = replicate (min len (length memory)) NUL @ drop len memory"

text \<open>The two clocks, of seconds and nanoseconds.\<close>

definition sys_now :: "u64 \<Rightarrow> u64 \<Rightarrow> u32" where
  "sys_now sec nsec = ucast (sec * 1000 + nsec div 1000000)"

definition monotonic_ms :: "u64 \<Rightarrow> u64 \<Rightarrow> u64" where
  "monotonic_ms sec nsec = sec * 1000 + nsec div 1000000"

section \<open>The password\<close>

definition PASSWORD_SIZE :: nat where "PASSWORD_SIZE = 512"

datatype fifo_read = Fifo_data bytes | Fifo_again | Fifo_error

text \<open>
  The loop on the FIFO: each turn has the time \<open>sys_now\<close> returned and what \<open>read\<close> returned
  (\<open>Fifo_data []\<close> is a count of zero). The loop goes on while the signed difference to the deadline
  is positive and the buffer has room.
\<close>

fun fifo_loop :: "u32 \<Rightarrow> (u32 \<times> fifo_read) list \<Rightarrow> bytes \<Rightarrow> bool \<times> bytes" where
  "fifo_loop deadline [] used = (False, used)"
| "fifo_loop deadline ((now, r) # rs) used =
     (if sint (deadline - now) > 0 \<and> length used < PASSWORD_SIZE - 1 then
        (case r of
           Fifo_data d \<Rightarrow>
             (let used' = used @ take (PASSWORD_SIZE - 1 - length used) d
              in if d \<noteq> [] \<and> CHR ''\<newline>'' \<in> set used' then (True, used')
                 else fifo_loop deadline rs used')
         | Fifo_again \<Rightarrow> fifo_loop deadline rs used
         | Fifo_error \<Rightarrow> (False, used))
      else (False, used))"

record password_source =
  ps_stdin :: "bytes option"
  ps_open_ok :: bool
  ps_is_fifo :: bool
  ps_start :: u32
  ps_turns :: "(u32 \<times> fifo_read) list"

definition read_password :: "password_source \<Rightarrow> string option \<Rightarrow> bool \<times> bytes" where
  "read_password src path =
     (case path of
        None \<Rightarrow> (case ps_stdin src of None \<Rightarrow> (False, []) | Some t \<Rightarrow> (True, take (PASSWORD_SIZE - 1) t))
      | Some _ \<Rightarrow>
          if \<not> ps_open_ok src then (False, [])
          else if \<not> ps_is_fifo src then (False, [])
          else fifo_loop (ps_start src + 15000) (ps_turns src) [])"

text \<open>The password after \<open>strcspn\<close> cut it at the first carriage return or newline.\<close>

definition trim_password :: "bytes \<Rightarrow> bytes" where
  "trim_password p = takeWhile (\<lambda>c. c \<noteq> CHR 0x0D \<and> c \<noteq> CHR ''\<newline>'') (cstr p)"

section \<open>The command line\<close>

record options =
  o_server :: "string option"
  o_user :: "string option"
  o_pptp :: "string option"
  o_fifo :: "string option"
  o_control :: "string option"
  o_http :: int
  o_socks :: int
  o_forwards :: "string list"

definition default_options :: options where
  "default_options = \<lparr>o_server = None, o_user = None, o_pptp = None, o_fifo = None, o_control = None,
     o_http = 18080, o_socks = 11080, o_forwards = []\<rparr>"

fun parse_args :: "string list \<Rightarrow> options \<Rightarrow> options option" where
  "parse_args [] opts = Some opts"
| "parse_args [a] opts = None"
| "parse_args (a # v # rest) opts =
     (if a = ''--server'' then parse_args rest (opts\<lparr>o_server := Some v\<rparr>)
      else if a = ''--user'' then parse_args rest (opts\<lparr>o_user := Some v\<rparr>)
      else if a = ''--pptp'' then parse_args rest (opts\<lparr>o_pptp := Some v\<rparr>)
      else if a = ''--password-fifo'' then parse_args rest (opts\<lparr>o_fifo := Some v\<rparr>)
      else if a = ''--control-socket'' then parse_args rest (opts\<lparr>o_control := Some v\<rparr>)
      else if a = ''--http'' then parse_args rest (opts\<lparr>o_http := atoi v\<rparr>)
      else if a = ''--socks'' then parse_args rest (opts\<lparr>o_socks := atoi v\<rparr>)
      else if a = ''--forward'' \<and> length (o_forwards opts) < 32
        then parse_args rest (opts\<lparr>o_forwards := o_forwards opts @ [take 511 v]\<rparr>)
      else None)"

fun add_forwards :: "string list \<Rightarrow> listener list \<Rightarrow> listener list option" where
  "add_forwards [] ls = Some ls"
| "add_forwards (f # fs) ls =
     (case parse_forward f ls of None \<Rightarrow> None | Some ms \<Rightarrow> add_forwards fs ms)"

definition initial_listeners :: "options \<Rightarrow> listener list option" where
  "initial_listeners opts =
     (if o_server opts = None \<or> o_user opts = None \<or> o_pptp opts = None
         \<or> o_server opts = Some [] \<or> o_user opts = Some []
         \<or> \<not> valid_port (o_http opts) \<or> \<not> valid_port (o_socks opts) then None
      else case add_listener HTTP_PROXY (o_http opts) None 0 [] of
        None \<Rightarrow> None
      | Some ls \<Rightarrow>
          (case add_listener SOCKS_PROXY (o_socks opts) None 0 ls of
             None \<Rightarrow> None
           | Some ms \<Rightarrow> add_forwards (o_forwards opts) ms))"

section \<open>Start-up\<close>

record os_answers =
  os_control :: control_answer
  os_password :: password_source
  os_listen :: "int \<Rightarrow> sock_answer"
  os_fork :: int
  os_pty :: int
  os_pppos_ok :: bool
  os_connect_ok :: bool

text \<open>The listeners opened one after the other; the first failure ends the program.\<close>

fun open_listeners ::
    "(int \<Rightarrow> sock_answer) \<Rightarrow> listener list \<Rightarrow> listener list \<Rightarrow> effect list \<Rightarrow> (effect list) + (listener list \<times> effect list)" where
  "open_listeners ans [] acc es = Inr (acc, es)"
| "open_listeners ans (l # ls) acc es =
     (let (n, es') = listen_loopback (ans (local_port l)) (local_port l) in
      if n < 0 then Inl (es @ es')
      else open_listeners ans ls (acc @ [l\<lparr>l_fd := n\<rparr>]) (es @ es'))"

definition blank_engine :: engine where
  "blank_engine = \<lparr>connections = replicate MAX_CONNECTIONS (zero_connection\<lparr>fd := -1\<rparr>), listeners = [],
     link_up = False, stop_requested = False, sent_bytes = 0, received_bytes = 0, connected_since_ms = 0,
     pty_fd = -1, control_fd = -1, control_socket_path = None, pptp_pid = -1, vpn_password = [], effects = []\<rparr>"

definition open_control :: "os_answers \<Rightarrow> options \<Rightarrow> int \<times> effect list" where
  "open_control os opts =
     (if o_control opts = None then (-1, []) else listen_control (os_control os) (o_control opts))"

text \<open>The exit status where \<open>main\<close> returns early, the engine where it reaches the loop.\<close>

definition startup :: "os_answers \<Rightarrow> string list \<Rightarrow> int + engine" where
  "startup os args =
     (case parse_args args default_options of
        None \<Rightarrow> Inl 2
      | Some opts \<Rightarrow>
          (case initial_listeners opts of
             None \<Rightarrow> Inl 2
           | Some ls \<Rightarrow>
               (let (cfd, ces) = open_control os opts in
                if o_control opts \<noteq> None \<and> cfd < 0 then Inl 1
                else (let (ok, pw) = read_password (os_password os) (o_fifo opts) in
                      if \<not> ok then Inl 2
                      else if trim_password pw = [] then Inl 2
                      else (case open_listeners (os_listen os) ls [] ces of
                              Inl _ \<Rightarrow> Inl 1
                            | Inr (ms, es) \<Rightarrow>
                                if os_fork os < 0 then Inl 1
                                else if os_fork os = 0 then Inl 127
                                else if \<not> os_pppos_ok os then Inl 1
                                else if \<not> os_connect_ok os then Inl 1
                                else Inr (blank_engine\<lparr>listeners := ms, control_fd := cfd,
                                       control_socket_path := o_control opts, pptp_pid := os_fork os,
                                       pty_fd := os_pty os, vpn_password := trim_password pw,
                                       effects := es\<rparr>))))))"

section \<open>One turn of the main loop\<close>

text \<open>When the loop selects a client for reading: only with room for a whole read in both buffers.\<close>

definition READ_SIZE :: nat where "READ_SIZE = 8192"

definition wants_read :: "connection \<Rightarrow> bool" where
  "wants_read c \<longleftrightarrow> phase c \<noteq> RESOLVING \<and> phase c \<noteq> CONNECTING
     \<and> length (to_remote c) < BUFFER_SIZE - READ_SIZE \<and> length (to_local c) < BUFFER_SIZE - READ_SIZE"

text \<open>The loop before \<open>select\<close>: the descriptors to read and to write, and the flush of streaming clients.\<close>

fun prepare :: "(nat \<Rightarrow> net_env) \<Rightarrow> nat list \<Rightarrow> int list \<Rightarrow> int list \<Rightarrow> engine \<Rightarrow> int list \<times> int list \<times> engine" where
  "prepare env [] rd wr s = (rd, wr, s)"
| "prepare env (i # is) rd wr s =
     (let c = connections s ! i in
      if fd c < 0 then prepare env is rd wr s
      else prepare env is
             (if wants_read c then rd @ [fd c] else rd)
             (if to_local c \<noteq> [] then wr @ [fd c] else wr)
             (if phase c = STREAMING then with_conn i (flush_remote (env i)) s else s))"

text \<open>What the system and lwIP answer while client \<open>i\<close> is served.\<close>

record client_answer =
  an_env :: net_env
  an_written :: int
  an_again :: bool
  an_read :: read_result

definition serve_client ::
    "int list \<Rightarrow> int list \<Rightarrow> (nat \<Rightarrow> client_answer) \<Rightarrow> nat \<Rightarrow> engine \<Rightarrow> engine" where
  "serve_client readable writable an i s =
     (if fd (connections s ! i) < 0 then s
      else (let s1 = (if fd (connections s ! i) \<in> set writable
                      then with_conn i (flush_local (an_written (an i)) (an_again (an i))) s else s)
            in if fd (connections s1 ! i) < 0 then s1
               else if fd (connections s1 ! i) \<in> set readable
               then with_conn i (client_read (an_env (an i)) (an_read (an i)) (link_up s1)) s1
               else s1))"

definition serve_clients ::
    "int list \<Rightarrow> int list \<Rightarrow> (nat \<Rightarrow> client_answer) \<Rightarrow> engine \<Rightarrow> engine" where
  "serve_clients readable writable an s =
     fold (serve_client readable writable an) [0..<MAX_CONNECTIONS] s"

text \<open>
  The loop over the listeners. \<open>listener_count\<close> is read again on every turn, but \<open>accept_client\<close>
  does not change the table.
\<close>

definition accept_clients ::
    "int list \<Rightarrow> (nat \<Rightarrow> (int \<times> bool \<times> net_env) list) \<Rightarrow> engine \<Rightarrow> engine" where
  "accept_clients readable as s =
     fold (\<lambda>i s. if l_fd (listeners s ! i) \<in> set readable then accept_client (as i) (listeners s ! i) s else s)
       [0..<length (listeners s)] s"

section \<open>The callbacks of lwIP\<close>

text \<open>
  The calls lwIP makes from \<open>sys_check_timeouts\<close> and \<open>pppos_input\<close>, and signals. A TCP callback is made
  for the connection that owns the control block, the DNS callback for a slot whose query is pending.
\<close>

inductive lwip_step :: "engine \<Rightarrow> engine \<Rightarrow> bool" where
  sent: "i < length (connections s) \<Longrightarrow> tcp (connections s ! i) = Some p \<Longrightarrow>
     lwip_step s (snd (on_tcp_sent env i len s))"
| poll: "i < length (connections s) \<Longrightarrow> tcp (connections s ! i) = Some p \<Longrightarrow>
     lwip_step s (snd (on_tcp_poll env i s))"
| error: "i < length (connections s) \<Longrightarrow> tcp (connections s ! i) = Some p \<Longrightarrow>
     lwip_step s (with_conn i on_tcp_error s)"
| receive: "i < length (connections s) \<Longrightarrow> tcp (connections s ! i) = Some p \<Longrightarrow>
     lwip_step s (with_conn i (receive_slot env p data err)
       (s\<lparr>received_bytes := received_bytes s
            + of_nat (fst (snd (on_tcp_receive env p data err (connections s ! i))))\<rparr>))"
| connected: "i < length (connections s) \<Longrightarrow> tcp (connections s ! i) = Some p \<Longrightarrow>
     phase (connections s ! i) = CONNECTING \<Longrightarrow> lwip_step s (with_conn i (connected_slot env err) s)"
| dns: "i < length (connections s) \<Longrightarrow> resolving (connections s ! i) \<Longrightarrow>
     lwip_step s (with_conn i (dns_done env a) s)"
| status: "lwip_step s (ppp_status st tx rx now s)"
| signal: "lwip_step s (on_signal s)"

section \<open>Turns, runs and the shutdown\<close>

text \<open>
  One turn: timers, preparation, \<open>select\<close>, input from the pseudo terminal, the control
  socket, new clients, and the clients. \<open>select\<close> only leaves descriptors that were asked for.
\<close>

inductive_cases lwip_stepE: "lwip_step s t"

inductive turn :: "engine \<Rightarrow> engine \<Rightarrow> bool" where
  interrupted: "\<not> stop_requested s \<Longrightarrow> lwip_step\<^sup>*\<^sup>* s s1 \<Longrightarrow>
     prepare env [0..<MAX_CONNECTIONS] [] [] s1 = (rd, wr, s2) \<Longrightarrow> turn s s2"
| served: "\<not> stop_requested s \<Longrightarrow> lwip_step\<^sup>*\<^sup>* s s1 \<Longrightarrow>
     prepare env [0..<MAX_CONNECTIONS] [] [] s1 = (rd, wr, s2) \<Longrightarrow>
     set readable \<subseteq> set rd \<Longrightarrow> set writable \<subseteq> set wr \<Longrightarrow>
     lwip_step\<^sup>*\<^sup>* s2 s3 \<Longrightarrow>
     s4 = s3 \<or> s4 = handle_control fok rs ans now peer s3 \<Longrightarrow>
     s5 = accept_clients lrd as s4 \<Longrightarrow>
     s6 = serve_clients readable writable an s5 \<Longrightarrow> turn s s6"

text \<open>
  After the loop, which ends on a stop request or when \<open>waitpid\<close> reports the end of the PPTP process and its identifier is
  set to -1. \<open>ppp_close\<close> is recorded; the status callback it may cause finds no connection left. \<open>waits\<close> are the answers of \<open>waitpid\<close>: \<open>Some True\<close> reaped or no child, \<open>Some False\<close> an error
  other than \<open>EINTR\<close>, \<open>None\<close> not yet.
\<close>

fun reap :: "bool option list \<Rightarrow> nat \<Rightarrow> bool" where
  "reap ws 0 = False"
| "reap [] (Suc n) = False"
| "reap (w # ws) (Suc n) = (case w of Some True \<Rightarrow> True | Some False \<Rightarrow> False | None \<Rightarrow> reap ws n)"

definition SIGTERM :: int where "SIGTERM = 15"
definition SIGKILL :: int where "SIGKILL = 9"

definition stop_pptp :: "bool option list \<Rightarrow> engine \<Rightarrow> engine" where
  "stop_pptp waits s =
     (if pptp_pid s > 0 then
        emit (Kill SIGTERM # (if reap waits 20 then [] else [Kill SIGKILL])) s
      else s)"

definition shutdown :: "bool option list \<Rightarrow> engine \<Rightarrow> engine" where
  "shutdown waits s =
     (let s1 = emit [Ppp_close] (close_all s);
          s2 = stop_pptp waits s1;
          s3 = (if pty_fd s2 \<ge> 0 then emit [Close_peer (pty_fd s2)] s2 else s2);
          s4 = cleanup_control_socket s3;
          s5 = emit (map (\<lambda>l. Close_listener (l_fd l)) (filter (\<lambda>l. 0 \<le> l_fd l) (listeners s4))) s4
      in s5\<lparr>vpn_password := erase_secret PASSWORD_SIZE (vpn_password s5)\<rparr>)"

inductive reachable :: "os_answers \<Rightarrow> string list \<Rightarrow> engine \<Rightarrow> bool" for os args where
  started: "startup os args = Inr s \<Longrightarrow> reachable os args s"
| turned: "reachable os args s \<Longrightarrow> turn s t \<Longrightarrow> reachable os args t"

section \<open>The invariant\<close>

definition held_fds :: "connection list \<Rightarrow> int list" where
  "held_fds cs = concat (map held_fd cs)"

definition engine_ok :: "engine \<Rightarrow> bool" where
  "engine_ok s \<longleftrightarrow>
     length (connections s) = MAX_CONNECTIONS
     \<and> list_all conn_ok (connections s)
     \<and> (\<not> link_up s \<longrightarrow> list_all (\<lambda>c. \<not> remote_open c) (connections s))
     \<and> mset (accepted_fds (effects s)) = mset (closed_fds (effects s)) + mset (held_fds (connections s))
     \<and> listeners_ok (listeners s)"

text \<open>A concrete system, for runs from the command line on.\<close>

definition demo_os :: os_answers where
  "demo_os = \<lparr>os_control = \<lparr>ca_socket = 4, ca_bind_fails = False, ca_chmod_fails = False, ca_listen_fails = False,
       ca_nonblocking = 0\<rparr>,
     os_password = \<lparr>ps_stdin = Some (''secret'' @ [CHR ''\<newline>'']), ps_open_ok = True, ps_is_fifo = True, ps_start = 0,
       ps_turns = []\<rparr>,
     os_listen = (\<lambda>p. \<lparr>sa_socket = 100 + p, sa_bind_fails = False, sa_listen_fails = False, sa_getfl = 0, sa_setfl = 0\<rparr>),
     os_fork = 99, os_pty = 3, os_pppos_ok = True, os_connect_ok = True\<rparr>"

definition demo_args :: "string list" where
  "demo_args = [''--server'', ''vpn'', ''--user'', ''u'', ''--pptp'', ''/p'', ''--forward'', ''81:db:80'']"

definition demo_started :: engine where
  "demo_started = blank_engine\<lparr>listeners := [(plain_listener HTTP_PROXY 18080)\<lparr>l_fd := 18180\<rparr>,
       (plain_listener SOCKS_PROXY 11080)\<lparr>l_fd := 11180\<rparr>, (forward_listener 81 ''db'' 80)\<lparr>l_fd := 181\<rparr>],
     pptp_pid := 99, pty_fd := 3, vpn_password := ''secret'',
     effects := [Socket_fd 18180, Listen_fd 18180 18080, Socket_fd 11180, Listen_fd 11180 11080,
       Socket_fd 181, Listen_fd 181 81]\<rparr>"

definition demo_stream :: connection where
  "demo_stream = zero_connection\<lparr>fd := 7, phase := STREAMING, tcp := Some 1, host := ''db'', port := 80\<rparr>"

definition demo_net :: net_env where
  "demo_net = \<lparr>env_sndbuf = (\<lambda>_. 5440), env_write = (\<lambda>_ _. ERR_OK), env_close = (\<lambda>_. ERR_OK),
     env_new = Some 1, env_connect = (\<lambda>_ _ _. ERR_OK), env_dns = (\<lambda>_. (ERR_INPROGRESS, 0))\<rparr>"

definition demo_streaming :: engine where
  "demo_streaming = demo_started\<lparr>connections := demo_stream # tl (connections demo_started),
     link_up := True, effects := effects demo_started @ [Accept_fd 7]\<rparr>"

lemma held_fds_update:
  "i < length cs \<Longrightarrow>
     mset (held_fds (cs[i := c])) + mset (held_fd (cs ! i)) = mset (held_fds cs) + mset (held_fd c)"
proof (induction cs arbitrary: i)
  case Nil
  then show ?case by simp
next
  case (Cons d cs)
  then show ?case by (cases i) (auto simp: held_fds_def add_ac)
qed

lemma mset_balance:
  fixes a :: "'a multiset"
  assumes "a = cl + h" and "h' + o1 = h + n" and "cl2 + n = o1 + a2"
  shows "a + a2 = cl + cl2 + h'"
proof -
  have "a + a2 + o1 = cl + cl2 + h' + o1"
    using assms by (metis (no_types, opaque_lifting) add.assoc add.commute)
  then show ?thesis by simp
qed

lemma engine_ok_fields:
  assumes "engine_ok s" and "connections t = connections s" and "listeners t = listeners s"
    and "link_up t = link_up s" and "effects t = effects s"
  shows "engine_ok t"
  using assms by (simp add: engine_ok_def)

lemma engine_ok_conn: "engine_ok s \<Longrightarrow> i < length (connections s) \<Longrightarrow> conn_ok (connections s ! i)"
  by (simp add: engine_ok_def list_all_nth)

lemma engine_ok_gate:
  "engine_ok s \<Longrightarrow> i < length (connections s) \<Longrightarrow> remote_open (connections s ! i) \<Longrightarrow> link_up s"
  by (auto simp: engine_ok_def list_all_length)

lemma with_conn_engine_ok:
  assumes "engine_ok s" and "i < length (connections s)" and "f (connections s ! i) = (c, es)"
    and "conn_ok c" and "remote_open c \<Longrightarrow> link_up s"
    and "mset (closed_fds es) + mset (held_fd c) = mset (held_fd (connections s ! i)) + mset (accepted_fds es)"
  shows "engine_ok (with_conn i f s)"
proof -
  let ?cs = "connections s"
  have g: "list_all (\<lambda>c. \<not> remote_open c) (?cs[i := c])" if "\<not> link_up s"
    using assms(1,5) that by (auto simp: engine_ok_def intro!: list_all_update)
  have "mset (accepted_fds (effects s)) + mset (accepted_fds es)
      = mset (closed_fds (effects s)) + mset (closed_fds es) + mset (held_fds (?cs[i := c]))"
    using assms(1) by (intro mset_balance [OF _ held_fds_update [OF assms(2)] assms(6)]) (simp add: engine_ok_def)
  then show ?thesis
    using assms(1,3,4) g by (auto simp: engine_ok_def with_conn_effects intro: list_all_update)
qed

context slot_handler
begin

lemma with_conn_ok:
  assumes "engine_ok s" and "i < length (connections s)" and "pre (connections s ! i)"
  shows "engine_ok (with_conn i (f (link_up s)) s)"
proof -
  let ?c = "connections s ! i"
  obtain c es where r: "f (link_up s) ?c = (c, es)" by (cases "f (link_up s) ?c")
  note ok = engine_ok_conn [OF assms(1,2)]
  have "closed_fds es @ held_fd c = held_fd ?c" "accepted_fds es = []" "conn_ok c"
      "remote_open c \<Longrightarrow> link_up s \<or> remote_open ?c"
    using fd_conserved [OF ok assms(3), of "link_up s"] accepts_none [OF ok assms(3), of "link_up s"]
      keeps_ok [OF ok assms(3), of "link_up s"] gated [OF ok assms(3), of "link_up s"] r by simp_all
  then show ?thesis
    using engine_ok_gate [OF assms(1,2)] by (intro with_conn_engine_ok [where c = c and es = es, OF assms(1,2)]) (auto simp: r simp flip: mset_append)
qed

end

lemma engine_ok_sent [simp]: "engine_ok (s\<lparr>sent_bytes := n\<rparr>) = engine_ok s"
  "engine_ok (s\<lparr>received_bytes := n\<rparr>) = engine_ok s"
  "engine_ok (s\<lparr>connected_since_ms := n\<rparr>) = engine_ok s"
  "engine_ok (s\<lparr>stop_requested := b\<rparr>) = engine_ok s"
  by (simp_all add: engine_ok_def)

section \<open>Closing every connection\<close>

lemma close_slot_ok:
  assumes "engine_ok s" and "i < length (connections s)"
  shows "engine_ok (close_slot i s)"
  using assms close.with_conn_ok [OF assms] by (simp add: close_slot_def)

lemma close_slot_simps [simp]:
  "link_up (close_slot i s) = link_up s" "listeners (close_slot i s) = listeners s"
  "length (connections (close_slot i s)) = length (connections s)"
  by (simp_all add: close_slot_def)

lemma close_slot_connections:
  "i < length (connections s) \<Longrightarrow>
     connections (close_slot i s) = (connections s)[i := fst (if 0 \<le> fd (connections s ! i)
        then close_connection (connections s ! i) else (connections s ! i, []))]"
  by (auto simp: close_slot_def)

lemma fold_close_slot:
  assumes "engine_ok s" and "n \<le> length (connections s)"
  shows "engine_ok (fold close_slot [0..<n] s) \<and> link_up (fold close_slot [0..<n] s) = link_up s
     \<and> length (connections (fold close_slot [0..<n] s)) = length (connections s)
     \<and> (\<forall>i < min n (length (connections s)). fd (connections (fold close_slot [0..<n] s) ! i) < 0)"
  using assms(2)
proof (induction n)
  case 0
  then show ?case using assms(1) by simp
next
  case (Suc n)
  let ?t = "fold close_slot [0..<n] s"
  have t: "engine_ok ?t" "link_up ?t = link_up s" "length (connections ?t) = length (connections s)"
      "\<forall>i < n. fd (connections ?t ! i) < 0"
    using Suc by auto
  have "n < length (connections ?t)" using Suc.prems t(3) by simp
  then have "engine_ok (close_slot n ?t)" "fd (connections (close_slot n ?t) ! i) < 0" if "i < Suc n" for i
    using close_slot_ok [OF t(1)] t(4) that by (auto simp: close_slot_connections nth_list_update less_Suc_eq)
  then show ?case using t Suc.prems by (auto simp: min_def)
qed

lemma engine_ok_length: "engine_ok s \<Longrightarrow> length (connections s) = MAX_CONNECTIONS"
  by (simp add: engine_ok_def)

lemma close_all_ok:
  assumes "engine_ok s"
  shows "engine_ok (close_all s)" and "link_up (close_all s) = link_up s"
    and "list_all (\<lambda>c. fd c < 0) (connections (close_all s))"
  using fold_close_slot [OF assms, of MAX_CONNECTIONS] engine_ok_length [OF assms]
  by (auto simp: close_all_def list_all_length)

lemma fold_close_slot_relaxed:
  "connections (fold close_slot is (s\<lparr>link_up := b\<rparr>)) = connections (fold close_slot is s)
   \<and> listeners (fold close_slot is (s\<lparr>link_up := b\<rparr>)) = listeners (fold close_slot is s)
   \<and> effects (fold close_slot is (s\<lparr>link_up := b\<rparr>)) = effects (fold close_slot is s)"
proof (induction "is" arbitrary: s)
  case Nil
  then show ?case by simp
next
  case (Cons i "is")
  have "close_slot i (s\<lparr>link_up := b\<rparr>) = (close_slot i s)\<lparr>link_up := b\<rparr>"
    by (simp add: close_slot_def with_conn_def emit_def Let_def split: prod.splits)
  then show ?case using Cons by simp
qed

text \<open>Losing the link: the state before is well-formed for the old link, the state after has no open client.\<close>

lemma close_all_down:
  assumes "engine_ok s"
  defines "d \<equiv> s\<lparr>link_up := False, connected_since_ms := 0\<rparr>"
  shows "engine_ok (close_all d)" and "list_all (\<lambda>c. fd c < 0) (connections (close_all d))"
proof -
  let ?u = "s\<lparr>connected_since_ms := 0, link_up := True\<rparr>"
  have u: "engine_ok ?u" using assms(1) by (simp add: engine_ok_def)
  have "d = ?u\<lparr>link_up := False\<rparr>" by (simp add: d_def)
  then have eq: "connections (close_all d) = connections (close_all ?u)" "listeners (close_all d) = listeners (close_all ?u)"
      "effects (close_all d) = effects (close_all ?u)"
    using fold_close_slot_relaxed [of "[0..<MAX_CONNECTIONS]" False ?u] by (simp_all add: close_all_def)
  show l: "list_all (\<lambda>c. fd c < 0) (connections (close_all d))" using close_all_ok(3) [OF u] eq(1) by simp
  then have "list_all (\<lambda>c. \<not> remote_open c) (connections (close_all d))"
    by (auto simp: list_all_iff remote_open_def)
  then show "engine_ok (close_all d)"
    using close_all_ok(1) [OF u] eq by (simp add: engine_ok_def)
qed

lemma ppp_status_ok:
  assumes "engine_ok s"
  shows "engine_ok (ppp_status st tx rx now s)"
  using assms close_all_down(1) [OF assms] by (auto simp: ppp_status_def engine_ok_def Let_def)

section \<open>Accepting keeps the invariant\<close>

lemma fresh_connection_ready:
  assumes "0 \<le> n" and "listener_ok l" and "l_kind l = FORWARD"
    and "set_target (remote_host l) (remote_port l) (fresh_connection n l) = Some c"
  shows "ready c" and "held_fd c = [n]"
  using assms set_target_Some [OF assms(4)]
  by (auto simp: ready_def fresh_connection_def zero_connection_def buffers_ok_def limits listener_ok_def held_fd_def
      target_ok_def)

lemma fresh_connection_ok:
  assumes "0 \<le> n" and "l_kind l \<noteq> FORWARD"
  shows "conn_ok (fresh_connection n l)" and "\<not> remote_open (fresh_connection n l)"
    and "held_fd (fresh_connection n l) = [n]"
  using assms
  by (auto simp: fresh_connection_def zero_connection_def conn_defs limits held_fd_def remote_open_def target_ok_def)

lemma admit_laws:
  assumes "0 \<le> n" and "listener_ok l" and "admit env link n l = (c, es)"
  shows "conn_ok c" and "remote_open c \<Longrightarrow> link" and "closed_fds es @ held_fd c = [n]" and "accepted_fds es = []"
proof -
  have "conn_ok c \<and> (remote_open c \<longrightarrow> link) \<and> closed_fds es @ held_fd c = [n] \<and> accepted_fds es = []"
  proof (cases "l_kind l = FORWARD")
    case False
    then show ?thesis using assms(3) fresh_connection_ok [OF assms(1) False] by (auto simp: admit_def)
  next
    case True
    show ?thesis
    proof (cases "set_target (remote_host l) (remote_port l) (fresh_connection n l)")
      case None
      have "set_target (remote_host l) (remote_port l) (fresh_connection n l) \<noteq> None"
        using assms(2) True by (auto simp: set_target_def listener_ok_def)
      with None show ?thesis by simp
    next
      case (Some c1)
      note rd = fresh_connection_ready [OF assms(1,2) True Some]
      have st: "start_connection env link c1 = (c, es)" using assms(3) True Some by (simp add: admit_def)
      show ?thesis
        using start_connection_laws [OF rd(1), where env = env and link = link] st rd(2) by (cases link) (auto simp: remote_open_def)
    qed
  qed
  then show "conn_ok c" and "remote_open c \<Longrightarrow> link" and "closed_fds es @ held_fd c = [n]" and "accepted_fds es = []"
    by simp_all
qed

lemma accept_one_ok:
  assumes "engine_ok s" and "0 \<le> n" and "listener_ok l" and "free_slot (connections s) = Some i"
  shows "engine_ok (with_conn i (\<lambda>_. admit env (link_up s) n l) (emit [Accept_fd n] s))"
proof -
  obtain c es where a: "admit env (link_up s) n l = (c, es)" by (cases "admit env (link_up s) n l")
  note laws = admit_laws [OF assms(2,3) a]
  have i: "i < length (connections s)" "held_fd (connections s ! i) = []"
    using first_pos_Some assms(4) by (fastforce simp: free_slot_def held_fd_def)+
  have "with_conn i (\<lambda>_. admit env (link_up s) n l) (emit [Accept_fd n] s)
      = with_conn i (\<lambda>_. (c, Accept_fd n # es)) s"
    using a by (simp add: with_conn_def emit_def)
  moreover have "engine_ok (with_conn i (\<lambda>_. (c, Accept_fd n # es)) s)"
    by (rule with_conn_engine_ok [where c = c and es = "Accept_fd n # es", OF assms(1) i(1)])
      (use laws i(2) in \<open>auto simp flip: mset_append\<close>)
  ultimately show ?thesis by simp
qed

lemma accept_client_ok:
  assumes "engine_ok s" and "listener_ok l"
  shows "engine_ok (accept_client as l s) \<and> listeners (accept_client as l s) = listeners s"
  using assms
proof (induction as l s rule: accept_client.induct)
  case (1 l s)
  then show ?case by simp
next
  case (2 n bad env as l s)
  have r: "engine_ok (emit [Accept_fd n, Close_fd n] s)"
    using 2(2) by (simp add: engine_ok_def)
  show ?case
    using 2 r accept_one_ok [OF 2(2) _ 2(3), of n _ env]
    by (auto simp: Let_def split: option.splits)
qed

lemma fold_engine:
  assumes "P s" and "\<And>i s. i \<in> set is \<Longrightarrow> P s \<Longrightarrow> P (f i s)"
  shows "P (fold f is s)"
  using assms by (induction "is" arbitrary: s) auto

lemma accept_clients_ok:
  assumes "engine_ok s"
  shows "engine_ok (accept_clients readable as s)"
proof -
  let ?f = "\<lambda>i t. if l_fd (listeners t ! i) \<in> set readable then accept_client (as i) (listeners t ! i) t else t"
  have "engine_ok (fold ?f [0..<length (listeners s)] s) \<and> listeners (fold ?f [0..<length (listeners s)] s) = listeners s"
  proof (rule fold_engine [where P = "\<lambda>t. engine_ok t \<and> listeners t = listeners s"])
    fix i t
    assume "i \<in> set [0..<length (listeners s)]" and t: "engine_ok t \<and> listeners t = listeners s"
    then have "listener_ok (listeners t ! i)"
      by (auto simp: engine_ok_def listeners_ok_def list_all_length)
    then show "engine_ok (?f i t) \<and> listeners (?f i t) = listeners s"
      using t accept_client_ok by auto
  qed (use assms in simp)
  then show ?thesis by (simp add: accept_clients_def)
qed

section \<open>The passes over the clients keep the invariant\<close>

lemma prepare_ok:
  assumes "engine_ok s" and "\<forall>i \<in> set is. i < MAX_CONNECTIONS"
  shows "engine_ok (snd (snd (prepare env is rd wr s)))"
  using assms
proof (induction "is" arbitrary: rd wr s)
  case Nil
  then show ?case by simp
next
  case (Cons i "is")
  have "engine_ok (with_conn i (flush_remote (env i)) s)"
    using flush_r.with_conn_ok [OF Cons.prems(1)] Cons.prems engine_ok_length by auto
  then show ?case using Cons by (simp add: Let_def)
qed

lemma serve_client_ok:
  assumes "engine_ok s" and "i < MAX_CONNECTIONS"
  shows "engine_ok (serve_client readable writable an i s)"
proof -
  have l: "i < length (connections t)" if "engine_ok t" for t using that assms(2) by (simp add: engine_ok_def)
  let ?s1 = "if fd (connections s ! i) \<in> set writable
       then with_conn i (flush_local (an_written (an i)) (an_again (an i))) s else s"
  have s1: "engine_ok ?s1"
    using flush_l.with_conn_ok [OF assms(1) l [OF assms(1)]] assms(1) by simp
  have "engine_ok (with_conn i (client_read (an_env (an i)) (an_read (an i)) (link_up ?s1)) ?s1)"
    if "0 \<le> fd (connections ?s1 ! i)"
    using client.with_conn_ok [OF s1 l [OF s1]] that by simp
  then show ?thesis using assms(1) s1 by (auto simp: serve_client_def Let_def not_less)
qed

lemma serve_clients_ok:
  "engine_ok s \<Longrightarrow> engine_ok (serve_clients readable writable an s)"
  unfolding serve_clients_def by (rule fold_engine) (auto intro: serve_client_ok)

lemma lwip_step_ok:
  assumes "lwip_step s t" and "engine_ok s"
  shows "engine_ok t"
  using assms(1)
proof cases
  case (sent i p env len)
  then show ?thesis
    using flush_r.with_conn_ok [of "s\<lparr>sent_bytes := sent_bytes s + ucast len\<rparr>" i] assms(2)
    by (simp add: on_tcp_sent_def)
next
  case (poll i p env)
  then show ?thesis using flush_r.with_conn_ok [OF assms(2)] by (simp add: on_tcp_poll_def)
next
  case (error i p)
  then show ?thesis using tcp_error.with_conn_ok [OF assms(2)] by simp
next
  case (receive i p env data err)
  let ?s = "s\<lparr>received_bytes := received_bytes s
            + of_nat (fst (snd (on_tcp_receive env p data err (connections s ! i))))\<rparr>"
  show ?thesis using receive.with_conn_ok [of ?s i p env data err] receive assms(2) by simp
next
  case (connected i p env err)
  then show ?thesis using connected.with_conn_ok [OF assms(2)] by simp
next
  case (dns i env a)
  then show ?thesis using dns.with_conn_ok [OF assms(2)] by simp
next
  case (status st tx rx now)
  then show ?thesis using ppp_status_ok [OF assms(2)] by simp
next
  case signal
  then show ?thesis using assms(2) by (simp add: on_signal_def)
qed

lemma lwip_steps_ok: "lwip_step\<^sup>*\<^sup>* s t \<Longrightarrow> engine_ok s \<Longrightarrow> engine_ok t"
  by (induction rule: rtranclp_induct) (auto intro: lwip_step_ok)

lemma handle_control_effects:
  "accepted_fds (effects (handle_control fok rs ans now peer s)) = accepted_fds (effects s)"
  "closed_fds (effects (handle_control fok rs ans now peer s)) = closed_fds (effects s)"
proof -
  have t: "accepted_fds es = [] \<and> closed_fds es = []" if "list_all (\<lambda>e. table_effect e \<or> reply_to peer e) es" for es
    using that by (induction es) (auto simp: table_effect_def reply_to_def split: effect.splits)
  obtain es where e: "effects (handle_control fok rs ans now peer s) = effects s @ es" "control_calls peer es"
    using handle_control_calls by blast
  then have "es = butlast es @ [Close_peer peer]" by (metis append_butlast_last_id control_calls_def)
  then have "accepted_fds es = accepted_fds (butlast es) @ []" "closed_fds es = closed_fds (butlast es) @ []"
    by (metis effect_projections_append(1,2) accepted_fds.simps closed_fds.simps)+
  then have "accepted_fds es = [] \<and> closed_fds es = []"
    using t [of "butlast es"] e(2) by (simp add: control_calls_def)
  then show "accepted_fds (effects (handle_control fok rs ans now peer s)) = accepted_fds (effects s)"
    "closed_fds (effects (handle_control fok rs ans now peer s)) = closed_fds (effects s)"
    using e(1) by simp_all
qed

lemma handle_control_ok: "engine_ok s \<Longrightarrow> engine_ok (handle_control fok rs ans now peer s)"
  using handle_control_frame handle_control_effects by (simp add: engine_ok_def)

lemma turn_ok:
  assumes "turn s t" and "engine_ok s"
  shows "engine_ok t"
  using assms(1)
proof cases
  case (interrupted s1 env rd wr)
  then show ?thesis
    using prepare_ok [of s1 "[0..<MAX_CONNECTIONS]" env "[]" "[]"] lwip_steps_ok [OF interrupted(2) assms(2)] by simp
next
  case (served s1 env rd wr s2 readable writable s3 s4 fok rs ans now peer s5 lrd as an)
  have "engine_ok s2"
    using prepare_ok [of s1 "[0..<MAX_CONNECTIONS]" env "[]" "[]"] lwip_steps_ok [OF served(2) assms(2)] served(3) by simp
  then have "engine_ok s3" using served(6) lwip_steps_ok by blast
  then have "engine_ok s4" using served(7) handle_control_ok by blast
  then have "engine_ok s5" using served(8) accept_clients_ok by blast
  then show ?thesis using served(9) serve_clients_ok by blast
qed

section \<open>Start-up establishes the invariant\<close>

lemma add_forwards_ok:
  assumes "add_forwards fs ls = Some ms" and "listeners_ok ls" and "\<forall>f \<in> set fs. NUL \<notin> set f"
  shows "listeners_ok ms"
  using assms
  by (induction fs ls rule: add_forwards.induct) (auto split: option.splits dest: parse_forward_table)

lemma parse_args_forwards:
  assumes "parse_args as opts = Some opts'" and "f \<in> set (o_forwards opts')"
  shows "f \<in> set (o_forwards opts) \<or> (\<exists>a \<in> set as. f = take 511 a)"
  using assms
proof (induction as opts rule: parse_args.induct)
  case (3 a v rest opts)
  note ih = 3(1-8) and prem = 3(9,10)
  show ?case
    using prem ih by (simp split: if_splits) blast+
qed simp_all

lemma initial_listeners_ok:
  assumes "initial_listeners opts = Some ls" and "\<forall>f \<in> set (o_forwards opts). NUL \<notin> set f"
  shows "listeners_ok ls"
proof -
  obtain l1 l2 where a: "add_listener HTTP_PROXY (o_http opts) None 0 [] = Some l1"
      "add_listener SOCKS_PROXY (o_socks opts) None 0 l1 = Some l2" "add_forwards (o_forwards opts) l2 = Some ls"
    using assms(1) by (auto simp: initial_listeners_def split: if_splits option.splits)
  have "listeners_ok []" by (simp add: listeners_ok_def)
  then have "listeners_ok l2" using add_listener_ok [OF a(1)] add_listener_ok [OF a(2)] by simp
  then show ?thesis using add_forwards_ok [OF a(3)] assms(2) by simp
qed

lemma open_listeners_Inr:
  assumes "open_listeners ans ls acc es = Inr (ms, es')" and "accepted_fds es = []" and "closed_fds es = []"
  shows "same_config ms (acc @ ls) \<and> accepted_fds es' = [] \<and> closed_fds es' = []"
  using assms
proof (induction ls arbitrary: acc es)
  case Nil
  then show ?case by (simp add: same_config_def)
next
  case (Cons l ls)
  obtain n fs where l: "listen_loopback (ans (local_port l)) (local_port l) = (n, fs)" "0 \<le> n"
    using Cons.prems(1) by (cases "listen_loopback (ans (local_port l)) (local_port l)") (auto split: if_splits)
  have "accepted_fds fs = []" "closed_fds fs = []"
    using l by (auto simp: listen_loopback_def Let_def split: if_splits)
  then show ?case
    using Cons.IH [of "acc @ [l\<lparr>l_fd := n\<rparr>]" "es @ fs"] Cons.prems l by (simp add: same_config_def)
qed

lemma held_fds_blank: "fd c < 0 \<Longrightarrow> held_fds (replicate n c) = []"
  by (induction n) (auto simp: held_fds_def held_fd_def)

lemma startup_ok:
  assumes "startup os args = Inr s" and "\<forall>a \<in> set args. NUL \<notin> set a"
  shows "engine_ok s"
proof -
  obtain opts ls ms es where
    p: "parse_args args default_options = Some opts" "initial_listeners opts = Some ls"
      "open_listeners (os_listen os) ls [] (snd (open_control os opts)) = Inr (ms, es)"
      "connections s = connections blank_engine" "listeners s = ms" "\<not> link_up s" "effects s = es"
    using assms(1)
    by (auto simp: startup_def blank_engine_def split: option.splits prod.splits sum.splits if_splits)
  let ?ces = "snd (open_control os opts)"
  have "NUL \<notin> set (take 511 a)" if "a \<in> set args" for a
    using assms(2) that by (meson in_set_takeD)
  then have "listeners_ok ls"
    using initial_listeners_ok [OF p(2)] parse_args_forwards [OF p(1)] by (auto simp: default_options_def)
  moreover have "accepted_fds ?ces = [] \<and> closed_fds ?ces = []"
    by (auto simp: open_control_def listen_control_def Let_def split: option.splits if_splits)
  ultimately have "listeners_ok ms" "accepted_fds es = []" "closed_fds es = []"
    using open_listeners_Inr [OF p(3)] same_config_ok by auto
  then show ?thesis
    using p(4-7)
    by (simp add: engine_ok_def blank_engine_def held_fds_blank list_all_iff conn_ok_def buffers_ok_def
        zero_connection_def limits remote_open_def)
qed

lemma reachable_ok:
  assumes "reachable os args s" and "\<forall>a \<in> set args. NUL \<notin> set a"
  shows "engine_ok s"
  using assms by (induction rule: reachable.induct) (auto intro: startup_ok turn_ok)

section \<open>A concrete start-up\<close>

lemma demo_parse_args: "parse_args demo_args default_options = Some (default_options\<lparr>o_server := Some ''vpn'', o_user := Some ''u'',
   o_pptp := Some ''/p'', o_forwards := [''81:db:80'']\<rparr>)"
  by code_simp

lemma demo_initial: "initial_listeners (default_options\<lparr>o_server := Some ''vpn'', o_user := Some ''u'',
   o_pptp := Some ''/p'', o_forwards := [''81:db:80'']\<rparr>) = Some [plain_listener HTTP_PROXY 18080, plain_listener SOCKS_PROXY 11080, forward_listener 81 ''db'' 80]"
  by code_simp

lemma demo_open: "open_listeners (os_listen demo_os) [plain_listener HTTP_PROXY 18080, plain_listener SOCKS_PROXY 11080, forward_listener 81 ''db'' 80] [] []
  = Inr (listeners demo_started, effects demo_started)"
  by (simp add: demo_os_def listen_loopback_def nonblocking_def plain_listener_def forward_listener_def demo_started_def)

lemma demo_password: "read_password (os_password demo_os) None = (True, ''secret'' @ [CHR ''\<newline>''])" "trim_password (''secret'' @ [CHR ''\<newline>'']) = ''secret''"
  by (simp add: demo_os_def read_password_def PASSWORD_SIZE_def) code_simp

lemma demo_startup: "startup demo_os demo_args = Inr demo_started"
  unfolding startup_def demo_parse_args option.case demo_initial
  by (simp add: open_control_def default_options_def demo_password [simplified] demo_open [simplified] demo_os_def [THEN arg_cong, of os_fork]) (simp add: demo_os_def demo_started_def blank_engine_def)

lemma demo_reachable: "reachable demo_os demo_args demo_started"
  by (rule reachable.started [OF demo_startup])

lemma demo_args_ok: "list_all (\<lambda>a. NUL \<notin> set a) demo_args"
  by (simp add: demo_args_def)

text \<open>The same engine with the link up and one client streaming through control block 1.\<close>

lemma demo_streaming_ok: "engine_ok demo_streaming"
  by (simp add: engine_ok_def demo_streaming_def demo_started_def blank_engine_def demo_stream_def held_fds_blank
      held_fds_def held_fd_def zero_connection_def conn_ok_def buffers_ok_def phase_ok_def header_phase_def remote_phase_def
      target_ok_def valid_port_def listeners_ok_def listener_ok_def plain_listener_def forward_listener_def limits list_all_iff)

section \<open>Properties of the whole engine\<close>

text \<open>C1: in every state the engine reaches from its start-up, all 128 connections and the listener table are
  well-formed: the phase, the descriptors, the control block and the pending query of every slot agree and no buffer exceeds its array.\<close>

theorem reachable_well_formed:
  assumes "reachable os args s" and "list_all (\<lambda>a. NUL \<notin> set a) args"
  shows "length (connections s) = MAX_CONNECTIONS \<and> list_all conn_ok (connections s) \<and> listeners_ok (listeners s)"
  using reachable_ok [OF assms(1)] assms(2) by (simp add: engine_ok_def list_all_iff)

theorem reachable_well_formed_witness:
  "length (connections demo_started) = MAX_CONNECTIONS \<and> listeners_ok (listeners demo_started)"
  using reachable_well_formed [OF demo_reachable demo_args_ok] by simp

text \<open>C2: no proxied connection is ever resolving, connecting or streaming while the encrypted link is down.\<close>

theorem no_remote_without_link:
  assumes "reachable os args s" and "list_all (\<lambda>a. NUL \<notin> set a) args" and "\<not> link_up s"
  shows "list_all (\<lambda>c. \<not> remote_open c) (connections s)"
  using reachable_ok [OF assms(1)] assms(2,3) by (simp add: engine_ok_def list_all_iff)

theorem no_remote_without_link_witness:
  "list_all (\<lambda>c. \<not> remote_open c) (connections demo_started)"
proof -
  have "\<not> link_up demo_started" by (simp add: demo_started_def blank_engine_def)
  then show ?thesis by (rule no_remote_without_link [OF demo_reachable demo_args_ok])
qed

text \<open>C3: descriptors of clients are neither leaked nor closed twice: in every reachable state the accepted ones
  are exactly the closed ones together with those held by open connections.\<close>

theorem client_descriptors_conserved:
  assumes "reachable os args s" and "list_all (\<lambda>a. NUL \<notin> set a) args"
  shows "mset (accepted_fds (effects s)) = mset (closed_fds (effects s)) + mset (held_fds (connections s))"
  using reachable_ok [OF assms(1)] assms(2) by (simp add: engine_ok_def list_all_iff)

theorem client_descriptors_conserved_witness:
  "mset (accepted_fds (effects demo_started)) = mset (closed_fds (effects demo_started)) + mset (held_fds (connections demo_started))"
  using client_descriptors_conserved [OF demo_reachable demo_args_ok] by simp

text \<open>the link counts as up exactly when PPP reported success and MPPE is negotiated in both directions; in every
  other case all clients are disconnected and the connection timer is cleared.\<close>

theorem ppp_status_requires_mppe:
  assumes "engine_ok s"
  shows "link_up (ppp_status st tx rx now s) = (st = PPPERR_NONE \<and> tx = CI_MPPE \<and> rx = CI_MPPE)
     \<and> (link_up (ppp_status st tx rx now s)
        \<or> list_all (\<lambda>c. fd c < 0) (connections (ppp_status st tx rx now s)))"
proof (cases "st = PPPERR_NONE \<and> tx = CI_MPPE \<and> rx = CI_MPPE")
  case True
  then show ?thesis by (simp add: ppp_status_def Let_def)
next
  case False
  have l: "link_up (fold close_slot is t) = link_up t" for "is" t by (induction "is" arbitrary: t) auto
  show ?thesis using False l close_all_down(2) [OF assms] by (auto simp: ppp_status_def Let_def close_all_def)
qed

theorem ppp_status_requires_mppe_witness:
  "list_all (\<lambda>c. fd c < 0) (connections (ppp_status 0 18 0 7 demo_streaming))"
  using ppp_status_requires_mppe [OF demo_streaming_ok, of 0 18 0 7] by (auto simp: CI_MPPE_def)

text \<open>C21: the shutdown closes every client descriptor that was ever accepted exactly once, and wipes the password.\<close>

theorem shutdown_releases_clients:
  assumes "engine_ok s" and "length (vpn_password s) \<le> PASSWORD_SIZE"
  shows "mset (accepted_fds (effects (shutdown waits s))) = mset (closed_fds (effects (shutdown waits s)))
     \<and> vpn_password (shutdown waits s) = replicate (length (vpn_password s)) NUL"
proof -
  let ?c = "close_all s"
  have pw: "vpn_password (fold close_slot is t) = vpn_password t" for "is" t
    by (induction "is" arbitrary: t) (auto simp: close_slot_def with_conn_def emit_def Let_def split: prod.splits)
  have "held_fds (connections ?c) = []"
    using close_all_ok(3) [OF assms(1)] by (auto simp: held_fds_def held_fd_def list_all_iff)
  then have c: "mset (accepted_fds (effects ?c)) = mset (closed_fds (effects ?c))"
    using close_all_ok(1) [OF assms(1)] by (simp add: engine_ok_def)
  have m: "accepted_fds (map (\<lambda>l. Close_listener (l_fd l)) ls) = []" "closed_fds (map (\<lambda>l. Close_listener (l_fd l)) ls) = []"
    for ls :: "listener list" by (induction ls) auto
  have e: "accepted_fds (effects (shutdown waits s)) = accepted_fds (effects ?c)"
      "closed_fds (effects (shutdown waits s)) = closed_fds (effects ?c)"
      "vpn_password (shutdown waits s) = erase_secret PASSWORD_SIZE (vpn_password ?c)"
    by (auto simp: shutdown_def stop_pptp_def cleanup_control_socket_def Let_def m split: option.splits)
  show ?thesis
    using c e pw assms(2) by (simp add: close_all_def erase_secret_def min_def)
qed

theorem shutdown_releases_clients_witness:
  "mset (accepted_fds (effects (shutdown [None, Some True] demo_streaming)))
      = mset (closed_fds (effects (shutdown [None, Some True] demo_streaming)))"
proof -
  have "length (vpn_password demo_streaming) \<le> PASSWORD_SIZE"
    by (simp add: demo_streaming_def demo_started_def PASSWORD_SIZE_def)
  then show ?thesis using shutdown_releases_clients [OF demo_streaming_ok] by blast
qed

text \<open>a client that the loop selects for reading never overruns its buffer: while the remote side is open,
  what one read returns is appended in full and the connection goes on unchanged otherwise.\<close>

theorem gated_read_never_overflows:
  assumes "wants_read c" and "remote_open c" and "length data \<le> READ_SIZE"
  shows "client_read env (Read data) link c = (c\<lparr>to_remote := to_remote c @ data\<rparr>, [])"
proof -
  have "\<not> length data > BUFFER_SIZE - length (to_remote c)"
    using assms(1,3) by (auto simp: wants_read_def READ_SIZE_def limits)
  then show ?thesis using feed_local_remote [OF assms(2)] by (simp add: client_read_def)
qed

theorem gated_read_never_overflows_witness:
  "client_read demo_net (Read ''ping'') True demo_stream = (demo_stream\<lparr>to_remote := ''ping''\<rparr>, [])"
  using gated_read_never_overflows [of demo_stream "''ping''" demo_net True]
  by (simp add: wants_read_def remote_open_def demo_stream_def zero_connection_def READ_SIZE_def limits)

end
