(* ===== verification/Net_Bytes.thy ===== *)
theory Net_Bytes
  imports Prelude
begin

text \<open>
  Reading and writing 16- and 32-bit fields of packets: in network byte order, as \<open>lwip_ntohs\<close> and
  \<open>lwip_ntohl\<close> of a field of a packed struct give them, and in the byte order of the target (little endian), as
  the checksum loops read them. A field that is written and read back has its value, and writing one field
  leaves the others alone.
\<close>

section \<open>Definitions\<close>

unbundle bit_operations_syntax

definition get16 :: "octets \<Rightarrow> nat \<Rightarrow> u16" where
  "get16 h i = push_bit 8 (ucast (h ! i)) OR ucast (h ! (i + 1))"

definition get16_le :: "octets \<Rightarrow> nat \<Rightarrow> u16" where
  "get16_le h i = push_bit 8 (ucast (h ! (i + 1))) OR ucast (h ! i)"

definition get32 :: "octets \<Rightarrow> nat \<Rightarrow> u32" where
  "get32 h i = push_bit 16 (ucast (get16 h i)) OR ucast (get16 h (i + 2))"

definition hi8 :: "u16 \<Rightarrow> u8" where "hi8 w = ucast (drop_bit 8 w)"
definition lo8 :: "u16 \<Rightarrow> u8" where "lo8 w = ucast w"

definition put16 :: "nat \<Rightarrow> u16 \<Rightarrow> octets \<Rightarrow> octets" where
  "put16 i w h = h[i := hi8 w, i + 1 := lo8 w]"

definition put16_le :: "nat \<Rightarrow> u16 \<Rightarrow> octets \<Rightarrow> octets" where
  "put16_le i w h = h[i := lo8 w, i + 1 := hi8 w]"

definition put32 :: "nat \<Rightarrow> u32 \<Rightarrow> octets \<Rightarrow> octets" where
  "put32 i w h = put16 (i + 2) (ucast w) (put16 i (ucast (drop_bit 16 w)) h)"

section \<open>Lemmas\<close>

lemma u16_of_octets [simp]:
  "hi8 (push_bit 8 (ucast a) OR ucast b) = a" "lo8 (push_bit 8 (ucast a) OR ucast b) = b"
  unfolding hi8_def lo8_def
  by (rule bit_word_eqI; auto simp: bit_simps dest: bit_imp_le_length)+

lemma octets_of_u16 [simp]: "push_bit 8 (ucast (hi8 w)) OR ucast (lo8 w) = w"
  unfolding hi8_def lo8_def by (rule bit_word_eqI) (auto simp: bit_simps)

lemma u32_of_u16 [simp]:
  "ucast (drop_bit 16 (push_bit 16 (ucast (a :: u16)) OR ucast (b :: u16) :: u32)) = a"
  "ucast (push_bit 16 (ucast (a :: u16)) OR ucast (b :: u16) :: u32) = b"
  by (rule bit_word_eqI; auto simp: bit_simps dest: bit_imp_le_length)+

lemma u16_of_u32 [simp]: "push_bit 16 (ucast (ucast (drop_bit 16 w) :: u16)) OR ucast (ucast w :: u16) = (w :: u32)"
  by (rule bit_word_eqI) (auto simp: bit_simps)

lemma hi_lo_eqI: "hi8 v = hi8 w \<Longrightarrow> lo8 v = lo8 w \<Longrightarrow> v = w"
  by (metis octets_of_u16)

lemma hi_get16 [simp]: "hi8 (get16 h i) = h ! i" and lo_get16 [simp]: "lo8 (get16 h i) = h ! Suc i"
  by (simp_all add: get16_def)

lemma hi_get16_le [simp]: "hi8 (get16_le h i) = h ! Suc i" and lo_get16_le [simp]: "lo8 (get16_le h i) = h ! i"
  by (simp_all add: get16_le_def)

lemma length_put [simp]:
  "length (put16 i w h) = length h" "length (put16_le i w h) = length h" "length (put32 i v h) = length h"
  by (simp_all add: put16_def put16_le_def put32_def)

lemma nth_put16:
  "Suc i < length h \<Longrightarrow> put16 i w h ! k = (if k = i then hi8 w else if k = Suc i then lo8 w else h ! k)"
  by (auto simp: put16_def nth_list_update)

lemma nth_put16_le:
  "Suc i < length h \<Longrightarrow> put16_le i w h ! k = (if k = i then lo8 w else if k = Suc i then hi8 w else h ! k)"
  by (auto simp: put16_le_def nth_list_update)

lemma nth_put32:
  "i + 3 < length h \<Longrightarrow> put32 i w h ! k =
     (if k = i then hi8 (ucast (drop_bit 16 w)) else if k = i + 1 then lo8 (ucast (drop_bit 16 w))
      else if k = i + 2 then hi8 (ucast w) else if k = i + 3 then lo8 (ucast w) else h ! k)"
  by (auto simp: put32_def nth_put16)

lemma get16_eq_iff: "get16 g i = get16 h j \<longleftrightarrow> g ! i = h ! j \<and> g ! Suc i = h ! Suc j"
  by (metis hi_get16 lo_get16 hi_lo_eqI)

lemma get16_le_eq_iff: "get16_le g i = get16_le h j \<longleftrightarrow> g ! i = h ! j \<and> g ! Suc i = h ! Suc j"
  by (metis hi_get16_le lo_get16_le hi_lo_eqI)

lemma get32_halves:
  "ucast (drop_bit 16 (get32 h i)) = get16 h i" "ucast (get32 h i) = get16 h (i + 2)"
  unfolding get32_def by (rule bit_word_eqI; auto simp: bit_simps dest: bit_imp_le_length)+

lemma get32_eq_iff: "get32 g i = get32 h j \<longleftrightarrow> get16 g i = get16 h j \<and> get16 g (i + 2) = get16 h (j + 2)"
  by (metis get32_def get32_halves)

lemma get16_put16 [simp]: "Suc i < length h \<Longrightarrow> get16 (put16 i w h) i = w"
  by (simp add: get16_def nth_put16)

lemma get16_put16_other [simp]:
  "Suc i < length h \<Longrightarrow> Suc k < i \<or> Suc i < k \<Longrightarrow> get16 (put16 i w h) k = get16 h k"
  by (auto simp: get16_def nth_put16)

lemma get16_put32_other [simp]:
  "i + 3 < length h \<Longrightarrow> Suc k < i \<or> i + 3 < k \<Longrightarrow> get16 (put32 i w h) k = get16 h k"
  by (auto simp: get16_def nth_put32)

lemma get32_put32 [simp]: "i + 3 < length h \<Longrightarrow> get32 (put32 i w h) i = w"
  by (simp add: get32_def put32_def)

lemma get32_put16_other [simp]:
  "Suc i < length h \<Longrightarrow> k + 3 < i \<or> Suc i < k \<Longrightarrow> get32 (put16 i w h) k = get32 h k"
  by (auto simp: get32_def)

lemma get32_put32_other [simp]:
  "i + 3 < length h \<Longrightarrow> k + 3 < i \<or> i + 3 < k \<Longrightarrow> get32 (put32 i w h) k = get32 h k"
  by (auto simp: get32_def)

lemma get_append:
  "Suc i < length g \<Longrightarrow> get16 (g @ h) i = get16 g i"
  "i + 3 < length g \<Longrightarrow> get32 (g @ h) i = get32 g i"
  by (simp_all add: get16_def get32_def nth_append)

lemma get_take:
  "Suc i < n \<Longrightarrow> get16 (take n h) i = get16 h i"
  "i + 3 < n \<Longrightarrow> get32 (take n h) i = get32 h i"
  by (simp_all add: get16_def get32_def)

end
