(* ===== verification/Vj.thy ===== *)
theory Vj
  imports Net_Bytes
begin

text \<open>
  Van Jacobson compression of TCP/IP headers (\<open>src/lwip/src/netif/ppp/vj.c\<close>). The transmit states are linked
  into a ring by \<open>cs_next\<close>, here an index into \<open>tstate\<close>; a saved header is an array of \<open>MAX_HDR\<close> octets. What
  buffers the pbuf layer provides is an argument; a packet is its octets. Memory behind the first buffer of a
  received packet, which the decompressor reads before it checks the length, is the argument \<open>rx_junk\<close>.
\<close>

section \<open>Data\<close>

definition MAX_SLOTS :: nat where "MAX_SLOTS = 16"
definition MAX_HDR :: nat where "MAX_HDR = 128"

definition NEW_C :: u8 where "NEW_C = 0x40"
definition NEW_I :: u8 where "NEW_I = 0x20"
definition NEW_S :: u8 where "NEW_S = 0x08"
definition NEW_A :: u8 where "NEW_A = 0x04"
definition NEW_W :: u8 where "NEW_W = 0x02"
definition NEW_U :: u8 where "NEW_U = 0x01"
definition SPECIAL_I :: u8 where "SPECIAL_I = (NEW_S OR NEW_W OR NEW_U)"
definition SPECIAL_D :: u8 where "SPECIAL_D = (NEW_S OR NEW_A OR NEW_W OR NEW_U)"
definition SPECIALS_MASK :: u8 where "SPECIALS_MASK = (NEW_S OR NEW_A OR NEW_W OR NEW_U)"
definition TCP_PUSH_BIT :: u8 where "TCP_PUSH_BIT = 0x10"
definition VJF_TOSS :: u16 where "VJF_TOSS = 1"

definition IP_PROTO_TCP :: u8 where "IP_PROTO_TCP = 6"
definition TCP_FIN :: u16 where "TCP_FIN = 0x01"
definition TCP_SYN :: u16 where "TCP_SYN = 0x02"
definition TCP_RST :: u16 where "TCP_RST = 0x04"
definition TCP_PSH :: u16 where "TCP_PSH = 0x08"
definition TCP_ACK :: u16 where "TCP_ACK = 0x10"
definition TCP_URG :: u16 where "TCP_URG = 0x20"
definition TCP_FLAGS :: u16 where "TCP_FLAGS = 0x3f"

lemmas vj_bits = NEW_C_def NEW_I_def NEW_S_def NEW_A_def NEW_W_def NEW_U_def SPECIAL_I_def SPECIAL_D_def
  SPECIALS_MASK_def TCP_PUSH_BIT_def

datatype vj_type = TYPE_IP | TYPE_UNCOMPRESSED_TCP | TYPE_COMPRESSED_TCP

record cstate =
  cs_next :: nat
  cs_hlen :: u16
  cs_id :: u8
  cs_hdr :: octets

record vjcompress =
  last_cs :: nat
  last_recv :: u8
  last_xmit :: u8
  vj_flags :: u16
  maxSlotIndex :: u8
  compressSlot :: u8
  tstate :: "cstate list"
  rstate :: "cstate list"

text \<open>Fields of the IP header at the front of \<open>h\<close> and of the TCP header at offset \<open>t\<close>.\<close>

definition IPH_HL :: "octets \<Rightarrow> nat" where "IPH_HL h = unat (h ! 0 AND 0x0f)"
definition TCPH_HDRLEN :: "octets \<Rightarrow> nat \<Rightarrow> nat" where "TCPH_HDRLEN h t = unat (drop_bit 12 (get16 h (t + 12)))"
definition TCPH_FLAGS :: "octets \<Rightarrow> nat \<Rightarrow> u16" where "TCPH_FLAGS h t = get16 h (t + 12) AND TCP_FLAGS"
definition TCPH_SET_FLAG :: "nat \<Rightarrow> u16 \<Rightarrow> octets \<Rightarrow> octets" where
  "TCPH_SET_FLAG t fl h = put16 (t + 12) (get16 h (t + 12) OR fl) h"
definition TCPH_UNSET_FLAG :: "nat \<Rightarrow> u16 \<Rightarrow> octets \<Rightarrow> octets" where
  "TCPH_UNSET_FLAG t fl h = put16 (t + 12) (get16 h (t + 12) AND NOT fl) h"

section \<open>Initialisation\<close>

definition vj_compress_init :: "vjcompress \<Rightarrow> vjcompress" where
  "vj_compress_init vc =
     vc\<lparr>maxSlotIndex := of_nat (MAX_SLOTS - 1), compressSlot := 0,
          tstate := map (\<lambda>i. (tstate vc ! i)\<lparr>cs_id := of_nat i, cs_next := (if i = 0 then MAX_SLOTS - 1 else i - 1)\<rparr>)
            [0..<MAX_SLOTS],
          last_cs := 0, last_recv := 255, last_xmit := 255, vj_flags := VJF_TOSS\<rparr>"

section \<open>Compression\<close>

definition ENCODE :: "u16 \<Rightarrow> octets" where
  "ENCODE n = (if n \<ge> 256 then [0, hi8 n, lo8 n] else [lo8 n])"

definition ENCODEZ :: "u16 \<Rightarrow> octets" where
  "ENCODEZ n = (if n \<ge> 256 \<or> n = 0 then [0, hi8 n, lo8 n] else [lo8 n])"

text \<open>Same addresses and same ports as the saved header.\<close>

definition vj_match :: "octets \<Rightarrow> cstate \<Rightarrow> bool" where
  "vj_match p cs \<longleftrightarrow> get32 p 12 = get32 (cs_hdr cs) 12 \<and> get32 p 16 = get32 (cs_hdr cs) 16
     \<and> get32 p (4 * IPH_HL p) = get32 (cs_hdr cs) (4 * IPH_HL (cs_hdr cs))"

text \<open>The search loop over the ring, from the state after \<open>cs\<close> to \<open>lastcs\<close>; \<open>None\<close> if it never ends.\<close>

partial_function (option) vj_search :: "(nat \<Rightarrow> bool) \<Rightarrow> (nat \<Rightarrow> nat) \<Rightarrow> nat \<Rightarrow> nat \<Rightarrow> (bool \<times> nat \<times> nat) option" where
  "vj_search hit nxt lastcs cs =
     (let lcs = cs; c = nxt cs
      in if hit c then Some (True, lcs, c)
         else if c = lastcs then Some (False, lcs, c)
         else vj_search hit nxt lastcs c)"

declare vj_search.simps [code]

definition set_next :: "nat \<Rightarrow> nat \<Rightarrow> cstate list \<Rightarrow> cstate list" where
  "set_next i n ts = ts[i := (ts ! i)\<lparr>cs_next := n\<rparr>]"

definition next_of :: "vjcompress \<Rightarrow> nat \<Rightarrow> nat" where
  "next_of vc i = cs_next (tstate vc ! i)"

text \<open>Find the state of the conversation, or take the oldest one; either way it becomes the first of the ring.\<close>

definition vj_locate :: "octets \<Rightarrow> vjcompress \<Rightarrow> (bool \<times> nat \<times> vjcompress) option" where
  "vj_locate p vc =
     (let cs = next_of vc (last_cs vc)
      in if vj_match p (tstate vc ! cs) then Some (True, cs, vc)
         else (case vj_search (\<lambda>i. vj_match p (tstate vc ! i)) (next_of vc) (last_cs vc) cs of
             None \<Rightarrow> None
           | Some (found, lcs, c) \<Rightarrow>
               if \<not> found \<or> c = last_cs vc then Some (found, c, vc\<lparr>last_cs := lcs\<rparr>)
               else (let ts1 = set_next lcs (cs_next (tstate vc ! c)) (tstate vc);
                         ts2 = set_next c (cs_next (ts1 ! last_cs vc)) ts1;
                         ts3 = set_next (last_cs vc) c ts2
                     in Some (True, c, vc\<lparr>tstate := ts3\<rparr>))))"

text \<open>Nothing but the fields that may change has changed.\<close>

definition vj_unchanged :: "octets \<Rightarrow> octets \<Rightarrow> bool" where
  "vj_unchanged p h \<longleftrightarrow>
     (let ilen = IPH_HL p; t = 4 * ilen; tlen = TCPH_HDRLEN p t
      in get16 p 0 = get16 h 0 \<and> get16 p 6 = get16 h 6 \<and> get16 p 8 = get16 h 8
         \<and> tlen = TCPH_HDRLEN h t
         \<and> \<not> (ilen > 5 \<and> take (4 * (ilen - 5)) (drop 20 p) \<noteq> take (4 * (ilen - 5)) (drop 20 h))
         \<and> \<not> (tlen > 5 \<and> take (4 * (tlen - 5)) (drop (t + 20) p) \<noteq> take (4 * (tlen - 5)) (drop (t + 20) h)))"

definition flag :: "bool \<Rightarrow> u8 \<Rightarrow> u8" where "flag b v = (if b then v else 0)"

text \<open>Which of the changing fields changed, and their encoding; \<open>None\<close> is the jump to \<open>uncompressed\<close>.\<close>

definition vj_changes :: "octets \<Rightarrow> octets \<Rightarrow> nat \<Rightarrow> (u8 \<times> octets) option" where
  "vj_changes p h hlen =
     (let t = 4 * IPH_HL p;
          urg = TCPH_FLAGS p t AND TCP_URG \<noteq> 0;
          dW = get16 p (t + 14) - get16 h (t + 14);
          dA = get32 p (t + 8) - get32 h (t + 8);
          dS = get32 p (t + 4) - get32 h (t + 4);
          changes = flag urg NEW_U OR flag (dW \<noteq> 0) NEW_W OR flag (dA \<noteq> 0) NEW_A OR flag (dS \<noteq> 0) NEW_S;
          new_seq = (if urg then ENCODEZ (get16 p (t + 18)) else []) @ (if dW \<noteq> 0 then ENCODE dW else [])
            @ (if dA \<noteq> 0 then ENCODE (ucast dA) else []) @ (if dS \<noteq> 0 then ENCODE (ucast dS) else []);
          was = int (unat (get16 h 2)) - int hlen
      in if \<not> vj_unchanged p h then None
         else if \<not> urg \<and> get16 p (t + 18) \<noteq> get16 h (t + 18) then None
         else if dA > 0xffff then None
         else if dS > 0xffff then None
         else if changes = 0 then
           (if get16 p 2 \<noteq> get16 h 2 \<and> unat (get16 h 2) = hlen then Some (changes, new_seq) else None)
         else if changes = SPECIAL_I \<or> changes = SPECIAL_D then None
         else if changes = NEW_S OR NEW_A then
           Some (if dS = dA \<and> int (unat dS) = was then (SPECIAL_I, []) else (changes, new_seq))
         else if changes = NEW_S then
           Some (if int (unat dS) = was then (SPECIAL_D, []) else (changes, new_seq))
         else Some (changes, new_seq))"

definition save_header :: "nat \<Rightarrow> nat \<Rightarrow> octets \<Rightarrow> cstate list \<Rightarrow> cstate list" where
  "save_header i hlen p ts = ts[i := (ts ! i)\<lparr>cs_hdr := memcpy_at 0 (take hlen p) (cs_hdr (ts ! i))\<rparr>]"

definition vj_uncompressed :: "nat \<Rightarrow> nat \<Rightarrow> octets \<Rightarrow> vjcompress \<Rightarrow> vj_type \<times> octets \<times> vjcompress" where
  "vj_uncompressed c hlen p vc =
     (let cid = cs_id (tstate vc ! c)
      in (TYPE_UNCOMPRESSED_TCP, p[9 := cid], vc\<lparr>tstate := save_header c hlen p (tstate vc), last_xmit := cid\<rparr>))"

definition vj_compressed ::
  "nat \<Rightarrow> nat \<Rightarrow> u8 \<times> octets \<Rightarrow> octets \<Rightarrow> vjcompress \<Rightarrow> vj_type \<times> octets \<times> vjcompress" where
  "vj_compressed c hlen enc p vc =
     (let (changes0, seq0) = enc; t = 4 * IPH_HL p; cs = tstate vc ! c;
          dI = get16 p 4 - get16 (cs_hdr cs) 4;
          new_seq = seq0 @ (if dI \<noteq> 1 then ENCODEZ dI else []);
          changes = changes0 OR flag (dI \<noteq> 1) NEW_I OR flag (TCPH_FLAGS p t AND TCP_PSH \<noteq> 0) TCP_PUSH_BIT;
          explicit = (compressSlot vc = 0 \<or> last_xmit vc \<noteq> cs_id cs);
          hdr = (if explicit then [changes OR NEW_C, cs_id cs] else [changes])
      in (TYPE_COMPRESSED_TCP, hdr @ [p ! (t + 16), p ! (t + 17)] @ new_seq @ drop hlen p,
          vc\<lparr>tstate := save_header c hlen p (tstate vc),
               last_xmit := (if explicit then cs_id cs else last_xmit vc)\<rparr>))"

text \<open>\<open>clone\<close>: \<open>pbuf_clone\<close> finds memory; \<open>len0\<close>: the length of the first buffer of the chain.\<close>

definition vj_compress_tcp :: "bool \<Rightarrow> nat \<Rightarrow> octets \<Rightarrow> vjcompress \<Rightarrow> (vj_type \<times> octets \<times> vjcompress) option" where
  "vj_compress_tcp clone len0 p vc =
     (let ilen = IPH_HL p; t = 4 * ilen; hlen = 4 * (ilen + TCPH_HDRLEN p t)
      in if p ! 9 \<noteq> IP_PROTO_TCP then Some (TYPE_IP, p, vc)
         else if get16 p 6 AND 0x3fff \<noteq> 0 \<or> length p < 40 then Some (TYPE_IP, p, vc)
         else if TCPH_FLAGS p t AND (TCP_SYN OR TCP_FIN OR TCP_RST OR TCP_ACK) \<noteq> TCP_ACK then Some (TYPE_IP, p, vc)
         else if len0 < hlen then Some (TYPE_IP, p, vc)
         else if \<not> clone then Some (TYPE_IP, p, vc)
         else (case vj_locate p vc of
             None \<Rightarrow> None
           | Some (found, c, vc1) \<Rightarrow>
               (case if found then vj_changes p (cs_hdr (tstate vc1 ! c)) hlen else None of
                  None \<Rightarrow> Some (vj_uncompressed c hlen p vc1)
                | Some enc \<Rightarrow> Some (vj_compressed c hlen enc p vc1))))"

section \<open>Decompression\<close>

definition vj_uncompress_err :: "vjcompress \<Rightarrow> vjcompress" where
  "vj_uncompress_err vc = vc\<lparr>vj_flags := vj_flags vc OR VJF_TOSS\<rparr>"

text \<open>
  A received packet: the length of its first buffer, the memory behind that buffer, and what the pbuf layer
  answers: the payload is aligned or can be copied, and there is room for the header or a buffer for it.
\<close>

record rx_env =
  rx_len0 :: nat
  rx_junk :: "nat \<Rightarrow> u8"
  rx_aligned :: bool
  rx_realign :: bool
  rx_headroom :: bool
  rx_prepend :: bool

definition vj_uncompress_uncomp :: "nat \<Rightarrow> octets \<Rightarrow> vjcompress \<Rightarrow> bool \<times> octets \<times> vjcompress" where
  "vj_uncompress_uncomp len0 p vc =
     (let t = 4 * IPH_HL p; hlen = t + 4 * TCPH_HDRLEN p t; cid = p ! 9
      in if unat cid \<ge> MAX_SLOTS \<or> t + 20 > len0 \<or> hlen > len0 \<or> hlen > MAX_HDR
         then (False, p, vj_uncompress_err vc)
         else (let q = p[9 := IP_PROTO_TCP]; cs = rstate vc ! unat cid
               in (True, q, vc\<lparr>vj_flags := vj_flags vc AND NOT VJF_TOSS, last_recv := cid,
                    rstate := (rstate vc)[unat cid := cs\<lparr>cs_hdr := memcpy_at 0 (take hlen q) (cs_hdr cs),
                      cs_hlen := of_nat hlen\<rparr>]\<rparr>)))"

definition DECODE :: "(nat \<Rightarrow> u8) \<Rightarrow> nat \<Rightarrow> u16 \<times> nat" where
  "DECODE mem cp =
     (if mem cp = 0 then (push_bit 8 (ucast (mem (cp + 1))) OR ucast (mem (cp + 2)), cp + 3)
      else (ucast (mem cp), cp + 1))"

text \<open>One of the macros \<open>DECODEL\<close>, \<open>DECODES\<close> and \<open>DECODEU\<close>, under the test of its bit.\<close>

definition decode_if :: "bool \<Rightarrow> (nat \<Rightarrow> u8) \<Rightarrow> (u16 \<Rightarrow> octets \<Rightarrow> octets) \<Rightarrow> octets \<times> nat \<Rightarrow> octets \<times> nat" where
  "decode_if new mem upd hc =
     (if new then (let (v, cp) = DECODE mem (snd hc) in (upd v (fst hc), cp)) else hc)"

definition add16 :: "nat \<Rightarrow> u16 \<Rightarrow> octets \<Rightarrow> octets" where
  "add16 i v h = put16 i (get16 h i + v) h"

definition add32 :: "nat \<Rightarrow> u32 \<Rightarrow> octets \<Rightarrow> octets" where
  "add32 i v h = put32 i (get32 h i + v) h"

definition vj_apply :: "(nat \<Rightarrow> u8) \<Rightarrow> u8 \<Rightarrow> nat \<Rightarrow> u16 \<Rightarrow> octets \<Rightarrow> octets \<times> nat" where
  "vj_apply mem changes cp hlen0 h0 =
     (let t = 4 * IPH_HL h0;
          h1 = put16 (t + 16) (push_bit 8 (ucast (mem cp)) OR ucast (mem (cp + 1))) h0;
          h2 = (if changes AND TCP_PUSH_BIT \<noteq> 0 then TCPH_SET_FLAG t TCP_PSH h1 else TCPH_UNSET_FLAG t TCP_PSH h1);
          i = ucast (get16 h2 2) - ucast hlen0;
          hc3 = (if changes AND SPECIALS_MASK = SPECIAL_I then (add32 (t + 4) i (add32 (t + 8) i h2), cp + 2)
                 else if changes AND SPECIALS_MASK = SPECIAL_D then (add32 (t + 4) i h2, cp + 2)
                 else (let u = changes AND NEW_U \<noteq> 0;
                           h3 = (if u then TCPH_SET_FLAG t TCP_URG h2 else TCPH_UNSET_FLAG t TCP_URG h2);
                           hu = decode_if u mem (\<lambda>v. put16 (t + 18) v) (h3, cp + 2);
                           hw = decode_if (changes AND NEW_W \<noteq> 0) mem (add16 (t + 14)) hu;
                           ha = decode_if (changes AND NEW_A \<noteq> 0) mem (\<lambda>v. add32 (t + 8) (ucast v)) hw
                       in decode_if (changes AND NEW_S \<noteq> 0) mem (\<lambda>v. add32 (t + 4) (ucast v)) ha))
      in if changes AND NEW_I \<noteq> 0 then decode_if True mem (add16 4) hc3
         else (add16 4 1 (fst hc3), snd hc3))"

definition ip_sum :: "nat \<Rightarrow> octets \<Rightarrow> u32" where
  "ip_sum hlen h = sum_list (map (\<lambda>i. ucast (get16_le h (2 * i))) [0..<hlen div 2])"

definition fold16 :: "u32 \<Rightarrow> u32" where
  "fold16 x = (x AND 0xffff) + drop_bit 16 x"

definition ip_chksum :: "nat \<Rightarrow> octets \<Rightarrow> u16" where
  "ip_chksum hlen h = ucast (NOT (fold16 (fold16 (ip_sum hlen (put16_le 10 0 h)))))"

definition vj_header :: "nat \<Rightarrow> nat \<Rightarrow> u16 \<Rightarrow> octets \<Rightarrow> octets" where
  "vj_header tot_len vjlen hlen0 h =
     (let h1 = put16 2 (of_nat (tot_len - vjlen) + hlen0) h
      in put16_le 10 (ip_chksum (4 * IPH_HL h) h1) h1)"

text \<open>What the pointer \<open>cp\<close> reads: the first buffer and the memory behind it.\<close>

definition rx_mem :: "rx_env \<Rightarrow> octets \<Rightarrow> nat \<Rightarrow> u8" where
  "rx_mem env p i = (if i < rx_len0 env then p ! i else rx_junk env i)"

definition vj_uncompress_tcp :: "rx_env \<Rightarrow> octets \<Rightarrow> vjcompress \<Rightarrow> nat option \<times> octets \<times> vjcompress" where
  "vj_uncompress_tcp env p vc =
     (let mem = rx_mem env p; changes = mem 0; explicit = (changes AND NEW_C \<noteq> 0)
      in if explicit \<and> unat (mem 1) \<ge> MAX_SLOTS then (None, p, vj_uncompress_err vc)
         else if \<not> explicit \<and> vj_flags vc AND VJF_TOSS \<noteq> 0 then (None, p, vc)
         else (let vc1 = (if explicit then vc\<lparr>vj_flags := vj_flags vc AND NOT VJF_TOSS, last_recv := mem 1\<rparr> else vc);
                   r = unat (last_recv vc1); cs = rstate vc1 ! r;
                   (h, vjlen) = vj_apply mem changes (if explicit then 2 else 1) (cs_hlen cs) (cs_hdr cs)
               in if rx_len0 env < vjlen
                  then (None, p, vj_uncompress_err (vc1\<lparr>rstate := (rstate vc1)[r := cs\<lparr>cs_hdr := h\<rparr>]\<rparr>))
                  else (let h' = vj_header (length p) vjlen (cs_hlen cs) h;
                            vc2 = vc1\<lparr>rstate := (rstate vc1)[r := cs\<lparr>cs_hdr := h'\<rparr>]\<rparr>
                        in if \<not> rx_aligned env \<and> \<not> rx_realign env then (None, drop vjlen p, vj_uncompress_err vc2)
                           else if rx_aligned env \<and> \<not> rx_headroom env \<and> \<not> rx_prepend env
                           then (None, drop vjlen p, vj_uncompress_err vc2)
                           else (Some vjlen, take (unat (cs_hlen cs)) h' @ drop vjlen p, vc2))))"

text \<open>A control block's compression state after \<open>memset\<close>.\<close>

definition zero_vj :: vjcompress where
  "zero_vj = \<lparr>last_cs = 0, last_recv = 0, last_xmit = 0, vj_flags = 0, maxSlotIndex = 0, compressSlot = 0,
     tstate = replicate 16 \<lparr>cs_next = 0, cs_hlen = 0, cs_id = 0, cs_hdr = replicate 128 0\<rparr>,
     rstate = replicate 16 \<lparr>cs_next = 0, cs_hlen = 0, cs_id = 0, cs_hdr = replicate 128 0\<rparr>\<rparr>"

end
