(* ===== verification/Ppp_Hdlc.thy ===== *)
theory Ppp_Hdlc
  imports Proxy_State Vj
begin

text \<open>
  PPP in HDLC-like framing over the pseudo terminal (\<open>src/lwip/src/netif/ppp/pppos.c\<close>): the frame check
  sequence, escaping, the receiver that turns a byte stream into packets, and the two senders.
  The chain of pool buffers of the packet being received is the list of their contents
  (\<open>in_bufs\<close>, the last one is \<open>in_tail\<close>). \<open>ppp_input\<close>, \<open>sys_now\<close>, the output callback and the
  success of buffer allocations are parameters.
\<close>

section \<open>Frame check sequence\<close>

definition fcstab :: "u16 list" where
  "fcstab = [
     0x0000, 0x1189, 0x2312, 0x329b, 0x4624, 0x57ad, 0x6536, 0x74bf,
     0x8c48, 0x9dc1, 0xaf5a, 0xbed3, 0xca6c, 0xdbe5, 0xe97e, 0xf8f7,
     0x1081, 0x0108, 0x3393, 0x221a, 0x56a5, 0x472c, 0x75b7, 0x643e,
     0x9cc9, 0x8d40, 0xbfdb, 0xae52, 0xdaed, 0xcb64, 0xf9ff, 0xe876,
     0x2102, 0x308b, 0x0210, 0x1399, 0x6726, 0x76af, 0x4434, 0x55bd,
     0xad4a, 0xbcc3, 0x8e58, 0x9fd1, 0xeb6e, 0xfae7, 0xc87c, 0xd9f5,
     0x3183, 0x200a, 0x1291, 0x0318, 0x77a7, 0x662e, 0x54b5, 0x453c,
     0xbdcb, 0xac42, 0x9ed9, 0x8f50, 0xfbef, 0xea66, 0xd8fd, 0xc974,
     0x4204, 0x538d, 0x6116, 0x709f, 0x0420, 0x15a9, 0x2732, 0x36bb,
     0xce4c, 0xdfc5, 0xed5e, 0xfcd7, 0x8868, 0x99e1, 0xab7a, 0xbaf3,
     0x5285, 0x430c, 0x7197, 0x601e, 0x14a1, 0x0528, 0x37b3, 0x263a,
     0xdecd, 0xcf44, 0xfddf, 0xec56, 0x98e9, 0x8960, 0xbbfb, 0xaa72,
     0x6306, 0x728f, 0x4014, 0x519d, 0x2522, 0x34ab, 0x0630, 0x17b9,
     0xef4e, 0xfec7, 0xcc5c, 0xddd5, 0xa96a, 0xb8e3, 0x8a78, 0x9bf1,
     0x7387, 0x620e, 0x5095, 0x411c, 0x35a3, 0x242a, 0x16b1, 0x0738,
     0xffcf, 0xee46, 0xdcdd, 0xcd54, 0xb9eb, 0xa862, 0x9af9, 0x8b70,
     0x8408, 0x9581, 0xa71a, 0xb693, 0xc22c, 0xd3a5, 0xe13e, 0xf0b7,
     0x0840, 0x19c9, 0x2b52, 0x3adb, 0x4e64, 0x5fed, 0x6d76, 0x7cff,
     0x9489, 0x8500, 0xb79b, 0xa612, 0xd2ad, 0xc324, 0xf1bf, 0xe036,
     0x18c1, 0x0948, 0x3bd3, 0x2a5a, 0x5ee5, 0x4f6c, 0x7df7, 0x6c7e,
     0xa50a, 0xb483, 0x8618, 0x9791, 0xe32e, 0xf2a7, 0xc03c, 0xd1b5,
     0x2942, 0x38cb, 0x0a50, 0x1bd9, 0x6f66, 0x7eef, 0x4c74, 0x5dfd,
     0xb58b, 0xa402, 0x9699, 0x8710, 0xf3af, 0xe226, 0xd0bd, 0xc134,
     0x39c3, 0x284a, 0x1ad1, 0x0b58, 0x7fe7, 0x6e6e, 0x5cf5, 0x4d7c,
     0xc60c, 0xd785, 0xe51e, 0xf497, 0x8028, 0x91a1, 0xa33a, 0xb2b3,
     0x4a44, 0x5bcd, 0x6956, 0x78df, 0x0c60, 0x1de9, 0x2f72, 0x3efb,
     0xd68d, 0xc704, 0xf59f, 0xe416, 0x90a9, 0x8120, 0xb3bb, 0xa232,
     0x5ac5, 0x4b4c, 0x79d7, 0x685e, 0x1ce1, 0x0d68, 0x3ff3, 0x2e7a,
     0xe70e, 0xf687, 0xc41c, 0xd595, 0xa12a, 0xb0a3, 0x8238, 0x93b1,
     0x6b46, 0x7acf, 0x4854, 0x59dd, 0x2d62, 0x3ceb, 0x0e70, 0x1ff9,
     0xf78f, 0xe606, 0xd49d, 0xc514, 0xb1ab, 0xa022, 0x92b9, 0x8330,
     0x7bc7, 0x6a4e, 0x58d5, 0x495c, 0x3de3, 0x2c6a, 0x1ef1, 0x0f78]"

definition PPP_FCS_POLYNOMIAL :: u16 where "PPP_FCS_POLYNOMIAL = 0x8408"

text \<open>The bitwise variant of the source, compiled where the table is disabled.\<close>

definition fcs_bit :: "u16 \<Rightarrow> u16" where
  "fcs_bit w = (if bit w 0 then drop_bit 1 w XOR PPP_FCS_POLYNOMIAL else drop_bit 1 w)"

definition ppp_get_fcs :: "u8 \<Rightarrow> u16" where
  "ppp_get_fcs byte = (fcs_bit ^^ 8) (ucast byte)"

definition PPP_FCS :: "u16 \<Rightarrow> u8 \<Rightarrow> u16" where
  "PPP_FCS fcs c = drop_bit 8 fcs XOR fcstab ! unat ((fcs XOR ucast c) AND 0xff)"

definition PPP_INITFCS :: u16 where "PPP_INITFCS = 0xffff"
definition PPP_GOODFCS :: u16 where "PPP_GOODFCS = 0xf0b8"

section \<open>The control block\<close>

datatype in_state = PDIDLE | PDADDRESS | PDCONTROL | PDPROTOCOL1 | PDPROTOCOL2 | PDDATA

definition PPP_ALLSTATIONS :: u8 where "PPP_ALLSTATIONS = 0xff"
definition PPP_UI :: u8 where "PPP_UI = 0x03"
definition PPP_FLAG :: u8 where "PPP_FLAG = 0x7e"
definition PPP_ESCAPE :: u8 where "PPP_ESCAPE = 0x7d"
definition PPP_TRANS :: u8 where "PPP_TRANS = 0x20"
definition PPP_MAXIDLEFLAG :: u32 where "PPP_MAXIDLEFLAG = 100"
definition PBUF_POOL_BUFSIZE :: nat where "PBUF_POOL_BUFSIZE = 1414"

text \<open>\<open>PPP_MRU\<close> and \<open>PPP_DEFMRU\<close> are 1500; ten percent and the protocol field are added.\<close>

definition INPUT_MRU :: nat where "INPUT_MRU = 1500 + 1500 div 10 + 2"

lemmas ppp_octets = PPP_ALLSTATIONS_def PPP_UI_def PPP_FLAG_def PPP_ESCAPE_def PPP_TRANS_def

record pppos =
  last_xmit :: u32
  out_accm :: octets
  open_link :: bool
  pcomp :: bool
  accomp :: bool
  in_accm :: octets
  in_bufs :: "octets list"
  in_protocol :: u16
  in_fcs :: u16
  in_state :: in_state
  in_escaped :: bool
  drops :: nat
  allocs :: nat
  delivered :: "octets list"
  ppp_vj :: vjcompress

definition ESCAPE_P :: "octets \<Rightarrow> u8 \<Rightarrow> bool" where
  "ESCAPE_P accm c = bit (accm ! (unat c div 8)) (unat c mod 8)"

definition default_accm :: octets where
  "default_accm = replicate 15 0 @ [0x60] @ replicate 16 0"

definition pppos_connect :: "pppos \<Rightarrow> pppos" where
  "pppos_connect pp =
     pp\<lparr>last_xmit := 0, out_accm := default_accm, open_link := True, pcomp := False, accomp := False,
        in_accm := default_accm, in_bufs := [], in_protocol := 0, in_fcs := 0, in_state := PDIDLE,
        in_escaped := False\<rparr>"

definition pppos_input_free_current_packet :: "pppos \<Rightarrow> pppos" where
  "pppos_input_free_current_packet pp = pp\<lparr>in_bufs := []\<rparr>"

definition pppos_disconnect :: "pppos \<Rightarrow> pppos" where
  "pppos_disconnect pp = pppos_input_free_current_packet (pp\<lparr>open_link := False\<rparr>)"

definition load_accm :: "u32 \<Rightarrow> octets \<Rightarrow> octets" where
  "load_accm accm a = map (\<lambda>i. ucast (drop_bit (8 * i) accm)) [0, 1, 2, 3] @ drop 4 a"

definition pppos_send_config :: "u32 \<Rightarrow> bool \<Rightarrow> bool \<Rightarrow> pppos \<Rightarrow> pppos" where
  "pppos_send_config accm pc ac pp =
     pp\<lparr>pcomp := pc, accomp := ac, out_accm := load_accm accm (out_accm pp)\<rparr>"

definition pppos_recv_config :: "u32 \<Rightarrow> pppos \<Rightarrow> pppos" where
  "pppos_recv_config accm pp = pp\<lparr>in_accm := load_accm accm (in_accm pp)\<rparr>"

definition pppos_input_drop :: "pppos \<Rightarrow> pppos" where
  "pppos_input_drop pp = (pppos_input_free_current_packet pp)\<lparr>ppp_vj := vj_uncompress_err (ppp_vj pp), drops := Suc (drops pp)\<rparr>"

section \<open>Receiving\<close>

record input_env =
  pool_ok :: "nat \<Rightarrow> bool"
  ppp_input :: "octets \<Rightarrow> pppos \<Rightarrow> pppos"

definition fresh_packet :: "pppos \<Rightarrow> pppos" where
  "fresh_packet pp = pp\<lparr>in_fcs := PPP_INITFCS, in_state := PDADDRESS, in_escaped := False\<rparr>"

text \<open>
  The flag: deliver a complete packet without its checksum. The result tells whether the loop over the input goes on, which it does not once
  \<open>ppp_input\<close> closed the link.
\<close>

definition input_flag :: "input_env \<Rightarrow> pppos \<Rightarrow> bool \<times> pppos" where
  "input_flag env pp =
     (if in_state pp = PDIDLE \<or> in_state pp = PDADDRESS then (True, fresh_packet pp)
      else if in_state pp \<noteq> PDDATA then (True, fresh_packet (pppos_input_drop pp))
      else if in_fcs pp \<noteq> PPP_GOODFCS then (True, fresh_packet (pppos_input_drop pp))
      else if in_bufs pp = [] then (True, fresh_packet (pppos_input_drop pp))
      else (let content = concat (in_bufs pp);
                packet = take (length content - 2) content;
                pp1 = ppp_input env packet (pp\<lparr>in_bufs := [], delivered := delivered pp @ [packet]\<rparr>)
            in if \<not> open_link pp1 then (False, pp1) else (True, fresh_packet pp1)))"

definition protocol1 :: "u8 \<Rightarrow> pppos \<Rightarrow> pppos" where
  "protocol1 c pp =
     (if bit c 0 then pp\<lparr>in_protocol := ucast c, in_state := PDDATA\<rparr>
      else pp\<lparr>in_protocol := push_bit 8 (ucast c), in_state := PDPROTOCOL2\<rparr>)"

definition control_field :: "u8 \<Rightarrow> pppos \<Rightarrow> pppos" where
  "control_field c pp = (if c = PPP_UI then pp\<lparr>in_state := PDPROTOCOL1\<rparr> else protocol1 c pp)"

definition new_buffer :: "input_env \<Rightarrow> pppos \<Rightarrow> pppos option" where
  "new_buffer env pp =
     (if \<not> pool_ok env (allocs pp) then None
      else Some (pp\<lparr>allocs := Suc (allocs pp),
             in_bufs := in_bufs pp @
               [if in_bufs pp = [] then [ucast (drop_bit 8 (in_protocol pp)), ucast (in_protocol pp)] else []]\<rparr>))"

definition store_octet :: "u8 \<Rightarrow> pppos \<Rightarrow> pppos" where
  "store_octet c pp = pp\<lparr>in_bufs := butlast (in_bufs pp) @ [last (in_bufs pp) @ [c]]\<rparr>"

definition data_octet :: "input_env \<Rightarrow> u8 \<Rightarrow> pppos \<Rightarrow> pppos" where
  "data_octet env c pp =
     (if in_bufs pp = [] \<or> length (last (in_bufs pp)) = PBUF_POOL_BUFSIZE then
        (if in_bufs pp \<noteq> [] \<and> length (concat (in_bufs pp)) > INPUT_MRU
         then (pppos_input_drop pp)\<lparr>in_state := PDIDLE\<rparr>
         else (case new_buffer env pp of
                 None \<Rightarrow> (pppos_input_drop (pp\<lparr>allocs := Suc (allocs pp)\<rparr>))\<lparr>in_state := PDIDLE\<rparr>
               | Some pp1 \<Rightarrow> store_octet c pp1))
      else store_octet c pp)"

definition plain_octet :: "input_env \<Rightarrow> u8 \<Rightarrow> pppos \<Rightarrow> pppos" where
  "plain_octet env c0 pp0 =
     (let c = (if in_escaped pp0 then c0 XOR PPP_TRANS else c0);
          pp = pp0\<lparr>in_escaped := False\<rparr>;
          pp1 = (case in_state pp of
                   PDIDLE \<Rightarrow> pp
                 | PDADDRESS \<Rightarrow> if c = PPP_ALLSTATIONS then pp\<lparr>in_state := PDCONTROL\<rparr> else control_field c pp
                 | PDCONTROL \<Rightarrow> control_field c pp
                 | PDPROTOCOL1 \<Rightarrow> protocol1 c pp
                 | PDPROTOCOL2 \<Rightarrow> pp\<lparr>in_protocol := in_protocol pp OR ucast c, in_state := PDDATA\<rparr>
                 | PDDATA \<Rightarrow> data_octet env c pp)
      in pp1\<lparr>in_fcs := PPP_FCS (in_fcs pp1) c\<rparr>)"

definition input_octet :: "input_env \<Rightarrow> u8 \<Rightarrow> pppos \<Rightarrow> bool \<times> pppos" where
  "input_octet env c pp =
     (if ESCAPE_P (in_accm pp) c then
        (if c = PPP_ESCAPE then (True, pp\<lparr>in_escaped := True\<rparr>)
         else if c = PPP_FLAG then input_flag env pp
         else (True, pp))
      else (True, plain_octet env c pp))"

fun input_loop :: "input_env \<Rightarrow> octets \<Rightarrow> pppos \<Rightarrow> pppos" where
  "input_loop env [] pp = pp"
| "input_loop env (c # cs) pp =
     (case input_octet env c pp of (True, pp1) \<Rightarrow> input_loop env cs pp1 | (False, pp1) \<Rightarrow> pp1)"

definition pppos_input :: "input_env \<Rightarrow> octets \<Rightarrow> pppos \<Rightarrow> pppos" where
  "pppos_input env s pp = (if \<not> open_link pp then pp else input_loop env s pp)"

section \<open>Sending\<close>

text \<open>The output buffer, the bytes handed to the output callback, and the error so far.\<close>

record out_buf =
  o_err :: err_t
  o_buf :: octets
  o_sent :: octets

record output_env =
  output_cb :: "octets \<Rightarrow> nat"
  out_alloc_ok :: bool
  out_now :: u32
  out_done :: u32

definition flush_out :: "output_env \<Rightarrow> out_buf \<Rightarrow> out_buf" where
  "flush_out env nb =
     (let l = output_cb env (o_buf nb);
          nb1 = nb\<lparr>o_sent := o_sent nb @ take l (o_buf nb)\<rparr>
      in if l \<noteq> length (o_buf nb) then nb1\<lparr>o_err := ERR_IF\<rparr> else nb1\<lparr>o_buf := []\<rparr>)"

definition pppos_output_append :: "output_env \<Rightarrow> octets \<Rightarrow> bool \<Rightarrow> u8 \<Rightarrow> out_buf \<Rightarrow> out_buf" where
  "pppos_output_append env accm esc c nb =
     (if o_err nb \<noteq> ERR_OK then nb
      else (let nb1 = (if PBUF_POOL_BUFSIZE - length (o_buf nb) < 2 then flush_out env nb else nb)
            in if o_err nb1 \<noteq> ERR_OK then nb1
               else if esc \<and> ESCAPE_P accm c
               then nb1\<lparr>o_buf := o_buf nb1 @ [PPP_ESCAPE, c XOR PPP_TRANS]\<rparr>
               else nb1\<lparr>o_buf := o_buf nb1 @ [c]\<rparr>))"

text \<open>Octets with their checksum; the checksum is not advanced once an error stopped the output.\<close>

fun append_octets :: "output_env \<Rightarrow> octets \<Rightarrow> octets \<Rightarrow> u16 \<times> out_buf \<Rightarrow> u16 \<times> out_buf" where
  "append_octets env accm [] st = st"
| "append_octets env accm (c # cs) (fcs, nb) =
     (let nb1 = pppos_output_append env accm True c nb
      in append_octets env accm cs (if o_err nb1 = ERR_OK then PPP_FCS fcs c else fcs, nb1))"

definition pppos_output_last :: "output_env \<Rightarrow> u16 \<times> out_buf \<Rightarrow> pppos \<Rightarrow> err_t \<times> octets \<times> pppos" where
  "pppos_output_last env st pp =
     (let (fcs, nb) = st;
          nb1 = pppos_output_append env (out_accm pp) True (ucast (NOT fcs)) nb;
          nb2 = pppos_output_append env (out_accm pp) True (ucast (drop_bit 8 (NOT fcs))) nb1;
          nb3 = pppos_output_append env (out_accm pp) False PPP_FLAG nb2;
          nb4 = (if o_err nb3 = ERR_OK \<and> o_buf nb3 \<noteq> [] then flush_out env nb3 else nb3)
      in (o_err nb4, o_sent nb4, pp\<lparr>last_xmit := (if o_err nb4 = ERR_OK then out_done env else 0)\<rparr>))"

definition idle_flag :: "output_env \<Rightarrow> pppos \<Rightarrow> out_buf" where
  "idle_flag env pp =
     (let nb = \<lparr>o_err = ERR_OK, o_buf = [], o_sent = []\<rparr>
      in if out_now env - last_xmit pp \<ge> PPP_MAXIDLEFLAG
         then pppos_output_append env (out_accm pp) False PPP_FLAG nb else nb)"

definition pppos_write :: "output_env \<Rightarrow> octets \<Rightarrow> pppos \<Rightarrow> err_t \<times> octets \<times> pppos" where
  "pppos_write env payload pp =
     (if \<not> out_alloc_ok env then (ERR_MEM, [], pp)
      else pppos_output_last env
             (append_octets env (out_accm pp) payload (PPP_INITFCS, idle_flag env pp)) pp)"

definition netif_header :: "u16 \<Rightarrow> pppos \<Rightarrow> octets" where
  "netif_header protocol pp =
     (if \<not> accomp pp then [PPP_ALLSTATIONS, PPP_UI] else []) @
     (if \<not> pcomp pp \<or> protocol > 0xff then [ucast (drop_bit 8 protocol)] else []) @ [ucast protocol]"

definition pppos_netif_output :: "output_env \<Rightarrow> octets \<Rightarrow> u16 \<Rightarrow> pppos \<Rightarrow> err_t \<times> octets \<times> pppos" where
  "pppos_netif_output env packet protocol pp =
     (if \<not> out_alloc_ok env then (ERR_MEM, [], pp)
      else pppos_output_last env
             (append_octets env (out_accm pp) (netif_header protocol pp @ packet) (PPP_INITFCS, idle_flag env pp)) pp)"

section \<open>Specification of a frame\<close>

text \<open>The integer form of the checksum step, for evaluation.\<close>

definition fcs_int :: "int \<Rightarrow> int" where
  "fcs_int n = (if odd n then (n div 2) XOR 0x8408 else n div 2)"

definition fcs_int8 :: "int \<Rightarrow> int" where
  "fcs_int8 n = fcs_int (fcs_int (fcs_int (fcs_int (fcs_int (fcs_int (fcs_int (fcs_int n)))))))"

definition fcs_of :: "octets \<Rightarrow> u16" where
  "fcs_of bs = foldl PPP_FCS PPP_INITFCS bs"

definition fcs_trailer :: "octets \<Rightarrow> octets" where
  "fcs_trailer bs = [ucast (NOT (fcs_of bs)), ucast (drop_bit 8 (NOT (fcs_of bs)))]"

definition escaped :: "octets \<Rightarrow> u8 \<Rightarrow> octets" where
  "escaped accm c = (if ESCAPE_P accm c then [PPP_ESCAPE, c XOR PPP_TRANS] else [c])"

definition hdlc_frame :: "octets \<Rightarrow> octets \<Rightarrow> octets" where
  "hdlc_frame accm payload = concat (map (escaped accm) (payload @ fcs_trailer payload)) @ [PPP_FLAG]"

text \<open>What sender and receiver must agree on: the receiver knows flag and escape, escapes at most what the sender
  escapes, and an escaped octet is not special any more.\<close>

definition accm_ok :: "octets \<Rightarrow> octets \<Rightarrow> bool" where
  "accm_ok rx tx \<longleftrightarrow> ESCAPE_P rx PPP_ESCAPE \<and> ESCAPE_P rx PPP_FLAG
     \<and> (\<forall>c. ESCAPE_P rx c \<longrightarrow> ESCAPE_P tx c) \<and> (\<forall>c. ESCAPE_P tx c \<longrightarrow> \<not> ESCAPE_P rx (c XOR PPP_TRANS))"

text \<open>A receiver between two frames.\<close>

definition synced :: "pppos \<Rightarrow> bool" where
  "synced pp \<longleftrightarrow> open_link pp \<and> in_state pp = PDADDRESS \<and> in_fcs pp = PPP_INITFCS \<and> \<not> in_escaped pp \<and> in_bufs pp = []"

text \<open>
  What \<open>ppp_input\<close> must leave alone when it gets one of the packets \<open>ps\<close> from a sender with the map \<open>tx\<close>: the link stays
  open, no packet is taken out of the receiver, and the map may change, but to one that is compatible with the sender's. Data packets
  change none of it; a control packet may reconfigure or end the link.
\<close>

definition handler_ok :: "input_env \<Rightarrow> octets \<Rightarrow> octets list \<Rightarrow> bool" where
  "handler_ok env tx ps \<longleftrightarrow> (\<forall>p \<in> set ps. \<forall>pp. open_link (ppp_input env p pp) = open_link pp \<and> in_bufs (ppp_input env p pp) = in_bufs pp
     \<and> delivered (ppp_input env p pp) = delivered pp
     \<and> (accm_ok (in_accm pp) tx \<longrightarrow> accm_ok (in_accm (ppp_input env p pp)) tx))"

definition sender_ok :: "output_env \<Rightarrow> bool" where
  "sender_ok env \<longleftrightarrow> out_alloc_ok env \<and> (\<forall>b. output_cb env b = length b)"

text \<open>A packet with uncompressed header: address, control, a two-octet protocol, data within the receive limit.\<close>

definition valid_payload :: "octets \<Rightarrow> bool" where
  "valid_payload p \<longleftrightarrow> 4 \<le> length p \<and> p ! 0 = PPP_ALLSTATIONS \<and> p ! 1 = PPP_UI \<and> \<not> bit (p ! 2) 0
     \<and> length p \<le> INPUT_MRU"

text \<open>All packets of a list sent one after the other.\<close>

fun write_all :: "output_env \<Rightarrow> octets list \<Rightarrow> pppos \<Rightarrow> octets \<times> pppos" where
  "write_all env [] pp = ([], pp)"
| "write_all env (p # ps) pp =
     (case pppos_write env p pp of (err, bytes, pp1) \<Rightarrow>
        (case write_all env ps pp1 of (rest, pp2) \<Rightarrow> (bytes @ rest, pp2)))"

text \<open>All bytes of an output so far, and the shape of every control-character map.\<close>

definition out_total :: "out_buf \<Rightarrow> octets" where
  "out_total nb = o_sent nb @ o_buf nb"

definition accm_shape :: "octets \<Rightarrow> bool" where
  "accm_shape a \<longleftrightarrow> length a = 32 \<and> drop 4 a = drop 4 default_accm"

definition demo_pppos :: pppos where
  "demo_pppos = fresh_packet (pppos_connect
     \<lparr>last_xmit = 0, out_accm = [], open_link = False, pcomp = False, accomp = False, in_accm = [], in_bufs = [],
      in_protocol = 0, in_fcs = 0, in_state = PDIDLE, in_escaped = False, drops = 0, allocs = 0, delivered = [], ppp_vj = zero_vj\<rparr>)"

definition demo_input :: input_env where
  "demo_input = \<lparr>pool_ok = (\<lambda>_. True), ppp_input = (\<lambda>_ pp. pp)\<rparr>"

definition demo_output :: output_env where
  "demo_output = \<lparr>output_cb = length, out_alloc_ok = True, out_now = 5000, out_done = 5001\<rparr>"

section \<open>The table is the polynomial\<close>

lemma uint_fcs_bit: "uint (fcs_bit w) = fcs_int (uint w)"
proof -
  have "even w = even (uint w)" by transfer simp
  moreover have "uint (drop_bit 1 w) = uint w div 2" by (simp add: drop_bit_eq_div uint_div_distrib)
  ultimately show ?thesis
    by (simp only: fcs_bit_def fcs_int_def bit_0 PPP_FCS_POLYNOMIAL_def unsigned_xor_eq) (simp add: unsigned_xor_eq)
qed

lemma uint_get_fcs: "uint (ppp_get_fcs b) = fcs_int8 (uint b)"
proof -
  have "uint (ucast b :: u16) = uint b" by transfer simp
  moreover have "ppp_get_fcs b = fcs_bit (fcs_bit (fcs_bit (fcs_bit (fcs_bit (fcs_bit (fcs_bit (fcs_bit (ucast b))))))))"
    unfolding ppp_get_fcs_def by (simp add: numeral_eq_Suc)
  ultimately show ?thesis by (simp only: uint_fcs_bit fcs_int8_def)
qed

lemma fcstab_uint: "map uint fcstab = map fcs_int8 [0..255]"
  unfolding fcstab_def list.map by simp code_simp

lemma fcstab_length: "length fcstab = 256"
  by (simp add: fcstab_def)

lemma fcstab_nth: "n < 256 \<Longrightarrow> fcstab ! n = ppp_get_fcs (of_nat n)"
proof -
  assume n: "n < 256"
  have "uint (fcstab ! n) = fcs_int8 (int n)"
    using arg_cong [OF fcstab_uint, of "\<lambda>xs. xs ! n"] n by (simp add: nth_upto fcstab_length)
  also have "\<dots> = uint (ppp_get_fcs (of_nat n))"
  proof -
    have "take_bit 8 n = n" using n by (simp add: take_bit_nat_eq_self_iff)
    then show ?thesis by (simp add: uint_get_fcs unsigned_of_nat)
  qed
  finally show ?thesis by (simp add: word_uint_eq_iff)
qed


lemma mask8: "(0xff :: u16) = mask 8" by (simp add: mask_eq_exp_minus_1)

lemma fcs_first: "(x XOR ucast (ucast (NOT x) :: u8)) AND 0xff = (0xff :: u16)"
  unfolding mask8 by (rule bit_word_eqI) (auto simp: bit_simps)

lemma fcs_second: "((drop_bit 8 x XOR t) XOR ucast (ucast (drop_bit 8 (NOT x)) :: u8)) AND 0xff = (NOT t) AND (0xff :: u16)"
  unfolding mask8 by (rule bit_word_eqI) (auto simp: bit_simps)

lemma fcs_shift: "drop_bit 8 (drop_bit 8 (x :: u16) XOR t) = drop_bit 8 t"
  by (rule bit_word_eqI) (auto simp: bit_simps)

lemma fcs_complement:
  "PPP_FCS (PPP_FCS x (ucast (NOT x))) (ucast (drop_bit 8 (NOT x))) = PPP_GOODFCS"
proof -
  have t: "fcstab ! 255 = 0x0f78" "fcstab ! 135 = 0xf0b7" by (simp_all add: fcstab_def)
  have 1: "PPP_FCS x (ucast (NOT x)) = drop_bit 8 x XOR 0x0f78"
    by (simp only: PPP_FCS_def fcs_first) (simp add: t)
  show ?thesis
    unfolding 1 unfolding PPP_FCS_def fcs_second fcs_shift by (simp add: t PPP_GOODFCS_def)
qed

lemma xor_cancel: "(a :: u16) XOR t = b XOR t \<Longrightarrow> a = b"
proof -
  assume e: "a XOR t = b XOR t"
  have "a = (a XOR t) XOR t" "b = (b XOR t) XOR t" by (simp_all add: xor.assoc)
  then show ?thesis using e by metis
qed

lemma low_index: "unat ((w :: u16) AND 0xff) < 256"
proof -
  have "w AND 0xff \<le> 0xff" by (rule word_and_le1)
  then have "unat (w AND 0xff) \<le> unat (0xff :: u16)" by (simp add: word_le_nat_alt)
  then show ?thesis by simp
qed

lemma PPP_FCS_table: "PPP_FCS fcs c = drop_bit 8 fcs XOR ppp_get_fcs (ucast (fcs XOR ucast c))"
proof -
  let ?w = "(fcs XOR ucast c) AND 0xff"
  have "(of_nat (unat ?w) :: u8) = ucast (fcs XOR ucast c)"
    unfolding mask8 by (rule bit_word_eqI) (auto simp: bit_simps unsigned_ucast_eq simp flip: ucast_eq)
  then show ?thesis using fcstab_nth [OF low_index] by (simp add: PPP_FCS_def)
qed

section \<open>Eight steps of the division\<close>

lemma poly_bits: "bit PPP_FCS_POLYNOMIAL 15"
  by (simp add: PPP_FCS_POLYNOMIAL_def)

lemma fcs_bit_xor: "fcs_bit (a XOR b) = fcs_bit a XOR fcs_bit b"
  unfolding fcs_bit_def drop_bit_xor
  by (cases "bit a 0"; cases "bit b 0"; simp only: bit_xor_iff if_True if_False simp_thms;
      rule bit_word_eqI; auto simp: bit_xor_iff)

lemma fcs_steps_xor: "(fcs_bit ^^ n) (a XOR b) = (fcs_bit ^^ n) a XOR (fcs_bit ^^ n) b"
  by (induction n) (simp_all add: fcs_bit_xor)

lemma fcs_steps_high:
  assumes "\<And>i. i < 8 \<Longrightarrow> \<not> bit w i"
  shows "n \<le> 8 \<Longrightarrow> (fcs_bit ^^ n) w = drop_bit n w"
proof (induction n)
  case 0
  then show ?case by simp
next
  case (Suc n)
  then have "\<not> bit (drop_bit n w) 0" using assms [of n] by (simp add: bit_drop_bit_eq)
  then have "fcs_bit (drop_bit n w) = drop_bit 1 (drop_bit n w)" unfolding fcs_bit_def by (simp only: if_False)
  then show ?case using Suc by (simp only: funpow.simps comp_def drop_bit_drop_bit) (simp add: Suc_le_eq less_imp_le)
qed

lemma PPP_FCS_steps: "PPP_FCS fcs c = (fcs_bit ^^ 8) (fcs XOR ucast c)"
proof -
  let ?w = "fcs XOR ucast c"
  let ?h = "drop_bit 8 ?w"
  have split: "?w = push_bit 8 ?h XOR ucast (ucast ?w :: u8)"
    by (rule bit_word_eqI) (auto simp: bit_simps)
  have h: "(fcs_bit ^^ 8) (push_bit 8 ?h) = drop_bit 8 (push_bit 8 ?h)"
    by (rule fcs_steps_high) (auto simp: bit_simps)
  have d: "drop_bit 8 (push_bit 8 ?h) = drop_bit 8 fcs"
    by (rule bit_word_eqI) (auto simp: bit_simps dest: bit_imp_le_length)
  have "(fcs_bit ^^ 8) ?w = (fcs_bit ^^ 8) (push_bit 8 ?h) XOR (fcs_bit ^^ 8) (ucast (ucast ?w :: u8))"
    using fcs_steps_xor [of 8 "push_bit 8 ?h" "ucast (ucast ?w :: u8)"] split by metis
  then show ?thesis unfolding h d PPP_FCS_table ppp_get_fcs_def by simp
qed

lemma fcs_bit_inj: "fcs_bit a = fcs_bit b \<Longrightarrow> a = b"
proof -
  assume e: "fcs_bit a = fcs_bit b"
  have n16: "\<not> bit w 16" for w :: u16 by (auto dest: bit_imp_le_length)
  have top: "bit (fcs_bit w) 15 = bit w 0" for w
    unfolding fcs_bit_def
    by (cases "bit w 0"; simp only: if_True if_False bit_xor_iff bit_drop_bit_eq comp_def poly_bits; simp add: n16)
  have p: "bit a 0 = bit b 0" using top [of a] top [of b] e by simp
  then have d: "drop_bit 1 a = drop_bit 1 b"
    using e xor_cancel unfolding fcs_bit_def by (cases "bit a 0") (simp_all only: if_True if_False simp_thms)
  show "a = b"
  proof (rule bit_word_eqI)
    fix n assume "n < LENGTH(16)"
    show "bit a n = bit b n"
    proof (cases n)
      case 0
      then show ?thesis using p by simp
    next
      case (Suc m)
      then show ?thesis using arg_cong [OF d, of "\<lambda>w. bit w m"] by (simp only: bit_drop_bit_eq comp_def) simp
    qed
  qed
qed

lemma fcs_steps_inj: "(fcs_bit ^^ n) a = (fcs_bit ^^ n) b \<Longrightarrow> a = b"
  by (induction n) (auto dest: fcs_bit_inj)

lemma PPP_FCS_inj_octet: "PPP_FCS x c = PPP_FCS x d \<Longrightarrow> c = d"
proof -
  assume "PPP_FCS x c = PPP_FCS x d"
  then have "x XOR ucast c = x XOR ucast d" unfolding PPP_FCS_steps by (rule fcs_steps_inj)
  then have u: "(ucast c :: u16) = ucast d" by (metis xor.commute xor_cancel)
  show "c = d"
  proof (rule bit_word_eqI)
    fix n assume "n < LENGTH(8)"
    then show "bit c n = bit d n" using arg_cong [OF u, of "\<lambda>w. bit w n"] by (auto simp: bit_simps)
  qed
qed

lemma PPP_FCS_inj_state: "PPP_FCS x c = PPP_FCS y c \<Longrightarrow> x = y"
  unfolding PPP_FCS_steps by (drule fcs_steps_inj) (rule xor_cancel)

lemma foldl_FCS_inj: "foldl PPP_FCS x bs = foldl PPP_FCS y bs \<Longrightarrow> x = y"
  by (induction bs arbitrary: x y) (auto dest: PPP_FCS_inj_state)

text \<open>the frame check sequence detects every error confined to one octet: replacing a single octet of a frame that
  checks makes it fail.\<close>

theorem fcs_detects_single_octet:
  assumes "fcs_of (a @ [c] @ b) = PPP_GOODFCS" and "c \<noteq> d"
  shows "fcs_of (a @ [d] @ b) \<noteq> PPP_GOODFCS"
proof
  assume "fcs_of (a @ [d] @ b) = PPP_GOODFCS"
  then have "foldl PPP_FCS (PPP_FCS (foldl PPP_FCS PPP_INITFCS a) c) b = foldl PPP_FCS (PPP_FCS (foldl PPP_FCS PPP_INITFCS a) d) b"
    using assms(1) by (simp add: fcs_of_def)
  then have "c = d" using foldl_FCS_inj PPP_FCS_inj_octet by blast
  with assms(2) show False by simp
qed

theorem fcs_detects_single_octet_witness:
  "fcs_of ([0xff] @ [0x03] @ fcs_trailer [0xff, 0x03]) = PPP_GOODFCS
   \<and> fcs_of ([0xff] @ [0x13] @ fcs_trailer [0xff, 0x03]) \<noteq> PPP_GOODFCS"
proof -
  have g: "fcs_of ([0xff] @ [0x03] @ fcs_trailer [0xff, 0x03]) = PPP_GOODFCS"
    by (simp add: fcs_of_def fcs_trailer_def fcs_complement)
  show ?thesis using g fcs_detects_single_octet [OF g, of "0x13"] by simp
qed

text \<open>the lookup table of the receiver is the HDLC polynomial: each of its 256 entries is what the bitwise division
  computes, so the table-driven and the bitwise checksum step agree on every input,
  and one step is eight steps of the division on the register with the octet added.\<close>

theorem fcs_table_is_polynomial:
  "PPP_FCS fcs c = drop_bit 8 fcs XOR ppp_get_fcs (ucast (fcs XOR ucast c))
   \<and> PPP_FCS fcs c = (fcs_bit ^^ 8) (fcs XOR ucast c)"
  using PPP_FCS_table PPP_FCS_steps by blast

section \<open>What the sender writes\<close>

lemma flush_out_ok:
  assumes "sender_ok env" and "o_err nb = ERR_OK"
  shows "o_err (flush_out env nb) = ERR_OK" and "out_total (flush_out env nb) = out_total nb"
    and "o_buf (flush_out env nb) = []"
  using assms by (simp_all add: flush_out_def sender_ok_def out_total_def)

lemma output_append_ok:
  assumes "sender_ok env" and "o_err nb = ERR_OK"
  shows "o_err (pppos_output_append env accm esc c nb) = ERR_OK"
    and "out_total (pppos_output_append env accm esc c nb) = out_total nb @ (if esc then escaped accm c else [c])"
    and "o_buf (pppos_output_append env accm esc c nb) \<noteq> []"
  using assms flush_out_ok [OF assms] by (simp_all add: pppos_output_append_def out_total_def escaped_def Let_def)

lemma append_octets_ok:
  assumes "sender_ok env" and "o_err nb = ERR_OK"
  shows "\<exists>nb'. append_octets env accm cs (fcs, nb) = (foldl PPP_FCS fcs cs, nb') \<and> o_err nb' = ERR_OK
     \<and> out_total nb' = out_total nb @ concat (map (escaped accm) cs)"
  using assms(2)
proof (induction cs arbitrary: fcs nb)
  case Nil
  then show ?case by simp
next
  case (Cons c cs)
  note a = output_append_ok [OF assms(1) Cons.prems, of accm True c]
  show ?case using Cons.IH [OF a(1), of "PPP_FCS fcs c"] a by (simp add: Let_def)
qed

lemma idle_flag_ok:
  assumes "sender_ok env"
  obtains fl where "o_err (idle_flag env pp) = ERR_OK" "out_total (idle_flag env pp) = fl" "fl = [] \<or> fl = [PPP_FLAG]"
  using output_append_ok [OF assms, of "\<lparr>o_err = ERR_OK, o_buf = [], o_sent = []\<rparr>" "out_accm pp" False PPP_FLAG]
  by (cases "out_now env - last_xmit pp \<ge> PPP_MAXIDLEFLAG") (auto simp: idle_flag_def Let_def out_total_def)

lemma output_last_ok:
  assumes "sender_ok env" and "o_err nb = ERR_OK" and "fcs = fcs_of p"
  shows "pppos_output_last env (fcs, nb) pp =
     (ERR_OK, out_total nb @ concat (map (escaped (out_accm pp)) (fcs_trailer p)) @ [PPP_FLAG], pp\<lparr>last_xmit := out_done env\<rparr>)"
proof -
  let ?a = "\<lambda>e c nb. pppos_output_append env (out_accm pp) e c nb"
  let ?n1 = "?a True (ucast (NOT fcs)) nb"
  let ?n2 = "?a True (ucast (drop_bit 8 (NOT fcs))) ?n1"
  let ?n3 = "?a False PPP_FLAG ?n2"
  have e1: "o_err ?n1 = ERR_OK" and e2: "o_err ?n2 = ERR_OK" and e3: "o_err ?n3 = ERR_OK" and b: "o_buf ?n3 \<noteq> []"
    using output_append_ok(1,3) [OF assms(1)] assms(2) by auto
  have t: "out_total ?n3 = out_total nb @ concat (map (escaped (out_accm pp)) (fcs_trailer p)) @ [PPP_FLAG]"
    using output_append_ok(2) [OF assms(1,2), of "out_accm pp" True "ucast (NOT fcs)"]
      output_append_ok(2) [OF assms(1) e1, of "out_accm pp" True "ucast (drop_bit 8 (NOT fcs))"]
      output_append_ok(2) [OF assms(1) e2, of "out_accm pp" False PPP_FLAG] assms(3)
    by (simp add: fcs_trailer_def)
  note f = flush_out_ok [OF assms(1) e3]
  have "o_sent (flush_out env ?n3) = out_total ?n3" using f(2,3) by (simp add: out_total_def)
  then show ?thesis using e3 b f(1) t by (simp add: pppos_output_last_def Let_def)
qed

lemma pppos_write_ok:
  assumes "sender_ok env"
  obtains fl where "fl = [] \<or> fl = [PPP_FLAG]"
    and "pppos_write env p pp = (ERR_OK, fl @ hdlc_frame (out_accm pp) p, pp\<lparr>last_xmit := out_done env\<rparr>)"
proof -
  obtain fl where fl: "o_err (idle_flag env pp) = ERR_OK" "out_total (idle_flag env pp) = fl" "fl = [] \<or> fl = [PPP_FLAG]"
    using idle_flag_ok [OF assms] .
  obtain nb where nb: "append_octets env (out_accm pp) p (PPP_INITFCS, idle_flag env pp) = (fcs_of p, nb)"
      "o_err nb = ERR_OK" "out_total nb = fl @ concat (map (escaped (out_accm pp)) p)"
    using append_octets_ok [OF assms fl(1), of "out_accm pp" p PPP_INITFCS] fl(2) by (auto simp: fcs_of_def)
  show ?thesis
    using that [OF fl(3)] output_last_ok [OF assms nb(2) refl, where pp = pp] nb assms
    by (simp add: pppos_write_def hdlc_frame_def sender_ok_def)
qed

section \<open>What the receiver makes of it\<close>

lemma plain_octet_frame [simp]:
  "in_accm (plain_octet env c pp) = in_accm pp" "open_link (plain_octet env c pp) = open_link pp"
  "delivered (plain_octet env c pp) = delivered pp" "in_escaped (plain_octet env c pp) = False"
  by (auto simp: plain_octet_def data_octet_def new_buffer_def store_octet_def control_field_def protocol1_def
      pppos_input_drop_def pppos_input_free_current_packet_def Let_def split: in_state.split option.split)

lemma plain_octet_escaped:
  "plain_octet env (c XOR PPP_TRANS) (pp\<lparr>in_escaped := True\<rparr>) = plain_octet env c (pp\<lparr>in_escaped := False\<rparr>)"
  by (simp add: plain_octet_def xor.assoc)

lemma input_escaped:
  assumes "accm_ok (in_accm pp) tx" and "\<not> in_escaped pp"
  shows "input_loop env (escaped tx c @ rest) pp = input_loop env rest (plain_octet env c pp)"
proof -
  have p: "pp\<lparr>in_escaped := False\<rparr> = pp" using assms(2) by simp
  have "\<not> ESCAPE_P (in_accm pp) (c XOR PPP_TRANS)" if "ESCAPE_P tx c" using that assms(1) by (simp add: accm_ok_def)
  moreover have "\<not> ESCAPE_P (in_accm pp) c" if "\<not> ESCAPE_P tx c" using that assms(1) by (auto simp: accm_ok_def)
  ultimately show ?thesis
    using assms plain_octet_escaped [of env c pp] p by (simp add: escaped_def input_octet_def accm_ok_def)
qed

lemma input_escaped_all:
  assumes "accm_ok (in_accm pp) tx" and "\<not> in_escaped pp"
  shows "input_loop env (concat (map (escaped tx) cs) @ rest) pp = input_loop env rest (foldl (\<lambda>q c. plain_octet env c q) pp cs)"
  using assms
proof (induction cs arbitrary: pp)
  case (Cons c cs)
  show ?case
    using input_escaped [OF Cons.prems, of env c "concat (map (escaped tx) cs) @ rest"] Cons.IH [of "plain_octet env c pp"] Cons.prems
    by simp
qed simp

lemma plain_data:
  assumes "in_state pp = PDDATA" and "\<not> in_escaped pp" and "\<forall>n. pool_ok env n" and "length (concat (in_bufs pp)) \<le> INPUT_MRU"
    and "content = (if in_bufs pp = [] then [ucast (drop_bit 8 (in_protocol pp)), ucast (in_protocol pp)] else concat (in_bufs pp))"
  shows "in_state (plain_octet env c pp) = PDDATA" and "in_bufs (plain_octet env c pp) \<noteq> []"
    and "concat (in_bufs (plain_octet env c pp)) = content @ [c]" and "in_fcs (plain_octet env c pp) = PPP_FCS (in_fcs pp) c"
proof -
  have c: "concat (butlast xs) @ last xs = concat xs" if "xs \<noteq> []" for xs :: "octets list"
    using arg_cong [OF append_butlast_last_id [OF that], of concat] by simp
  show "in_state (plain_octet env c pp) = PDDATA" "in_bufs (plain_octet env c pp) \<noteq> []"
    "concat (in_bufs (plain_octet env c pp)) = content @ [c]" "in_fcs (plain_octet env c pp) = PPP_FCS (in_fcs pp) c"
    using assms c [of "in_bufs pp"] by (auto simp: plain_octet_def data_octet_def new_buffer_def store_octet_def Let_def)
qed

section \<open>Control-character maps\<close>

lemma accm_shape_escape:
  assumes "accm_shape a"
  shows "ESCAPE_P a c \<longleftrightarrow> (if c < 32 then bit (a ! (unat c div 8)) (unat c mod 8) else c = PPP_ESCAPE \<or> c = PPP_FLAG)"
proof (cases "c < 32")
  case True
  then show ?thesis by (simp add: ESCAPE_P_def)
next
  case False
  let ?n = "unat c"
  have n: "4 \<le> ?n div 8" "?n div 8 < 32"
    using False unsigned_less [of c, where 'a = nat] by (auto simp: word_less_nat_alt)
  have "drop 4 a ! (?n div 8 - 4) = a ! (?n div 8)"
    using n(1) assms by (subst nth_drop) (auto simp: accm_shape_def)
  then have "a ! (?n div 8) = drop 4 default_accm ! (?n div 8 - 4)" using assms by (simp add: accm_shape_def)
  then have a: "a ! (?n div 8) = (if ?n div 8 = 15 then 0x60 else 0)"
    using n by (auto simp: default_accm_def nth_append nth_Cons')
  have b: "bit (0x60 :: u8) k \<longleftrightarrow> k = 5 \<or> k = 6" if "k < 8" for k
    using that by (auto simp: less_Suc_eq numeral_eq_Suc)
  have "ESCAPE_P a c \<longleftrightarrow> ?n div 8 = 15 \<and> (?n mod 8 = 5 \<or> ?n mod 8 = 6)"
    using a b [of "?n mod 8"] by (simp add: ESCAPE_P_def)
  also have "\<dots> \<longleftrightarrow> ?n = 125 \<or> ?n = 126" by presburger
  also have "\<dots> \<longleftrightarrow> c = PPP_ESCAPE \<or> c = PPP_FLAG" by (simp add: ppp_octets word_unat_eq_iff)
  finally show ?thesis using False by simp
qed

lemma control_flip_all:
  "list_all (\<lambda>n. \<not> ((of_nat n :: u8) XOR 0x20 < 32) \<and> (of_nat n :: u8) XOR 0x20 \<noteq> 0x7d \<and> (of_nat n :: u8) XOR 0x20 \<noteq> 0x7e) [0..<32]"
  by (simp add: upt_rec)

lemma control_flip:
  assumes "c < 32"
  shows "\<not> c XOR PPP_TRANS < 32" and "c XOR PPP_TRANS \<noteq> PPP_ESCAPE" and "c XOR PPP_TRANS \<noteq> PPP_FLAG"
proof -
  have "unat c < 32" using assms by (simp add: word_less_nat_alt)
  then have "unat c \<in> set [0..<32]" by simp
  then show "\<not> c XOR PPP_TRANS < 32" "c XOR PPP_TRANS \<noteq> PPP_ESCAPE" "c XOR PPP_TRANS \<noteq> PPP_FLAG"
    using control_flip_all unfolding list_all_iff by (auto simp: ppp_octets dest!: bspec)
qed

lemma accm_ok_shape:
  assumes "accm_shape rx" and "accm_shape tx" and "\<forall>c < 32. ESCAPE_P rx c \<longrightarrow> ESCAPE_P tx c"
  shows "accm_ok rx tx"
proof -
  have s: "\<not> ESCAPE_P rx (c XOR PPP_TRANS)" if "ESCAPE_P tx c" for c
  proof (cases "c < 32")
    case True
    then show ?thesis using control_flip [OF True] accm_shape_escape [OF assms(1)] by simp
  next
    case False
    then have "c = PPP_ESCAPE \<or> c = PPP_FLAG" using that accm_shape_escape [OF assms(2)] by simp
    then show ?thesis using accm_shape_escape [OF assms(1)] by (auto simp: ppp_octets)
  qed
  have t: "ESCAPE_P tx c" if "ESCAPE_P rx c" for c
    using that assms(3) accm_shape_escape [OF assms(1), of c] accm_shape_escape [OF assms(2), of c] by (cases "c < 32") auto
  show ?thesis using s t accm_shape_escape [OF assms(1)] by (auto simp: accm_ok_def ppp_octets)
qed

lemma accm_shape_connect: "accm_shape default_accm"
  by (simp add: accm_shape_def default_accm_def)

lemma accm_shape_load: "accm_shape a \<Longrightarrow> accm_shape (load_accm m a)"
  by (auto simp: accm_shape_def load_accm_def default_accm_def)

lemma accm_ok_default: "accm_ok default_accm default_accm"
  using accm_ok_shape [OF accm_shape_connect accm_shape_connect] by simp

text \<open>whatever asynchronous map is negotiated, a sender configured with it and a receiver configured with it
  after a fresh connect agree on escaping: flag and escape are always special, the receiver drops
  nothing the sender did not escape, and escaping yields an ordinary octet.\<close>

theorem negotiated_accm_compatible:
  "accm_ok (in_accm (pppos_recv_config m (pppos_connect rx))) (out_accm (pppos_send_config m pc ac (pppos_connect tx)))"
proof -
  have s: "accm_shape (load_accm m default_accm)" using accm_shape_connect by (rule accm_shape_load)
  show ?thesis
    using accm_ok_shape [OF s s] by (simp add: pppos_recv_config_def pppos_send_config_def pppos_connect_def)
qed

lemma plain_data_all:
  assumes "in_state pp = PDDATA" and "\<not> in_escaped pp" and "\<forall>n. pool_ok env n" and "in_bufs pp \<noteq> []"
    and "length (concat (in_bufs pp)) + length cs \<le> Suc INPUT_MRU"
  shows "in_state (foldl (\<lambda>q c. plain_octet env c q) pp cs) = PDDATA
     \<and> in_bufs (foldl (\<lambda>q c. plain_octet env c q) pp cs) \<noteq> []
     \<and> concat (in_bufs (foldl (\<lambda>q c. plain_octet env c q) pp cs)) = concat (in_bufs pp) @ cs
     \<and> in_fcs (foldl (\<lambda>q c. plain_octet env c q) pp cs) = foldl PPP_FCS (in_fcs pp) cs"
  using assms
proof (induction cs arbitrary: pp)
  case Nil
  then show ?case by simp
next
  case (Cons c cs)
  have l: "length (concat (in_bufs pp)) \<le> INPUT_MRU" using Cons.prems(5) by simp
  note d = plain_data [OF Cons.prems(1-3) l refl, of c]
  show ?case using Cons.IH [of "plain_octet env c pp"] d Cons.prems by simp
qed

lemma foldl_plain_frame:
  "in_accm (foldl (\<lambda>q c. plain_octet env c q) pp cs) = in_accm pp"
  "open_link (foldl (\<lambda>q c. plain_octet env c q) pp cs) = open_link pp"
  "delivered (foldl (\<lambda>q c. plain_octet env c q) pp cs) = delivered pp"
  by (induction cs arbitrary: pp) simp_all

lemma header_octets:
  assumes "synced pp" and "\<not> bit hi 0"
  shows "in_state (foldl (\<lambda>q c. plain_octet env c q) pp [PPP_ALLSTATIONS, PPP_UI, hi, lo]) = PDDATA
     \<and> in_bufs (foldl (\<lambda>q c. plain_octet env c q) pp [PPP_ALLSTATIONS, PPP_UI, hi, lo]) = []
     \<and> in_protocol (foldl (\<lambda>q c. plain_octet env c q) pp [PPP_ALLSTATIONS, PPP_UI, hi, lo]) = push_bit 8 (ucast hi) OR ucast lo
     \<and> \<not> in_escaped (foldl (\<lambda>q c. plain_octet env c q) pp [PPP_ALLSTATIONS, PPP_UI, hi, lo])
     \<and> in_fcs (foldl (\<lambda>q c. plain_octet env c q) pp [PPP_ALLSTATIONS, PPP_UI, hi, lo]) = fcs_of [PPP_ALLSTATIONS, PPP_UI, hi, lo]"
  using assms by (simp add: synced_def plain_octet_def control_field_def protocol1_def fcs_of_def Let_def)

lemma protocol_octets:
  "ucast (drop_bit 8 (push_bit 8 (ucast hi) OR ucast lo :: u16)) = (hi :: u8)"
  "ucast (push_bit 8 (ucast hi) OR ucast lo :: u16) = (lo :: u8)"
  by (rule bit_word_eqI, auto simp: bit_simps dest: bit_imp_le_length)+

lemma valid_payload_split:
  assumes "valid_payload p"
  obtains hi lo d where "p = [PPP_ALLSTATIONS, PPP_UI, hi, lo] @ d" "\<not> bit hi 0" "length d + 4 \<le> INPUT_MRU"
proof -
  obtain a b c e d where "p = a # b # c # e # d"
    using assms by (auto simp: valid_payload_def numeral_eq_Suc Suc_le_length_iff)
  then show ?thesis using assms that [of c e d] by (auto simp: valid_payload_def)
qed

text \<open>The octets of a frame before its closing flag, fed to a synchronised receiver.\<close>

lemma frame_octets:
  assumes "synced pp" and "valid_payload p" and "\<forall>n. pool_ok env n"
  defines "q \<equiv> foldl (\<lambda>q c. plain_octet env c q) pp (p @ fcs_trailer p)"
  shows "in_state q = PDDATA" and "in_bufs q \<noteq> []" and "concat (in_bufs q) = drop 2 p @ fcs_trailer p"
    and "in_fcs q = PPP_GOODFCS"
proof -
  obtain hi lo d where p: "p = [PPP_ALLSTATIONS, PPP_UI, hi, lo] @ d" "\<not> bit hi 0" "length d + 4 \<le> INPUT_MRU"
    using valid_payload_split [OF assms(2)] .
  let ?f = "\<lambda>q c. plain_octet env c q"
  let ?h = "foldl ?f pp [PPP_ALLSTATIONS, PPP_UI, hi, lo]"
  note h = header_octets [OF assms(1) p(2), of env lo]
  obtain c cs where t: "d @ fcs_trailer p = c # cs" "length cs \<le> length d + 1"
    by (cases d) (auto simp: fcs_trailer_def)
  have q: "q = foldl ?f (plain_octet env c ?h) cs"
  proof -
    have "p @ fcs_trailer p = [PPP_ALLSTATIONS, PPP_UI, hi, lo] @ (c # cs)" using t(1) p(1) by simp
    then show ?thesis unfolding q_def by (simp only: foldl_append foldl_Cons)
  qed
  have c: "in_state (plain_octet env c ?h) = PDDATA" "in_bufs (plain_octet env c ?h) \<noteq> []"
      "concat (in_bufs (plain_octet env c ?h)) = [hi, lo, c]"
      "in_fcs (plain_octet env c ?h) = PPP_FCS (fcs_of [PPP_ALLSTATIONS, PPP_UI, hi, lo]) c"
    using plain_data [OF _ _ assms(3) _ refl, of ?h c] h protocol_octets by simp_all
  have len: "length (concat (in_bufs (plain_octet env c ?h))) + length cs \<le> Suc INPUT_MRU"
    unfolding c(3) using t(2) p(3) by simp
  note r = plain_data_all [OF c(1) _ assms(3) c(2) len]
  show "in_state q = PDDATA" "in_bufs q \<noteq> []" unfolding q using r by simp_all
  show "concat (in_bufs q) = drop 2 p @ fcs_trailer p" unfolding q using r c(3) t(1) p(1) by simp
  have "in_fcs q = foldl PPP_FCS (fcs_of [PPP_ALLSTATIONS, PPP_UI, hi, lo]) (d @ fcs_trailer p)"
    unfolding q t(1) using r c(4) by simp
  also have "\<dots> = foldl PPP_FCS (fcs_of p) (fcs_trailer p)" using p(1) by (simp add: fcs_of_def)
  also have "\<dots> = PPP_GOODFCS" by (simp add: fcs_trailer_def fcs_complement)
  finally show "in_fcs q = PPP_GOODFCS" .
qed

lemma synced_flag:
  assumes "synced pp" and "ESCAPE_P (in_accm pp) PPP_FLAG"
  shows "input_loop env (PPP_FLAG # rest) pp = input_loop env rest pp"
proof -
  have "fresh_packet pp = pp" using assms(1) by (simp add: synced_def fresh_packet_def)
  then show ?thesis using assms by (simp add: input_octet_def input_flag_def synced_def ppp_octets)
qed

lemma frame_received:
  assumes "synced pp" and "valid_payload p" and "\<forall>n. pool_ok env n" and "handler_ok env tx [drop 2 p]" and "accm_ok (in_accm pp) tx"
    and "fl = [] \<or> fl = [PPP_FLAG]"
  obtains pp' where "input_loop env ((fl @ hdlc_frame tx p) @ rest) pp = input_loop env rest pp'"
    and "synced pp'" and "delivered pp' = delivered pp @ [drop 2 p]" and "accm_ok (in_accm pp') tx"
proof -
  let ?q = "foldl (\<lambda>q c. plain_octet env c q) pp (p @ fcs_trailer p)"
  note q = frame_octets [OF assms(1-3)]
  have esc: "ESCAPE_P (in_accm pp) PPP_FLAG" "\<not> in_escaped pp" using assms(1,5) by (auto simp: accm_ok_def synced_def)
  let ?r = "ppp_input env (drop 2 p) (?q\<lparr>in_bufs := [], delivered := delivered ?q @ [drop 2 p]\<rparr>)"
  have len: "take (length (concat (in_bufs ?q)) - 2) (concat (in_bufs ?q)) = drop 2 p"
    unfolding q(3) by (simp add: fcs_trailer_def)
  have h: "open_link ?r = open_link ?q" "in_bufs ?r = []" "delivered ?r = delivered ?q @ [drop 2 p]" "accm_ok (in_accm ?r) tx"
    using assms(4,5) foldl_plain_frame(1) [of env pp "p @ fcs_trailer p"] by (simp_all add: handler_ok_def)
  have fl: "input_flag env ?q = (True, fresh_packet ?r)"
    using q h(1) assms(1) len foldl_plain_frame(2) [of env pp "p @ fcs_trailer p"]
    by (simp add: input_flag_def Let_def synced_def)
  have "input_loop env ((fl @ hdlc_frame tx p) @ rest) pp = input_loop env (hdlc_frame tx p @ rest) pp"
    using assms(6) synced_flag [OF assms(1) esc(1)] by auto
  also have "\<dots> = input_loop env (PPP_FLAG # rest) ?q"
    using input_escaped_all [OF assms(5) esc(2), of env "p @ fcs_trailer p" "PPP_FLAG # rest"]
    by (simp only: hdlc_frame_def append_assoc append_Cons append_Nil)
  also have "\<dots> = input_loop env rest (fresh_packet ?r)"
    using fl esc(1) by (simp add: input_octet_def foldl_plain_frame ppp_octets)
  finally have "input_loop env ((fl @ hdlc_frame tx p) @ rest) pp = input_loop env rest (fresh_packet ?r)" .
  moreover have "synced (fresh_packet ?r)" "delivered (fresh_packet ?r) = delivered pp @ [drop 2 p]"
      "accm_ok (in_accm (fresh_packet ?r)) tx"
    using h assms(1) foldl_plain_frame [of env pp "p @ fcs_trailer p"] by (simp_all add: fresh_packet_def synced_def)
  ultimately show ?thesis by (rule that)
qed

lemma stream_received:
  assumes "synced pp" and "list_all valid_payload ps" and "\<forall>n. pool_ok env n" and "handler_ok env (out_accm tx) (map (drop 2) ps)"
    and "accm_ok (in_accm pp) (out_accm tx)" and "sender_ok oenv"
  shows "synced (input_loop env (fst (write_all oenv ps tx)) pp)
     \<and> delivered (input_loop env (fst (write_all oenv ps tx)) pp) = delivered pp @ map (drop 2) ps"
  using assms
proof (induction ps arbitrary: pp tx)
  case Nil
  then show ?case by simp
next
  case (Cons p ps)
  let ?tx = "tx\<lparr>last_xmit := out_done oenv\<rparr>"
  obtain fl where fl: "fl = [] \<or> fl = [PPP_FLAG]"
      "pppos_write oenv p tx = (ERR_OK, fl @ hdlc_frame (out_accm tx) p, ?tx)"
    using pppos_write_ok [OF Cons.prems(6)] .
  obtain rest tx' where w: "write_all oenv ps ?tx = (rest, tx')" by (cases "write_all oenv ps ?tx")
  have p: "valid_payload p" using Cons.prems(2) by simp
  have h: "handler_ok env (out_accm tx) [drop 2 p]" "handler_ok env (out_accm ?tx) (map (drop 2) ps)"
    using Cons.prems(4) by (auto simp: handler_ok_def)
  obtain pp' where r: "input_loop env ((fl @ hdlc_frame (out_accm tx) p) @ rest) pp = input_loop env rest pp'"
      "synced pp'" "delivered pp' = delivered pp @ [drop 2 p]" "accm_ok (in_accm pp') (out_accm tx)"
    using frame_received [OF Cons.prems(1) p Cons.prems(3) h(1) Cons.prems(5) fl(1)] .
  have "synced (input_loop env rest pp') \<and> delivered (input_loop env rest pp') = delivered pp' @ map (drop 2) ps"
    using Cons.IH [OF r(2) _ Cons.prems(3) h(2) _ Cons.prems(6)] Cons.prems(2) r(4) w by simp
  then show ?case using fl(2) w r by simp
qed

text \<open>C14: framing is lossless: the sender writes packets of four to \<open>INPUT_MRU\<close> (1652) octets with uncompressed headers (address
  \<open>0xff\<close>, control \<open>0x03\<close>, a two-octet protocol number) over the pseudo terminal, which takes them, and has buffers; the receiver has
  just seen a flag, has buffers, has a control-character map that is compatible with the sender's, and \<open>ppp_input\<close> does
  not end the link on one of these packets or change the map to an incompatible one. Then the receiver
  hands exactly those packets to \<open>ppp_input\<close>, in order and without their address and control octets, and is ready for the next
  frame.\<close>

theorem hdlc_stream_roundtrip:
  assumes "synced rx" and "list_all valid_payload ps" and "\<forall>n. pool_ok env n" and "handler_ok env (out_accm tx) (map (drop 2) ps)"
    and "accm_ok (in_accm rx) (out_accm tx)" and "sender_ok oenv"
  shows "delivered (pppos_input env (fst (write_all oenv ps tx)) rx) = delivered rx @ map (drop 2) ps
     \<and> synced (pppos_input env (fst (write_all oenv ps tx)) rx)"
  using stream_received [OF assms] assms(1) by (simp add: pppos_input_def synced_def)

text \<open>A handler that ends the link on every LCP packet.\<close>

definition demo_handler :: "octets \<Rightarrow> pppos \<Rightarrow> pppos" where
  "demo_handler p pp = (if take 2 p = [0xc0, 0x21] then pppos_disconnect pp else pp)"

theorem hdlc_stream_roundtrip_witness:
  "delivered (pppos_input (demo_input\<lparr>ppp_input := demo_handler\<rparr>)
       (fst (write_all demo_output [[0xff, 0x03, 0x80, 0x21, 0x7e, 0x7d], [0xff, 0x03, 0, 0x21]] demo_pppos)) demo_pppos)
     = [[0x80, 0x21, 0x7e, 0x7d], [0, 0x21]]"
proof -
  let ?ps = "[[0xff, 0x03, 0x80, 0x21, 0x7e, 0x7d], [0xff, 0x03, 0, 0x21]] :: octets list" and ?env = "demo_input\<lparr>ppp_input := demo_handler\<rparr>"
  have s: "synced demo_pppos" by (simp add: demo_pppos_def synced_def fresh_packet_def pppos_connect_def)
  have v: "list_all valid_payload ?ps" by (simp add: valid_payload_def ppp_octets INPUT_MRU_def)
  have e: "\<forall>n. pool_ok ?env n" "handler_ok ?env (out_accm demo_pppos) (map (drop 2) ?ps)" "sender_ok demo_output"
    by (simp_all add: demo_input_def handler_ok_def demo_handler_def sender_ok_def demo_output_def)
  have a: "accm_ok (in_accm demo_pppos) (out_accm demo_pppos)"
    using accm_ok_default by (simp add: demo_pppos_def fresh_packet_def pppos_connect_def)
  have d: "delivered demo_pppos = []" by (simp add: demo_pppos_def fresh_packet_def pppos_connect_def)
  show ?thesis using hdlc_stream_roundtrip [OF s v e(1,2) a e(3)] d by simp
qed

end
