(* ===== verification/Hash_Stream.thy ===== *)
theory Hash_Stream
  imports Prelude
begin

text \<open>
  The buffering shared by the bundled hash functions
  (\<open>src/lwip/src/netif/ppp/polarssl/sha1.c\<close>, \<open>md4.c\<close>, \<open>md5.c\<close>): context, \<open>update\<close> with its partial
  block, padding and \<open>finish\<close>, parameterised by the block function and the byte order. \<open>unsigned long\<close>
  is a 64-bit word, as on the target platform. The main lemma says that a sequence of updates is
  the hash of the concatenated input.
\<close>

record hash_ctx =
  total0 :: u64
  total1 :: u64
  hstate :: "u64 list"
  hbuf :: octets

type_synonym block_fun = "octets \<Rightarrow> u64 list \<Rightarrow> u64 list"

definition PUT_ULONG_BE :: "u64 \<Rightarrow> octets" where
  "PUT_ULONG_BE n = [ucast (drop_bit 24 n), ucast (drop_bit 16 n), ucast (drop_bit 8 n), ucast n]"

definition PUT_ULONG_LE :: "u64 \<Rightarrow> octets" where
  "PUT_ULONG_LE n = [ucast n, ucast (drop_bit 8 n), ucast (drop_bit 16 n), ucast (drop_bit 24 n)]"

definition GET_ULONG_BE :: "octets \<Rightarrow> nat \<Rightarrow> u64" where
  "GET_ULONG_BE b i = push_bit 24 (ucast (b ! i)) OR push_bit 16 (ucast (b ! (i + 1)))
     OR push_bit 8 (ucast (b ! (i + 2))) OR ucast (b ! (i + 3))"

definition GET_ULONG_LE :: "octets \<Rightarrow> nat \<Rightarrow> u64" where
  "GET_ULONG_LE b i = ucast (b ! i) OR push_bit 8 (ucast (b ! (i + 1)))
     OR push_bit 16 (ucast (b ! (i + 2))) OR push_bit 24 (ucast (b ! (i + 3)))"

definition rot_S :: "u64 \<Rightarrow> nat \<Rightarrow> u64" where
  "rot_S x n = push_bit n x OR drop_bit (32 - n) (x AND 0xFFFFFFFF)"

text \<open>\<open>while (ilen >= 64)\<close>: the state after the full blocks, and what is left of the input.\<close>

fun process_blocks :: "(octets \<Rightarrow> 's \<Rightarrow> 's) \<Rightarrow> octets \<Rightarrow> 's \<Rightarrow> 's \<times> octets" where
  "process_blocks proc input st =
     (if length input \<ge> 64 then process_blocks proc (drop 64 input) (proc (take 64 input) st)
      else (st, input))"

declare process_blocks.simps [simp del]

definition hash_update :: "block_fun \<Rightarrow> octets \<Rightarrow> hash_ctx \<Rightarrow> hash_ctx" where
  "hash_update proc input ctx =
     (if input = [] then ctx
      else (let ilen = length input;
                left = unat (total0 ctx AND 0x3F);
                fill = 64 - left;
                t0 = (total0 ctx + of_nat ilen) AND 0xFFFFFFFF;
                t1 = (if t0 < of_nat ilen then total1 ctx + 1 else total1 ctx);
                ctx1 = ctx\<lparr>total0 := t0, total1 := t1\<rparr>;
                (ctx2, input2, left2) =
                  (if left \<noteq> 0 \<and> ilen \<ge> fill
                   then (let buf = memcpy_at left (take fill input) (hbuf ctx1)
                         in (ctx1\<lparr>hbuf := buf, hstate := proc buf (hstate ctx1)\<rparr>, drop fill input, 0))
                   else (ctx1, input, left));
                (st, input3) = process_blocks proc input2 (hstate ctx2);
                ctx3 = ctx2\<lparr>hstate := st\<rparr>
            in if input3 \<noteq> [] then ctx3\<lparr>hbuf := memcpy_at left2 input3 (hbuf ctx3)\<rparr> else ctx3))"

definition hash_padding :: octets where
  "hash_padding = 0x80 # replicate 63 0"

text \<open>The two words of the length in bits, and the number of padding octets.\<close>

definition len_high :: "hash_ctx \<Rightarrow> u64" where
  "len_high ctx = drop_bit 29 (total0 ctx) OR push_bit 3 (total1 ctx)"

definition len_low :: "hash_ctx \<Rightarrow> u64" where
  "len_low ctx = push_bit 3 (total0 ctx)"

definition padn :: "hash_ctx \<Rightarrow> nat" where
  "padn ctx = (let last = unat (total0 ctx AND 0x3F) in if last < 56 then 56 - last else 120 - last)"

definition hash_finish :: "block_fun \<Rightarrow> (u64 \<Rightarrow> u64 \<Rightarrow> octets) \<Rightarrow> hash_ctx \<Rightarrow> hash_ctx" where
  "hash_finish proc enc ctx =
     hash_update proc (enc (len_high ctx) (len_low ctx))
       (hash_update proc (take (padn ctx) hash_padding) ctx)"

text \<open>The order in which \<open>finish\<close> stores the two words.\<close>

definition enc_BE :: "u64 \<Rightarrow> u64 \<Rightarrow> octets" where
  "enc_BE high lo = PUT_ULONG_BE high @ PUT_ULONG_BE lo"

definition enc_LE :: "u64 \<Rightarrow> u64 \<Rightarrow> octets" where
  "enc_LE high lo = PUT_ULONG_LE lo @ PUT_ULONG_LE high"

section \<open>Specification\<close>

text \<open>A context that has consumed the message \<open>m\<close>.\<close>

definition hash_rep :: "block_fun \<Rightarrow> u64 list \<Rightarrow> octets \<Rightarrow> hash_ctx \<Rightarrow> bool" where
  "hash_rep proc init m ctx \<longleftrightarrow>
     total0 ctx = of_nat (length m mod 2 ^ 32) \<and> total1 ctx = of_nat (length m div 2 ^ 32)
     \<and> length (hbuf ctx) = 64
     \<and> hstate ctx = fst (process_blocks proc m init)
     \<and> take (length m mod 64) (hbuf ctx) = snd (process_blocks proc m init)"

text \<open>The padded message: a one bit, zeros up to 56 octets modulo 64, the length in bits.\<close>

definition pad_octets :: "nat \<Rightarrow> nat" where
  "pad_octets n = (if n mod 64 < 56 then 56 - n mod 64 else 120 - n mod 64)"

definition padded :: "(u64 \<Rightarrow> u64 \<Rightarrow> octets) \<Rightarrow> octets \<Rightarrow> octets" where
  "padded enc m =
     m @ take (pad_octets (length m)) hash_padding
       @ enc (drop_bit 29 (of_nat (length m mod 2 ^ 32)) OR push_bit 3 (of_nat (length m div 2 ^ 32)))
             (push_bit 3 (of_nat (length m mod 2 ^ 32)))"

definition hash_spec :: "block_fun \<Rightarrow> u64 list \<Rightarrow> (u64 \<Rightarrow> u64 \<Rightarrow> octets) \<Rightarrow> octets \<Rightarrow> u64 list" where
  "hash_spec proc init enc m = fst (process_blocks proc (padded enc m) init)"

section \<open>Block lemmas\<close>

lemma process_blocks_short: "length input < 64 \<Longrightarrow> process_blocks proc input st = (st, input)"
  by (subst process_blocks.simps) simp

lemma process_blocks_rest: "length (snd (process_blocks proc input st)) = length input mod 64"
proof (induction proc input st rule: process_blocks.induct)
  case (1 proc input st)
  then show ?case
    by (cases "length input \<ge> 64") (simp_all add: process_blocks.simps [of proc input st] le_mod_geq)
qed

text \<open>Processing can be cut at any point: the rest of the first part goes in front of the second.\<close>

lemma process_blocks_append:
  "process_blocks proc (a @ b) st =
     process_blocks proc (snd (process_blocks proc a st) @ b) (fst (process_blocks proc a st))"
proof (induction proc a st rule: process_blocks.induct)
  case (1 proc a st)
  show ?case
  proof (cases "length a \<ge> 64")
    case True
    have "process_blocks proc (a @ b) st = process_blocks proc (drop 64 a @ b) (proc (take 64 a) st)"
      using True by (subst process_blocks.simps) simp
    then show ?thesis using 1 [OF True] True by (simp add: process_blocks.simps [of proc a st])
  next
    case False
    then show ?thesis by (simp add: process_blocks_short)
  qed
qed

lemma process_blocks_first:
  "length r < 64 \<Longrightarrow> 64 \<le> length r + length d \<Longrightarrow>
     process_blocks proc (r @ d) st = process_blocks proc (drop (64 - length r) d) (proc (r @ take (64 - length r) d) st)"
  by (subst process_blocks.simps) simp

section \<open>Counters\<close>

lemma and_mask32: "(w :: u64) AND 0xFFFFFFFF = of_nat (unat w mod 2 ^ 32)"
proof -
  have "(0xFFFFFFFF :: u64) = mask 32" by (simp add: mask_eq_exp_minus_1)
  then have "w AND 0xFFFFFFFF = take_bit 32 w" by (simp add: take_bit_eq_mask)
  also have "\<dots> = of_nat (unat w mod 2 ^ 32)" by (simp add: take_bit_eq_mod word_arith_nat_mod)
  finally show ?thesis .
qed

lemma and_mask6: "unat ((w :: u64) AND 0x3F) = unat w mod 64"
proof -
  have "(0x3F :: u64) = mask 6" by (simp add: mask_eq_exp_minus_1)
  then have "w AND 0x3F = take_bit 6 w" by (simp add: take_bit_eq_mask)
  also have "\<dots> = w mod 64" by (simp add: take_bit_eq_mod)
  finally show ?thesis by (simp add: unat_mod_distrib)
qed

lemma unat_u64: "n < 2 ^ 64 \<Longrightarrow> unat (of_nat n :: u64) = n"
  by (simp add: unat_of_nat)

lemma counter_step:
  assumes "a < 2 ^ 32" and "k < 2 ^ 31"
  shows "((of_nat a :: u64) + of_nat k) AND 0xFFFFFFFF = of_nat ((a + k) mod 2 ^ 32)"
    and "(of_nat ((a + k) mod 2 ^ 32) :: u64) < of_nat k \<longleftrightarrow> 2 ^ 32 \<le> a + k"
proof -
  have u: "unat (of_nat (a + k) :: u64) = a + k" using assms by (intro unat_u64) simp
  show "((of_nat a :: u64) + of_nat k) AND 0xFFFFFFFF = of_nat ((a + k) mod 2 ^ 32)"
    unfolding and_mask32 using u by simp
  have m: "(a + k) mod 2 ^ 32 = (if 2 ^ 32 \<le> a + k then a + k - 2 ^ 32 else a + k)"
    using assms by (auto simp: mod_if)
  have "(of_nat ((a + k) mod 2 ^ 32) :: u64) < of_nat k \<longleftrightarrow> (a + k) mod 2 ^ 32 < k"
    using assms unat_u64 [of "(a + k) mod 2 ^ 32"] unat_u64 [of k] by (simp add: word_less_nat_alt)
  then show "(of_nat ((a + k) mod 2 ^ 32) :: u64) < of_nat k \<longleftrightarrow> 2 ^ 32 \<le> a + k"
    unfolding m using assms by auto
qed

lemma total_step:
  fixes n k :: nat
  assumes "k < 2 ^ 31"
  shows "(n mod 2 ^ 32 + k) mod 2 ^ 32 = (n + k) mod 2 ^ 32"
    and "(n + k) div 2 ^ 32 = n div 2 ^ 32 + (if 2 ^ 32 \<le> n mod 2 ^ 32 + k then 1 else 0)"
proof -
  show "(n mod 2 ^ 32 + k) mod 2 ^ 32 = (n + k) mod 2 ^ 32" by (rule mod_add_left_eq)
  have "n = 2 ^ 32 * (n div 2 ^ 32) + n mod 2 ^ 32" by simp
  then have "(n + k) div 2 ^ 32 = (2 ^ 32 * (n div 2 ^ 32) + (n mod 2 ^ 32 + k)) div 2 ^ 32" by presburger
  also have "\<dots> = n div 2 ^ 32 + (n mod 2 ^ 32 + k) div 2 ^ 32" by (rule div_mult_self4) simp
  also have "(n mod 2 ^ 32 + k) div 2 ^ 32 = (if 2 ^ 32 \<le> n mod 2 ^ 32 + k then 1 else 0)"
  proof (cases "2 ^ 32 \<le> n mod 2 ^ 32 + k")
    case True
    have "n mod 2 ^ 32 < (2 :: nat) ^ 32" by (rule mod_less_divisor) simp
    then have "n mod 2 ^ 32 + k < 2 * 2 ^ 32" using assms by simp
    then show ?thesis using True by (simp add: div_nat_eqI)
  qed simp
  finally show "(n + k) div 2 ^ 32 = n div 2 ^ 32 + (if 2 ^ 32 \<le> n mod 2 ^ 32 + k then 1 else 0)" .
qed

section \<open>Updating\<close>

lemma memcpy_at_full: "length buf = 64 \<Longrightarrow> left + length d = 64 \<Longrightarrow> memcpy_at left d buf = take left buf @ d"
  by (simp add: memcpy_at_def)

lemma hash_update_rep:
  assumes rep: "hash_rep proc init m ctx" and len: "length input < 2 ^ 31"
  shows "hash_rep proc init (m @ input) (hash_update proc input ctx)"
proof (cases "input = []")
  case True
  then show ?thesis using rep by (simp add: hash_update_def)
next
  case False
  let ?n = "length m" and ?k = "length input"
  let ?left = "?n mod 64" and ?st = "hstate ctx"
  let ?r = "take ?left (hbuf ctx)"
  have f: "total0 ctx = of_nat (?n mod 2 ^ 32)" "total1 ctx = of_nat (?n div 2 ^ 32)" "length (hbuf ctx) = 64"
    using rep by (auto simp: hash_rep_def)
  have a: "?n mod 2 ^ 32 < 2 ^ 32" by simp
  have left: "unat (total0 ctx AND 0x3F) = ?left"
  proof -
    have "(2 :: nat) ^ 32 < 2 ^ 64" by simp
    then have "unat (total0 ctx) = ?n mod 2 ^ 32" unfolding f(1) by (intro unat_u64 less_trans [OF a])
    then show ?thesis unfolding and_mask6 by (simp add: mod_mod_cancel)
  qed
  have lr: "length ?r = ?left" using f(3) by simp
  have t0: "(total0 ctx + of_nat ?k) AND 0xFFFFFFFF = of_nat ((?n + ?k) mod 2 ^ 32)"
    unfolding f(1) counter_step(1) [OF a len] total_step(1) [OF len] ..
  have t1: "(if (of_nat ((?n + ?k) mod 2 ^ 32) :: u64) < of_nat ?k then total1 ctx + 1 else total1 ctx)
      = of_nat ((?n + ?k) div 2 ^ 32)"
    using counter_step(2) [OF a len] total_step [OF len, of ?n] f(2) by simp
  have split: "process_blocks proc (m @ input) init = process_blocks proc (?r @ input) ?st"
    using process_blocks_append [of proc m input init] rep by (simp add: hash_rep_def)
  have rest: "length (snd (process_blocks proc (m @ input) init)) = (?n + ?k) mod 64"
    using process_blocks_rest [of proc "m @ input" init] by simp
  obtain st' i3 where pb: "process_blocks proc (m @ input) init = (st', i3)" by (cases "process_blocks proc (m @ input) init")
  have l3: "length i3 = (?n + ?k) mod 64" using rest pb by simp
  have tk: "take (length d) (memcpy_at 0 d b) = d" "length b = 64 \<Longrightarrow> length d \<le> 64 \<Longrightarrow> length (memcpy_at 0 d b) = 64" for d b :: octets
    by (simp_all add: memcpy_at_def)
  have i64: "length i3 \<le> 64" using l3 by (simp add: less_imp_le)
  show ?thesis
  proof (cases "?left \<noteq> 0 \<and> 64 - ?left \<le> ?k")
    case True
    let ?d = "take (64 - ?left) input"
    let ?buf = "memcpy_at ?left ?d (hbuf ctx)"
    have buf: "?buf = ?r @ ?d" using f(3) True by (intro memcpy_at_full) auto
    have p: "process_blocks proc (drop (64 - ?left) input) (proc ?buf ?st) = (st', i3)"
    proof -
      have "64 \<le> length ?r + ?k" "length ?r < 64" using True lr by auto
      then show ?thesis using process_blocks_first [of ?r input proc ?st] lr split pb buf by simp
    qed
    have lb: "length ?buf = 64" using buf True f(3) by simp
    show ?thesis
      unfolding hash_rep_def pb using False True left t0 t1 p l3 lb tk [of i3] i64
      by (auto simp: hash_update_def Let_def)
  next
    case nofill: False
    show ?thesis
    proof (cases "?left = 0")
      case True
      then have p: "process_blocks proc input ?st = (st', i3)" using split pb by simp
      show ?thesis
        unfolding hash_rep_def pb using False True left t0 t1 p l3 f(3) tk [of i3] i64
        by (auto simp: hash_update_def Let_def)
    next
      case pos: False
      then have short: "?left + ?k < 64" using nofill by auto
      then have p: "process_blocks proc input ?st = (?st, input)" "st' = ?st" "i3 = ?r @ input"
        using split pb process_blocks_short [of input proc ?st] process_blocks_short [of "?r @ input" proc ?st] lr by simp_all
      have "(?n + ?k) mod 64 = ?left + ?k" using short l3 p(3) lr by simp
      moreover have "take (?left + ?k) (memcpy_at ?left input (hbuf ctx)) = ?r @ input"
        using f(3) by (intro take_memcpy_at) (simp add: less_imp_le)
      moreover have "length (memcpy_at ?left input (hbuf ctx)) = 64" using short f(3) by simp
      ultimately show ?thesis
        unfolding hash_rep_def pb using False nofill pos left t0 t1 p
        by (auto simp: hash_update_def Let_def)
    qed
  qed
qed

lemma hash_update_all_rep:
  assumes "hash_rep proc init m ctx" and "list_all (\<lambda>d. length d < 2 ^ 31) ds"
  shows "hash_rep proc init (m @ concat ds) (foldl (\<lambda>c d. hash_update proc d c) ctx ds)"
  using assms
proof (induction ds arbitrary: m ctx)
  case (Cons d ds)
  then show ?case using Cons.IH [OF hash_update_rep [OF Cons.prems(1)], of d] by simp
qed simp

lemma padn_rep: "hash_rep proc init m ctx \<Longrightarrow> padn ctx = pad_octets (length m)"
proof -
  assume "hash_rep proc init m ctx"
  then have t: "total0 ctx = of_nat (length m mod 2 ^ 32)" by (simp add: hash_rep_def)
  have "unat (total0 ctx) = length m mod 2 ^ 32"
    unfolding t by (intro unat_u64) (rule less_trans [where y = "2 ^ 32"], simp_all)
  then have "unat (total0 ctx AND 0x3F) = length m mod 64" unfolding and_mask6 by (simp add: mod_mod_cancel)
  then show ?thesis by (simp add: padn_def pad_octets_def Let_def)
qed

text \<open>Finishing a context computes the specified hash of everything it consumed.\<close>

lemma hash_finish_spec:
  assumes "hash_rep proc init m ctx" and "\<And>h l. length (enc h l) = 8"
  shows "hstate (hash_finish proc enc ctx) = hash_spec proc init enc m"
proof -
  let ?pad = "take (padn ctx) hash_padding"
  let ?len = "enc (len_high ctx) (len_low ctx)"
  have "length ?pad < 2 ^ 31" by (simp add: hash_padding_def min_def)
  then have "hash_rep proc init (m @ ?pad) (hash_update proc ?pad ctx)"
    using hash_update_rep [OF assms(1)] by blast
  from hash_update_rep [OF this, of ?len] assms(2)
  have "hash_rep proc init ((m @ ?pad) @ ?len) (hash_finish proc enc ctx)"
    by (simp add: hash_finish_def)
  moreover have "(m @ ?pad) @ ?len = padded enc m"
    using assms(1) padn_rep [OF assms(1)] by (simp add: padded_def len_high_def len_low_def hash_rep_def)
  ultimately show ?thesis by (simp add: hash_spec_def hash_rep_def)
qed

lemma hash_rep_start:
  "length (hbuf ctx) = 64 \<Longrightarrow> hash_rep proc init [] (ctx\<lparr>total0 := 0, total1 := 0, hstate := init\<rparr>)"
  by (simp add: hash_rep_def process_blocks_short)

section \<open>The 32-bit reference construction\<close>

text \<open>
  The standards define the hashes on 32-bit registers; the code keeps them in \<open>unsigned long\<close>, whose
  upper half collects carries and shifted-out bits. \<open>low\<close> forgets that half.
\<close>

definition low :: "u64 \<Rightarrow> u32" where "low x = ucast x"

definition length_field :: "nat \<Rightarrow> u64" where
  "length_field n = of_nat (8 * n)"

definition octets_be :: "u64 \<Rightarrow> octets" where
  "octets_be w = map (\<lambda>i. ucast (drop_bit (8 * (7 - i)) w)) [0..<8]"

definition octets_le :: "u64 \<Rightarrow> octets" where
  "octets_le w = map (\<lambda>i. ucast (drop_bit (8 * i) w)) [0..<8]"

definition md_pad :: "(u64 \<Rightarrow> octets) \<Rightarrow> octets \<Rightarrow> octets" where
  "md_pad put m = m @ 0x80 # replicate ((119 - length m mod 64) mod 64) 0 @ put (length_field (length m))"

fun blocks64 :: "octets \<Rightarrow> octets list" where
  "blocks64 m = (if length m < 64 then [] else take 64 m # blocks64 (drop 64 m))"

declare blocks64.simps [simp del]

definition merkle_damgard ::
  "(octets \<Rightarrow> u32 list \<Rightarrow> u32 list) \<Rightarrow> (u64 \<Rightarrow> octets) \<Rightarrow> u32 list \<Rightarrow> octets \<Rightarrow> u32 list" where
  "merkle_damgard compress put iv m = fold compress (blocks64 (md_pad put m)) iv"

definition rotl :: "nat \<Rightarrow> u32 \<Rightarrow> u32" where "rotl n x = word_rotl n x"

lemma low_plus [simp]: "low (x + y) = low x + low y"
  unfolding low_def
proof (transfer, simp)
  fix x y :: int
  show "take_bit 32 (x + y) = take_bit 32 (take_bit 64 x + take_bit 64 y)"
    using take_bit_add [of 32 x y] take_bit_add [of 32 "take_bit 64 x" "take_bit 64 y"] by simp
qed

lemma low_ops [simp]:
  "low (x XOR y) = low x XOR low y" "low (x AND y) = low x AND low y"
  "low (x OR y) = low x OR low y" "low (NOT x) = NOT (low x)"
  unfolding low_def by (rule bit_word_eqI; auto simp: bit_simps)+

lemma low_of_nat: "low (of_nat n) = of_nat n"
  unfolding low_def by (rule bit_word_eqI) (auto simp: bit_simps)

lemma low_numeral [simp]: "low (numeral n) = numeral n"
  using low_of_nat [of "numeral n"] by (simp only: of_nat_numeral)

lemma low_rot_S [simp]: "0 < n \<Longrightarrow> n < 32 \<Longrightarrow> low (rot_S x n) = rotl n (low x)"
proof -
  assume n: "0 < n" "n < 32"
  have m: "(0xFFFFFFFF :: u64) = mask 32" by (simp add: mask_eq_exp_minus_1)
  show ?thesis
    unfolding low_def rot_S_def rotl_def m
  proof (rule bit_word_eqI)
    fix k assume k: "k < LENGTH(32)"
    have "(k + (32 - n)) mod 32 = (if n \<le> k then k - n else 32 - n + k)"
      using n k by (auto simp: mod_if)
    then show "bit (ucast (push_bit n x OR drop_bit (32 - n) (x AND mask 32)) :: u32) k \<longleftrightarrow> bit (word_rotl n (ucast x :: u32)) k"
      using n k by (auto simp: bit_simps)
  qed
qed

section \<open>From the code to the reference\<close>

lemma octets_be_length [simp]: "length (octets_be w) = 8" and octets_le_length [simp]: "length (octets_le w) = 8"
  by (simp_all add: octets_be_def octets_le_def)

text \<open>The two words of the length field hold the 64-bit count of bits.\<close>

lemma length_words:
  fixes n :: nat
  defines "hi \<equiv> drop_bit 29 (of_nat (n mod 2 ^ 32)) OR push_bit 3 (of_nat (n div 2 ^ 32)) :: u64"
    and "lo \<equiv> push_bit 3 (of_nat (n mod 2 ^ 32)) :: u64"
  shows "k < 32 \<Longrightarrow> bit hi k \<longleftrightarrow> bit (length_field n) (k + 32)"
    and "k < 32 \<Longrightarrow> bit lo k \<longleftrightarrow> bit (length_field n) k"
proof -
  have m: "n mod 2 ^ 32 = take_bit 32 n" "n div 2 ^ 32 = drop_bit 32 n"
    by (simp_all add: take_bit_eq_mod drop_bit_eq_div)
  have f: "length_field n = push_bit 3 (of_nat n)"
    by (simp add: length_field_def push_bit_eq_mult mult.commute)
  show "k < 32 \<Longrightarrow> bit hi k \<longleftrightarrow> bit (length_field n) (k + 32)"
    unfolding hi_def m f by (auto simp: bit_simps)
  show "k < 32 \<Longrightarrow> bit lo k \<longleftrightarrow> bit (length_field n) k"
    unfolding lo_def m f by (auto simp: bit_simps)
qed

lemma octet_shift:
  "(\<And>j. j < 8 \<Longrightarrow> bit (a :: u64) (k + j) \<longleftrightarrow> bit (b :: u64) (l + j)) \<Longrightarrow> (ucast (drop_bit k a) :: u8) = ucast (drop_bit l b)"
  by (rule bit_word_eqI) (auto simp: bit_simps)

lemma enc_length_field:
  fixes n :: nat
  defines "hi \<equiv> drop_bit 29 (of_nat (n mod 2 ^ 32)) OR push_bit 3 (of_nat (n div 2 ^ 32)) :: u64"
    and "lo \<equiv> push_bit 3 (of_nat (n mod 2 ^ 32)) :: u64"
  shows "enc_BE hi lo = octets_be (length_field n)" and "enc_LE hi lo = octets_le (length_field n)"
proof -
  have h: "(ucast (drop_bit k hi) :: u8) = ucast (drop_bit (k + 32) (length_field n))" if "k \<le> 24" for k
    using that length_words(1) [of "k + _" n] unfolding hi_def by (intro octet_shift) (simp add: ac_simps)
  have l: "(ucast (drop_bit k lo) :: u8) = ucast (drop_bit k (length_field n))" if "k \<le> 24" for k
    using that length_words(2) [of "k + _" n] unfolding lo_def by (intro octet_shift) simp
  have u: "[0..<8] = [0, 1, 2, 3, 4, 5, 6, 7 :: nat]" by code_simp
  show "enc_BE hi lo = octets_be (length_field n)"
    using h [of 0] h [of 8] h [of 16] h [of 24] l [of 0] l [of 8] l [of 16] l [of 24]
    by (simp add: enc_BE_def PUT_ULONG_BE_def octets_be_def u)
  show "enc_LE hi lo = octets_le (length_field n)"
    using h [of 0] h [of 8] h [of 16] h [of 24] l [of 0] l [of 8] l [of 16] l [of 24]
    by (simp add: enc_LE_def PUT_ULONG_LE_def octets_le_def u)
qed

lemma padded_md:
  assumes "\<And>n. enc (drop_bit 29 (of_nat (n mod 2 ^ 32)) OR push_bit 3 (of_nat (n div 2 ^ 32)))
      (push_bit 3 (of_nat (n mod 2 ^ 32))) = put (length_field n)"
  shows "padded enc m = md_pad put m"
proof -
  let ?r = "length m mod 64"
  have p: "(if r < 56 then 56 - r else 120 - r) = Suc ((119 - r) mod 64)" if "r < 64" for r :: nat
    using that by (cases "r < 56") (simp_all add: le_mod_geq Suc_diff_le)
  have "pad_octets (length m) = Suc ((119 - ?r) mod 64)"
    using p [of ?r] by (simp add: pad_octets_def)
  moreover have "(119 - ?r) mod 64 \<le> 63"
    using mod_less_divisor [of 64 "119 - ?r"] by linarith
  ultimately have "take (pad_octets (length m)) hash_padding = 0x80 # replicate ((119 - ?r) mod 64) 0"
    by (simp add: hash_padding_def min_def)
  then show ?thesis using assms [of "length m"] by (simp add: padded_def md_pad_def)
qed

text \<open>
  What a hash function owes the buffering: its block function computes the compression function of
  the standard on the lower halves of its registers, and the length is stored in the standard's order.
\<close>

locale block_hash =
  fixes proc :: block_fun
    and compress :: "octets \<Rightarrow> u32 list \<Rightarrow> u32 list"
    and enc :: "u64 \<Rightarrow> u64 \<Rightarrow> octets"
    and put :: "u64 \<Rightarrow> octets"
    and init :: "u64 list"
  assumes proc_low: "length data = 64 \<Longrightarrow> length st = length init \<Longrightarrow> map low (proc data st) = compress data (map low st)"
    and proc_length: "length st = length init \<Longrightarrow> length (proc data st) = length init"
    and enc_put: "enc (drop_bit 29 (of_nat (n mod 2 ^ 32)) OR push_bit 3 (of_nat (n div 2 ^ 32)))
      (push_bit 3 (of_nat (n mod 2 ^ 32))) = put (length_field n)"
    and enc_length: "length (enc h l) = 8"
begin

lemma process_low:
  "length st = length init \<Longrightarrow> map low (fst (process_blocks proc m st)) = fold compress (blocks64 m) (map low st)"
proof (induction m arbitrary: st rule: blocks64.induct)
  case (1 m)
  show ?case
  proof (cases "length m < 64")
    case True
    then show ?thesis by (simp add: process_blocks_short blocks64.simps [of m])
  next
    case False
    then have "process_blocks proc m st = process_blocks proc (drop 64 m) (proc (take 64 m) st)"
      by (subst process_blocks.simps) simp
    then show ?thesis
      using 1(1) [OF False proc_length [OF 1(2)], of "take 64 m"] proc_low [OF _ 1(2), of "take 64 m"] False
      by (simp add: blocks64.simps [of m])
  qed
qed

lemma digest_of_stream:
  assumes "length (hbuf ctx) = 64" and "list_all (\<lambda>d. length d < 2 ^ 31) ds"
  shows "map low (hstate (hash_finish proc enc
      (foldl (\<lambda>c d. hash_update proc d c) (ctx\<lparr>total0 := 0, total1 := 0, hstate := init\<rparr>) ds)))
    = merkle_damgard compress put (map low init) (concat ds)"
proof -
  have "hash_rep proc init (concat ds)
      (foldl (\<lambda>c d. hash_update proc d c) (ctx\<lparr>total0 := 0, total1 := 0, hstate := init\<rparr>) ds)"
    using hash_update_all_rep [OF hash_rep_start [OF assms(1)] assms(2), of proc init] by simp
  then have "hstate (hash_finish proc enc
      (foldl (\<lambda>c d. hash_update proc d c) (ctx\<lparr>total0 := 0, total1 := 0, hstate := init\<rparr>) ds))
    = hash_spec proc init enc (concat ds)"
    using enc_length by (rule hash_finish_spec)
  then show ?thesis
    by (simp add: hash_spec_def process_low padded_md [of enc put, OF enc_put] merkle_damgard_def)
qed

end

end
