(* ===== verification/Sha1.thy ===== *)
theory Sha1
  imports Hash_Stream
begin

text \<open>
  \<open>src/lwip/src/netif/ppp/polarssl/sha1.c\<close>: the eighty rounds on 64-bit registers with the circular
  message schedule, and the proof that the digest is the one FIPS 180-4 defines on 32-bit words.
\<close>

section \<open>The code\<close>

definition sha1_init :: "u64 list" where
  "sha1_init = [0x67452301, 0xEFCDAB89, 0x98BADCFE, 0x10325476, 0xC3D2E1F0]"

definition sha1_starts :: "hash_ctx \<Rightarrow> hash_ctx" where
  "sha1_starts ctx = ctx\<lparr>total0 := 0, total1 := 0, hstate := sha1_init\<rparr>"

text \<open>The function \<open>F\<close> and the constant \<open>K\<close> in force at round \<open>t\<close>.\<close>

definition sha1_F :: "nat \<Rightarrow> u64 \<Rightarrow> u64 \<Rightarrow> u64 \<Rightarrow> u64" where
  "sha1_F t x y z =
     (if t < 20 then z XOR (x AND (y XOR z))
      else if t < 40 then x XOR y XOR z
      else if t < 60 then (x AND y) OR (z AND (x OR y))
      else x XOR y XOR z)"

definition sha1_K :: "nat \<Rightarrow> u64" where
  "sha1_K t =
     (if t < 20 then 0x5A827999 else if t < 40 then 0x6ED9EBA1
      else if t < 60 then 0x8F1BBCDC else 0xCA62C1D6)"

definition sha1_R :: "nat \<Rightarrow> u64 list \<Rightarrow> u64" where
  "sha1_R t W =
     rot_S (W ! ((t - 3) mod 16) XOR W ! ((t - 8) mod 16) XOR W ! ((t - 14) mod 16) XOR W ! (t mod 16)) 1"

type_synonym regs5 = "u64 \<times> u64 \<times> u64 \<times> u64 \<times> u64"

text \<open>
  One line \<open>P(a, b, c, d, e, x)\<close>. The code renames the registers from line to line; here the tuple
  is rotated, so that the first component is always the register the next line calls \<open>a\<close>.
\<close>

definition sha1_P :: "nat \<Rightarrow> u64 list \<times> regs5 \<Rightarrow> u64 list \<times> regs5" where
  "sha1_P t s =
     (case s of (W, a, b, c, d, e) \<Rightarrow>
        (let x = (if t < 16 then W ! t else sha1_R t W);
             W' = (if t < 16 then W else W[t mod 16 := x])
         in (W', e + (rot_S a 5 + sha1_F t b c d + sha1_K t + x), a, rot_S b 30, c, d)))"

definition sha1_words :: "octets \<Rightarrow> u64 list" where
  "sha1_words data = map (\<lambda>i. GET_ULONG_BE data (4 * i)) [0..<16]"

definition sha1_process :: block_fun where
  "sha1_process data st =
     (case snd (fold sha1_P [0..<80] (sha1_words data, st ! 0, st ! 1, st ! 2, st ! 3, st ! 4)) of
        (a, b, c, d, e) \<Rightarrow> [st ! 0 + a, st ! 1 + b, st ! 2 + c, st ! 3 + d, st ! 4 + e])"

definition sha1_update :: "octets \<Rightarrow> hash_ctx \<Rightarrow> hash_ctx" where
  "sha1_update input ctx = hash_update sha1_process input ctx"

definition sha1_finish :: "hash_ctx \<Rightarrow> octets" where
  "sha1_finish ctx = concat (map PUT_ULONG_BE (hstate (hash_finish sha1_process enc_BE ctx)))"

text \<open>\<open>stack\<close> is the uninitialised context on the stack.\<close>

definition sha1 :: "hash_ctx \<Rightarrow> octets \<Rightarrow> octets" where
  "sha1 stack input = sha1_finish (sha1_update input (sha1_starts stack))"

section \<open>FIPS 180-4\<close>

definition word_be :: "octets \<Rightarrow> nat \<Rightarrow> u32" where
  "word_be b i = push_bit 24 (ucast (b ! i)) OR push_bit 16 (ucast (b ! (i + 1)))
     OR push_bit 8 (ucast (b ! (i + 2))) OR ucast (b ! (i + 3))"

fun fips_W :: "octets \<Rightarrow> nat \<Rightarrow> u32" where
  "fips_W data t =
     (if t < 16 then word_be data (4 * t)
      else rotl 1 (fips_W data (t - 3) XOR fips_W data (t - 8) XOR fips_W data (t - 14) XOR fips_W data (t - 16)))"

declare fips_W.simps [simp del]

definition fips_f :: "nat \<Rightarrow> u32 \<Rightarrow> u32 \<Rightarrow> u32 \<Rightarrow> u32" where
  "fips_f t x y z =
     (if t < 20 then (x AND y) XOR (NOT x AND z)
      else if 40 \<le> t \<and> t < 60 then (x AND y) XOR (x AND z) XOR (y AND z)
      else x XOR y XOR z)"

definition fips_K :: "nat \<Rightarrow> u32" where
  "fips_K t = [0x5a827999, 0x6ed9eba1, 0x8f1bbcdc, 0xca62c1d6] ! (t div 20)"

primrec fips_rounds :: "octets \<Rightarrow> u32 \<times> u32 \<times> u32 \<times> u32 \<times> u32 \<Rightarrow> nat \<Rightarrow> u32 \<times> u32 \<times> u32 \<times> u32 \<times> u32" where
  "fips_rounds data r 0 = r"
| "fips_rounds data r (Suc t) =
     (case fips_rounds data r t of (a, b, c, d, e) \<Rightarrow>
        (rotl 5 a + fips_f t b c d + e + fips_K t + fips_W data t, a, rotl 30 b, c, d))"

definition fips_compress :: "octets \<Rightarrow> u32 list \<Rightarrow> u32 list" where
  "fips_compress data h =
     (case fips_rounds data (h ! 0, h ! 1, h ! 2, h ! 3, h ! 4) 80 of
        (a, b, c, d, e) \<Rightarrow> [a + h ! 0, b + h ! 1, c + h ! 2, d + h ! 3, e + h ! 4])"

definition fips_iv :: "u32 list" where
  "fips_iv = [0x67452301, 0xefcdab89, 0x98badcfe, 0x10325476, 0xc3d2e1f0]"

definition word_octets_be :: "u32 \<Rightarrow> octets" where
  "word_octets_be w = [ucast (drop_bit 24 w), ucast (drop_bit 16 w), ucast (drop_bit 8 w), ucast w]"

definition fips_sha1 :: "octets \<Rightarrow> octets" where
  "fips_sha1 m = concat (map word_octets_be (merkle_damgard fips_compress octets_be fips_iv m))"

section \<open>The rounds\<close>

lemma low_GET_BE [simp]: "low (GET_ULONG_BE b i) = word_be b i"
  unfolding low_def GET_ULONG_BE_def word_be_def
  by (rule bit_word_eqI) (auto simp: bit_simps)

lemma low_sha1_F: "t < 80 \<Longrightarrow> low (sha1_F t x y z) = fips_f t (low x) (low y) (low z)"
  unfolding sha1_F_def fips_f_def
  by (auto intro!: bit_word_eqI simp: bit_simps)

lemma low_sha1_K: "t < 80 \<Longrightarrow> low (sha1_K t) = fips_K t"
proof -
  assume t: "t < 80"
  then have "t div 20 = (if t < 20 then 0 else if t < 40 then 1 else if t < 60 then 2 else 3)"
    by (auto simp: div_nat_eqI)
  then show ?thesis by (auto simp: sha1_K_def fips_K_def)
qed

definition low5 :: "regs5 \<Rightarrow> u32 \<times> u32 \<times> u32 \<times> u32 \<times> u32" where
  "low5 r = (case r of (a, b, c, d, e) \<Rightarrow> (low a, low b, low c, low d, low e))"

text \<open>The circular buffer holds the last sixteen words of the schedule.\<close>

definition window :: "octets \<Rightarrow> nat \<Rightarrow> u64 list \<Rightarrow> bool" where
  "window data t W \<longleftrightarrow> length W = 16 \<and>
     (\<forall>j. j < max t 16 \<and> max t 16 \<le> j + 16 \<longrightarrow> low (W ! (j mod 16)) = fips_W data j)"

lemma window_start: "window data 0 (sha1_words data)"
  by (auto simp: window_def sha1_words_def fips_W.simps)

lemma window_R:
  assumes "window data t W" and "16 \<le> t"
  shows "low (sha1_R t W) = fips_W data t"
proof -
  have w: "low (W ! (j mod 16)) = fips_W data j" if "j < t" "t \<le> j + 16" for j
    using assms that by (auto simp: window_def max_def)
  have "(t - 16) mod 16 = t mod 16" using assms(2) by (simp add: le_mod_geq)
  then show ?thesis
    using w [of "t - 3"] w [of "t - 8"] w [of "t - 14"] w [of "t - 16"] assms(2)
    by (simp add: sha1_R_def fips_W.simps [of data t])
qed

lemma window_step:
  assumes "window data t W" and "16 \<le> t" and "low x = fips_W data t"
  shows "window data (Suc t) (W[t mod 16 := x])"
  unfolding window_def
proof (intro conjI allI impI)
  show "length (W[t mod 16 := x]) = 16" using assms(1) by (simp add: window_def)
  fix j assume j: "j < max (Suc t) 16 \<and> max (Suc t) 16 \<le> j + 16"
  show "low (W[t mod 16 := x] ! (j mod 16)) = fips_W data j"
  proof (cases "j = t")
    case True
    then show ?thesis using assms by (simp add: window_def)
  next
    case False
    then have d: "j < t" "t < j + 16" using j assms(2) by auto
    have "j mod 16 \<noteq> t mod 16"
    proof
      assume "j mod 16 = t mod 16"
      then have "16 dvd t - j" using d mod_eq_dvd_iff_nat [of j t 16] by auto
      then show False using d by (auto dest: dvd_imp_le)
    qed
    then show ?thesis using assms(1,2) d by (auto simp: window_def max_def)
  qed
qed

lemma sha1_P_tuple:
  "sha1_P t (W, a, b, c, d, e) =
     (let x = (if t < 16 then W ! t else sha1_R t W)
      in (if t < 16 then W else W[t mod 16 := x],
          e + (rot_S a 5 + sha1_F t b c d + sha1_K t + x), a, rot_S b 30, c, d))"
  by (simp add: sha1_P_def)

lemma sha1_rounds:
  "t \<le> 80 \<Longrightarrow> window data t (fst (fold sha1_P [0..<t] (sha1_words data, r)))
     \<and> low5 (snd (fold sha1_P [0..<t] (sha1_words data, r))) = fips_rounds data (low5 r) t"
proof (induction t)
  case 0
  then show ?case by (simp add: window_start)
next
  case (Suc t)
  obtain W a b c d e where s: "fold sha1_P [0..<t] (sha1_words data, r) = (W, a, b, c, d, e)"
    by (metis prod.exhaust)
  have IH: "window data t W" "fips_rounds data (low5 r) t = (low a, low b, low c, low d, low e)"
    using Suc s by (auto simp: low5_def)
  let ?x = "if t < 16 then W ! t else sha1_R t W"
  have x: "low ?x = fips_W data t"
    using IH(1) window_R [OF IH(1)] by (auto simp: window_def max_def)
  have "window data (Suc t) (if t < 16 then W else W[t mod 16 := ?x])"
    using IH(1) window_step [OF IH(1) _ x] by (auto simp: window_def max_def)
  then show ?case
    using s IH(2) x low_sha1_F [of t b c d] low_sha1_K [of t] Suc.prems
    by (simp add: sha1_P_tuple Let_def low5_def ac_simps)
qed

lemma sha1_process_low:
  "length st = 5 \<Longrightarrow> map low (sha1_process data st) = fips_compress data (map low st)"
proof -
  assume l: "length st = 5"
  let ?r = "(st ! 0, st ! 1, st ! 2, st ! 3, st ! 4)"
  obtain W a b c d e where s: "fold sha1_P [0..<80] (sha1_words data, ?r) = (W, a, b, c, d, e)"
    by (metis prod.exhaust)
  then have "fips_rounds data (low5 ?r) 80 = (low a, low b, low c, low d, low e)"
    using sha1_rounds [of 80 data ?r] by (simp add: low5_def)
  then show ?thesis using s l by (simp add: sha1_process_def fips_compress_def low5_def ac_simps)
qed

interpretation sha1_hash: block_hash sha1_process fips_compress enc_BE octets_be sha1_init
proof
  show "length st = length sha1_init \<Longrightarrow> length (sha1_process data st) = length sha1_init" for st data
    by (simp add: sha1_process_def sha1_init_def split: prod.split)
qed (use sha1_process_low enc_length_field in \<open>simp_all add: sha1_init_def enc_BE_def PUT_ULONG_BE_def\<close>)

section \<open>The digest\<close>

lemma PUT_ULONG_BE_low: "PUT_ULONG_BE w = word_octets_be (low w)"
proof -
  have "k \<le> 24 \<Longrightarrow> (ucast (drop_bit k w) :: u8) = ucast (drop_bit k (low w))" for k
    unfolding low_def by (rule bit_word_eqI) (auto simp: bit_simps)
  from this [of 24] this [of 16] this [of 8] this [of 0] show ?thesis
    by (simp add: PUT_ULONG_BE_def word_octets_be_def)
qed

lemma sha1_stream:
  assumes "length (hbuf ctx) = 64" and "list_all (\<lambda>d. length d < 2 ^ 31) ds"
  shows "sha1_finish (foldl (\<lambda>c d. sha1_update d c) (sha1_starts ctx) ds) = fips_sha1 (concat ds)"
proof -
  have put: "map PUT_ULONG_BE xs = map word_octets_be (map low xs)" for xs
    by (simp add: PUT_ULONG_BE_low)
  have "map low sha1_init = fips_iv" by (simp add: sha1_init_def fips_iv_def)
  then show ?thesis
    unfolding sha1_finish_def fips_sha1_def put using sha1_hash.digest_of_stream [OF assms]
    by (simp add: sha1_update_def sha1_starts_def)
qed

text \<open>C37: the bundled SHA-1 is the SHA-1 of the standard: however the input is cut into calls of
  \<open>sha1_update\<close>, the digest equals the one FIPS 180-4 defines (big-endian words, padding with the 64-bit
  length, eighty rounds on 32-bit words) for the concatenated input, whatever the buffer held before.\<close>

theorem sha1_is_fips:
  assumes "length (hbuf ctx) = 64" and "list_all (\<lambda>d. length d < 2 ^ 31) ds"
  shows "sha1_finish (foldl (\<lambda>c d. sha1_update d c) (sha1_starts ctx) ds) = fips_sha1 (concat ds)"
  using assms by (rule sha1_stream)

theorem sha1_is_fips_witness:
  "sha1_finish (sha1_update [0x63] (sha1_update [0x61, 0x62]
     (sha1_starts \<lparr>total0 = 7, total1 = 9, hstate = [], hbuf = replicate 64 0xAA\<rparr>)))
   = fips_sha1 [0x61, 0x62, 0x63]"
  using sha1_is_fips [of "\<lparr>total0 = 7, total1 = 9, hstate = [], hbuf = replicate 64 0xAA\<rparr>" "[[0x61, 0x62], [0x63]]"]
  by simp

end
