(* ===== verification/Arc4.thy ===== *)
theory Arc4
  imports Prelude "HOL-Library.Multiset"
begin

text \<open>
  \<open>src/lwip/src/netif/ppp/polarssl/arc4.c\<close>: the key schedule and the stream cipher. The permutation
  table stays a permutation of the 256 octets, every index stays inside it, and decryption undoes
  encryption from the same state.
\<close>

record arc4 =
  arc_x :: nat
  arc_y :: nat
  arc_m :: octets

text \<open>One iteration of the key schedule: the table, \<open>j\<close> and \<open>k\<close>.\<close>

definition arc4_mix :: "octets \<Rightarrow> nat \<Rightarrow> nat \<Rightarrow> octets \<times> nat \<times> nat \<Rightarrow> octets \<times> nat \<times> nat" where
  "arc4_mix key keylen i s =
     (case s of (m, j, k) \<Rightarrow>
        (let k0 = (if k \<ge> keylen then 0 else k);
             a = m ! i;
             j' = (j + unat a + unat (key ! k0)) mod 256
         in ((m[i := m ! j'])[j' := a], j', k0 + 1)))"

definition arc4_setup :: "octets \<Rightarrow> nat \<Rightarrow> arc4" where
  "arc4_setup key keylen =
     \<lparr>arc_x = 0, arc_y = 0,
      arc_m = fst (fold (arc4_mix key keylen) [0..<256] (map of_nat [0..<256], 0, 0))\<rparr>"

definition arc4_octet :: "arc4 \<Rightarrow> arc4 \<times> u8" where
  "arc4_octet ctx =
     (let m = arc_m ctx;
          x = (arc_x ctx + 1) mod 256; a = m ! x;
          y = (arc_y ctx + unat a) mod 256; b = m ! y;
          m' = (m[x := b])[y := a]
      in (\<lparr>arc_x = x, arc_y = y, arc_m = m'\<rparr>, m' ! ((unat a + unat b) mod 256)))"

fun arc4_crypt :: "arc4 \<Rightarrow> octets \<Rightarrow> arc4 \<times> octets" where
  "arc4_crypt ctx [] = (ctx, [])"
| "arc4_crypt ctx (c # buf) =
     (let (ctx', s) = arc4_octet ctx; (ctx'', out) = arc4_crypt ctx' buf in (ctx'', (c XOR s) # out))"

section \<open>The table is a permutation\<close>

definition arc4_ok :: "arc4 \<Rightarrow> bool" where
  "arc4_ok ctx \<longleftrightarrow> arc_x ctx < 256 \<and> arc_y ctx < 256 \<and> mset (arc_m ctx) = mset (map of_nat [0..<256])"

lemma arc4_okD: "arc4_ok ctx \<Longrightarrow> length (arc_m ctx) = 256"
  by (metis arc4_ok_def diff_zero length_map length_upt mset_eq_length)

lemma swap_mset: "i < length m \<Longrightarrow> j < length m \<Longrightarrow> mset ((m[i := m ! j])[j := m ! i]) = mset m"
  by (rule mset_swap)

lemma arc4_mix_mset:
  assumes "i < 256" and "length m = 256"
  shows "mset (fst (arc4_mix key keylen i (m, j, k))) = mset m"
  using assms by (simp add: arc4_mix_def Let_def swap_mset)

lemma arc4_setup_ok: "arc4_ok (arc4_setup key keylen)"
proof -
  have "n \<le> 256 \<Longrightarrow> mset (fst (fold (arc4_mix key keylen) [0..<n] (map of_nat [0..<256], 0, 0)))
      = mset (map of_nat [0..<256])" for n
  proof (induction n)
    case (Suc n)
    obtain m j k where s: "fold (arc4_mix key keylen) [0..<n] (map of_nat [0..<256], 0, 0) = (m, j, k)"
      by (metis prod.exhaust)
    have "length m = 256" using Suc s mset_eq_length [of m "map of_nat [0..<256]"] by simp
    then show ?case using Suc s by (simp add: arc4_mix_mset)
  qed simp
  from this [of 256] show ?thesis by (simp add: arc4_ok_def arc4_setup_def)
qed

lemma arc4_octet_ok: "arc4_ok ctx \<Longrightarrow> arc4_ok (fst (arc4_octet ctx))"
  using arc4_okD [of ctx] by (simp add: arc4_ok_def arc4_octet_def Let_def swap_mset)

lemma arc4_crypt_ok: "arc4_ok ctx \<Longrightarrow> arc4_ok (fst (arc4_crypt ctx buf))"
  by (induction buf arbitrary: ctx) (auto simp: split_beta Let_def intro: arc4_octet_ok)

section \<open>Encryption and decryption\<close>

lemma length_arc4_crypt [simp]: "length (snd (arc4_crypt ctx buf)) = length buf"
  by (induction buf arbitrary: ctx) (auto simp: split_beta Let_def)

lemma arc4_crypt_append:
  "arc4_crypt ctx (a @ b) =
     (let (c1, x) = arc4_crypt ctx a; (c2, y) = arc4_crypt c1 b in (c2, x @ y))"
  by (induction a arbitrary: ctx) (auto simp: split_beta Let_def)

text \<open>The key stream depends on the number of octets, not on their values.\<close>

lemma arc4_crypt_state:
  "length a = length b \<Longrightarrow> fst (arc4_crypt ctx a) = fst (arc4_crypt ctx b)"
  by (induction a b arbitrary: ctx rule: list_induct2) (auto simp: split_beta Let_def)

lemma arc4_crypt_involution: "arc4_crypt ctx (snd (arc4_crypt ctx buf)) = (fst (arc4_crypt ctx buf), buf)"
  by (induction buf arbitrary: ctx) (auto simp: split_beta Let_def xor.assoc)

text \<open>the cipher is an involution and memory-safe: from a context set up with any key, decrypting what
  was encrypted gives the plain text back and leaves the same context, and after any amount of data the
  256-entry table is still a permutation of all octets with both indices inside it.\<close>

theorem arc4_roundtrip:
  assumes "arc4_setup key keylen = c0" and "arc4_crypt c0 plain = (c1, cipher)"
  shows "arc4_crypt c0 cipher = (c1, plain) \<and> length cipher = length plain
    \<and> arc_x c1 < 256 \<and> arc_y c1 < 256 \<and> length (arc_m c1) = 256 \<and> distinct (arc_m c1)"
proof -
  have c1: "c1 = fst (arc4_crypt c0 plain)" "cipher = snd (arc4_crypt c0 plain)" using assms by simp_all
  have ok: "arc4_ok c1" unfolding c1 using arc4_crypt_ok arc4_setup_ok assms(1) by blast
  have "inj_on (of_nat :: nat \<Rightarrow> u8) {0..<256}"
    by (rule inj_onI) (simp add: word_of_nat_eq_iff take_bit_eq_mod)
  then have "distinct (map of_nat [0..<256] :: octets)" by (simp add: distinct_map)
  then have "distinct (arc_m c1)" using ok mset_eq_imp_distinct_iff unfolding arc4_ok_def by blast
  then show ?thesis
    using ok arc4_okD [OF ok] arc4_crypt_involution [of c0 plain] by (simp add: c1 arc4_ok_def)
qed

theorem arc4_roundtrip_witness:
  "\<exists>c0 c1 cipher. arc4_setup [1, 2, 3] 3 = c0 \<and> arc4_crypt c0 [10, 20] = (c1, cipher)
     \<and> arc4_crypt c0 cipher = (c1, [10, 20])"
  using arc4_roundtrip [of "[1, 2, 3]" 3 "arc4_setup [1, 2, 3] 3" "[10, 20]"
      "fst (arc4_crypt (arc4_setup [1, 2, 3] 3) [10, 20])" "snd (arc4_crypt (arc4_setup [1, 2, 3] 3) [10, 20])"]
  by (metis prod.collapse)

end
