(* ===== verification/Ppp_Mppe.thy ===== *)
theory Ppp_Mppe
  imports Sha1 Arc4 Proxy_State
begin

text \<open>
  \<open>src/lwip/src/netif/ppp/mppe.c\<close>: the Microsoft Point-to-Point Encryption layer. State of one
  direction, key changes, encryption and decryption of packets, and the coherency count that keeps
  sender and receiver on the same key when packets are lost. A pbuf chain is the list of its segments;
  calls into LCP and CCP are returned as events.
\<close>

section \<open>Constants and state\<close>

definition MPPE_BIT_FLUSHED :: u8 where "MPPE_BIT_FLUSHED = 0x80"
definition MPPE_BIT_ENCRYPTED :: u8 where "MPPE_BIT_ENCRYPTED = 0x10"
definition MPPE_CCOUNT_SPACE :: nat where "MPPE_CCOUNT_SPACE = 4096"
definition MPPE_OVHD :: nat where "MPPE_OVHD = 2"
definition SANITY_MAX :: u16 where "SANITY_MAX = 1600"
definition MPPE_MAX_KEY_LEN :: nat where "MPPE_MAX_KEY_LEN = 16"
definition MPPE_OPT_40 :: u8 where "MPPE_OPT_40 = 1"
definition MPPE_OPT_128 :: u8 where "MPPE_OPT_128 = 2"
definition MPPE_OPT_STATEFUL :: u8 where "MPPE_OPT_STATEFUL = 4"

lemmas mppe_consts = MPPE_BIT_FLUSHED_def MPPE_BIT_ENCRYPTED_def MPPE_CCOUNT_SPACE_def MPPE_OVHD_def

definition MPPE_BITS :: "octets \<Rightarrow> u8" where
  "MPPE_BITS p = p ! 0 AND 0xf0"

definition MPPE_CCOUNT :: "octets \<Rightarrow> nat" where
  "MPPE_CCOUNT p = unat (p ! 0 AND 0x0f) * 256 + unat (p ! 1)"

definition mppe_sha1_pad1 :: octets where "mppe_sha1_pad1 = replicate 40 0x00"
definition mppe_sha1_pad2 :: octets where "mppe_sha1_pad2 = replicate 40 0xf2"

record mppe =
  marc4 :: arc4
  master_key :: octets
  session_key :: octets
  keylen :: nat
  mbits :: u8
  ccount :: nat
  sanity_errors :: u16
  stateful :: bool
  discard :: bool

datatype mppe_event = Lcp_close string | Ccp_resetrequest

text \<open>The C remainder takes the sign of the dividend.\<close>

definition c_rem :: "int \<Rightarrow> int \<Rightarrow> int" where
  "c_rem a b = (if a < 0 then - ((- a) mod b) else a mod b)"

section \<open>Keys\<close>

text \<open>The context on the stack before \<open>sha1_starts\<close>; its contents do not matter.\<close>

definition stack_ctx :: hash_ctx where
  "stack_ctx = \<lparr>total0 = 0, total1 = 0, hstate = [], hbuf = replicate 64 0\<rparr>"

definition mppe_digest :: "mppe \<Rightarrow> octets" where
  "mppe_digest st =
     sha1_finish
       (sha1_update mppe_sha1_pad2
         (sha1_update (take (keylen st) (session_key st))
           (sha1_update mppe_sha1_pad1
             (sha1_update (take (keylen st) (master_key st)) (sha1_starts stack_ctx)))))"

definition mppe_rekey :: "bool \<Rightarrow> mppe \<Rightarrow> mppe" where
  "mppe_rekey initial_key st =
     (let digest = mppe_digest st;
          key1 = memcpy_at 0 (take (keylen st) digest) (session_key st);
          key2 = (if \<not> initial_key
                  then memcpy_at 0 (snd (arc4_crypt (arc4_setup digest (keylen st)) (take (keylen st) key1))) key1
                  else key1);
          key3 = (if keylen st = 8 then key2[0 := 0xd1, 1 := 0x26, 2 := 0x9e] else key2)
      in st\<lparr>session_key := key3, marc4 := arc4_setup key3 (keylen st)\<rparr>)"

definition mppe_set_key :: "octets \<Rightarrow> mppe \<Rightarrow> mppe" where
  "mppe_set_key key st = st\<lparr>master_key := take MPPE_MAX_KEY_LEN key\<rparr>"

definition mppe_init :: "u8 \<Rightarrow> mppe \<Rightarrow> mppe \<times> mppe_event list" where
  "mppe_init opts st =
     (let st1 = st\<lparr>session_key := master_key st\<rparr>
      in if opts AND MPPE_OPT_128 = 0 \<and> opts AND MPPE_OPT_40 = 0
         then (st1, [Lcp_close ''MPPE required but peer negotiation failed''])
         else (let st2 = st1\<lparr>keylen := (if opts AND MPPE_OPT_128 \<noteq> 0 then 16 else 8)\<rparr>;
                   st3 = (if opts AND MPPE_OPT_STATEFUL \<noteq> 0 then st2\<lparr>stateful := True\<rparr> else st2);
                   st4 = mppe_rekey True st3
               in (st4\<lparr>ccount := MPPE_CCOUNT_SPACE - 1, mbits := MPPE_BIT_ENCRYPTED\<rparr>, [])))"

definition mppe_comp_reset :: "mppe \<Rightarrow> mppe" where
  "mppe_comp_reset st = st\<lparr>mbits := mbits st OR MPPE_BIT_FLUSHED\<rparr>"

definition mppe_decomp_reset :: "mppe \<Rightarrow> mppe" where
  "mppe_decomp_reset st = st"

section \<open>Sending\<close>

text \<open>
  \<open>alloc\<close> and \<open>copied\<close> are the results of \<open>pbuf_alloc\<close> and \<open>pbuf_copy\<close>; \<open>packet\<close> is the content of the
  chain. The new packet is one contiguous pbuf.
\<close>

definition mppe_compress :: "bool \<Rightarrow> err_t \<Rightarrow> octets \<Rightarrow> u16 \<Rightarrow> mppe \<Rightarrow> err_t \<times> octets option \<times> mppe" where
  "mppe_compress alloc copied packet protocol st =
     (if \<not> alloc then (ERR_MEM, None, st)
      else if copied \<noteq> ERR_OK then (copied, None, st)
      else (let st1 = st\<lparr>ccount := (ccount st + 1) mod MPPE_CCOUNT_SPACE\<rparr>;
                pl0 = of_nat (ccount st1 div 256) :: u8;
                pl1 = of_nat (ccount st1) :: u8;
                st2 = (if \<not> stateful st1 \<or> ccount st1 mod 256 = 255 \<or> mbits st1 AND MPPE_BIT_FLUSHED \<noteq> 0
                       then (mppe_rekey False st1)\<lparr>mbits := mbits st1 OR MPPE_BIT_FLUSHED\<rparr>
                       else st1);
                hdr = [pl0 OR mbits st2, pl1];
                st3 = st2\<lparr>mbits := mbits st2 AND NOT MPPE_BIT_FLUSHED\<rparr>;
                body = [ucast (drop_bit 8 protocol), ucast protocol] @ packet;
                (arc, out) = arc4_crypt (marc4 st3) body
            in (ERR_OK, Some (hdr @ out), st3\<lparr>marc4 := arc\<rparr>)))"

section \<open>Receiving\<close>

text \<open>The two loops that catch up with the coherency count of the packet, a 12-bit value.\<close>

function rekey_until :: "nat \<Rightarrow> mppe \<Rightarrow> mppe" where
  "rekey_until t st =
     (if t < 4096 \<and> ccount st \<noteq> t
      then rekey_until t ((mppe_rekey False st)\<lparr>ccount := (ccount st + 1) mod MPPE_CCOUNT_SPACE\<rparr>)
      else st)"
  by pat_completeness auto

termination
proof (relation "measure (\<lambda>(t, st). if ccount st < 4096 then (t + 4096 - ccount st) mod 4096 else 4096)")
  fix t :: nat and st :: mppe
  assume "t < 4096 \<and> ccount st \<noteq> t"
  moreover have "(t + 4096 - Suc c) mod 4096 < (t + 4096 - c) mod 4096" if "c < 4095" "t < 4096" "c \<noteq> t" for c
    using that by (cases "c < t") (simp_all add: le_mod_geq)
  moreover have "t < (t + 1) mod 4096" if "t < 4096" "t \<noteq> 4095"
    using that by simp
  ultimately show "((t, (mppe_rekey False st)\<lparr>ccount := (ccount st + 1) mod MPPE_CCOUNT_SPACE\<rparr>), t, st)
      \<in> measure (\<lambda>(t, st). if ccount st < 4096 then (t + 4096 - ccount st) mod 4096 else 4096)"
    by (cases "ccount st < 4095"; cases "ccount st = 4095") (auto simp: MPPE_CCOUNT_SPACE_def)
qed simp

declare rekey_until.simps [simp del]

function rekey_flags :: "nat \<Rightarrow> mppe \<Rightarrow> mppe" where
  "rekey_flags t st =
     (if t < 4096 \<and> t div 256 \<noteq> ccount st div 256
      then rekey_flags t ((mppe_rekey False st)\<lparr>ccount := (ccount st + 256) mod MPPE_CCOUNT_SPACE\<rparr>)
      else st)"
  by pat_completeness auto

termination
proof (relation "measure (\<lambda>(t, st). if ccount st < 4096 then (t div 256 + 16 - ccount st div 256) mod 16 else 16)")
  fix t :: nat and st :: mppe
  assume a: "t < 4096 \<and> t div 256 \<noteq> ccount st div 256"
  let ?b = "ccount st div 256" and ?u = "t div 256"
  have m: "(ccount st + 256) mod 4096 div 256 = (?b + 1) mod 16"
    by (simp add: mod_mult2_eq [of _ 256 16, simplified] div_add_self2)
  have u: "?u < 16" using a by (simp add: less_mult_imp_div_less)
  have "(u + 16 - (b + 1) mod 16) mod 16 < (u + 16 - b) mod 16" if "b < 16" "u < 16" "u \<noteq> b" for b u :: nat
    using that by (cases "b = 15"; cases "b < u") (simp_all add: le_mod_geq)
  from this [of ?b ?u] u a
  have "(?u + 16 - (?b + 1) mod 16) mod 16 < (?u + 16 - ?b) mod 16" if "?b < 16" using that by blast
  then show "((t, (mppe_rekey False st)\<lparr>ccount := (ccount st + 256) mod MPPE_CCOUNT_SPACE\<rparr>), t, st)
      \<in> measure (\<lambda>(t, st). if ccount st < 4096 then (t div 256 + 16 - ccount st div 256) mod 16 else 16)"
    using m by (auto simp: MPPE_CCOUNT_SPACE_def)
qed simp

declare rekey_flags.simps [simp del]

definition sanity_error :: "mppe \<Rightarrow> mppe_event list" where
  "sanity_error st = (if sanity_errors st \<ge> SANITY_MAX then [Lcp_close ''Too many MPPE errors''] else [])"

text \<open>The decryption loop over the segments of the chain, after the header is hidden.\<close>

fun crypt_chain :: "arc4 \<Rightarrow> octets list \<Rightarrow> arc4 \<times> octets list" where
  "crypt_chain ctx [] = (ctx, [])"
| "crypt_chain ctx (seg # segs) =
     (let (c1, out) = arc4_crypt ctx seg; (c2, outs) = crypt_chain c1 segs in (c2, out # outs))"

type_synonym mppe_result = "err_t \<times> mppe_event list \<times> octets list \<times> mppe"

definition bogon :: "u16 \<Rightarrow> octets list \<Rightarrow> mppe \<Rightarrow> mppe_result" where
  "bogon n pb st =
     (let st' = st\<lparr>sanity_errors := sanity_errors st + n\<rparr> in (ERR_BUF, sanity_error st', pb, st'))"

definition decrypt :: "octets list \<Rightarrow> mppe \<Rightarrow> mppe_result" where
  "decrypt pb st =
     (let chain = drop MPPE_OVHD (hd pb) # tl pb;
          (arc, out) = crypt_chain (marc4 st) chain
      in (ERR_OK, [], out, st\<lparr>marc4 := arc, sanity_errors := drop_bit 1 (sanity_errors st)\<rparr>))"

text \<open>The count check in stateful mode: the state, or the events with which the packet is refused.\<close>

definition stateful_check :: "nat \<Rightarrow> bool \<Rightarrow> mppe \<Rightarrow> mppe \<times> mppe_event list option" where
  "stateful_check cc flushed st =
     (if \<not> discard st
      then (let st1 = st\<lparr>ccount := (ccount st + 1) mod MPPE_CCOUNT_SPACE\<rparr>
            in if cc \<noteq> ccount st1 then (st1\<lparr>discard := True\<rparr>, Some [Ccp_resetrequest]) else (st1, None))
      else if \<not> flushed then (st, Some [])
      else ((rekey_flags cc st)\<lparr>discard := False, ccount := cc\<rparr>, None))"

definition mppe_decompress :: "octets list \<Rightarrow> mppe \<Rightarrow> mppe_result" where
  "mppe_decompress pb st =
     (if length (hd pb) < MPPE_OVHD then bogon 100 pb st
      else (let pl = hd pb;
                flushed = (MPPE_BITS pl AND MPPE_BIT_FLUSHED \<noteq> 0);
                cc = MPPE_CCOUNT pl
            in if MPPE_BITS pl AND MPPE_BIT_ENCRYPTED = 0 then bogon 100 pb st
               else if \<not> stateful st \<and> \<not> flushed then bogon 100 pb st
               else if stateful st \<and> cc mod 256 = 255 \<and> \<not> flushed then bogon 100 pb st
               else if \<not> stateful st
               then (if c_rem (int cc - int (ccount st)) (int MPPE_CCOUNT_SPACE) > int MPPE_CCOUNT_SPACE div 2
                     then bogon 1 pb st
                     else decrypt pb (rekey_until cc st))
               else (case stateful_check cc flushed st of
                       (st1, Some events) \<Rightarrow> (ERR_BUF, events, pb, st1)
                     | (st1, None) \<Rightarrow> decrypt pb (if flushed then mppe_rekey False st1 else st1))))"

section \<open>Runs of a link\<close>

text \<open>
  A run of one direction: packets handed to the sender, each either delivered to the receiver or lost.
  The result is what the receiver passes on, packet by packet.
\<close>

fun mppe_link :: "(bool \<times> u16 \<times> octets) list \<Rightarrow> mppe \<Rightarrow> mppe \<Rightarrow> (err_t \<times> octets) list" where
  "mppe_link [] s r = []"
| "mppe_link ((arrives, protocol, packet) # ps) s r =
     (case mppe_compress True ERR_OK packet protocol s of
        (e, None, s') \<Rightarrow> (e, []) # mppe_link ps s' r
      | (e, Some frame, s') \<Rightarrow>
          if arrives
          then (case mppe_decompress [frame] r of
                  (e', events, out, r') \<Rightarrow> (e', concat out) # mppe_link ps s' r')
          else mppe_link ps s' r)"

definition plain_frame :: "u16 \<Rightarrow> octets \<Rightarrow> octets" where
  "plain_frame protocol packet = [ucast (drop_bit 8 protocol), ucast protocol] @ packet"

text \<open>No burst of losses makes the receiver fall more than half the count space behind.\<close>

fun bursts_ok :: "nat \<Rightarrow> (bool \<times> u16 \<times> octets) list \<Rightarrow> bool" where
  "bursts_ok n [] = True"
| "bursts_ok n ((arrives, p) # ps) = (if arrives then n < 2048 \<and> bursts_ok 0 ps else bursts_ok (Suc n) ps)"

text \<open>In stateful mode: packets that all arrive, each after an optional reset request of the peer.\<close>

fun mppe_session :: "(bool \<times> u16 \<times> octets) list \<Rightarrow> mppe \<Rightarrow> mppe \<Rightarrow> (err_t \<times> octets) list" where
  "mppe_session [] s r = []"
| "mppe_session ((reset, protocol, packet) # ps) s r =
     (case mppe_compress True ERR_OK packet protocol (if reset then mppe_comp_reset s else s) of
        (e, None, s') \<Rightarrow> (e, []) # mppe_session ps s' r
      | (e, Some frame, s') \<Rightarrow>
          (case mppe_decompress [frame] r of
             (e', events, out, r') \<Rightarrow> (e', concat out) # mppe_session ps s' r'))"

text \<open>The sender after a sequence of packets that never reach the receiver.\<close>

fun mppe_lost :: "(u16 \<times> octets) list \<Rightarrow> mppe \<Rightarrow> mppe" where
  "mppe_lost [] s = s"
| "mppe_lost ((protocol, packet) # ps) s = mppe_lost ps (snd (snd (mppe_compress True ERR_OK packet protocol s)))"

text \<open>A frame no honest sender produces, and the events of a sequence of frames.\<close>

definition bogus :: "mppe \<Rightarrow> octets list \<Rightarrow> bool" where
  "bogus r pb \<longleftrightarrow> length (hd pb) < 2 \<or> MPPE_BITS (hd pb) AND MPPE_BIT_ENCRYPTED = 0
     \<or> (\<not> stateful r \<and> MPPE_BITS (hd pb) AND MPPE_BIT_FLUSHED = 0)"

fun mppe_frames :: "octets list list \<Rightarrow> mppe \<Rightarrow> mppe_event list \<times> mppe" where
  "mppe_frames [] r = ([], r)"
| "mppe_frames (pb # pbs) r =
     (case mppe_decompress pb r of
        (e, events, out, r') \<Rightarrow> (case mppe_frames pbs r' of (later, r'') \<Rightarrow> (events @ later, r'')))"

text \<open>The operations on one direction, and its invariant.\<close>

datatype mppe_op = Compress bool err_t octets u16 | Decompress "octets list" | Comp_reset | Decomp_reset

fun mppe_do :: "mppe_op \<Rightarrow> mppe \<Rightarrow> mppe" where
  "mppe_do (Compress alloc copied packet protocol) st = snd (snd (mppe_compress alloc copied packet protocol st))"
| "mppe_do (Decompress pb) st = snd (snd (snd (mppe_decompress pb st)))"
| "mppe_do Comp_reset st = mppe_comp_reset st"
| "mppe_do Decomp_reset st = mppe_decomp_reset st"

definition mppe_ok :: "mppe \<Rightarrow> bool" where
  "mppe_ok st \<longleftrightarrow>
     length (master_key st) = 16 \<and> length (session_key st) = 16 \<and> (keylen st = 8 \<or> keylen st = 16)
     \<and> arc4_ok (marc4 st) \<and> ccount st < 4096
     \<and> (keylen st = 8 \<longrightarrow> take 3 (session_key st) = [0xd1, 0x26, 0x9e])"

definition blank_mppe :: mppe where
  "blank_mppe = \<lparr>marc4 = \<lparr>arc_x = 0, arc_y = 0, arc_m = []\<rparr>, master_key = replicate 16 0,
     session_key = replicate 16 0, keylen = 0, mbits = 0, ccount = 0, sanity_errors = 0,
     stateful = False, discard = False\<rparr>"

section \<open>The header\<close>

definition good_bits :: "u8 \<Rightarrow> bool" where
  "good_bits b \<longleftrightarrow> b = 0x10 \<or> b = 0x90"

lemma nibble_cases: "h < 16 \<Longrightarrow> h \<in> {0, 1, 2, 3, 4, 5, 6, 7, 8, 9, 10, 11, 12, 13, 14, 15 :: nat}"
  by (simp, presburger)

lemma header_nibble:
  assumes "h < 16" and "good_bits b"
  shows "(of_nat h OR b) AND 0xf0 = b" and "unat ((of_nat h OR b) AND 0x0f) = h"
  using nibble_cases [OF assms(1)] assms(2) unfolding good_bits_def by (elim insertE emptyE disjE; simp)+

lemma header_count:
  assumes "c < 4096" and "good_bits b"
  shows "MPPE_CCOUNT ((of_nat (c div 256) OR b) # of_nat c # out) = c"
    and "MPPE_BITS ((of_nat (c div 256) OR b) # rest) = b"
proof -
  have h: "c div 256 < 16" using assms(1) by (simp add: less_mult_imp_div_less)
  show "MPPE_CCOUNT ((of_nat (c div 256) OR b) # of_nat c # out) = c"
    using header_nibble(2) [OF h assms(2)] by (simp add: MPPE_CCOUNT_def unat_of_nat)
  show "MPPE_BITS ((of_nat (c div 256) OR b) # rest) = b"
    using header_nibble(1) [OF h assms(2)] by (simp add: MPPE_BITS_def)
qed

lemma good_bits_ops:
  "good_bits b \<Longrightarrow> b OR MPPE_BIT_FLUSHED = 0x90" "good_bits b \<Longrightarrow> b AND NOT MPPE_BIT_FLUSHED = 0x10"
  "good_bits b \<Longrightarrow> b AND MPPE_BIT_ENCRYPTED \<noteq> 0"
  by (auto simp: good_bits_def mppe_consts)

section \<open>Keys change in step\<close>

definition same_key :: "mppe \<Rightarrow> mppe \<Rightarrow> bool" where
  "same_key s r \<longleftrightarrow> master_key s = master_key r \<and> session_key s = session_key r \<and> keylen s = keylen r"

lemma rekey_fields [simp]:
  "ccount (mppe_rekey i st) = ccount st" "mbits (mppe_rekey i st) = mbits st" "stateful (mppe_rekey i st) = stateful st"
  "discard (mppe_rekey i st) = discard st" "sanity_errors (mppe_rekey i st) = sanity_errors st"
  "keylen (mppe_rekey i st) = keylen st" "master_key (mppe_rekey i st) = master_key st"
  by (simp_all add: mppe_rekey_def Let_def)

lemma rekey_update [simp]:
  "mppe_rekey i (st\<lparr>ccount := c\<rparr>) = (mppe_rekey i st)\<lparr>ccount := c\<rparr>"
  "mppe_rekey i (st\<lparr>mbits := b\<rparr>) = (mppe_rekey i st)\<lparr>mbits := b\<rparr>"
  by (simp_all add: mppe_rekey_def mppe_digest_def Let_def)

lemma rekey_same:
  assumes "same_key s r"
  shows "same_key (mppe_rekey i s) (mppe_rekey i r)" and "marc4 (mppe_rekey i s) = marc4 (mppe_rekey i r)"
  using assms by (simp_all add: same_key_def mppe_rekey_def mppe_digest_def Let_def)

abbreviation rekeys :: "nat \<Rightarrow> mppe \<Rightarrow> mppe" where
  "rekeys n \<equiv> mppe_rekey False ^^ n"

lemma rekeys_fields [simp]:
  "ccount (rekeys n st) = ccount st" "mbits (rekeys n st) = mbits st" "stateful (rekeys n st) = stateful st"
  "discard (rekeys n st) = discard st" "sanity_errors (rekeys n st) = sanity_errors st"
  by (induction n) simp_all

lemma rekeys_ccount: "rekeys n (st\<lparr>ccount := c\<rparr>) = (rekeys n st)\<lparr>ccount := c\<rparr>"
  by (induction n) simp_all

text \<open>The catching-up loop changes the key once per missed packet.\<close>

lemma rekey_until_steps:
  "ccount st < 4096 \<Longrightarrow> n < 4096 \<Longrightarrow> t = (ccount st + n) mod 4096 \<Longrightarrow> rekey_until t st = (rekeys n st)\<lparr>ccount := t\<rparr>"
proof (induction n arbitrary: st)
  case 0
  then have "t = ccount st" by simp
  then show ?case by (subst rekey_until.simps) simp
next
  case (Suc n)
  let ?st = "(mppe_rekey False st)\<lparr>ccount := (ccount st + 1) mod 4096\<rparr>"
  have ne: "ccount st \<noteq> t" "t < 4096"
  proof -
    have "(c + Suc n) mod 4096 \<noteq> c" if "c < 4096" for c
      using that Suc.prems(2) by (cases "c + Suc n < 4096") (auto simp: le_mod_geq)
    then show "ccount st \<noteq> t" using Suc.prems by metis
    show "t < 4096" using Suc.prems by simp
  qed
  have "t = (ccount ?st + n) mod 4096" using Suc.prems by (simp add: mod_simps)
  then have "rekey_until t ?st = (rekeys n ?st)\<lparr>ccount := t\<rparr>"
    using Suc.prems(2) by (intro Suc.IH) simp_all
  then show ?case
    using ne by (simp add: rekey_until.simps [of t st] MPPE_CCOUNT_SPACE_def rekeys_ccount funpow_swap1)
qed

section \<open>Stateless mode\<close>

text \<open>The receiver is \<open>d\<close> packets, and therefore \<open>d\<close> key changes, behind the sender.\<close>

definition behind :: "nat \<Rightarrow> mppe \<Rightarrow> mppe \<Rightarrow> bool" where
  "behind d s r \<longleftrightarrow>
     same_key s (rekeys d r) \<and> ccount s = (ccount r + d) mod 4096 \<and> ccount r < 4096
     \<and> \<not> stateful s \<and> \<not> stateful r \<and> good_bits (mbits s)"

lemma compress_rekeyed:
  assumes "\<not> stateful s \<or> mbits s AND MPPE_BIT_FLUSHED \<noteq> 0" and "good_bits (mbits s)"
  obtains arc out s' where
    "mppe_compress True ERR_OK packet protocol s =
       (ERR_OK, Some ((of_nat (ccount s' div 256) OR 0x90) # of_nat (ccount s') # out), s')"
    "arc4_crypt (marc4 (mppe_rekey False s)) (plain_frame protocol packet) = (arc, out)"
    "s' = (mppe_rekey False s)\<lparr>ccount := (ccount s + 1) mod 4096, mbits := 0x10, marc4 := arc\<rparr>"
proof -
  obtain arc out where c: "arc4_crypt (marc4 (mppe_rekey False s)) (plain_frame protocol packet) = (arc, out)"
    by (metis prod.exhaust)
  let ?s = "(mppe_rekey False s)\<lparr>ccount := (ccount s + 1) mod 4096, mbits := 0x10, marc4 := arc\<rparr>"
  have "(0x90 :: u8) AND NOT MPPE_BIT_FLUSHED = 0x10" by (simp add: mppe_consts)
  then have "mppe_compress True ERR_OK packet protocol s =
       (ERR_OK, Some ((of_nat (ccount ?s div 256) OR 0x90) # of_nat (ccount ?s) # out), ?s)"
    using assms c good_bits_ops(1) [OF assms(2)]
    by (auto simp: mppe_compress_def Let_def plain_frame_def MPPE_CCOUNT_SPACE_def)
  then show thesis using c that by blast
qed

lemma same_key_update:
  "same_key (s\<lparr>ccount := c\<rparr>) r = same_key s r" "same_key (s\<lparr>mbits := b\<rparr>) r = same_key s r"
  "same_key (s\<lparr>marc4 := a\<rparr>) r = same_key s r" "same_key (s\<lparr>sanity_errors := n\<rparr>) r = same_key s r"
  "same_key s (r\<lparr>ccount := c\<rparr>) = same_key s r" "same_key s (r\<lparr>marc4 := a\<rparr>) = same_key s r"
  "same_key s (r\<lparr>sanity_errors := n\<rparr>) = same_key s r"
  by (simp_all add: same_key_def)

lemma not_late:
  assumes "c < 4096" and "n \<le> 2048"
  shows "\<not> c_rem (int ((c + n) mod 4096) - int c) 4096 > 2048"
proof (cases "c + n < 4096")
  case True
  then show ?thesis using assms by (simp add: c_rem_def)
next
  case False
  then have "(c + n) mod 4096 = c + n - 4096" using assms by (simp add: le_mod_geq)
  then show ?thesis using assms False by (simp add: c_rem_def of_nat_diff)
qed

lemma decompress_stateless:
  assumes b: "behind d s r" and d: "d < 2048"
    and c: "mppe_compress True ERR_OK packet protocol s = (ERR_OK, Some frame, s')"
  shows "\<exists>r'. mppe_decompress [frame] r = (ERR_OK, [], [plain_frame protocol packet], r') \<and> behind 0 s' r'"
proof -
  have st: "\<not> stateful s \<or> mbits s AND MPPE_BIT_FLUSHED \<noteq> 0" "good_bits (mbits s)" using b by (auto simp: behind_def)
  obtain arc out where f: "frame = (of_nat (ccount s' div 256) OR 0x90) # of_nat (ccount s') # out"
    and a: "arc4_crypt (marc4 (mppe_rekey False s)) (plain_frame protocol packet) = (arc, out)"
    and s': "s' = (mppe_rekey False s)\<lparr>ccount := (ccount s + 1) mod 4096, mbits := 0x10, marc4 := arc\<rparr>"
    by (rule compress_rekeyed [OF st, of packet protocol]) (use c in auto)
  let ?t = "(ccount r + Suc d) mod 4096"
  have t: "ccount s' = ?t" using b s' by (simp add: behind_def mod_simps)
  have tl: "?t < 4096" by simp
  have good: "good_bits 0x90" by (simp add: good_bits_def)
  have h: "MPPE_CCOUNT frame = ?t" "MPPE_BITS frame = 0x90"
    unfolding f t using header_count [OF tl good] by simp_all
  have late: "\<not> c_rem (int ?t - int (ccount r)) 4096 > 2048"
    using b d by (intro not_late) (simp_all add: behind_def)
  have until: "rekey_until ?t r = (rekeys (Suc d) r)\<lparr>ccount := ?t\<rparr>"
    using b d by (intro rekey_until_steps) (simp_all add: behind_def)
  have key: "same_key (mppe_rekey False s) (rekeys (Suc d) r)"
      "marc4 (mppe_rekey False s) = marc4 (rekeys (Suc d) r)"
    using b rekey_same [of s "rekeys d r" False] by (simp_all add: behind_def)
  have dec: "arc4_crypt (marc4 (rekeys (Suc d) r)) out = (arc, plain_frame protocol packet)"
    using arc4_crypt_involution [of "marc4 (mppe_rekey False s)" "plain_frame protocol packet"] a key(2) by simp
  let ?r = "(rekeys (Suc d) r)\<lparr>ccount := ?t, marc4 := arc, sanity_errors := drop_bit 1 (sanity_errors r)\<rparr>"
  have "(0x90 :: u8) AND MPPE_BIT_ENCRYPTED \<noteq> 0" "(0x90 :: u8) AND MPPE_BIT_FLUSHED \<noteq> 0"
    by (simp_all add: mppe_consts)
  then have "mppe_decompress [frame] r = (ERR_OK, [], [plain_frame protocol packet], ?r)"
    using b h late until dec
    by (simp add: mppe_decompress_def decrypt_def Let_def behind_def MPPE_CCOUNT_SPACE_def MPPE_OVHD_def f del: funpow.simps)
  moreover have "behind 0 s' ?r"
    using b key(1) t s' by (simp add: behind_def same_key_update good_bits_def del: funpow.simps)
  ultimately show ?thesis by blast
qed

lemma compress_behind:
  assumes b: "behind d s r" and c: "mppe_compress True ERR_OK packet protocol s = (e, frame, s')"
  shows "e = ERR_OK \<and> frame \<noteq> None \<and> behind (Suc d) s' r"
proof -
  have st: "\<not> stateful s \<or> mbits s AND MPPE_BIT_FLUSHED \<noteq> 0" "good_bits (mbits s)" using b by (auto simp: behind_def)
  show ?thesis
    by (rule compress_rekeyed [OF st, of packet protocol])
      (use b c rekey_same [of s "rekeys d r" False] in
        \<open>auto simp: behind_def same_key_update good_bits_def mod_simps\<close>)
qed

lemma mppe_link_stateless:
  "behind d s r \<Longrightarrow> bursts_ok d ps \<Longrightarrow>
     mppe_link ps s r = map (\<lambda>(_, protocol, packet). (ERR_OK, plain_frame protocol packet)) (filter fst ps)"
proof (induction ps s r arbitrary: d rule: mppe_link.induct)
  case (2 arrives protocol packet ps s r)
  obtain e frame s' where c: "mppe_compress True ERR_OK packet protocol s = (e, frame, s')"
    by (metis prod.exhaust)
  then obtain f where f: "e = ERR_OK" "frame = Some f" and b: "behind (Suc d) s' r"
    using compress_behind [OF 2(4) c] by auto
  show ?case
  proof (cases arrives)
    case True
    then obtain r' where "mppe_decompress [f] r = (ERR_OK, [], [plain_frame protocol packet], r')" "behind 0 s' r'"
      using decompress_stateless [OF 2(4), of packet protocol f s'] 2(5) c f by auto
    then show ?thesis using 2(2) [OF c [symmetric]] 2(5) True c f by simp
  next
    case False
    then show ?thesis using 2(3) [OF c [symmetric]] 2(5) c f b by simp
  qed
qed simp

lemma init_fields:
  assumes "opts AND MPPE_OPT_128 \<noteq> 0 \<or> opts AND MPPE_OPT_40 \<noteq> 0"
  shows "ccount (fst (mppe_init opts st)) = 4095" "mbits (fst (mppe_init opts st)) = 0x10"
    "stateful (fst (mppe_init opts st)) \<longleftrightarrow> stateful st \<or> opts AND MPPE_OPT_STATEFUL \<noteq> 0"
    "discard (fst (mppe_init opts st)) = discard st"
  using assms by (auto simp: mppe_init_def Let_def mppe_consts)

lemma init_same:
  assumes "opts AND MPPE_OPT_128 \<noteq> 0 \<or> opts AND MPPE_OPT_40 \<noteq> 0"
  shows "same_key (fst (mppe_init opts (mppe_set_key key s))) (fst (mppe_init opts (mppe_set_key key r)))"
    and "marc4 (fst (mppe_init opts (mppe_set_key key s))) = marc4 (fst (mppe_init opts (mppe_set_key key r)))"
  using assms
  by (auto simp: mppe_init_def mppe_set_key_def mppe_rekey_def mppe_digest_def same_key_def Let_def)

lemma init_behind:
  assumes "\<not> stateful s0" and "\<not> stateful r0"
    and "opts AND MPPE_OPT_128 \<noteq> 0 \<or> opts AND MPPE_OPT_40 \<noteq> 0" and "opts AND MPPE_OPT_STATEFUL = 0"
  shows "behind 0 (fst (mppe_init opts (mppe_set_key key s0))) (fst (mppe_init opts (mppe_set_key key r0)))"
  using assms init_same(1) [OF assms(3)] init_fields [OF assms(3)]
  by (simp add: behind_def good_bits_def mppe_set_key_def)

text \<open>C15: an encrypted link in stateless mode loses nothing but what the network loses: when both ends start
  from the same session key, every packet that arrives is decrypted to exactly the protocol number and the
  payload that were sent, in order and without error, whatever packets are lost in between, as long as no
  burst of losses reaches half of the 4096 coherency counts.\<close>

theorem mppe_stateless_roundtrip:
  assumes "\<not> stateful s0" and "\<not> stateful r0"
    and "opts AND MPPE_OPT_128 \<noteq> 0 \<or> opts AND MPPE_OPT_40 \<noteq> 0" and "opts AND MPPE_OPT_STATEFUL = 0"
    and "bursts_ok 0 ps"
  shows "mppe_link ps (fst (mppe_init opts (mppe_set_key key s0))) (fst (mppe_init opts (mppe_set_key key r0)))
    = map (\<lambda>(_, protocol, packet). (ERR_OK, plain_frame protocol packet)) (filter fst ps)"
  using init_behind [OF assms(1-4)] assms(5) by (rule mppe_link_stateless)

theorem mppe_stateless_roundtrip_witness:
  "mppe_link [(True, 0x21, [1, 2, 3]), (False, 0x21, [4]), (True, 0x21, [5, 6])]
     (fst (mppe_init MPPE_OPT_128 (mppe_set_key (replicate 16 7) blank_mppe)))
     (fst (mppe_init MPPE_OPT_128 (mppe_set_key (replicate 16 7) blank_mppe)))
   = [(ERR_OK, [0, 0x21, 1, 2, 3]), (ERR_OK, [0, 0x21, 5, 6])]"
  using mppe_stateless_roundtrip [of blank_mppe blank_mppe MPPE_OPT_128
      "[(True, 0x21, [1, 2, 3]), (False, 0x21, [4]), (True, 0x21, [5, 6])]" "replicate 16 7"]
  by (simp add: blank_mppe_def MPPE_OPT_128_def MPPE_OPT_STATEFUL_def plain_frame_def)

section \<open>Stateful mode\<close>

definition in_step :: "mppe \<Rightarrow> mppe \<Rightarrow> bool" where
  "in_step s r \<longleftrightarrow>
     same_key s r \<and> marc4 s = marc4 r \<and> ccount s = ccount r \<and> ccount r < 4096
     \<and> stateful s \<and> stateful r \<and> \<not> discard r \<and> good_bits (mbits s)"

lemma in_step_packet:
  assumes "in_step s r"
  shows "\<exists>frame s' r'. mppe_compress True ERR_OK packet protocol s = (ERR_OK, Some frame, s')
    \<and> mppe_decompress [frame] r = (ERR_OK, [], [plain_frame protocol packet], r') \<and> in_step s' r'"
proof -
  let ?c = "(ccount s + 1) mod 4096"
  let ?rekey = "?c mod 256 = 255 \<or> mbits s AND MPPE_BIT_FLUSHED \<noteq> 0"
  let ?b = "if ?rekey then 0x90 else mbits s"
  let ?s = "if ?rekey then mppe_rekey False s else s" and ?r = "if ?rekey then mppe_rekey False r else r"
  have i: "same_key s r" "marc4 s = marc4 r" "ccount s = ccount r" "good_bits (mbits s)" "stateful s" "stateful r" "\<not> discard r"
    using assms by (auto simp: in_step_def)
  have b: "good_bits ?b" using i(4) by (simp add: good_bits_def)
  have flag: "?b AND MPPE_BIT_FLUSHED \<noteq> 0 \<longleftrightarrow> ?rekey" by (simp add: mppe_consts)
  have key: "same_key ?s ?r" "marc4 ?s = marc4 ?r" using i rekey_same [OF i(1)] by auto
  obtain arc out where a: "arc4_crypt (marc4 ?s) (plain_frame protocol packet) = (arc, out)" by (metis prod.exhaust)
  have dec: "arc4_crypt (marc4 ?r) out = (arc, plain_frame protocol packet)"
    using arc4_crypt_involution [of "marc4 ?s" "plain_frame protocol packet"] a key(2) by simp
  let ?frame = "(of_nat (?c div 256) OR ?b) # of_nat ?c # out"
  let ?s' = "?s\<lparr>ccount := ?c, mbits := 0x10, marc4 := arc\<rparr>"
  let ?r' = "?r\<lparr>ccount := ?c, marc4 := arc, sanity_errors := drop_bit 1 (sanity_errors r)\<rparr>"
  have h: "MPPE_CCOUNT ?frame = ?c" "MPPE_BITS ?frame = ?b"
    using header_count [OF _ b, of ?c] by simp_all
  have "mppe_compress True ERR_OK packet protocol s = (ERR_OK, Some ?frame, ?s')"
    using a i good_bits_ops [OF i(4)] good_bits_ops(2) [OF b]
    by (auto simp: mppe_compress_def Let_def plain_frame_def MPPE_CCOUNT_SPACE_def)
  moreover have "mppe_decompress [?frame] r = (ERR_OK, [], [plain_frame protocol packet], ?r')"
    using i h dec flag good_bits_ops(3) [OF b]
    by (auto simp: mppe_decompress_def stateful_check_def decrypt_def Let_def MPPE_CCOUNT_SPACE_def MPPE_OVHD_def)
  moreover have "in_step ?s' ?r'"
    using key i by (simp add: in_step_def same_key_update good_bits_def)
  ultimately show ?thesis by blast
qed

lemma in_step_reset: "in_step s r \<Longrightarrow> in_step (mppe_comp_reset s) r"
  by (auto simp: in_step_def mppe_comp_reset_def same_key_update good_bits_def mppe_consts)

lemma mppe_session_in_step:
  "in_step s r \<Longrightarrow> mppe_session ps s r = map (\<lambda>(_, protocol, packet). (ERR_OK, plain_frame protocol packet)) ps"
proof (induction ps arbitrary: s r)
  case (Cons p ps)
  obtain reset protocol packet where p: "p = (reset, protocol, packet)" by (metis prod.exhaust)
  have "in_step (if reset then mppe_comp_reset s else s) r" using Cons.prems in_step_reset by simp
  from in_step_packet [OF this, of packet protocol] show ?case using Cons.IH p by auto
qed simp

text \<open>The second catching-up loop changes the key once per 256 counts.\<close>

lemma rekey_flags_steps:
  "ccount st < 4096 \<Longrightarrow> t < 4096 \<Longrightarrow> n < 16 \<Longrightarrow> t div 256 = (ccount st div 256 + n) mod 16 \<Longrightarrow>
     rekey_flags t st = (rekeys n st)\<lparr>ccount := (ccount st + 256 * n) mod 4096\<rparr>"
proof (induction n arbitrary: st)
  case 0
  then have "t div 256 = ccount st div 256" by (simp add: less_mult_imp_div_less)
  then show ?case using 0 by (subst rekey_flags.simps) simp
next
  case (Suc n)
  let ?st = "(mppe_rekey False st)\<lparr>ccount := (ccount st + 256) mod 4096\<rparr>"
  have m: "(ccount st + 256) mod 4096 div 256 = (ccount st div 256 + 1) mod 16"
    by (simp add: mod_mult2_eq [of _ 256 16, simplified] div_add_self2)
  have b: "ccount st div 256 < 16" using Suc.prems by (simp add: less_mult_imp_div_less)
  have "(b + Suc n) mod 16 \<noteq> b" if "b < 16" for b
    using that Suc.prems(3) by (cases "b + Suc n < 16") (auto simp: le_mod_geq)
  then have ne: "t div 256 \<noteq> ccount st div 256" using b Suc.prems by metis
  have "rekey_flags t ?st = (rekeys n ?st)\<lparr>ccount := (ccount ?st + 256 * n) mod 4096\<rparr>"
  proof (rule Suc.IH)
    show "t div 256 = (ccount ?st div 256 + n) mod 16" using Suc.prems m by (simp add: mod_simps)
  qed (use Suc.prems in simp_all)
  then show ?case
    using ne Suc.prems(2)
    by (simp add: rekey_flags.simps [of t st] MPPE_CCOUNT_SPACE_def rekeys_ccount funpow_swap1 mod_simps algebra_simps)
qed

text \<open>Number of key changes of a sender over \<open>k\<close> packets that follow the count \<open>c\<close>.\<close>

definition flag_count :: "nat \<Rightarrow> nat \<Rightarrow> nat" where
  "flag_count c k = (c + 1 + k) div 256 - (c + 1) div 256"

lemma flag_count_Suc:
  "flag_count c (Suc k) = flag_count c k + (if (c + 1 + k) mod 256 = 255 then 1 else 0)"
proof -
  have "(c + 1) div 256 \<le> (c + 1 + k) div 256" by (rule div_le_mono) simp
  moreover have "(c + 1 + Suc k) div 256 = (c + 1 + k) div 256 + (if (c + 1 + k) mod 256 = 255 then 1 else 0)"
    by (simp add: div_Suc mod_Suc)
  ultimately show ?thesis by (simp add: flag_count_def)
qed

definition sender_at :: "mppe \<Rightarrow> nat \<Rightarrow> mppe \<Rightarrow> bool" where
  "sender_at s k s' \<longleftrightarrow>
     same_key s' (rekeys (flag_count (ccount s) k) s) \<and> ccount s' = (ccount s + k) mod 4096
     \<and> stateful s' \<and> mbits s' = 0x10"

lemma same_key_trans: "same_key a b \<Longrightarrow> same_key b c \<Longrightarrow> same_key a c"
  and same_key_sym: "same_key a b \<Longrightarrow> same_key b a"
  by (simp_all add: same_key_def)

lemma rekeys_same: "same_key s r \<Longrightarrow> same_key (rekeys n s) (rekeys n r)"
  by (induction n) (simp_all add: rekey_same)

lemma sender_step:
  assumes "sender_at s k s'"
  shows "sender_at s (Suc k) (snd (snd (mppe_compress True ERR_OK packet protocol s')))"
proof -
  let ?c = "(ccount s' + 1) mod 4096"
  have i: "stateful s'" "mbits s' = 0x10" "same_key s' (rekeys (flag_count (ccount s) k) s)"
    "ccount s' = (ccount s + k) mod 4096" using assms by (auto simp: sender_at_def)
  have f: "?c mod 256 = 255 \<longleftrightarrow> (ccount s + 1 + k) mod 256 = 255"
    by (simp add: i(4) mod_simps mod_mod_cancel)
  have b: "(0x10 :: u8) AND MPPE_BIT_FLUSHED = 0" "(0x10 :: u8) AND NOT MPPE_BIT_FLUSHED = 0x10"
    "((0x10 :: u8) OR MPPE_BIT_FLUSHED) AND NOT MPPE_BIT_FLUSHED = 0x10" by (simp_all add: mppe_consts)
  show ?thesis
    using i f b rekey_same(1) [OF i(3), of False]
    by (auto simp: sender_at_def mppe_compress_def Let_def MPPE_CCOUNT_SPACE_def split_beta flag_count_Suc
        same_key_update mod_simps)
qed

lemma sender_lost: "sender_at s k s' \<Longrightarrow> sender_at s (k + length ps) (mppe_lost ps s')"
proof (induction ps arbitrary: k s')
  case (Cons p ps)
  obtain protocol packet where p: "p = (protocol, packet)" by (cases p)
  show ?case using Cons.IH [OF sender_step [OF Cons.prems], of packet protocol] p by simp
qed simp

lemma compress_ok: "\<exists>frame s'. mppe_compress True ERR_OK packet protocol s = (ERR_OK, Some frame, s')"
  by (simp add: mppe_compress_def Let_def split_beta)

lemma compress_header:
  assumes "mppe_compress True ERR_OK packet protocol s = (ERR_OK, Some frame, s')" and "good_bits (mbits s)"
  defines "b \<equiv> if \<not> stateful s \<or> (ccount s + 1) mod 4096 mod 256 = 255 \<or> mbits s AND MPPE_BIT_FLUSHED \<noteq> 0 then 0x90 else mbits s"
  shows "MPPE_CCOUNT frame = (ccount s + 1) mod 4096" and "MPPE_BITS frame = b" and "2 \<le> length frame"
proof -
  let ?c = "(ccount s + 1) mod 4096"
  obtain out where f: "frame = (of_nat (?c div 256) OR b) # of_nat ?c # out"
    using assms(1) good_bits_ops(1) [OF assms(2)] unfolding b_def
    by (auto simp: mppe_compress_def Let_def MPPE_CCOUNT_SPACE_def split: prod.splits if_splits)
  have "good_bits b" using assms(2) by (simp add: b_def good_bits_def)
  then show "MPPE_CCOUNT frame = ?c" "MPPE_BITS frame = b" "2 \<le> length frame"
    unfolding f using header_count [of ?c b] by simp_all
qed

lemma mod_add_ne: "0 < n \<Longrightarrow> n < 4096 \<Longrightarrow> (a + n) mod 4096 \<noteq> a mod (4096 :: nat)"
proof
  assume n: "0 < n" "n < 4096" and "(a + n) mod 4096 = a mod 4096"
  then have "4096 dvd n" using mod_eq_dvd_iff_nat [of a "a + n" 4096] by simp
  then show False using n by (auto dest: dvd_imp_le)
qed

lemma detect_loss:
  assumes i: "in_step s r" and s1: "sender_at s n s1" and n: "0 < n" "n < 4096"
    and c: "mppe_compress True ERR_OK packet protocol s1 = (ERR_OK, Some frame, s2)"
  shows "mppe_decompress [frame] r
    = (ERR_BUF, [Ccp_resetrequest], [frame], r\<lparr>ccount := (ccount r + 1) mod 4096, discard := True\<rparr>)"
proof -
  have b: "good_bits (mbits s1)" using s1 by (simp add: sender_at_def good_bits_def)
  have ne: "(ccount s1 + 1) mod 4096 \<noteq> (ccount r + 1) mod 4096"
    using mod_add_ne [OF n, of "ccount s + 1"] i s1 by (simp add: in_step_def sender_at_def mod_simps ac_simps)
  have bits: "(0x10 :: u8) AND MPPE_BIT_ENCRYPTED \<noteq> 0" "(0x90 :: u8) AND MPPE_BIT_ENCRYPTED \<noteq> 0"
    "(0x90 :: u8) AND MPPE_BIT_FLUSHED \<noteq> 0" by (simp_all add: mppe_consts)
  show ?thesis
    using compress_header [OF c b] s1 i ne bits
    by (auto simp: mppe_decompress_def stateful_check_def Let_def sender_at_def in_step_def MPPE_CCOUNT_SPACE_def MPPE_OVHD_def)
qed

lemma resume_after_reset:
  assumes i: "in_step s r" and s2: "sender_at s k s2" and k: "k \<le> 3840"
    and r1: "r1 = r\<lparr>ccount := (ccount r + 1) mod 4096, discard := True\<rparr>"
  shows "\<exists>frame s3 r2. mppe_compress True ERR_OK packet protocol (mppe_comp_reset s2) = (ERR_OK, Some frame, s3)
    \<and> mppe_decompress [frame] r1 = (ERR_OK, [], [plain_frame protocol packet], r2) \<and> in_step s3 r2"
proof -
  let ?c = "ccount s" and ?t = "(ccount s2 + 1) mod 4096"
  let ?F = "flag_count ?c k"
  have sr: "same_key s r" "ccount s = ccount r" "stateful r" using i by (auto simp: in_step_def)
  have b2: "mbits (mppe_comp_reset s2) = 0x90" using s2 by (simp add: mppe_comp_reset_def sender_at_def mppe_consts)
  obtain frame s3 where c: "mppe_compress True ERR_OK packet protocol (mppe_comp_reset s2) = (ERR_OK, Some frame, s3)"
    using compress_ok by blast
  have h: "MPPE_CCOUNT frame = ?t" "MPPE_BITS frame = 0x90" "2 \<le> length frame"
    using compress_header [OF c] b2 by (auto simp: good_bits_def mppe_comp_reset_def mppe_consts)
  have "(?c + 1 + k) div 256 \<le> (?c + 1 + 3840) div 256" by (rule div_le_mono) (use k in simp)
  then have F: "?F < 16" by (simp add: flag_count_def)
  have tdiv: "?t div 256 = (ccount r1 div 256 + ?F) mod 16"
  proof -
    have m: "x mod 4096 div 256 = x div 256 mod 16" for x :: nat
      by (simp add: mod_mult2_eq [of _ 256 16, simplified])
    have "(?c + 1) div 256 \<le> (?c + 1 + k) div 256" by (rule div_le_mono) simp
    then have "(?c + 1 + k) div 256 = (?c + 1) div 256 + ?F" by (simp add: flag_count_def)
    moreover have "?t = (?c + 1 + k) mod 4096" using s2 by (simp add: sender_at_def mod_simps)
    ultimately show ?thesis using sr(2) by (simp add: r1 m mod_simps)
  qed
  have loop: "rekey_flags ?t r1 = (rekeys ?F r1)\<lparr>ccount := (ccount r1 + 256 * ?F) mod 4096\<rparr>"
    using F tdiv by (intro rekey_flags_steps) (simp_all add: r1)
  let ?k = "mppe_rekey False (rekeys ?F r1)"
  have key: "same_key (mppe_rekey False s2) ?k" "marc4 (mppe_rekey False s2) = marc4 ?k"
  proof -
    have "same_key s r1" using sr(1) by (simp add: r1 same_key_def)
    then have "same_key s2 (rekeys ?F r1)"
      using s2 rekeys_same same_key_trans by (meson sender_at_def)
    then show "same_key (mppe_rekey False s2) ?k" "marc4 (mppe_rekey False s2) = marc4 ?k"
      by (rule rekey_same)+
  qed
  have bits: "(0x90 :: u8) AND MPPE_BIT_ENCRYPTED \<noteq> 0" "(0x90 :: u8) AND MPPE_BIT_FLUSHED \<noteq> 0" by (simp_all add: mppe_consts)
  have reset: "mppe_comp_reset s2 = s2\<lparr>mbits := 0x90\<rparr>" using b2 by (simp add: mppe_comp_reset_def)
  have st: "\<not> stateful (s2\<lparr>mbits := 0x90\<rparr>) \<or> mbits (s2\<lparr>mbits := 0x90\<rparr>) AND MPPE_BIT_FLUSHED \<noteq> 0"
    "good_bits (mbits (s2\<lparr>mbits := 0x90\<rparr>))" using bits by (simp_all add: good_bits_def)
  obtain arc out where f: "frame = (of_nat (ccount s3 div 256) OR 0x90) # of_nat (ccount s3) # out"
    and a: "arc4_crypt (marc4 (mppe_rekey False s2)) (plain_frame protocol packet) = (arc, out)"
    and s3: "s3 = (mppe_rekey False s2)\<lparr>ccount := ?t, mbits := 0x10, marc4 := arc\<rparr>"
    by (rule compress_rekeyed [OF st, of packet protocol]) (use c reset in auto)
  have dec: "arc4_crypt (marc4 ?k) out = (arc, plain_frame protocol packet)"
    using arc4_crypt_involution [of "marc4 (mppe_rekey False s2)" "plain_frame protocol packet"] a key(2) by simp
  let ?r2 = "?k\<lparr>discard := False, ccount := ?t, marc4 := arc, sanity_errors := drop_bit 1 (sanity_errors r)\<rparr>"
  have disc: "mppe_rekey False (x\<lparr>discard := d\<rparr>) = (mppe_rekey False x)\<lparr>discard := d\<rparr>" for x d
    by (simp add: mppe_rekey_def mppe_digest_def Let_def)
  have "mppe_decompress [frame] r1 = (ERR_OK, [], [plain_frame protocol packet], ?r2)"
    using h bits loop dec sr(3) f disc
    by (simp add: mppe_decompress_def stateful_check_def decrypt_def Let_def MPPE_OVHD_def r1)
  moreover have "in_step s3 ?r2"
    using key(1) s3 s2 sr(3) r1
    by (simp add: in_step_def same_key_def good_bits_def sender_at_def)
  ultimately show ?thesis using c by blast
qed

text \<open>C16: an encrypted link in stateful mode recovers from loss: when the ends are in step, the sender has no key flush pending,
  and at least one and fewer than 3840 packets in a row are lost (the coherency count has 4096 values), the next packet that
  arrives is refused and makes the receiver send exactly one CCP Reset-Request; once the sender has seen it, its next packet is
  decrypted correctly, with the key changes of all missed flag packets made up for, and both ends are in step again.\<close>

theorem mppe_stateful_recovers:
  assumes "in_step s r" and "mbits s = MPPE_BIT_ENCRYPTED" and "lost \<noteq> []" and "length lost < 3840"
    and "mppe_compress True ERR_OK p1 q1 (mppe_lost lost s) = (ERR_OK, Some f1, s2)"
    and "mppe_decompress [f1] r = (e1, events1, out1, r1)"
  shows "e1 = ERR_BUF \<and> events1 = [Ccp_resetrequest] \<and>
    (\<exists>f2 s3 r2. mppe_compress True ERR_OK p2 q2 (mppe_comp_reset s2) = (ERR_OK, Some f2, s3)
       \<and> mppe_decompress [f2] r1 = (ERR_OK, [], [plain_frame q2 p2], r2) \<and> in_step s3 r2)"
proof -
  have "sender_at s 0 s"
    using assms(1,2) by (simp add: sender_at_def flag_count_def in_step_def same_key_def MPPE_BIT_ENCRYPTED_def)
  then have s1: "sender_at s (length lost) (mppe_lost lost s)" using sender_lost [of s 0 s lost] by simp
  have s2: "sender_at s (Suc (length lost)) s2"
    using sender_step [OF s1, of p1 q1] assms(5) by simp
  have d: "mppe_decompress [f1] r
      = (ERR_BUF, [Ccp_resetrequest], [f1], r\<lparr>ccount := (ccount r + 1) mod 4096, discard := True\<rparr>)"
    using detect_loss [OF assms(1) s1 _ _ assms(5)] assms(3,4) by simp
  then have r1: "r1 = r\<lparr>ccount := (ccount r + 1) mod 4096, discard := True\<rparr>" using assms(6) by simp
  show ?thesis
    using d assms(4,6) resume_after_reset [OF assms(1) s2 _ r1, of p2 q2] by simp
qed

theorem mppe_stateful_recovers_witness:
  "\<exists>s r f1 s2 out1 r1 f2 s3 r2.
     s = fst (mppe_init 6 (mppe_set_key (replicate 16 7) blank_mppe)) \<and> r = s
     \<and> mppe_compress True ERR_OK [8] 0x21 (mppe_lost [(0x21, [1, 2])] s) = (ERR_OK, Some f1, s2)
     \<and> mppe_decompress [f1] r = (ERR_BUF, [Ccp_resetrequest], out1, r1)
     \<and> mppe_compress True ERR_OK [9] 0x21 (mppe_comp_reset s2) = (ERR_OK, Some f2, s3)
     \<and> mppe_decompress [f2] r1 = (ERR_OK, [], [[0, 0x21, 9]], r2)"
proof -
  let ?s = "fst (mppe_init 6 (mppe_set_key (replicate 16 7) blank_mppe))"
  have o: "(6 :: u8) AND MPPE_OPT_128 \<noteq> 0 \<or> (6 :: u8) AND MPPE_OPT_40 \<noteq> 0" "(6 :: u8) AND MPPE_OPT_STATEFUL \<noteq> 0"
    by (simp_all add: MPPE_OPT_128_def MPPE_OPT_STATEFUL_def)
  have i: "in_step ?s ?s" "mbits ?s = MPPE_BIT_ENCRYPTED"
    using o init_fields [OF o(1)]
    by (simp_all add: in_step_def same_key_def good_bits_def mppe_set_key_def blank_mppe_def MPPE_BIT_ENCRYPTED_def)
  obtain f1 s2 where c: "mppe_compress True ERR_OK [8] 0x21 (mppe_lost [(0x21, [1, 2])] ?s) = (ERR_OK, Some f1, s2)"
    using compress_ok by blast
  obtain e1 ev1 out1 r1 where d: "mppe_decompress [f1] ?s = (e1, ev1, out1, r1)" by (metis prod.exhaust)
  from mppe_stateful_recovers [OF i _ _ c d, of "[9]" "0x21"] show ?thesis
    using c d by (fastforce simp: plain_frame_def)
qed

text \<open>in stateful mode a link without losses decrypts every packet to what was sent, however often the peer
  asks the sender to flush its key and across every flag packet.\<close>

theorem mppe_stateful_roundtrip:
  assumes "\<not> discard r0"
    and "opts AND MPPE_OPT_128 \<noteq> 0 \<or> opts AND MPPE_OPT_40 \<noteq> 0" and "opts AND MPPE_OPT_STATEFUL \<noteq> 0"
  shows "mppe_session ps (fst (mppe_init opts (mppe_set_key key s0))) (fst (mppe_init opts (mppe_set_key key r0)))
    = map (\<lambda>(_, protocol, packet). (ERR_OK, plain_frame protocol packet)) ps"
proof -
  have "in_step (fst (mppe_init opts (mppe_set_key key s0))) (fst (mppe_init opts (mppe_set_key key r0)))"
    using assms init_same [OF assms(2)] init_fields [OF assms(2)]
    by (simp add: in_step_def good_bits_def mppe_set_key_def)
  then show ?thesis by (rule mppe_session_in_step)
qed

theorem mppe_stateful_roundtrip_witness:
  "mppe_session [(False, 0x21, [1, 2, 3]), (True, 0x21, [5, 6])]
     (fst (mppe_init 6 (mppe_set_key (replicate 16 7) blank_mppe)))
     (fst (mppe_init 6 (mppe_set_key (replicate 16 7) blank_mppe)))
   = [(ERR_OK, [0, 0x21, 1, 2, 3]), (ERR_OK, [0, 0x21, 5, 6])]"
  using mppe_stateful_roundtrip [of blank_mppe 6 "[(False, 0x21, [1, 2, 3]), (True, 0x21, [5, 6])]" "replicate 16 7" blank_mppe]
  by (simp add: blank_mppe_def MPPE_OPT_128_def MPPE_OPT_STATEFUL_def plain_frame_def)

section \<open>Late and malformed packets\<close>

text \<open>In stateless mode a late packet is not discarded although the code sets out to: an encrypted frame with the flush bit
  whose count is below the receiver's, by however little, is accepted, because the remainder of the negative difference is
  negative in C and so never above half of the count space; if it is \<open>k\<close> counts behind, the receiver changes its key
  \<open>4096 - k\<close> times and sets its count back to that of the frame.\<close>

theorem mppe_late_packet_accepted:
  assumes "\<not> stateful r" and "ccount r < 4096" and "2 \<le> length frame"
    and "MPPE_BITS frame AND MPPE_BIT_ENCRYPTED \<noteq> 0" and "MPPE_BITS frame AND MPPE_BIT_FLUSHED \<noteq> 0"
    and "MPPE_CCOUNT frame < ccount r"
    and "mppe_decompress [frame] r = (e, events, out, r')"
  shows "e = ERR_OK \<and> events = [] \<and> ccount r' = MPPE_CCOUNT frame
    \<and> session_key r' = session_key (rekeys (4096 - (ccount r - MPPE_CCOUNT frame)) r)"
proof -
  let ?t = "MPPE_CCOUNT frame"
  let ?n = "4096 - (ccount r - ?t)"
  have "ccount r + ?n = 4096 + ?t" using assms(2,6) by linarith
  then have "?t = (ccount r + ?n) mod 4096" using assms(2,6) by simp
  then have until: "rekey_until ?t r = (rekeys ?n r)\<lparr>ccount := ?t\<rparr>"
    using assms(2,6) by (intro rekey_until_steps) auto
  have "\<not> c_rem (int ?t - int (ccount r)) 4096 > 2048"
    using assms(6) by (simp add: c_rem_def)
  then show ?thesis
    using assms until
    by (auto simp: mppe_decompress_def decrypt_def Let_def MPPE_CCOUNT_SPACE_def MPPE_OVHD_def split: prod.splits)
qed

theorem mppe_late_packet_accepted_witness:
  "\<exists>out r'. mppe_decompress [[0x90, 5, 0xAA]] (blank_mppe\<lparr>ccount := 10\<rparr>) = (ERR_OK, [], out, r')
     \<and> ccount r' = 5 \<and> session_key r' = session_key (rekeys 4091 (blank_mppe\<lparr>ccount := 10\<rparr>))"
proof -
  obtain e events out r' where d: "mppe_decompress [[0x90, 5, 0xAA]] (blank_mppe\<lparr>ccount := 10\<rparr>) = (e, events, out, r')"
    by (metis prod.exhaust)
  have "MPPE_CCOUNT [0x90, 5, 0xAA] = 5" by (simp add: MPPE_CCOUNT_def)
  then show ?thesis
    using mppe_late_packet_accepted [OF _ _ _ _ _ _ d] d by (simp add: blank_mppe_def MPPE_BITS_def mppe_consts)
qed

text \<open>only encrypted traffic passes: a frame that is too short, lacks the encryption bit or, in stateless mode,
  lacks the flush bit is refused with every key untouched, and a sequence of such frames makes the receiver
  close the link exactly when the error count reaches 1600, that is from the sixteenth frame on.\<close>

theorem mppe_refuses_plain_frames:
  assumes "list_all (bogus r) pbs" and "unat (sanity_errors r) + 100 * length pbs < 65536"
  shows "snd (mppe_frames pbs r) = r\<lparr>sanity_errors := sanity_errors r + of_nat (100 * length pbs)\<rparr>
    \<and> (Lcp_close ''Too many MPPE errors'' \<in> set (fst (mppe_frames pbs r))
        \<longleftrightarrow> pbs \<noteq> [] \<and> 1600 \<le> unat (sanity_errors r) + 100 * length pbs)"
  using assms
proof (induction pbs arbitrary: r)
  case (Cons pb pbs)
  let ?r = "r\<lparr>sanity_errors := sanity_errors r + 100\<rparr>"
  have b: "bogus ?r = bogus r" by (simp add: bogus_def fun_eq_iff)
  have d: "mppe_decompress pb r = (ERR_BUF, sanity_error ?r, pb, ?r)"
    using Cons.prems(1) by (auto simp: bogus_def mppe_decompress_def MPPE_OVHD_def Let_def bogon_def)
  have u: "unat (sanity_errors r + 100) = unat (sanity_errors r) + 100"
    using Cons.prems(2) by (simp add: unat_word_ariths)
  then have ev: "Lcp_close ''Too many MPPE errors'' \<in> set (sanity_error ?r) \<longleftrightarrow> 1600 \<le> unat (sanity_errors r) + 100"
    by (simp add: sanity_error_def SANITY_MAX_def word_le_nat_alt)
  have "list_all (bogus ?r) pbs" "unat (sanity_errors ?r) + 100 * length pbs < 65536"
    using Cons.prems b u by simp_all
  from Cons.IH [OF this] show ?case
    using d ev u by (auto simp: split_beta algebra_simps)
qed simp

theorem mppe_refuses_plain_frames_witness:
  "Lcp_close ''Too many MPPE errors'' \<in> set (fst (mppe_frames (replicate 16 [[0, 0, 0x21]]) blank_mppe))
   \<and> Lcp_close ''Too many MPPE errors'' \<notin> set (fst (mppe_frames (replicate 15 [[0, 0, 0x21]]) blank_mppe))"
  using mppe_refuses_plain_frames [of blank_mppe "replicate 16 [[0, 0, 0x21]]"]
    mppe_refuses_plain_frames [of blank_mppe "replicate 15 [[0, 0, 0x21]]"]
  by (simp add: blank_mppe_def bogus_def MPPE_BITS_def list_all_iff)

section \<open>The invariant of a direction\<close>

lemma rekey_ok:
  assumes "length (master_key st) = 16" "length (session_key st) = 16" "keylen st = 8 \<or> keylen st = 16" "c < 4096"
  shows "mppe_ok ((mppe_rekey i st)\<lparr>ccount := c\<rparr>)"
proof -
  have t: "take 3 (k[0 := x, 1 := y, 2 := z]) = [x, y, z]" if "length k = 16" for k :: octets and x y z
    using that by (simp add: take_Suc_conv_app_nth numeral_3_eq_3 numeral_2_eq_2)
  show ?thesis using assms t by (auto simp: mppe_ok_def mppe_rekey_def Let_def arc4_setup_ok)
qed

lemma mppe_ok_rekey: "mppe_ok st \<Longrightarrow> mppe_ok (mppe_rekey i st)"
  using rekey_ok [of st "ccount st" i] by (simp add: mppe_ok_def)

lemma mppe_ok_update [simp]:
  "mppe_ok (st\<lparr>mbits := b\<rparr>) = mppe_ok st" "mppe_ok (st\<lparr>sanity_errors := n\<rparr>) = mppe_ok st"
  "mppe_ok (st\<lparr>discard := d\<rparr>) = mppe_ok st"
  by (simp_all add: mppe_ok_def)

lemma mppe_ok_ccount: "mppe_ok st \<Longrightarrow> c < 4096 \<Longrightarrow> mppe_ok (st\<lparr>ccount := c\<rparr>)"
  and mppe_ok_arc4: "mppe_ok st \<Longrightarrow> arc4_ok a \<Longrightarrow> mppe_ok (st\<lparr>marc4 := a\<rparr>)"
  by (simp_all add: mppe_ok_def)

lemma rekey_until_ok: "mppe_ok st \<Longrightarrow> mppe_ok (rekey_until t st)"
proof (induction t st rule: rekey_until.induct)
  case (1 t st)
  have "mppe_ok ((mppe_rekey False st)\<lparr>ccount := (ccount st + 1) mod MPPE_CCOUNT_SPACE\<rparr>)"
    using 1(2) by (intro mppe_ok_ccount mppe_ok_rekey) (simp_all add: MPPE_CCOUNT_SPACE_def)
  then show ?case using 1 by (subst rekey_until.simps) simp
qed

lemma rekey_flags_ok: "mppe_ok st \<Longrightarrow> mppe_ok (rekey_flags t st)"
proof (induction t st rule: rekey_flags.induct)
  case (1 t st)
  have "mppe_ok ((mppe_rekey False st)\<lparr>ccount := (ccount st + 256) mod MPPE_CCOUNT_SPACE\<rparr>)"
    using 1(2) by (intro mppe_ok_ccount mppe_ok_rekey) (simp_all add: MPPE_CCOUNT_SPACE_def)
  then show ?case using 1 by (subst rekey_flags.simps) simp
qed

lemma crypt_chain_ok: "arc4_ok ctx \<Longrightarrow> arc4_ok (fst (crypt_chain ctx segs))"
  by (induction segs arbitrary: ctx) (auto simp: split_beta Let_def intro: arc4_crypt_ok)

lemma decrypt_ok: "mppe_ok st \<Longrightarrow> mppe_ok (snd (snd (snd (decrypt pb st))))"
proof -
  assume ok: "mppe_ok st"
  then have "arc4_ok (fst (crypt_chain (marc4 st) (drop MPPE_OVHD (hd pb) # tl pb)))"
    by (intro crypt_chain_ok) (simp add: mppe_ok_def)
  from mppe_ok_arc4 [OF ok this] show ?thesis
    by (simp add: decrypt_def Let_def split_beta del: crypt_chain.simps)
qed

lemma MPPE_CCOUNT_less: "MPPE_CCOUNT p < 4096"
proof -
  have "(0x0f :: u8) = mask 4" by (simp add: mask_eq_exp_minus_1)
  then have "p ! 0 AND 0x0f = take_bit 4 (p ! 0)" by (simp add: take_bit_eq_mask)
  then have "p ! 0 AND 0x0f = p ! 0 mod 16" by (simp add: take_bit_eq_mod)
  then have "unat (p ! 0 AND 0x0f) < 16" by (simp add: unat_mod_distrib)
  then show ?thesis using unsigned_less [of "p ! 1", where ?'a = nat] by (simp add: MPPE_CCOUNT_def)
qed

lemma mppe_do_ok: "mppe_ok st \<Longrightarrow> mppe_ok (mppe_do m st)"
proof (induction m st rule: mppe_do.induct)
  case (1 alloc copied packet protocol st)
  have "arc4_ok (marc4 x)" if "mppe_ok x" for x using that by (simp add: mppe_ok_def)
  then show ?case
    using 1 by (auto simp: mppe_compress_def Let_def split_beta MPPE_CCOUNT_SPACE_def
        intro!: mppe_ok_arc4 mppe_ok_rekey mppe_ok_ccount arc4_crypt_ok arc4_octet_ok)
next
  case (2 pb st)
  have "mppe_ok (fst (stateful_check cc fl st))" if "cc < 4096" for cc fl
    using 2 that by (auto simp: stateful_check_def Let_def MPPE_CCOUNT_SPACE_def intro!: mppe_ok_ccount rekey_flags_ok)
  then have "mppe_ok st1" if "stateful_check (MPPE_CCOUNT (hd pb)) fl st = (st1, x)" for fl st1 x
    using that MPPE_CCOUNT_less by (metis fst_conv)
  then show ?case
    using 2 by (auto simp: mppe_decompress_def bogon_def Let_def split: prod.splits option.splits
        intro!: decrypt_ok rekey_until_ok mppe_ok_rekey)
qed (simp_all add: mppe_comp_reset_def mppe_decomp_reset_def)

text \<open>one direction of the encryption layer never leaves its bounds: after a successful initialisation with
  any 16-octet key, and after any sequence of packets sent, frames received (well-formed or not) and
  resets, keys have 16 octets, the coherency count has 12 bits, the cipher table is a permutation, and with
  40-bit keys the first three key octets are the fixed salt of RFC 3078.\<close>

theorem mppe_state_invariant:
  assumes "length key = 16"
    and "opts AND MPPE_OPT_128 \<noteq> 0 \<or> opts AND MPPE_OPT_40 \<noteq> 0"
  shows "mppe_ok (fold mppe_do ms (fst (mppe_init opts (mppe_set_key key st0))))"
proof -
  have "mppe_ok (fst (mppe_init opts (mppe_set_key key st0)))"
    using assms by (auto simp: mppe_init_def mppe_set_key_def Let_def MPPE_MAX_KEY_LEN_def MPPE_CCOUNT_SPACE_def
        intro!: rekey_ok)
  then show ?thesis by (induction ms rule: rev_induct) (simp_all add: mppe_do_ok)
qed

theorem mppe_state_invariant_witness:
  "mppe_ok (fold mppe_do [Compress True ERR_OK [1, 2] 0x21, Decompress [[0]], Comp_reset, Decompress [[0x90, 3], [7]]]
     (fst (mppe_init MPPE_OPT_40 (mppe_set_key (replicate 16 7) blank_mppe))))"
  by (rule mppe_state_invariant) (simp_all add: MPPE_OPT_40_def)

end
