(* ===== verification/Ppp_Fsm.thy ===== *)
theory Ppp_Fsm
  imports Prelude
begin

text \<open>
  The negotiation automaton shared by LCP, IPCP and CCP
  (\<open>src/lwip/src/netif/ppp/fsm.c\<close>). The \<open>fsm\<close> structure is a record with its counters at their
  C width. A protocol extends the record with its own state, and its table of callbacks is a record of functions on
  the extended state, so every operation threads what the callbacks do. The calls to \<open>up\<close>, \<open>down\<close>, \<open>starting\<close>,
  \<open>finished\<close>, \<open>resetci\<close> and \<open>retransmit\<close> and the packets written are recorded in a trace; whether a
  buffer could be allocated is a field of the environment. \<open>f_timers\<close> counts the pending \<open>fsm_timeout\<close> entries of the
  timer queue. The interface between automaton and protocol is the locale \<open>fsm_client\<close>: a callback leaves
  the fields of the automaton alone. A callback that calls the same automaton again appears as a further operation
  after the one that made the call.
\<close>

section \<open>Data\<close>

datatype ppp_state =
  PPP_FSM_INITIAL | PPP_FSM_STARTING | PPP_FSM_CLOSED | PPP_FSM_STOPPED | PPP_FSM_CLOSING
| PPP_FSM_STOPPING | PPP_FSM_REQSENT | PPP_FSM_ACKRCVD | PPP_FSM_ACKSENT | PPP_FSM_OPENED

datatype fsm_event =
  Up | Down | Starting | Finished | Resetci | Retransmit | Send octets

record fsm =
  f_state :: ppp_state
  f_flags :: u8
  f_id :: u8
  f_reqid :: u8
  f_retransmits :: u8
  f_nakloops :: u8
  f_rnakloops :: u8
  f_maxnakloops :: u8
  f_seen_ack :: bool
  f_protocol :: u16
  f_term_reason :: "octets option"
  f_term_reason_len :: u8
  f_timers :: nat
  f_trace :: "fsm_event list"

text \<open>
  The settings an automaton reads and its table of callbacks. \<open>'f\<close> is the state a callback works on: the
  automaton together with whatever the protocol keeps beside it.
\<close>

record 'f fsm_env =
  max_conf_req_transmits :: u8
  max_term_transmits :: u8
  max_nak_loops :: u8
  peer_mru :: nat
  pbuf_ok :: bool
  cb_resetci :: "('f \<Rightarrow> 'f) option"
  cb_cilen :: "('f \<Rightarrow> nat \<times> 'f) option"
  cb_addci :: "('f \<Rightarrow> nat \<Rightarrow> octets \<times> 'f) option"
  cb_ackci :: "('f \<Rightarrow> octets \<Rightarrow> bool) option"
  cb_nakci :: "('f \<Rightarrow> octets \<Rightarrow> bool \<Rightarrow> int \<times> 'f) option"
  cb_rejci :: "('f \<Rightarrow> octets \<Rightarrow> int \<times> 'f) option"
  cb_reqci :: "('f \<Rightarrow> octets \<Rightarrow> bool \<Rightarrow> (u8 \<times> octets) \<times> 'f) option"
  cb_up :: "('f \<Rightarrow> 'f) option"
  cb_down :: "('f \<Rightarrow> 'f) option"
  cb_starting :: "('f \<Rightarrow> 'f) option"
  cb_finished :: "('f \<Rightarrow> 'f) option"
  cb_retransmit :: "('f \<Rightarrow> 'f) option"
  cb_extcode :: "('f \<Rightarrow> u8 \<Rightarrow> u8 \<Rightarrow> octets \<Rightarrow> bool \<times> 'f) option"

type_synonym 'c envir = "'c fsm_scheme fsm_env"

definition HEADERLEN :: nat where "HEADERLEN = 4"
definition CONFREQ :: u8 where "CONFREQ = 1"
definition CONFACK :: u8 where "CONFACK = 2"
definition CONFNAK :: u8 where "CONFNAK = 3"
definition CONFREJ :: u8 where "CONFREJ = 4"
definition TERMREQ :: u8 where "TERMREQ = 5"
definition TERMACK :: u8 where "TERMACK = 6"
definition CODEREJ :: u8 where "CODEREJ = 7"
definition OPT_PASSIVE :: u8 where "OPT_PASSIVE = 1"
definition OPT_RESTART :: u8 where "OPT_RESTART = 2"
definition OPT_SILENT :: u8 where "OPT_SILENT = 4"

lemmas fsm_codes = CONFREQ_def CONFACK_def CONFNAK_def CONFREJ_def TERMREQ_def TERMACK_def CODEREJ_def

definition has_flag :: "u8 \<Rightarrow> 'c fsm_scheme \<Rightarrow> bool" where
  "has_flag b f \<longleftrightarrow> f_flags f AND b \<noteq> 0"

section \<open>Trace and timers\<close>

definition note_event :: "fsm_event \<Rightarrow> 'c fsm_scheme \<Rightarrow> 'c fsm_scheme" where
  "note_event e f = f\<lparr>f_trace := f_trace f @ [e]\<rparr>"

definition call_back :: "('c fsm_scheme \<Rightarrow> 'c fsm_scheme) option \<Rightarrow> fsm_event \<Rightarrow> 'c fsm_scheme \<Rightarrow> 'c fsm_scheme" where
  "call_back cb e f = (case cb of None \<Rightarrow> f | Some g \<Rightarrow> g (note_event e f))"

definition TIMEOUT :: "'c fsm_scheme \<Rightarrow> 'c fsm_scheme" where
  "TIMEOUT f = f\<lparr>f_timers := Suc (f_timers f)\<rparr>"

definition UNTIMEOUT :: "'c fsm_scheme \<Rightarrow> 'c fsm_scheme" where
  "UNTIMEOUT f = f\<lparr>f_timers := f_timers f - 1\<rparr>"

definition goto :: "ppp_state \<Rightarrow> 'c fsm_scheme \<Rightarrow> 'c fsm_scheme" where
  "goto s f = f\<lparr>f_state := s\<rparr>"

section \<open>Sending\<close>

definition put_short :: "nat \<Rightarrow> octets" where
  "put_short n = [of_nat (n div 256), of_nat n]"

text \<open>A frame: address, control and protocol, then code, identifier and length.\<close>

definition cp_packet :: "u16 \<Rightarrow> u8 \<Rightarrow> u8 \<Rightarrow> octets \<Rightarrow> octets" where
  "cp_packet proto code i data =
     [0xff, 0x03] @ put_short (unat proto) @ [code, i] @ put_short (length data + HEADERLEN) @ data"

definition fsm_sdata :: "'c envir \<Rightarrow> u8 \<Rightarrow> u8 \<Rightarrow> octets \<Rightarrow> 'c fsm_scheme \<Rightarrow> 'c fsm_scheme" where
  "fsm_sdata env code i data f =
     (let datalen = min (length data) (peer_mru env - HEADERLEN)
      in if \<not> pbuf_ok env then f
         else note_event (Send (cp_packet (f_protocol f) code i (take datalen data))) f)"

definition negotiating :: "ppp_state \<Rightarrow> bool" where
  "negotiating s \<longleftrightarrow> s = PPP_FSM_REQSENT \<or> s = PPP_FSM_ACKRCVD \<or> s = PPP_FSM_ACKSENT"

definition own_cilen :: "'c envir \<Rightarrow> 'c fsm_scheme \<Rightarrow> nat \<times> 'c fsm_scheme" where
  "own_cilen env f =
     (case (cb_cilen env, cb_addci env) of
        (Some cilen, Some addci) \<Rightarrow> (let (n, f1) = cilen f in (min n (peer_mru env - HEADERLEN), f1))
      | _ \<Rightarrow> (0, f))"

definition own_ci :: "'c envir \<Rightarrow> nat \<Rightarrow> 'c fsm_scheme \<Rightarrow> octets \<times> 'c fsm_scheme" where
  "own_ci env n f =
     (case cb_addci env of
        Some addci \<Rightarrow> if n \<noteq> 0 then addci f n else ([], f)
      | None \<Rightarrow> ([], f))"

definition fsm_sconfreq :: "'c envir \<Rightarrow> bool \<Rightarrow> 'c fsm_scheme \<Rightarrow> 'c fsm_scheme" where
  "fsm_sconfreq env retransmit f =
     (let f1 = (if \<not> negotiating (f_state f)
                then (call_back (cb_resetci env) Resetci f)\<lparr>f_nakloops := 0, f_rnakloops := 0\<rparr> else f);
          f2 = (if \<not> retransmit
                then f1\<lparr>f_retransmits := max_conf_req_transmits env, f_id := f_id f1 + 1, f_reqid := f_id f1 + 1\<rparr>
                else f1);
          (n, f3) = own_cilen env (f2\<lparr>f_seen_ack := False\<rparr>)
      in if \<not> pbuf_ok env then f3
         else (let (ci, f4) = own_ci env n f3;
                   f5 = note_event (Send (cp_packet (f_protocol f4) CONFREQ (f_reqid f4) (take n ci))) f4
               in TIMEOUT (f5\<lparr>f_retransmits := f_retransmits f5 - 1\<rparr>)))"

section \<open>Events from the link and from the user\<close>

definition fsm_init :: "'c envir \<Rightarrow> 'c fsm_scheme \<Rightarrow> 'c fsm_scheme" where
  "fsm_init env f =
     f\<lparr>f_state := PPP_FSM_INITIAL, f_flags := 0, f_id := 0, f_maxnakloops := max_nak_loops env,
       f_term_reason_len := 0\<rparr>"

definition fsm_lowerup :: "'c envir \<Rightarrow> 'c fsm_scheme \<Rightarrow> 'c fsm_scheme" where
  "fsm_lowerup env f =
     (case f_state f of
        PPP_FSM_INITIAL \<Rightarrow> goto PPP_FSM_CLOSED f
      | PPP_FSM_STARTING \<Rightarrow>
          if has_flag OPT_SILENT f then goto PPP_FSM_STOPPED f
          else goto PPP_FSM_REQSENT (fsm_sconfreq env False f)
      | _ \<Rightarrow> f)"

definition fsm_lowerdown :: "'c envir \<Rightarrow> 'c fsm_scheme \<Rightarrow> 'c fsm_scheme" where
  "fsm_lowerdown env f =
     (case f_state f of
        PPP_FSM_CLOSED \<Rightarrow> goto PPP_FSM_INITIAL f
      | PPP_FSM_STOPPED \<Rightarrow> call_back (cb_starting env) Starting (goto PPP_FSM_STARTING f)
      | PPP_FSM_CLOSING \<Rightarrow> UNTIMEOUT (goto PPP_FSM_INITIAL f)
      | PPP_FSM_STOPPING \<Rightarrow> UNTIMEOUT (goto PPP_FSM_STARTING f)
      | PPP_FSM_REQSENT \<Rightarrow> UNTIMEOUT (goto PPP_FSM_STARTING f)
      | PPP_FSM_ACKRCVD \<Rightarrow> UNTIMEOUT (goto PPP_FSM_STARTING f)
      | PPP_FSM_ACKSENT \<Rightarrow> UNTIMEOUT (goto PPP_FSM_STARTING f)
      | PPP_FSM_OPENED \<Rightarrow> goto PPP_FSM_STARTING (call_back (cb_down env) Down f)
      | _ \<Rightarrow> f)"

definition fsm_restart :: "'c envir \<Rightarrow> 'c fsm_scheme \<Rightarrow> 'c fsm_scheme" where
  "fsm_restart env f =
     (if has_flag OPT_RESTART f then fsm_lowerup env (fsm_lowerdown env f) else f)"

definition fsm_open :: "'c envir \<Rightarrow> 'c fsm_scheme \<Rightarrow> 'c fsm_scheme" where
  "fsm_open env f =
     (case f_state f of
        PPP_FSM_INITIAL \<Rightarrow> call_back (cb_starting env) Starting (goto PPP_FSM_STARTING f)
      | PPP_FSM_CLOSED \<Rightarrow>
          if has_flag OPT_SILENT f then goto PPP_FSM_STOPPED f
          else goto PPP_FSM_REQSENT (fsm_sconfreq env False f)
      | PPP_FSM_CLOSING \<Rightarrow> fsm_restart env (goto PPP_FSM_STOPPING f)
      | PPP_FSM_STOPPED \<Rightarrow> fsm_restart env f
      | PPP_FSM_OPENED \<Rightarrow> fsm_restart env f
      | _ \<Rightarrow> f)"

definition next_id :: "'c fsm_scheme \<Rightarrow> 'c fsm_scheme" where
  "next_id f = f\<lparr>f_id := f_id f + 1, f_reqid := f_id f + 1\<rparr>"

definition term_data :: "'c fsm_scheme \<Rightarrow> octets" where
  "term_data f = (case f_term_reason f of None \<Rightarrow> [] | Some r \<Rightarrow> take (unat (f_term_reason_len f)) r)"

definition send_termreq :: "'c envir \<Rightarrow> 'c fsm_scheme \<Rightarrow> 'c fsm_scheme" where
  "send_termreq env f = (let f1 = next_id f in fsm_sdata env TERMREQ (f_reqid f1) (term_data f1) f1)"

definition terminate_layer :: "'c envir \<Rightarrow> ppp_state \<Rightarrow> 'c fsm_scheme \<Rightarrow> 'c fsm_scheme" where
  "terminate_layer env nextstate f =
     (let f1 = (if f_state f \<noteq> PPP_FSM_OPENED then UNTIMEOUT f else call_back (cb_down env) Down f);
          f2 = send_termreq env (f1\<lparr>f_retransmits := max_term_transmits env\<rparr>)
      in if f_retransmits f2 = 0
         then call_back (cb_finished env) Finished
                (goto (if nextstate = PPP_FSM_CLOSING then PPP_FSM_CLOSED else PPP_FSM_STOPPED) f2)
         else (let f3 = TIMEOUT f2
               in goto nextstate (f3\<lparr>f_retransmits := f_retransmits f3 - 1\<rparr>)))"

definition fsm_close :: "'c envir \<Rightarrow> octets option \<Rightarrow> 'c fsm_scheme \<Rightarrow> 'c fsm_scheme" where
  "fsm_close env reason f =
     (let f1 = f\<lparr>f_term_reason := reason,
                 f_term_reason_len := (case reason of None \<Rightarrow> 0 | Some r \<Rightarrow> of_nat (min (length r) 255))\<rparr>
      in case f_state f1 of
           PPP_FSM_STARTING \<Rightarrow> goto PPP_FSM_INITIAL f1
         | PPP_FSM_STOPPED \<Rightarrow> goto PPP_FSM_CLOSED f1
         | PPP_FSM_STOPPING \<Rightarrow> goto PPP_FSM_CLOSING f1
         | PPP_FSM_REQSENT \<Rightarrow> terminate_layer env PPP_FSM_CLOSING f1
         | PPP_FSM_ACKRCVD \<Rightarrow> terminate_layer env PPP_FSM_CLOSING f1
         | PPP_FSM_ACKSENT \<Rightarrow> terminate_layer env PPP_FSM_CLOSING f1
         | PPP_FSM_OPENED \<Rightarrow> terminate_layer env PPP_FSM_CLOSING f1
         | _ \<Rightarrow> f1)"

section \<open>The timer\<close>

definition fsm_timeout :: "'c envir \<Rightarrow> 'c fsm_scheme \<Rightarrow> 'c fsm_scheme" where
  "fsm_timeout env f =
     (if f_state f = PPP_FSM_CLOSING \<or> f_state f = PPP_FSM_STOPPING then
        (if f_retransmits f = 0
         then call_back (cb_finished env) Finished
                (goto (if f_state f = PPP_FSM_CLOSING then PPP_FSM_CLOSED else PPP_FSM_STOPPED) f)
         else (let f1 = TIMEOUT (send_termreq env f) in f1\<lparr>f_retransmits := f_retransmits f1 - 1\<rparr>))
      else if negotiating (f_state f) then
        (if f_retransmits f = 0
         then call_back (if has_flag OPT_PASSIVE f then None else cb_finished env) Finished (goto PPP_FSM_STOPPED f)
         else (let f1 = fsm_sconfreq env True (call_back (cb_retransmit env) Retransmit f)
               in if f_state f1 = PPP_FSM_ACKRCVD then goto PPP_FSM_REQSENT f1 else f1))
      else f)"

section \<open>Packets from the peer\<close>

definition reqci_answer :: "'c envir \<Rightarrow> octets \<Rightarrow> 'c fsm_scheme \<Rightarrow> (u8 \<times> octets) \<times> 'c fsm_scheme" where
  "reqci_answer env inp f =
     (case cb_reqci env of
        Some reqci \<Rightarrow> reqci f inp (f_nakloops f \<ge> f_maxnakloops f)
      | None \<Rightarrow> ((if inp \<noteq> [] then CONFREJ else CONFACK, inp), f))"

text \<open>The second half of \<open>fsm_rconfreq\<close>: check the options, answer, and move on.\<close>

definition answer_confreq :: "'c envir \<Rightarrow> u8 \<Rightarrow> octets \<Rightarrow> 'c fsm_scheme \<Rightarrow> 'c fsm_scheme" where
  "answer_confreq env i inp f =
     (let ((code, out), f0) = reqci_answer env inp f;
          f1 = fsm_sdata env code i out f0
      in if code = CONFACK then
           (if f_state f1 = PPP_FSM_ACKRCVD
            then (call_back (cb_up env) Up (goto PPP_FSM_OPENED (UNTIMEOUT f1)))\<lparr>f_nakloops := 0\<rparr>
            else (goto PPP_FSM_ACKSENT f1)\<lparr>f_nakloops := 0\<rparr>)
         else (let f2 = (if f_state f1 \<noteq> PPP_FSM_ACKRCVD then goto PPP_FSM_REQSENT f1 else f1)
               in if code = CONFNAK then f2\<lparr>f_nakloops := f_nakloops f2 + 1\<rparr> else f2))"

text \<open>The first half: a request that reopens the negotiation makes the code send its own request first.\<close>

definition before_answer :: "'c envir \<Rightarrow> 'c fsm_scheme \<Rightarrow> 'c fsm_scheme" where
  "before_answer env f =
     (case f_state f of
        PPP_FSM_OPENED \<Rightarrow> goto PPP_FSM_REQSENT (fsm_sconfreq env False (call_back (cb_down env) Down f))
      | PPP_FSM_STOPPED \<Rightarrow> goto PPP_FSM_REQSENT (fsm_sconfreq env False f)
      | _ \<Rightarrow> f)"

definition fsm_rconfreq :: "'c envir \<Rightarrow> u8 \<Rightarrow> octets \<Rightarrow> 'c fsm_scheme \<Rightarrow> 'c fsm_scheme" where
  "fsm_rconfreq env i inp f =
     (if f_state f = PPP_FSM_CLOSED then fsm_sdata env TERMACK i [] f
      else if f_state f = PPP_FSM_CLOSING \<or> f_state f = PPP_FSM_STOPPING then f
      else answer_confreq env i inp (before_answer env f))"

definition ack_ok :: "'c envir \<Rightarrow> octets \<Rightarrow> 'c fsm_scheme \<Rightarrow> bool" where
  "ack_ok env inp f = (case cb_ackci env of Some ackci \<Rightarrow> ackci f inp | None \<Rightarrow> inp = [])"

definition fsm_rconfack :: "'c envir \<Rightarrow> u8 \<Rightarrow> octets \<Rightarrow> 'c fsm_scheme \<Rightarrow> 'c fsm_scheme" where
  "fsm_rconfack env i inp f =
     (if i \<noteq> f_reqid f \<or> f_seen_ack f then f
      else if \<not> ack_ok env inp f then f
      else (let f1 = f\<lparr>f_seen_ack := True, f_rnakloops := 0\<rparr>
            in case f_state f1 of
                 PPP_FSM_CLOSED \<Rightarrow> fsm_sdata env TERMACK i [] f1
               | PPP_FSM_STOPPED \<Rightarrow> fsm_sdata env TERMACK i [] f1
               | PPP_FSM_REQSENT \<Rightarrow> (goto PPP_FSM_ACKRCVD f1)\<lparr>f_retransmits := max_conf_req_transmits env\<rparr>
               | PPP_FSM_ACKRCVD \<Rightarrow> goto PPP_FSM_REQSENT (fsm_sconfreq env False (UNTIMEOUT f1))
               | PPP_FSM_ACKSENT \<Rightarrow>
                   call_back (cb_up env) Up
                     ((goto PPP_FSM_OPENED (UNTIMEOUT f1))\<lparr>f_retransmits := max_conf_req_transmits env\<rparr>)
               | PPP_FSM_OPENED \<Rightarrow>
                   goto PPP_FSM_REQSENT (fsm_sconfreq env False (call_back (cb_down env) Down f1))
               | _ \<Rightarrow> f1))"

text \<open>What the protocol makes of a Nak or Reject: 0 is a bad packet.\<close>

definition nakrej_result :: "'c envir \<Rightarrow> u8 \<Rightarrow> octets \<Rightarrow> 'c fsm_scheme \<Rightarrow> int \<times> 'c fsm_scheme" where
  "nakrej_result env code inp f =
     (if code = CONFNAK
      then (case cb_nakci env of None \<Rightarrow> (0, f) | Some nakci \<Rightarrow> nakci f inp (f_rnakloops f \<ge> f_maxnakloops f))
      else (case cb_rejci env of None \<Rightarrow> (0, f) | Some rejci \<Rightarrow> rejci f inp))"

definition count_nak :: "u8 \<Rightarrow> 'c fsm_scheme \<Rightarrow> 'c fsm_scheme" where
  "count_nak code f = f\<lparr>f_rnakloops := (if code = CONFNAK then f_rnakloops f + 1 else 0)\<rparr>"

definition fsm_rconfnakrej :: "'c envir \<Rightarrow> u8 \<Rightarrow> u8 \<Rightarrow> octets \<Rightarrow> 'c fsm_scheme \<Rightarrow> 'c fsm_scheme" where
  "fsm_rconfnakrej env code i inp f =
     (if i \<noteq> f_reqid f \<or> f_seen_ack f then f
      else (let (ret, f1) = nakrej_result env code inp (count_nak code f)
            in if ret = 0 then f1
               else (let f2 = f1\<lparr>f_seen_ack := True\<rparr>
                     in case f_state f2 of
                          PPP_FSM_CLOSED \<Rightarrow> fsm_sdata env TERMACK i [] f2
                        | PPP_FSM_STOPPED \<Rightarrow> fsm_sdata env TERMACK i [] f2
                        | PPP_FSM_REQSENT \<Rightarrow>
                            if ret < 0 then goto PPP_FSM_STOPPED (UNTIMEOUT f2)
                            else fsm_sconfreq env False (UNTIMEOUT f2)
                        | PPP_FSM_ACKSENT \<Rightarrow>
                            if ret < 0 then goto PPP_FSM_STOPPED (UNTIMEOUT f2)
                            else fsm_sconfreq env False (UNTIMEOUT f2)
                        | PPP_FSM_ACKRCVD \<Rightarrow> goto PPP_FSM_REQSENT (fsm_sconfreq env False (UNTIMEOUT f2))
                        | PPP_FSM_OPENED \<Rightarrow>
                            goto PPP_FSM_REQSENT (fsm_sconfreq env False (call_back (cb_down env) Down f2))
                        | _ \<Rightarrow> f2)))"

definition fsm_rtermreq :: "'c envir \<Rightarrow> u8 \<Rightarrow> 'c fsm_scheme \<Rightarrow> 'c fsm_scheme" where
  "fsm_rtermreq env i f =
     (let f1 = (case f_state f of
                  PPP_FSM_ACKRCVD \<Rightarrow> goto PPP_FSM_REQSENT f
                | PPP_FSM_ACKSENT \<Rightarrow> goto PPP_FSM_REQSENT f
                | PPP_FSM_OPENED \<Rightarrow>
                    TIMEOUT (call_back (cb_down env) Down (goto PPP_FSM_STOPPING (f\<lparr>f_retransmits := 0\<rparr>)))
                | _ \<Rightarrow> f)
      in fsm_sdata env TERMACK i [] f1)"

definition fsm_rtermack :: "'c envir \<Rightarrow> 'c fsm_scheme \<Rightarrow> 'c fsm_scheme" where
  "fsm_rtermack env f =
     (case f_state f of
        PPP_FSM_CLOSING \<Rightarrow> call_back (cb_finished env) Finished (goto PPP_FSM_CLOSED (UNTIMEOUT f))
      | PPP_FSM_STOPPING \<Rightarrow> call_back (cb_finished env) Finished (goto PPP_FSM_STOPPED (UNTIMEOUT f))
      | PPP_FSM_ACKRCVD \<Rightarrow> goto PPP_FSM_REQSENT f
      | PPP_FSM_OPENED \<Rightarrow>
          goto PPP_FSM_REQSENT (fsm_sconfreq env False (call_back (cb_down env) Down f))
      | _ \<Rightarrow> f)"

definition fsm_rcoderej :: "octets \<Rightarrow> 'c fsm_scheme \<Rightarrow> 'c fsm_scheme" where
  "fsm_rcoderej inp f =
     (if length inp < HEADERLEN then f
      else if f_state f = PPP_FSM_ACKRCVD then goto PPP_FSM_REQSENT f else f)"

definition fsm_protreject :: "'c envir \<Rightarrow> 'c fsm_scheme \<Rightarrow> 'c fsm_scheme" where
  "fsm_protreject env f =
     (case f_state f of
        PPP_FSM_CLOSING \<Rightarrow> call_back (cb_finished env) Finished (goto PPP_FSM_CLOSED (UNTIMEOUT f))
      | PPP_FSM_CLOSED \<Rightarrow> call_back (cb_finished env) Finished (goto PPP_FSM_CLOSED f)
      | PPP_FSM_STOPPING \<Rightarrow> call_back (cb_finished env) Finished (goto PPP_FSM_STOPPED (UNTIMEOUT f))
      | PPP_FSM_REQSENT \<Rightarrow> call_back (cb_finished env) Finished (goto PPP_FSM_STOPPED (UNTIMEOUT f))
      | PPP_FSM_ACKRCVD \<Rightarrow> call_back (cb_finished env) Finished (goto PPP_FSM_STOPPED (UNTIMEOUT f))
      | PPP_FSM_ACKSENT \<Rightarrow> call_back (cb_finished env) Finished (goto PPP_FSM_STOPPED (UNTIMEOUT f))
      | PPP_FSM_STOPPED \<Rightarrow> call_back (cb_finished env) Finished (goto PPP_FSM_STOPPED f)
      | PPP_FSM_OPENED \<Rightarrow> terminate_layer env PPP_FSM_STOPPING f
      | _ \<Rightarrow> f)"

definition ext_answer :: "'c envir \<Rightarrow> u8 \<Rightarrow> u8 \<Rightarrow> octets \<Rightarrow> 'c fsm_scheme \<Rightarrow> bool \<times> 'c fsm_scheme" where
  "ext_answer env code i inp f =
     (case cb_extcode env of None \<Rightarrow> (False, f) | Some extcode \<Rightarrow> extcode f code i inp)"

definition fsm_dispatch :: "'c envir \<Rightarrow> u8 \<Rightarrow> u8 \<Rightarrow> octets \<Rightarrow> octets \<Rightarrow> 'c fsm_scheme \<Rightarrow> 'c fsm_scheme" where
  "fsm_dispatch env code i inp inpacket f =
     (if code = CONFREQ then fsm_rconfreq env i inp f
      else if code = CONFACK then fsm_rconfack env i inp f
      else if code = CONFNAK \<or> code = CONFREJ then fsm_rconfnakrej env code i inp f
      else if code = TERMREQ then fsm_rtermreq env i f
      else if code = TERMACK then fsm_rtermack env f
      else if code = CODEREJ then fsm_rcoderej inp f
      else (case ext_answer env code i inp f of
              (True, f0) \<Rightarrow> f0
            | (False, f0) \<Rightarrow>
                let f1 = f0\<lparr>f_id := f_id f0 + 1\<rparr>
                in fsm_sdata env CODEREJ (f_id f1) (take (length inp + HEADERLEN) inpacket) f1))"

definition get_short :: "octets \<Rightarrow> nat" where
  "get_short bs = unat (bs ! 0) * 256 + unat (bs ! 1)"

definition fsm_input :: "'c envir \<Rightarrow> octets \<Rightarrow> 'c fsm_scheme \<Rightarrow> 'c fsm_scheme" where
  "fsm_input env inpacket f =
     (if length inpacket < HEADERLEN then f
      else (let code = inpacket ! 0; i = inpacket ! 1; len = get_short (drop 2 inpacket)
            in if len < HEADERLEN then f
               else if len > length inpacket then f
               else if f_state f = PPP_FSM_INITIAL \<or> f_state f = PPP_FSM_STARTING then f
               else fsm_dispatch env code i (take (len - HEADERLEN) (drop HEADERLEN inpacket)) inpacket f))"

section \<open>Runs\<close>

datatype fsm_call =
  Lower_up | Lower_down | Open_call | Close_call "octets option" | Timer | Input octets | Prot_reject

text \<open>A timer call takes the entry out of the queue first.\<close>

definition fsm_do :: "'c envir \<Rightarrow> fsm_call \<Rightarrow> 'c fsm_scheme \<Rightarrow> 'c fsm_scheme" where
  "fsm_do env a f =
     (case a of
        Lower_up \<Rightarrow> fsm_lowerup env f
      | Lower_down \<Rightarrow> fsm_lowerdown env f
      | Open_call \<Rightarrow> fsm_open env f
      | Close_call r \<Rightarrow> fsm_close env r f
      | Timer \<Rightarrow> fsm_timeout env (UNTIMEOUT f)
      | Input p \<Rightarrow> fsm_input env p f
      | Prot_reject \<Rightarrow> fsm_protreject env f)"

section \<open>The automaton of RFC 1661\<close>

datatype rfc_event =
  Ev_up | Ev_down | Ev_open | Ev_close | Ev_timeout_more | Ev_timeout_last
| Ev_confreq_good | Ev_confreq_bad | Ev_confack | Ev_confnakrej | Ev_termreq | Ev_termack
| Ev_unknown | Ev_coderej | Ev_protrej

text \<open>The state transition table of RFC 1661, section 4.1.\<close>

fun rfc_next :: "rfc_event \<Rightarrow> ppp_state \<Rightarrow> ppp_state" where
  "rfc_next Ev_up s = (case s of PPP_FSM_INITIAL \<Rightarrow> PPP_FSM_CLOSED | PPP_FSM_STARTING \<Rightarrow> PPP_FSM_REQSENT | _ \<Rightarrow> s)"
| "rfc_next Ev_down s =
     (case s of PPP_FSM_CLOSED \<Rightarrow> PPP_FSM_INITIAL | PPP_FSM_CLOSING \<Rightarrow> PPP_FSM_INITIAL
      | PPP_FSM_INITIAL \<Rightarrow> PPP_FSM_INITIAL | _ \<Rightarrow> PPP_FSM_STARTING)"
| "rfc_next Ev_open s =
     (case s of PPP_FSM_INITIAL \<Rightarrow> PPP_FSM_STARTING | PPP_FSM_CLOSED \<Rightarrow> PPP_FSM_REQSENT
      | PPP_FSM_CLOSING \<Rightarrow> PPP_FSM_STOPPING | _ \<Rightarrow> s)"
| "rfc_next Ev_close s =
     (case s of PPP_FSM_INITIAL \<Rightarrow> PPP_FSM_INITIAL | PPP_FSM_STARTING \<Rightarrow> PPP_FSM_INITIAL
      | PPP_FSM_CLOSED \<Rightarrow> PPP_FSM_CLOSED | PPP_FSM_STOPPED \<Rightarrow> PPP_FSM_CLOSED | _ \<Rightarrow> PPP_FSM_CLOSING)"
| "rfc_next Ev_timeout_more s = (case s of PPP_FSM_ACKRCVD \<Rightarrow> PPP_FSM_REQSENT | _ \<Rightarrow> s)"
| "rfc_next Ev_timeout_last s =
     (case s of PPP_FSM_CLOSING \<Rightarrow> PPP_FSM_CLOSED | PPP_FSM_STOPPING \<Rightarrow> PPP_FSM_STOPPED
      | PPP_FSM_REQSENT \<Rightarrow> PPP_FSM_STOPPED | PPP_FSM_ACKRCVD \<Rightarrow> PPP_FSM_STOPPED
      | PPP_FSM_ACKSENT \<Rightarrow> PPP_FSM_STOPPED | _ \<Rightarrow> s)"
| "rfc_next Ev_confreq_good s =
     (case s of PPP_FSM_STOPPED \<Rightarrow> PPP_FSM_ACKSENT | PPP_FSM_REQSENT \<Rightarrow> PPP_FSM_ACKSENT
      | PPP_FSM_ACKRCVD \<Rightarrow> PPP_FSM_OPENED | PPP_FSM_OPENED \<Rightarrow> PPP_FSM_ACKSENT | _ \<Rightarrow> s)"
| "rfc_next Ev_confreq_bad s =
     (case s of PPP_FSM_STOPPED \<Rightarrow> PPP_FSM_REQSENT | PPP_FSM_ACKSENT \<Rightarrow> PPP_FSM_REQSENT
      | PPP_FSM_OPENED \<Rightarrow> PPP_FSM_REQSENT | _ \<Rightarrow> s)"
| "rfc_next Ev_confack s =
     (case s of PPP_FSM_REQSENT \<Rightarrow> PPP_FSM_ACKRCVD | PPP_FSM_ACKRCVD \<Rightarrow> PPP_FSM_REQSENT
      | PPP_FSM_ACKSENT \<Rightarrow> PPP_FSM_OPENED | PPP_FSM_OPENED \<Rightarrow> PPP_FSM_REQSENT | _ \<Rightarrow> s)"
| "rfc_next Ev_confnakrej s =
     (case s of PPP_FSM_ACKRCVD \<Rightarrow> PPP_FSM_REQSENT | PPP_FSM_OPENED \<Rightarrow> PPP_FSM_REQSENT | _ \<Rightarrow> s)"
| "rfc_next Ev_termreq s =
     (case s of PPP_FSM_ACKRCVD \<Rightarrow> PPP_FSM_REQSENT | PPP_FSM_ACKSENT \<Rightarrow> PPP_FSM_REQSENT
      | PPP_FSM_OPENED \<Rightarrow> PPP_FSM_STOPPING | _ \<Rightarrow> s)"
| "rfc_next Ev_termack s =
     (case s of PPP_FSM_CLOSING \<Rightarrow> PPP_FSM_CLOSED | PPP_FSM_STOPPING \<Rightarrow> PPP_FSM_STOPPED
      | PPP_FSM_ACKRCVD \<Rightarrow> PPP_FSM_REQSENT | PPP_FSM_OPENED \<Rightarrow> PPP_FSM_REQSENT | _ \<Rightarrow> s)"
| "rfc_next Ev_unknown s = s"
| "rfc_next Ev_coderej s = (case s of PPP_FSM_ACKRCVD \<Rightarrow> PPP_FSM_REQSENT | _ \<Rightarrow> s)"
| "rfc_next Ev_protrej s =
     (case s of PPP_FSM_CLOSING \<Rightarrow> PPP_FSM_CLOSED | PPP_FSM_STOPPING \<Rightarrow> PPP_FSM_STOPPED
      | PPP_FSM_REQSENT \<Rightarrow> PPP_FSM_STOPPED | PPP_FSM_ACKRCVD \<Rightarrow> PPP_FSM_STOPPED
      | PPP_FSM_ACKSENT \<Rightarrow> PPP_FSM_STOPPED | PPP_FSM_OPENED \<Rightarrow> PPP_FSM_STOPPING | _ \<Rightarrow> s)"

text \<open>The event of the table that a call is, in a given state; \<open>None\<close> for a packet that is ignored.\<close>

definition packet_event :: "'c envir \<Rightarrow> u8 \<Rightarrow> u8 \<Rightarrow> octets \<Rightarrow> 'c fsm_scheme \<Rightarrow> rfc_event option" where
  "packet_event env code i inp f =
     (if code = CONFREQ then
        Some (if fst (fst (reqci_answer env inp (before_answer env f))) = CONFACK
              then Ev_confreq_good else Ev_confreq_bad)
      else if code = CONFACK then
        (if i \<noteq> f_reqid f \<or> f_seen_ack f \<or> \<not> ack_ok env inp f then None else Some Ev_confack)
      else if code = CONFNAK \<or> code = CONFREJ then
        (let ret = fst (nakrej_result env code inp (count_nak code f))
         in if i \<noteq> f_reqid f \<or> f_seen_ack f \<or> ret = 0
               \<or> (ret < 0 \<and> (f_state f = PPP_FSM_REQSENT \<or> f_state f = PPP_FSM_ACKSENT))
            then None else Some Ev_confnakrej)
      else if code = TERMREQ then Some Ev_termreq
      else if code = TERMACK then Some Ev_termack
      else if code = CODEREJ then (if length inp < HEADERLEN then None else Some Ev_coderej)
      else Some Ev_unknown)"

definition packet_ok :: "octets \<Rightarrow> bool" where
  "packet_ok p \<longleftrightarrow> length p \<ge> HEADERLEN \<and> get_short (drop 2 p) \<ge> HEADERLEN \<and> get_short (drop 2 p) \<le> length p"

definition rfc_event_of :: "'c envir \<Rightarrow> fsm_call \<Rightarrow> 'c fsm_scheme \<Rightarrow> rfc_event option" where
  "rfc_event_of env a f =
     (case a of
        Lower_up \<Rightarrow> Some Ev_up
      | Lower_down \<Rightarrow> Some Ev_down
      | Open_call \<Rightarrow> Some Ev_open
      | Close_call r \<Rightarrow> Some Ev_close
      | Timer \<Rightarrow> Some (if f_retransmits f = 0 then Ev_timeout_last else Ev_timeout_more)
      | Input p \<Rightarrow>
          if \<not> packet_ok p \<or> f_state f = PPP_FSM_INITIAL \<or> f_state f = PPP_FSM_STARTING then None
          else packet_event env (p ! 0) (p ! 1) (take (get_short (drop 2 p) - HEADERLEN) (drop HEADERLEN p)) f
      | Prot_reject \<Rightarrow> Some Ev_protrej)"

section \<open>The invariant\<close>

definition timed :: "ppp_state \<Rightarrow> bool" where
  "timed s \<longleftrightarrow> negotiating s \<or> s = PPP_FSM_CLOSING \<or> s = PPP_FSM_STOPPING"

text \<open>Whether the upper layer was last told that the protocol is up.\<close>

fun told_up :: "bool \<Rightarrow> fsm_event list \<Rightarrow> bool" where
  "told_up b [] = b"
| "told_up b (Up # es) = told_up True es"
| "told_up b (Down # es) = told_up False es"
| "told_up b (_ # es) = told_up b es"

text \<open>Whether \<open>up\<close> and \<open>down\<close> alternate, starting from a layer that is down.\<close>

fun alternating :: "bool \<Rightarrow> fsm_event list \<Rightarrow> bool" where
  "alternating b [] = True"
| "alternating b (Up # es) = (\<not> b \<and> alternating True es)"
| "alternating b (Down # es) = (b \<and> alternating False es)"
| "alternating b (_ # es) = alternating b es"

definition trace_up :: "'c fsm_scheme \<Rightarrow> bool" where
  "trace_up f = told_up False (f_trace f)"

definition trace_alt :: "'c fsm_scheme \<Rightarrow> bool" where
  "trace_alt f = alternating False (f_trace f)"

definition fsm_ok :: "'c fsm_scheme \<Rightarrow> bool" where
  "fsm_ok f \<longleftrightarrow> f_timers f = (if timed (f_state f) then 1 else 0)
     \<and> trace_alt f \<and> trace_up f = (f_state f = PPP_FSM_OPENED)"

section \<open>What the automaton expects of its callbacks\<close>

definition keeps :: "'c fsm_scheme \<Rightarrow> 'c fsm_scheme \<Rightarrow> bool" where
  "keeps f g \<longleftrightarrow> f_state g = f_state f \<and> f_flags g = f_flags f \<and> f_reqid g = f_reqid f
     \<and> f_retransmits g = f_retransmits f \<and> f_nakloops g = f_nakloops f \<and> f_rnakloops g = f_rnakloops f
     \<and> f_maxnakloops g = f_maxnakloops f \<and> f_seen_ack g = f_seen_ack f \<and> f_timers g = f_timers f
     \<and> trace_up g = trace_up f \<and> trace_alt g = trace_alt f"

definition kept_cb :: "('c fsm_scheme \<Rightarrow> 'c fsm_scheme) option \<Rightarrow> bool" where
  "kept_cb cb \<longleftrightarrow> pred_option (\<lambda>g. \<forall>f. keeps f (g f)) cb"

definition callbacks_keep :: "'c envir \<Rightarrow> bool" where
  "callbacks_keep env \<longleftrightarrow>
     kept_cb (cb_resetci env) \<and> kept_cb (cb_up env) \<and> kept_cb (cb_down env) \<and> kept_cb (cb_starting env)
     \<and> kept_cb (cb_finished env) \<and> kept_cb (cb_retransmit env)
     \<and> pred_option (\<lambda>g. \<forall>f. keeps f (snd (g f))) (cb_cilen env)
     \<and> pred_option (\<lambda>g. \<forall>f n. keeps f (snd (g f n))) (cb_addci env)
     \<and> pred_option (\<lambda>g. \<forall>f p t. keeps f (snd (g f p t))) (cb_nakci env)
     \<and> pred_option (\<lambda>g. \<forall>f p. keeps f (snd (g f p))) (cb_rejci env)
     \<and> pred_option (\<lambda>g. \<forall>f p t. keeps f (snd (g f p t))) (cb_reqci env)
     \<and> pred_option (\<lambda>g. \<forall>f c i p. keeps f (snd (g f c i p))) (cb_extcode env)"

text \<open>Runs: any sequence of calls, each with its own settings and callbacks that keep the automaton's fields.\<close>

definition env_ok :: "'c envir \<Rightarrow> bool" where
  "env_ok env \<longleftrightarrow> callbacks_keep env \<and> pbuf_ok env \<and> cb_up env \<noteq> None \<and> cb_down env \<noteq> None"

inductive fsm_reach :: "'c fsm_scheme \<Rightarrow> 'c fsm_scheme \<Rightarrow> bool" for f0 where
  fsm_start: "fsm_reach f0 f0"
| fsm_step: "fsm_reach f0 f \<Longrightarrow> env_ok env \<Longrightarrow> (a = Timer \<longrightarrow> 0 < f_timers f) \<Longrightarrow> fsm_reach f0 (fsm_do env a f)"

definition fsm_timeouts :: "'c envir \<Rightarrow> nat \<Rightarrow> 'c fsm_scheme \<Rightarrow> 'c fsm_scheme" where
  "fsm_timeouts env n f = (fsm_do env Timer ^^ n) f"

text \<open>The state in which an unanswered automaton ends.\<close>

definition gave_up :: "ppp_state \<Rightarrow> ppp_state" where
  "gave_up s = (if s = PPP_FSM_CLOSING then PPP_FSM_CLOSED else PPP_FSM_STOPPED)"

text \<open>A peer-to-peer set-up whose callbacks accept everything, for concrete runs.\<close>

definition demo_fsm_env :: "fsm fsm_env" where
  "demo_fsm_env = \<lparr>max_conf_req_transmits = 10, max_term_transmits = 2, max_nak_loops = 5, peer_mru = 1500,
     pbuf_ok = True, cb_resetci = Some (\<lambda>f. f), cb_cilen = Some (\<lambda>f. (4, f)), cb_addci = Some (\<lambda>f n. ([1, 4, 5, 220], f)),
     cb_ackci = Some (\<lambda>_ _. True), cb_nakci = Some (\<lambda>f _ _. (1, f)), cb_rejci = Some (\<lambda>f _. (1, f)),
     cb_reqci = Some (\<lambda>f i _. ((CONFACK, i), f)), cb_up = Some (\<lambda>f. f), cb_down = Some (\<lambda>f. f),
     cb_starting = Some (\<lambda>f. f), cb_finished = Some (\<lambda>f. f), cb_retransmit = None, cb_extcode = None\<rparr>"

definition demo_fsm :: fsm where
  "demo_fsm = \<lparr>f_state = PPP_FSM_INITIAL, f_flags = 0, f_id = 0, f_reqid = 0, f_retransmits = 0, f_nakloops = 0,
     f_rnakloops = 0, f_maxnakloops = 5, f_seen_ack = False, f_protocol = 0xc021, f_term_reason = None,
     f_term_reason_len = 0, f_timers = 0, f_trace = []\<rparr>"

section \<open>How each building block changes the automaton\<close>

lemma told_up_append [simp]: "told_up b (es @ fs) = told_up (told_up b es) fs"
  by (induction b es rule: told_up.induct) auto

lemma alternating_append [simp]: "alternating b (es @ fs) = (alternating b es \<and> alternating (told_up b es) fs)"
  by (induction b es rule: alternating.induct) auto

lemma trace_update [simp]:
  "trace_up (f\<lparr>f_retransmits := r\<rparr>) = trace_up f" "trace_alt (f\<lparr>f_retransmits := r\<rparr>) = trace_alt f"
  "trace_up (f\<lparr>f_seen_ack := b\<rparr>) = trace_up f" "trace_alt (f\<lparr>f_seen_ack := b\<rparr>) = trace_alt f"
  "trace_up (f\<lparr>f_nakloops := r\<rparr>) = trace_up f" "trace_alt (f\<lparr>f_nakloops := r\<rparr>) = trace_alt f"
  "trace_up (f\<lparr>f_rnakloops := r\<rparr>) = trace_up f" "trace_alt (f\<lparr>f_rnakloops := r\<rparr>) = trace_alt f"
  "trace_up (f\<lparr>f_id := r\<rparr>) = trace_up f" "trace_alt (f\<lparr>f_id := r\<rparr>) = trace_alt f"
  "trace_up (f\<lparr>f_reqid := r\<rparr>) = trace_up f" "trace_alt (f\<lparr>f_reqid := r\<rparr>) = trace_alt f"
  "trace_up (f\<lparr>f_term_reason := tr\<rparr>) = trace_up f" "trace_alt (f\<lparr>f_term_reason := tr\<rparr>) = trace_alt f"
  "trace_up (f\<lparr>f_term_reason_len := r\<rparr>) = trace_up f" "trace_alt (f\<lparr>f_term_reason_len := r\<rparr>) = trace_alt f"
  by (simp_all add: trace_up_def trace_alt_def)

lemma keepsD:
  assumes "keeps f g"
  shows "f_state g = f_state f" "f_flags g = f_flags f" "f_reqid g = f_reqid f" "f_retransmits g = f_retransmits f"
    "f_nakloops g = f_nakloops f" "f_rnakloops g = f_rnakloops f" "f_maxnakloops g = f_maxnakloops f"
    "f_seen_ack g = f_seen_ack f" "f_timers g = f_timers f" "trace_up g = trace_up f" "trace_alt g = trace_alt f"
  using assms by (simp_all add: keeps_def)

lemma keeps_refl [simp]: "keeps f f"
  by (simp add: keeps_def)

text \<open>The calls that touch only one field.\<close>

lemma fsm_prim [simp]:
  "f_state (note_event e f) = f_state f" "f_state (TIMEOUT f) = f_state f" "f_state (UNTIMEOUT f) = f_state f"
  "f_state (goto s f) = s" "f_state (fsm_sdata env code i d f) = f_state f" "f_state (next_id f) = f_state f"
  "f_state (send_termreq env f) = f_state f" "f_state (count_nak c f) = f_state f"
  "f_timers (note_event e f) = f_timers f" "f_timers (TIMEOUT f) = Suc (f_timers f)"
  "f_timers (UNTIMEOUT f) = f_timers f - 1" "f_timers (goto s f) = f_timers f"
  "f_timers (fsm_sdata env code i d f) = f_timers f" "f_timers (next_id f) = f_timers f"
  "f_timers (send_termreq env f) = f_timers f" "f_timers (count_nak c f) = f_timers f"
  "f_flags (note_event e f) = f_flags f" "f_flags (TIMEOUT f) = f_flags f" "f_flags (UNTIMEOUT f) = f_flags f"
  "f_flags (goto s f) = f_flags f"
  "f_retransmits (note_event e f) = f_retransmits f" "f_retransmits (TIMEOUT f) = f_retransmits f"
  "f_retransmits (UNTIMEOUT f) = f_retransmits f" "f_retransmits (goto s f) = f_retransmits f"
  "f_retransmits (fsm_sdata env code i d f) = f_retransmits f" "f_retransmits (send_termreq env f) = f_retransmits f"
  by (simp_all add: note_event_def TIMEOUT_def UNTIMEOUT_def goto_def fsm_sdata_def next_id_def send_termreq_def
      count_nak_def Let_def)

lemma fsm_prim_trace [simp]:
  "trace_up (TIMEOUT f) = trace_up f" "trace_alt (TIMEOUT f) = trace_alt f"
  "trace_up (UNTIMEOUT f) = trace_up f" "trace_alt (UNTIMEOUT f) = trace_alt f"
  "trace_up (goto s f) = trace_up f" "trace_alt (goto s f) = trace_alt f"
  "trace_up (count_nak c f) = trace_up f" "trace_alt (count_nak c f) = trace_alt f"
  "trace_up (fsm_sdata env code i d f) = trace_up f" "trace_alt (fsm_sdata env code i d f) = trace_alt f"
  "trace_up (send_termreq env f) = trace_up f" "trace_alt (send_termreq env f) = trace_alt f"
  by (simp_all add: trace_up_def trace_alt_def note_event_def TIMEOUT_def UNTIMEOUT_def goto_def count_nak_def
      fsm_sdata_def send_termreq_def next_id_def Let_def)

lemma call_back_fields [simp]:
  assumes "kept_cb cb"
  shows "f_state (call_back cb e f) = f_state f" "f_flags (call_back cb e f) = f_flags f"
    "f_retransmits (call_back cb e f) = f_retransmits f" "f_timers (call_back cb e f) = f_timers f"
    "f_reqid (call_back cb e f) = f_reqid f" "f_seen_ack (call_back cb e f) = f_seen_ack f"
proof -
  have "keeps (note_event e f) (g (note_event e f))" if "cb = Some g" for g
    using assms that by (simp add: kept_cb_def)
  then show "f_state (call_back cb e f) = f_state f" "f_flags (call_back cb e f) = f_flags f"
    "f_retransmits (call_back cb e f) = f_retransmits f" "f_timers (call_back cb e f) = f_timers f"
    "f_reqid (call_back cb e f) = f_reqid f" "f_seen_ack (call_back cb e f) = f_seen_ack f"
    by (auto simp: call_back_def note_event_def keeps_def split: option.split)
qed

lemma note_event_trace [simp]:
  "trace_up (note_event e f) = (e = Up \<or> (e \<noteq> Down \<and> trace_up f))"
  "trace_alt (note_event e f) = (trace_alt f \<and> (e = Up \<longrightarrow> \<not> trace_up f) \<and> (e = Down \<longrightarrow> trace_up f))"
  by (cases e; simp add: trace_up_def trace_alt_def note_event_def)+

lemma call_back_trace:
  assumes "kept_cb cb"
  shows "trace_up (call_back cb e f) = (if cb = None then trace_up f else trace_up (note_event e f))"
    "trace_alt (call_back cb e f) = (if cb = None then trace_alt f else trace_alt (note_event e f))"
proof -
  have "keeps (note_event e f) (g (note_event e f))" if "cb = Some g" for g
    using assms that by (simp add: kept_cb_def)
  then show "trace_up (call_back cb e f) = (if cb = None then trace_up f else trace_up (note_event e f))"
    "trace_alt (call_back cb e f) = (if cb = None then trace_alt f else trace_alt (note_event e f))"
    by (auto simp: call_back_def keeps_def split: option.split)
qed

lemma call_back_quiet [simp]:
  assumes "kept_cb cb"
  shows "trace_up (call_back cb Resetci f) = trace_up f" "trace_alt (call_back cb Resetci f) = trace_alt f"
    "trace_up (call_back cb Retransmit f) = trace_up f" "trace_alt (call_back cb Retransmit f) = trace_alt f"
    "trace_up (call_back cb Starting f) = trace_up f" "trace_alt (call_back cb Starting f) = trace_alt f"
    "trace_up (call_back cb Finished f) = trace_up f" "trace_alt (call_back cb Finished f) = trace_alt f"
    "cb \<noteq> None \<Longrightarrow> trace_up (call_back cb Up f)" "cb \<noteq> None \<Longrightarrow> trace_alt (call_back cb Up f) = (trace_alt f \<and> \<not> trace_up f)"
    "cb \<noteq> None \<Longrightarrow> \<not> trace_up (call_back cb Down f)" "cb \<noteq> None \<Longrightarrow> trace_alt (call_back cb Down f) = (trace_alt f \<and> trace_up f)"
  by (auto simp: call_back_trace [OF assms])

lemma has_flag_zero [simp]: "f_flags f = 0 \<Longrightarrow> \<not> has_flag b f"
  by (simp add: has_flag_def)

lemma timed_simps [simp]:
  "\<not> timed PPP_FSM_INITIAL" "\<not> timed PPP_FSM_STARTING" "\<not> timed PPP_FSM_CLOSED" "\<not> timed PPP_FSM_STOPPED"
  "timed PPP_FSM_CLOSING" "timed PPP_FSM_STOPPING" "timed PPP_FSM_REQSENT" "timed PPP_FSM_ACKRCVD"
  "timed PPP_FSM_ACKSENT" "\<not> timed PPP_FSM_OPENED"
  by (simp_all add: timed_def negotiating_def)

section \<open>Every operation keeps the invariant\<close>

locale fsm_client =
  fixes env :: "'c envir"
  assumes client: "callbacks_keep env"
begin

lemma client_cb [simp]:
  "kept_cb (cb_resetci env)" "kept_cb (cb_up env)" "kept_cb (cb_down env)" "kept_cb (cb_starting env)"
  "kept_cb (cb_finished env)" "kept_cb (cb_retransmit env)" "kept_cb None"
  using client by (simp_all add: callbacks_keep_def kept_cb_def)

lemma client_ci: "keeps f (snd (own_ci env n f))"
  and client_cilen: "keeps f (snd (own_cilen env f))"
  and client_nakrej: "keeps f (snd (nakrej_result env code inp f))"
  and client_reqci: "keeps f (snd (reqci_answer env inp f))"
  and client_ext: "keeps f (snd (ext_answer env code i inp f))"
  using client by (auto simp: callbacks_keep_def own_ci_def own_cilen_def split_beta nakrej_result_def reqci_answer_def ext_answer_def
      split: option.split)

lemmas client_simps [simp] = keepsD [OF client_ci] keepsD [OF client_cilen] keepsD [OF client_nakrej] keepsD [OF client_reqci] keepsD [OF client_ext]

lemma sconfreq_fields [simp]:
  "f_state (fsm_sconfreq env r f) = f_state f"
  "f_timers (fsm_sconfreq env r f) = (if pbuf_ok env then Suc (f_timers f) else f_timers f)"
  "trace_up (fsm_sconfreq env r f) = trace_up f" "trace_alt (fsm_sconfreq env r f) = trace_alt f"
  by (simp_all add: fsm_sconfreq_def Let_def split_beta)

lemma lower_ok:
  assumes "fsm_ok f" "pbuf_ok env" "cb_down env \<noteq> None"
  shows "fsm_ok (fsm_lowerup env f)" and "fsm_ok (fsm_lowerdown env f)"
  using assms by (cases "f_state f"; simp add: fsm_ok_def fsm_lowerup_def fsm_lowerdown_def)+

lemma open_ok:
  assumes "fsm_ok f" "pbuf_ok env" "cb_down env \<noteq> None"
  shows "fsm_ok (fsm_open env f)"
proof -
  have r: "fsm_ok (fsm_restart env g)" if "fsm_ok g" for g
    using lower_ok(1) [OF lower_ok(2) [OF that assms(2,3)] assms(2,3)] that by (simp add: fsm_restart_def)
  have "fsm_ok (goto PPP_FSM_STOPPING f)" if "f_state f = PPP_FSM_CLOSING"
    using assms(1) that by (simp add: fsm_ok_def)
  then show ?thesis
    using assms r by (cases "f_state f") (auto simp: fsm_open_def, simp_all add: fsm_ok_def)
qed

lemma terminate_ok:
  assumes "fsm_ok f" "cb_down env \<noteq> None" "timed s" "s \<noteq> PPP_FSM_OPENED" "timed (f_state f) \<or> f_state f = PPP_FSM_OPENED"
  shows "fsm_ok (terminate_layer env s f)"
  using assms by (auto simp: fsm_ok_def terminate_layer_def Let_def)

lemma close_ok:
  assumes "fsm_ok f" "cb_down env \<noteq> None"
  shows "fsm_ok (fsm_close env r f)"
proof -
  let ?f = "f\<lparr>f_term_reason := r, f_term_reason_len := (case r of None \<Rightarrow> 0 | Some r \<Rightarrow> of_nat (min (length r) 255))\<rparr>"
  have f: "fsm_ok ?f" using assms(1) by (simp add: fsm_ok_def)
  have t: "fsm_ok (terminate_layer env PPP_FSM_CLOSING ?f)" if "timed (f_state f) \<or> f_state f = PPP_FSM_OPENED"
    using that by (intro terminate_ok [OF f assms(2)]) simp_all
  show ?thesis
    using t f by (cases "f_state f") (simp_all add: fsm_close_def Let_def, simp_all add: fsm_ok_def)
qed

lemma timeout_ok:
  assumes "fsm_ok f" "pbuf_ok env" "0 < f_timers f"
  shows "fsm_ok (fsm_timeout env (UNTIMEOUT f))"
  using assms by (cases "f_state f") (auto simp: fsm_ok_def fsm_timeout_def negotiating_def Let_def)

lemma confreq_ok:
  assumes "fsm_ok f" "pbuf_ok env" "cb_down env \<noteq> None" "cb_up env \<noteq> None"
  shows "f_state f \<noteq> PPP_FSM_INITIAL \<Longrightarrow> f_state f \<noteq> PPP_FSM_STARTING \<Longrightarrow> fsm_ok (fsm_rconfreq env i inp f)"
proof -
  have a: "fsm_ok (answer_confreq env i inp g)" if "fsm_ok g" "negotiating (f_state g)" for g
    using that assms(2,4) by (auto simp: answer_confreq_def fsm_ok_def negotiating_def Let_def split_beta)
  have "fsm_ok (before_answer env f)" "negotiating (f_state (before_answer env f))"
    if "f_state f \<in> {PPP_FSM_STOPPED, PPP_FSM_REQSENT, PPP_FSM_ACKRCVD, PPP_FSM_ACKSENT, PPP_FSM_OPENED}"
    using that assms by (cases "f_state f"; simp add: before_answer_def fsm_ok_def negotiating_def)+
  then show "f_state f \<noteq> PPP_FSM_INITIAL \<Longrightarrow> f_state f \<noteq> PPP_FSM_STARTING \<Longrightarrow> ?thesis"
    using assms(1) a [of "before_answer env f"]
    by (cases "f_state f") (simp_all add: fsm_rconfreq_def, simp_all add: fsm_ok_def)
qed

lemma confack_ok:
  assumes "fsm_ok f" "pbuf_ok env" "cb_down env \<noteq> None" "cb_up env \<noteq> None"
  shows "fsm_ok (fsm_rconfack env i inp f)" and "fsm_ok (fsm_rconfnakrej env code i inp f)"
  using assms
  by (cases "f_state f"; simp add: fsm_ok_def fsm_rconfack_def fsm_rconfnakrej_def Let_def split_beta)+

lemma term_ok:
  assumes "fsm_ok f" "pbuf_ok env" "cb_down env \<noteq> None"
  shows "fsm_ok (fsm_rtermreq env i f)" and "fsm_ok (fsm_rtermack env f)" and "fsm_ok (fsm_rcoderej inp f)"
    and "fsm_ok (fsm_protreject env f)"
proof -
  show "fsm_ok (fsm_rtermreq env i f)" "fsm_ok (fsm_rtermack env f)" "fsm_ok (fsm_rcoderej inp f)"
    using assms
    by (cases "f_state f"; simp add: fsm_ok_def fsm_rtermreq_def fsm_rtermack_def fsm_rcoderej_def Let_def)+
  show "fsm_ok (fsm_protreject env f)"
    using assms terminate_ok [OF assms(1,3), of PPP_FSM_STOPPING]
    by (cases "f_state f") (simp_all add: fsm_protreject_def, simp_all add: fsm_ok_def)
qed

lemma input_ok:
  assumes "fsm_ok f" "pbuf_ok env" "cb_down env \<noteq> None" "cb_up env \<noteq> None"
  shows "fsm_ok (fsm_input env p f)"
proof -
  have "fsm_ok (snd (ext_answer env c i d f))" "fsm_ok (fsm_sdata env k i e (snd (ext_answer env c j d f)\<lparr>f_id := n\<rparr>))"
    for c i d e j k n using assms(1) by (simp_all add: fsm_ok_def)
  then have "fsm_ok (fsm_dispatch env code i inp q f)" if "f_state f \<noteq> PPP_FSM_INITIAL" "f_state f \<noteq> PPP_FSM_STARTING" for code i inp q
    using that assms confreq_ok [OF assms] confack_ok [OF assms] term_ok [OF assms(1-3)]
    by (simp add: fsm_dispatch_def Let_def split_beta split: bool.split)
  then show ?thesis using assms(1) by (simp add: fsm_input_def Let_def)
qed

lemma fsm_do_ok:
  assumes "fsm_ok f" "pbuf_ok env" "cb_down env \<noteq> None" "cb_up env \<noteq> None" "a = Timer \<longrightarrow> 0 < f_timers f"
  shows "fsm_ok (fsm_do env a f)"
  using assms lower_ok [OF assms(1-3)] open_ok [OF assms(1-3)] close_ok [OF assms(1,3)] timeout_ok [OF assms(1,2)]
    input_ok [OF assms(1-4)] term_ok(4) [OF assms(1-3)]
  by (cases a) (simp_all add: fsm_do_def)

lemma answer_confreq_state:
  "f_state (answer_confreq env i inp f) =
     (if fst (fst (reqci_answer env inp f)) = CONFACK
      then (if f_state f = PPP_FSM_ACKRCVD then PPP_FSM_OPENED else PPP_FSM_ACKSENT)
      else (if f_state f = PPP_FSM_ACKRCVD then PPP_FSM_ACKRCVD else PPP_FSM_REQSENT))"
  by (simp add: answer_confreq_def Let_def split_beta)

lemma confreq_state:
  assumes "f_state f \<noteq> PPP_FSM_INITIAL" and "f_state f \<noteq> PPP_FSM_STARTING"
  shows "f_state (fsm_rconfreq env i inp f) =
     rfc_next (if fst (fst (reqci_answer env inp (before_answer env f))) = CONFACK
               then Ev_confreq_good else Ev_confreq_bad) (f_state f)"
  using assms
  by (cases "f_state f") (simp_all add: fsm_rconfreq_def answer_confreq_state, simp_all add: before_answer_def)

lemma confack_state:
  assumes "i = f_reqid f" "\<not> f_seen_ack f" "ack_ok env inp f" "f_state f \<noteq> PPP_FSM_INITIAL" "f_state f \<noteq> PPP_FSM_STARTING"
  shows "f_state (fsm_rconfack env i inp f) = rfc_next Ev_confack (f_state f)"
  using assms by (cases "f_state f") (simp_all add: fsm_rconfack_def Let_def)

lemma confnakrej_state:
  assumes "i = f_reqid f" "\<not> f_seen_ack f"
    "fst (nakrej_result env code inp (count_nak code f)) = ret"
    "ret \<noteq> 0" "ret < 0 \<Longrightarrow> f_state f \<noteq> PPP_FSM_REQSENT \<and> f_state f \<noteq> PPP_FSM_ACKSENT"
    "f_state f \<noteq> PPP_FSM_INITIAL" "f_state f \<noteq> PPP_FSM_STARTING"
  shows "f_state (fsm_rconfnakrej env code i inp f) = rfc_next Ev_confnakrej (f_state f)"
  using assms by (cases "f_state f") (auto simp: fsm_rconfnakrej_def Let_def split_beta)

lemma packet_state:
  assumes "packet_event env code i inp f = Some e" "f_state f \<noteq> PPP_FSM_INITIAL" "f_state f \<noteq> PPP_FSM_STARTING"
  shows "f_state (fsm_dispatch env code i inp q f) = rfc_next e (f_state f)"
proof -
  have t: "f_state (fsm_rtermreq env i f) = rfc_next Ev_termreq (f_state f)"
      "f_state (fsm_rtermack env f) = rfc_next Ev_termack (f_state f)"
      "\<not> length inp < HEADERLEN \<Longrightarrow> f_state (fsm_rcoderej inp f) = rfc_next Ev_coderej (f_state f)"
    by (cases "f_state f"; simp add: fsm_rtermreq_def fsm_rtermack_def fsm_rcoderej_def Let_def)+
  consider "code = CONFREQ" | "code = CONFACK" | "code = CONFNAK \<or> code = CONFREJ" | "code = TERMREQ" | "code = TERMACK"
    | "code = CODEREJ" | "code \<notin> {CONFREQ, CONFACK, CONFNAK, CONFREJ, TERMREQ, TERMACK, CODEREJ}"
    by auto
  then show ?thesis
  proof cases
    case 1
    then show ?thesis using assms(1) confreq_state [OF assms(2,3), of i inp] by (simp add: packet_event_def fsm_dispatch_def)
  next
    case 2
    then show ?thesis
      using assms confack_state [of i f inp] by (simp add: packet_event_def fsm_dispatch_def fsm_codes split: if_splits)
  next
    case 3
    then have d: "fsm_dispatch env code i inp q f = fsm_rconfnakrej env code i inp f"
      by (auto simp: fsm_dispatch_def fsm_codes)
    have "e = Ev_confnakrej" "i = f_reqid f" "\<not> f_seen_ack f"
      using assms(1) 3 by (auto simp: packet_event_def fsm_codes Let_def split: if_splits)
    moreover have "f_state (fsm_rconfnakrej env code i inp f) = rfc_next Ev_confnakrej (f_state f)"
      using assms(1) 3
      by (intro confnakrej_state [OF calculation(2,3) refl _ _ assms(2,3)])
        (auto simp: packet_event_def fsm_codes Let_def split: if_splits)
    ultimately show ?thesis using d by simp
  next
    case 4
    then show ?thesis using assms(1) t(1) by (simp add: packet_event_def fsm_dispatch_def fsm_codes)
  next
    case 5
    then show ?thesis using assms(1) t(2) by (simp add: packet_event_def fsm_dispatch_def fsm_codes)
  next
    case 6
    then show ?thesis using assms(1) t(3) by (simp add: packet_event_def fsm_dispatch_def fsm_codes split: if_splits)
  next
    case 7
    then show ?thesis using assms(1) by (auto simp: packet_event_def fsm_dispatch_def Let_def split_beta split: if_splits bool.split)
  qed
qed

lemma terminate_state:
  "f_state (terminate_layer env s f) =
     (if max_term_transmits env = 0 then (if s = PPP_FSM_CLOSING then PPP_FSM_CLOSED else PPP_FSM_STOPPED) else s)"
  by (simp add: terminate_layer_def Let_def)

lemma rfc_refinement:
  assumes "f_flags f = 0" and "max_term_transmits env \<noteq> 0" and "a = Timer \<longrightarrow> timed (f_state f)"
  shows "case rfc_event_of env a f of
           Some e \<Rightarrow> f_state (fsm_do env a f) = rfc_next e (f_state f)
         | None \<Rightarrow> f_state (fsm_do env a f) = f_state f \<or> f_state (fsm_do env a f) = PPP_FSM_STOPPED"
proof (cases a)
  case (Input p)
  let ?inp = "take (get_short (drop 2 p) - HEADERLEN) (drop HEADERLEN p)"
  have nk: "f_state (fsm_dispatch env code i inp q f) \<in> {f_state f, PPP_FSM_STOPPED}"
    if "packet_event env code i inp f = None" for code i inp q
    using that
    by (cases "f_state f")
      (auto simp: packet_event_def fsm_dispatch_def fsm_rconfack_def fsm_rconfnakrej_def fsm_rcoderej_def fsm_codes Let_def
        split_beta split: if_splits bool.split)
  show ?thesis
    using Input packet_state [of "p ! 0" "p ! 1" ?inp f] nk [of "p ! 0" "p ! 1" ?inp]
    by (auto simp: rfc_event_of_def fsm_do_def fsm_input_def packet_ok_def Let_def split: option.splits)
next
  case Timer
  then show ?thesis
    using assms
    by (cases "f_state f") (simp_all add: fsm_do_def rfc_event_of_def fsm_timeout_def negotiating_def Let_def)
qed (use assms in \<open>(cases "f_state f"; simp add: fsm_do_def rfc_event_of_def fsm_lowerup_def fsm_lowerdown_def
      fsm_open_def fsm_restart_def fsm_close_def fsm_protreject_def terminate_state Let_def)+\<close>)

lemma timer_last:
  assumes "timed (f_state f)" and "f_retransmits f = 0"
  shows "f_state (fsm_do env Timer f) = gave_up (f_state f) \<and> f_timers (fsm_do env Timer f) = f_timers f - 1"
  using assms by (cases "f_state f") (simp_all add: fsm_do_def fsm_timeout_def negotiating_def gave_up_def)

lemma timer_more:
  assumes "timed (f_state f)" and "f_retransmits f \<noteq> 0" and "pbuf_ok env" and "f_timers f = 1"
  shows "timed (f_state (fsm_do env Timer f))" and "f_retransmits (fsm_do env Timer f) = f_retransmits f - 1"
    and "f_timers (fsm_do env Timer f) = 1" and "gave_up (f_state (fsm_do env Timer f)) = gave_up (f_state f)"
proof -
  have r: "f_retransmits (fsm_sconfreq env True g) = f_retransmits g - 1" for g
    using assms(3) by (simp add: fsm_sconfreq_def Let_def split_beta)
  show "timed (f_state (fsm_do env Timer f))" "f_retransmits (fsm_do env Timer f) = f_retransmits f - 1"
    "f_timers (fsm_do env Timer f) = 1" "gave_up (f_state (fsm_do env Timer f)) = gave_up (f_state f)"
    using assms r by (cases "f_state f"; simp add: fsm_do_def fsm_timeout_def negotiating_def gave_up_def Let_def)+
qed

lemma timeouts_give_up:
  assumes "timed (f_state f)" and "pbuf_ok env" and "f_timers f = 1" and "n = unat (f_retransmits f)"
  shows "f_state (fsm_timeouts env (Suc n) f) = gave_up (f_state f) \<and> f_timers (fsm_timeouts env (Suc n) f) = 0"
  using assms
proof (induction n arbitrary: f)
  case 0
  then have "f_retransmits f = 0" by (simp add: unat_eq_0)
  then show ?case using 0 timer_last [of f] by (simp add: fsm_timeouts_def)
next
  case (Suc n)
  have nz: "f_retransmits f \<noteq> 0" using Suc.prems(4) by auto
  let ?g = "fsm_do env Timer f"
  note m = timer_more [OF Suc.prems(1) nz Suc.prems(2,3)]
  have n: "n = unat (f_retransmits ?g)" using m(2) Suc.prems(4) nz by (simp add: unat_minus_one)
  have "f_state (fsm_timeouts env (Suc n) ?g) = gave_up (f_state ?g) \<and> f_timers (fsm_timeouts env (Suc n) ?g) = 0"
    by (rule Suc.IH [OF m(1) Suc.prems(2) m(3) n])
  then show ?case using m(4) by (simp add: fsm_timeouts_def funpow_swap1)
qed

end

lemmas client_intro = fsm_client.intro

lemma fsm_reach_ok: "fsm_reach f0 f \<Longrightarrow> fsm_ok f0 \<Longrightarrow> fsm_ok f"
  by (induction rule: fsm_reach.induct) (auto simp: env_ok_def intro: fsm_client.fsm_do_ok [OF client_intro])

section \<open>Properties\<close>

text \<open>C23: in every run of a freshly initialised automaton whose buffers can be allocated and whose callbacks leave
  the fields of the automaton alone, a retransmission timer is pending exactly in the states
  that wait for the peer, never more than one; the upper layer is told \<open>up\<close> and \<open>down\<close> in strict
  alternation, and was last told \<open>up\<close> exactly when the state is \<open>OPENED\<close>.\<close>

theorem fsm_timers_and_layers:
  assumes "fsm_reach (fsm_init env0 f0) f" and "f_timers f0 = 0" and "f_trace f0 = []"
  shows "f_timers f = (if timed (f_state f) then 1 else 0)
     \<and> alternating False (f_trace f) \<and> (told_up False (f_trace f) \<longleftrightarrow> f_state f = PPP_FSM_OPENED)"
proof -
  have "fsm_ok (fsm_init env0 f0)"
    using assms(2,3) by (simp add: fsm_ok_def fsm_init_def trace_up_def trace_alt_def)
  then show ?thesis using fsm_reach_ok [OF assms(1)] by (simp add: fsm_ok_def trace_up_def trace_alt_def)
qed

lemma demo_env_ok: "env_ok demo_fsm_env"
  by (simp add: env_ok_def callbacks_keep_def kept_cb_def demo_fsm_env_def)

theorem fsm_timers_and_layers_witness:
  "f_timers (fsm_do demo_fsm_env Lower_up (fsm_do demo_fsm_env Open_call (fsm_init demo_fsm_env demo_fsm))) = 1"
proof -
  let ?f = "fsm_do demo_fsm_env Lower_up (fsm_do demo_fsm_env Open_call (fsm_init demo_fsm_env demo_fsm))"
  have r: "fsm_reach (fsm_init demo_fsm_env demo_fsm) ?f"
    using fsm_reach.fsm_step [OF fsm_reach.fsm_step [OF fsm_reach.fsm_start demo_env_ok] demo_env_ok] by simp
  have k: "callbacks_keep demo_fsm_env" using demo_env_ok by (simp add: env_ok_def)
  have s: "f_state ?f = PPP_FSM_REQSENT"
    using fsm_client.sconfreq_fields(1) [OF client_intro [OF k]]
    by (simp add: fsm_do_def fsm_init_def fsm_open_def fsm_lowerup_def call_back_def note_event_def goto_def
        demo_fsm_env_def has_flag_def)
  show ?thesis using fsm_timers_and_layers [OF r] s by (simp add: demo_fsm_def)
qed

text \<open>C4: the implementation refines the automaton of RFC 1661: with callbacks that leave its fields alone, no option
  flags set and at least one Terminate-Request
  allowed, every call that is an event of the standard moves the state exactly as its transition
  table says, and every packet the code ignores leaves it alone or stops the negotiation.\<close>

theorem fsm_refines_rfc1661:
  assumes "callbacks_keep env"
    and "f_flags f = 0" and "max_term_transmits env \<noteq> 0" and "a = Timer \<longrightarrow> timed (f_state f)"
  shows "case rfc_event_of env a f of
           Some e \<Rightarrow> f_state (fsm_do env a f) = rfc_next e (f_state f)
         | None \<Rightarrow> f_state (fsm_do env a f) = f_state f \<or> f_state (fsm_do env a f) = PPP_FSM_STOPPED"
  by (rule fsm_client.rfc_refinement [OF client_intro [OF assms(1)] assms(2-4)])

theorem fsm_refines_rfc1661_witness:
  "f_state (fsm_do demo_fsm_env (Input [TERMREQ, 7, 0, 4]) (demo_fsm\<lparr>f_state := PPP_FSM_OPENED\<rparr>)) = PPP_FSM_STOPPING"
proof -
  let ?f = "demo_fsm\<lparr>f_state := PPP_FSM_OPENED\<rparr>"
  have e: "rfc_event_of demo_fsm_env (Input [TERMREQ, 7, 0, 4]) ?f = Some Ev_termreq" by code_simp
  have h: "callbacks_keep demo_fsm_env" "f_flags ?f = 0" "max_term_transmits demo_fsm_env \<noteq> 0"
    using demo_env_ok by (simp_all add: env_ok_def demo_fsm_def demo_fsm_env_def)
  show ?thesis using fsm_refines_rfc1661 [OF h, of "Input [TERMREQ, 7, 0, 4]"] e by simp
qed

text \<open>C24: a protocol is opened only by mutual agreement: a call that takes the automaton to \<open>OPENED\<close> is either a
  Configure-Request that is answered with an Ack after ours was acknowledged, or the first
  acceptable Ack of our latest request after we acknowledged the peer.\<close>

theorem fsm_opens_by_mutual_ack:
  assumes "callbacks_keep env"
    and "f_flags f = 0" and "max_term_transmits env \<noteq> 0" and "a = Timer \<longrightarrow> timed (f_state f)"
    and "f_state f \<noteq> PPP_FSM_OPENED" and "f_state (fsm_do env a f) = PPP_FSM_OPENED"
  shows "\<exists>p. a = Input p \<and>
     (let inp = take (get_short (drop 2 p) - HEADERLEN) (drop HEADERLEN p)
      in (p ! 0 = CONFREQ \<and> f_state f = PPP_FSM_ACKRCVD \<and> fst (fst (reqci_answer env inp f)) = CONFACK)
       \<or> (p ! 0 = CONFACK \<and> f_state f = PPP_FSM_ACKSENT \<and> p ! 1 = f_reqid f \<and> \<not> f_seen_ack f
          \<and> ack_ok env inp f))"
proof -
  obtain e where e: "rfc_event_of env a f = Some e" "rfc_next e (f_state f) = PPP_FSM_OPENED"
    using fsm_client.rfc_refinement [OF client_intro [OF assms(1)] assms(2-4)] assms(5,6) by (auto split: option.splits)
  have "(e = Ev_confreq_good \<and> f_state f = PPP_FSM_ACKRCVD) \<or> (e = Ev_confack \<and> f_state f = PPP_FSM_ACKSENT)"
    using e(2) assms(5) by (cases e; cases "f_state f") simp_all
  then show ?thesis
    using e(1)
    by (cases a) (auto simp: rfc_event_of_def packet_event_def before_answer_def fsm_codes Let_def split: if_splits)
qed

theorem fsm_opens_by_mutual_ack_witness:
  "\<exists>p. Input [CONFACK, 1, 0, 4] = Input p \<and> p ! 1 = f_reqid (demo_fsm\<lparr>f_state := PPP_FSM_ACKSENT, f_reqid := 1\<rparr>)"
proof -
  let ?f = "demo_fsm\<lparr>f_state := PPP_FSM_ACKSENT, f_reqid := 1\<rparr>"
  have o1: "f_state (fsm_do demo_fsm_env (Input [CONFACK, 1, 0, 4]) ?f) = PPP_FSM_OPENED" by code_simp
  have h: "callbacks_keep demo_fsm_env" "f_flags ?f = 0" "max_term_transmits demo_fsm_env \<noteq> 0"
    using demo_env_ok by (simp_all add: env_ok_def demo_fsm_def demo_fsm_env_def)
  show ?thesis
    using fsm_opens_by_mutual_ack [OF h _ _ o1] by (auto simp: fsm_codes Let_def)
qed

text \<open>C30: negotiation and termination do not wait for ever for a silent peer: an automaton in one of the states with a timer, whose
  timer is running, whose callbacks leave the fields of the automaton alone, and which gets a buffer for
  each packet it sends, reaches \<open>STOPPED\<close> (or \<open>CLOSED\<close> when it was closing) after exactly one timeout more than it has
  retransmissions left, and no timer is left running. Without a buffer the timer may never be started
  (\<open>fsm_open_without_buffer\<close>).\<close>

theorem fsm_gives_up:
  assumes "callbacks_keep env" and "timed (f_state f)" and "pbuf_ok env" and "f_timers f = 1"
  shows "f_state (fsm_timeouts env (Suc (unat (f_retransmits f))) f) =
           (if f_state f = PPP_FSM_CLOSING then PPP_FSM_CLOSED else PPP_FSM_STOPPED)
       \<and> f_timers (fsm_timeouts env (Suc (unat (f_retransmits f))) f) = 0"
  using fsm_client.timeouts_give_up [OF client_intro [OF assms(1)] assms(2-4) refl] by (simp add: gave_up_def)

theorem fsm_gives_up_witness:
  "f_state (fsm_timeouts demo_fsm_env 3 (demo_fsm\<lparr>f_state := PPP_FSM_ACKRCVD, f_retransmits := 2, f_timers := 1\<rparr>))
     = PPP_FSM_STOPPED"
proof -
  let ?f = "demo_fsm\<lparr>f_state := PPP_FSM_ACKRCVD, f_retransmits := 2, f_timers := 1\<rparr>"
  have "Suc (unat (f_retransmits ?f)) = 3" by simp
  then show ?thesis
    using fsm_gives_up [of demo_fsm_env ?f] demo_env_ok by (simp add: env_ok_def)
qed

text \<open>when no buffer can be allocated for the first Configure-Request, opening the automaton leaves it in
  \<open>REQSENT\<close> without a packet sent and without a timer, so that nothing will ever retry.\<close>

theorem fsm_open_without_buffer:
  assumes "callbacks_keep env" and "\<And>g. f_trace (snd (own_cilen env g)) = f_trace g"
    and "f_state f = PPP_FSM_CLOSED" and "f_flags f = 0" and "\<not> pbuf_ok env" and "f_timers f = 0"
  shows "f_state (fsm_open env f) = PPP_FSM_REQSENT \<and> f_timers (fsm_open env f) = 0
     \<and> f_trace (fsm_open env f) = f_trace (call_back (cb_resetci env) Resetci f)"
  using assms fsm_client.sconfreq_fields(2) [OF client_intro [OF assms(1)], of False f]
  by (simp add: fsm_open_def, simp add: fsm_sconfreq_def goto_def negotiating_def Let_def split_beta)

theorem fsm_open_without_buffer_witness:
  "f_timers (fsm_open (demo_fsm_env\<lparr>pbuf_ok := False\<rparr>) (demo_fsm\<lparr>f_state := PPP_FSM_CLOSED\<rparr>)) = 0"
  using fsm_open_without_buffer [of "demo_fsm_env\<lparr>pbuf_ok := False\<rparr>" "demo_fsm\<lparr>f_state := PPP_FSM_CLOSED\<rparr>"] demo_env_ok
  by (simp add: demo_fsm_def env_ok_def callbacks_keep_def own_cilen_def demo_fsm_env_def)

end
