(* ===== verification/Ppp_Pcb.thy ===== *)
theory Ppp_Pcb
  imports Ppp_Mppe Ppp_Fsm Ppp_Const
begin

text \<open>
  The part of the PPP control block (\<open>src/lwip/src/include/netif/ppp/ppp.h\<close>) that encryption and its
  negotiation work on, and the functions of \<open>src/lwip/src/netif/ppp/ppp.c\<close> through which the control protocols
  change it. Calls into other layers are recorded in \<open>pcb_calls\<close>, in the order in which they are made.
\<close>

section \<open>Data\<close>

record ccp_options =
  mppe_opts :: u8
  cmethod :: u8

datatype ppp_call = Close_lcp string | Continue_networks | Reset_request

record ppp_pcb =
  require_mppe :: bool
  refuse_mppe_stateful :: bool
  refuse_mppe_40 :: bool
  refuse_mppe_128 :: bool
  auth_done :: u16
  mppe_keys_set :: bool
  lcp_state :: ppp_state
  if4_up :: bool
  vj_enabled :: bool
  ccp_wantoptions :: ccp_options
  ccp_gotoptions :: ccp_options
  ccp_allowoptions :: ccp_options
  ccp_hisoptions :: ccp_options
  ccp_all_rejected :: bool
  ccp_localstate :: u8
  ccp_receive_method :: u8
  ccp_transmit_method :: u8
  mppe_comp :: mppe
  mppe_decomp :: mppe
  netif_mtu :: u16
  rack_timers :: nat
  pcb_calls :: "ppp_call list"

text \<open>An automaton with its pointer to the control block.\<close>

record 'p pfsm = fsm +
  f_pcb :: 'p

definition CILEN_MPPE :: nat where "CILEN_MPPE = 6"
definition MPPE_PAD :: u16 where "MPPE_PAD = 4"
definition PPP_MPPE_DISABLE :: u8 where "PPP_MPPE_DISABLE = 0"
definition PPP_MPPE_ENABLE :: u8 where "PPP_MPPE_ENABLE = 1"
definition PPP_MPPE_ALLOW_STATEFUL :: u8 where "PPP_MPPE_ALLOW_STATEFUL = 2"
definition PPP_MPPE_REFUSE_40 :: u8 where "PPP_MPPE_REFUSE_40 = 4"
definition PPP_MPPE_REFUSE_128 :: u8 where "PPP_MPPE_REFUSE_128 = 8"

section \<open>Operations\<close>

definition call :: "ppp_call \<Rightarrow> ppp_pcb \<Rightarrow> ppp_pcb" where
  "call c pcb = pcb\<lparr>pcb_calls := pcb_calls pcb @ [c]\<rparr>"

definition mppe_call :: "mppe_event \<Rightarrow> ppp_call" where
  "mppe_call e = (case e of Lcp_close r \<Rightarrow> Close_lcp r | Ccp_resetrequest \<Rightarrow> Reset_request)"

definition ppp_set_mppe :: "u8 \<Rightarrow> ppp_pcb \<Rightarrow> ppp_pcb" where
  "ppp_set_mppe flags pcb =
     (if flags = PPP_MPPE_DISABLE then pcb\<lparr>require_mppe := False\<rparr>
      else pcb\<lparr>require_mppe := True,
               refuse_mppe_stateful := (flags AND PPP_MPPE_ALLOW_STATEFUL = 0),
               refuse_mppe_40 := (flags AND PPP_MPPE_REFUSE_40 \<noteq> 0),
               refuse_mppe_128 := (flags AND PPP_MPPE_REFUSE_128 \<noteq> 0)\<rparr>)"

definition ccp_set :: "bool \<Rightarrow> bool \<Rightarrow> u8 \<Rightarrow> u8 \<Rightarrow> ppp_pcb \<Rightarrow> ppp_pcb" where
  "ccp_set isopen isup receive_method transmit_method pcb =
     pcb\<lparr>ccp_receive_method := receive_method, ccp_transmit_method := transmit_method\<rparr>"

definition ccp_reset_comp :: "ppp_pcb \<Rightarrow> ppp_pcb" where
  "ccp_reset_comp pcb =
     (if ccp_transmit_method pcb = CI_MPPE then pcb\<lparr>mppe_comp := mppe_comp_reset (mppe_comp pcb)\<rparr> else pcb)"

definition ccp_reset_decomp :: "ppp_pcb \<Rightarrow> ppp_pcb" where
  "ccp_reset_decomp pcb =
     (if ccp_receive_method pcb = CI_MPPE then pcb\<lparr>mppe_decomp := mppe_decomp_reset (mppe_decomp pcb)\<rparr> else pcb)"

definition init_comp :: "u8 \<Rightarrow> ppp_pcb \<Rightarrow> ppp_pcb" where
  "init_comp opts pcb =
     (let (st, es) = mppe_init opts (mppe_comp pcb)
      in pcb\<lparr>mppe_comp := st, pcb_calls := pcb_calls pcb @ map mppe_call es\<rparr>)"

definition init_decomp :: "u8 \<Rightarrow> ppp_pcb \<Rightarrow> ppp_pcb" where
  "init_decomp opts pcb =
     (let (st, es) = mppe_init opts (mppe_decomp pcb)
      in pcb\<lparr>mppe_decomp := st, pcb_calls := pcb_calls pcb @ map mppe_call es\<rparr>)"

definition on_pcb :: "('p \<Rightarrow> 'p) \<Rightarrow> 'p pfsm \<Rightarrow> 'p pfsm" where
  "on_pcb g f = f\<lparr>f_pcb := g (f_pcb f)\<rparr>"

text \<open>The settings the proxy engine asks for: encryption required, 128 bits, no stateful mode.\<close>

definition engine_settings :: "ppp_pcb \<Rightarrow> bool" where
  "engine_settings pcb \<longleftrightarrow> require_mppe pcb \<and> refuse_mppe_stateful pcb \<and> refuse_mppe_40 pcb \<and> \<not> refuse_mppe_128 pcb"

lemma engine_sets_mppe: "engine_settings (ppp_set_mppe (PPP_MPPE_ENABLE OR PPP_MPPE_REFUSE_40) pcb)"
  by (simp add: engine_settings_def ppp_set_mppe_def PPP_MPPE_ENABLE_def PPP_MPPE_REFUSE_40_def
      PPP_MPPE_DISABLE_def PPP_MPPE_ALLOW_STATEFUL_def PPP_MPPE_REFUSE_128_def)

end
