(* ===== verification/Vj_Ring.thy ===== *)
theory Vj_Ring
  imports Vj
begin

text \<open>
  The linked ring of transmit states implements a list in the order of last use: locating a conversation always
  ends, finds the state of the conversation if there is one and else the least recently used state, and moves
  it to the front.
\<close>

section \<open>Linked lists of indices\<close>

fun linked :: "('a \<Rightarrow> 'a) \<Rightarrow> 'a list \<Rightarrow> bool" where
  "linked f (x # y # zs) \<longleftrightarrow> f x = y \<and> linked f (y # zs)"
| "linked f _ \<longleftrightarrow> True"

lemma linked_Cons: "linked f (x # ys) \<longleftrightarrow> linked f ys \<and> (ys \<noteq> [] \<longrightarrow> f x = hd ys)"
  by (cases ys) auto

lemma linked_append:
  "linked f (xs @ ys) \<longleftrightarrow> linked f xs \<and> linked f ys \<and> (xs \<noteq> [] \<and> ys \<noteq> [] \<longrightarrow> f (last xs) = hd ys)"
  by (induction xs) (auto simp: linked_Cons hd_append)

lemma linked_cong: "(\<And>x. x \<in> set (butlast xs) \<Longrightarrow> f x = g x) \<Longrightarrow> linked f xs = linked g xs"
  by (induction f xs rule: linked.induct) auto

definition ring_order :: "nat \<Rightarrow> (nat \<Rightarrow> nat) \<Rightarrow> nat list \<Rightarrow> bool" where
  "ring_order l nxt os \<longleftrightarrow>
     distinct os \<and> set os = {..<MAX_SLOTS} \<and> last os = l \<and> linked nxt os \<and> nxt l = hd os"

definition ring :: "vjcompress \<Rightarrow> nat list \<Rightarrow> bool" where
  "ring vc os \<longleftrightarrow> length (tstate vc) = MAX_SLOTS \<and> ring_order (last_cs vc) (next_of vc) os"

definition to_front :: "'a \<Rightarrow> 'a list \<Rightarrow> 'a list" where
  "to_front c os = c # remove1 c os"

definition lru_pick :: "(nat \<Rightarrow> bool) \<Rightarrow> nat list \<Rightarrow> bool \<times> nat" where
  "lru_pick hit os = (case List.find hit os of Some c \<Rightarrow> (True, c) | None \<Rightarrow> (False, last os))"

section \<open>The search loop\<close>

lemma vj_search_hit:
  "linked nxt (cs # a @ h # b) \<Longrightarrow> distinct (a @ h # b) \<Longrightarrow> hit h \<Longrightarrow> \<forall>x \<in> set a. \<not> hit x \<Longrightarrow> l = last (h # b) \<Longrightarrow>
   vj_search hit nxt l cs = Some (True, last (cs # a), h)"
proof (induction a arbitrary: cs)
  case Nil
  then show ?case by (simp add: vj_search.simps)
next
  case (Cons x a)
  have "x \<noteq> l" using Cons.prems by (auto split: if_splits dest: last_in_set)
  then show ?case using Cons by (subst vj_search.simps) simp
qed

lemma vj_search_miss:
  "linked nxt (cs # rest) \<Longrightarrow> distinct rest \<Longrightarrow> rest \<noteq> [] \<Longrightarrow> \<forall>x \<in> set rest. \<not> hit x \<Longrightarrow>
   vj_search hit nxt (last rest) cs = Some (False, last (cs # butlast rest), last rest)"
proof (induction rest arbitrary: cs)
  case (Cons x rest)
  show ?case
  proof (cases "rest = []")
    case True
    then show ?thesis using Cons.prems by (simp add: vj_search.simps)
  next
    case False
    then have "x \<noteq> last rest" using Cons.prems by (auto dest: last_in_set)
    then show ?thesis using Cons False by (subst vj_search.simps) simp
  qed
qed simp

lemma ring_rotate:
  assumes "ring_order l nxt (os @ [l])" "os \<noteq> []"
  shows "ring_order (last os) nxt (l # os)"
  using assms by (auto simp: ring_order_def linked_append linked_Cons)

lemma ring_move:
  assumes r: "ring_order l nxt (x # a @ h # b)" and b: "b \<noteq> []"
    and n: "nxt' = ((nxt(last (x # a) := nxt h))(h := nxt l))(l := h)"
  shows "ring_order l nxt' (h # x # a @ b)"
proof -
  have d: "distinct (x # a @ h # b)" and l: "last b = l" "nxt l = x" "nxt h = hd b"
    and lk: "linked nxt (x # a)" "linked nxt b"
    using r b by (auto simp: ring_order_def linked_append linked_Cons split: if_splits)
  have lb: "l \<in> set b" "b = butlast b @ [l]" using l(1) b last_in_set append_butlast_last_id by fastforce+
  have la: "last (x # a) \<in> set (x # a)" by (rule last_in_set) simp
  have ne: "h \<noteq> l" "last (x # a) \<noteq> l" "last (x # a) \<noteq> h" using d lb(1) la by auto
  have xa: "x # a = butlast (x # a) @ [last (x # a)]" by simp
  have bl: "last (x # a) \<notin> set (butlast (x # a))" "l \<notin> set (butlast b)"
    using d xa lb(2) by (metis distinct_append not_distinct_conv_prefix append_butlast_last_id distinct.simps(2) append_Cons)+
  have nb: "last (x # a) \<notin> set b" using d la by auto
  have "linked nxt' (x # a)"
    using lk(1) by (rule iffD1 [OF linked_cong, rotated]) (use d bl lb(1) ne n in \<open>auto dest: in_set_butlastD split: if_splits\<close>)
  moreover have "linked nxt' b"
    using lk(2) by (rule iffD1 [OF linked_cong, rotated]) (use n d bl ne nb in \<open>auto simp: fun_upd_apply dest: in_set_butlastD\<close>)
  moreover have nx: "nxt' (last (x # a)) = hd b" "nxt' h = x" "nxt' l = h" using n ne l by (simp_all only: fun_upd_apply if_False if_True refl)
  ultimately have "linked nxt' (h # (x # a) @ b)"
    using b unfolding linked_Cons linked_append by simp
  moreover have "distinct (h # (x # a) @ b)" "set (h # (x # a) @ b) = {..<MAX_SLOTS}" "last (h # (x # a) @ b) = l"
    using r b l by (auto simp: ring_order_def)
  ultimately show ?thesis using nx(3) unfolding ring_order_def by simp
qed


section \<open>Locating a conversation\<close>

definition same_saved :: "vjcompress \<Rightarrow> vjcompress \<Rightarrow> bool" where
  "same_saved v w \<longleftrightarrow> map cs_id (tstate w) = map cs_id (tstate v) \<and> map cs_hdr (tstate w) = map cs_hdr (tstate v)
     \<and> last_xmit w = last_xmit v \<and> compressSlot w = compressSlot v \<and> maxSlotIndex w = maxSlotIndex v
     \<and> last_recv w = last_recv v \<and> vj_flags w = vj_flags v \<and> rstate w = rstate v"

lemma map_update_same: "g y = g (xs ! i) \<Longrightarrow> map g (xs[i := y]) = map g xs"
  by (cases "i < length xs") (auto intro!: nth_equalityI simp: nth_list_update)

lemma set_next_facts [simp]:
  "length (set_next i n ts) = length ts"
  "map cs_id (set_next i n ts) = map cs_id ts" "map cs_hdr (set_next i n ts) = map cs_hdr ts"
  by (simp_all add: set_next_def map_update_same)

lemma cs_next_set_next [simp]:
  "i < length ts \<Longrightarrow> cs_next (set_next i n ts ! k) = (if k = i then n else cs_next (ts ! k))"
  by (simp add: set_next_def nth_list_update)

definition located :: "octets \<Rightarrow> vjcompress \<Rightarrow> nat list \<Rightarrow> bool \<Rightarrow> nat \<Rightarrow> bool" where
  "located p vc os found c \<longleftrightarrow>
     (\<exists>vc'. vj_locate p vc = Some (found, c, vc') \<and> ring vc' (to_front c os) \<and> same_saved vc vc')"

lemma ring_cases:
  assumes "ring vc os"
  obtains x rest where "os = x # rest" "x = next_of vc (last_cs vc)" "rest \<noteq> []" "last rest = last_cs vc"
    "linked (next_of vc) os" "distinct os"
proof -
  have "card (set os) = 16" using assms by (simp add: ring_def ring_order_def MAX_SLOTS_def)
  then obtain x rest where "os = x # rest" "rest \<noteq> []"
    by (cases os; cases "tl os") auto
  then show ?thesis using assms that by (auto simp: ring_def ring_order_def)
qed

lemma ring_bound: "ring vc os \<Longrightarrow> i \<in> set os \<Longrightarrow> i < length (tstate vc)"
  by (simp add: ring_def ring_order_def)

lemma located_last:
  assumes r: "ring vc (x # rest)" and x: "x = next_of vc (last_cs vc)" and rest: "rest = a @ [last_cs vc]"
    and miss: "\<not> vj_match p (tstate vc ! x)"
    and s: "vj_search (\<lambda>i. vj_match p (tstate vc ! i)) (next_of vc) (last_cs vc) x = Some (f, last (x # a), last_cs vc)"
  shows "located p vc (x # rest) f (last_cs vc)"
proof -
  have ro: "ring_order (last_cs vc) (next_of vc) ((x # a) @ [last_cs vc])" and d: "distinct ((x # a) @ [last_cs vc])"
    using r rest by (simp_all add: ring_def ring_order_def)
  then have "ring_order (last (x # a)) (next_of vc) (last_cs vc # x # a)" by (intro ring_rotate) simp_all
  moreover have "to_front (last_cs vc) (x # rest) = last_cs vc # x # a"
    using d unfolding rest to_front_def by (simp add: remove1_append)
  ultimately have "ring (vc\<lparr>last_cs := last (x # a)\<rparr>) (to_front (last_cs vc) (x # rest))"
    using r by (simp add: ring_def next_of_def [abs_def] del: last.simps)
  moreover have "vj_locate p vc = Some (f, last_cs vc, vc\<lparr>last_cs := last (x # a)\<rparr>)"
    using s miss x by (simp add: vj_locate_def Let_def del: last.simps)
  ultimately show ?thesis by (auto simp: located_def same_saved_def)
qed

lemma located_inner:
  assumes r: "ring vc (x # a @ h # b)" and x: "x = next_of vc (last_cs vc)" and b: "b \<noteq> []"
    and miss: "\<not> vj_match p (tstate vc ! x)"
    and s: "vj_search (\<lambda>i. vj_match p (tstate vc ! i)) (next_of vc) (last_cs vc) x = Some (True, last (x # a), h)"
  shows "located p vc (x # a @ h # b) True h"
proof -
  let ?l = "last_cs vc" and ?lcs = "last (x # a)"
  have ro: "ring_order ?l (next_of vc) (x # a @ h # b)" and d: "distinct (x # a @ h # b)" and lb: "?l \<in> set b"
    using r b last_in_set [OF b] by (auto simp: ring_def ring_order_def)
  have lcs: "?lcs \<in> set (x # a)" by (rule last_in_set) simp
  define ts1 where "ts1 = set_next ?lcs (cs_next (tstate vc ! h)) (tstate vc)"
  define ts2 where "ts2 = set_next h (cs_next (ts1 ! ?l)) ts1"
  define ts3 where "ts3 = set_next ?l h ts2"
  have lt: "?lcs < length (tstate vc)" "h < length (tstate vc)" "?l < length (tstate vc)"
    using ring_bound [OF r] lb lcs by auto
  have ne: "?l \<noteq> ?lcs" "h \<noteq> ?l" "h \<noteq> ?lcs" using lb d lcs by auto
  have "next_of (vc\<lparr>tstate := ts3\<rparr>) = ((next_of vc)(?lcs := next_of vc h, h := next_of vc ?l, ?l := h))"
    using lt ne by (intro ext) (simp add: next_of_def ts1_def ts2_def ts3_def fun_upd_apply del: last.simps)
  then have "ring_order ?l (next_of (vc\<lparr>tstate := ts3\<rparr>)) (h # x # a @ b)" by (rule ring_move [OF ro b])
  moreover have "to_front h (x # a @ h # b) = h # x # a @ b" using d by (simp add: to_front_def remove1_append)
  ultimately have "ring (vc\<lparr>tstate := ts3\<rparr>) (to_front h (x # a @ h # b))"
    using r by (simp add: ring_def ts1_def ts2_def ts3_def del: last.simps)
  moreover have "vj_locate p vc = Some (True, h, vc\<lparr>tstate := ts3\<rparr>)"
    using s x miss ne by (simp add: vj_locate_def Let_def ts1_def ts2_def ts3_def del: last.simps)
  moreover have "same_saved vc (vc\<lparr>tstate := ts3\<rparr>)"
    by (simp add: same_saved_def ts1_def ts2_def ts3_def del: last.simps)
  ultimately show ?thesis by (auto simp: located_def)
qed

lemma locate_located:
  assumes r: "ring vc os"
  shows "located p vc os (fst (lru_pick (\<lambda>i. vj_match p (tstate vc ! i)) os))
           (snd (lru_pick (\<lambda>i. vj_match p (tstate vc ! i)) os))"
proof -
  let ?hit = "\<lambda>i. vj_match p (tstate vc ! i)"
  obtain x rest where os: "os = x # rest" "x = next_of vc (last_cs vc)" "rest \<noteq> []" "last rest = last_cs vc"
    and lk: "linked (next_of vc) os" and d: "distinct os"
    using r by (rule ring_cases) blast
  consider "?hit x" | "\<not> ?hit x" "\<forall>i \<in> set rest. \<not> ?hit i" | "\<not> ?hit x" "\<exists>i \<in> set rest. ?hit i" by blast
  then show ?thesis
  proof cases
    case 1
    then show ?thesis using r os
      by (auto simp: located_def vj_locate_def lru_pick_def to_front_def same_saved_def Let_def)
  next
    case 2
    have rest: "rest = butlast rest @ [last_cs vc]" using os(3,4) append_butlast_last_id by metis
    have "vj_search ?hit (next_of vc) (last_cs vc) x = Some (False, last (x # butlast rest), last_cs vc)"
      using vj_search_miss [of "next_of vc" x rest ?hit] lk d os 2 by simp
    moreover have "lru_pick ?hit os = (False, last_cs vc)"
      using 2 os by (auto simp: lru_pick_def find_None_iff split: option.splits dest!: find_Some_iff [THEN iffD1])
    ultimately show ?thesis using located_last [OF r [unfolded os(1)] os(2) rest 2(1), of False] os(1) by simp
  next
    case 3
    obtain a h b where sp: "rest = a @ h # b" "?hit h" "\<forall>i \<in> set a. \<not> ?hit i"
      using split_list_first_prop [OF 3(2)] by blast
    have s: "vj_search ?hit (next_of vc) (last_cs vc) x = Some (True, last (x # a), h)"
      using vj_search_hit [of "next_of vc" x a h b ?hit "last_cs vc"] lk [unfolded os(1) sp(1)] d [unfolded os(1) sp(1)] os(4) sp(2,3) unfolding sp(1) by simp
    have "List.find ?hit (a @ h # b) = Some h" using sp(2,3) by (induction a) simp_all
    then have "lru_pick ?hit os = (True, h)" using os(1) sp(1) 3(1) by (simp add: lru_pick_def)
    then show ?thesis
      using located_last [OF r [unfolded os(1)] os(2), of a p True] located_inner [of vc x a h b p] s os sp(1) r 3(1)
      by (cases "b = []") simp_all
  qed
qed

lemma init_next: "i < 16 \<Longrightarrow> next_of (vj_compress_init vc) i = (if i = 0 then 15 else i - 1)"
  by (simp add: next_of_def vj_compress_init_def MAX_SLOTS_def)

lemma ring_init: "ring (vj_compress_init vc) [15, 14, 13, 12, 11, 10, 9, 8, 7, 6, 5, 4, 3, 2, 1, 0]"
proof -
  have "set [15, 14, 13, 12, 11, 10, 9, 8, 7, 6, 5, 4, 3, 2, 1, 0] = {..<16 :: nat}"
    by (auto simp: lessThan_nat_numeral)
  moreover have "last_cs (vj_compress_init vc) = 0" "length (tstate (vj_compress_init vc)) = 16"
    by (simp_all add: vj_compress_init_def MAX_SLOTS_def)
  ultimately show ?thesis by (simp add: ring_def ring_order_def init_next MAX_SLOTS_def)
qed

text \<open>C28: the ring of transmit states behaves as a list in the order of last use: the search always ends, it finds the
  state of the packet's conversation if there is one and else takes the least recently used state, moves it to
  the front, and changes no saved header.\<close>

theorem vj_locate_lru:
  assumes "ring vc os"
  shows "\<exists>vc'. vj_locate p vc = Some (fst (lru_pick (\<lambda>i. vj_match p (tstate vc ! i)) os),
                                      snd (lru_pick (\<lambda>i. vj_match p (tstate vc ! i)) os), vc')
     \<and> ring vc' (to_front (snd (lru_pick (\<lambda>i. vj_match p (tstate vc ! i)) os)) os) \<and> same_saved vc vc'"
  using locate_located [OF assms, of p] by (simp add: located_def)

theorem vj_locate_lru_witness:
  "\<exists>vc'. vj_locate (replicate 40 1) (vj_compress_init zero_vj) = Some (False, 0, vc')
     \<and> ring vc' [0, 15, 14, 13, 12, 11, 10, 9, 8, 7, 6, 5, 4, 3, 2, 1] \<and> same_saved (vj_compress_init zero_vj) vc'"
proof -
  have "\<not> vj_match (replicate 40 1) (tstate (vj_compress_init zero_vj) ! i)" if "i < 16" for i
    using that by (simp add: vj_match_def vj_compress_init_def zero_vj_def MAX_SLOTS_def get32_def get16_def)
  then have "lru_pick (\<lambda>i. vj_match (replicate 40 1) (tstate (vj_compress_init zero_vj) ! i))
      [15, 14, 13, 12, 11, 10, 9, 8, 7, 6, 5, 4, 3, 2, 1, 0] = (False, 0)"
    by (simp add: lru_pick_def)
  then show ?thesis
    using vj_locate_lru [OF ring_init [of zero_vj], of "replicate 40 1"] by (simp add: to_front_def)
qed

end
