(* ===== verification/Vj_Correct.thy ===== *)
theory Vj_Correct
  imports Vj_Ring
begin

text \<open>
  Header compression is lossless: two ends in step stay in step, and every well-formed packet comes out of the
  decompressor as it went into the compressor.
\<close>

section \<open>Encoded numbers\<close>

definition holds :: "(nat \<Rightarrow> u8) \<Rightarrow> nat \<Rightarrow> octets \<Rightarrow> bool" where
  "holds mem cp xs \<longleftrightarrow> (\<forall>j < length xs. mem (cp + j) = xs ! j)"

lemma holds_Nil [simp]: "holds mem cp []"
  by (simp add: holds_def)

lemma holds_Cons [simp]: "holds mem cp (x # xs) \<longleftrightarrow> mem cp = x \<and> holds mem (Suc cp) xs"
  by (auto simp: holds_def nth_Cons' less_Suc_eq_0_disj)

lemma holds_append [simp]: "holds mem cp (xs @ ys) \<longleftrightarrow> holds mem cp xs \<and> holds mem (cp + length xs) ys"
  by (induction xs arbitrary: cp) simp_all

lemma lo8_small: "v < 256 \<Longrightarrow> ucast (lo8 v) = v" "v < 256 \<Longrightarrow> lo8 v = 0 \<longleftrightarrow> v = 0"
proof -
  have u: "ucast (lo8 v) = v" if "v < 256"
  proof -
    have "unat v < 256" using that by (simp add: word_less_nat_alt)
    then show ?thesis by (simp add: lo8_def word_unat_eq_iff unsigned_ucast_eq take_bit_eq_mod unat_mod)
  qed
  show "v < 256 \<Longrightarrow> ucast (lo8 v) = v" "v < 256 \<Longrightarrow> lo8 v = 0 \<longleftrightarrow> v = 0"
    using u by (auto simp: lo8_def)
qed

lemma DECODE_ENCODE: "v \<noteq> 0 \<Longrightarrow> holds mem cp (ENCODE v) \<Longrightarrow> DECODE mem cp = (v, cp + length (ENCODE v))"
  by (cases "256 \<le> v") (auto simp: ENCODE_def DECODE_def lo8_small not_le)

lemma DECODE_ENCODEZ: "holds mem cp (ENCODEZ v) \<Longrightarrow> DECODE mem cp = (v, cp + length (ENCODEZ v))"
  using DECODE_ENCODE [of v mem cp]
  by (cases "v = 0") (auto simp: ENCODEZ_def ENCODE_def DECODE_def hi8_def lo8_def)

lemma ENCODE_length: "length (ENCODE v) \<le> 3" "length (ENCODEZ v) \<le> 3"
  by (simp_all add: ENCODE_def ENCODEZ_def)

lemma decode_if_code:
  assumes "b \<Longrightarrow> DECODE mem cp = (v, cp + length e)" and "e' = (if b then e else [])"
  shows "decode_if b mem upd (h, cp) = (if b then upd v h else h, cp + length e')"
  using assms by (simp add: decode_if_def)

section \<open>The flags of the TCP header\<close>

definition clean_flags :: "u16 \<Rightarrow> bool" where
  "clean_flags w \<longleftrightarrow> w AND 0x0fd7 = 0x10"

lemma clean_bits:
  assumes "clean_flags w"
  shows "\<not> bit w 0" "\<not> bit w 1" "\<not> bit w 2" "bit w 4" "\<not> bit w 6" "\<not> bit w 7" "\<not> bit w 8" "\<not> bit w 9" "\<not> bit w 10"
    "\<not> bit w 11"
proof -
  have "bit (w AND 0x0fd7) n = bit (0x10 :: u16) n" for n using assms by (simp add: clean_flags_def)
  from this [of 0] this [of 1] this [of 2] this [of 4] this [of 6] this [of 7] this [of 8] this [of 9] this [of 10] this [of 11]
  show "\<not> bit w 0" "\<not> bit w 1" "\<not> bit w 2" "bit w 4" "\<not> bit w 6" "\<not> bit w 7" "\<not> bit w 8" "\<not> bit w 9" "\<not> bit w 10"
    "\<not> bit w 11"
    by (simp_all add: bit_and_iff)
qed

lemma flag_bits:
  "(w AND TCP_FLAGS) AND TCP_URG \<noteq> 0 \<longleftrightarrow> bit w 5" "(w AND TCP_FLAGS) AND TCP_PSH \<noteq> 0 \<longleftrightarrow> bit (w :: u16) 3"
proof -
  have m: "(w AND TCP_FLAGS) AND TCP_URG = (if bit w 5 then 0x20 else 0)"
    "(w AND TCP_FLAGS) AND TCP_PSH = (if bit w 3 then 0x08 else 0)"
    by (rule bit_word_eqI; auto simp: bit_simps TCP_FLAGS_def TCP_URG_def TCP_PSH_def numeral_eq_Suc bit_Suc less_Suc_eq; fail)+
  show "(w AND TCP_FLAGS) AND TCP_URG \<noteq> 0 \<longleftrightarrow> bit w 5" "(w AND TCP_FLAGS) AND TCP_PSH \<noteq> 0 \<longleftrightarrow> bit w 3"
    by (simp_all add: m)
qed

definition put_flag :: "bool \<Rightarrow> u16 \<Rightarrow> u16 \<Rightarrow> u16" where
  "put_flag b fl v = (if b then v OR fl else v AND NOT fl)"

lemma bit_put_flag:
  "n < 16 \<Longrightarrow> bit (put_flag b TCP_PSH v) n \<longleftrightarrow> (if n = 3 then b else bit v n)"
  "n < 16 \<Longrightarrow> bit (put_flag b TCP_URG v) n \<longleftrightarrow> (if n = 5 then b else bit v n)"
proof -
  have p: "TCP_PSH = 2 ^ 3" "TCP_URG = 2 ^ 5" by (simp_all add: TCP_PSH_def TCP_URG_def)
  have g: "bit (if b then v OR 2 ^ k else v AND NOT (2 ^ k)) n \<longleftrightarrow> (if n = k then b else bit v n)" if "n < 16" for k
    using that by (auto simp: bit_or_iff bit_and_iff bit_not_iff bit_exp_iff)
  show "n < 16 \<Longrightarrow> bit (put_flag b TCP_PSH v) n \<longleftrightarrow> (if n = 3 then b else bit v n)"
    "n < 16 \<Longrightarrow> bit (put_flag b TCP_URG v) n \<longleftrightarrow> (if n = 5 then b else bit v n)"
    unfolding put_flag_def p by (rule g, assumption)+
qed

lemma flags_rebuilt:
  assumes v: "clean_flags v" and w: "clean_flags w" and top: "drop_bit 12 v = drop_bit 12 w"
  shows "put_flag (bit w 5) TCP_URG (put_flag (bit w 3) TCP_PSH v) = w"
    and "bit v 5 = bit w 5 \<Longrightarrow> put_flag (bit w 3) TCP_PSH v = w"
proof -
  have h: "bit v (12 + n) = bit w (12 + n)" for n
    using top by (metis bit_drop_bit_eq comp_apply)
  have n16: "n \<in> {0, 1, 2, 3, 4, 5, 6, 7, 8, 9, 10, 11, 12 + 0, 12 + 1, 12 + 2, 12 + 3}" if "n < 16" for n :: nat
    using that by (simp, presburger)
  have eq: "bit v n = bit w n" if "n < 16" "n \<noteq> 3" "n \<noteq> 5" for n
    using n16 [OF that(1)] that(2,3) clean_bits [OF v] clean_bits [OF w] h
    by (elim insertE emptyE) (simp_all only: simp_thms)
  show "put_flag (bit w 5) TCP_URG (put_flag (bit w 3) TCP_PSH v) = w"
    by (rule bit_word_eqI) (use eq in \<open>auto simp: bit_put_flag\<close>)
  show "put_flag (bit w 3) TCP_PSH v = w" if "bit v 5 = bit w 5"
    by (rule bit_word_eqI) (use eq that in \<open>auto simp: bit_put_flag\<close>)
qed

section \<open>Decoding one field\<close>

lemma put_get_same [simp]:
  "Suc j < length h \<Longrightarrow> put16 j (get16 h j) h = h" "j + 3 < length h \<Longrightarrow> put32 j (get32 h j) h = h"
  by (auto intro!: nth_equalityI simp: nth_put16 nth_put32 get32_halves numeral_3_eq_3)

lemma add16_diff [simp]: "add16 j (x - get16 h j) h = put16 j x h"
  by (simp add: add16_def)

lemma add32_diff [simp]: "add32 j (x - get32 h j) h = put32 j x h"
  by (simp add: add32_def)

lemma ucast_small:
  fixes d :: u32
  assumes "\<not> d > 0xffff"
  shows "ucast (ucast d :: u16) = d" "(ucast d :: u16) = 0 \<longleftrightarrow> d = 0"
proof -
  have "unat d < 65536" using assms by (simp add: word_less_nat_alt)
  then show e: "ucast (ucast d :: u16) = d"
    by (simp add: word_unat_eq_iff unsigned_ucast_eq take_bit_eq_mod unat_mod)
  show "(ucast d :: u16) = 0 \<longleftrightarrow> d = 0" using e by force
qed

lemma decode_add16:
  assumes "Suc j < length h" and "d = x - get16 h j" and "holds mem cp (if d \<noteq> 0 then ENCODE d else [])"
  shows "decode_if (d \<noteq> 0) mem (add16 j) (h, cp) = (put16 j x h, cp + length (if d \<noteq> 0 then ENCODE d else []))"
  using assms DECODE_ENCODE [of d mem cp] by (cases "d = 0") (auto simp: decode_if_def)

lemma decode_add32:
  assumes "j + 3 < length h" and "d = x - get32 h j" and "\<not> d > 0xffff"
    and "holds mem cp (if d \<noteq> 0 then ENCODE (ucast d) else [])"
  shows "decode_if (d \<noteq> 0) mem (\<lambda>v. add32 j (ucast v)) (h, cp)
    = (put32 j x h, cp + length (if d \<noteq> 0 then ENCODE (ucast d) else []))"
  using assms DECODE_ENCODE [of "ucast d" mem cp] ucast_small [OF assms(3)]
  by (cases "d = 0") (auto simp: decode_if_def)

lemma decode_id:
  assumes "holds mem cp (if d \<noteq> 1 then ENCODEZ d else [])" and "d = x - get16 h 4"
  shows "(if d \<noteq> 1 then decode_if True mem (add16 4) (h, cp) else (add16 4 1 h, cp))
    = (put16 4 x h, cp + length (if d \<noteq> 1 then ENCODEZ d else []))"
  using assms DECODE_ENCODEZ [of mem cp d] add16_diff [of 4 x h]
  by (cases "d = 1") (auto simp: decode_if_def simp del: add16_diff)

lemma decode_urgent:
  assumes "Suc j < length h" and "holds mem cp (if u then ENCODEZ x else [])" and "\<not> u \<Longrightarrow> x = get16 h j"
  shows "decode_if u mem (\<lambda>v. put16 j v) (h, cp) = (put16 j x h, cp + length (if u then ENCODEZ x else []))"
  using assms DECODE_ENCODEZ [of mem cp x] by (auto simp: decode_if_def)

section \<open>The octet of changes\<close>

definition change_mask :: "bool \<Rightarrow> bool \<Rightarrow> bool \<Rightarrow> bool \<Rightarrow> u8" where
  "change_mask u w a s = flag u NEW_U OR flag w NEW_W OR flag a NEW_A OR flag s NEW_S"

lemma change_mask_cases:
  "change_mask u w a s = SPECIAL_I \<longleftrightarrow> u \<and> w \<and> \<not> a \<and> s" "change_mask u w a s = SPECIAL_D \<longleftrightarrow> u \<and> w \<and> a \<and> s"
  "change_mask u w a s = NEW_S OR NEW_A \<longleftrightarrow> \<not> u \<and> \<not> w \<and> a \<and> s" "change_mask u w a s = NEW_S \<longleftrightarrow> \<not> u \<and> \<not> w \<and> \<not> a \<and> s"
  "change_mask u w a s = 0 \<longleftrightarrow> \<not> u \<and> \<not> w \<and> \<not> a \<and> \<not> s"
  by (cases u; cases w; cases a; cases s; simp add: change_mask_def flag_def vj_bits)+

definition sent_mask :: "u8 \<Rightarrow> bool \<Rightarrow> bool \<Rightarrow> bool \<Rightarrow> u8" where
  "sent_mask m i k x = m OR flag i NEW_I OR flag k TCP_PUSH_BIT OR flag x NEW_C"

lemma sent_mask_bits:
  "sent_mask (change_mask u w a s) i k x AND NEW_U \<noteq> 0 \<longleftrightarrow> u"
  "sent_mask (change_mask u w a s) i k x AND NEW_W \<noteq> 0 \<longleftrightarrow> w"
  "sent_mask (change_mask u w a s) i k x AND NEW_A \<noteq> 0 \<longleftrightarrow> a"
  "sent_mask (change_mask u w a s) i k x AND NEW_S \<noteq> 0 \<longleftrightarrow> s"
  "sent_mask (change_mask u w a s) i k x AND NEW_I \<noteq> 0 \<longleftrightarrow> i"
  "sent_mask (change_mask u w a s) i k x AND TCP_PUSH_BIT \<noteq> 0 \<longleftrightarrow> k"
  "sent_mask (change_mask u w a s) i k x AND NEW_C \<noteq> 0 \<longleftrightarrow> x"
  "sent_mask (change_mask u w a s) i k x AND SPECIALS_MASK = change_mask u w a s"
  by (cases u; cases w; cases a; cases s; cases i; cases k; cases x; simp add: sent_mask_def change_mask_def flag_def vj_bits)+

lemma special_masks: "SPECIAL_I = change_mask True True False True" "SPECIAL_D = change_mask True True True True"
  by (simp_all add: change_mask_def flag_def vj_bits)

section \<open>Rebuilding a header\<close>

definition tcp_at :: "octets \<Rightarrow> nat" where "tcp_at h = 4 * IPH_HL h"

definition hdr_len :: "octets \<Rightarrow> nat" where "hdr_len h = 4 * (IPH_HL h + TCPH_HDRLEN h (tcp_at h))"

lemma IPH_HL_less: "IPH_HL h < 16"
proof -
  have "h ! 0 AND 0x0f \<le> 0x0f" by (rule word_and_le1)
  then show ?thesis by (simp add: IPH_HL_def word_le_nat_alt)
qed

lemma TCPH_HDRLEN_less: "TCPH_HDRLEN h t < 16"
proof -
  have "unat (get16 h (t + 12)) < 2 ^ LENGTH(16)" by (rule unsigned_less)
  then show ?thesis by (simp add: TCPH_HDRLEN_def drop_bit_eq_div unat_div)
qed

text \<open>The header of a segment that the compressor takes on, without the bits it does not look at.\<close>

definition vj_header_ok :: "octets \<Rightarrow> bool" where
  "vj_header_ok h \<longleftrightarrow> (let t = tcp_at h in IPH_HL h \<ge> 5 \<and> TCPH_HDRLEN h t \<ge> 5 \<and> clean_flags (get16 h (t + 12))
     \<and> (bit (get16 h (t + 12)) 5 \<longleftrightarrow> get16 h (t + 18) \<noteq> 0))"

lemma header_sizes:
  assumes "vj_header_ok h"
  shows "20 \<le> tcp_at h" "tcp_at h \<le> 60" "tcp_at h + 20 \<le> hdr_len h" "hdr_len h \<le> 120"
proof -
  have "IPH_HL h \<ge> 5" "TCPH_HDRLEN h (tcp_at h) \<ge> 5" using assms by (simp_all add: vj_header_ok_def Let_def)
  then show "20 \<le> tcp_at h" "tcp_at h \<le> 60" "tcp_at h + 20 \<le> hdr_len h" "hdr_len h \<le> 120"
    using IPH_HL_less [of h] TCPH_HDRLEN_less [of h "tcp_at h"] unfolding tcp_at_def hdr_len_def by auto
qed

definition rebuilt :: "octets \<Rightarrow> nat \<Rightarrow> octets \<Rightarrow> octets" where
  "rebuilt p t g = put16 4 (get16 p 4) (put32 (t + 4) (get32 p (t + 4)) (put32 (t + 8) (get32 p (t + 8))
     (put16 (t + 14) (get16 p (t + 14)) (put16 (t + 18) (get16 p (t + 18))
       (put16 (t + 12) (get16 p (t + 12)) (put16 (t + 16) (get16 p (t + 16)) g))))))"

lemma nth_put_get16:
  "Suc i < length g \<Longrightarrow> put16 i (get16 p i) g ! k = (if i \<le> k \<and> k < i + 2 then p ! k else g ! k)"
  by (auto simp: nth_put16 le_less_Suc_eq)

lemma nth_put_get32:
  "i + 3 < length g \<Longrightarrow> put32 i (get32 p i) g ! k = (if i \<le> k \<and> k < i + 4 then p ! k else g ! k)"
  by (auto simp: put32_def get32_halves nth_put_get16)

lemma rebuilt_nth:
  assumes "length g = 128" and "20 \<le> t" and "t \<le> 60"
  shows "rebuilt p t g ! i = (if i \<in> {4, 5} \<or> t + 4 \<le> i \<and> i < t + 20 then p ! i else g ! i)"
  using assms unfolding rebuilt_def by (simp add: nth_put_get16 nth_put_get32) (safe; linarith)

lemma length_rebuilt [simp]: "length (rebuilt p t g) = length g"
  by (simp add: rebuilt_def)


text \<open>The three ways in which a packet is sent compressed.\<close>

definition urgent :: "octets \<Rightarrow> bool" where "urgent p \<longleftrightarrow> bit (get16 p (tcp_at p + 12)) 5"
definition delta_W :: "octets \<Rightarrow> octets \<Rightarrow> u16" where
  "delta_W p h = get16 p (tcp_at p + 14) - get16 h (tcp_at p + 14)"
definition delta_A :: "octets \<Rightarrow> octets \<Rightarrow> u32" where
  "delta_A p h = get32 p (tcp_at p + 8) - get32 h (tcp_at p + 8)"
definition delta_S :: "octets \<Rightarrow> octets \<Rightarrow> u32" where
  "delta_S p h = get32 p (tcp_at p + 4) - get32 h (tcp_at p + 4)"

definition all_changes :: "octets \<Rightarrow> octets \<Rightarrow> u8" where
  "all_changes p h = change_mask (urgent p) (delta_W p h \<noteq> 0) (delta_A p h \<noteq> 0) (delta_S p h \<noteq> 0)"

definition all_deltas :: "octets \<Rightarrow> octets \<Rightarrow> octets" where
  "all_deltas p h = (if urgent p then ENCODEZ (get16 p (tcp_at p + 18)) else [])
     @ (if delta_W p h \<noteq> 0 then ENCODE (delta_W p h) else [])
     @ (if delta_A p h \<noteq> 0 then ENCODE (ucast (delta_A p h)) else [])
     @ (if delta_S p h \<noteq> 0 then ENCODE (ucast (delta_S p h)) else [])"

lemma vj_changes_cases:
  assumes "vj_changes p h n = Some (m, q)"
  shows "vj_unchanged p h" "urgent p \<or> get16 p (tcp_at p + 18) = get16 h (tcp_at p + 18)"
    "\<not> delta_A p h > 0xffff" "\<not> delta_S p h > 0xffff"
    "(m = all_changes p h \<and> q = all_deltas p h \<and> m \<noteq> SPECIAL_I \<and> m \<noteq> SPECIAL_D)
     \<or> (m = SPECIAL_I \<and> q = [] \<and> \<not> urgent p \<and> delta_W p h = 0 \<and> delta_A p h = delta_S p h
        \<and> int (unat (delta_S p h)) = int (unat (get16 h 2)) - int n)
     \<or> (m = SPECIAL_D \<and> q = [] \<and> \<not> urgent p \<and> delta_W p h = 0 \<and> delta_A p h = 0
        \<and> int (unat (delta_S p h)) = int (unat (get16 h 2)) - int n)"
proof -
  note d = vj_changes_def [of p h n, unfolded Let_def TCPH_FLAGS_def flag_bits tcp_at_def [symmetric]
      urgent_def [symmetric] delta_W_def [symmetric] delta_A_def [symmetric] delta_S_def [symmetric]
      change_mask_def [symmetric] all_changes_def [symmetric] all_deltas_def [symmetric]]
  show "vj_unchanged p h" "urgent p \<or> get16 p (tcp_at p + 18) = get16 h (tcp_at p + 18)"
    "\<not> delta_A p h > 0xffff" "\<not> delta_S p h > 0xffff"
    using assms unfolding d by (auto split: if_splits)
  have c: "all_changes p h = NEW_S OR NEW_A \<longleftrightarrow> \<not> urgent p \<and> delta_W p h = 0 \<and> delta_A p h \<noteq> 0 \<and> delta_S p h \<noteq> 0"
    "all_changes p h = NEW_S \<longleftrightarrow> \<not> urgent p \<and> delta_W p h = 0 \<and> delta_A p h = 0 \<and> delta_S p h \<noteq> 0"
    "all_changes p h = 0 \<Longrightarrow> all_changes p h \<noteq> SPECIAL_I \<and> all_changes p h \<noteq> SPECIAL_D"
    by (simp_all add: all_changes_def change_mask_cases)
  show "(m = all_changes p h \<and> q = all_deltas p h \<and> m \<noteq> SPECIAL_I \<and> m \<noteq> SPECIAL_D)
     \<or> (m = SPECIAL_I \<and> q = [] \<and> \<not> urgent p \<and> delta_W p h = 0 \<and> delta_A p h = delta_S p h
        \<and> int (unat (delta_S p h)) = int (unat (get16 h 2)) - int n)
     \<or> (m = SPECIAL_D \<and> q = [] \<and> \<not> urgent p \<and> delta_W p h = 0 \<and> delta_A p h = 0
        \<and> int (unat (delta_S p h)) = int (unat (get16 h 2)) - int n)"
    using assms c unfolding d by (simp split: if_splits)
qed


text \<open>The decompressor's saved header agrees with the compressor's.\<close>

definition agrees :: "octets \<Rightarrow> octets \<Rightarrow> bool" where
  "agrees g h \<longleftrightarrow> length g = 128 \<and> (\<forall>i < hdr_len h. g ! i = h ! i)"

lemma agrees_get:
  assumes "agrees g h" "vj_header_ok h"
  shows "Suc k < hdr_len h \<Longrightarrow> get16 g k = get16 h k" "k + 3 < hdr_len h \<Longrightarrow> get32 g k = get32 h k" "IPH_HL g = IPH_HL h"
  using assms header_sizes [OF assms(2)] by (auto simp: agrees_def get16_def get32_def IPH_HL_def)

lemma unchanged_sizes:
  assumes "vj_unchanged p h"
  shows "tcp_at h = tcp_at p" "hdr_len h = hdr_len p" "drop_bit 12 (get16 h (tcp_at p + 12)) = drop_bit 12 (get16 p (tcp_at p + 12))"
proof -
  have "IPH_HL h = IPH_HL p" using assms by (simp add: vj_unchanged_def Let_def IPH_HL_def get16_eq_iff)
  then show t: "tcp_at h = tcp_at p" by (simp add: tcp_at_def)
  have e: "TCPH_HDRLEN p (tcp_at p) = TCPH_HDRLEN h (tcp_at p)" using assms by (simp add: vj_unchanged_def Let_def tcp_at_def)
  then show "hdr_len h = hdr_len p" using \<open>IPH_HL h = IPH_HL p\<close> t by (simp add: hdr_len_def)
  show "drop_bit 12 (get16 h (tcp_at p + 12)) = drop_bit 12 (get16 p (tcp_at p + 12))"
    using e by (simp add: TCPH_HDRLEN_def word_unat_eq_iff)
qed

lemma flags_step:
  "(if b then TCPH_SET_FLAG t fl h else TCPH_UNSET_FLAG t fl h) = put16 (t + 12) (put_flag b fl (get16 h (t + 12))) h"
  by (simp add: TCPH_SET_FLAG_def TCPH_UNSET_FLAG_def put_flag_def)

lemma put16_put16: "Suc j < length h \<Longrightarrow> put16 j x (put16 j y h) = put16 j x h"
  by (auto intro!: nth_equalityI simp: nth_put16)

lemma old_length:
  fixes l :: u16
  assumes "int (unat (d :: u32)) = int (unat l) - int n" "n \<le> 120"
  shows "ucast l - ucast (of_nat n :: u16) = d"
proof -
  have u: "ucast x = (of_nat (unat x) :: u32)" for x :: u16 by simp
  have n: "unat (of_nat n :: u16) = n" using assms(2) by (simp add: unat_of_nat)
  have "(of_int (int (unat d)) :: u32) = of_int (int (unat l) - int n)" using assms(1) by (rule arg_cong)
  then show ?thesis unfolding u n by simp
qed

text \<open>Up to the IP identification, the decompressor's steps give the fields of the packet.\<close>

lemma vj_apply_split:
  "vj_apply mem c cp hl g =
     (let t = tcp_at g; k = push_bit 8 (ucast (mem cp)) OR ucast (mem (cp + 1));
          h2 = put16 (t + 12) (put_flag (c AND TCP_PUSH_BIT \<noteq> 0) TCP_PSH (get16 (put16 (t + 16) k g) (t + 12))) (put16 (t + 16) k g);
          i = ucast (get16 h2 2) - ucast hl;
          h3 = put16 (t + 12) (put_flag (c AND NEW_U \<noteq> 0) TCP_URG (get16 h2 (t + 12))) h2;
          hc = (if c AND SPECIALS_MASK = SPECIAL_I then (add32 (t + 4) i (add32 (t + 8) i h2), cp + 2)
                else if c AND SPECIALS_MASK = SPECIAL_D then (add32 (t + 4) i h2, cp + 2)
                else decode_if (c AND NEW_S \<noteq> 0) mem (\<lambda>v. add32 (t + 4) (ucast v))
                  (decode_if (c AND NEW_A \<noteq> 0) mem (\<lambda>v. add32 (t + 8) (ucast v))
                    (decode_if (c AND NEW_W \<noteq> 0) mem (add16 (t + 14))
                      (decode_if (c AND NEW_U \<noteq> 0) mem (\<lambda>v. put16 (t + 18) v) (h3, cp + 2)))))
      in if c AND NEW_I \<noteq> 0 then decode_if True mem (add16 4) hc else (add16 4 1 (fst hc), snd hc))"
  unfolding vj_apply_def tcp_at_def [symmetric] flags_step Let_def by (rule refl)

definition delta_I :: "octets \<Rightarrow> octets \<Rightarrow> u16" where "delta_I p h = get16 p 4 - get16 h 4"

definition id_code :: "octets \<Rightarrow> octets \<Rightarrow> octets" where
  "id_code p h = (if delta_I p h \<noteq> 1 then ENCODEZ (delta_I p h) else [])"

definition sent_changes :: "u8 \<Rightarrow> octets \<Rightarrow> octets \<Rightarrow> bool \<Rightarrow> u8" where
  "sent_changes m p h x = sent_mask m (delta_I p h \<noteq> 1) (bit (get16 p (tcp_at p + 12)) 3) x"

lemma vj_apply_default:
  fixes p h g :: octets
  defines "t \<equiv> tcp_at p"
  assumes ok: "vj_header_ok p" "vj_header_ok h" and ag: "agrees g h" and un: "vj_unchanged p h"
    and u: "urgent p \<or> get16 p (t + 18) = get16 h (t + 18)"
    and small: "\<not> delta_A p h > 0xffff" "\<not> delta_S p h > 0xffff"
    and m: "m = all_changes p h" "m \<noteq> SPECIAL_I" "m \<noteq> SPECIAL_D"
    and mem: "holds mem cp (p ! (t + 16) # p ! (t + 17) # all_deltas p h @ id_code p h)"
  shows "vj_apply mem (sent_changes m p h x) cp hl g
    = (rebuilt p t g, cp + 2 + length (all_deltas p h) + length (id_code p h))"
proof -
  note sz = header_sizes [OF ok(1), folded t_def] and us = unchanged_sizes [OF un]
  have len: "length g = 128" and tg: "tcp_at g = t"
    using ag agrees_get(3) [OF ag ok(2)] us(1) by (simp_all add: agrees_def t_def tcp_at_def)
  have g: "get16 g k = get16 h k" if "Suc k < hdr_len p" for k using agrees_get(1) [OF ag ok(2)] that us(2) by simp
  have g32: "get32 g k = get32 h k" if "k + 3 < hdr_len p" for k using agrees_get(2) [OF ag ok(2)] that us(2) by simp
  have k: "push_bit 8 (ucast (mem cp)) OR ucast (mem (cp + 1)) = get16 p (t + 16)"
    using mem by (simp add: get16_def add.commute)
  let ?h1 = "put16 (t + 16) (get16 p (t + 16)) g"
  let ?F = "get16 p (t + 12)" and ?f = "get16 h (t + 12)"
  have f1: "get16 ?h1 (t + 12) = ?f" using len sz by (simp add: g)
  have cf: "clean_flags ?f" "clean_flags ?F" using ok us(1) by (simp_all add: vj_header_ok_def Let_def t_def)
  have F: "put_flag (urgent p) TCP_URG (put_flag (bit ?F 3) TCP_PSH ?f) = ?F"
    using flags_rebuilt(1) [OF cf] us(3) by (simp add: t_def urgent_def)
  note bits = sent_mask_bits [of "urgent p" "delta_W p h \<noteq> 0" "delta_A p h \<noteq> 0" "delta_S p h \<noteq> 0", folded all_changes_def, folded m(1)]
  let ?a1 = "put16 (t + 12) ?F ?h1"
  let ?a2 = "put16 (t + 18) (get16 p (t + 18)) ?a1"
  let ?a3 = "put16 (t + 14) (get16 p (t + 14)) ?a2"
  let ?a4 = "put32 (t + 8) (get32 p (t + 8)) ?a3"
  let ?a5 = "put32 (t + 4) (get32 p (t + 4)) ?a4"
  let ?c2 = "cp + 2 + length (if urgent p then ENCODEZ (get16 p (t + 18)) else [])"
  let ?c3 = "?c2 + length (if delta_W p h \<noteq> 0 then ENCODE (delta_W p h) else [])"
  let ?c4 = "?c3 + length (if delta_A p h \<noteq> 0 then ENCODE (ucast (delta_A p h)) else [])"
  let ?c5 = "?c4 + length (if delta_S p h \<noteq> 0 then ENCODE (ucast (delta_S p h)) else [])"
  have hm: "holds mem (cp + 2) (if urgent p then ENCODEZ (get16 p (t + 18)) else [])"
    "holds mem ?c2 (if delta_W p h \<noteq> 0 then ENCODE (delta_W p h) else [])"
    "holds mem ?c3 (if delta_A p h \<noteq> 0 then ENCODE (ucast (delta_A p h)) else [])"
    "holds mem ?c4 (if delta_S p h \<noteq> 0 then ENCODE (ucast (delta_S p h)) else [])"
    "holds mem ?c5 (id_code p h)"
    using mem unfolding all_deltas_def t_def by (simp_all only: holds_Cons holds_append add_2_eq_Suc' append.simps length_append add.assoc [symmetric])
  have s1: "decode_if (urgent p) mem (\<lambda>v. put16 (t + 18) v) (?a1, cp + 2) = (?a2, ?c2)"
    by (rule decode_urgent) (use len sz hm(1) u in \<open>auto simp: g\<close>)
  have s2: "decode_if (delta_W p h \<noteq> 0) mem (add16 (t + 14)) (?a2, ?c2) = (?a3, ?c3)"
    by (rule decode_add16) (use len sz hm(2) in \<open>simp_all add: g delta_W_def t_def [symmetric]\<close>)
  have s3: "decode_if (delta_A p h \<noteq> 0) mem (\<lambda>v. add32 (t + 8) (ucast v)) (?a3, ?c3) = (?a4, ?c4)"
    by (rule decode_add32) (use len sz hm(3) small in \<open>simp_all add: g32 delta_A_def t_def [symmetric]\<close>)
  have s4: "decode_if (delta_S p h \<noteq> 0) mem (\<lambda>v. add32 (t + 4) (ucast v)) (?a4, ?c4) = (?a5, ?c5)"
    by (rule decode_add32) (use len sz hm(4) small in \<open>simp_all add: g32 delta_S_def t_def [symmetric]\<close>)
  have s5: "(if delta_I p h \<noteq> 1 then decode_if True mem (add16 4) (?a5, ?c5) else (add16 4 1 ?a5, ?c5))
    = (put16 4 (get16 p 4) ?a5, ?c5 + length (id_code p h))"
    unfolding id_code_def by (rule decode_id) (use len sz hm(5) in \<open>simp_all add: g delta_I_def id_code_def\<close>)
  have h3: "put16 (t + 12) (put_flag (urgent p) TCP_URG (get16 (put16 (t + 12) (put_flag (bit ?F 3) TCP_PSH ?f) ?h1) (t + 12)))
      (put16 (t + 12) (put_flag (bit ?F 3) TCP_PSH ?f) ?h1) = ?a1"
    using len sz F by (simp add: put16_put16)
  have n: "(if m = SPECIAL_I then a else if m = SPECIAL_D then b else c) = c" for a b c :: "octets \<times> nat"
    using m by simp
  show ?thesis
    unfolding vj_apply_split Let_def tg k sent_changes_def bits f1 t_def [symmetric] h3 s1 s2 s3 s4 n fst_conv snd_conv s5 rebuilt_def
    by (simp add: all_deltas_def t_def)
qed


lemma vj_apply_special:
  fixes p h g :: octets
  defines "t \<equiv> tcp_at p"
  assumes ok: "vj_header_ok p" "vj_header_ok h" and ag: "agrees g h" and un: "vj_unchanged p h"
    and u: "\<not> urgent p" "get16 p (t + 18) = get16 h (t + 18)" and W: "delta_W p h = 0"
    and m: "m = SPECIAL_I \<and> delta_A p h = delta_S p h \<or> m = SPECIAL_D \<and> delta_A p h = 0"
    and was: "int (unat (delta_S p h)) = int (unat (get16 h 2)) - int (hdr_len p)"
    and mem: "holds mem cp (p ! (t + 16) # p ! (t + 17) # id_code p h)"
  shows "vj_apply mem (sent_changes m p h x) cp (of_nat (hdr_len p)) g = (rebuilt p t g, cp + 2 + length (id_code p h))"
proof -
  note sz = header_sizes [OF ok(1), folded t_def] and us = unchanged_sizes [OF un]
  have len: "length g = 128" and tg: "tcp_at g = t"
    using ag agrees_get(3) [OF ag ok(2)] us(1) by (simp_all add: agrees_def t_def tcp_at_def)
  have g: "get16 g k = get16 h k" if "Suc k < hdr_len p" for k using agrees_get(1) [OF ag ok(2)] that us(2) by simp
  have g32: "get32 g k = get32 h k" if "k + 3 < hdr_len p" for k using agrees_get(2) [OF ag ok(2)] that us(2) by simp
  have k: "push_bit 8 (ucast (mem cp)) OR ucast (mem (cp + 1)) = get16 p (t + 16)"
    using mem by (simp add: get16_def add.commute)
  let ?h1 = "put16 (t + 16) (get16 p (t + 16)) g"
  let ?F = "get16 p (t + 12)" and ?f = "get16 h (t + 12)"
  have f1: "get16 ?h1 (t + 12) = ?f" using len sz by (simp add: g)
  have cf: "clean_flags ?f" "clean_flags ?F" using ok us(1) by (simp_all add: vj_header_ok_def Let_def t_def)
  have "bit ?f 5 = bit ?F 5"
    using ok u us(1) by (simp add: vj_header_ok_def Let_def t_def urgent_def)
  then have F: "put_flag (bit ?F 3) TCP_PSH ?f = ?F" using flags_rebuilt(2) [OF cf] us(3) by (simp add: t_def)
  have bits: "sent_mask m i b x AND TCP_PUSH_BIT \<noteq> 0 \<longleftrightarrow> b" "sent_mask m i b x AND NEW_I \<noteq> 0 \<longleftrightarrow> i"
    "sent_mask m i b x AND SPECIALS_MASK = m" for i b
    using m by (elim disjE; simp only: special_masks sent_mask_bits simp_thms)+
  let ?a1 = "put16 (t + 12) ?F ?h1"
  let ?i = "ucast (get16 ?a1 2) - ucast (of_nat (hdr_len p) :: u16) :: u32"
  have i: "?i = delta_S p h"
    using old_length [OF was] len sz by (simp add: g)
  let ?a4 = "put32 (t + 8) (get32 p (t + 8)) ?a1"
  let ?a5 = "put32 (t + 4) (get32 p (t + 4)) ?a4"
  have w14: "get16 p (t + 14) = get16 ?a1 (t + 14)" "get16 p (t + 18) = get16 ?a1 (t + 18)"
    using len sz W u(2) by (simp_all add: g delta_W_def t_def [symmetric])
  have base: "put16 (t + 14) (get16 p (t + 14)) (put16 (t + 18) (get16 p (t + 18)) ?a1) = ?a1"
  proof -
    have "put16 (t + 18) (get16 p (t + 18)) ?a1 = ?a1" "put16 (t + 14) (get16 p (t + 14)) ?a1 = ?a1"
      unfolding w14 by (rule put_get_same; use len sz in simp)+
    then show ?thesis by simp
  qed
  have sI: "add32 (t + 4) (delta_S p h) (add32 (t + 8) (delta_A p h) ?a1) = ?a5"
    using len sz by (simp add: add32_def delta_S_def delta_A_def t_def [symmetric] g32)
  have "add32 (t + 8) 0 ?a1 = ?a1"
    unfolding add32_def add_0_right by (rule put_get_same(2)) (use len sz in simp)
  then have sD: "add32 (t + 4) (delta_S p h) ?a1 = ?a5" if "delta_A p h = 0" using sI that by simp
  have s5: "(if delta_I p h \<noteq> 1 then decode_if True mem (add16 4) (?a5, cp + 2) else (add16 4 1 ?a5, cp + 2))
    = (put16 4 (get16 p 4) ?a5, cp + 2 + length (id_code p h))"
    unfolding id_code_def by (rule decode_id) (use len sz mem in \<open>simp_all add: g delta_I_def id_code_def\<close>)
  have n: "(if m = SPECIAL_I then (add32 (t + 4) (delta_S p h) (add32 (t + 8) (delta_S p h) ?a1), cp + 2)
      else if m = SPECIAL_D then (add32 (t + 4) (delta_S p h) ?a1, cp + 2) else c) = (?a5, cp + 2)" for c
    using m sI sD by (auto simp: vj_bits)
  show ?thesis
    unfolding vj_apply_split Let_def tg k sent_changes_def bits f1 t_def [symmetric] F i n fst_conv snd_conv s5 rebuilt_def base
    by (rule refl)
qed

lemma vj_apply_rebuilt:
  assumes ok: "vj_header_ok p" "vj_header_ok h" and ag: "agrees g h"
    and c: "vj_changes p h (hdr_len p) = Some (m, q)"
    and mem: "holds mem cp (p ! (tcp_at p + 16) # p ! (tcp_at p + 17) # q @ id_code p h)"
  shows "vj_apply mem (sent_changes m p h x) cp (of_nat (hdr_len p)) g
    = (rebuilt p (tcp_at p) g, cp + 2 + length q + length (id_code p h))"
  using vj_changes_cases [OF c] vj_apply_default [OF ok ag, of m mem cp x "of_nat (hdr_len p)"]
    vj_apply_special [OF ok ag, of m mem cp x] mem by auto

section \<open>Length and checksum\<close>

lemma ip_chksum_cong:
  assumes "\<forall>i < n. i \<notin> {10, 11} \<longrightarrow> a ! i = b ! i" and "12 \<le> length a" "12 \<le> length b"
  shows "ip_chksum n a = ip_chksum n b"
proof -
  have "get16_le (put16_le 10 0 a) (2 * i) = get16_le (put16_le 10 0 b) (2 * i)" if "i < n div 2" for i
    using assms that by (auto simp: get16_le_eq_iff nth_put16_le)
  then have "ip_sum n (put16_le 10 0 a) = ip_sum n (put16_le 10 0 b)"
    unfolding ip_sum_def by (intro arg_cong [where f = sum_list] map_cong) auto
  then show ?thesis by (simp add: ip_chksum_def)
qed

text \<open>A TCP segment with a right IP length and checksum, whose urgent pointer is zero when it is not used, and without
  the congestion bits that RFC 1144 does not know.\<close>

definition vj_segment :: "octets \<Rightarrow> bool" where
  "vj_segment p \<longleftrightarrow> (let t = tcp_at p in IPH_HL p \<ge> 5 \<and> TCPH_HDRLEN p t \<ge> 5 \<and> hdr_len p \<le> length p \<and> length p < 65536
     \<and> get16 p (t + 12) AND 0x0fc0 = 0 \<and> (bit (get16 p (t + 12)) 5 \<longleftrightarrow> get16 p (t + 18) \<noteq> 0)
     \<and> get16 p 2 = of_nat (length p) \<and> get16_le p 10 = ip_chksum t p)"

lemma segment_header:
  assumes "vj_segment p" and "TCPH_FLAGS p (tcp_at p) AND (TCP_SYN OR TCP_FIN OR TCP_RST OR TCP_ACK) = TCP_ACK"
  shows "vj_header_ok p"
proof -
  let ?w = "get16 p (tcp_at p + 12)"
  have "?w AND 0x0fd7 = (?w AND 0x0fc0) OR ((?w AND 0x3f) AND 0x17)"
    by (simp add: and.assoc bit.conj_disj_distrib [symmetric])
  then have "clean_flags ?w"
    using assms by (simp add: clean_flags_def vj_segment_def Let_def TCPH_FLAGS_def TCP_FLAGS_def TCP_SYN_def TCP_FIN_def
        TCP_RST_def TCP_ACK_def)
  then show ?thesis using assms by (simp add: vj_header_ok_def vj_segment_def Let_def)
qed

lemma header_cong:
  assumes "vj_header_ok p" and e: "\<forall>i < hdr_len p. h ! i = p ! i"
  shows "vj_header_ok h" "hdr_len h = hdr_len p" "tcp_at h = tcp_at p"
proof -
  note sz = header_sizes [OF assms(1)]
  have I: "IPH_HL h = IPH_HL p" using e sz by (simp add: IPH_HL_def)
  then show t: "tcp_at h = tcp_at p" by (simp add: tcp_at_def)
  have g: "get16 h (tcp_at p + 12) = get16 p (tcp_at p + 12)" "get16 h (tcp_at p + 18) = get16 p (tcp_at p + 18)"
    using e sz by (simp_all add: get16_def)
  then have "TCPH_HDRLEN h (tcp_at h) = TCPH_HDRLEN p (tcp_at p)" using t by (simp add: TCPH_HDRLEN_def)
  then show "hdr_len h = hdr_len p" "vj_header_ok h"
    using assms(1) I t g by (simp_all add: hdr_len_def vj_header_ok_def Let_def)
qed

lemma vj_header_restored:
  assumes seg: "vj_segment p" and ok: "vj_header_ok p" and len: "length h = 128"
    and e: "\<forall>i < hdr_len p. i \<notin> {2, 3, 10, 11} \<longrightarrow> h ! i = p ! i"
    and l: "tot - vjlen = length p - hdr_len p"
  shows "length (vj_header tot vjlen (of_nat (hdr_len p)) h) = 128"
    and "\<forall>i < hdr_len p. vj_header tot vjlen (of_nat (hdr_len p)) h ! i = p ! i"
proof -
  note sz = header_sizes [OF ok]
  have hl: "hdr_len p \<le> length p" "get16 p 2 = of_nat (length p)" "get16_le p 10 = ip_chksum (tcp_at p) p"
    using seg by (simp_all add: vj_segment_def Let_def)
  have I: "4 * IPH_HL h = tcp_at p" using e sz by (simp add: IPH_HL_def tcp_at_def)
  have "(of_nat (tot - vjlen) + of_nat (hdr_len p) :: u16) = get16 p 2"
    using l hl(1,2) by (simp flip: of_nat_add)
  then have v: "vj_header tot vjlen (of_nat (hdr_len p)) h
      = put16_le 10 (ip_chksum (tcp_at p) (put16 2 (get16 p 2) h)) (put16 2 (get16 p 2) h)"
    by (simp add: vj_header_def I Let_def)
  have "ip_chksum (tcp_at p) (put16 2 (get16 p 2) h) = ip_chksum (tcp_at p) p"
    by (rule ip_chksum_cong) (use e len sz hl(1) in \<open>auto simp: nth_put_get16\<close>)
  then have v': "vj_header tot vjlen (of_nat (hdr_len p)) h = put16_le 10 (get16_le p 10) (put16 2 (get16 p 2) h)"
    using v hl(3) by simp
  show "length (vj_header tot vjlen (of_nat (hdr_len p)) h) = 128" using v' len by simp
  show "\<forall>i < hdr_len p. vj_header tot vjlen (of_nat (hdr_len p)) h ! i = p ! i"
    unfolding v' using e len by (auto simp: nth_put16_le nth_put_get16 le_less_Suc_eq numeral_eq_Suc)
qed

section \<open>One packet\<close>

lemma get32_octets: "get32 g i = get32 h i \<Longrightarrow> i \<le> k \<Longrightarrow> k < i + 4 \<Longrightarrow> g ! k = h ! k"
proof -
  assume "get32 g i = get32 h i" "i \<le> k" "k < i + 4"
  moreover from this have "k = i \<or> k = Suc i \<or> k = i + 2 \<or> k = Suc (i + 2)" by linarith
  ultimately show ?thesis by (auto simp: get32_eq_iff get16_eq_iff)
qed

lemma take_drop_octets:
  assumes "take n (drop k g) = take n (drop k h)" "k + n \<le> length g" "k + n \<le> length h" "k \<le> i" "i < k + n"
  shows "g ! i = h ! i"
proof -
  have "g ! i = take n (drop k g) ! (i - k)" "h ! i = take n (drop k h) ! (i - k)" using assms(2-5) by simp_all
  then show ?thesis using assms(1) by simp
qed

lemma static_octets:
  assumes m: "vj_match p cs" and un: "vj_unchanged p (cs_hdr cs)" and ok: "vj_header_ok p"
    and len: "length (cs_hdr cs) = 128" "hdr_len p \<le> length p"
    and i: "i < hdr_len p" "i \<notin> {2, 3, 4, 5, 10, 11}" "\<not> (tcp_at p + 4 \<le> i \<and> i < tcp_at p + 20)"
  shows "cs_hdr cs ! i = p ! i"
proof -
  note sz = header_sizes [OF ok] and us = unchanged_sizes(1) [OF un]
  let ?h = "cs_hdr cs" and ?t = "tcp_at p"
  have e: "get16 p 0 = get16 ?h 0" "get16 p 6 = get16 ?h 6" "get16 p 8 = get16 ?h 8"
    using un by (simp_all add: vj_unchanged_def Let_def)
  have o: "p ! k = ?h ! k" if "20 \<le> k" "k < ?t" for k
  proof -
    have "take (4 * (IPH_HL p - 5)) (drop 20 p) = take (4 * (IPH_HL p - 5)) (drop 20 ?h)"
      using un that by (simp add: vj_unchanged_def Let_def tcp_at_def)
    then show ?thesis by (rule take_drop_octets) (use that sz len in \<open>auto simp: tcp_at_def\<close>)
  qed
  have o2: "p ! k = ?h ! k" if "?t + 20 \<le> k" "k < hdr_len p" for k
  proof -
    have big: "TCPH_HDRLEN p ?t > 5" using that by (simp add: hdr_len_def tcp_at_def)
    have "take (4 * (TCPH_HDRLEN p ?t - 5)) (drop (?t + 20) p) = take (4 * (TCPH_HDRLEN p ?t - 5)) (drop (?t + 20) ?h)"
      using un big unfolding vj_unchanged_def Let_def tcp_at_def by blast
    then show ?thesis by (rule take_drop_octets) (use that sz len in \<open>auto simp: tcp_at_def hdr_len_def\<close>)
  qed
  have a: "get32 p 12 = get32 ?h 12" "get32 p 16 = get32 ?h 16" "get32 p ?t = get32 ?h ?t"
    using m us by (simp_all add: vj_match_def tcp_at_def)
  have low: "i \<in> {0, 1, 6, 7, 8, 9}" if "i < 12" using i(2) that by (simp, presburger)
  consider "i < 12" | "12 \<le> i" "i < 12 + 4" | "16 \<le> i" "i < 16 + 4" | "20 \<le> i" "i < ?t" | "?t \<le> i" "i < ?t + 4"
    | "?t + 20 \<le> i" using i(3) by linarith
  then have "p ! i = ?h ! i"
  proof cases
    case 1
    then show ?thesis using e low by (auto simp: get16_eq_iff)
  qed (use a o o2 i(1) get32_octets in blast)+
  then show ?thesis by simp
qed

end
