(* ===== verification/Vj_Link.thy ===== *)
theory Vj_Link
  imports Vj_Correct
begin

text \<open>
  The two ends of a link with header compression: while the compressor and the decompressor are in step, every
  packet comes out as it went in, and they stay in step.
\<close>

section \<open>Ends in step\<close>

text \<open>What the receiver of a PPP frame does with the three kinds of TCP/IP packets.\<close>

definition vj_receive :: "rx_env \<Rightarrow> vj_type \<Rightarrow> octets \<Rightarrow> vjcompress \<Rightarrow> octets option \<times> vjcompress" where
  "vj_receive env ty q r =
     (case ty of
        TYPE_IP \<Rightarrow> (Some q, r)
      | TYPE_UNCOMPRESSED_TCP \<Rightarrow>
          (case vj_uncompress_uncomp (rx_len0 env) q r of (ok, q', r') \<Rightarrow> (if ok then Some q' else None, r'))
      | TYPE_COMPRESSED_TCP \<Rightarrow>
          (case vj_uncompress_tcp env q r of (v, q', r') \<Rightarrow> (if v \<noteq> None then Some q' else None, r')))"

text \<open>The pbuf layer has buffers, and the first buffer of a packet holds its headers.\<close>

definition rx_ok :: "octets \<Rightarrow> rx_env \<Rightarrow> bool" where
  "rx_ok q env \<longleftrightarrow> rx_len0 env \<le> length q \<and> (rx_len0 env = length q \<or> 128 \<le> rx_len0 env)
     \<and> (if rx_aligned env then rx_headroom env \<or> rx_prepend env else rx_realign env)"

definition slot_sync :: "cstate \<Rightarrow> cstate \<Rightarrow> bool" where
  "slot_sync a b \<longleftrightarrow> length (cs_hdr a) = 128 \<and> length (cs_hdr b) = 128
     \<and> (cs_hdr a ! 0 = 0 \<or>
        vj_header_ok (cs_hdr a) \<and> agrees (cs_hdr b) (cs_hdr a) \<and> cs_hlen b = of_nat (hdr_len (cs_hdr a)))"

definition in_sync :: "vjcompress \<Rightarrow> vjcompress \<Rightarrow> bool" where
  "in_sync s r \<longleftrightarrow> (\<exists>os. ring s os) \<and> length (tstate s) = 16 \<and> length (rstate r) = 16
     \<and> (\<forall>i < 16. cs_id (tstate s ! i) = of_nat i \<and> slot_sync (tstate s ! i) (rstate r ! i))
     \<and> (last_xmit s = 255 \<or> last_recv r = last_xmit s \<and> unat (last_recv r) < 16 \<and> vj_flags r AND VJF_TOSS = 0)"

lemma save_agrees:
  assumes ok: "vj_header_ok p" and len: "length h = 128" "hdr_len p \<le> length p"
  shows "vj_header_ok (memcpy_at 0 (take (hdr_len p) p) h)" "hdr_len (memcpy_at 0 (take (hdr_len p) p) h) = hdr_len p"
    "length (memcpy_at 0 (take (hdr_len p) p) h) = 128" "\<forall>i < hdr_len p. memcpy_at 0 (take (hdr_len p) p) h ! i = p ! i"
proof -
  note sz = header_sizes [OF ok]
  show e: "\<forall>i < hdr_len p. memcpy_at 0 (take (hdr_len p) p) h ! i = p ! i"
    using len by (simp add: memcpy_at_def nth_append)
  show "vj_header_ok (memcpy_at 0 (take (hdr_len p) p) h)" "hdr_len (memcpy_at 0 (take (hdr_len p) p) h) = hdr_len p"
    using header_cong [OF ok e] by simp_all
  show "length (memcpy_at 0 (take (hdr_len p) p) h) = 128" using len sz by simp
qed

lemma slot_saved:
  assumes ok: "vj_header_ok p" and len: "length (cs_hdr a) = 128" "hdr_len p \<le> length p"
    and b: "length (cs_hdr b) = 128" "\<forall>i < hdr_len p. cs_hdr b ! i = p ! i" "cs_hlen b = of_nat (hdr_len p)"
  shows "slot_sync (a\<lparr>cs_hdr := memcpy_at 0 (take (hdr_len p) p) (cs_hdr a)\<rparr>) b"
  using save_agrees [OF ok len] b by (auto simp: slot_sync_def agrees_def)

section \<open>Uncompressed packets\<close>

lemma uncompressed_received:
  assumes ok: "vj_header_ok p" and tcp: "p ! 9 = IP_PROTO_TCP" and len: "hdr_len p \<le> len0" "len0 \<le> length p"
    and cid: "cid = of_nat i" "i < 16"
  shows "vj_uncompress_uncomp len0 (p[9 := cid]) r =
    (True, p, r\<lparr>vj_flags := vj_flags r AND NOT VJF_TOSS, last_recv := cid,
      rstate := (rstate r)[i := (rstate r ! i)\<lparr>cs_hdr := memcpy_at 0 (take (hdr_len p) p) (cs_hdr (rstate r ! i)),
        cs_hlen := of_nat (hdr_len p)\<rparr>]\<rparr>)"
proof -
  note sz = header_sizes [OF ok]
  let ?q = "p[9 := cid]"
  have t: "4 * IPH_HL ?q = tcp_at p" by (simp add: IPH_HL_def tcp_at_def)
  have "TCPH_HDRLEN ?q (tcp_at p) = TCPH_HDRLEN p (tcp_at p)" using sz by (simp add: TCPH_HDRLEN_def get16_def)
  then have n: "tcp_at p + 4 * TCPH_HDRLEN ?q (tcp_at p) = hdr_len p" by (simp add: hdr_len_def tcp_at_def)
  have c: "?q ! 9 = cid" "unat cid = i" using len sz cid by (simp_all add: unat_of_nat)
  have q: "?q[9 := IP_PROTO_TCP] = p" using tcp by (metis list_update_id list_update_overwrite)
  show ?thesis
    unfolding vj_uncompress_uncomp_def Let_def t n c q
    using len sz cid by (simp add: MAX_SLOTS_def MAX_HDR_def)
qed

section \<open>Compressed packets\<close>

lemma changes_mask:
  assumes "vj_changes p h n = Some (m, q)"
  shows "sent_changes m p h x AND NEW_C \<noteq> 0 \<longleftrightarrow> x" and "length q \<le> 12"
proof -
  have "\<exists>u w a s. m = change_mask u w a s"
    using vj_changes_cases(5) [OF assms] unfolding all_changes_def special_masks by blast
  then show "sent_changes m p h x AND NEW_C \<noteq> 0 \<longleftrightarrow> x"
    unfolding sent_changes_def by (elim exE) (simp only: sent_mask_bits)
  have "length (all_deltas p h) \<le> 12"
    using ENCODE_length [of "delta_W p h"] ENCODE_length [of "ucast (delta_A p h)"] ENCODE_length [of "ucast (delta_S p h)"]
      ENCODE_length [of "get16 p (tcp_at p + 18)"]
    unfolding all_deltas_def length_append by (auto split: if_splits)
  then show "length q \<le> 12" using vj_changes_cases(5) [OF assms] by auto
qed

lemma id_code_length: "length (id_code p h) \<le> 3"
  using ENCODE_length by (simp add: id_code_def)

definition compressed_packet :: "bool \<Rightarrow> u8 \<Rightarrow> u8 \<Rightarrow> octets \<Rightarrow> octets \<Rightarrow> octets \<Rightarrow> octets" where
  "compressed_packet x cid m q p h =
     (if x then [sent_changes m p h x, cid] else [sent_changes m p h x])
     @ [p ! (tcp_at p + 16), p ! (tcp_at p + 17)] @ (q @ id_code p h) @ drop (hdr_len p) p"

lemma holds_prefix: "length xs \<le> rx_len0 env \<Longrightarrow> holds (rx_mem env (xs @ ys)) 0 xs"
  by (simp add: holds_def nth_append rx_mem_def)

lemma compressed_received:
  fixes p h :: octets
  assumes seg: "vj_segment p" and ok: "vj_header_ok p" "vj_header_ok (cs_hdr cs)" and lenh: "length (cs_hdr cs) = 128"
    and ag: "agrees (cs_hdr (rstate r ! i)) (cs_hdr cs)" "cs_hlen (rstate r ! i) = of_nat (hdr_len (cs_hdr cs))"
    and mt: "vj_match p cs" and ch: "vj_changes p (cs_hdr cs) (hdr_len p) = Some (m, q)"
    and cid: "cid = of_nat i" "i < 16" and x: "x \<or> last_recv r = cid \<and> vj_flags r AND VJF_TOSS = 0"
    and rx: "rx_ok (compressed_packet x cid m q p (cs_hdr cs)) env"
  shows "\<exists>h' k. vj_uncompress_tcp env (compressed_packet x cid m q p (cs_hdr cs)) r =
      (Some k, p, r\<lparr>vj_flags := (if x then vj_flags r AND NOT VJF_TOSS else vj_flags r), last_recv := cid,
        rstate := (rstate r)[i := (rstate r ! i)\<lparr>cs_hdr := h'\<rparr>]\<rparr>)
    \<and> length h' = 128 \<and> (\<forall>j < hdr_len p. h' ! j = p ! j)"
proof -
  let ?h = "cs_hdr cs" and ?g = "cs_hdr (rstate r ! i)" and ?n = "hdr_len p" and ?t = "tcp_at p"
  let ?out = "compressed_packet x cid m q p ?h"
  let ?mem = "rx_mem env ?out"
  let ?cp = "if x then 2 else 1 :: nat"
  let ?k = "?cp + 2 + length q + length (id_code p ?h)"
  note sz = header_sizes [OF ok(1)] and un = vj_changes_cases(1) [OF ch]
  have n: "hdr_len ?h = ?n" using unchanged_sizes(2) [OF un] .
  have lp: "?n \<le> length p" using seg by (simp add: vj_segment_def Let_def)
  let ?hd = "(if x then [sent_changes m p ?h x, cid] else [sent_changes m p ?h x])"
  let ?front = "?hd @ p ! (?t + 16) # p ! (?t + 17) # q @ id_code p ?h"
  have out: "?out = ?front @ drop ?n p" by (simp add: compressed_packet_def)
  have lf: "length ?front = ?k" by simp
  have k: "?k \<le> rx_len0 env"
    using rx changes_mask(2) [OF ch] id_code_length [of p ?h] lf unfolding rx_ok_def out by auto
  have "holds ?mem 0 ?front" unfolding out using k lf by (intro holds_prefix) simp
  then have hd: "holds ?mem 0 ?hd" and "holds ?mem (0 + length ?hd) (p ! (?t + 16) # p ! (?t + 17) # q @ id_code p ?h)"
    by (simp_all only: holds_append)
  moreover have "0 + length ?hd = ?cp" by simp
  ultimately have mem: "holds ?mem ?cp (p ! (?t + 16) # p ! (?t + 17) # q @ id_code p ?h)" by (simp only:)
  have m0: "?mem 0 = sent_changes m p ?h x" and m1: "x \<Longrightarrow> ?mem 1 = cid" using hd by (auto split: if_splits)
  have ap: "vj_apply ?mem (sent_changes m p ?h x) ?cp (of_nat ?n) ?g = (rebuilt p ?t ?g, ?k)"
    using vj_apply_rebuilt [OF ok ag(1) ch mem] by simp
  have lg: "length ?g = 128" using ag(1) by (simp add: agrees_def)
  have st: "\<forall>j < ?n. j \<notin> {2, 3, 10, 11} \<longrightarrow> rebuilt p ?t ?g ! j = p ! j"
    using static_octets [OF mt un ok(1) lenh lp] ag(1) n lg sz by (auto simp: rebuilt_nth agrees_def)
  have tot: "length ?out - ?k = length p - ?n" unfolding out using lf by simp
  let ?h' = "vj_header (length ?out) ?k (of_nat ?n) (rebuilt p ?t ?g)"
  have h': "length ?h' = 128" "\<forall>j < ?n. ?h' ! j = p ! j"
    by (rule vj_header_restored [OF seg ok(1) _ st tot]; simp add: lg)+
  have "unat (of_nat ?n :: u16) = ?n" using sz by (simp add: unat_of_nat)
  moreover have "take ?n ?h' = take ?n p" using h' sz lp by (intro nth_equalityI) simp_all
  moreover have "drop ?k ?out = drop ?n p" unfolding out using lf by simp
  ultimately have res: "take (unat (of_nat ?n :: u16)) ?h' @ drop ?k ?out = p" by simp
  have uc: "unat cid = i" using cid by (simp add: unat_of_nat)
  have "vj_uncompress_tcp env ?out r =
      (Some ?k, p, r\<lparr>vj_flags := (if x then vj_flags r AND NOT VJF_TOSS else vj_flags r), last_recv := cid,
        rstate := (rstate r)[i := (rstate r ! i)\<lparr>cs_hdr := ?h'\<rparr>]\<rparr>)"
    using x rx k m1 uc cid(2) ap res ag(2) n
    unfolding vj_uncompress_tcp_def Let_def m0 changes_mask(1) [OF ch] rx_ok_def
    by (cases x) (auto simp: MAX_SLOTS_def split: if_splits)
  then show ?thesis using h' by blast
qed

section \<open>A step of the link\<close>

lemma in_sync_slot:
  "in_sync s r \<Longrightarrow> i < 16 \<Longrightarrow> cs_id (tstate s ! i) = of_nat i \<and> slot_sync (tstate s ! i) (rstate r ! i)"
  by (simp add: in_sync_def)

lemma save_header_facts [simp]:
  "length (save_header c n p ts) = length ts" "map cs_id (save_header c n p ts) = map cs_id ts"
  "map cs_next (save_header c n p ts) = map cs_next ts"
  by (simp_all add: save_header_def map_update_same)

lemma ring_nonempty: "ring s os \<Longrightarrow> os \<noteq> []"
  by (erule ring_cases) simp

lemma ring_cong:
  "ring s os \<Longrightarrow> last_cs s' = last_cs s \<Longrightarrow> map cs_next (tstate s') = map cs_next (tstate s) \<Longrightarrow> ring s' os"
proof -
  assume a: "ring s os" "last_cs s' = last_cs s" "map cs_next (tstate s') = map cs_next (tstate s)"
  have l: "length (tstate s') = length (tstate s)" using a(3) by (rule map_eq_imp_length_eq)
  have "next_of s' i = next_of s i" if "i < MAX_SLOTS" for i
    using arg_cong [OF a(3), of "\<lambda>xs. xs ! i"] a(1) that l by (simp add: next_of_def ring_def)
  moreover have os: "set os = {..<MAX_SLOTS}" "last os = last_cs s" "os \<noteq> []"
    using a(1) ring_nonempty [OF a(1)] by (simp_all add: ring_def ring_order_def)
  ultimately have n: "next_of s' i = next_of s i" if "i \<in> set os" for i using that by simp
  have "linked (next_of s') os = linked (next_of s) os" by (rule linked_cong) (simp add: n in_set_butlastD)
  moreover have "next_of s' (last_cs s) = next_of s (last_cs s)" using n last_in_set [OF os(3)] os(2) by simp
  ultimately show ?thesis using a(1,2) l by (simp add: ring_def ring_order_def)
qed

text \<open>Both ends save the headers of the same packet in the same slot.\<close>

lemma in_sync_saved:
  assumes s: "in_sync s r" and c: "c < 16" and ok: "vj_header_ok p" and len: "hdr_len p \<le> length p"
    and b: "length (cs_hdr b) = 128" "\<forall>i < hdr_len p. cs_hdr b ! i = p ! i" "cs_hlen b = of_nat (hdr_len p)"
    and fl: "fl AND VJF_TOSS = 0"
  shows "in_sync (s\<lparr>tstate := save_header c (hdr_len p) p (tstate s), last_xmit := of_nat c\<rparr>)
    (r\<lparr>vj_flags := fl, last_recv := of_nat c, rstate := (rstate r)[c := b]\<rparr>)" (is "in_sync ?s ?r")
proof -
  have l: "length (tstate s) = 16" "length (rstate r) = 16" using s by (simp_all add: in_sync_def)
  obtain os where "ring s os" using s by (auto simp: in_sync_def)
  then have "ring ?s os" by (rule ring_cong) simp_all
  moreover have "cs_id (tstate ?s ! i) = of_nat i \<and> slot_sync (tstate ?s ! i) (rstate ?r ! i)" if "i < 16" for i
  proof (cases "i = c")
    case True
    have "length (cs_hdr (tstate s ! c)) = 128" using in_sync_slot [OF s c] by (simp add: slot_sync_def)
    then show ?thesis using True in_sync_slot [OF s c] c l slot_saved [OF ok _ len b, of "tstate s ! c"]
      by (simp add: save_header_def)
  next
    case False
    then show ?thesis using in_sync_slot [OF s that] by (simp add: save_header_def)
  qed
  ultimately show ?thesis using l c fl by (auto simp: in_sync_def unat_of_nat)
qed

lemma in_sync_located:
  assumes "in_sync s r" and "ring s' os" and "same_saved s s'"
  shows "in_sync s' r" "\<And>i. i < 16 \<Longrightarrow> cs_hdr (tstate s' ! i) = cs_hdr (tstate s ! i)"
proof -
  have m: "map cs_id (tstate s') = map cs_id (tstate s)" "map cs_hdr (tstate s') = map cs_hdr (tstate s)"
    using assms(3) by (simp_all add: same_saved_def)
  have l: "length (tstate s') = 16" "length (tstate s) = 16" using assms(1,2) by (simp_all add: in_sync_def ring_def MAX_SLOTS_def)
  have e: "cs_id (tstate s' ! i) = cs_id (tstate s ! i) \<and> cs_hdr (tstate s' ! i) = cs_hdr (tstate s ! i)" if "i < 16" for i
    using m l that by (metis nth_map)
  then show "\<And>i. i < 16 \<Longrightarrow> cs_hdr (tstate s' ! i) = cs_hdr (tstate s ! i)" by simp
  show "in_sync s' r"
    using assms e l unfolding in_sync_def same_saved_def slot_sync_def by auto
qed


lemma pick_facts:
  assumes "ring s os"
  shows "snd (lru_pick hit os) < 16" "fst (lru_pick hit os) \<Longrightarrow> hit (snd (lru_pick hit os))"
proof -
  have os: "set os = {..<16}" "os \<noteq> []"
    using assms ring_nonempty [OF assms] by (simp_all add: ring_def ring_order_def MAX_SLOTS_def)
  have "last os \<in> set os" using os(2) by simp
  then show "snd (lru_pick hit os) < 16"
    using os(1) by (auto simp: lru_pick_def find_Some_iff split: option.splits dest!: nth_mem)
  show "fst (lru_pick hit os) \<Longrightarrow> hit (snd (lru_pick hit os))"
    by (cases "List.find hit os") (auto simp: lru_pick_def dest: find_Some_iff [THEN iffD1])
qed

lemma toss_cleared: "(fl AND NOT VJF_TOSS) AND VJF_TOSS = 0"
  by (simp add: and.assoc)

lemma step_uncompressed:
  assumes s: "in_sync s r" and c: "c < 16" and ok: "vj_header_ok p" and lp: "hdr_len p \<le> length p" and tcp: "p ! 9 = IP_PROTO_TCP"
    and u: "vj_uncompressed c (hdr_len p) p s = (ty, q, s')" and rx: "rx_ok q env"
  shows "\<exists>r'. vj_receive env ty q r = (Some p, r') \<and> in_sync s' r'"
proof -
  have cid: "cs_id (tstate s ! c) = of_nat c" and sl: "slot_sync (tstate s ! c) (rstate r ! c)"
    using in_sync_slot [OF s c] by auto
  have ty: "ty = TYPE_UNCOMPRESSED_TCP" "q = p[9 := of_nat c]"
    "s' = s\<lparr>tstate := save_header c (hdr_len p) p (tstate s), last_xmit := of_nat c\<rparr>"
    using u cid by (auto simp: vj_uncompressed_def Let_def)
  have len0: "hdr_len p \<le> rx_len0 env" "rx_len0 env \<le> length p"
    using rx ty(2) lp header_sizes(4) [OF ok] by (auto simp: rx_ok_def)
  let ?b = "(rstate r ! c)\<lparr>cs_hdr := memcpy_at 0 (take (hdr_len p) p) (cs_hdr (rstate r ! c)), cs_hlen := of_nat (hdr_len p)\<rparr>"
  have lb: "length (cs_hdr (rstate r ! c)) = 128" using sl by (simp add: slot_sync_def)
  have "in_sync s' (r\<lparr>vj_flags := vj_flags r AND NOT VJF_TOSS, last_recv := of_nat c, rstate := (rstate r)[c := ?b]\<rparr>)"
    unfolding ty(3) by (rule in_sync_saved [OF s c ok lp]) (use save_agrees [OF ok lb lp] toss_cleared in simp_all)
  then show ?thesis
    using uncompressed_received [OF ok tcp len0 refl c, of r] ty(1,2) by (simp add: vj_receive_def)
qed

lemma vj_compressed_packet:
  assumes "cs_id (tstate s ! c) = of_nat c"
  defines "x \<equiv> compressSlot s = 0 \<or> last_xmit s \<noteq> of_nat c"
  shows "vj_compressed c (hdr_len p) (m, sq) p s =
    (TYPE_COMPRESSED_TCP, compressed_packet x (of_nat c) m sq p (cs_hdr (tstate s ! c)),
     s\<lparr>tstate := save_header c (hdr_len p) p (tstate s), last_xmit := of_nat c\<rparr>)"
  using assms(1) unfolding x_def
  by (auto simp: vj_compressed_def Let_def compressed_packet_def sent_changes_def sent_mask_def id_code_def delta_I_def
      TCPH_FLAGS_def flag_bits tcp_at_def [symmetric] flag_def or.assoc)

lemma step_compressed:
  assumes s: "in_sync s r" and c: "c < 16" and ok: "vj_header_ok p" and seg: "vj_segment p"
    and mt: "vj_match p (tstate s ! c)" and ch: "vj_changes p (cs_hdr (tstate s ! c)) (hdr_len p) = Some enc"
    and u: "vj_compressed c (hdr_len p) enc p s = (ty, q, s')" and rx: "rx_ok q env"
  shows "\<exists>r'. vj_receive env ty q r = (Some p, r') \<and> in_sync s' r'"
proof -
  let ?cs = "tstate s ! c"
  have cid: "cs_id ?cs = of_nat c" and sl: "slot_sync ?cs (rstate r ! c)" using in_sync_slot [OF s c] by auto
  obtain m sq where enc: "enc = (m, sq)" by (cases enc)
  have ch: "vj_changes p (cs_hdr ?cs) (hdr_len p) = Some (m, sq)" using ch enc by simp
  define x where "x \<longleftrightarrow> compressSlot s = 0 \<or> last_xmit s \<noteq> of_nat c"
  have ty: "ty = TYPE_COMPRESSED_TCP" "q = compressed_packet x (of_nat c) m sq p (cs_hdr ?cs)"
    "s' = s\<lparr>tstate := save_header c (hdr_len p) p (tstate s), last_xmit := of_nat c\<rparr>"
    using u vj_compressed_packet [OF cid] by (simp_all add: enc x_def)
  have "IPH_HL p \<ge> 5" using ok by (simp add: vj_header_ok_def Let_def)
  moreover have "cs_hdr ?cs ! 0 = p ! 0" using vj_changes_cases(1) [OF ch] by (simp add: vj_unchanged_def Let_def get16_eq_iff)
  ultimately have "cs_hdr ?cs ! 0 \<noteq> 0" by (auto simp: IPH_HL_def)
  then have h: "vj_header_ok (cs_hdr ?cs)" "agrees (cs_hdr (rstate r ! c)) (cs_hdr ?cs)"
    "cs_hlen (rstate r ! c) = of_nat (hdr_len (cs_hdr ?cs))" "length (cs_hdr ?cs) = 128"
    using sl by (auto simp: slot_sync_def)
  have n: "hdr_len (cs_hdr ?cs) = hdr_len p" by (rule unchanged_sizes(2) [OF vj_changes_cases(1) [OF ch]])
  have lp: "hdr_len p \<le> length p" using seg by (simp add: vj_segment_def Let_def)
  have "(of_nat c :: u8) \<noteq> 255" using c by (simp add: word_unat_eq_iff unat_of_nat)
  then have x: "x \<or> last_recv r = of_nat c \<and> vj_flags r AND VJF_TOSS = 0"
    using s unfolding x_def in_sync_def by auto
  let ?fl = "if x then vj_flags r AND NOT VJF_TOSS else vj_flags r"
  obtain h' k where rc: "vj_uncompress_tcp env q r =
      (Some k, p, r\<lparr>vj_flags := ?fl, last_recv := of_nat c, rstate := (rstate r)[c := (rstate r ! c)\<lparr>cs_hdr := h'\<rparr>]\<rparr>)"
    "length h' = 128" "\<forall>j < hdr_len p. h' ! j = p ! j"
    using compressed_received [OF seg ok h(1,4,2,3) mt ch refl c x] rx unfolding ty(2) by blast
  have "in_sync s' (r\<lparr>vj_flags := ?fl, last_recv := of_nat c, rstate := (rstate r)[c := (rstate r ! c)\<lparr>cs_hdr := h'\<rparr>]\<rparr>)"
    unfolding ty(3) by (rule in_sync_saved [OF s c ok lp]) (use rc(2,3) h(3) n x toss_cleared in auto)
  then show ?thesis using rc(1) ty(1) by (simp add: vj_receive_def)
qed

lemma vj_step:
  assumes s: "in_sync s r" and p: "p ! 9 = IP_PROTO_TCP \<Longrightarrow> vj_segment p"
  obtains ty q s' where "vj_compress_tcp clone len0 p s = Some (ty, q, s')"
    "\<And>env. rx_ok q env \<Longrightarrow> \<exists>r'. vj_receive env ty q r = (Some p, r') \<and> in_sync s' r'"
proof -
  let ?t = "tcp_at p" and ?n = "hdr_len p"
  have n: "4 * (IPH_HL p + TCPH_HDRLEN p (4 * IPH_HL p)) = ?n" by (simp add: hdr_len_def tcp_at_def)
  show ?thesis
  proof (cases "p ! 9 = IP_PROTO_TCP \<and> \<not> (get16 p 6 AND 0x3fff \<noteq> 0 \<or> length p < 40)
      \<and> TCPH_FLAGS p ?t AND (TCP_SYN OR TCP_FIN OR TCP_RST OR TCP_ACK) = TCP_ACK \<and> \<not> len0 < ?n \<and> clone")
    case False
    then have "vj_compress_tcp clone len0 p s = Some (TYPE_IP, p, s)"
      unfolding vj_compress_tcp_def Let_def n unfolding tcp_at_def [symmetric] by auto
    then show ?thesis by (rule that) (simp add: vj_receive_def s)
  next
    case True
    have seg: "vj_segment p" using p True by blast
    have ok: "vj_header_ok p" using segment_header [OF seg] True by blast
    have lp: "?n \<le> length p" using seg by (simp add: vj_segment_def Let_def)
    obtain os where ring: "ring s os" using s by (auto simp: in_sync_def)
    let ?hit = "\<lambda>i. vj_match p (tstate s ! i)"
    define found where "found = fst (lru_pick ?hit os)"
    define c where "c = snd (lru_pick ?hit os)"
    have c: "c < 16" "found \<Longrightarrow> ?hit c" using pick_facts [OF ring] by (simp_all add: c_def found_def)
    obtain s1 where loc: "vj_locate p s = Some (found, c, s1)" "ring s1 (to_front c os)" "same_saved s s1"
      using locate_located [OF ring, of p] by (auto simp: located_def found_def c_def)
    note s1 = in_sync_located [OF s loc(2,3)]
    have mt: "found \<Longrightarrow> vj_match p (tstate s1 ! c)" using c s1(2) by (simp add: vj_match_def)
    have cid: "cs_id (tstate s1 ! c) = of_nat c" and sl: "slot_sync (tstate s1 ! c) (rstate r ! c)"
      using in_sync_slot [OF s1(1) c(1)] by auto
    have cmp: "vj_compress_tcp clone len0 p s =
        (case if found then vj_changes p (cs_hdr (tstate s1 ! c)) ?n else None of
           None \<Rightarrow> Some (vj_uncompressed c ?n p s1) | Some enc \<Rightarrow> Some (vj_compressed c ?n enc p s1))"
      using True loc(1) unfolding vj_compress_tcp_def Let_def n unfolding tcp_at_def [symmetric] by simp
    show ?thesis
    proof (cases "if found then vj_changes p (cs_hdr (tstate s1 ! c)) ?n else None")
      case None
      obtain ty q s' where u: "vj_uncompressed c ?n p s1 = (ty, q, s')" by (cases "vj_uncompressed c ?n p s1")
      have "vj_compress_tcp clone len0 p s = Some (ty, q, s')" using cmp None u by (auto split: if_splits)
      then show ?thesis by (rule that) (use step_uncompressed [OF s1(1) c(1) ok lp _ u] True in blast)
    next
      case (Some enc)
      then have f: found "vj_changes p (cs_hdr (tstate s1 ! c)) ?n = Some enc" by (simp_all split: if_splits)
      obtain ty q s' where u: "vj_compressed c ?n enc p s1 = (ty, q, s')" by (cases "vj_compressed c ?n enc p s1")
      have "vj_compress_tcp clone len0 p s = Some (ty, q, s')" using cmp f u by simp
      then show ?thesis by (rule that) (use step_compressed [OF s1(1) c(1) ok seg mt [OF f(1)] f(2) u] in blast)
    qed
  qed
qed

section \<open>A link that loses nothing\<close>

text \<open>A run: each packet with what the pbuf layer answers at both ends.\<close>

fun vj_link :: "(bool \<times> nat \<times> rx_env \<times> octets) list \<Rightarrow> vjcompress \<Rightarrow> vjcompress \<Rightarrow> octets option list" where
  "vj_link [] s r = []"
| "vj_link ((clone, len0, env, p) # ps) s r =
     (case vj_compress_tcp clone len0 p s of
        None \<Rightarrow> [None]
      | Some (ty, q, s') \<Rightarrow>
          (case vj_receive (env\<lparr>rx_len0 := min (rx_len0 env) (length q)\<rparr>) ty q r of (out, r') \<Rightarrow> out # vj_link ps s' r'))"

definition has_buffers :: "rx_env \<Rightarrow> bool" where
  "has_buffers env \<longleftrightarrow> 128 \<le> rx_len0 env \<and> (if rx_aligned env then rx_headroom env \<or> rx_prepend env else rx_realign env)"

lemma rx_ok_min: "has_buffers env \<Longrightarrow> rx_ok q (env\<lparr>rx_len0 := min (rx_len0 env) (length q)\<rparr>)"
  by (auto simp: has_buffers_def rx_ok_def)

lemma vj_link_in_sync:
  "in_sync s r \<Longrightarrow> (\<forall>(clone, len0, env, p) \<in> set ps. has_buffers env \<and> (p ! 9 = IP_PROTO_TCP \<longrightarrow> vj_segment p)) \<Longrightarrow>
   vj_link ps s r = map (\<lambda>(clone, len0, env, p). Some p) ps"
proof (induction ps arbitrary: s r)
  case (Cons a ps)
  obtain clone len0 env p where a: "a = (clone, len0, env, p)" by (cases a)
  have p: "has_buffers env" "p ! 9 = IP_PROTO_TCP \<Longrightarrow> vj_segment p" using Cons.prems(2) a by auto
  obtain ty q s' where c: "vj_compress_tcp clone len0 p s = Some (ty, q, s')"
    and rc: "\<exists>r'. vj_receive (env\<lparr>rx_len0 := min (rx_len0 env) (length q)\<rparr>) ty q r = (Some p, r') \<and> in_sync s' r'"
    using vj_step [OF Cons.prems(1) p(2), of clone len0] rx_ok_min [OF p(1)] by metis
  then obtain r' where r': "vj_receive (env\<lparr>rx_len0 := min (rx_len0 env) (length q)\<rparr>) ty q r = (Some p, r')" "in_sync s' r'"
    by blast
  have "vj_link ps s' r' = map (\<lambda>(clone, len0, env, p). Some p) ps"
    by (rule Cons.IH [OF r'(2)]) (use Cons.prems(2) in auto)
  then show ?case using a c r'(1) by simp
qed simp


text \<open>The two ends of a link after \<open>vj_compress_init\<close>.\<close>

lemma in_sync_init:
  assumes "length (rstate r) = 16" and "\<forall>b \<in> set (rstate r). length (cs_hdr b) = 128"
  shows "in_sync ((vj_compress_init zero_vj)\<lparr>maxSlotIndex := m, compressSlot := c\<rparr>) r"
proof -
  let ?s = "(vj_compress_init zero_vj)\<lparr>maxSlotIndex := m, compressSlot := c\<rparr>"
  have t: "tstate ?s ! i = \<lparr>cs_next = (if i = 0 then 15 else i - 1), cs_hlen = 0, cs_id = of_nat i, cs_hdr = replicate 128 0\<rparr>"
    if "i < 16" for i using that by (simp add: vj_compress_init_def zero_vj_def MAX_SLOTS_def)
  have "ring ?s [15, 14, 13, 12, 11, 10, 9, 8, 7, 6, 5, 4, 3, 2, 1, 0]"
    using ring_init by (rule ring_cong) simp_all
  moreover have "length (tstate ?s) = 16" "last_xmit ?s = 255" by (simp_all add: vj_compress_init_def MAX_SLOTS_def)
  ultimately show ?thesis using assms t by (auto simp: in_sync_def slot_sync_def)
qed

text \<open>C12: header compression is lossless: from a fresh compressor, with any setting of slot compression, and any decompressor
  that finds the buffers it needs, every sequence of IP packets comes out of the link as it went in, whatever connections the TCP
  segments belong to and in whatever order, as long as the segments have a right length and header checksum, no
  congestion bits, and a non-zero urgent pointer exactly when they are marked urgent.\<close>

theorem vj_lossless:
  assumes "length (rstate r) = 16" and "\<forall>b \<in> set (rstate r). length (cs_hdr b) = 128"
    and "\<forall>(clone, len0, env, p) \<in> set ps. has_buffers env \<and> (p ! 9 = IP_PROTO_TCP \<longrightarrow> vj_segment p)"
  shows "vj_link ps ((vj_compress_init zero_vj)\<lparr>maxSlotIndex := m, compressSlot := c\<rparr>) r = map (\<lambda>(clone, len0, env, p). Some p) ps"
  using in_sync_init [OF assms(1,2)] assms(3) by (rule vj_link_in_sync)

definition demo_segment :: octets where
  "demo_segment = [69, 0, 0, 42, 0, 1, 0, 0, 64, 6, 102, 203, 10, 0, 0, 1, 10, 0, 0, 2, 19, 136, 0, 80, 0, 0, 0, 1, 0, 0, 0, 1, 80, 16, 16, 0, 171, 205, 0, 0, 104, 105]"

definition demo_next :: octets where
  "demo_next = [69, 0, 0, 41, 0, 2, 0, 0, 64, 6, 102, 203, 10, 0, 0, 1, 10, 0, 0, 2, 19, 136, 0, 80, 0, 0, 0, 3, 0, 0, 0, 1, 80, 16, 16, 0, 171, 205, 0, 0, 33]"

definition demo_rx :: rx_env where
  "demo_rx = \<lparr>rx_len0 = 256, rx_junk = (\<lambda>_. 0), rx_aligned = False, rx_realign = True, rx_headroom = False, rx_prepend = False\<rparr>"

lemma demo_ok: "vj_segment demo_segment" "vj_segment demo_next"
  by (simp_all add: vj_segment_def demo_segment_def demo_next_def Let_def tcp_at_def hdr_len_def IPH_HL_def TCPH_HDRLEN_def get16_def
      get16_le_def ip_chksum_def ip_sum_def fold16_def put16_le_def hi8_def lo8_def upt_rec)

theorem vj_lossless_witness:
  "vj_link [(True, 42, demo_rx, demo_segment), (True, 41, demo_rx, demo_next)]
     ((vj_compress_init zero_vj)\<lparr>maxSlotIndex := 15, compressSlot := 1\<rparr>) zero_vj = [Some demo_segment, Some demo_next]"
proof -
  have "length (rstate zero_vj) = 16" "\<forall>b \<in> set (rstate zero_vj). length (cs_hdr b) = 128" "has_buffers demo_rx"
    by (simp_all add: zero_vj_def has_buffers_def demo_rx_def)
  then show ?thesis
    using vj_lossless [of zero_vj "[(True, 42, demo_rx, demo_segment), (True, 41, demo_rx, demo_next)]" 1 15] demo_ok
    by (simp del: vj_link.simps)
qed

definition demo_cut :: rx_env where
  "demo_cut = demo_rx\<lparr>rx_len0 := 1, rx_junk := (\<lambda>i. if i = 1 then 0 else 7)\<rparr>"

definition demo_saved :: vjcompress where
  "demo_saved = zero_vj\<lparr>rstate := (rstate zero_vj)[0 := (rstate zero_vj ! 0)\<lparr>cs_hdr := memcpy_at 0 demo_segment (replicate 128 0)\<rparr>]\<rparr>"

section \<open>Arbitrary input\<close>

text \<open>The shape of the decompressor's state: its array accesses are in range.\<close>

definition rx_shape :: "vjcompress \<Rightarrow> bool" where
  "rx_shape r \<longleftrightarrow> length (rstate r) = 16 \<and> (\<forall>b \<in> set (rstate r). length (cs_hdr b) = 128 \<and> cs_hlen b \<le> 128)
     \<and> (vj_flags r AND VJF_TOSS = 0 \<longrightarrow> unat (last_recv r) < 16)"



lemma length_add [simp]: "length (add16 i v h) = length h" "length (add32 i w h) = length h"
  by (simp_all add: add16_def add32_def)








text \<open>The header of a compressed packet is applied before its length is checked.\<close>

definition rx_explicit :: "rx_env \<Rightarrow> octets \<Rightarrow> bool" where
  "rx_explicit env p \<longleftrightarrow> rx_mem env p 0 AND NEW_C \<noteq> 0"

definition rx_slot :: "rx_env \<Rightarrow> octets \<Rightarrow> vjcompress \<Rightarrow> u8" where
  "rx_slot env p r = (if rx_explicit env p then rx_mem env p 1 else last_recv r)"

definition rx_cs :: "rx_env \<Rightarrow> octets \<Rightarrow> vjcompress \<Rightarrow> cstate" where
  "rx_cs env p r = rstate r ! unat (rx_slot env p r)"

definition rx_apply :: "rx_env \<Rightarrow> octets \<Rightarrow> vjcompress \<Rightarrow> octets \<times> nat" where
  "rx_apply env p r = vj_apply (rx_mem env p) (rx_mem env p 0) (if rx_explicit env p then 2 else 1)
     (cs_hlen (rx_cs env p r)) (cs_hdr (rx_cs env p r))"

definition rx_saved :: "rx_env \<Rightarrow> octets \<Rightarrow> octets \<Rightarrow> vjcompress \<Rightarrow> vjcompress" where
  "rx_saved env p h r =
     r\<lparr>vj_flags := (if rx_explicit env p then vj_flags r AND NOT VJF_TOSS else vj_flags r), last_recv := rx_slot env p r,
       rstate := (rstate r)[unat (rx_slot env p r) := (rx_cs env p r)\<lparr>cs_hdr := h\<rparr>]\<rparr>"

definition rx_refused :: "rx_env \<Rightarrow> octets \<Rightarrow> vjcompress \<Rightarrow> bool" where
  "rx_refused env p r \<longleftrightarrow>
     (if rx_explicit env p then unat (rx_mem env p 1) \<ge> MAX_SLOTS else vj_flags r AND VJF_TOSS \<noteq> 0)"

lemma uncompress_tcp_unfold:
  "vj_uncompress_tcp env p r =
     (if rx_refused env p r then (None, p, if rx_explicit env p then vj_uncompress_err r else r)
      else (let h = fst (rx_apply env p r); k = snd (rx_apply env p r)
            in if rx_len0 env < k then (None, p, vj_uncompress_err (rx_saved env p h r))
               else (let h' = vj_header (length p) k (cs_hlen (rx_cs env p r)) h
                     in if \<not> rx_aligned env \<and> \<not> rx_realign env \<or> rx_aligned env \<and> \<not> rx_headroom env \<and> \<not> rx_prepend env
                        then (None, drop k p, vj_uncompress_err (rx_saved env p h' r))
                        else (Some k, take (unat (cs_hlen (rx_cs env p r))) h' @ drop k p, rx_saved env p h' r))))"
proof -
  obtain h k where hk: "rx_apply env p r = (h, k)" by (cases "rx_apply env p r")
  note ap = hk [unfolded rx_apply_def rx_cs_def rx_slot_def]
  note d = vj_uncompress_tcp_def [of env p r, unfolded Let_def, folded rx_explicit_def]
  show ?thesis
  proof (cases "rx_explicit env p")
    case True
    then show ?thesis using ap unfolding d hk by (simp add: Let_def rx_refused_def rx_saved_def rx_cs_def rx_slot_def)
  next
    case False
    then show ?thesis using ap unfolding d hk by (simp add: Let_def rx_refused_def rx_saved_def rx_cs_def rx_slot_def)
  qed
qed


lemma slot_in_shape: "rx_shape r \<Longrightarrow> i < 16 \<Longrightarrow> length (cs_hdr (rstate r ! i)) = 128 \<and> cs_hlen (rstate r ! i) \<le> 128"
  by (simp add: rx_shape_def)



text \<open>a truncated packet spoils a saved header: the decompressor applies what it reads behind the end of the packet and only
  then finds that the packet is too short. One octet, with a slot number taken from the memory behind it, changes
  the saved TCP checksum and IP identification of that slot.\<close>

theorem vj_truncated_packet_applied:
  assumes "rx_shape r" and "rx_len0 env = 1" and "unat (rx_junk env 1) < 16"
    and "cs = rstate r ! unat (rx_junk env 1)" and "IPH_HL (cs_hdr cs) \<ge> 5"
    and "vj_uncompress_tcp env [0x40] r = (res, out, rc)" and "cs' = rstate rc ! unat (rx_junk env 1)"
  shows "res = None \<and> get16 (cs_hdr cs') 4 = get16 (cs_hdr cs) 4 + 1
    \<and> get16 (cs_hdr cs') (4 * IPH_HL (cs_hdr cs) + 16) = push_bit 8 (ucast (rx_junk env 2)) OR ucast (rx_junk env 3)"
proof -
  let ?p = "[0x40] :: octets" and ?i = "unat (rx_junk env 1)" and ?t = "tcp_at (cs_hdr cs)"
  have l: "length (cs_hdr cs) = 128" "length (rstate r) = 16" using slot_in_shape [OF assms(1,3)] assms(1,4) by (simp_all add: rx_shape_def)
  have t: "20 \<le> ?t" "?t \<le> 60" using assms(5) IPH_HL_less [of "cs_hdr cs"] by (auto simp: tcp_at_def)
  have b: "(0x40 :: u8) AND NEW_C \<noteq> 0" "(0x40 :: u8) AND TCP_PUSH_BIT = 0" "(0x40 :: u8) AND NEW_I = 0" "(0x40 :: u8) AND NEW_U = 0"
    "(0x40 :: u8) AND NEW_W = 0" "(0x40 :: u8) AND NEW_A = 0" "(0x40 :: u8) AND NEW_S = 0"
    "(0x40 :: u8) AND SPECIALS_MASK \<noteq> SPECIAL_I" "(0x40 :: u8) AND SPECIALS_MASK \<noteq> SPECIAL_D"
    by (simp_all add: vj_bits)
  have m: "rx_mem env ?p 0 = 0x40" "rx_mem env ?p 1 = rx_junk env 1" "rx_mem env ?p 2 = rx_junk env 2" "rx_mem env ?p 3 = rx_junk env 3"
    using assms(2) by (simp_all add: rx_mem_def)
  have x: "rx_explicit env ?p" using m b by (simp add: rx_explicit_def)
  then have sl: "rx_slot env ?p r = rx_junk env 1" "rx_cs env ?p r = cs" "\<not> rx_refused env ?p r"
    using m assms(3,4) by (simp_all add: rx_slot_def rx_cs_def rx_refused_def MAX_SLOTS_def)
  let ?ap = "rx_apply env ?p r"
  have ap: "snd ?ap = 4" "get16 (fst ?ap) 4 = get16 (cs_hdr cs) 4 + 1"
    "get16 (fst ?ap) (?t + 16) = push_bit 8 (ucast (rx_junk env 2)) OR ucast (rx_junk env 3)"
    using l t b m x sl unfolding rx_apply_def vj_apply_split Let_def by (simp_all add: decode_if_def add16_def)
  have "res = None \<and> rc = vj_uncompress_err (rx_saved env ?p (fst ?ap) r)"
    using assms(6) sl(3) ap(1) assms(2) unfolding uncompress_tcp_unfold by (auto simp: Let_def)
  then show ?thesis using ap l assms(3,7) sl by (simp add: vj_uncompress_err_def rx_saved_def tcp_at_def)
qed

theorem vj_truncated_packet_applied_witness:
  "fst (vj_uncompress_tcp demo_cut [0x40] demo_saved) = None
   \<and> get16 (cs_hdr (rstate (snd (snd (vj_uncompress_tcp demo_cut [0x40] demo_saved))) ! 0)) 36 = 0x0707"
proof -
  have i: "IPH_HL (cs_hdr (rstate demo_saved ! 0)) = 5"
    by (simp add: demo_saved_def zero_vj_def demo_segment_def IPH_HL_def memcpy_at_def)
  have "rx_shape demo_saved"
    by (auto simp: rx_shape_def demo_saved_def zero_vj_def demo_segment_def VJF_TOSS_def
        dest!: set_update_subset_insert [THEN subsetD])
  then show ?thesis
    using vj_truncated_packet_applied [of demo_saved demo_cut "rstate demo_saved ! 0"
        "fst (vj_uncompress_tcp demo_cut [0x40] demo_saved)" "fst (snd (vj_uncompress_tcp demo_cut [0x40] demo_saved))"
        "snd (snd (vj_uncompress_tcp demo_cut [0x40] demo_saved))"
        "rstate (snd (snd (vj_uncompress_tcp demo_cut [0x40] demo_saved))) ! 0"] i
    by (simp add: demo_cut_def)
qed

text \<open>The number of slots agreed with the peer has no influence on the compressor: it always uses all 16.\<close>

theorem vj_slot_limit_ignored:
  "vj_compress_tcp clone len0 p (vc\<lparr>maxSlotIndex := m\<rparr>) =
     map_option (\<lambda>(ty, q, v). (ty, q, v\<lparr>maxSlotIndex := m\<rparr>)) (vj_compress_tcp clone len0 p vc)"
proof -
  have n: "next_of (vc\<lparr>maxSlotIndex := m\<rparr>) = next_of vc" by (intro ext) (simp add: next_of_def)
  have l: "vj_locate p (vc\<lparr>maxSlotIndex := m\<rparr>) = map_option (\<lambda>(f, c, v). (f, c, v\<lparr>maxSlotIndex := m\<rparr>)) (vj_locate p vc)"
    unfolding vj_locate_def Let_def n by (auto split: option.splits)
  have u: "vj_uncompressed c k p (v\<lparr>maxSlotIndex := m\<rparr>) = (case vj_uncompressed c k p v of (ty, q, v') \<Rightarrow> (ty, q, v'\<lparr>maxSlotIndex := m\<rparr>))"
    "vj_compressed c k e p (v\<lparr>maxSlotIndex := m\<rparr>) = (case vj_compressed c k e p v of (ty, q, v') \<Rightarrow> (ty, q, v'\<lparr>maxSlotIndex := m\<rparr>))" for c k e v
    by (simp_all add: vj_uncompressed_def vj_compressed_def Let_def split: prod.splits)
  show ?thesis
    unfolding vj_compress_tcp_def Let_def l by (auto simp: u split: option.splits prod.splits)
qed

end
