(* ===== verification/Ppp_Core.thy ===== *)
theory Ppp_Core
  imports Ppp_Pcb Vj_Link
begin

text \<open>
  The core of PPP (\<open>src/lwip/src/netif/ppp/ppp.c\<close>): the life cycle of a connection, the path of a packet from the
  IP layer to the link and back, and the functions through which the control protocols configure the
  interface. Calls into other layers are recorded in \<open>u_calls\<close> in the order in which they are made; their
  answers, and those of the pbuf layer, are arguments. A pbuf chain is the list of its segments together
  with the octets that are hidden in front of the first payload.
\<close>

section \<open>Data\<close>

datatype core_call =
  Ip4_input octets | Protocol_input u16 octets | Send_protrej octets | Link_output octets u16 | Link_write octets
| Link_connect | Link_disconnect | Link_send_config u32 bool bool | Link_recv_config u32 bool bool | Link_free
| Status_cb int | Connect_timeout u32 | Connect_untimeout | Lcp_open_call | Lcp_lowerup_call | Lcp_lowerdown_call
| Lcp_close_call string | Link_terminated_call | Set_link_up | Set_link_down | Netif_remove | Netif_set_up | Protocol_init u16

record ppp_unit =
  u_pcb :: ppp_pcb
  u_phase :: ppp_phase
  u_err :: int
  u_vj :: vjcompress
  u_ip :: u32
  u_netmask :: u32
  u_gw :: u32
  u_dns :: "u32 \<times> u32"
  u_refuse_chap :: bool
  u_refuse_mschap :: bool
  u_refuse_mschap_v2 :: bool
  u_user :: string
  u_passwd :: string
  u_calls :: "core_call list"

definition PPPAUTHTYPE_CHAP :: u8 where "PPPAUTHTYPE_CHAP = 0x02"
definition PPPAUTHTYPE_MSCHAP :: u8 where "PPPAUTHTYPE_MSCHAP = 0x04"
definition PPPAUTHTYPE_MSCHAP_V2 :: u8 where "PPPAUTHTYPE_MSCHAP_V2 = 0x08"
definition PPPCTLG_UPSTATUS :: u8 where "PPPCTLG_UPSTATUS = 0"
definition PPPCTLG_ERRCODE :: u8 where "PPPCTLG_ERRCODE = 1"
definition IPADDR_BROADCAST :: u32 where "IPADDR_BROADCAST = 0xffffffff"

definition do_call :: "core_call \<Rightarrow> ppp_unit \<Rightarrow> ppp_unit" where
  "do_call c u = u\<lparr>u_calls := u_calls u @ [c]\<rparr>"

definition on_unit_pcb :: "(ppp_pcb \<Rightarrow> ppp_pcb) \<Rightarrow> ppp_unit \<Rightarrow> ppp_unit" where
  "on_unit_pcb g u = u\<lparr>u_pcb := g (u_pcb u)\<rparr>"

section \<open>Life cycle\<close>

text \<open>A control block after \<open>memset\<close>.\<close>

definition zero_mppe :: mppe where
  "zero_mppe = blank_mppe\<lparr>marc4 := \<lparr>arc_x = 0, arc_y = 0, arc_m = replicate 256 0\<rparr>\<rparr>"

definition zero_unit :: "u16 \<Rightarrow> ppp_unit" where
  "zero_unit mtu =
     \<lparr>u_pcb = \<lparr>require_mppe = False, refuse_mppe_stateful = False, refuse_mppe_40 = False, refuse_mppe_128 = False,
        auth_done = 0, mppe_keys_set = False, lcp_state = PPP_FSM_INITIAL, if4_up = False, vj_enabled = False,
        ccp_wantoptions = \<lparr>mppe_opts = 0, cmethod = 0\<rparr>, ccp_gotoptions = \<lparr>mppe_opts = 0, cmethod = 0\<rparr>,
        ccp_allowoptions = \<lparr>mppe_opts = 0, cmethod = 0\<rparr>, ccp_hisoptions = \<lparr>mppe_opts = 0, cmethod = 0\<rparr>,
        ccp_all_rejected = False, ccp_localstate = 0, ccp_receive_method = 0, ccp_transmit_method = 0,
        mppe_comp = zero_mppe, mppe_decomp = zero_mppe, netif_mtu = mtu, rack_timers = 0, pcb_calls = []\<rparr>,
      u_phase = PPP_PHASE_DEAD, u_err = 0, u_vj = zero_vj, u_ip = 0, u_netmask = 0, u_gw = 0, u_dns = (0, 0),
      u_refuse_chap = False, u_refuse_mschap = False, u_refuse_mschap_v2 = False, u_user = [], u_passwd = [], u_calls = []\<rparr>"

definition new_phase :: "ppp_phase \<Rightarrow> ppp_unit \<Rightarrow> ppp_unit" where
  "new_phase p u = u\<lparr>u_phase := p\<rparr>"

definition ppp_set_auth :: "u8 \<Rightarrow> string \<Rightarrow> string \<Rightarrow> ppp_unit \<Rightarrow> ppp_unit" where
  "ppp_set_auth authtype user passwd u =
     u\<lparr>u_refuse_chap := (authtype AND PPPAUTHTYPE_CHAP = 0), u_refuse_mschap := (authtype AND PPPAUTHTYPE_MSCHAP = 0),
       u_refuse_mschap_v2 := (authtype AND PPPAUTHTYPE_MSCHAP_V2 = 0), u_user := user, u_passwd := passwd\<rparr>"

text \<open>
  \<open>ppp_new\<close>: the status callback is given, the pool has a control block, and \<open>netif_add\<close> succeeds; \<open>mtu\<close> and the DNS
  servers are those of the interface and of the resolver.
\<close>

definition protocols :: "u16 list" where
  "protocols = [PPP_LCP, PPP_CHAP, PPP_IPCP, PPP_CCP]"

definition ppp_new :: "bool \<Rightarrow> bool \<Rightarrow> bool \<Rightarrow> u16 \<Rightarrow> u32 \<times> u32 \<Rightarrow> ppp_unit option" where
  "ppp_new has_cb alloc added mtu dns =
     (if \<not> has_cb then None else if \<not> alloc then None else if \<not> added then None
      else Some (new_phase PPP_PHASE_DEAD (fold (\<lambda>p. do_call (Protocol_init p)) protocols (do_call Netif_set_up
        ((zero_unit mtu)\<lparr>u_netmask := IPADDR_BROADCAST, u_dns := dns\<rparr>)))))"

definition ppp_do_connect :: "ppp_unit \<Rightarrow> ppp_unit" where
  "ppp_do_connect u = do_call Link_connect (new_phase PPP_PHASE_INITIALIZE u)"

definition ppp_connect :: "u16 \<Rightarrow> ppp_unit \<Rightarrow> err_t \<times> ppp_unit" where
  "ppp_connect holdoff u =
     (if u_phase u \<noteq> PPP_PHASE_DEAD then (ERR_ALREADY, u)
      else if holdoff = 0 then (ERR_OK, ppp_do_connect u)
      else (ERR_OK, do_call (Connect_timeout (ucast holdoff * 1000)) (new_phase PPP_PHASE_HOLDOFF u)))"

definition ppp_link_terminated :: "ppp_unit \<Rightarrow> ppp_unit" where
  "ppp_link_terminated u = do_call Link_disconnect u"

definition ppp_close :: "bool \<Rightarrow> ppp_unit \<Rightarrow> err_t \<times> ppp_unit" where
  "ppp_close nocarrier u0 =
     (let u1 = u0\<lparr>u_err := PPPERR_USER\<rparr>;
          u = (if u_phase u1 = PPP_PHASE_HOLDOFF then new_phase PPP_PHASE_DEAD (do_call Connect_untimeout u1) else u1)
      in if u_phase u = PPP_PHASE_DEAD then (ERR_OK, do_call (Status_cb (u_err u)) u)
         else if u_phase u \<ge> PPP_PHASE_TERMINATE then (ERR_INPROGRESS, u)
         else if u_phase u < PPP_PHASE_ESTABLISH
         then (ERR_OK, ppp_link_terminated (new_phase PPP_PHASE_DISCONNECT u))
         else if nocarrier \<and> u_phase u = PPP_PHASE_RUNNING
         then (ERR_OK, do_call Link_terminated_call (do_call Lcp_lowerdown_call u))
         else (ERR_OK, do_call (Lcp_close_call ''User request'') u))"

text \<open>\<open>free_result\<close> is what the link's own \<open>free\<close> returns; the control block is gone afterwards.\<close>

definition ppp_free :: "err_t \<Rightarrow> ppp_unit \<Rightarrow> err_t \<times> ppp_unit" where
  "ppp_free free_result u =
     (if u_phase u \<noteq> PPP_PHASE_DEAD then (ERR_CONN, u) else (free_result, do_call Link_free (do_call Netif_remove u)))"

definition ppp_ioctl :: "u8 \<Rightarrow> bool \<Rightarrow> ppp_unit \<Rightarrow> err_t \<times> int option" where
  "ppp_ioctl cmd has_arg u =
     (if cmd = PPPCTLG_UPSTATUS then (if has_arg then (ERR_OK, Some (if if4_up (u_pcb u) then 1 else 0)) else (ERR_VAL, None))
      else if cmd = PPPCTLG_ERRCODE then (if has_arg then (ERR_OK, Some (u_err u)) else (ERR_VAL, None))
      else (ERR_VAL, None))"

definition ppp_start :: "ppp_unit \<Rightarrow> ppp_unit" where
  "ppp_start u =
     do_call Lcp_lowerup_call (do_call Lcp_open_call (new_phase PPP_PHASE_ESTABLISH
       (u\<lparr>u_pcb := (u_pcb u)\<lparr>mppe_keys_set := False, mppe_comp := zero_mppe, mppe_decomp := zero_mppe\<rparr>,
          u_vj := vj_compress_init (u_vj u)\<rparr>)))"

definition ppp_link_failed :: "ppp_unit \<Rightarrow> ppp_unit" where
  "ppp_link_failed u = do_call (Status_cb PPPERR_OPEN) ((new_phase PPP_PHASE_DEAD u)\<lparr>u_err := PPPERR_OPEN\<rparr>)"

definition ppp_link_end :: "ppp_unit \<Rightarrow> ppp_unit" where
  "ppp_link_end u =
     (let u1 = new_phase PPP_PHASE_DEAD u;
          u2 = (if u_err u1 = PPPERR_NONE then u1\<lparr>u_err := PPPERR_CONNECT\<rparr> else u1)
      in do_call (Status_cb (u_err u2)) u2)"

section \<open>Configuration of the interface\<close>

definition ppp_send_config :: "u32 \<Rightarrow> bool \<Rightarrow> bool \<Rightarrow> ppp_unit \<Rightarrow> ppp_unit" where
  "ppp_send_config accm pcomp accomp u = do_call (Link_send_config accm pcomp accomp) u"

definition ppp_recv_config :: "u32 \<Rightarrow> bool \<Rightarrow> bool \<Rightarrow> ppp_unit \<Rightarrow> ppp_unit" where
  "ppp_recv_config accm pcomp accomp u = do_call (Link_recv_config accm pcomp accomp) u"

definition sifaddr :: "u32 \<Rightarrow> u32 \<Rightarrow> u32 \<Rightarrow> ppp_unit \<Rightarrow> ppp_unit" where
  "sifaddr our_adr his_adr netmask u = u\<lparr>u_ip := our_adr, u_netmask := netmask, u_gw := his_adr\<rparr>"

definition cifaddr :: "u32 \<Rightarrow> u32 \<Rightarrow> ppp_unit \<Rightarrow> ppp_unit" where
  "cifaddr our_adr his_adr u = u\<lparr>u_ip := 0, u_netmask := IPADDR_BROADCAST, u_gw := 0\<rparr>"

definition sdns :: "u32 \<Rightarrow> u32 \<Rightarrow> ppp_unit \<Rightarrow> ppp_unit" where
  "sdns ns1 ns2 u = u\<lparr>u_dns := (ns1, ns2)\<rparr>"

definition cdns :: "u32 \<Rightarrow> u32 \<Rightarrow> ppp_unit \<Rightarrow> ppp_unit" where
  "cdns ns1 ns2 u =
     u\<lparr>u_dns := (if fst (u_dns u) = ns1 then 0 else fst (u_dns u), if snd (u_dns u) = ns2 then 0 else snd (u_dns u))\<rparr>"

definition sifvjcomp :: "bool \<Rightarrow> u8 \<Rightarrow> u8 \<Rightarrow> ppp_unit \<Rightarrow> ppp_unit" where
  "sifvjcomp vjcomp cidcomp maxcid u =
     u\<lparr>u_pcb := (u_pcb u)\<lparr>vj_enabled := vjcomp\<rparr>, u_vj := (u_vj u)\<lparr>compressSlot := cidcomp, maxSlotIndex := maxcid\<rparr>\<rparr>"

definition sifup :: "ppp_unit \<Rightarrow> ppp_unit" where
  "sifup u = do_call (Status_cb PPPERR_NONE) (do_call Set_link_up
     (u\<lparr>u_pcb := (u_pcb u)\<lparr>if4_up := True\<rparr>, u_err := PPPERR_NONE\<rparr>))"

definition sifdown :: "ppp_unit \<Rightarrow> ppp_unit" where
  "sifdown u = do_call Set_link_down (on_unit_pcb (\<lambda>pcb. pcb\<lparr>if4_up := False\<rparr>) u)"

definition get_mask :: "u32 \<Rightarrow> u32" where
  "get_mask addr = IPADDR_BROADCAST"

definition ppp_netif_set_mtu :: "int \<Rightarrow> ppp_unit \<Rightarrow> ppp_unit" where
  "ppp_netif_set_mtu mtu u = on_unit_pcb (\<lambda>pcb. pcb\<lparr>netif_mtu := of_int mtu\<rparr>) u"

definition ppp_netif_get_mtu :: "ppp_unit \<Rightarrow> int" where
  "ppp_netif_get_mtu u = uint (netif_mtu (u_pcb u))"

section \<open>Output\<close>

text \<open>The answers of the pbuf layer and of the link to one packet.\<close>

record out_env =
  oe_clone :: bool
  oe_len0 :: nat
  oe_alloc :: bool
  oe_copied :: err_t
  oe_link :: err_t

definition vj_protocol :: "vj_type \<Rightarrow> u16" where
  "vj_protocol ty = (case ty of TYPE_IP \<Rightarrow> PPP_IP | TYPE_COMPRESSED_TCP \<Rightarrow> PPP_VJC_COMP | TYPE_UNCOMPRESSED_TCP \<Rightarrow> PPP_VJC_UNCOMP)"

definition compress_header :: "out_env \<Rightarrow> octets \<Rightarrow> u16 \<Rightarrow> ppp_unit \<Rightarrow> (octets \<times> u16 \<times> ppp_unit) option" where
  "compress_header env pb protocol u =
     (if protocol = PPP_IP \<and> vj_enabled (u_pcb u)
      then (case vj_compress_tcp (oe_clone env) (oe_len0 env) pb (u_vj u) of
              None \<Rightarrow> None
            | Some (ty, pb', vc) \<Rightarrow> Some (pb', vj_protocol ty, u\<lparr>u_vj := vc\<rparr>))
      else Some (pb, protocol, u))"

definition ppp_transmit :: "out_env \<Rightarrow> octets \<Rightarrow> u16 \<Rightarrow> ppp_unit \<Rightarrow> err_t \<times> ppp_unit" where
  "ppp_transmit env pb protocol u =
     (if ccp_transmit_method (u_pcb u) = 0 then (oe_link env, do_call (Link_output pb protocol) u)
      else if ccp_transmit_method (u_pcb u) = CI_MPPE
      then (case mppe_compress (oe_alloc env) (oe_copied env) pb protocol (mppe_comp (u_pcb u)) of
              (e, None, st) \<Rightarrow> (e, on_unit_pcb (\<lambda>pcb. pcb\<lparr>mppe_comp := st\<rparr>) u)
            | (e, Some frame, st) \<Rightarrow>
                (oe_link env, do_call (Link_output frame PPP_COMP) (on_unit_pcb (\<lambda>pcb. pcb\<lparr>mppe_comp := st\<rparr>) u)))
      else (ERR_RTE, u))"

definition ppp_netif_output :: "out_env \<Rightarrow> octets \<Rightarrow> u16 \<Rightarrow> ppp_unit \<Rightarrow> (err_t \<times> ppp_unit) option" where
  "ppp_netif_output env pb protocol u =
     (if protocol = PPP_IP \<and> \<not> if4_up (u_pcb u) then Some (ERR_RTE, u)
      else if require_mppe (u_pcb u) \<and> ccp_transmit_method (u_pcb u) \<noteq> CI_MPPE then Some (ERR_RTE, u)
      else (case compress_header env pb protocol u of
              None \<Rightarrow> None
            | Some (pb', protocol', u') \<Rightarrow> Some (ppp_transmit env pb' protocol' u')))"

definition ppp_netif_output_ip4 :: "out_env \<Rightarrow> octets \<Rightarrow> ppp_unit \<Rightarrow> (err_t \<times> ppp_unit) option" where
  "ppp_netif_output_ip4 env pb u = ppp_netif_output env pb PPP_IP u"

definition ppp_write :: "err_t \<Rightarrow> octets \<Rightarrow> ppp_unit \<Rightarrow> err_t \<times> ppp_unit" where
  "ppp_write link_result p u = (link_result, do_call (Link_write p) u)"

section \<open>Input\<close>

type_synonym pchain = "octets \<times> octets list"

definition pbuf_remove_header :: "nat \<Rightarrow> pchain \<Rightarrow> pchain" where
  "pbuf_remove_header n pb = (fst pb @ take n (hd (snd pb)), drop n (hd (snd pb)) # tl (snd pb))"

definition pbuf_add_header :: "nat \<Rightarrow> pchain \<Rightarrow> pchain option" where
  "pbuf_add_header n pb =
     (if n \<le> length (fst pb)
      then (let k = length (fst pb) - n in Some (take k (fst pb), (drop k (fst pb) @ hd (snd pb)) # tl (snd pb)))
      else None)"

text \<open>What the pbuf layer answers to the decompressor, and whether \<open>pbuf_coalesce\<close> finds memory.\<close>

record in_env =
  ie_rx :: rx_env
  ie_coalesce :: bool

definition decompress_frame :: "pchain \<Rightarrow> ppp_unit \<Rightarrow> (u16 \<times> pchain) option \<times> ppp_unit" where
  "decompress_frame pb u =
     (if ccp_receive_method (u_pcb u) = CI_MPPE
      then (case mppe_decompress (snd pb) (mppe_decomp (u_pcb u)) of
              (e, events, out, st) \<Rightarrow>
                (let u1 = on_unit_pcb (\<lambda>pcb. pcb\<lparr>mppe_decomp := st, pcb_calls := pcb_calls pcb @ map mppe_call events\<rparr>) u;
                     pb1 = (fst pb @ take MPPE_OVHD (hd (snd pb)), out); pl = hd out
                 in if e \<noteq> ERR_OK then (None, u1)
                    else if length pl < 2 then (None, u1)
                    else if pl ! 0 AND 0x01 \<noteq> 0 then (Some (ucast (pl ! 0), pbuf_remove_header 1 pb1), u1)
                    else (Some (get16 pl 0, pbuf_remove_header 2 pb1), u1)))
      else (None, u))"

definition ppp_dispatch :: "in_env \<Rightarrow> u16 \<Rightarrow> pchain \<Rightarrow> ppp_unit \<Rightarrow> ppp_unit" where
  "ppp_dispatch env protocol pb u =
     (let packet = concat (snd pb); len0 = length (hd (snd pb))
      in if protocol = PPP_IP then do_call (Ip4_input packet) u
         else if protocol = PPP_VJC_COMP
         then (if vj_enabled (u_pcb u)
               then (case vj_uncompress_tcp ((ie_rx env)\<lparr>rx_len0 := len0\<rparr>) packet (u_vj u) of
                       (None, _, vc) \<Rightarrow> u\<lparr>u_vj := vc\<rparr>
                     | (Some _, out, vc) \<Rightarrow> do_call (Ip4_input out) (u\<lparr>u_vj := vc\<rparr>))
               else u)
         else if protocol = PPP_VJC_UNCOMP
         then (if vj_enabled (u_pcb u)
               then (case vj_uncompress_uncomp len0 packet (u_vj u) of
                       (ok, out, vc) \<Rightarrow> if ok then do_call (Ip4_input out) (u\<lparr>u_vj := vc\<rparr>) else u\<lparr>u_vj := vc\<rparr>)
               else u)
         else if protocol \<in> set protocols
         then (if tl (snd pb) = [] \<or> ie_coalesce env then do_call (Protocol_input protocol packet) u else u)
         else (case pbuf_add_header 2 pb of
                 None \<Rightarrow> u
               | Some pb' \<Rightarrow> do_call (Send_protrej (hd (snd pb'))) u))"

definition ppp_input :: "in_env \<Rightarrow> octets list \<Rightarrow> ppp_unit \<Rightarrow> ppp_unit" where
  "ppp_input env pb u =
     (if length (hd pb) < 2 then u
      else (let protocol = get16 (hd pb) 0; pb1 = pbuf_remove_header 2 ([], pb)
            in if protocol \<noteq> PPP_LCP \<and> lcp_state (u_pcb u) \<noteq> PPP_FSM_OPENED then u
               else if u_phase u \<le> PPP_PHASE_AUTHENTICATE \<and> \<not> (protocol = PPP_LCP \<or> protocol = PPP_CHAP) then u
               else if require_mppe (u_pcb u) \<and> protocol \<noteq> PPP_COMP \<and> protocol < 0x8000 then u
               else if protocol = PPP_COMP
               then (case decompress_frame pb1 u of
                       (None, u1) \<Rightarrow> u1
                     | (Some (protocol', pb2), u1) \<Rightarrow> ppp_dispatch env protocol' pb2 u1)
               else ppp_dispatch env protocol pb1 u))"

end
