(* ===== verification/Ppp_Options.thy ===== *)
theory Ppp_Options
  imports Ppp_Fsm
begin

text \<open>
  The walk over the options of a Configure-Request that the control protocols share: the options are judged
  one after the other, and the reply is built in the buffer of the request. \<open>opt_scan\<close> is the loop as
  \<open>ccp_reqci\<close> has it, with offsets into the buffer; the locale \<open>option_judge\<close> states what it relies on
  in the judgement of one option and shows which reply results.
\<close>

section \<open>The loop\<close>

definition bad_option :: "nat \<Rightarrow> octets \<Rightarrow> bool" where
  "bad_option len p \<longleftrightarrow> len < 2 \<or> unat (p ! 1) < 2 \<or> len < unat (p ! 1)"

type_synonym 's judge = "'s \<Rightarrow> octets \<Rightarrow> u8 \<times> octets \<times> 's"

text \<open>The verdict on the option at the front of \<open>p\<close>, its bytes after the judgement, and how many they are.\<close>

definition judge_front :: "'s judge \<Rightarrow> bool \<Rightarrow> 's \<Rightarrow> octets \<Rightarrow> u8 \<times> octets \<times> nat \<times> 's" where
  "judge_front judge dont_nak st p =
     (let len = length p
      in if bad_option len p then (CONFREJ, p, len, st)
         else (let clen = unat (p ! 1);
                   (newret, opt, st') = judge st (take clen p)
               in (if newret = CONFNAK \<and> dont_nak then CONFREJ else newret, opt, clen, st')))"

lemma judge_front_length:
  assumes "p \<noteq> []" and "judge_front judge dont_nak st p = (v, opt, clen, st')"
  shows "0 < clen" and "clen \<le> length p"
  using assms by (auto simp: judge_front_def bad_option_def Let_def split: if_splits prod.splits)

text \<open>
  \<open>buf\<close> is the packet, \<open>p\<close> the offset of the option to judge, \<open>len\<close> what is left, \<open>ret\<close> the answer so far and
  \<open>retp\<close> the offset behind the options that go into it.
\<close>

function opt_scan ::
  "'s judge \<Rightarrow> bool \<Rightarrow> 's \<Rightarrow> octets \<Rightarrow> nat \<Rightarrow> nat \<Rightarrow> u8 \<Rightarrow> nat \<Rightarrow> u8 \<times> octets \<times> nat \<times> 's" where
  "opt_scan judge dont_nak st buf p len ret retp =
     (if len = 0 \<or> length buf < p + len then (ret, buf, retp, st)
      else (let (newret, opt, clen, st') = judge_front judge dont_nak st (take len (drop p buf));
                buf1 = memcpy_at p opt buf
            in if newret = CONFACK \<or> (newret = CONFNAK \<and> ret = CONFREJ)
               then opt_scan judge dont_nak st' buf1 (p + clen) (len - clen) ret retp
               else (let retp1 = (if newret = CONFREJ \<and> ret = CONFNAK then 0 else retp);
                         buf2 = (if p \<noteq> retp1 then memcpy_at retp1 (take clen (drop p buf1)) buf1 else buf1)
                     in opt_scan judge dont_nak st' buf2 (p + clen) (len - clen) newret (retp1 + clen))))"
  by pat_completeness auto

termination
proof (relation "measure (\<lambda>(judge, dont_nak, st, buf, p, len, ret, retp). len)", goal_cases)
  case (2 judge dont_nak st buf p len ret retp x newret y opt z clen st' buf1)
  then have "judge_front judge dont_nak st (take len (drop p buf)) = (newret, opt, clen, st')" by simp
  from judge_front_length(1) [OF _ this] 2(1) show ?case by auto
next
  case (3 judge dont_nak st buf p len ret retp x newret y opt z clen st' buf1 retp1 buf2)
  then have "judge_front judge dont_nak st (take len (drop p buf)) = (newret, opt, clen, st')" by simp
  from judge_front_length(1) [OF _ this] 3(1) show ?case by auto
qed simp

declare opt_scan.simps [simp del]

section \<open>What the reply should be\<close>

function judge_all :: "'s judge \<Rightarrow> bool \<Rightarrow> 's \<Rightarrow> octets \<Rightarrow> (u8 \<times> octets) list \<times> 's" where
  "judge_all judge dont_nak st p =
     (if p = [] then ([], st)
      else (let (v, opt, clen, st') = judge_front judge dont_nak st p;
                (js, st'') = judge_all judge dont_nak st' (drop clen p)
            in ((v, opt) # js, st'')))"
  by pat_completeness auto

termination
proof (relation "measure (\<lambda>(judge, dont_nak, st, p). length p)", goal_cases)
  case (2 judge dont_nak st p x v y opt z clen st')
  then have "judge_front judge dont_nak st p = (v, opt, clen, st')" by simp
  from judge_front_length(1) [OF _ this] 2(1) show ?case by auto
qed simp

declare judge_all.simps [simp del]

definition worst :: "(u8 \<times> octets) list \<Rightarrow> u8" where
  "worst js =
     (if CONFREJ \<in> fst ` set js then CONFREJ else if CONFNAK \<in> fst ` set js then CONFNAK else CONFACK)"

definition picked :: "u8 \<Rightarrow> (u8 \<times> octets) list \<Rightarrow> octets" where
  "picked r js = concat (map snd (filter (\<lambda>j. fst j = r) js))"

definition rank :: "u8 \<Rightarrow> nat" where
  "rank r = (if r = CONFREJ then 2 else if r = CONFNAK then 1 else 0)"

definition join :: "u8 \<Rightarrow> u8 \<Rightarrow> u8" where
  "join r s = (if rank s > rank r then s else r)"

definition is_verdict :: "u8 \<Rightarrow> bool" where
  "is_verdict r \<longleftrightarrow> r = CONFACK \<or> r = CONFNAK \<or> r = CONFREJ"

lemma worst_Nil [simp]: "worst [] = CONFACK"
  and picked_Nil [simp]: "picked r [] = []"
  by (simp_all add: worst_def picked_def)

lemma worst_Cons: "is_verdict v \<Longrightarrow> worst ((v, opt) # js) = join v (worst js)"
  by (auto simp: worst_def join_def rank_def is_verdict_def fsm_codes)

lemma picked_Cons [simp]: "picked r ((v, opt) # js) = (if v = r then opt else []) @ picked r js"
  by (simp add: picked_def)

lemma worst_verdict [simp]: "is_verdict (worst js)"
  by (simp add: worst_def is_verdict_def)

lemma join_verdict: "is_verdict r \<Longrightarrow> is_verdict s \<Longrightarrow> is_verdict (join r s)"
  by (simp add: join_def)

lemma join_ack [simp]: "is_verdict r \<Longrightarrow> join r CONFACK = r" "join CONFACK (worst js) = worst js"
  using worst_verdict [of js] by (auto simp: join_def rank_def is_verdict_def fsm_codes)

text \<open>An option that does not go into the reply, and one that does.\<close>

lemma join_skip:
  assumes "v = CONFACK \<or> (v = CONFNAK \<and> r = CONFREJ)" "is_verdict r" "is_verdict w"
  shows "join r (join v w) = join r w" "join r w \<noteq> CONFACK \<Longrightarrow> v \<noteq> join r w"
  using assms unfolding is_verdict_def by (elim disjE conjE; simp add: join_def rank_def fsm_codes)+

lemma join_take:
  assumes "\<not> (v = CONFACK \<or> (v = CONFNAK \<and> r = CONFREJ))" "is_verdict v" "is_verdict r" "is_verdict w"
  shows "join v w = join r (join v w)" "join v w \<noteq> CONFACK" "join v w = r \<longrightarrow> v = r"
  using assms(2-4) assms(1) unfolding is_verdict_def by (elim disjE; simp add: join_def rank_def fsm_codes)+

definition all_acked :: "(u8 \<times> octets) list \<Rightarrow> bool" where
  "all_acked js \<longleftrightarrow> (\<forall>j \<in> set js. fst j = CONFACK)"

lemma worst_acked:
  assumes "worst js = CONFACK" and "\<And>j. j \<in> set js \<Longrightarrow> is_verdict (fst j)"
  shows "all_acked js"
proof -
  have "CONFREJ \<notin> fst ` set js" "CONFNAK \<notin> fst ` set js"
    using assms(1) by (auto simp: worst_def fsm_codes split: if_splits)
  then show ?thesis using assms(2) by (force simp: all_acked_def is_verdict_def)
qed

section \<open>The loop builds that reply\<close>

locale option_judge =
  fixes judge :: "'s judge"
  assumes verdict: "judge st opt = (v, opt', st') \<Longrightarrow> is_verdict v"
    and same_length: "judge st opt = (v, opt', st') \<Longrightarrow> length opt' = length opt"
begin

lemma front:
  assumes "p \<noteq> []" and "judge_front judge dont_nak st p = (v, opt, clen, st')"
  shows "is_verdict v" "length opt = clen" "0 < clen" "clen \<le> length p"
proof -
  show c: "0 < clen" "clen \<le> length p" using judge_front_length [OF assms] by simp_all
  obtain v0 o0 s0 where j: "judge st (take (unat (p ! 1)) p) = (v0, o0, s0)" by (metis prod.exhaust)
  have "is_verdict (if v0 = CONFNAK \<and> dont_nak then CONFREJ else v0)" "is_verdict CONFREJ"
    using verdict [OF j] by (auto simp: is_verdict_def)
  then show "is_verdict v" "length opt = clen"
    using assms c j same_length [OF j]
    by (auto simp: judge_front_def Let_def bad_option_def simp del: if_split split: if_splits)
qed

text \<open>Replacing the bytes of the current option, and moving them down, leaves the rest of the packet alone.\<close>

lemma write_option:
  assumes "p + clen \<le> length buf" "length opt = clen" "retp \<le> p"
  defines "buf1 \<equiv> memcpy_at p opt buf"
  shows "length buf1 = length buf" "drop (p + clen) buf1 = drop (p + clen) buf"
    "take p buf1 = take p buf" "take (p + clen) buf1 = take p buf @ opt" "take clen (drop p buf1) = opt"
    "length (memcpy_at retp opt buf1) = length buf"
    "drop (p + clen) (memcpy_at retp opt buf1) = drop (p + clen) buf"
    "take (retp + clen) (memcpy_at retp opt buf1) = take retp buf @ opt"
proof -
  define a b c d where abcd: "a = take retp (take p buf)" "b = drop retp (take p buf)" "c = take clen (drop p buf)"
    "d = drop (p + clen) buf"
  have "take p buf = a @ b" unfolding abcd by (rule append_take_drop_id [symmetric])
  moreover have "drop p buf = c @ d" by (simp add: abcd add.commute flip: drop_drop)
  ultimately have buf: "buf = a @ b @ c @ d" by (metis append_assoc append_take_drop_id)
  have len: "length a = retp" "length b = p - retp" "length c = clen"
    using assms(1,3) by (simp_all add: abcd)
  have b1: "buf1 = a @ b @ opt @ d"
    using assms(2,3) len by (simp add: buf1_def memcpy_at_def buf)
  have m: "memcpy_at retp opt buf1 = a @ opt @ drop clen (b @ opt) @ d"
    using assms(2) len by (simp add: memcpy_at_def b1)
  show "length buf1 = length buf" "drop (p + clen) buf1 = drop (p + clen) buf"
    "take p buf1 = take p buf" "take (p + clen) buf1 = take p buf @ opt" "take clen (drop p buf1) = opt"
    "length (memcpy_at retp opt buf1) = length buf"
    "drop (p + clen) (memcpy_at retp opt buf1) = drop (p + clen) buf"
    "take (retp + clen) (memcpy_at retp opt buf1) = take retp buf @ opt"
    using assms(2,3) len by (simp_all add: b1 m [unfolded b1], simp_all add: buf)
qed

lemma scan:
  assumes "p + len = length buf" "retp \<le> p" "is_verdict ret" "ret = CONFACK \<longrightarrow> retp = 0"
    and "judge_all judge dont_nak st (drop p buf) = (js, st2)"
    and "opt_scan judge dont_nak st buf p len ret retp = (ret', buf', retp', st')"
  shows "st' = st2 \<and> ret' = join ret (worst js) \<and> length buf' = length buf
    \<and> (ret' = CONFACK \<longrightarrow> buf' = take p buf @ concat (map snd js))
    \<and> (ret' \<noteq> CONFACK \<longrightarrow> take retp' buf' = (if ret' = ret then take retp buf else []) @ picked ret' js)
    \<and> retp' \<le> length buf"
  using assms
proof (induction len arbitrary: st buf p ret retp js st2 rule: less_induct)
  case (less len)
  show ?case
  proof (cases "len = 0")
    case True
    then show ?thesis
      using less.prems by (auto simp: opt_scan.simps judge_all.simps)
  next
    case False
    let ?q = "drop p buf"
    have q: "?q \<noteq> []" "take len ?q = ?q" using False less.prems(1) by auto
    obtain v opt clen s1 where f: "judge_front judge dont_nak st ?q = (v, opt, clen, s1)" by (metis prod.exhaust)
    obtain js1 s2 where j: "judge_all judge dont_nak s1 (drop clen ?q) = (js1, s2)" by (metis prod.exhaust)
    have js: "js = (v, opt) # js1" "st2 = s2"
      using less.prems(5) q(1) f j by (simp_all add: judge_all.simps [of judge dont_nak st ?q])
    note fr = front [OF q(1) f]
    have le: "p + clen \<le> length buf" "len - clen < len" "p + clen + (len - clen) = length buf"
      using fr(3,4) less.prems(1) False by auto
    let ?b1 = "memcpy_at p opt buf"
    note w = write_option [OF le(1) fr(2), of 0] write_option [OF le(1) fr(2) less.prems(2)]
    have d: "drop clen ?q = drop (p + clen) buf" by (simp add: add.commute)
    have sc: "opt_scan judge dont_nak st buf p len ret retp =
      (if v = CONFACK \<or> (v = CONFNAK \<and> ret = CONFREJ)
       then opt_scan judge dont_nak s1 ?b1 (p + clen) (len - clen) ret retp
       else (let retp1 = (if v = CONFREJ \<and> ret = CONFNAK then 0 else retp);
                 buf2 = (if p \<noteq> retp1 then memcpy_at retp1 (take clen (drop p ?b1)) ?b1 else ?b1)
             in opt_scan judge dont_nak s1 buf2 (p + clen) (len - clen) v (retp1 + clen)))"
      using False less.prems(1) q(2) f by (subst opt_scan.simps) (simp add: Let_def)
    have wj: "worst js = join v (worst js1)" using js fr(1) by (simp add: worst_Cons)
    show ?thesis
    proof (cases "v = CONFACK \<or> (v = CONFNAK \<and> ret = CONFREJ)")
      case True
      have jn: "join ret (worst js) = join ret (worst js1)"
        using join_skip(1) [OF True less.prems(3)] wj by simp
      have "st' = s2 \<and> ret' = join ret (worst js1) \<and> length buf' = length ?b1
        \<and> (ret' = CONFACK \<longrightarrow> buf' = take (p + clen) ?b1 @ concat (map snd js1))
        \<and> (ret' \<noteq> CONFACK \<longrightarrow> take retp' buf' = (if ret' = ret then take retp ?b1 else []) @ picked ret' js1)
        \<and> retp' \<le> length ?b1"
      proof (rule less.IH [OF le(2) _ _ less.prems(3,4)])
        show "p + clen + (len - clen) = length ?b1" using le(3) w(9) by simp
        show "retp \<le> p + clen" using less.prems(2) by simp
        show "judge_all judge dont_nak s1 (drop (p + clen) ?b1) = (js1, s2)" using j d w(10) by simp
        show "opt_scan judge dont_nak s1 ?b1 (p + clen) (len - clen) ret retp = (ret', buf', retp', st')"
          using sc True less.prems(6) by simp
      qed
      moreover have "take retp ?b1 = take retp buf"
        using arg_cong [OF w(11), of "take retp"] less.prems(2) by (simp add: min_def)
      moreover have "v \<noteq> ret'" if "ret' \<noteq> CONFACK" "ret' = join ret (worst js1)"
        using join_skip(2) [OF True less.prems(3)] that by simp
      ultimately show ?thesis using jn js w by auto
    next
      case F: False
      let ?r = "if v = CONFREJ \<and> ret = CONFNAK then 0 else retp"
      let ?b2 = "if p \<noteq> ?r then memcpy_at ?r (take clen (drop p ?b1)) ?b1 else ?b1"
      have b2: "length ?b2 = length buf" "drop (p + clen) ?b2 = drop (p + clen) buf" "take (?r + clen) ?b2 = take ?r buf @ opt"
        using w by auto
      have v: "v \<noteq> CONFACK" "join v (worst js1) = join ret (worst js)"
        using F wj join_take(1) [OF F fr(1) less.prems(3)] by simp_all
      have tr: "take ?r buf = (if v = ret then take retp buf else [])"
        using F fr(1) less.prems(3,4) by (auto simp: is_verdict_def fsm_codes)
      have IH: "st' = s2 \<and> ret' = join v (worst js1) \<and> length buf' = length ?b2
        \<and> (ret' = CONFACK \<longrightarrow> buf' = take (p + clen) ?b2 @ concat (map snd js1))
        \<and> (ret' \<noteq> CONFACK \<longrightarrow> take retp' buf' = (if ret' = v then take (?r + clen) ?b2 else []) @ picked ret' js1)
        \<and> retp' \<le> length ?b2"
      proof (rule less.IH [OF le(2) _ _ fr(1)])
        show "p + clen + (len - clen) = length ?b2" using le(3) b2(1) by simp
        show "?r + clen \<le> p + clen" "v = CONFACK \<longrightarrow> ?r + clen = 0" using less.prems(2) v(1) by simp_all
        show "judge_all judge dont_nak s1 (drop (p + clen) ?b2) = (js1, s2)" using j d b2(2) by simp
        show "opt_scan judge dont_nak s1 ?b2 (p + clen) (len - clen) v (?r + clen) = (ret', buf', retp', st')"
          using sc F less.prems(6) by (simp add: Let_def)
      qed
      moreover have "ret' \<noteq> CONFACK" "ret' = ret \<longrightarrow> v = ret"
        using conjunct1 [OF conjunct2 [OF IH]] join_take(2,3) [OF F fr(1) less.prems(3) worst_verdict] by simp_all
      ultimately show ?thesis using js v b2 tr by auto
    qed
  qed
qed

lemma all_verdicts:
  "judge_all judge dn st p = (js, st') \<Longrightarrow> j \<in> set js \<Longrightarrow> is_verdict (fst j)"
proof (induction "length p" arbitrary: p st js rule: less_induct)
  case less
  show ?case
  proof (cases "p = []")
    case True
    then show ?thesis using less.prems by (simp add: judge_all.simps)
  next
    case False
    obtain v q n st1 where f: "judge_front judge dn st p = (v, q, n, st1)" by (metis prod.exhaust)
    obtain js1 where j: "judge_all judge dn st1 (drop n p) = (js1, st')" "js = (v, q) # js1"
      using less.prems(1) False f by (auto simp: judge_all.simps [of _ _ _ p] split: prod.splits)
    have "length (drop n p) < length p" using judge_front_length [OF False f] False by simp
    from less.hyps [OF this j(1)] front(1) [OF False f] less.prems(2) j(2) show ?thesis by auto
  qed
qed

theorem scan_reply:
  assumes "opt_scan judge dont_nak st buf 0 (length buf) CONFACK 0 = (ret, buf', retp, st')"
    and "judge_all judge dont_nak st buf = (js, st2)"
  shows "st' = st2" "ret = worst js" "ret = CONFACK \<Longrightarrow> buf' = concat (map snd js)"
    "ret \<noteq> CONFACK \<Longrightarrow> take retp buf' = picked ret js" "length buf' = length buf" "retp \<le> length buf"
  using scan [OF _ _ _ _ _ assms(1), of js st2] assms(2) by (auto simp: is_verdict_def split: if_splits)

end

end
