(* ===== verification/Ppp_Agreement.thy ===== *)
theory Ppp_Agreement
  imports Ppp_Fsm
begin

text \<open>
  What a control protocol gets from the automaton (\<open>src/lwip/src/netif/ppp/fsm.c\<close>) for its own state. The
  locale \<open>fsm_agreement\<close> takes three predicates on the state a protocol keeps beside the automaton: an invariant,
  that the peer's last request was agreed to, and that the layer is inactive. From laws on each single
  callback it derives that they hold in every run: agreement whenever a request of the peer stands acknowledged, and
  inactivity whenever the automaton is not \<open>OPENED\<close>.
\<close>

abbreviation client_part :: "'c fsm_scheme \<Rightarrow> 'c" where
  "client_part f \<equiv> fsm.more f"

lemma client_part_prim [simp]:
  "client_part (note_event e f) = client_part f" "client_part (TIMEOUT f) = client_part f"
  "client_part (UNTIMEOUT f) = client_part f" "client_part (goto s f) = client_part f"
  "client_part (fsm_sdata env code i d f) = client_part f" "client_part (next_id f) = client_part f"
  "client_part (send_termreq env f) = client_part f" "client_part (count_nak c f) = client_part f"
  by (simp_all add: note_event_def TIMEOUT_def UNTIMEOUT_def goto_def fsm_sdata_def next_id_def send_termreq_def
      count_nak_def Let_def)

locale fsm_agreement = fsm_client env for env :: "'c envir" +
  fixes J A D :: "'c \<Rightarrow> bool"
  assumes present: "cb_up env \<noteq> None" "cb_down env \<noteq> None"
    and resetci: "cb_resetci env = Some g \<Longrightarrow> J (client_part f) \<Longrightarrow> D (client_part f) \<Longrightarrow>
        J (client_part (g f)) \<and> D (client_part (g f))"
    and cilen: "cb_cilen env = Some h \<Longrightarrow> J (client_part f) \<Longrightarrow> D (client_part f) \<Longrightarrow>
        J (client_part (snd (h f))) \<and> D (client_part (snd (h f))) \<and> (A (client_part f) \<longrightarrow> A (client_part (snd (h f))))"
    and addci: "cb_addci env = Some g' \<Longrightarrow> J (client_part f) \<Longrightarrow> D (client_part f) \<Longrightarrow>
        J (client_part (snd (g' f n))) \<and> D (client_part (snd (g' f n))) \<and>
        (A (client_part f) \<longrightarrow> A (client_part (snd (g' f n))))"
    and nakci: "J (client_part f) \<Longrightarrow>
        let c = client_part (snd (nakrej_result env code inp f))
        in J c \<and> (A (client_part f) \<longrightarrow> A c) \<and> (D (client_part f) \<longrightarrow> D c)"
    and extcode: "J (client_part f) \<Longrightarrow>
        let c = client_part (snd (ext_answer env code i inp f))
        in J c \<and> (A (client_part f) \<longrightarrow> A c) \<and> (D (client_part f) \<longrightarrow> D c)"
    and reqci: "J (client_part f) \<Longrightarrow> D (client_part f) \<Longrightarrow>
        let c = client_part (snd (reqci_answer env inp f))
        in J c \<and> D c \<and> (fst (fst (reqci_answer env inp f)) = CONFACK \<longrightarrow> A c)"
    and up: "cb_up env = Some g \<Longrightarrow> J (client_part f) \<Longrightarrow> D (client_part f) \<Longrightarrow> A (client_part f) \<Longrightarrow>
        J (client_part (g f)) \<and> A (client_part (g f))"
    and down: "cb_down env = Some g \<Longrightarrow> J (client_part f) \<Longrightarrow> J (client_part (g f)) \<and> D (client_part (g f))"
    and quiet: "cb \<in> {cb_starting env, cb_finished env, cb_retransmit env} \<Longrightarrow> cb = Some g \<Longrightarrow>
        J (client_part f) \<Longrightarrow> D (client_part f) \<Longrightarrow>
        J (client_part (g f)) \<and> D (client_part (g f)) \<and> (A (client_part f) \<longrightarrow> A (client_part (g f)))"
begin

definition agreed :: "'c fsm_scheme \<Rightarrow> bool" where
  "agreed f \<longleftrightarrow> J (client_part f) \<and> (f_state f \<in> {PPP_FSM_ACKSENT, PPP_FSM_OPENED} \<longrightarrow> A (client_part f))
     \<and> (f_state f \<noteq> PPP_FSM_OPENED \<longrightarrow> D (client_part f))"

definition idle :: "'c fsm_scheme \<Rightarrow> bool" where
  "idle f \<longleftrightarrow> J (client_part f) \<and> D (client_part f)"

lemma agreed_update [simp]:
  "agreed (f\<lparr>f_retransmits := r\<rparr>) = agreed f" "agreed (f\<lparr>f_seen_ack := b\<rparr>) = agreed f"
  "agreed (f\<lparr>f_nakloops := r\<rparr>) = agreed f" "agreed (f\<lparr>f_rnakloops := r\<rparr>) = agreed f"
  "agreed (f\<lparr>f_id := r\<rparr>) = agreed f" "agreed (f\<lparr>f_term_reason := t, f_term_reason_len := r\<rparr>) = agreed f"
  "agreed (TIMEOUT f) = agreed f" "agreed (UNTIMEOUT f) = agreed f" "agreed (fsm_sdata env c i d f) = agreed f"
  "agreed (note_event e f) = agreed f"
  by (simp_all add: agreed_def)

lemma idle_update [simp]:
  "idle (f\<lparr>f_retransmits := r\<rparr>) = idle f" "idle (f\<lparr>f_seen_ack := b\<rparr>) = idle f" "idle (goto s f) = idle f"
  "idle (f\<lparr>f_term_reason := t, f_term_reason_len := r\<rparr>) = idle f"
  "idle (TIMEOUT f) = idle f" "idle (UNTIMEOUT f) = idle f" "idle (fsm_sdata env c i d f) = idle f"
  "idle (note_event e f) = idle f" "idle (send_termreq env f) = idle f"
  by (simp_all add: idle_def)

lemma agreed_goto: "agreed (goto s f)" if "idle f" "s \<noteq> PPP_FSM_ACKSENT" "s \<noteq> PPP_FSM_OPENED"
  using that by (simp add: agreed_def idle_def)

lemma agreed_idle: "agreed f \<Longrightarrow> f_state f \<noteq> PPP_FSM_OPENED \<Longrightarrow> idle f"
  by (simp add: agreed_def idle_def)

lemma idle_quiet:
  assumes "idle f" "cb \<in> {cb_resetci env, cb_starting env, cb_finished env, cb_retransmit env, None}"
  shows "idle (call_back cb e f)"
  using assms resetci [of _ "note_event e f"] quiet [of cb _ "note_event e f"]
  by (cases cb) (auto simp: idle_def call_back_def)

lemma idle_down: "J (client_part f) \<Longrightarrow> idle (call_back (cb_down env) Down f)"
  using present down [of _ "note_event Down f"] by (auto simp: idle_def call_back_def)

lemma agreed_down: "agreed f \<Longrightarrow> idle (call_back (cb_down env) Down f)"
  by (simp add: agreed_def idle_down)

lemma idle_sconfreq: "idle f \<Longrightarrow> idle (fsm_sconfreq env r f)"
proof -
  assume i: "idle f"
  then have r: "idle (call_back (cb_resetci env) Resetci f)" by (rule idle_quiet) simp
  have a: "idle (snd (own_ci env n g))" if "idle g" for n g
    using that addci [of _ g n] by (auto simp: own_ci_def idle_def split: option.split)
  have c: "idle (snd (own_cilen env g))" if "idle g" for g
    using that cilen [of _ g] by (auto simp: own_cilen_def split_beta idle_def split: option.split)
  have u: "idle (g\<lparr>f_nakloops := x, f_rnakloops := y\<rparr>) = idle g"
    "idle (g\<lparr>f_retransmits := x, f_id := y, f_reqid := z\<rparr>) = idle g" for g x y z
    by (simp_all add: idle_def)
  show ?thesis using i r a c by (simp add: fsm_sconfreq_def Let_def split_beta u)
qed

lemma agreed_retransmit: "agreed f \<Longrightarrow> f_state f = PPP_FSM_ACKSENT \<Longrightarrow> agreed (fsm_sconfreq env r f)"
proof -
  assume f: "agreed f" "f_state f = PPP_FSM_ACKSENT"
  have a: "agreed (snd (own_ci env n g))" if "agreed g" "f_state g = PPP_FSM_ACKSENT" for n g
    using that addci [of _ g n] keepsD(1) [OF client_ci, of n g] by (auto simp: own_ci_def agreed_def split: option.split)
  have c: "agreed (snd (own_cilen env g))" if "agreed g" "f_state g = PPP_FSM_ACKSENT" for g
    using that cilen [of _ g] keepsD(1) [OF client_cilen, of g]
    by (auto simp: own_cilen_def split_beta agreed_def split: option.split)
  have u: "agreed (g\<lparr>f_retransmits := x, f_id := y, f_reqid := z\<rparr>) = agreed g" for g x y z
    by (simp add: agreed_def)
  show ?thesis using f a c by (simp add: fsm_sconfreq_def negotiating_def Let_def split_beta u)
qed

lemma agreed_sconfreq_to:
  assumes "idle f" "s \<noteq> PPP_FSM_ACKSENT" "s \<noteq> PPP_FSM_OPENED"
  shows "agreed (goto s (fsm_sconfreq env r f))"
  using idle_sconfreq [OF assms(1)] agreed_goto assms(2,3) by blast

lemma agreed_finish:
  assumes "idle f" "s \<noteq> PPP_FSM_ACKSENT" "s \<noteq> PPP_FSM_OPENED"
    "cb \<in> {cb_starting env, cb_finished env, cb_retransmit env, None}"
  shows "agreed (call_back cb e (goto s f))"
proof -
  have "idle (call_back cb e (goto s f))" using assms(1,4) by (intro idle_quiet) auto
  moreover have "kept_cb cb" using assms(4) by auto
  ultimately show ?thesis using assms(2,3) by (simp add: agreed_def idle_def)
qed

lemma agreed_lower: "agreed f \<Longrightarrow> agreed (fsm_lowerup env f)" "agreed f \<Longrightarrow> agreed (fsm_lowerdown env f)"
  by (cases "f_state f"; simp add: fsm_lowerup_def fsm_lowerdown_def agreed_goto agreed_idle agreed_sconfreq_to
      agreed_finish agreed_down)+

lemma agreed_open: "agreed f \<Longrightarrow> agreed (fsm_open env f)"
proof -
  assume a: "agreed f"
  have r: "agreed (fsm_restart env g)" if "agreed g" for g
    using agreed_lower that by (simp add: fsm_restart_def)
  show ?thesis
    using a r agreed_goto [OF agreed_idle [OF a], of PPP_FSM_STOPPING]
    by (cases "f_state f") (simp_all add: fsm_open_def agreed_goto agreed_idle agreed_sconfreq_to agreed_finish)
qed

lemma agreed_terminate:
  assumes "agreed f" "s \<noteq> PPP_FSM_ACKSENT" "s \<noteq> PPP_FSM_OPENED"
  shows "agreed (terminate_layer env s f)"
proof -
  have i: "idle (if f_state f \<noteq> PPP_FSM_OPENED then UNTIMEOUT f else call_back (cb_down env) Down f)"
    using assms(1) agreed_idle agreed_down by simp
  show ?thesis
    using i assms(2,3) by (simp add: terminate_layer_def Let_def agreed_finish agreed_goto split del: if_split cong: if_cong)
      (simp add: agreed_finish agreed_goto)
qed

lemma agreed_close: "agreed f \<Longrightarrow> agreed (fsm_close env r f)"
  by (cases "f_state f"; simp add: fsm_close_def Let_def agreed_goto agreed_idle agreed_terminate)

lemma agreed_timeout: "agreed f \<Longrightarrow> agreed (fsm_timeout env f)"
proof -
  assume a: "agreed f"
  have q: "agreed (call_back (cb_retransmit env) Retransmit f)" if "f_state f \<noteq> PPP_FSM_OPENED"
    using a that quiet [of "cb_retransmit env" _ "note_event Retransmit f"]
      call_back_fields(1) [OF client_cb(6), of Retransmit f]
    by (auto simp: agreed_def call_back_def split: option.splits)
  have i: "idle (call_back (cb_retransmit env) Retransmit f)" if "f_state f \<noteq> PPP_FSM_OPENED"
    using a that agreed_idle idle_quiet by simp
  have "agreed (fsm_sconfreq env True (call_back (cb_retransmit env) Retransmit f))" if "f_state f = PPP_FSM_REQSENT"
    using that i idle_sconfreq [of "call_back (cb_retransmit env) Retransmit f" True] by (simp add: agreed_def idle_def)
  then show ?thesis
    using a q i
    by (cases "f_state f")
      (simp_all add: fsm_timeout_def negotiating_def Let_def agreed_finish agreed_idle agreed_sconfreq_to agreed_retransmit,
        simp_all add: agreed_def send_termreq_def next_id_def Let_def)
qed

lemma agreed_before_answer: "agreed f \<Longrightarrow> idle (before_answer env f)"
  by (cases "f_state f") (simp_all add: before_answer_def agreed_idle idle_sconfreq agreed_down)

lemma agreed_confreq: "agreed f \<Longrightarrow> agreed (fsm_rconfreq env i inp f)"
proof -
  have "agreed (answer_confreq env i inp g)" if g: "idle g" "f_state g \<noteq> PPP_FSM_OPENED" for g
  proof -
    let ?x = "snd (reqci_answer env inp g)" and ?c = "fst (fst (reqci_answer env inp g))"
    have r: "idle ?x" "?c = CONFACK \<Longrightarrow> A (client_part ?x)"
      using g reqci [of g inp] by (simp_all add: idle_def Let_def)
    have s: "f_state ?x = f_state g" by simp
    have u: "agreed (call_back (cb_up env) Up (goto PPP_FSM_OPENED (UNTIMEOUT h)))" if "idle h" "A (client_part h)" for h
      using that up [of _ "note_event Up (goto PPP_FSM_OPENED (UNTIMEOUT h))"] present
        call_back_fields(1) [OF client_cb(2), of Up "goto PPP_FSM_OPENED (UNTIMEOUT h)"]
      by (auto simp: agreed_def idle_def call_back_def)
    have sd: "agreed (goto t (fsm_sdata env c i d ?x))" if "t = PPP_FSM_ACKSENT \<Longrightarrow> ?c = CONFACK" "t \<noteq> PPP_FSM_OPENED" for t c d
      using r that by (auto simp: agreed_def idle_def)
    have "agreed (fsm_sdata env c i d ?x)" if "f_state g = PPP_FSM_ACKRCVD" for c d
      using r s that by (auto simp: agreed_def idle_def)
    then show ?thesis
      using r g s sd u by (auto simp: answer_confreq_def Let_def split_beta)
  qed
  moreover assume a: "agreed f"
  moreover have "f_state (before_answer env f) \<noteq> PPP_FSM_OPENED"
    by (cases "f_state f") (simp_all add: before_answer_def)
  ultimately show ?thesis
    using agreed_before_answer [OF a] by (simp add: fsm_rconfreq_def)
qed

lemma agreed_confack: "agreed f \<Longrightarrow> agreed (fsm_rconfack env i inp f)"
proof -
  assume a: "agreed f"
  let ?f1 = "f\<lparr>f_seen_ack := True, f_rnakloops := 0\<rparr>"
  have f1: "agreed ?f1" using a by (simp add: agreed_def)
  have "agreed (call_back (cb_up env) Up ((goto PPP_FSM_OPENED (UNTIMEOUT ?f1))\<lparr>f_retransmits := r\<rparr>))"
    if "f_state f = PPP_FSM_ACKSENT" for r
    using that f1 up [of _ "note_event Up ((goto PPP_FSM_OPENED (UNTIMEOUT ?f1))\<lparr>f_retransmits := r\<rparr>)"] present
      call_back_fields(1) [OF client_cb(2), of Up "(goto PPP_FSM_OPENED (UNTIMEOUT ?f1))\<lparr>f_retransmits := r\<rparr>"]
    by (auto simp: agreed_def call_back_def)
  then show ?thesis
    using a f1 agreed_idle [OF f1] agreed_down [OF f1]
    by (cases "f_state f") (simp_all add: fsm_rconfack_def Let_def agreed_goto agreed_sconfreq_to)
qed

lemma agreed_confnakrej: "agreed f \<Longrightarrow> agreed (fsm_rconfnakrej env code i inp f)"
proof -
  assume a: "agreed f"
  let ?x = "snd (nakrej_result env code inp (count_nak code f))"
  have s: "f_state ?x = f_state f" by simp
  have x: "agreed ?x" using a nakci [of "count_nak code f" code inp] by (auto simp: agreed_def Let_def)
  have k: "agreed (fsm_sconfreq env False (UNTIMEOUT (?x\<lparr>f_seen_ack := True\<rparr>)))"
    if "f_state f = PPP_FSM_ACKSENT" using agreed_retransmit x s that by simp
  have l: "agreed (fsm_sconfreq env False (UNTIMEOUT (?x\<lparr>f_seen_ack := True\<rparr>)))" if "f_state f = PPP_FSM_REQSENT"
    using idle_sconfreq [of "UNTIMEOUT (?x\<lparr>f_seen_ack := True\<rparr>)" False] agreed_idle [OF x] s that
    by (simp add: agreed_def idle_def)
  have "idle (call_back (cb_down env) Down (?x\<lparr>f_seen_ack := True\<rparr>))" using x by (intro agreed_down) simp
  then show ?thesis
    using a x s k l agreed_idle [OF x]
    by (cases "f_state f")
      (simp_all add: fsm_rconfnakrej_def Let_def split_beta agreed_goto agreed_sconfreq_to del: client_simps)
qed

lemma agreed_term:
  "agreed f \<Longrightarrow> agreed (fsm_rtermreq env i f)" "agreed f \<Longrightarrow> agreed (fsm_rtermack env f)"
  "agreed f \<Longrightarrow> agreed (fsm_rcoderej inp f)" "agreed f \<Longrightarrow> agreed (fsm_protreject env f)"
proof -
  assume a: "agreed f"
  have "idle (call_back (cb_down env) Down (goto PPP_FSM_STOPPING (f\<lparr>f_retransmits := 0\<rparr>)))"
    using a by (intro idle_down) (simp add: agreed_def)
  then have "agreed (call_back (cb_down env) Down (goto PPP_FSM_STOPPING (f\<lparr>f_retransmits := 0\<rparr>)))"
    by (simp add: agreed_def idle_def)
  then show "agreed (fsm_rtermreq env i f)"
    using a by (cases "f_state f") (simp_all add: fsm_rtermreq_def Let_def agreed_goto agreed_idle)
  show "agreed (fsm_rtermack env f)" "agreed (fsm_rcoderej inp f)" "agreed (fsm_protreject env f)"
    using a
    by (cases "f_state f"; simp add: fsm_rtermack_def fsm_rcoderej_def fsm_protreject_def agreed_goto agreed_idle
        agreed_finish agreed_down agreed_sconfreq_to agreed_terminate)+
qed

lemma agreed_input: "agreed f \<Longrightarrow> agreed (fsm_input env p f)"
proof -
  assume a: "agreed f"
  have "agreed (snd (ext_answer env code i inp f))" for code i inp
    using a extcode [of f code i inp] by (auto simp: agreed_def Let_def)
  then show ?thesis
    using a agreed_confreq [OF a] agreed_confack [OF a] agreed_confnakrej [OF a] agreed_term [OF a]
    by (simp add: fsm_input_def fsm_dispatch_def Let_def split_beta split: bool.split)
qed

theorem agreed_do: "agreed f \<Longrightarrow> agreed (fsm_do env a f)"
  using agreed_lower agreed_open agreed_close agreed_timeout [of "UNTIMEOUT f"] agreed_input agreed_term(4)
  by (cases a) (simp_all add: fsm_do_def)

end

end
