(* ===== verification/Ppp_Ccp.thy ===== *)
theory Ppp_Ccp
  imports Ppp_Pcb Ppp_Options Ppp_Agreement
begin

text \<open>
  The Compression Control Protocol (\<open>src/lwip/src/netif/ppp/ccp.c\<close>) as this build has it, with MPPE as its only
  method: the option encoding, the callbacks of the automaton, the entry points of the protocol and the handling of
  Reset-Request and Reset-Ack.
\<close>

section \<open>The option\<close>

definition MPPE_OPT_56 :: u8 where "MPPE_OPT_56 = 0x08"
definition MPPE_OPT_MPPC :: u8 where "MPPE_OPT_MPPC = 0x10"
definition MPPE_OPT_D :: u8 where "MPPE_OPT_D = 0x20"
definition MPPE_OPT_UNSUPPORTED :: u8 where "MPPE_OPT_UNSUPPORTED = MPPE_OPT_56 OR MPPE_OPT_MPPC OR MPPE_OPT_D"
definition MPPE_OPT_UNKNOWN :: u8 where "MPPE_OPT_UNKNOWN = 0x40"
definition MPPE_C_BIT :: u8 where "MPPE_C_BIT = 0x01"
definition MPPE_D_BIT :: u8 where "MPPE_D_BIT = 0x10"
definition MPPE_L_BIT :: u8 where "MPPE_L_BIT = 0x20"
definition MPPE_S_BIT :: u8 where "MPPE_S_BIT = 0x40"
definition MPPE_M_BIT :: u8 where "MPPE_M_BIT = 0x80"
definition MPPE_H_BIT :: u8 where "MPPE_H_BIT = 0x01"
definition MPPE_ALL_BITS :: u8 where
  "MPPE_ALL_BITS = MPPE_D_BIT OR MPPE_L_BIT OR MPPE_S_BIT OR MPPE_M_BIT OR MPPE_H_BIT"

definition MPPE_OPTS_TO_CI :: "u8 \<Rightarrow> octets" where
  "MPPE_OPTS_TO_CI opts =
     [if opts AND MPPE_OPT_STATEFUL \<noteq> 0 then 0 else MPPE_H_BIT, 0, 0,
      (if opts AND MPPE_OPT_128 \<noteq> 0 then MPPE_S_BIT else 0) OR (if opts AND MPPE_OPT_40 \<noteq> 0 then MPPE_L_BIT else 0)]"

definition MPPE_CI_TO_OPTS :: "octets \<Rightarrow> u8" where
  "MPPE_CI_TO_OPTS ptr =
     (if ptr ! 0 AND MPPE_H_BIT = 0 then MPPE_OPT_STATEFUL else 0)
     OR (if ptr ! 3 AND MPPE_S_BIT \<noteq> 0 then MPPE_OPT_128 else 0)
     OR (if ptr ! 3 AND MPPE_L_BIT \<noteq> 0 then MPPE_OPT_40 else 0)
     OR (if ptr ! 3 AND MPPE_M_BIT \<noteq> 0 then MPPE_OPT_56 else 0)
     OR (if ptr ! 3 AND MPPE_D_BIT \<noteq> 0 then MPPE_OPT_D else 0)
     OR (if ptr ! 3 AND MPPE_C_BIT \<noteq> 0 then MPPE_OPT_MPPC else 0)
     OR (if ptr ! 0 AND NOT MPPE_H_BIT \<noteq> 0 then MPPE_OPT_UNKNOWN else 0)
     OR (if ptr ! 1 \<noteq> 0 \<or> ptr ! 2 \<noteq> 0 then MPPE_OPT_UNKNOWN else 0)
     OR (if ptr ! 3 AND NOT MPPE_ALL_BITS \<noteq> 0 then MPPE_OPT_UNKNOWN else 0)"

definition mppe_ci :: "u8 \<Rightarrow> octets" where
  "mppe_ci opts = [CI_MPPE, of_nat CILEN_MPPE] @ MPPE_OPTS_TO_CI opts"

section \<open>Callbacks of the automaton\<close>

type_synonym ccp_fsm = "ppp_pcb pfsm"

definition CHAP_MS_WITHPEER :: u16 where "CHAP_MS_WITHPEER = 0x100"
definition CHAP_MS_PEER :: u16 where "CHAP_MS_PEER = 0x200"
definition CHAP_MS2_WITHPEER :: u16 where "CHAP_MS2_WITHPEER = 0x400"
definition CHAP_MS2_PEER :: u16 where "CHAP_MS2_PEER = 0x800"
definition RACK_PENDING :: u8 where "RACK_PENDING = 1"
definition RREQ_REPEAT :: u8 where "RREQ_REPEAT = 2"
definition CCP_RESETREQ :: u8 where "CCP_RESETREQ = 14"
definition CCP_RESETACK :: u8 where "CCP_RESETACK = 15"

definition ccp_anycompress :: "ccp_options \<Rightarrow> bool" where
  "ccp_anycompress opt \<longleftrightarrow> mppe_opts opt \<noteq> 0"

fun count_bits :: "nat \<Rightarrow> nat" where
  "count_bits n = n mod 2 + (if n div 2 = 0 then 0 else count_bits (n div 2))"

declare count_bits.simps [simp del]

definition mschap_auths :: "u16 \<Rightarrow> nat" where
  "mschap_auths auth =
     count_bits (unat (drop_bit 8 (auth AND (CHAP_MS_WITHPEER OR CHAP_MS_PEER OR CHAP_MS2_WITHPEER OR CHAP_MS2_PEER))))"

definition unavailable :: "ppp_pcb \<Rightarrow> ppp_pcb" where
  "unavailable pcb = call (Close_lcp ''MPPE required but not available'') pcb"

definition drop_40 :: "ppp_pcb \<Rightarrow> ppp_pcb" where
  "drop_40 pcb =
     (if auth_done pcb AND (CHAP_MS_WITHPEER OR CHAP_MS_PEER) \<noteq> 0
         \<and> mppe_opts (ccp_gotoptions pcb) AND MPPE_OPT_40 \<noteq> 0
      then pcb\<lparr>ccp_gotoptions := (ccp_gotoptions pcb)\<lparr>mppe_opts := mppe_opts (ccp_gotoptions pcb) AND NOT MPPE_OPT_40\<rparr>,
               ccp_wantoptions := (ccp_wantoptions pcb)\<lparr>mppe_opts := mppe_opts (ccp_wantoptions pcb) AND NOT MPPE_OPT_40\<rparr>\<rparr>
      else pcb)"

definition reset_options :: "ppp_pcb \<Rightarrow> ppp_pcb" where
  "reset_options pcb =
     (let m = (if refuse_mppe_40 pcb then 0 else MPPE_OPT_40) OR (if refuse_mppe_128 pcb then 0 else MPPE_OPT_128);
          pcb1 = (if require_mppe pcb
                  then pcb\<lparr>ccp_wantoptions := (ccp_wantoptions pcb)\<lparr>mppe_opts := m\<rparr>,
                           ccp_allowoptions := (ccp_allowoptions pcb)\<lparr>mppe_opts := m\<rparr>\<rparr>
                  else pcb)
      in pcb1\<lparr>ccp_gotoptions := ccp_wantoptions pcb1, ccp_all_rejected := False\<rparr>)"

definition resetci_pcb :: "ppp_pcb \<Rightarrow> ppp_pcb" where
  "resetci_pcb pcb =
     (let pcb2 = reset_options pcb
      in if mppe_opts (ccp_gotoptions pcb2) = 0 then pcb2
         else if mschap_auths (auth_done pcb2) > 1 then unavailable pcb2
         else if mschap_auths (auth_done pcb2) = 0 then unavailable pcb2
         else if \<not> mppe_keys_set pcb2 then unavailable pcb2
         else (let pcb3 = drop_40 pcb2
               in if mppe_opts (ccp_gotoptions pcb3) AND (MPPE_OPT_40 OR MPPE_OPT_128) = 0 then unavailable pcb3
                  else pcb3\<lparr>ccp_allowoptions :=
                         (ccp_allowoptions pcb3)\<lparr>mppe_opts := mppe_opts (ccp_gotoptions pcb3)\<rparr>\<rparr>))"

definition ccp_resetci :: "ccp_fsm \<Rightarrow> ccp_fsm" where
  "ccp_resetci f = on_pcb resetci_pcb f"

definition ccp_cilen :: "ccp_fsm \<Rightarrow> nat \<times> ccp_fsm" where
  "ccp_cilen f = (if mppe_opts (ccp_gotoptions (f_pcb f)) \<noteq> 0 then CILEN_MPPE else 0, f)"

definition ccp_addci :: "ccp_fsm \<Rightarrow> nat \<Rightarrow> octets \<times> ccp_fsm" where
  "ccp_addci f n =
     (let go = ccp_gotoptions (f_pcb f);
          ci = (if mppe_opts go \<noteq> 0 then mppe_ci (mppe_opts go) else []);
          f1 = (if mppe_opts go \<noteq> 0 then on_pcb (init_decomp (mppe_opts go)) f else f)
      in (ci, on_pcb (\<lambda>pcb. pcb\<lparr>ccp_gotoptions := go\<lparr>cmethod := (if ci \<noteq> [] then ci ! 0 else 0)\<rparr>\<rparr>) f1))"

definition ccp_ackci :: "ccp_fsm \<Rightarrow> octets \<Rightarrow> bool" where
  "ccp_ackci f p =
     (let go = ccp_gotoptions (f_pcb f)
      in if mppe_opts go \<noteq> 0
         then (if length p < CILEN_MPPE \<or> take CILEN_MPPE p \<noteq> mppe_ci (mppe_opts go) then False
               else drop CILEN_MPPE p = [])
         else p = [])"

definition nak_mppe :: "octets \<Rightarrow> ppp_pcb \<Rightarrow> u8" where
  "nak_mppe p pcb =
     (let m = MPPE_CI_TO_OPTS (drop 2 p)
      in if m AND MPPE_OPT_STATEFUL \<noteq> 0 \<and> refuse_mppe_stateful pcb then 0
         else if (mppe_opts (ccp_gotoptions pcb) OR MPPE_OPT_STATEFUL) AND m \<noteq> m then 0 else m)"

definition mppe_option_at :: "octets \<Rightarrow> bool" where
  "mppe_option_at p \<longleftrightarrow> length p \<ge> CILEN_MPPE \<and> p ! 0 = CI_MPPE \<and> p ! 1 = of_nat CILEN_MPPE"

definition ccp_nakci :: "ccp_fsm \<Rightarrow> octets \<Rightarrow> bool \<Rightarrow> int \<times> ccp_fsm" where
  "ccp_nakci f p treat_as_reject =
     (let pcb = f_pcb f; go = ccp_gotoptions pcb;
          hit = (mppe_opts go \<noteq> 0 \<and> mppe_option_at p);
          try = (if hit then go\<lparr>mppe_opts := nak_mppe p pcb\<rparr> else go);
          pcb1 = (if hit \<and> mppe_opts try = 0
                  then call (Close_lcp ''MPPE required but peer negotiation failed'') pcb else pcb);
          pcb2 = (if f_state f \<noteq> PPP_FSM_OPENED then pcb1\<lparr>ccp_gotoptions := try\<rparr> else pcb1)
      in (1, f\<lparr>f_pcb := pcb2\<rparr>))"

definition ccp_rejci :: "ccp_fsm \<Rightarrow> octets \<Rightarrow> int \<times> ccp_fsm" where
  "ccp_rejci f p =
     (let pcb = f_pcb f; go = ccp_gotoptions pcb; hit = (mppe_opts go \<noteq> 0 \<and> mppe_option_at p)
      in if p = [] \<and> ccp_all_rejected pcb then (- 1, f)
         else (let pcb1 = (if hit then call (Close_lcp ''MPPE required but peer refused'') pcb else pcb);
                   rest = (if hit then drop CILEN_MPPE p else p)
               in if rest \<noteq> [] then (0, f\<lparr>f_pcb := pcb1\<rparr>)
                  else (1, f\<lparr>f_pcb := (if f_state f \<noteq> PPP_FSM_OPENED then pcb1\<lparr>ccp_gotoptions := go\<rparr> else pcb1)\<rparr>)))"

text \<open>
  One option of the peer's request. The second component of the state is \<open>rej_for_ci_mppe\<close>; the strength is
  settled by \<open>mppe_strength\<close>, where \<open>None\<close> is the rejection.
\<close>

definition mppe_strength :: "u8 \<Rightarrow> u8 \<Rightarrow> u8 \<Rightarrow> (u8 \<times> u8) option" where
  "mppe_strength ao ho newret =
     (if ho AND MPPE_OPT_128 \<noteq> 0 \<and> ho AND MPPE_OPT_40 \<noteq> 0 then
        (if ao AND MPPE_OPT_128 \<noteq> 0 then Some (CONFNAK, ho AND NOT MPPE_OPT_40)
         else if ao AND MPPE_OPT_40 \<noteq> 0 then Some (CONFNAK, ho AND NOT MPPE_OPT_128)
         else None)
      else if ho AND MPPE_OPT_128 \<noteq> 0 then (if ao AND MPPE_OPT_128 = 0 then None else Some (newret, ho))
      else if ho AND MPPE_OPT_40 \<noteq> 0 then (if ao AND MPPE_OPT_40 = 0 then None else Some (newret, ho))
      else Some (CONFNAK, ao))"

definition set_his_mppe :: "u8 \<Rightarrow> ppp_pcb \<Rightarrow> ppp_pcb" where
  "set_his_mppe m pcb = pcb\<lparr>ccp_hisoptions := (ccp_hisoptions pcb)\<lparr>mppe_opts := m\<rparr>\<rparr>"

definition accept_mppe :: "u8 \<Rightarrow> ppp_pcb \<Rightarrow> u8 \<times> ppp_pcb" where
  "accept_mppe m pcb =
     (let pcb1 = init_comp m pcb
      in if netif_mtu pcb1 \<noteq> 0 then (CONFACK, pcb1\<lparr>netif_mtu := netif_mtu pcb1 - MPPE_PAD\<rparr>) else (CONFREJ, pcb1))"

definition supported_bits :: "u8 \<Rightarrow> u8 \<times> u8" where
  "supported_bits m =
     (let (r1, m1) = (if m AND MPPE_OPT_UNSUPPORTED \<noteq> 0 then (CONFNAK, m AND NOT MPPE_OPT_UNSUPPORTED) else (CONFACK, m))
      in if m1 AND MPPE_OPT_UNKNOWN \<noteq> 0 then (CONFNAK, m1 AND NOT MPPE_OPT_UNKNOWN) else (r1, m1))"

definition ccp_req_option :: "ppp_pcb \<times> bool \<Rightarrow> octets \<Rightarrow> u8 \<times> octets \<times> (ppp_pcb \<times> bool)" where
  "ccp_req_option st p =
     (let (pcb, rej_for_ci_mppe) = st; ao = mppe_opts (ccp_allowoptions pcb)
      in if p ! 0 \<noteq> CI_MPPE \<or> ao = 0 \<or> length p \<noteq> CILEN_MPPE then (CONFREJ, p, st)
         else (let (newret, m) = supported_bits (MPPE_CI_TO_OPTS (drop 2 p))
               in if m AND MPPE_OPT_STATEFUL \<noteq> 0 \<and> refuse_mppe_stateful pcb
                  then (CONFREJ, p, (set_his_mppe m pcb, rej_for_ci_mppe))
                  else (case mppe_strength ao m newret of
                          None \<Rightarrow> (CONFREJ, p, (set_his_mppe m pcb, rej_for_ci_mppe))
                        | Some (newret1, m1) \<Rightarrow>
                            let q = take 2 p @ MPPE_OPTS_TO_CI m1; pcb1 = set_his_mppe m1 pcb
                            in if newret1 = CONFACK
                               then (let (r, pcb2) = accept_mppe m1 pcb1 in (r, q, (pcb2, False)))
                               else (newret1, q, (pcb1, False)))))"

definition ccp_reqci :: "ccp_fsm \<Rightarrow> octets \<Rightarrow> bool \<Rightarrow> (u8 \<times> octets) \<times> ccp_fsm" where
  "ccp_reqci f p dont_nak =
     (let pcb0 = (f_pcb f)\<lparr>ccp_hisoptions := \<lparr>mppe_opts = 0, cmethod = (if p \<noteq> [] then p ! 0 else 0)\<rparr>\<rparr>;
          (ret, buf, retp, (pcb1, rej_for_ci_mppe)) =
            opt_scan ccp_req_option dont_nak (pcb0, True) p 0 (length p) CONFACK 0;
          pcb2 = (if ret = CONFREJ \<and> length p = retp then pcb1\<lparr>ccp_all_rejected := True\<rparr> else pcb1);
          pcb3 = (if ret = CONFREJ \<and> mppe_opts (ccp_allowoptions pcb2) \<noteq> 0 \<and> rej_for_ci_mppe
                  then call (Close_lcp ''MPPE required but peer negotiation failed'') pcb2 else pcb2)
      in ((ret, if ret = CONFACK then buf else take retp buf), f\<lparr>f_pcb := pcb3\<rparr>))"

definition ccp_up :: "ccp_fsm \<Rightarrow> ccp_fsm" where
  "ccp_up f =
     on_pcb (\<lambda>pcb. let pcb1 = ccp_set True True (cmethod (ccp_gotoptions pcb)) (cmethod (ccp_hisoptions pcb)) pcb
                   in if mppe_opts (ccp_gotoptions pcb1) \<noteq> 0 then call Continue_networks pcb1 else pcb1) f"

definition ccp_down :: "ccp_fsm \<Rightarrow> ccp_fsm" where
  "ccp_down f =
     on_pcb (\<lambda>pcb.
       let pcb0 = (if ccp_localstate pcb AND RACK_PENDING \<noteq> 0 then pcb\<lparr>rack_timers := rack_timers pcb - 1\<rparr> else pcb);
           pcb1 = ccp_set True False 0 0 (pcb0\<lparr>ccp_localstate := 0\<rparr>);
           go = ccp_gotoptions pcb1
       in if mppe_opts go \<noteq> 0
          then (let pcb2 = pcb1\<lparr>ccp_gotoptions := go\<lparr>mppe_opts := 0\<rparr>\<rparr>
                in if lcp_state pcb2 = PPP_FSM_OPENED then call (Close_lcp ''MPPE disabled'') pcb2 else pcb2)
          else pcb1) f"

definition ccp_extcode :: "ccp_fsm fsm_env \<Rightarrow> ccp_fsm \<Rightarrow> u8 \<Rightarrow> u8 \<Rightarrow> octets \<Rightarrow> bool \<times> ccp_fsm" where
  "ccp_extcode base f code i p =
     (if code = CCP_RESETREQ then
        (True, if f_state f \<noteq> PPP_FSM_OPENED then f
               else fsm_sdata base CCP_RESETACK i [] (on_pcb ccp_reset_comp f))
      else if code = CCP_RESETACK then
        (True, if ccp_localstate (f_pcb f) AND RACK_PENDING \<noteq> 0 \<and> i = f_reqid f
               then on_pcb (\<lambda>pcb. ccp_reset_decomp
                      (pcb\<lparr>ccp_localstate := ccp_localstate pcb AND NOT (RACK_PENDING OR RREQ_REPEAT),
                           rack_timers := rack_timers pcb - 1\<rparr>)) f
               else f)
      else (False, f))"

text \<open>The callback table; \<open>base\<close> carries the settings and the results of the allocator.\<close>

definition ccp_callbacks :: "ccp_fsm fsm_env \<Rightarrow> ccp_fsm fsm_env" where
  "ccp_callbacks base = base\<lparr>
     cb_resetci := Some ccp_resetci, cb_cilen := Some ccp_cilen, cb_addci := Some ccp_addci,
     cb_ackci := Some ccp_ackci, cb_nakci := Some ccp_nakci, cb_rejci := Some ccp_rejci, cb_reqci := Some ccp_reqci,
     cb_up := Some ccp_up, cb_down := Some ccp_down, cb_starting := None, cb_finished := None,
     cb_retransmit := None, cb_extcode := Some (ccp_extcode base)\<rparr>"

section \<open>Entry points\<close>


definition ccp_init :: "ccp_fsm fsm_env \<Rightarrow> ccp_fsm \<Rightarrow> ccp_fsm" where
  "ccp_init base f = fsm_init (ccp_callbacks base) (f\<lparr>f_protocol := PPP_CCP\<rparr>)"

definition ccp_open :: "ccp_fsm fsm_env \<Rightarrow> ccp_fsm \<Rightarrow> ccp_fsm" where
  "ccp_open base f =
     (let f1 = (if f_state f \<noteq> PPP_FSM_OPENED then on_pcb (ccp_set True False 0 0) f else f);
          f2 = ccp_resetci f1;
          f3 = (if \<not> ccp_anycompress (ccp_gotoptions (f_pcb f2)) then f2\<lparr>f_flags := f_flags f2 OR OPT_SILENT\<rparr> else f2)
      in fsm_open (ccp_callbacks base) f3)"

definition ccp_close :: "ccp_fsm fsm_env \<Rightarrow> octets option \<Rightarrow> ccp_fsm \<Rightarrow> ccp_fsm" where
  "ccp_close base reason f = fsm_close (ccp_callbacks base) reason (on_pcb (ccp_set False False 0 0) f)"

definition ccp_lowerup :: "ccp_fsm fsm_env \<Rightarrow> ccp_fsm \<Rightarrow> ccp_fsm" where
  "ccp_lowerup base f = fsm_lowerup (ccp_callbacks base) f"

definition ccp_lowerdown :: "ccp_fsm fsm_env \<Rightarrow> ccp_fsm \<Rightarrow> ccp_fsm" where
  "ccp_lowerdown base f = fsm_lowerdown (ccp_callbacks base) f"

definition no_compression :: octets where
  "no_compression = map (of_nat \<circ> of_char) ''No compression negotiated''"

definition ccp_input :: "ccp_fsm fsm_env \<Rightarrow> octets \<Rightarrow> ccp_fsm \<Rightarrow> ccp_fsm" where
  "ccp_input base p f =
     (let oldstate = f_state f;
          f1 = fsm_input (ccp_callbacks base) p f;
          f2 = (if oldstate = PPP_FSM_OPENED \<and> p ! 0 = TERMREQ \<and> f_state f1 \<noteq> PPP_FSM_OPENED
                   \<and> mppe_opts (ccp_gotoptions (f_pcb f1)) \<noteq> 0
                then on_pcb (call (Close_lcp ''MPPE disabled by peer'')) f1 else f1)
      in if oldstate = PPP_FSM_REQSENT \<and> p ! 0 = TERMACK \<and> \<not> ccp_anycompress (ccp_gotoptions (f_pcb f2))
         then ccp_close base (Some no_compression) f2 else f2)"

definition ccp_protrej :: "ccp_fsm fsm_env \<Rightarrow> ccp_fsm \<Rightarrow> ccp_fsm" where
  "ccp_protrej base f =
     (let f1 = fsm_lowerdown (ccp_callbacks base) (on_pcb (ccp_set False False 0 0) f)
      in if mppe_opts (ccp_gotoptions (f_pcb f1)) \<noteq> 0
         then on_pcb (call (Close_lcp ''MPPE required but peer negotiation failed'')) f1 else f1)"

definition ccp_resetrequest :: "ccp_fsm fsm_env \<Rightarrow> ccp_fsm \<Rightarrow> ccp_fsm" where
  "ccp_resetrequest base f =
     (if f_state f \<noteq> PPP_FSM_OPENED then f
      else if ccp_localstate (f_pcb f) AND RACK_PENDING = 0
      then (let f1 = next_id f; f2 = fsm_sdata base CCP_RESETREQ (f_reqid f1) [] f1
            in on_pcb (\<lambda>pcb. pcb\<lparr>rack_timers := Suc (rack_timers pcb),
                              ccp_localstate := ccp_localstate pcb OR RACK_PENDING\<rparr>) f2)
      else on_pcb (\<lambda>pcb. pcb\<lparr>ccp_localstate := ccp_localstate pcb OR RREQ_REPEAT\<rparr>) f)"

text \<open>The timer entry has left the queue when the function runs.\<close>

definition ccp_rack_timeout :: "ccp_fsm fsm_env \<Rightarrow> ccp_fsm \<Rightarrow> ccp_fsm" where
  "ccp_rack_timeout base f =
     (if f_state f = PPP_FSM_OPENED \<and> ccp_localstate (f_pcb f) AND RREQ_REPEAT \<noteq> 0
      then on_pcb (\<lambda>pcb. pcb\<lparr>rack_timers := Suc (rack_timers pcb),
                          ccp_localstate := ccp_localstate pcb AND NOT RREQ_REPEAT\<rparr>)
             (fsm_sdata base CCP_RESETREQ (f_reqid f) [] f)
      else on_pcb (\<lambda>pcb. pcb\<lparr>ccp_localstate := ccp_localstate pcb AND NOT RACK_PENDING\<rparr>) f)"


section \<open>The encoding of the option\<close>

lemmas opt_bits = MPPE_OPT_40_def MPPE_OPT_128_def MPPE_OPT_STATEFUL_def MPPE_OPT_56_def MPPE_OPT_MPPC_def
  MPPE_OPT_D_def MPPE_OPT_UNKNOWN_def
lemmas ci_bits = MPPE_C_BIT_def MPPE_D_BIT_def MPPE_L_BIT_def MPPE_S_BIT_def MPPE_M_BIT_def MPPE_H_BIT_def

lemma and_bit:
  fixes w :: u8
  shows "w AND 1 = 0 \<longleftrightarrow> \<not> bit w 0" "w AND 2 = 0 \<longleftrightarrow> \<not> bit w 1" "w AND 4 = 0 \<longleftrightarrow> \<not> bit w 2"
    "w AND 8 = 0 \<longleftrightarrow> \<not> bit w 3" "w AND 16 = 0 \<longleftrightarrow> \<not> bit w 4" "w AND 32 = 0 \<longleftrightarrow> \<not> bit w 5"
    "w AND 64 = 0 \<longleftrightarrow> \<not> bit w 6" "w AND 128 = 0 \<longleftrightarrow> \<not> bit w 7"
  using and_exp_eq_0_iff_not_bit [of w 0] and_exp_eq_0_iff_not_bit [of w 1] and_exp_eq_0_iff_not_bit [of w 2]
    and_exp_eq_0_iff_not_bit [of w 3] and_exp_eq_0_iff_not_bit [of w 4] and_exp_eq_0_iff_not_bit [of w 5]
    and_exp_eq_0_iff_not_bit [of w 6] and_exp_eq_0_iff_not_bit [of w 7]
  by simp_all

lemma u8_eqI:
  fixes v w :: u8
  assumes "bit v 0 = bit w 0" "bit v 1 = bit w 1" "bit v 2 = bit w 2" "bit v 3 = bit w 3" "bit v 4 = bit w 4"
    "bit v 5 = bit w 5" "bit v 6 = bit w 6" "bit v 7 = bit w 7"
  shows "v = w"
proof (rule bit_word_eqI)
  fix n assume "n < LENGTH(8)"
  then have "n = 0 \<or> n = 1 \<or> n = 2 \<or> n = 3 \<or> n = 4 \<or> n = 5 \<or> n = 6 \<or> n = 7" by auto
  then show "bit v n = bit w n" using assms by (elim disjE) simp_all
qed

lemma CI_TO_OPTS_bits:
  defines "unknown p \<equiv> p ! 0 AND NOT 1 \<noteq> (0 :: u8) \<or> p ! 1 \<noteq> 0 \<or> p ! 2 \<noteq> 0 \<or> p ! 3 AND NOT 0xF1 \<noteq> 0"
  shows "bit (MPPE_CI_TO_OPTS p) 0 = bit (p ! 3) 5" "bit (MPPE_CI_TO_OPTS p) 1 = bit (p ! 3) 6"
    "bit (MPPE_CI_TO_OPTS p) 2 = (\<not> bit (p ! 0) 0)" "bit (MPPE_CI_TO_OPTS p) 3 = bit (p ! 3) 7"
    "bit (MPPE_CI_TO_OPTS p) 4 = bit (p ! 3) 0" "bit (MPPE_CI_TO_OPTS p) 5 = bit (p ! 3) 4"
    "bit (MPPE_CI_TO_OPTS p) 6 = unknown p" "\<not> bit (MPPE_CI_TO_OPTS p) 7"
  unfolding MPPE_CI_TO_OPTS_def opt_bits ci_bits MPPE_ALL_BITS_def unknown_def
  by (simp_all add: and_bit bit_or_iff) auto

lemma and_zero_bits:
  fixes w :: u8
  shows "w AND 56 = 0 \<longleftrightarrow> \<not> bit w 3 \<and> \<not> bit w 4 \<and> \<not> bit w 5"
    "w AND NOT 1 = 0 \<longleftrightarrow> \<not> bit w 1 \<and> \<not> bit w 2 \<and> \<not> bit w 3 \<and> \<not> bit w 4 \<and> \<not> bit w 5 \<and> \<not> bit w 6 \<and> \<not> bit w 7"
    "w AND NOT 0xF1 = 0 \<longleftrightarrow> \<not> bit w 1 \<and> \<not> bit w 2 \<and> \<not> bit w 3"
proof -
  have e: "v = 0 \<longleftrightarrow> \<not> bit v 0 \<and> \<not> bit v 1 \<and> \<not> bit v 2 \<and> \<not> bit v 3 \<and> \<not> bit v 4 \<and> \<not> bit v 5 \<and> \<not> bit v 6 \<and> \<not> bit v 7"
    for v :: u8
    using u8_eqI [of v 0] by auto
  show "w AND 56 = 0 \<longleftrightarrow> \<not> bit w 3 \<and> \<not> bit w 4 \<and> \<not> bit w 5"
    "w AND NOT 1 = 0 \<longleftrightarrow> \<not> bit w 1 \<and> \<not> bit w 2 \<and> \<not> bit w 3 \<and> \<not> bit w 4 \<and> \<not> bit w 5 \<and> \<not> bit w 6 \<and> \<not> bit w 7"
    "w AND NOT 0xF1 = 0 \<longleftrightarrow> \<not> bit w 1 \<and> \<not> bit w 2 \<and> \<not> bit w 3"
    by (simp_all add: e bit_and_iff bit_not_iff)
qed

lemma supported_ack:
  assumes "supported_bits m = (CONFACK, m')"
  shows "m' = m" "\<not> bit m 3" "\<not> bit m 4" "\<not> bit m 5" "\<not> bit m 6"
proof -
  have u: "MPPE_OPT_UNSUPPORTED = 56" by (simp add: MPPE_OPT_UNSUPPORTED_def opt_bits)
  have "m AND MPPE_OPT_UNSUPPORTED = 0 \<and> m AND MPPE_OPT_UNKNOWN = 0 \<and> m' = m"
    using assms by (auto simp: supported_bits_def fsm_codes split: if_splits)
  then show "m' = m" "\<not> bit m 3" "\<not> bit m 4" "\<not> bit m 5" "\<not> bit m 6"
    by (simp_all add: u and_zero_bits MPPE_OPT_UNKNOWN_def and_bit)
qed

text \<open>An option that is acknowledged is sent back exactly as it came.\<close>

lemma OPTS_TO_CI_inverse:
  assumes "length ci = 4" and "supported_bits (MPPE_CI_TO_OPTS ci) = (CONFACK, m)"
  shows "MPPE_OPTS_TO_CI m = ci"
proof -
  note s = supported_ack [OF assms(2)]
  have z: "ci ! 0 AND NOT 1 = 0" "ci ! 1 = 0" "ci ! 2 = 0" "ci ! 3 AND NOT 0xF1 = 0"
    and b: "\<not> bit (ci ! 3) 7" "\<not> bit (ci ! 3) 0" "\<not> bit (ci ! 3) 4"
    using s(2-5) unfolding CI_TO_OPTS_bits by simp_all
  note z' = z [unfolded and_zero_bits]
  have m: "bit m 0 = bit (ci ! 3) 5" "bit m 1 = bit (ci ! 3) 6" "bit m 2 = (\<not> bit (ci ! 0) 0)"
    using s(1) by (simp_all only: CI_TO_OPTS_bits)
  have c3: "(if bit m 1 then MPPE_S_BIT else 0) OR (if bit m 0 then MPPE_L_BIT else 0) = ci ! 3"
    using z' b m by (intro u8_eqI) (simp_all add: bit_or_iff ci_bits)
  have c0: "(if bit m 2 then 0 else MPPE_H_BIT) = ci ! 0"
    using z' m by (intro u8_eqI) (simp_all add: ci_bits)
  have "ci = [ci ! 0, ci ! 1, ci ! 2, ci ! 3]"
    using assms(1) by (auto intro!: nth_equalityI simp: less_Suc_eq numeral_eq_Suc)
  then show ?thesis
    using z c0 c3 by (simp add: MPPE_OPTS_TO_CI_def opt_bits and_bit)
qed

lemma CI_TO_OPTS_inverse: "MPPE_CI_TO_OPTS (MPPE_OPTS_TO_CI m) = m AND 7"
proof -
  let ?c = "MPPE_OPTS_TO_CI m"
  have c: "bit (?c ! 3) 5 = bit m 0" "bit (?c ! 3) 6 = bit m 1" "bit (?c ! 0) 0 = (\<not> bit m 2)" "\<not> bit (?c ! 3) 7"
    "\<not> bit (?c ! 3) 0" "\<not> bit (?c ! 3) 4" "?c ! 0 AND NOT 1 = 0" "?c ! 1 = 0" "?c ! 2 = 0" "?c ! 3 AND NOT 0xF1 = 0"
    by (simp_all add: MPPE_OPTS_TO_CI_def opt_bits and_bit ci_bits bit_or_iff and_zero_bits)
  show ?thesis
    by (rule u8_eqI; simp only: CI_TO_OPTS_bits c) (simp_all add: bit_and_iff)
qed

section \<open>The callbacks as a client of the automaton and of the option walk\<close>

lemma supported_verdict: "supported_bits m = (r, m') \<Longrightarrow> is_verdict r"
  by (auto simp: supported_bits_def is_verdict_def split: if_splits)

lemma strength_verdict: "mppe_strength ao ho r = Some (r', m) \<Longrightarrow> is_verdict r \<Longrightarrow> is_verdict r'"
  by (auto simp: mppe_strength_def is_verdict_def split: if_splits)

interpretation ccp_walk: option_judge ccp_req_option
proof
  fix st p v q st'
  assume a: "ccp_req_option st p = (v, q, st')"
  obtain pcb rej where st: "st = (pcb, rej)" by (cases st)
  obtain r m where s: "supported_bits (MPPE_CI_TO_OPTS (drop 2 p)) = (r, m)" by (metis prod.exhaust)
  have t: "is_verdict r'" if "mppe_strength ao m r = Some (r', m')" for ao r' m'
    using strength_verdict [OF that] supported_verdict [OF s] by simp
  show "is_verdict v" "length q = length p"
    using a s by (auto simp: st ccp_req_option_def accept_mppe_def Let_def is_verdict_def CILEN_MPPE_def
        MPPE_OPTS_TO_CI_def split: if_splits option.splits dest!: t)
qed

lemma keeps_on_pcb [simp]: "keeps f (on_pcb g f)" "keeps f (f\<lparr>f_pcb := x\<rparr>)"
  by (simp_all add: keeps_def on_pcb_def trace_up_def trace_alt_def)

lemma keeps_sdata: "keeps f g \<Longrightarrow> keeps f (fsm_sdata base c i d g)"
  by (simp add: keeps_def fsm_sdata_def Let_def) (simp add: note_event_def trace_up_def trace_alt_def)

lemma ccp_callbacks_keep: "callbacks_keep (ccp_callbacks base)"
proof -
  have "keeps f (snd (ccp_reqci f p t))" for f p t by (simp add: ccp_reqci_def Let_def split_beta)
  moreover have "keeps f (snd (ccp_extcode base f c i p))" for f c i p
    by (simp add: ccp_extcode_def keeps_sdata)
  moreover have "keeps f (snd (ccp_addci f n))" "keeps f (snd (ccp_cilen f))" for f n
    by (simp_all add: ccp_addci_def ccp_cilen_def Let_def on_pcb_def)
  moreover have "keeps f (snd (ccp_rejci f p))" "keeps f (snd (ccp_nakci f p t))" for f p t
    by (simp_all add: ccp_rejci_def ccp_nakci_def Let_def)
  ultimately show ?thesis
    by (simp add: callbacks_keep_def kept_cb_def ccp_callbacks_def ccp_resetci_def ccp_up_def ccp_down_def)
qed

end
