(* ===== verification/Ppp_Ccp_Correct.thy ===== *)
theory Ppp_Ccp_Correct
  imports Ppp_Ccp
begin

text \<open>
  What CCP guarantees under the settings of the proxy engine (encryption required, 128 bits, stateless): the
  invariant of a run, the replies to the peer's requests, and the encoding of the MPPE option.
\<close>

section \<open>Runs and the invariant\<close>

text \<open>The entry points, and the packets that pass the encryption layer while CCP runs.\<close>

datatype ccp_call =
  Ccp_lowerup | Ccp_lowerdown | Ccp_open | Ccp_close "octets option" | Ccp_timer | Ccp_input octets | Ccp_protrej
| Ccp_resetreq | Ccp_racktimer | Ccp_send bool err_t octets u16 | Ccp_recv "octets list"

definition ccp_do :: "ccp_fsm fsm_env \<Rightarrow> ccp_call \<Rightarrow> ccp_fsm \<Rightarrow> ccp_fsm" where
  "ccp_do base a f =
     (case a of
        Ccp_lowerup \<Rightarrow> ccp_lowerup base f
      | Ccp_lowerdown \<Rightarrow> ccp_lowerdown base f
      | Ccp_open \<Rightarrow> ccp_open base f
      | Ccp_close r \<Rightarrow> ccp_close base r f
      | Ccp_timer \<Rightarrow> fsm_timeout (ccp_callbacks base) (UNTIMEOUT f)
      | Ccp_input p \<Rightarrow> ccp_input base p f
      | Ccp_protrej \<Rightarrow> ccp_protrej base f
      | Ccp_resetreq \<Rightarrow> ccp_resetrequest base f
      | Ccp_racktimer \<Rightarrow> ccp_rack_timeout base (on_pcb (\<lambda>pcb. pcb\<lparr>rack_timers := rack_timers pcb - 1\<rparr>) f)
      | Ccp_send alloc copied packet protocol \<Rightarrow>
          if ccp_transmit_method (f_pcb f) = CI_MPPE
          then on_pcb (\<lambda>pcb. pcb\<lparr>mppe_comp := mppe_do (Compress alloc copied packet protocol) (mppe_comp pcb)\<rparr>) f
          else f
      | Ccp_recv pb \<Rightarrow>
          if ccp_receive_method (f_pcb f) = CI_MPPE
          then on_pcb (\<lambda>pcb. pcb\<lparr>mppe_decomp := mppe_do (Decompress pb) (mppe_decomp pcb)\<rparr>) f
          else f)"

inductive ccp_reach :: "ccp_fsm \<Rightarrow> ccp_fsm \<Rightarrow> bool" for f0 where
  ccp_start: "ccp_reach f0 f0"
| ccp_step: "ccp_reach f0 f \<Longrightarrow> ccp_reach f0 (ccp_do base a f)"

definition strong :: "mppe \<Rightarrow> bool" where
  "strong st \<longleftrightarrow> mppe_ok st \<and> keylen st = 16 \<and> \<not> stateful st"

definition keyable :: "mppe \<Rightarrow> bool" where
  "keyable st \<longleftrightarrow> length (master_key st) = 16 \<and> length (session_key st) = 16 \<and> \<not> stateful st"

text \<open>Keys come from exactly one MS-CHAP exchange, unless LCP was told to close the link.\<close>

definition ready :: "ppp_pcb \<Rightarrow> bool" where
  "ready pcb \<longleftrightarrow> (mppe_keys_set pcb \<and> mschap_auths (auth_done pcb) = 1) \<or> (\<exists>r. Close_lcp r \<in> set (pcb_calls pcb))"

definition ccp_J :: "ppp_pcb \<Rightarrow> bool" where
  "ccp_J pcb \<longleftrightarrow> engine_settings pcb
     \<and> mppe_opts (ccp_gotoptions pcb) \<in> {0, MPPE_OPT_128} \<and> cmethod (ccp_gotoptions pcb) \<in> {0, CI_MPPE}
     \<and> cmethod (ccp_wantoptions pcb) = 0
     \<and> mppe_opts (ccp_allowoptions pcb) \<in> {0, MPPE_OPT_128} \<and> (mppe_opts (ccp_allowoptions pcb) \<noteq> 0 \<longrightarrow> ready pcb)
     \<and> keyable (mppe_comp pcb) \<and> keyable (mppe_decomp pcb)
     \<and> ccp_transmit_method pcb \<in> {0, CI_MPPE} \<and> ccp_receive_method pcb \<in> {0, CI_MPPE}
     \<and> (cmethod (ccp_gotoptions pcb) = CI_MPPE \<or> ccp_receive_method pcb = CI_MPPE \<longrightarrow> strong (mppe_decomp pcb))
     \<and> (ccp_transmit_method pcb = CI_MPPE \<longrightarrow> strong (mppe_comp pcb) \<and> ready pcb)"

definition ccp_A :: "ppp_pcb \<Rightarrow> bool" where
  "ccp_A pcb \<longleftrightarrow> (mppe_opts (ccp_hisoptions pcb) = 0 \<and> cmethod (ccp_hisoptions pcb) = 0)
     \<or> (mppe_opts (ccp_hisoptions pcb) = MPPE_OPT_128 \<and> cmethod (ccp_hisoptions pcb) = CI_MPPE
        \<and> strong (mppe_comp pcb) \<and> ready pcb)"

definition ccp_D :: "ppp_pcb \<Rightarrow> bool" where
  "ccp_D pcb \<longleftrightarrow> ccp_transmit_method pcb = 0 \<and> ccp_receive_method pcb = 0"

definition pcb_of :: "('p, 'z) pfsm_ext \<Rightarrow> 'p" where
  "pcb_of c = f_pcb (fsm.extend undefined c)"

lemma pcb_of_client [simp]: "pcb_of (client_part f) = f_pcb f"
  by (cases f) (simp add: pcb_of_def fsm.extend_def)

text \<open>A control block as it is allocated: everything zero but the settings of the engine.\<close>

definition zero_options :: ccp_options where
  "zero_options = \<lparr>mppe_opts = 0, cmethod = 0\<rparr>"

definition fresh_pcb :: "ppp_pcb \<Rightarrow> bool" where
  "fresh_pcb pcb \<longleftrightarrow> engine_settings pcb \<and> ccp_gotoptions pcb = zero_options \<and> ccp_wantoptions pcb = zero_options
     \<and> ccp_allowoptions pcb = zero_options \<and> ccp_hisoptions pcb = zero_options
     \<and> ccp_transmit_method pcb = 0 \<and> ccp_receive_method pcb = 0 \<and> keyable (mppe_comp pcb) \<and> keyable (mppe_decomp pcb)"

section \<open>How the callbacks change the control block\<close>

lemma settings_update [simp]:
  "engine_settings (pcb\<lparr>ccp_gotoptions := go\<rparr>) = engine_settings pcb"
  "engine_settings (pcb\<lparr>ccp_hisoptions := go\<rparr>) = engine_settings pcb"
  "engine_settings (pcb\<lparr>ccp_all_rejected := b\<rparr>) = engine_settings pcb"
  "engine_settings (pcb\<lparr>ccp_localstate := n\<rparr>) = engine_settings pcb"
  "engine_settings (pcb\<lparr>rack_timers := t\<rparr>) = engine_settings pcb"
  "engine_settings (pcb\<lparr>ccp_receive_method := n\<rparr>) = engine_settings pcb"
  "engine_settings (pcb\<lparr>ccp_transmit_method := n\<rparr>) = engine_settings pcb"
  "engine_settings (pcb\<lparr>mppe_comp := st\<rparr>) = engine_settings pcb"
  "engine_settings (pcb\<lparr>mppe_decomp := st\<rparr>) = engine_settings pcb"
  "engine_settings (pcb\<lparr>netif_mtu := m\<rparr>) = engine_settings pcb"
  "engine_settings (call c pcb) = engine_settings pcb"
  by (simp_all add: engine_settings_def call_def)

lemma ready_update [simp]:
  "ready (pcb\<lparr>ccp_gotoptions := go\<rparr>) = ready pcb" "ready (pcb\<lparr>ccp_hisoptions := go\<rparr>) = ready pcb"
  "ready (pcb\<lparr>ccp_all_rejected := b\<rparr>) = ready pcb" "ready (pcb\<lparr>ccp_localstate := n\<rparr>) = ready pcb"
  "ready (pcb\<lparr>rack_timers := t\<rparr>) = ready pcb" "ready (pcb\<lparr>ccp_receive_method := n\<rparr>) = ready pcb"
  "ready (pcb\<lparr>ccp_transmit_method := n\<rparr>) = ready pcb" "ready (pcb\<lparr>mppe_comp := st\<rparr>) = ready pcb"
  "ready (pcb\<lparr>mppe_decomp := st\<rparr>) = ready pcb" "ready (pcb\<lparr>netif_mtu := m\<rparr>) = ready pcb"
  by (simp_all add: ready_def)

lemma ready_call: "ready pcb \<Longrightarrow> ready (call c pcb)"
  by (auto simp: ready_def call_def)

lemma call_fields [simp]:
  "ccp_gotoptions (call c pcb) = ccp_gotoptions pcb" "ccp_wantoptions (call c pcb) = ccp_wantoptions pcb"
  "ccp_allowoptions (call c pcb) = ccp_allowoptions pcb" "ccp_hisoptions (call c pcb) = ccp_hisoptions pcb"
  "ccp_receive_method (call c pcb) = ccp_receive_method pcb" "ccp_transmit_method (call c pcb) = ccp_transmit_method pcb"
  "mppe_comp (call c pcb) = mppe_comp pcb" "mppe_decomp (call c pcb) = mppe_decomp pcb"
  "ccp_localstate (call c pcb) = ccp_localstate pcb" "lcp_state (call c pcb) = lcp_state pcb"
  by (simp_all add: call_def)

lemma MPPE_OPT_128_bits [simp]:
  "MPPE_OPT_128 \<noteq> 0" "MPPE_OPT_128 AND MPPE_OPT_40 = 0" "MPPE_OPT_128 AND MPPE_OPT_128 = MPPE_OPT_128"
  "MPPE_OPT_128 AND (MPPE_OPT_40 OR MPPE_OPT_128) = MPPE_OPT_128" "MPPE_OPT_128 AND MPPE_OPT_STATEFUL = 0"
  by (simp_all add: MPPE_OPT_128_def MPPE_OPT_40_def MPPE_OPT_STATEFUL_def)

lemma CI_MPPE_nonzero [simp]: "CI_MPPE \<noteq> 0"
  by (simp add: CI_MPPE_def)

lemma strong_keyable: "strong st \<Longrightarrow> keyable st"
  by (simp add: strong_def keyable_def mppe_ok_def)

lemma init_strong:
  assumes "keyable st"
  shows "strong (fst (mppe_init MPPE_OPT_128 st))" "snd (mppe_init MPPE_OPT_128 st) = []"
proof -
  have "mppe_ok ((mppe_rekey True x)\<lparr>ccount := 4095, mbits := b\<rparr>)"
    if "length (master_key x) = 16" "length (session_key x) = 16" "keylen x = 16" for x b
    using rekey_ok [of x 4095 True] that by simp
  then show "strong (fst (mppe_init MPPE_OPT_128 st))" "snd (mppe_init MPPE_OPT_128 st) = []"
    using assms by (simp_all add: mppe_init_def Let_def strong_def keyable_def MPPE_CCOUNT_SPACE_def)
qed

text \<open>Under the engine's settings the start of a negotiation asks for 128 bits, or for the end of the link.\<close>

definition not_available :: "ppp_pcb \<Rightarrow> ppp_call list" where
  "not_available pcb =
     (if mppe_keys_set pcb \<and> mschap_auths (auth_done pcb) = 1 then [] else [Close_lcp ''MPPE required but not available''])"

lemma resetci_engine:
  assumes "engine_settings pcb"
  shows "resetci_pcb pcb = pcb\<lparr>
      ccp_wantoptions := (ccp_wantoptions pcb)\<lparr>mppe_opts := MPPE_OPT_128\<rparr>,
      ccp_gotoptions := (ccp_wantoptions pcb)\<lparr>mppe_opts := MPPE_OPT_128\<rparr>,
      ccp_allowoptions := (ccp_allowoptions pcb)\<lparr>mppe_opts := MPPE_OPT_128\<rparr>,
      ccp_all_rejected := False, pcb_calls := pcb_calls pcb @ not_available pcb\<rparr>"
proof -
  have e: "require_mppe pcb" "refuse_mppe_40 pcb" "\<not> refuse_mppe_128 pcb"
    using assms by (simp_all add: engine_settings_def)
  show ?thesis
    using e
    by (cases "mschap_auths (auth_done pcb) > 1"; cases "mschap_auths (auth_done pcb) = 0"; cases "mppe_keys_set pcb")
      (simp_all add: resetci_pcb_def reset_options_def drop_40_def unavailable_def call_def not_available_def Let_def)
qed

lemma resetci_J:
  assumes "ccp_J pcb"
  shows "ccp_J (resetci_pcb pcb)" "ccp_D (resetci_pcb pcb) = ccp_D pcb" "ccp_A pcb \<Longrightarrow> ccp_A (resetci_pcb pcb)"
proof -
  have e: "engine_settings pcb" using assms by (simp add: ccp_J_def)
  note r = resetci_engine [OF e]
  have rd: "ready (resetci_pcb pcb)" by (auto simp: r ready_def not_available_def)
  then show "ccp_J (resetci_pcb pcb)" "ccp_A pcb \<Longrightarrow> ccp_A (resetci_pcb pcb)"
    using assms unfolding r by (simp_all add: ccp_J_def ccp_A_def engine_settings_def) blast+
  show "ccp_D (resetci_pcb pcb) = ccp_D pcb" by (simp add: r ccp_D_def)
qed

lemma init_pcb:
  assumes "keyable (mppe_comp pcb)"
  shows "init_comp MPPE_OPT_128 pcb = pcb\<lparr>mppe_comp := fst (mppe_init MPPE_OPT_128 (mppe_comp pcb))\<rparr>"
    and "keyable (mppe_decomp pcb) \<Longrightarrow>
      init_decomp MPPE_OPT_128 pcb = pcb\<lparr>mppe_decomp := fst (mppe_init MPPE_OPT_128 (mppe_decomp pcb))\<rparr>"
  using assms init_strong(2) by (simp_all add: init_comp_def init_decomp_def Let_def split_beta)

lemma nak_mppe_range:
  assumes "refuse_mppe_stateful pcb" "mppe_opts (ccp_gotoptions pcb) = MPPE_OPT_128"
  shows "nak_mppe p pcb \<in> {0, MPPE_OPT_128}"
proof -
  let ?m = "MPPE_CI_TO_OPTS (drop 2 p)"
  have "?m = 0 \<or> ?m = 2" if "\<not> bit ?m 2" "6 AND ?m = ?m"
  proof -
    have "bit (6 AND ?m) n = bit ?m n" for n using that(2) by simp
    from this [of 0] this [of 3] this [of 4] this [of 5] this [of 6] this [of 7]
    have "\<not> bit ?m 0" "\<not> bit ?m 3" "\<not> bit ?m 4" "\<not> bit ?m 5" "\<not> bit ?m 6" "\<not> bit ?m 7"
      by (simp_all add: bit_and_iff)
    then show ?thesis using that(1) u8_eqI [of ?m 0] u8_eqI [of ?m 2] by auto
  qed
  then show ?thesis
    using assms by (auto simp: nak_mppe_def Let_def MPPE_OPT_128_def MPPE_OPT_STATEFUL_def and_bit)
qed

lemma call_J: "ccp_J pcb \<Longrightarrow> ccp_J (call c pcb)"
  and call_A: "ccp_A pcb \<Longrightarrow> ccp_A (call c pcb)"
  and call_D [simp]: "ccp_D (call c pcb) = ccp_D pcb"
  by (auto simp: ccp_J_def ccp_A_def ccp_D_def ready_call)

lemma got_J:
  assumes "ccp_J pcb" "mppe_opts go \<in> {0, MPPE_OPT_128}" "cmethod go = 0 \<or> cmethod go = CI_MPPE \<and> strong (mppe_decomp pcb)"
  shows "ccp_J (pcb\<lparr>ccp_gotoptions := go\<rparr>)"
  using assms(3,1,2) by (elim disjE) (simp_all add: ccp_J_def)

lemma got_AD [simp]:
  "ccp_A (pcb\<lparr>ccp_gotoptions := go\<rparr>) = ccp_A pcb" "ccp_D (pcb\<lparr>ccp_gotoptions := go\<rparr>) = ccp_D pcb"
  "ccp_A (pcb\<lparr>mppe_decomp := st\<rparr>) = ccp_A pcb" "ccp_D (pcb\<lparr>mppe_decomp := st\<rparr>) = ccp_D pcb"
  by (simp_all add: ccp_A_def ccp_D_def)

lemma decomp_J: "ccp_J pcb \<Longrightarrow> strong st \<Longrightarrow> ccp_J (pcb\<lparr>mppe_decomp := st\<rparr>)"
  by (simp add: ccp_J_def strong_keyable)

lemma addci_J:
  assumes "ccp_J (f_pcb f)"
  shows "ccp_J (f_pcb (snd (ccp_addci f n)))" "ccp_D (f_pcb f) \<Longrightarrow> ccp_D (f_pcb (snd (ccp_addci f n)))"
    "ccp_A (f_pcb f) \<Longrightarrow> ccp_A (f_pcb (snd (ccp_addci f n)))"
proof -
  let ?go = "ccp_gotoptions (f_pcb f)"
  have k: "keyable (mppe_comp (f_pcb f))" "keyable (mppe_decomp (f_pcb f))" using assms by (simp_all add: ccp_J_def)
  note d = init_strong(1) [OF k(2)]
  have "mppe_opts ?go = 0 \<or> mppe_opts ?go = MPPE_OPT_128" using assms by (simp add: ccp_J_def)
  then show "ccp_J (f_pcb (snd (ccp_addci f n)))" "ccp_D (f_pcb f) \<Longrightarrow> ccp_D (f_pcb (snd (ccp_addci f n)))"
    "ccp_A (f_pcb f) \<Longrightarrow> ccp_A (f_pcb (snd (ccp_addci f n)))"
    using assms k d
    by (elim disjE; simp add: ccp_addci_def Let_def on_pcb_def init_pcb mppe_ci_def got_J decomp_J)+
qed

lemma nakci_J:
  assumes "ccp_J (f_pcb f)"
  shows "ccp_J (f_pcb (snd (ccp_nakci f p t)))"
    "ccp_A (f_pcb f) \<Longrightarrow> ccp_A (f_pcb (snd (ccp_nakci f p t)))"
    "ccp_D (f_pcb f) \<Longrightarrow> ccp_D (f_pcb (snd (ccp_nakci f p t)))"
proof -
  let ?pcb = "f_pcb f"
  have g: "mppe_opts (ccp_gotoptions ?pcb) \<in> {0, MPPE_OPT_128}" 
    "cmethod (ccp_gotoptions ?pcb) = 0 \<or> cmethod (ccp_gotoptions ?pcb) = CI_MPPE \<and> strong (mppe_decomp ?pcb)"
    "refuse_mppe_stateful ?pcb"
    using assms by (auto simp: ccp_J_def engine_settings_def)
  have n: "mppe_opts (ccp_gotoptions ?pcb) \<noteq> 0 \<Longrightarrow> nak_mppe p ?pcb \<in> {0, MPPE_OPT_128}"
    using g nak_mppe_range by auto
  show "ccp_J (f_pcb (snd (ccp_nakci f p t)))"
    "ccp_A (f_pcb f) \<Longrightarrow> ccp_A (f_pcb (snd (ccp_nakci f p t)))"
    "ccp_D (f_pcb f) \<Longrightarrow> ccp_D (f_pcb (snd (ccp_nakci f p t)))"
    using assms g n by (auto simp: ccp_nakci_def Let_def got_J call_J call_A)
qed

lemma rejci_J:
  assumes "ccp_J (f_pcb f)"
  shows "ccp_J (f_pcb (snd (ccp_rejci f p)))"
    "ccp_A (f_pcb f) \<Longrightarrow> ccp_A (f_pcb (snd (ccp_rejci f p)))"
    "ccp_D (f_pcb f) \<Longrightarrow> ccp_D (f_pcb (snd (ccp_rejci f p)))"
proof -
  have g: "mppe_opts (ccp_gotoptions (f_pcb f)) \<in> {0, MPPE_OPT_128}" 
    "cmethod (ccp_gotoptions (f_pcb f)) = 0 \<or> cmethod (ccp_gotoptions (f_pcb f)) = CI_MPPE \<and> strong (mppe_decomp (f_pcb f))"
    using assms by (auto simp: ccp_J_def)
  show "ccp_J (f_pcb (snd (ccp_rejci f p)))"
    "ccp_A (f_pcb f) \<Longrightarrow> ccp_A (f_pcb (snd (ccp_rejci f p)))"
    "ccp_D (f_pcb f) \<Longrightarrow> ccp_D (f_pcb (snd (ccp_rejci f p)))"
    using assms g by (simp_all add: ccp_rejci_def Let_def got_J [OF call_J] got_J call_J call_A del: insert_iff)
qed

lemma methods_J:
  assumes "ccp_J pcb" "r = 0 \<or> r = CI_MPPE \<and> strong (mppe_decomp pcb)" "t = 0 \<or> t = CI_MPPE \<and> strong (mppe_comp pcb) \<and> ready pcb"
  shows "ccp_J (ccp_set x y r t pcb)" "ccp_A (ccp_set x y r t pcb) = ccp_A pcb"
  using assms(2,3,1) by (elim disjE; simp add: ccp_J_def ccp_A_def ccp_set_def)+

lemma local_JAD [simp]:
  "ccp_J (pcb\<lparr>ccp_localstate := n\<rparr>) = ccp_J pcb" "ccp_A (pcb\<lparr>ccp_localstate := n\<rparr>) = ccp_A pcb"
  "ccp_D (pcb\<lparr>ccp_localstate := n\<rparr>) = ccp_D pcb" "ccp_J (pcb\<lparr>rack_timers := t\<rparr>) = ccp_J pcb"
  "ccp_A (pcb\<lparr>rack_timers := t\<rparr>) = ccp_A pcb" "ccp_D (pcb\<lparr>rack_timers := t\<rparr>) = ccp_D pcb"
  by (simp_all add: ccp_J_def ccp_A_def ccp_D_def)

lemma set_D [simp]: "ccp_D (ccp_set x y 0 0 pcb)"
  by (simp add: ccp_D_def ccp_set_def)

lemma set_got [simp]: "ccp_gotoptions (ccp_set x y r t pcb) = ccp_gotoptions pcb"
  by (simp add: ccp_set_def)

lemma up_J:
  assumes "ccp_J (f_pcb f)" "ccp_A (f_pcb f)"
  shows "ccp_J (f_pcb (ccp_up f)) \<and> ccp_A (f_pcb (ccp_up f))"
proof -
  let ?pcb = "f_pcb f"
  have "cmethod (ccp_gotoptions ?pcb) = 0 \<or> cmethod (ccp_gotoptions ?pcb) = CI_MPPE \<and> strong (mppe_decomp ?pcb)"
    using assms(1) unfolding ccp_J_def by blast
  moreover have "cmethod (ccp_hisoptions ?pcb) = 0 \<or> cmethod (ccp_hisoptions ?pcb) = CI_MPPE \<and> strong (mppe_comp ?pcb) \<and> ready ?pcb"
    using assms(2) unfolding ccp_A_def by blast
  ultimately show ?thesis
    using assms methods_J [of ?pcb] by (simp add: ccp_up_def on_pcb_def Let_def call_J call_A)
qed

lemma down_J:
  assumes "ccp_J (f_pcb f)"
  shows "ccp_J (f_pcb (ccp_down f)) \<and> ccp_D (f_pcb (ccp_down f))"
proof -
  have s: "ccp_J (ccp_set x y 0 0 q)" if "ccp_J q" for x y q using methods_J(1) [OF that] by simp
  have g: "ccp_J (q\<lparr>ccp_gotoptions := (ccp_gotoptions q)\<lparr>mppe_opts := 0\<rparr>\<rparr>)" if "ccp_J q" for q
    using that by (intro got_J) (auto simp: ccp_J_def)
  show ?thesis
    using assms s g [OF s] by (simp add: ccp_down_def on_pcb_def Let_def call_J del: set_got)
qed

lemma comp_reset_fields [simp]:
  "strong (mppe_comp_reset st) = strong st" "keyable (mppe_comp_reset st) = keyable st"
  by (simp_all add: mppe_comp_reset_def strong_def keyable_def)

lemma reset_JAD:
  "ccp_J (ccp_reset_comp pcb) = ccp_J pcb" "ccp_A (ccp_reset_comp pcb) = ccp_A pcb" "ccp_D (ccp_reset_comp pcb) = ccp_D pcb"
  "ccp_reset_decomp pcb = pcb"
  by (simp_all add: ccp_reset_comp_def ccp_reset_decomp_def mppe_decomp_reset_def ccp_J_def ccp_A_def ccp_D_def)

lemma extcode_J:
  assumes "ccp_J (f_pcb f)"
  shows "ccp_J (f_pcb (snd (ccp_extcode base f code i p)))"
    "ccp_A (f_pcb f) \<Longrightarrow> ccp_A (f_pcb (snd (ccp_extcode base f code i p)))"
    "ccp_D (f_pcb f) \<Longrightarrow> ccp_D (f_pcb (snd (ccp_extcode base f code i p)))"
proof -
  have s: "f_pcb (fsm_sdata base c j d g) = f_pcb g" for c j d g
    by (simp add: fsm_sdata_def note_event_def Let_def)
  show "ccp_J (f_pcb (snd (ccp_extcode base f code i p)))"
    "ccp_A (f_pcb f) \<Longrightarrow> ccp_A (f_pcb (snd (ccp_extcode base f code i p)))"
    "ccp_D (f_pcb f) \<Longrightarrow> ccp_D (f_pcb (snd (ccp_extcode base f code i p)))"
    using assms by (simp_all add: ccp_extcode_def s on_pcb_def reset_JAD)
qed

section \<open>Requests of the peer\<close>

lemma accepted_128:
  assumes "supported_bits (MPPE_CI_TO_OPTS c) = (r, m)" "m AND MPPE_OPT_STATEFUL = 0"
    "mppe_strength MPPE_OPT_128 m r = Some (CONFACK, m1)"
  shows "m1 = MPPE_OPT_128 \<and> m = MPPE_OPT_128 \<and> r = CONFACK"
proof -
  have rm: "r = CONFACK" "m1 = m" "bit m 1" "\<not> bit m 0"
    using assms(3) by (auto simp: mppe_strength_def fsm_codes MPPE_OPT_40_def MPPE_OPT_128_def and_bit split: if_splits)
  note s = supported_ack [OF assms(1) [unfolded rm(1)]]
  have "\<not> bit m 2" using assms(2) by (simp add: MPPE_OPT_STATEFUL_def and_bit)
  moreover have "\<not> bit m 7" using s(1) CI_TO_OPTS_bits(8) by simp
  ultimately have "m = 2" using rm s by (intro u8_eqI) simp_all
  then show ?thesis using rm by (simp add: MPPE_OPT_128_def)
qed

lemma set_his_JD [simp]:
  "ccp_J (set_his_mppe m pcb) = ccp_J pcb" "ccp_D (set_his_mppe m pcb) = ccp_D pcb"
  "cmethod (ccp_hisoptions (set_his_mppe m pcb)) = cmethod (ccp_hisoptions pcb)"
  "netif_mtu (set_his_mppe m pcb) = netif_mtu pcb" "mppe_comp (set_his_mppe m pcb) = mppe_comp pcb"
  "mppe_opts (ccp_hisoptions (set_his_mppe m pcb)) = m" "ready (set_his_mppe m pcb) = ready pcb"
  by (simp_all add: set_his_mppe_def ccp_J_def ccp_D_def)

lemma accept_mppe_JD:
  assumes "ccp_J pcb" "ccp_D pcb" "accept_mppe MPPE_OPT_128 pcb = (r, pcb')"
  shows "ccp_J pcb'" "ccp_D pcb'" "strong (mppe_comp pcb')" "ccp_hisoptions pcb' = ccp_hisoptions pcb"
    "ready pcb' = ready pcb" "r = CONFACK \<Longrightarrow> netif_mtu pcb' = netif_mtu pcb - MPPE_PAD \<and> netif_mtu pcb \<noteq> 0"
proof -
  let ?st = "fst (mppe_init MPPE_OPT_128 (mppe_comp pcb))"
  have k: "keyable (mppe_comp pcb)" using assms(1) by (simp add: ccp_J_def)
  note st = init_strong(1) [OF k]
  have p: "pcb' = pcb\<lparr>mppe_comp := ?st, netif_mtu := (if r = CONFACK then netif_mtu pcb - MPPE_PAD else netif_mtu pcb)\<rparr>"
    "r = CONFACK \<longrightarrow> netif_mtu pcb \<noteq> 0"
    using assms(3) by (auto simp: accept_mppe_def init_pcb(1) [OF k] fsm_codes Let_def split: if_splits)
  show "ccp_J pcb'" "ccp_D pcb'" "strong (mppe_comp pcb')" "ccp_hisoptions pcb' = ccp_hisoptions pcb"
    "ready pcb' = ready pcb" "r = CONFACK \<Longrightarrow> netif_mtu pcb' = netif_mtu pcb - MPPE_PAD \<and> netif_mtu pcb \<noteq> 0"
    using assms(1,2) st strong_keyable [OF st] p(2)
    by (simp_all add: p(1) ccp_J_def ccp_D_def)
qed

lemma req_option:
  assumes J: "ccp_J pcb" "ccp_D pcb" and o: "ccp_req_option (pcb, rej) p = (v, q, (pcb', rej'))"
  shows "ccp_J pcb'" "ccp_D pcb'" "cmethod (ccp_hisoptions pcb') = cmethod (ccp_hisoptions pcb)"
    "v = CONFACK \<Longrightarrow> q = p \<and> p ! 0 = CI_MPPE \<and> mppe_opts (ccp_hisoptions pcb') = MPPE_OPT_128
       \<and> strong (mppe_comp pcb') \<and> ready pcb' \<and> netif_mtu pcb' = netif_mtu pcb - MPPE_PAD"
proof -
  let ?ao = "mppe_opts (ccp_allowoptions pcb)"
  obtain r m where s: "supported_bits (MPPE_CI_TO_OPTS (drop 2 p)) = (r, m)" by (metis prod.exhaust)
  have goal: "ccp_J pcb' \<and> ccp_D pcb' \<and> cmethod (ccp_hisoptions pcb') = cmethod (ccp_hisoptions pcb)
    \<and> (v = CONFACK \<longrightarrow> q = p \<and> p ! 0 = CI_MPPE \<and> mppe_opts (ccp_hisoptions pcb') = MPPE_OPT_128
       \<and> strong (mppe_comp pcb') \<and> ready pcb' \<and> netif_mtu pcb' = netif_mtu pcb - MPPE_PAD)"
  proof (cases "p ! 0 \<noteq> CI_MPPE \<or> ?ao = 0 \<or> length p \<noteq> CILEN_MPPE")
    case True
    then show ?thesis using o J by (auto simp: ccp_req_option_def Let_def fsm_codes)
  next
    case f: False
    then have ao: "?ao = MPPE_OPT_128" "ready pcb" using J(1) by (auto simp: ccp_J_def)
    have st: "refuse_mppe_stateful pcb" using J(1) by (simp add: ccp_J_def engine_settings_def)
    show ?thesis
    proof (cases "mppe_strength MPPE_OPT_128 m r")
      case None
      then show ?thesis using o J f s ao by (auto simp: ccp_req_option_def Let_def fsm_codes split: if_splits)
    next
      case (Some a)
      obtain r1 m1 where a: "a = (r1, m1)" by (cases a)
      consider (ack) "m AND MPPE_OPT_STATEFUL = 0" "r1 = CONFACK" | (other) "m AND MPPE_OPT_STATEFUL \<noteq> 0 \<or> r1 \<noteq> CONFACK"
        by blast
      then show ?thesis
      proof cases
        case other
        then show ?thesis
          using o J f s ao st Some a by (auto simp: ccp_req_option_def Let_def fsm_codes split: if_splits)
      next
        case ack
        have m: "m1 = MPPE_OPT_128" "m = MPPE_OPT_128" "r = CONFACK"
          using accepted_128 [OF s ack(1)] Some a ack(2) by simp_all
        have "MPPE_OPTS_TO_CI MPPE_OPT_128 = drop 2 p"
          using OPTS_TO_CI_inverse [of "drop 2 p" m] s m f by (simp add: CILEN_MPPE_def)
        then have q: "take 2 p @ MPPE_OPTS_TO_CI MPPE_OPT_128 = p" by simp
        obtain r2 pcb2 where acc: "accept_mppe MPPE_OPT_128 (set_his_mppe MPPE_OPT_128 pcb) = (r2, pcb2)"
          by (metis prod.exhaust)
        have e: "v = r2" "q = p" "pcb' = pcb2"
          using o f s ao ack Some a m acc q by (auto simp: ccp_req_option_def Let_def)
        show ?thesis
          using accept_mppe_JD [OF _ _ acc] J ao e f by auto
      qed
    qed
  qed
  then show "ccp_J pcb'" "ccp_D pcb'" "cmethod (ccp_hisoptions pcb') = cmethod (ccp_hisoptions pcb)"
    "v = CONFACK \<Longrightarrow> q = p \<and> p ! 0 = CI_MPPE \<and> mppe_opts (ccp_hisoptions pcb') = MPPE_OPT_128
       \<and> strong (mppe_comp pcb') \<and> ready pcb' \<and> netif_mtu pcb' = netif_mtu pcb - MPPE_PAD"
    by blast+
qed

lemma judge_front_ccp:
  assumes J: "ccp_J pcb" "ccp_D pcb" and o: "judge_front ccp_req_option dn (pcb, rej) p = (v, q, n, (pcb', rej'))"
  shows "ccp_J pcb'" "ccp_D pcb'" "cmethod (ccp_hisoptions pcb') = cmethod (ccp_hisoptions pcb)"
    "v = CONFACK \<Longrightarrow> q = take n p \<and> p ! 0 = CI_MPPE \<and> mppe_opts (ccp_hisoptions pcb') = MPPE_OPT_128
       \<and> strong (mppe_comp pcb') \<and> ready pcb' \<and> netif_mtu pcb' = netif_mtu pcb - MPPE_PAD"
proof -
  let ?n = "unat (p ! 1)"
  obtain v1 q1 pcb1 rej1 where c: "ccp_req_option (pcb, rej) (take ?n p) = (v1, q1, (pcb1, rej1))" by (metis prod.exhaust)
  note r = req_option [OF J c]
  have t: "take ?n p ! 0 = p ! 0" if "\<not> bad_option (length p) p" using that by (simp add: bad_option_def)
  have g: "ccp_J pcb' \<and> ccp_D pcb' \<and> cmethod (ccp_hisoptions pcb') = cmethod (ccp_hisoptions pcb)
    \<and> (v = CONFACK \<longrightarrow> q = take n p \<and> p ! 0 = CI_MPPE \<and> mppe_opts (ccp_hisoptions pcb') = MPPE_OPT_128
       \<and> strong (mppe_comp pcb') \<and> ready pcb' \<and> netif_mtu pcb' = netif_mtu pcb - MPPE_PAD)"
  proof (cases "bad_option (length p) p")
    case True
    then show ?thesis using o J by (auto simp: judge_front_def Let_def fsm_codes)
  next
    case False
    then have e: "v = (if v1 = CONFNAK \<and> dn then CONFREJ else v1)" "q = q1" "n = ?n" "pcb' = pcb1"
      using o c by (auto simp: judge_front_def Let_def)
    have "v1 = CONFACK" if "v = CONFACK" using that e(1) by (auto simp: fsm_codes split: if_splits)
    then show ?thesis using e r t [OF False] by auto
  qed
  then show "ccp_J pcb'" "ccp_D pcb'" "cmethod (ccp_hisoptions pcb') = cmethod (ccp_hisoptions pcb)"
    "v = CONFACK \<Longrightarrow> q = take n p \<and> p ! 0 = CI_MPPE \<and> mppe_opts (ccp_hisoptions pcb') = MPPE_OPT_128
       \<and> strong (mppe_comp pcb') \<and> ready pcb' \<and> netif_mtu pcb' = netif_mtu pcb - MPPE_PAD"
    by blast+
qed

text \<open>A request whose options are all acknowledged: it consists of MPPE options for 128-bit keys, and is sent back as it is.\<close>

lemma judge_all_ccp:
  assumes "ccp_J pcb" "ccp_D pcb" "judge_all ccp_req_option dn (pcb, rej) p = (js, (pcb', rej'))"
  shows "ccp_J pcb' \<and> ccp_D pcb' \<and> cmethod (ccp_hisoptions pcb') = cmethod (ccp_hisoptions pcb)
    \<and> (p = [] \<longrightarrow> pcb' = pcb \<and> js = [])
    \<and> (all_acked js \<longrightarrow> concat (map snd js) = p \<and> netif_mtu pcb' = netif_mtu pcb - of_nat (length js) * MPPE_PAD
         \<and> (p \<noteq> [] \<longrightarrow> p ! 0 = CI_MPPE \<and> mppe_opts (ccp_hisoptions pcb') = MPPE_OPT_128
              \<and> strong (mppe_comp pcb') \<and> ready pcb'))"
  using assms
proof (induction "length p" arbitrary: p pcb rej js rule: less_induct)
  case less
  show ?case
  proof (cases "p = []")
    case True
    then show ?thesis using less.prems by (auto simp: judge_all.simps all_acked_def)
  next
    case False
    obtain v q n pcb1 rej1 where f: "judge_front ccp_req_option dn (pcb, rej) p = (v, q, n, (pcb1, rej1))"
      by (metis prod.exhaust)
    obtain js1 where j: "judge_all ccp_req_option dn (pcb1, rej1) (drop n p) = (js1, (pcb', rej'))"
      "js = (v, q) # js1"
      using less.prems(3) False f by (auto simp: judge_all.simps [of _ _ _ p] split: prod.splits)
    note fr = judge_front_ccp [OF less.prems(1,2) f]
    have n: "0 < n" "n \<le> length p" using judge_front_length [OF False f] .
    have IH: "ccp_J pcb' \<and> ccp_D pcb' \<and> cmethod (ccp_hisoptions pcb') = cmethod (ccp_hisoptions pcb1)
      \<and> (drop n p = [] \<longrightarrow> pcb' = pcb1 \<and> js1 = [])
      \<and> (all_acked js1 \<longrightarrow> concat (map snd js1) = drop n p \<and> netif_mtu pcb' = netif_mtu pcb1 - of_nat (length js1) * MPPE_PAD
           \<and> (drop n p \<noteq> [] \<longrightarrow> drop n p ! 0 = CI_MPPE \<and> mppe_opts (ccp_hisoptions pcb') = MPPE_OPT_128
                \<and> strong (mppe_comp pcb') \<and> ready pcb'))"
      using n False by (intro less.hyps [OF _ fr(1,2) j(1)]) simp
    show ?thesis
    proof (cases "all_acked js")
      case True
      then have a: "v = CONFACK" "all_acked js1" using j(2) by (simp_all add: all_acked_def)
      show ?thesis using IH fr(3) fr(4) [OF a(1)] a j(2) False by (cases "drop n p = []") (auto simp: algebra_simps)
    next
      case F: False
      then show ?thesis using IH fr(3) False by simp
    qed
  qed
qed

lemma judge_all_no_nak: "judge_all judge dn st p = (js, st') \<Longrightarrow> dn \<Longrightarrow> CONFNAK \<notin> fst ` set js"
proof (induction "length p" arbitrary: p st js rule: less_induct)
  case less
  show ?case
  proof (cases "p = []")
    case True
    then show ?thesis using less.prems by (simp add: judge_all.simps)
  next
    case False
    obtain v q n st1 where f: "judge_front judge dn st p = (v, q, n, st1)" by (metis prod.exhaust)
    obtain js1 where j: "judge_all judge dn st1 (drop n p) = (js1, st')" "js = (v, q) # js1"
      using less.prems(1) False f by (auto simp: judge_all.simps [of _ _ _ p] split: prod.splits)
    have "length (drop n p) < length p" using judge_front_length [OF False f] False by simp
    from less.hyps [OF this j(1) less.prems(2)] show ?thesis
      using f j(2) less.prems(2) by (auto simp: judge_front_def Let_def fsm_codes split: if_splits prod.splits)
  qed
qed

lemma his_JD [simp]:
  "ccp_J (pcb\<lparr>ccp_hisoptions := x\<rparr>) = ccp_J pcb" "ccp_D (pcb\<lparr>ccp_hisoptions := x\<rparr>) = ccp_D pcb"
  "ccp_J (pcb\<lparr>ccp_all_rejected := b\<rparr>) = ccp_J pcb" "ccp_D (pcb\<lparr>ccp_all_rejected := b\<rparr>) = ccp_D pcb"
  by (simp_all add: ccp_J_def ccp_D_def)

lemma ccp_reqci_walk:
  assumes "ccp_reqci f p dn = ((ret, out), f')"
  obtains js pcb1 rej where
    "judge_all ccp_req_option dn
       ((f_pcb f)\<lparr>ccp_hisoptions := \<lparr>mppe_opts = 0, cmethod = (if p \<noteq> [] then p ! 0 else 0)\<rparr>\<rparr>, True) p = (js, (pcb1, rej))"
    and "ret = worst js" and "out = (if ret = CONFACK then concat (map snd js) else picked ret js)"
    and "f_pcb f' = (let pcb2 = (if ret = CONFREJ \<and> length out = length p then pcb1\<lparr>ccp_all_rejected := True\<rparr> else pcb1)
                    in if ret = CONFREJ \<and> mppe_opts (ccp_allowoptions pcb1) \<noteq> 0 \<and> rej
                       then call (Close_lcp ''MPPE required but peer negotiation failed'') pcb2 else pcb2)"
proof -
  let ?st = "((f_pcb f)\<lparr>ccp_hisoptions := \<lparr>mppe_opts = 0, cmethod = (if p \<noteq> [] then p ! 0 else 0)\<rparr>\<rparr>, True)"
  obtain ret1 buf retp pcb1 rej where sc:
    "opt_scan ccp_req_option dn ?st p 0 (length p) CONFACK 0 = (ret1, buf, retp, (pcb1, rej))" by (metis prod.exhaust)
  obtain js st2 where j: "judge_all ccp_req_option dn ?st p = (js, st2)" by (metis prod.exhaust)
  note r = ccp_walk.scan_reply [OF sc j]
  have e: "ret = ret1" "out = (if ret1 = CONFACK then buf else take retp buf)"
    "f_pcb f' = (let pcb2 = (if ret1 = CONFREJ \<and> length p = retp then pcb1\<lparr>ccp_all_rejected := True\<rparr> else pcb1)
                 in if ret1 = CONFREJ \<and> mppe_opts (ccp_allowoptions pcb2) \<noteq> 0 \<and> rej
                    then call (Close_lcp ''MPPE required but peer negotiation failed'') pcb2 else pcb2)"
    using assms sc by (auto simp: ccp_reqci_def Let_def)
  have "length out = retp" if "ret = CONFREJ" using that e(1,2) r(5,6) by (simp add: fsm_codes)
  then have "f_pcb f' = (let pcb2 = (if ret = CONFREJ \<and> length out = length p then pcb1\<lparr>ccp_all_rejected := True\<rparr> else pcb1)
                    in if ret = CONFREJ \<and> mppe_opts (ccp_allowoptions pcb1) \<noteq> 0 \<and> rej
                       then call (Close_lcp ''MPPE required but peer negotiation failed'') pcb2 else pcb2)"
    using e(1,3) by (auto simp: Let_def)
  moreover have "out = (if ret = CONFACK then concat (map snd js) else picked ret js)"
    using e(1,2) r(3,4) by simp
  moreover have "ret = worst js" "judge_all ccp_req_option dn ?st p = (js, (pcb1, rej))" using j r(1,2) e(1) by simp_all
  ultimately show ?thesis by (intro that)
qed

lemma reqci_J:
  assumes "ccp_J (f_pcb f)" "ccp_D (f_pcb f)" "ccp_reqci f p dn = ((ret, out), f')"
  shows "ccp_J (f_pcb f')" "ccp_D (f_pcb f')" "ret = CONFACK \<Longrightarrow> ccp_A (f_pcb f') \<and> out = p"
proof -
  let ?pcb = "(f_pcb f)\<lparr>ccp_hisoptions := \<lparr>mppe_opts = 0, cmethod = (if p \<noteq> [] then p ! 0 else 0)\<rparr>\<rparr>"
  obtain js pcb1 rej where j: "judge_all ccp_req_option dn (?pcb, True) p = (js, (pcb1, rej))"
    and ret: "ret = worst js" and out: "out = (if ret = CONFACK then concat (map snd js) else picked ret js)"
    and pcb: "f_pcb f' = (let pcb2 = (if ret = CONFREJ \<and> length out = length p then pcb1\<lparr>ccp_all_rejected := True\<rparr> else pcb1)
                    in if ret = CONFREJ \<and> mppe_opts (ccp_allowoptions pcb1) \<noteq> 0 \<and> rej
                       then call (Close_lcp ''MPPE required but peer negotiation failed'') pcb2 else pcb2)"
    by (rule ccp_reqci_walk [OF assms(3)])
  have ja: "ccp_J pcb1 \<and> ccp_D pcb1 \<and> cmethod (ccp_hisoptions pcb1) = cmethod (ccp_hisoptions ?pcb)
    \<and> (p = [] \<longrightarrow> pcb1 = ?pcb \<and> js = [])
    \<and> (all_acked js \<longrightarrow> concat (map snd js) = p \<and> netif_mtu pcb1 = netif_mtu ?pcb - of_nat (length js) * MPPE_PAD
         \<and> (p \<noteq> [] \<longrightarrow> p ! 0 = CI_MPPE \<and> mppe_opts (ccp_hisoptions pcb1) = MPPE_OPT_128
              \<and> strong (mppe_comp pcb1) \<and> ready pcb1))"
    using assms(1,2) by (intro judge_all_ccp [OF _ _ j]) simp_all
  show "ccp_J (f_pcb f')" "ccp_D (f_pcb f')" using ja by (simp_all add: pcb Let_def call_J)
  show "ccp_A (f_pcb f') \<and> out = p" if r: "ret = CONFACK"
  proof -
    have "all_acked js" using worst_acked ret r ccp_walk.all_verdicts [OF j] by simp
    then show ?thesis
      using ja r by (cases "p = []") (auto simp: pcb out Let_def fsm_codes ccp_A_def)
  qed
qed

section \<open>The run\<close>

interpretation ccp: fsm_agreement "ccp_callbacks base"
  "\<lambda>c. ccp_J (pcb_of c)" "\<lambda>c. ccp_A (pcb_of c)" "\<lambda>c. ccp_D (pcb_of c)" for base
proof unfold_locales
  show "callbacks_keep (ccp_callbacks base)" by (rule ccp_callbacks_keep)
  fix f :: ccp_fsm and g g' h n code inp i
  show "cb_up (ccp_callbacks base) \<noteq> None" "cb_down (ccp_callbacks base) \<noteq> None" by (simp_all add: ccp_callbacks_def)
  note simps = ccp_callbacks_def pcb_of_client Let_def
  {
    assume J: "ccp_J (pcb_of (client_part f))"
    then have J': "ccp_J (f_pcb f)" by simp
    show "let c = client_part (snd (nakrej_result (ccp_callbacks base) code inp f))
        in ccp_J (pcb_of c) \<and> (ccp_A (pcb_of (client_part f)) \<longrightarrow> ccp_A (pcb_of c)) \<and>
           (ccp_D (pcb_of (client_part f)) \<longrightarrow> ccp_D (pcb_of c))"
      using nakci_J [OF J'] rejci_J [OF J'] by (simp add: simps nakrej_result_def)
    show "let c = client_part (snd (ext_answer (ccp_callbacks base) code i inp f))
        in ccp_J (pcb_of c) \<and> (ccp_A (pcb_of (client_part f)) \<longrightarrow> ccp_A (pcb_of c)) \<and>
           (ccp_D (pcb_of (client_part f)) \<longrightarrow> ccp_D (pcb_of c))"
      using extcode_J [OF J'] by (simp add: simps ext_answer_def)
    show "ccp_J (pcb_of (client_part (g f))) \<and> ccp_D (pcb_of (client_part (g f)))"
      if "cb_down (ccp_callbacks base) = Some g"
      using that down_J [OF J'] by (auto simp: simps)
    assume D: "ccp_D (pcb_of (client_part f))"
    then have D': "ccp_D (f_pcb f)" by simp
    show "ccp_J (pcb_of (client_part (g f))) \<and> ccp_D (pcb_of (client_part (g f)))"
      if "cb_resetci (ccp_callbacks base) = Some g"
      using that resetci_J [OF J'] D' by (auto simp: simps ccp_resetci_def on_pcb_def)
    show "ccp_J (pcb_of (client_part (snd (h f)))) \<and> ccp_D (pcb_of (client_part (snd (h f)))) \<and>
        (ccp_A (pcb_of (client_part f)) \<longrightarrow> ccp_A (pcb_of (client_part (snd (h f)))))"
      if "cb_cilen (ccp_callbacks base) = Some h"
      using that J' D' by (auto simp: simps ccp_cilen_def)
    show "ccp_J (pcb_of (client_part (snd (g' f n)))) \<and> ccp_D (pcb_of (client_part (snd (g' f n)))) \<and>
        (ccp_A (pcb_of (client_part f)) \<longrightarrow> ccp_A (pcb_of (client_part (snd (g' f n)))))"
      if "cb_addci (ccp_callbacks base) = Some g'"
      using that addci_J [OF J'] D' by (auto simp: simps)
    show "let c = client_part (snd (reqci_answer (ccp_callbacks base) inp f))
        in ccp_J (pcb_of c) \<and> ccp_D (pcb_of c) \<and>
           (fst (fst (reqci_answer (ccp_callbacks base) inp f)) = CONFACK \<longrightarrow> ccp_A (pcb_of c))"
      using reqci_J [OF J' D'] by (simp add: simps reqci_answer_def) (metis prod.exhaust_sel)
    show "ccp_J (pcb_of (client_part (g f))) \<and> ccp_A (pcb_of (client_part (g f)))"
      if "cb_up (ccp_callbacks base) = Some g" "ccp_A (pcb_of (client_part f))"
      using that up_J [OF J'] by (auto simp: simps)
    show "ccp_J (pcb_of (client_part (g f))) \<and> ccp_D (pcb_of (client_part (g f))) \<and>
        (ccp_A (pcb_of (client_part f)) \<longrightarrow> ccp_A (pcb_of (client_part (g f))))"
      if "cb \<in> {cb_starting (ccp_callbacks base), cb_finished (ccp_callbacks base), cb_retransmit (ccp_callbacks base)}"
        "cb = Some g" for cb
      using that by (auto simp: simps)
  }
qed

definition ccp_inv :: "ccp_fsm \<Rightarrow> bool" where
  "ccp_inv f \<longleftrightarrow> ccp_J (f_pcb f) \<and> (f_state f \<in> {PPP_FSM_ACKSENT, PPP_FSM_OPENED} \<longrightarrow> ccp_A (f_pcb f))
     \<and> (f_state f \<noteq> PPP_FSM_OPENED \<longrightarrow> ccp_D (f_pcb f))"

lemma ccp_inv_agreed: "ccp.agreed f = ccp_inv f"
  by (simp add: ccp.agreed_def ccp_inv_def)

lemmas ccp_inv_fsm = ccp.agreed_lower [unfolded ccp_inv_agreed] ccp.agreed_open [unfolded ccp_inv_agreed]
  ccp.agreed_close [unfolded ccp_inv_agreed] ccp.agreed_timeout [unfolded ccp_inv_agreed]
  ccp.agreed_input [unfolded ccp_inv_agreed]

lemma f_state_on_pcb [simp]: "f_state (on_pcb g f) = f_state f" "f_pcb (on_pcb g f) = g (f_pcb f)"
  by (simp_all add: on_pcb_def)

lemma ccp_inv_on_pcb:
  assumes "ccp_inv f" "\<And>pcb. ccp_J pcb \<Longrightarrow> ccp_J (g pcb)" "\<And>pcb. ccp_A pcb \<Longrightarrow> ccp_A (g pcb)" "\<And>pcb. ccp_D pcb \<Longrightarrow> ccp_D (g pcb)"
  shows "ccp_inv (on_pcb g f)"
  using assms by (auto simp: ccp_inv_def)

lemma ccp_inv_set: "ccp_inv f \<Longrightarrow> ccp_inv (on_pcb (ccp_set x y 0 0) f)"
  using methods_J by (intro ccp_inv_on_pcb) (auto simp: ccp_A_def ccp_D_def ccp_set_def)

lemma ccp_inv_call: "ccp_inv f \<Longrightarrow> ccp_inv (on_pcb (call c) f)"
  by (intro ccp_inv_on_pcb) (simp_all add: call_J call_A)

lemma ccp_inv_sdata [simp]: "ccp_inv (fsm_sdata base c i d f) = ccp_inv f"
proof -
  have "f_pcb (fsm_sdata base c i d f) = f_pcb f" by (simp add: fsm_sdata_def note_event_def Let_def)
  then show ?thesis by (simp add: ccp_inv_def)
qed

lemma ccp_inv_update [simp]:
  "ccp_inv (f\<lparr>f_flags := n\<rparr>) = ccp_inv f" "ccp_inv (UNTIMEOUT f) = ccp_inv f" "ccp_inv (next_id f) = ccp_inv f"
  by (simp_all add: ccp_inv_def UNTIMEOUT_def next_id_def)

lemma ccp_close_inv: "ccp_inv f \<Longrightarrow> ccp_inv (ccp_close base r f)"
  by (simp add: ccp_close_def ccp_inv_fsm ccp_inv_set)

lemma ccp_open_inv: "ccp_inv f \<Longrightarrow> ccp_inv (ccp_open base f)"
proof -
  assume f: "ccp_inv f"
  have r: "ccp_inv (ccp_resetci g)" if "ccp_inv g" for g
    using that resetci_J by (auto simp: ccp_resetci_def ccp_inv_def)
  show ?thesis using f r ccp_inv_set by (simp add: ccp_open_def Let_def ccp_inv_fsm)
qed

lemma mppe_strong_do:
  assumes "strong st"
  shows "strong (mppe_do m st)"
proof -
  have u: "keylen (rekey_until t x) = keylen x \<and> stateful (rekey_until t x) = stateful x" for t x
    by (induction t x rule: rekey_until.induct) (subst (1 2) rekey_until.simps, simp)
  have fl: "keylen (rekey_flags t x) = keylen x \<and> stateful (rekey_flags t x) = stateful x" for t x
    by (induction t x rule: rekey_flags.induct) (subst (1 2) rekey_flags.simps, simp)
  have d: "keylen (snd (snd (snd (decrypt pb x)))) = keylen x \<and> stateful (snd (snd (snd (decrypt pb x)))) = stateful x" for pb x
    by (simp add: decrypt_def Let_def split_beta)
  have s: "keylen (fst (stateful_check cc b x)) = keylen x \<and> stateful (fst (stateful_check cc b x)) = stateful x" for cc b x
    by (simp add: stateful_check_def Let_def fl)
  have "keylen (mppe_do m st) = keylen st \<and> stateful (mppe_do m st) = stateful st"
  proof (cases m)
    case (Decompress pb)
    have "keylen st1 = keylen st \<and> stateful st1 = stateful st" if "stateful_check cc b st = (st1, x)" for cc b st1 x
      using s [of cc b st] that by simp
    then show ?thesis
      using Decompress by (simp add: mppe_decompress_def bogon_def Let_def u d split: prod.splits option.splits)
  qed (simp_all add: mppe_compress_def mppe_comp_reset_def mppe_decomp_reset_def Let_def split_beta)
  then show ?thesis using assms mppe_do_ok [of st m] by (simp add: strong_def)
qed

lemma ccp_do_inv:
  assumes "ccp_inv f"
  shows "ccp_inv (ccp_do base a f)"
proof (cases a)
  case Ccp_protrej
  then show ?thesis using assms by (simp add: ccp_do_def ccp_protrej_def Let_def ccp_inv_fsm ccp_inv_set ccp_inv_call)
next
  case (Ccp_input p)
  then show ?thesis
    using assms by (simp add: ccp_do_def ccp_input_def Let_def ccp_inv_fsm ccp_close_inv ccp_inv_call)
next
  case Ccp_resetreq
  then show ?thesis
    using assms by (auto simp: ccp_do_def ccp_resetrequest_def Let_def intro!: ccp_inv_on_pcb)
next
  case Ccp_racktimer
  then show ?thesis
    using assms by (auto simp: ccp_do_def ccp_rack_timeout_def Let_def intro!: ccp_inv_on_pcb)
next
  case (Ccp_send alloc copied packet protocol)
  have "ccp_inv (on_pcb (\<lambda>pcb. pcb\<lparr>mppe_comp := mppe_do m (mppe_comp pcb)\<rparr>) f)"
    if "ccp_transmit_method (f_pcb f) = CI_MPPE" for m
  proof -
    have st: "strong (mppe_comp (f_pcb f))" "f_state f = PPP_FSM_OPENED"
      using that assms by (auto simp: ccp_inv_def ccp_J_def ccp_D_def)
    note st' = mppe_strong_do [OF st(1), of m]
    show ?thesis
      using assms st st' strong_keyable [OF st'] unfolding ccp_inv_def ccp_J_def ccp_A_def by (simp add: that) blast
  qed
  then show ?thesis using assms Ccp_send by (simp add: ccp_do_def del: mppe_do.simps)
next
  case (Ccp_recv pb)
  have "ccp_inv (on_pcb (\<lambda>pcb. pcb\<lparr>mppe_decomp := mppe_do m (mppe_decomp pcb)\<rparr>) f)"
    if "ccp_receive_method (f_pcb f) = CI_MPPE" for m
  proof -
    have "strong (mppe_decomp (f_pcb f))" using that assms by (auto simp: ccp_inv_def ccp_J_def)
    from mppe_strong_do [OF this] show ?thesis using assms by (auto simp: ccp_inv_def decomp_J)
  qed
  then show ?thesis using assms Ccp_recv by (simp add: ccp_do_def del: mppe_do.simps)
qed (use assms in \<open>simp_all add: ccp_do_def ccp_lowerup_def ccp_lowerdown_def ccp_inv_fsm ccp_close_inv ccp_open_inv\<close>)

lemma ccp_reach_inv: "ccp_reach f0 f \<Longrightarrow> ccp_inv f0 \<Longrightarrow> ccp_inv f"
  by (induction rule: ccp_reach.induct) (auto intro: ccp_do_inv)

lemma fresh_inv: "fresh_pcb (f_pcb f) \<Longrightarrow> ccp_inv (ccp_init base f)"
  by (simp add: ccp_init_def fsm_init_def ccp_inv_def ccp_J_def ccp_D_def fresh_pcb_def zero_options_def)

section \<open>Properties\<close>

text \<open>C13: under the engine's settings CCP never switches to weak encryption: in every run from a fresh control block, with
  any packets from the peer, timeouts, calls of the link layer and traffic, the transmit and receive methods are
  \<open>none\<close> or MPPE; when a direction uses MPPE its state holds a full 128-bit key in stateless mode, and the
  transmit direction does so only while the automaton is \<open>OPENED\<close> and when the keys come from exactly one MS-CHAP
  exchange, or LCP has been told to close the link.\<close>

theorem ccp_only_strong_encryption:
  assumes "ccp_reach (ccp_init base f0) f" and "fresh_pcb (f_pcb f0)"
  shows "ccp_transmit_method (f_pcb f) \<in> {0, CI_MPPE} \<and> ccp_receive_method (f_pcb f) \<in> {0, CI_MPPE}
    \<and> (ccp_receive_method (f_pcb f) = CI_MPPE \<longrightarrow> strong (mppe_decomp (f_pcb f)))
    \<and> (ccp_transmit_method (f_pcb f) = CI_MPPE \<longrightarrow> f_state f = PPP_FSM_OPENED \<and> strong (mppe_comp (f_pcb f))
         \<and> (mppe_keys_set (f_pcb f) \<and> mschap_auths (auth_done (f_pcb f)) = 1
            \<or> (\<exists>r. Close_lcp r \<in> set (pcb_calls (f_pcb f)))))"
proof -
  have i: "ccp_inv f" using ccp_reach_inv [OF assms(1) fresh_inv [OF assms(2)]] .
  then have "ccp_J (f_pcb f)" by (simp add: ccp_inv_def)
  moreover have "f_state f = PPP_FSM_OPENED" if "ccp_transmit_method (f_pcb f) = CI_MPPE"
    using i that by (auto simp: ccp_inv_def ccp_D_def)
  ultimately show ?thesis unfolding ccp_J_def ready_def by blast
qed

section \<open>An honest peer\<close>

lemma req_128:
  assumes "mppe_opts (ccp_allowoptions pcb) = MPPE_OPT_128" "keyable (mppe_comp pcb)" "netif_mtu pcb \<noteq> 0"
  shows "ccp_req_option (pcb, rej) (mppe_ci MPPE_OPT_128) =
    (CONFACK, mppe_ci MPPE_OPT_128,
      ((set_his_mppe MPPE_OPT_128 pcb)\<lparr>mppe_comp := fst (mppe_init MPPE_OPT_128 (mppe_comp pcb)),
                                       netif_mtu := netif_mtu pcb - MPPE_PAD\<rparr>, False))"
proof -
  let ?p = "mppe_ci MPPE_OPT_128"
  have "MPPE_OPT_128 AND 7 = MPPE_OPT_128" by (simp add: MPPE_OPT_128_def)
  then have m: "MPPE_CI_TO_OPTS (drop 2 ?p) = MPPE_OPT_128"
    using CI_TO_OPTS_inverse [of MPPE_OPT_128] by (simp add: mppe_ci_def)
  have s: "supported_bits MPPE_OPT_128 = (CONFACK, MPPE_OPT_128)"
    by (simp add: supported_bits_def MPPE_OPT_UNSUPPORTED_def MPPE_OPT_UNKNOWN_def opt_bits)
  have t: "mppe_strength MPPE_OPT_128 MPPE_OPT_128 CONFACK = Some (CONFACK, MPPE_OPT_128)" by (simp add: mppe_strength_def)
  have l: "length ?p = CILEN_MPPE" "?p ! 0 = CI_MPPE" "take 2 ?p @ MPPE_OPTS_TO_CI MPPE_OPT_128 = ?p"
    by (simp_all add: mppe_ci_def MPPE_OPTS_TO_CI_def CILEN_MPPE_def)
  show ?thesis
    using assms m s t l init_pcb(1) [of "set_his_mppe MPPE_OPT_128 pcb"]
    by (simp add: ccp_req_option_def accept_mppe_def Let_def)
qed

lemma reqci_128:
  assumes "mppe_opts (ccp_allowoptions (f_pcb f)) = MPPE_OPT_128" "keyable (mppe_comp (f_pcb f))" "netif_mtu (f_pcb f) \<noteq> 0"
  shows "ccp_reqci f (mppe_ci MPPE_OPT_128) dn = ((CONFACK, mppe_ci MPPE_OPT_128),
    f\<lparr>f_pcb := (f_pcb f)\<lparr>ccp_hisoptions := \<lparr>mppe_opts = MPPE_OPT_128, cmethod = CI_MPPE\<rparr>,
                        mppe_comp := fst (mppe_init MPPE_OPT_128 (mppe_comp (f_pcb f))),
                        netif_mtu := netif_mtu (f_pcb f) - MPPE_PAD\<rparr>\<rparr>)"
proof -
  let ?p = "mppe_ci MPPE_OPT_128"
  let ?pcb = "(f_pcb f)\<lparr>ccp_hisoptions := \<lparr>mppe_opts = 0, cmethod = (if ?p \<noteq> [] then ?p ! 0 else 0)\<rparr>\<rparr>"
  let ?st = "((set_his_mppe MPPE_OPT_128 ?pcb)\<lparr>mppe_comp := fst (mppe_init MPPE_OPT_128 (mppe_comp (f_pcb f))),
                                       netif_mtu := netif_mtu (f_pcb f) - MPPE_PAD\<rparr>, False)"
  have l: "length ?p = 6" "?p ! 1 = 6" "?p ! 0 = CI_MPPE" "?p \<noteq> []"
    by (simp_all add: mppe_ci_def MPPE_OPTS_TO_CI_def CILEN_MPPE_def)
  have r: "ccp_req_option (?pcb, True) ?p = (CONFACK, ?p, ?st)" using req_128 [of ?pcb True] assms by simp
  have fr: "judge_front ccp_req_option dn (?pcb, True) ?p = (CONFACK, ?p, 6, ?st)"
    using l r by (simp add: judge_front_def bad_option_def Let_def fsm_codes)
  have m: "memcpy_at 0 ?p ?p = ?p" by (simp add: memcpy_at_def)
  have "opt_scan ccp_req_option dn (?pcb, True) ?p 0 6 CONFACK 0 = (CONFACK, ?p, 0, ?st)"
    using l fr m by (subst opt_scan.simps) (simp add: opt_scan.simps [of _ _ _ _ 6 0])
  then show ?thesis
    using l by (simp add: ccp_reqci_def Let_def fsm_codes set_his_mppe_def)
qed

text \<open>every Configure-Request for 128-bit encryption that is acknowledged takes another 4 octets off the interface MTU, although
  one encrypted packet grows by 4 octets once: after \<open>n\<close> acknowledged requests the MTU is \<open>4 * n\<close> lower, until
  \<open>lcp_up\<close> sets it anew.\<close>

theorem ccp_mtu_shrinks:
  assumes "mppe_opts (ccp_allowoptions (f_pcb f)) = MPPE_OPT_128" and "keyable (mppe_comp (f_pcb f))"
    and "4 * n \<le> unat (netif_mtu (f_pcb f))"
  shows "netif_mtu (f_pcb (((\<lambda>g. snd (ccp_reqci g (mppe_ci MPPE_OPT_128) dn)) ^^ n) f)) = netif_mtu (f_pcb f) - of_nat (4 * n)"
proof -
  let ?r = "\<lambda>g. snd (ccp_reqci g (mppe_ci MPPE_OPT_128) dn)"
  have "netif_mtu (f_pcb ((?r ^^ n) f)) = netif_mtu (f_pcb f) - of_nat (4 * n)
    \<and> mppe_opts (ccp_allowoptions (f_pcb ((?r ^^ n) f))) = MPPE_OPT_128 \<and> keyable (mppe_comp (f_pcb ((?r ^^ n) f)))"
    if "4 * n \<le> unat (netif_mtu (f_pcb f))" for n
    using that
  proof (induction n)
    case (Suc n)
    let ?g = "(?r ^^ n) f"
    have IH: "netif_mtu (f_pcb ?g) = netif_mtu (f_pcb f) - of_nat (4 * n)"
      "mppe_opts (ccp_allowoptions (f_pcb ?g)) = MPPE_OPT_128" "keyable (mppe_comp (f_pcb ?g))"
      using Suc by simp_all
    have u: "unat (of_nat k :: u16) = k" if "k < 65536" for k using that by (simp add: unat_of_nat)
    have "unat (of_nat (4 * n) :: u16) = 4 * n"
      using Suc.prems unsigned_less [of "netif_mtu (f_pcb f)", where ?'a = nat] by (intro u) simp
    then have "netif_mtu (f_pcb ?g) \<noteq> 0" using IH(1) Suc.prems by auto
    from reqci_128 [OF IH(2,3) this, of dn] IH strong_keyable [OF init_strong(1) [OF IH(3)]]
    show ?case by (simp add: MPPE_PAD_def)
  qed (use assms in simp)
  then show ?thesis using assms(3) by blast
qed

lemma f_pcb_prim [simp]:
  "f_pcb (note_event e f) = f_pcb f" "f_pcb (TIMEOUT f) = f_pcb f" "f_pcb (UNTIMEOUT f) = f_pcb f"
  "f_pcb (goto s f) = f_pcb f" "f_pcb (fsm_sdata env code i d f) = f_pcb f"
  by (simp_all add: note_event_def TIMEOUT_def UNTIMEOUT_def goto_def fsm_sdata_def Let_def)

lemma f_reqid_prim [simp]:
  "f_reqid (note_event e f) = f_reqid f" "f_reqid (TIMEOUT f) = f_reqid f" "f_reqid (UNTIMEOUT f) = f_reqid f"
  "f_reqid (goto s f) = f_reqid f" "f_reqid (fsm_sdata env code i d f) = f_reqid f"
  "f_seen_ack (note_event e f) = f_seen_ack f" "f_seen_ack (TIMEOUT f) = f_seen_ack f" "f_seen_ack (UNTIMEOUT f) = f_seen_ack f"
  "f_seen_ack (goto s f) = f_seen_ack f" "f_seen_ack (fsm_sdata env code i d f) = f_seen_ack f"
  by (simp_all add: note_event_def TIMEOUT_def UNTIMEOUT_def goto_def fsm_sdata_def Let_def)

definition can_encrypt :: "ppp_pcb \<Rightarrow> bool" where
  "can_encrypt pcb \<longleftrightarrow> fresh_pcb pcb \<and> mppe_keys_set pcb \<and> mschap_auths (auth_done pcb) = 1 \<and> netif_mtu pcb \<noteq> 0"

definition ccp_packet :: "u8 \<Rightarrow> u8 \<Rightarrow> octets" where
  "ccp_packet code i = [code, i, 0, 10] @ mppe_ci MPPE_OPT_128"

lemma ccp_packet_input:
  assumes "f_state f \<noteq> PPP_FSM_INITIAL" "f_state f \<noteq> PPP_FSM_STARTING"
  shows "fsm_input env (ccp_packet code i) f = fsm_dispatch env code i (mppe_ci MPPE_OPT_128) (ccp_packet code i) f"
  using assms by (simp add: fsm_input_def ccp_packet_def get_short_def HEADERLEN_def mppe_ci_def MPPE_OPTS_TO_CI_def Let_def)

text \<open>Our own request, sent when CCP is opened and the link comes up.\<close>

lemma ccp_table:
  "cb_resetci (ccp_callbacks base) = Some ccp_resetci" "cb_cilen (ccp_callbacks base) = Some ccp_cilen"
  "cb_addci (ccp_callbacks base) = Some ccp_addci" "max_conf_req_transmits (ccp_callbacks base) = max_conf_req_transmits base"
  "pbuf_ok (ccp_callbacks base) = pbuf_ok base" "peer_mru (ccp_callbacks base) = peer_mru base"
  by (simp_all add: ccp_callbacks_def)

lemma ccp_sconfreq:
  assumes "ccp_J (f_pcb g)" "pbuf_ok base" "peer_mru base \<ge> 10" "\<not> negotiating (f_state g)"
  defines "h \<equiv> fsm_sconfreq (ccp_callbacks base) False g"
  shows "\<not> f_seen_ack h" "mppe_opts (ccp_gotoptions (f_pcb h)) = MPPE_OPT_128"
    "cmethod (ccp_gotoptions (f_pcb h)) = CI_MPPE" "mppe_opts (ccp_allowoptions (f_pcb h)) = MPPE_OPT_128"
    "netif_mtu (f_pcb h) = netif_mtu (f_pcb g)" "pcb_calls (f_pcb h) = pcb_calls (f_pcb g) @ not_available (f_pcb g)"
proof -
  let ?g = "call_back (Some ccp_resetci) Resetci g"
  let ?f3 = "?g\<lparr>f_nakloops := 0, f_rnakloops := 0, f_retransmits := max_conf_req_transmits base,
       f_id := f_id ?g + 1, f_reqid := f_id ?g + 1, f_seen_ack := False\<rparr>"
  have j: "engine_settings (f_pcb g)" "keyable (mppe_comp (f_pcb g))" "keyable (mppe_decomp (f_pcb g))"
    using assms(1) by (simp_all add: ccp_J_def)
  note r = resetci_engine [OF j(1)]
  have p: "f_pcb ?f3 = resetci_pcb (f_pcb g)" by (simp add: call_back_def ccp_resetci_def)
  have a: "\<exists>st. snd (ccp_addci f n) = f\<lparr>f_pcb := (f_pcb f)\<lparr>mppe_decomp := st,
        ccp_gotoptions := (ccp_gotoptions (f_pcb f))\<lparr>cmethod := CI_MPPE\<rparr>\<rparr>\<rparr>"
    if "mppe_opts (ccp_gotoptions (f_pcb f)) = MPPE_OPT_128" "keyable (mppe_comp (f_pcb f))" "keyable (mppe_decomp (f_pcb f))" for f n
    using that by (auto simp: ccp_addci_def Let_def on_pcb_def init_pcb mppe_ci_def)
  have n: "own_cilen (ccp_callbacks base) ?f3 = (CILEN_MPPE, ?f3)" "CILEN_MPPE \<noteq> 0"
    using assms(3) p r by (simp_all add: own_cilen_def ccp_table ccp_cilen_def CILEN_MPPE_def HEADERLEN_def)
  have h: "f_pcb h = f_pcb (snd (ccp_addci ?f3 CILEN_MPPE))" "f_seen_ack h = f_seen_ack (snd (ccp_addci ?f3 CILEN_MPPE))"
    using n assms(2,4) by (simp_all add: h_def fsm_sconfreq_def own_ci_def ccp_table Let_def split_beta)
  from a [of ?f3 CILEN_MPPE] p r j obtain st where
    "snd (ccp_addci ?f3 CILEN_MPPE) = ?f3\<lparr>f_pcb := (f_pcb ?f3)\<lparr>mppe_decomp := st,
        ccp_gotoptions := (ccp_gotoptions (f_pcb ?f3))\<lparr>cmethod := CI_MPPE\<rparr>\<rparr>\<rparr>" by auto
  with h p r show "\<not> f_seen_ack h" "mppe_opts (ccp_gotoptions (f_pcb h)) = MPPE_OPT_128"
    "cmethod (ccp_gotoptions (f_pcb h)) = CI_MPPE" "mppe_opts (ccp_allowoptions (f_pcb h)) = MPPE_OPT_128"
    "netif_mtu (f_pcb h) = netif_mtu (f_pcb g)" "pcb_calls (f_pcb h) = pcb_calls (f_pcb g) @ not_available (f_pcb g)"
    by simp_all
qed

lemma ccp_request:
  assumes "can_encrypt (f_pcb f0)" "pbuf_ok base" "peer_mru base \<ge> 10"
  defines "f1 \<equiv> ccp_do base Ccp_lowerup (ccp_do base Ccp_open (ccp_init base f0))"
  shows "f_state f1 = PPP_FSM_REQSENT" "\<not> f_seen_ack f1" "mppe_opts (ccp_gotoptions (f_pcb f1)) = MPPE_OPT_128"
    "cmethod (ccp_gotoptions (f_pcb f1)) = CI_MPPE" "mppe_opts (ccp_allowoptions (f_pcb f1)) = MPPE_OPT_128"
    "netif_mtu (f_pcb f1) = netif_mtu (f_pcb f0)" "pcb_calls (f_pcb f1) = pcb_calls (f_pcb f0)"
proof -
  let ?o = "ccp_do base Ccp_open (ccp_init base f0)"
  have e: "engine_settings (f_pcb f0)" "ccp_inv ?o"
    using assms(1) fresh_inv [of f0 base] by (simp_all add: can_encrypt_def fresh_pcb_def ccp_do_inv)
  have e': "engine_settings (ccp_set x y 0 0 (f_pcb f0))" for x y using e(1) by (simp add: ccp_set_def)
  have na: "not_available (f_pcb f0) = []" using assms(1) by (simp add: can_encrypt_def not_available_def)
  have o: "f_state ?o = PPP_FSM_STARTING" "f_flags ?o = 0" "netif_mtu (f_pcb ?o) = netif_mtu (f_pcb f0)"
      "pcb_calls (f_pcb ?o) = pcb_calls (f_pcb f0)" "not_available (f_pcb ?o) = []"
    using resetci_engine [OF e'] na
    by (simp_all add: ccp_do_def ccp_init_def fsm_init_def ccp_open_def ccp_resetci_def on_pcb_def Let_def fsm_open_def
        ccp_callbacks_def call_back_def goto_def ccp_anycompress_def ccp_set_def
        not_available_def split: if_splits)
  have f1: "f1 = goto PPP_FSM_REQSENT (fsm_sconfreq (ccp_callbacks base) False ?o)"
    using o by (simp add: f1_def ccp_do_def [of _ Ccp_lowerup] ccp_lowerup_def fsm_lowerup_def)
  have J: "ccp_J (f_pcb ?o)" using e(2) by (simp add: ccp_inv_def)
  show "f_state f1 = PPP_FSM_REQSENT" "\<not> f_seen_ack f1" "mppe_opts (ccp_gotoptions (f_pcb f1)) = MPPE_OPT_128"
    "cmethod (ccp_gotoptions (f_pcb f1)) = CI_MPPE" "mppe_opts (ccp_allowoptions (f_pcb f1)) = MPPE_OPT_128"
    "netif_mtu (f_pcb f1) = netif_mtu (f_pcb f0)" "pcb_calls (f_pcb f1) = pcb_calls (f_pcb f0)"
    using ccp_sconfreq [OF J assms(2,3)] o by (simp_all add: f1 negotiating_def)
qed

text \<open>The two packets of an honest peer, from the state in which our request is out.\<close>

lemma ccp_honest_from:
  assumes i1: "ccp_inv f1" and nz: "netif_mtu (f_pcb f1) \<noteq> 0"
    and r: "f_state f1 = PPP_FSM_REQSENT" "\<not> f_seen_ack f1" "mppe_opts (ccp_gotoptions (f_pcb f1)) = MPPE_OPT_128"
      "cmethod (ccp_gotoptions (f_pcb f1)) = CI_MPPE" "mppe_opts (ccp_allowoptions (f_pcb f1)) = MPPE_OPT_128"
  shows "let f2 = ccp_do base (Ccp_input (ccp_packet CONFREQ i)) f1;
             f3 = ccp_do base (Ccp_input (ccp_packet CONFACK (f_reqid f2))) f2
         in f_state f3 = PPP_FSM_OPENED \<and> ccp_transmit_method (f_pcb f3) = CI_MPPE \<and> ccp_receive_method (f_pcb f3) = CI_MPPE
            \<and> pcb_calls (f_pcb f2) = pcb_calls (f_pcb f1) \<and> pcb_calls (f_pcb f3) = pcb_calls (f_pcb f1) @ [Continue_networks]"
proof -
  let ?c = "ccp_callbacks base"
  let ?f2 = "ccp_do base (Ccp_input (ccp_packet CONFREQ i)) f1"
  from i1 have k: "keyable (mppe_comp (f_pcb f1))" by (simp add: ccp_inv_def ccp_J_def)
  have p0: "ccp_packet CONFREQ i ! 0 = CONFREQ" "ccp_packet CONFACK j ! 0 = CONFACK" for j by (simp_all add: ccp_packet_def)
  have f2: "?f2 = fsm_rconfreq ?c i (mppe_ci MPPE_OPT_128) f1"
    using r(1) p0 ccp_packet_input [of f1 ?c CONFREQ i]
    by (simp add: ccp_do_def [of base "Ccp_input _"] ccp_input_def Let_def fsm_dispatch_def fsm_codes)
  obtain x where x: "reqci_answer ?c (mppe_ci MPPE_OPT_128) f1 = ((CONFACK, mppe_ci MPPE_OPT_128), x)"
    "x = f1\<lparr>f_pcb := (f_pcb f1)\<lparr>ccp_hisoptions := \<lparr>mppe_opts = MPPE_OPT_128, cmethod = CI_MPPE\<rparr>,
                        mppe_comp := fst (mppe_init MPPE_OPT_128 (mppe_comp (f_pcb f1))),
                        netif_mtu := netif_mtu (f_pcb f1) - MPPE_PAD\<rparr>\<rparr>"
    using reqci_128 [OF r(5) k nz] by (simp add: reqci_answer_def ccp_callbacks_def)
  have f2': "?f2 = (goto PPP_FSM_ACKSENT (fsm_sdata ?c CONFACK i (mppe_ci MPPE_OPT_128) x))\<lparr>f_nakloops := 0\<rparr>"
    using r(1) x by (simp add: f2 fsm_rconfreq_def before_answer_def answer_confreq_def Let_def)
  have s2: "f_state ?f2 = PPP_FSM_ACKSENT" "\<not> f_seen_ack ?f2" "f_pcb ?f2 = f_pcb x"
    using r(2) x(2) by (simp_all add: f2')
  have ack: "ack_ok ?c (mppe_ci MPPE_OPT_128) ?f2"
    using r(3) s2(3) x(2)
    by (simp add: ack_ok_def ccp_callbacks_def ccp_ackci_def) (simp add: mppe_ci_def MPPE_OPTS_TO_CI_def CILEN_MPPE_def)
  let ?f3 = "ccp_do base (Ccp_input (ccp_packet CONFACK (f_reqid ?f2))) ?f2"
  have f3: "?f3 = fsm_rconfack ?c (f_reqid ?f2) (mppe_ci MPPE_OPT_128) ?f2"
    using s2(1) p0(2) ccp_packet_input [of ?f2 ?c CONFACK "f_reqid ?f2"]
    by (simp add: ccp_do_def [of base "Ccp_input _"] ccp_input_def Let_def fsm_dispatch_def fsm_codes del: f_reqid_prim)
  let ?y = "note_event Up ((goto PPP_FSM_OPENED (UNTIMEOUT (?f2\<lparr>f_seen_ack := True, f_rnakloops := 0\<rparr>)))
      \<lparr>f_retransmits := max_conf_req_transmits ?c\<rparr>)"
  have "cb_up ?c = Some ccp_up" by (simp add: ccp_callbacks_def)
  then have y: "f_pcb ?y = f_pcb x" "f_state ?y = PPP_FSM_OPENED" "?f3 = ccp_up ?y"
    using s2 ack by (simp_all add: f3 fsm_rconfack_def call_back_def Let_def)
  show ?thesis
    using y x(2) r(3,4) s2(3) by (simp add: Let_def ccp_up_def ccp_set_def call_def)
qed

lemma ccp_honest_run:
  assumes "can_encrypt (f_pcb f0)" and "pbuf_ok base" and "peer_mru base \<ge> 10" and "pcb_calls (f_pcb f0) = []"
  shows "let f1 = ccp_do base Ccp_lowerup (ccp_do base Ccp_open (ccp_init base f0));
             f2 = ccp_do base (Ccp_input (ccp_packet CONFREQ i)) f1;
             f3 = ccp_do base (Ccp_input (ccp_packet CONFACK (f_reqid f2))) f2
         in f_state f3 = PPP_FSM_OPENED \<and> ccp_transmit_method (f_pcb f3) = CI_MPPE
            \<and> ccp_receive_method (f_pcb f3) = CI_MPPE \<and> pcb_calls (f_pcb f3) = [Continue_networks]"
proof -
  let ?f1 = "ccp_do base Ccp_lowerup (ccp_do base Ccp_open (ccp_init base f0))"
  note r = ccp_request [OF assms(1-3)]
  have nz: "netif_mtu (f_pcb ?f1) \<noteq> 0" using r(6) assms(1) by (simp add: can_encrypt_def)
  have i1: "ccp_inv ?f1" using assms(1) fresh_inv by (intro ccp_do_inv) (simp add: can_encrypt_def)
  show ?thesis using ccp_honest_from [OF i1 nz r(1-5), of base i] r(7) assms(4) by (simp add: Let_def)
qed

section \<open>A concrete link\<close>

definition demo_pcb :: ppp_pcb where
  "demo_pcb = ppp_set_mppe (PPP_MPPE_ENABLE OR PPP_MPPE_REFUSE_40)
     \<lparr>require_mppe = False, refuse_mppe_stateful = False, refuse_mppe_40 = False, refuse_mppe_128 = False,
      auth_done = CHAP_MS2_WITHPEER, mppe_keys_set = True, lcp_state = PPP_FSM_OPENED, if4_up = False, vj_enabled = False,
      ccp_wantoptions = zero_options, ccp_gotoptions = zero_options, ccp_allowoptions = zero_options,
      ccp_hisoptions = zero_options, ccp_all_rejected = False, ccp_localstate = 0, ccp_receive_method = 0,
      ccp_transmit_method = 0, mppe_comp = blank_mppe, mppe_decomp = blank_mppe, netif_mtu = 1500, rack_timers = 0,
      pcb_calls = []\<rparr>"

definition demo_base :: "ccp_fsm fsm_env" where
  "demo_base = \<lparr>max_conf_req_transmits = 10, max_term_transmits = 2, max_nak_loops = 5, peer_mru = 1500, pbuf_ok = True,
     cb_resetci = None, cb_cilen = None, cb_addci = None, cb_ackci = None, cb_nakci = None, cb_rejci = None,
     cb_reqci = None, cb_up = None, cb_down = None, cb_starting = None, cb_finished = None, cb_retransmit = None,
     cb_extcode = None\<rparr>"

definition demo_ccp :: ccp_fsm where
  "demo_ccp = fsm.extend demo_fsm (pfsm.fields demo_pcb)"

lemma demo_pcb_ok: "can_encrypt demo_pcb" "pcb_calls demo_pcb = []"
proof -
  have "mschap_auths CHAP_MS2_WITHPEER = 1"
    by (simp add: mschap_auths_def CHAP_MS_WITHPEER_def CHAP_MS_PEER_def CHAP_MS2_WITHPEER_def CHAP_MS2_PEER_def
        count_bits.simps drop_bit_eq_div)
  then show "can_encrypt demo_pcb" "pcb_calls demo_pcb = []"
    using engine_sets_mppe
    by (simp_all add: can_encrypt_def fresh_pcb_def demo_pcb_def keyable_def blank_mppe_def, simp_all add: ppp_set_mppe_def)
qed

lemma demo_ccp_pcb [simp]: "f_pcb demo_ccp = demo_pcb"
  by (simp add: demo_ccp_def fsm.extend_def pfsm.fields_def)

text \<open>an honest peer gets an encrypted link: after CCP is opened and the link is up, a request for 128-bit MPPE and an
  acknowledgement of our request, in this order, take the automaton to \<open>OPENED\<close> with MPPE in both directions and
  let the network protocols continue; LCP is not asked to close.\<close>

theorem ccp_opens_encrypted:
  assumes "can_encrypt (f_pcb f0)" and "pbuf_ok base" and "peer_mru base \<ge> 10" and "pcb_calls (f_pcb f0) = []"
  shows "let f1 = ccp_do base Ccp_lowerup (ccp_do base Ccp_open (ccp_init base f0));
             f2 = ccp_do base (Ccp_input (ccp_packet CONFREQ i)) f1;
             f3 = ccp_do base (Ccp_input (ccp_packet CONFACK (f_reqid f2))) f2
         in f_state f3 = PPP_FSM_OPENED \<and> ccp_transmit_method (f_pcb f3) = CI_MPPE
            \<and> ccp_receive_method (f_pcb f3) = CI_MPPE \<and> pcb_calls (f_pcb f3) = [Continue_networks]"
  by (rule ccp_honest_run [OF assms])

theorem ccp_opens_encrypted_witness:
  "let f1 = ccp_do demo_base Ccp_lowerup (ccp_do demo_base Ccp_open (ccp_init demo_base demo_ccp));
       f2 = ccp_do demo_base (Ccp_input (ccp_packet CONFREQ 7)) f1;
       f3 = ccp_do demo_base (Ccp_input (ccp_packet CONFACK (f_reqid f2))) f2
   in f_state f3 = PPP_FSM_OPENED \<and> ccp_transmit_method (f_pcb f3) = CI_MPPE
      \<and> ccp_receive_method (f_pcb f3) = CI_MPPE \<and> pcb_calls (f_pcb f3) = [Continue_networks]"
  using ccp_opens_encrypted [of demo_ccp demo_base 7] demo_pcb_ok by (simp add: demo_base_def)

theorem ccp_only_strong_encryption_witness:
  "let f1 = ccp_do demo_base Ccp_lowerup (ccp_do demo_base Ccp_open (ccp_init demo_base demo_ccp));
       f2 = ccp_do demo_base (Ccp_input (ccp_packet CONFREQ 7)) f1;
       f3 = ccp_do demo_base (Ccp_input (ccp_packet CONFACK (f_reqid f2))) f2
   in ccp_transmit_method (f_pcb f3) = CI_MPPE \<and> strong (mppe_comp (f_pcb f3)) \<and> strong (mppe_decomp (f_pcb f3))"
proof -
  let ?f1 = "ccp_do demo_base Ccp_lowerup (ccp_do demo_base Ccp_open (ccp_init demo_base demo_ccp))"
  let ?f2 = "ccp_do demo_base (Ccp_input (ccp_packet CONFREQ 7)) ?f1"
  let ?f3 = "ccp_do demo_base (Ccp_input (ccp_packet CONFACK (f_reqid ?f2))) ?f2"
  have "ccp_reach (ccp_init demo_base demo_ccp) ?f3"
    by (intro ccp_reach.ccp_step ccp_reach.ccp_start)
  moreover have "fresh_pcb (f_pcb demo_ccp)" using demo_pcb_ok by (simp add: can_encrypt_def)
  ultimately show ?thesis
    using ccp_only_strong_encryption [of demo_base demo_ccp ?f3] ccp_honest_run [of demo_ccp demo_base 7] demo_pcb_ok
    by (simp add: demo_base_def Let_def)
qed

theorem ccp_mtu_shrinks_witness:
  "netif_mtu (f_pcb (((\<lambda>g. snd (ccp_reqci g (mppe_ci MPPE_OPT_128) False)) ^^ 3)
     (demo_ccp\<lparr>f_pcb := demo_pcb\<lparr>ccp_allowoptions := \<lparr>mppe_opts = MPPE_OPT_128, cmethod = 0\<rparr>\<rparr>\<rparr>))) = 1488"
  using ccp_mtu_shrinks [of "demo_ccp\<lparr>f_pcb := demo_pcb\<lparr>ccp_allowoptions := \<lparr>mppe_opts = MPPE_OPT_128, cmethod = 0\<rparr>\<rparr>\<rparr>" 3 False]
  by (simp add: demo_pcb_def ppp_set_mppe_def keyable_def blank_mppe_def PPP_MPPE_DISABLE_def PPP_MPPE_ENABLE_def
      PPP_MPPE_REFUSE_40_def)

text \<open>C25: the answer to a Configure-Request of CCP is exact: with a request judged option by option, the answer is a Reject if any
  option is rejected, else a Nak if any is nak'ed, else an Ack; a Reject or Nak carries exactly the options with that
  verdict, in order; an Ack repeats the request octet by octet; and once Naks are exhausted none is sent.\<close>

theorem ccp_reqci_reply:
  assumes "ccp_inv f" and "f_state f \<noteq> PPP_FSM_OPENED" and "ccp_reqci f p dont_nak = ((ret, out), f')"
  shows "\<exists>js pcb rej. judge_all ccp_req_option dont_nak
      ((f_pcb f)\<lparr>ccp_hisoptions := \<lparr>mppe_opts = 0, cmethod = (if p \<noteq> [] then p ! 0 else 0)\<rparr>\<rparr>, True) p = (js, (pcb, rej))
    \<and> ret = worst js \<and> (ret \<noteq> CONFACK \<longrightarrow> out = picked ret js) \<and> (ret = CONFACK \<longrightarrow> out = p)
    \<and> (dont_nak \<longrightarrow> ret \<noteq> CONFNAK)"
proof -
  have JD: "ccp_J (f_pcb f)" "ccp_D (f_pcb f)" using assms(1,2) by (simp_all add: ccp_inv_def)
  obtain js pcb rej where j: "judge_all ccp_req_option dont_nak
      ((f_pcb f)\<lparr>ccp_hisoptions := \<lparr>mppe_opts = 0, cmethod = (if p \<noteq> [] then p ! 0 else 0)\<rparr>\<rparr>, True) p = (js, (pcb, rej))"
    "ret = worst js" "out = (if ret = CONFACK then concat (map snd js) else picked ret js)"
    by (rule ccp_reqci_walk [OF assms(3)])
  have "dont_nak \<longrightarrow> ret \<noteq> CONFNAK" using j(2) judge_all_no_nak [OF j(1)] by (auto simp: worst_def fsm_codes split: if_splits)
  then show ?thesis using j reqci_J(3) [OF JD assms(3)] by auto
qed

theorem ccp_reqci_reply_witness:
  "\<exists>js pcb rej. judge_all ccp_req_option False
      ((f_pcb (ccp_init demo_base demo_ccp))\<lparr>ccp_hisoptions := \<lparr>mppe_opts = 0, cmethod = 21\<rparr>\<rparr>, True) [21, 3, 47] = (js, (pcb, rej))
    \<and> fst (fst (ccp_reqci (ccp_init demo_base demo_ccp) [21, 3, 47] False)) = worst js"
proof -
  let ?f = "ccp_init demo_base demo_ccp"
  obtain ret out f' where r: "ccp_reqci ?f [21, 3, 47] False = ((ret, out), f')" by (metis prod.exhaust)
  have i: "ccp_inv ?f" using demo_pcb_ok by (intro fresh_inv) (simp add: can_encrypt_def)
  have s: "f_state ?f \<noteq> PPP_FSM_OPENED" by (simp add: ccp_init_def fsm_init_def)
  from ccp_reqci_reply [OF i s r] r show ?thesis by auto
qed

end
