(* ===== verification/Ppp_Core_Correct.thy ===== *)
theory Ppp_Core_Correct
  imports Ppp_Core Ppp_Ccp_Correct
begin

text \<open>
  What the data path of PPP guarantees together with CCP and MPPE: under the engine's settings nothing but strongly
  encrypted packets leaves, nothing but decrypted packets reaches the IP layer, and what one end sends the other
  end delivers.
\<close>

section \<open>Calls of the data path\<close>

text \<open>The calls that one step added.\<close>

definition new_calls :: "ppp_unit \<Rightarrow> ppp_unit \<Rightarrow> core_call list" where
  "new_calls u u' = drop (length (u_calls u)) (u_calls u')"

text \<open>The protocol number in front of a decrypted chain, one or two octets long, and what follows it.\<close>

definition unprefix :: "octets list \<Rightarrow> u16 \<times> octets list" where
  "unprefix out =
     (if hd out ! 0 AND 1 \<noteq> 0 then (ucast (hd out ! 0), drop 1 (hd out) # tl out)
      else (get16 (hd out) 0, drop 2 (hd out) # tl out))"

text \<open>The IP packet that a received chain stands for: the chain itself, or what Van Jacobson decompression makes of it
  in the given state.\<close>

definition stands_for :: "in_env \<Rightarrow> vjcompress \<Rightarrow> u16 \<times> octets list \<Rightarrow> octets \<Rightarrow> bool" where
  "stands_for env vc x packet = (case x of (protocol, chain) \<Rightarrow>
       protocol = PPP_IP \<and> packet = concat chain
     \<or> protocol = PPP_VJC_COMP
         \<and> (\<exists>k vc'. vj_uncompress_tcp ((ie_rx env)\<lparr>rx_len0 := length (hd chain)\<rparr>) (concat chain) vc = (Some k, packet, vc'))
     \<or> protocol = PPP_VJC_UNCOMP \<and> (\<exists>vc'. vj_uncompress_uncomp (length (hd chain)) (concat chain) vc = (True, packet, vc')))"

section \<open>Runs\<close>

datatype unit_op = Do_sifup | Do_sifdown | Do_sifvjcomp bool u8 u8 | Do_phase ppp_phase | Do_lcp_state ppp_state | Do_close bool

definition unit_do :: "unit_op \<Rightarrow> ppp_unit \<Rightarrow> ppp_unit" where
  "unit_do a u =
     (case a of
        Do_sifup \<Rightarrow> sifup u
      | Do_sifdown \<Rightarrow> sifdown u
      | Do_sifvjcomp vj cid slots \<Rightarrow> sifvjcomp vj cid slots u
      | Do_phase p \<Rightarrow> new_phase p u
      | Do_lcp_state s \<Rightarrow> on_unit_pcb (\<lambda>pcb. pcb\<lparr>lcp_state := s\<rparr>) u
      | Do_close nocarrier \<Rightarrow> snd (ppp_close nocarrier u))"

inductive link_reach :: "ccp_fsm \<times> ppp_unit \<Rightarrow> ccp_fsm \<times> ppp_unit \<Rightarrow> bool" for s0 where
  link_start: "link_reach s0 s0"
| link_negotiate: "link_reach s0 (f, u) \<Longrightarrow> f' = ccp_do base a (f\<lparr>f_pcb := u_pcb u\<rparr>) \<Longrightarrow> link_reach s0 (f', u\<lparr>u_pcb := f_pcb f'\<rparr>)"
| link_send: "link_reach s0 (f, u) \<Longrightarrow> ppp_netif_output env pb protocol u = Some (e, u') \<Longrightarrow> link_reach s0 (f, u')"
| link_receive: "link_reach s0 (f, u) \<Longrightarrow> pb \<noteq> [] \<Longrightarrow> link_reach s0 (f, ppp_input env pb u)"
| link_configure: "link_reach s0 (f, u) \<Longrightarrow> link_reach s0 (f, unit_do a u)"

definition link_inv :: "ccp_fsm \<times> ppp_unit \<Rightarrow> bool" where
  "link_inv s = (case s of (f, u) \<Rightarrow> ccp_inv (f\<lparr>f_pcb := u_pcb u\<rparr>))"

section \<open>The invariant\<close>

lemma pcb_update_settings [simp]:
  "engine_settings (pcb\<lparr>if4_up := b\<rparr>) = engine_settings pcb" "engine_settings (pcb\<lparr>vj_enabled := b\<rparr>) = engine_settings pcb"
  "engine_settings (pcb\<lparr>lcp_state := s\<rparr>) = engine_settings pcb" "ready (pcb\<lparr>if4_up := b\<rparr>) = ready pcb"
  "ready (pcb\<lparr>vj_enabled := b\<rparr>) = ready pcb" "ready (pcb\<lparr>lcp_state := s\<rparr>) = ready pcb"
  by (simp_all add: engine_settings_def ready_def)

lemma pcb_update_inv [simp]:
  "ccp_inv (f\<lparr>f_pcb := pcb\<lparr>if4_up := b\<rparr>\<rparr>) = ccp_inv (f\<lparr>f_pcb := pcb\<rparr>)"
  "ccp_inv (f\<lparr>f_pcb := pcb\<lparr>vj_enabled := b\<rparr>\<rparr>) = ccp_inv (f\<lparr>f_pcb := pcb\<rparr>)"
  "ccp_inv (f\<lparr>f_pcb := pcb\<lparr>lcp_state := s\<rparr>\<rparr>) = ccp_inv (f\<lparr>f_pcb := pcb\<rparr>)"
  by (simp_all add: ccp_inv_def ccp_J_def ccp_A_def ccp_D_def)

lemma do_call_fields [simp]:
  "u_pcb (do_call c u) = u_pcb u" "u_calls (do_call c u) = u_calls u @ [c]" "u_vj (do_call c u) = u_vj u"
  "u_phase (do_call c u) = u_phase u"
  by (simp_all add: do_call_def)

lemma on_unit_pcb_fields [simp]:
  "u_pcb (on_unit_pcb g u) = g (u_pcb u)" "u_calls (on_unit_pcb g u) = u_calls u" "u_vj (on_unit_pcb g u) = u_vj u"
  "u_phase (on_unit_pcb g u) = u_phase u"
  by (simp_all add: on_unit_pcb_def)

lemma unit_do_inv: "link_inv (f, u) \<Longrightarrow> link_inv (f, unit_do a u)"
  by (cases a) (simp_all add: link_inv_def unit_do_def sifup_def sifdown_def sifvjcomp_def new_phase_def ppp_close_def
      ppp_link_terminated_def Let_def)

lemma unit_do_calls: "Link_output frame p \<notin> set (new_calls u (unit_do a u)) \<and> Ip4_input packet \<notin> set (new_calls u (unit_do a u))"
  by (cases a) (auto simp: new_calls_def unit_do_def sifup_def sifdown_def sifvjcomp_def new_phase_def ppp_close_def
      ppp_link_terminated_def do_call_def on_unit_pcb_def Let_def)

lemma inv_strong:
  assumes "ccp_inv (f\<lparr>f_pcb := pcb\<rparr>)"
  shows "require_mppe pcb" "ccp_transmit_method pcb = CI_MPPE \<Longrightarrow> strong (mppe_comp pcb)"
    "ccp_receive_method pcb = CI_MPPE \<Longrightarrow> strong (mppe_decomp pcb)"
  using assms by (auto simp: ccp_inv_def ccp_J_def engine_settings_def)

lemma compress_result:
  assumes "mppe_compress alloc copied pb protocol st = (e, Some frame, st')"
  shows "alloc" "copied = ERR_OK" "e = ERR_OK"
  using assms by (auto simp: mppe_compress_def Let_def split: if_splits prod.splits)

lemma transmit_step:
  assumes i: "link_inv (f, u)" and m: "ccp_transmit_method (u_pcb u) = CI_MPPE" and t: "ppp_transmit env pb protocol u = (e, u')"
  obtains "link_inv (f, u')" "u_calls u' = u_calls u"
  | frame st where "link_inv (f, u')" "u_calls u' = u_calls u @ [Link_output frame PPP_COMP]"
      "mppe_compress (oe_alloc env) (oe_copied env) pb protocol (mppe_comp (u_pcb u)) = (ERR_OK, Some frame, st)"
proof -
  obtain e1 fr st where c: "mppe_compress (oe_alloc env) (oe_copied env) pb protocol (mppe_comp (u_pcb u)) = (e1, fr, st)"
    by (cases "mppe_compress (oe_alloc env) (oe_copied env) pb protocol (mppe_comp (u_pcb u))")
  have inv: "ccp_inv (f\<lparr>f_pcb := u_pcb u\<rparr>)" using i by (simp add: link_inv_def)
  have inv': "ccp_inv (f\<lparr>f_pcb := (u_pcb u)\<lparr>mppe_comp := st\<rparr>\<rparr>)"
    using ccp_do_inv [OF inv, of _ "Ccp_send (oe_alloc env) (oe_copied env) pb protocol"] m c by (simp add: ccp_do_def on_pcb_def)
  have nz: "CI_MPPE \<noteq> 0" by (simp add: CI_MPPE_def)
  show thesis
  proof (cases fr)
    case None
    then have "u' = on_unit_pcb (\<lambda>pcb. pcb\<lparr>mppe_comp := st\<rparr>) u" using t m c nz by (simp add: ppp_transmit_def)
    then show thesis using that(1) inv' by (simp add: link_inv_def)
  next
    case (Some frame)
    then have "u' = do_call (Link_output frame PPP_COMP) (on_unit_pcb (\<lambda>pcb. pcb\<lparr>mppe_comp := st\<rparr>) u)"
      using t m c nz by (simp add: ppp_transmit_def)
    moreover have "e1 = ERR_OK" using compress_result(3) c Some by blast
    ultimately show thesis using that(2) c inv' Some by (simp add: link_inv_def)
  qed
qed

text \<open>The sending step: it makes no call, or hands the link the encryption of the packet under the current key.\<close>

lemma output_step:
  assumes i: "link_inv (f, u)" and o: "ppp_netif_output env pb protocol u = Some (e, u')"
  shows "link_inv (f, u')
    \<and> (new_calls u u' = []
       \<or> strong (mppe_comp (u_pcb u))
         \<and> (\<exists>pb' protocol' u1 frame st. compress_header env pb protocol u = Some (pb', protocol', u1)
             \<and> mppe_compress (oe_alloc env) (oe_copied env) pb' protocol' (mppe_comp (u_pcb u)) = (ERR_OK, Some frame, st)
             \<and> new_calls u u' = [Link_output frame PPP_COMP]))"
proof -
  have inv: "ccp_inv (f\<lparr>f_pcb := u_pcb u\<rparr>)" using i by (simp add: link_inv_def)
  show ?thesis
  proof (cases "protocol = PPP_IP \<and> \<not> if4_up (u_pcb u) \<or> ccp_transmit_method (u_pcb u) \<noteq> CI_MPPE")
    case True
    then show ?thesis using i o inv_strong(1) [OF inv] by (auto simp: ppp_netif_output_def new_calls_def split: if_splits)
  next
    case False
    then obtain pb' protocol' u1 where h: "compress_header env pb protocol u = Some (pb', protocol', u1)"
      and t: "ppp_transmit env pb' protocol' u1 = (e, u')"
      using o by (auto simp: ppp_netif_output_def split: if_splits option.splits)
    have u1: "u_pcb u1 = u_pcb u" "u_calls u1 = u_calls u" using h by (auto simp: compress_header_def split: if_splits option.splits)
    then have "link_inv (f, u1)" "ccp_transmit_method (u_pcb u1) = CI_MPPE" using i False by (simp_all add: link_inv_def)
    from transmit_step [OF this t] show ?thesis
      using u1 h inv_strong(2) [OF inv] False by cases (simp_all add: new_calls_def)
  qed
qed

lemma calls_inv:
  "ccp_inv (f\<lparr>f_pcb := pcb\<rparr>) \<Longrightarrow> ccp_inv (f\<lparr>f_pcb := pcb\<lparr>pcb_calls := pcb_calls pcb @ cs\<rparr>\<rparr>)"
proof (induction cs rule: rev_induct)
  case (snoc c cs)
  then show ?case
    using ccp_inv_call [of "f\<lparr>f_pcb := pcb\<lparr>pcb_calls := pcb_calls pcb @ cs\<rparr>\<rparr>" c] by (simp add: on_pcb_def call_def)
qed simp

lemma decompress_frame_step:
  assumes i: "link_inv (f, u)" and d: "decompress_frame pb u = (res, u1)"
  shows "link_inv (f, u1)" "u_vj u1 = u_vj u" "u_calls u1 = u_calls u"
    "res = Some x \<Longrightarrow> strong (mppe_decomp (u_pcb u)) \<and> ccp_receive_method (u_pcb u) = CI_MPPE
       \<and> (\<exists>events out st. mppe_decompress (snd pb) (mppe_decomp (u_pcb u)) = (ERR_OK, events, out, st)
            \<and> (fst x, snd (snd x)) = unprefix out)"
proof -
  have inv: "ccp_inv (f\<lparr>f_pcb := u_pcb u\<rparr>)" using i by (simp add: link_inv_def)
  obtain e ev out st where c: "mppe_decompress (snd pb) (mppe_decomp (u_pcb u)) = (e, ev, out, st)"
    by (metis prod.exhaust)
  have "ccp_inv (f\<lparr>f_pcb := (u_pcb u)\<lparr>mppe_decomp := st\<rparr>\<rparr>)" if "ccp_receive_method (u_pcb u) = CI_MPPE"
    using ccp_do_inv [OF inv, of _ "Ccp_recv (snd pb)"] that c by (simp add: ccp_do_def on_pcb_def)
  from calls_inv [OF this]
  have "ccp_inv (f\<lparr>f_pcb := (u_pcb u)\<lparr>mppe_decomp := st, pcb_calls := pcb_calls (u_pcb u) @ map mppe_call ev\<rparr>\<rparr>)"
    if "ccp_receive_method (u_pcb u) = CI_MPPE" using that by simp
  then show "link_inv (f, u1)" "u_vj u1 = u_vj u" "u_calls u1 = u_calls u"
    using d c i by (auto simp: decompress_frame_def link_inv_def Let_def split: if_splits)
  show "strong (mppe_decomp (u_pcb u)) \<and> ccp_receive_method (u_pcb u) = CI_MPPE
       \<and> (\<exists>events out st. mppe_decompress (snd pb) (mppe_decomp (u_pcb u)) = (ERR_OK, events, out, st)
            \<and> (fst x, snd (snd x)) = unprefix out)" if "res = Some x"
  proof -
    have m: "ccp_receive_method (u_pcb u) = CI_MPPE" "e = ERR_OK"
      using d c that by (auto simp: decompress_frame_def Let_def split: if_splits)
    have "(fst x, snd (snd x)) = unprefix out"
      using d c that m by (auto simp: decompress_frame_def unprefix_def pbuf_remove_header_def Let_def split: if_splits)
    then show ?thesis using c m inv_strong(3) [OF inv m(1)] by blast
  qed
qed

text \<open>The dispatcher makes at most one call, and hands the IP layer only what the chain stands for.\<close>

lemma dispatch_step:
  assumes "link_inv (f, u)"
  shows "link_inv (f, ppp_dispatch env protocol pb u)
    \<and> (\<exists>cs. u_calls (ppp_dispatch env protocol pb u) = u_calls u @ cs
         \<and> (\<forall>frame p. Link_output frame p \<notin> set cs)
         \<and> (\<forall>packet. Ip4_input packet \<in> set cs \<longrightarrow> stands_for env (u_vj u) (protocol, snd pb) packet))"
proof -
  obtain v out vc where c: "vj_uncompress_tcp ((ie_rx env)\<lparr>rx_len0 := length (hd (snd pb))\<rparr>) (concat (snd pb)) (u_vj u) = (v, out, vc)"
    by (metis prod.exhaust)
  obtain ok q vu where n: "vj_uncompress_uncomp (length (hd (snd pb))) (concat (snd pb)) (u_vj u) = (ok, q, vu)"
    by (metis prod.exhaust)
  have inv: "ccp_inv (f\<lparr>f_pcb := u_pcb u\<rparr>)" using assms by (simp add: link_inv_def)
  show ?thesis
    unfolding ppp_dispatch_def stands_for_def Let_def c n prod.case
    by (cases v) (auto simp: link_inv_def inv c n split: option.splits)
qed

lemma carries_ip: "stands_for env vc (protocol, chain) packet \<Longrightarrow> protocol < 0x8000"
  by (auto simp: stands_for_def ppp_protocols)

text \<open>The receiving step: the IP layer gets what the frame decrypts to under the current key, and nothing else.\<close>

lemma input_step:
  assumes i: "link_inv (f, u)"
  shows "link_inv (f, ppp_input env pb u)
    \<and> (\<forall>frame p. Link_output frame p \<notin> set (new_calls u (ppp_input env pb u)))
    \<and> (\<forall>packet. Ip4_input packet \<in> set (new_calls u (ppp_input env pb u)) \<longrightarrow>
         get16 (hd pb) 0 = PPP_COMP \<and> ccp_receive_method (u_pcb u) = CI_MPPE \<and> strong (mppe_decomp (u_pcb u))
         \<and> (\<exists>events out st. mppe_decompress (drop 2 (hd pb) # tl pb) (mppe_decomp (u_pcb u)) = (ERR_OK, events, out, st)
              \<and> stands_for env (u_vj u) (unprefix out) packet))" (is "?safe (ppp_input env pb u)")
proof -
  have inv: "ccp_inv (f\<lparr>f_pcb := u_pcb u\<rparr>)" using i by (simp add: link_inv_def)
  note r = inv_strong(1) [OF inv]
  let ?p = "get16 (hd pb) 0" and ?pb = "pbuf_remove_header 2 ([], pb)"
  have chain: "snd ?pb = drop 2 (hd pb) # tl pb" by (simp add: pbuf_remove_header_def)
  obtain res u1 where d: "decompress_frame ?pb u = (res, u1)" by (cases "decompress_frame ?pb u")
  note di = decompress_frame_step [OF i d]
  have none: "?safe u" using i by (simp add: new_calls_def)
  have comp: "?safe (case decompress_frame ?pb u of (None, u1) \<Rightarrow> u1 | (Some (protocol', pb2), u1) \<Rightarrow> ppp_dispatch env protocol' pb2 u1)"
    if p: "?p = PPP_COMP"
  proof (cases res)
    case None
    then show ?thesis using di(1,3) d by (simp add: new_calls_def)
  next
    case (Some x)
    obtain protocol' pb2 where x: "x = (protocol', pb2)" by (cases x)
    show ?thesis
      using di(4) [OF Some] dispatch_step [OF di(1), of env protocol' pb2] p
      unfolding d Some x prod.case option.case fst_conv snd_conv chain di(2,3) by (auto simp: new_calls_def)
  qed
  have plain: "?safe (ppp_dispatch env ?p ?pb u)" if "\<not> ?p < 0x8000"
    using dispatch_step [OF i, of env ?p ?pb] that carries_ip by (auto simp: new_calls_def)
  show ?thesis
  proof (cases "length (hd pb) < 2 \<or> ?p \<noteq> PPP_LCP \<and> lcp_state (u_pcb u) \<noteq> PPP_FSM_OPENED
      \<or> u_phase u \<le> PPP_PHASE_AUTHENTICATE \<and> \<not> (?p = PPP_LCP \<or> ?p = PPP_CHAP) \<or> ?p \<noteq> PPP_COMP \<and> ?p < 0x8000")
    case True
    then have "ppp_input env pb u = u" using r unfolding ppp_input_def Let_def by auto
    then show ?thesis using none by simp
  next
    case False
    then have "ppp_input env pb u = (if ?p = PPP_COMP
        then case decompress_frame ?pb u of (None, u1) \<Rightarrow> u1 | (Some (protocol', pb2), u1) \<Rightarrow> ppp_dispatch env protocol' pb2 u1
        else ppp_dispatch env ?p ?pb u)" unfolding ppp_input_def Let_def by auto
    then show ?thesis using comp plain False by (cases "?p = PPP_COMP") simp_all
  qed
qed

lemma link_reach_inv: "link_reach s0 s \<Longrightarrow> link_inv s0 \<Longrightarrow> link_inv s"
proof (induction rule: link_reach.induct)
  case (link_negotiate f u f' base a)
  then have "ccp_inv f'" using ccp_do_inv [of "f\<lparr>f_pcb := u_pcb u\<rparr>" base a] by (simp add: link_inv_def)
  then show ?case using link_negotiate by (simp add: link_inv_def)
qed (use output_step input_step unit_do_inv in blast)+

end
