(* ===== verification/Ppp_Tunnel.thy ===== *)
theory Ppp_Tunnel
  imports Ppp_Core_Correct
begin

text \<open>
  The tunnel from end to end: IP packets that enter one end of the PPP link, are compressed and encrypted there, and are
  decrypted and rebuilt at the other end.
\<close>

section \<open>A run of the tunnel\<close>

definition sent_frames :: "ppp_unit \<Rightarrow> ppp_unit \<Rightarrow> (octets \<times> u16) list" where
  "sent_frames s s' =
     List.map_filter (\<lambda>c. case c of Link_output frame protocol \<Rightarrow> Some (frame, protocol) | _ \<Rightarrow> None) (drop (length (u_calls s)) (u_calls s'))"

definition ip_packets :: "ppp_unit \<Rightarrow> octets list" where
  "ip_packets u = List.map_filter (\<lambda>c. case c of Ip4_input p \<Rightarrow> Some p | _ \<Rightarrow> None) (u_calls u)"

text \<open>Each packet with a flag that says whether its frame arrives, and the answers of the pbuf layers.\<close>

fun tunnel :: "(bool \<times> out_env \<times> in_env \<times> octets) list \<Rightarrow> ppp_unit \<Rightarrow> ppp_unit \<Rightarrow> ppp_unit option" where
  "tunnel [] s r = Some r"
| "tunnel ((arrives, oe, ie, p) # ps) s r =
     (case ppp_netif_output_ip4 oe p s of
        None \<Rightarrow> None
      | Some (e, s') \<Rightarrow>
          tunnel ps s' (if arrives then fold (\<lambda>(frame, protocol). ppp_input ie [hi8 protocol # lo8 protocol # frame]) (sent_frames s s') r
                        else r))"

definition sender_ready :: "ppp_unit \<Rightarrow> bool" where
  "sender_ready s \<longleftrightarrow> if4_up (u_pcb s) \<and> ccp_transmit_method (u_pcb s) = CI_MPPE"

definition receiver_ready :: "ppp_unit \<Rightarrow> bool" where
  "receiver_ready r \<longleftrightarrow> lcp_state (u_pcb r) = PPP_FSM_OPENED \<and> u_phase r > PPP_PHASE_AUTHENTICATE \<and> ccp_receive_method (u_pcb r) = CI_MPPE"

definition vj_ready :: "bool \<Rightarrow> ppp_unit \<Rightarrow> ppp_unit \<Rightarrow> bool" where
  "vj_ready on s r \<longleftrightarrow> vj_enabled (u_pcb s) = on \<and> vj_enabled (u_pcb r) = on \<and> (on \<longrightarrow> in_sync (u_vj s) (u_vj r))"

definition buffers_ok :: "out_env \<Rightarrow> in_env \<Rightarrow> bool" where
  "buffers_ok oe ie \<longleftrightarrow> oe_alloc oe \<and> oe_copied oe = ERR_OK
     \<and> (if rx_aligned (ie_rx ie) then rx_headroom (ie_rx ie) \<or> rx_prepend (ie_rx ie) else rx_realign (ie_rx ie))"

section \<open>One packet\<close>

lemma plain_frame_octets: "plain_frame protocol packet = hi8 protocol # lo8 protocol # packet"
  by (simp add: plain_frame_def hi8_def lo8_def)

lemma comp_octets: "get16 (hi8 p # lo8 p # xs) 0 = p"
  by (simp add: get16_def)

lemma vj_protocol_even: "hi8 (vj_protocol ty) AND 1 = 0"
  by (cases ty) (simp_all add: vj_protocol_def ppp_protocols hi8_def)

text \<open>The receiving end on an encrypted frame.\<close>

lemma receive_frame:
  assumes r: "receiver_ready r"
    and d: "mppe_decompress [frame] (mppe_decomp (u_pcb r)) = (ERR_OK, [], [plain_frame protocol packet], st)"
    and even: "hi8 protocol AND 1 = 0"
  shows "ppp_input ie [hi8 PPP_COMP # lo8 PPP_COMP # frame] r =
    ppp_dispatch ie protocol ([hi8 PPP_COMP, lo8 PPP_COMP] @ take MPPE_OVHD frame @ [hi8 protocol, lo8 protocol], [packet])
      (on_unit_pcb (\<lambda>pcb. pcb\<lparr>mppe_decomp := st\<rparr>) r)"
proof -
  have nl: "PPP_COMP \<noteq> PPP_LCP" by (simp add: ppp_protocols)
  have ph: "\<not> u_phase r \<le> PPP_PHASE_AUTHENTICATE" using r by (simp add: receiver_ready_def not_le)
  show ?thesis
    using r d even ph nl
    by (simp add: ppp_input_def Let_def comp_octets receiver_ready_def decompress_frame_def pbuf_remove_header_def
        plain_frame_octets on_unit_pcb_def)
qed

lemma dispatch_packet:
  assumes v: "vj_receive ((ie_rx ie)\<lparr>rx_len0 := length q\<rparr>) ty q (u_vj u) = (Some p, vr)" and e: "ty = TYPE_IP \<or> vj_enabled (u_pcb u)"
  shows "ppp_dispatch ie (vj_protocol ty) (hid, [q]) u = do_call (Ip4_input p) (u\<lparr>u_vj := vr\<rparr>)"
proof -
  have ne: "PPP_VJC_COMP \<noteq> PPP_IP" "PPP_VJC_UNCOMP \<noteq> PPP_IP" "PPP_VJC_UNCOMP \<noteq> PPP_VJC_COMP" by (simp_all add: ppp_protocols)
  show ?thesis
    using assms ne
    by (cases ty) (auto simp: vj_receive_def ppp_dispatch_def vj_protocol_def Let_def split: prod.splits if_splits option.splits)
qed

text \<open>The header compressor's choice, and that the other end undoes it.\<close>

lemma compress_header_step:
  assumes vj: "vj_ready on s r" and p: "on \<Longrightarrow> p ! 9 = IP_PROTO_TCP \<Longrightarrow> vj_segment p"
  obtains ty q vs where "compress_header oe p PPP_IP s = Some (q, vj_protocol ty, s\<lparr>u_vj := vs\<rparr>)" "ty = TYPE_IP \<or> on"
    "\<And>env. rx_ok q env \<Longrightarrow> \<exists>vr. vj_receive env ty q (u_vj r) = (Some p, vr) \<and> (on \<longrightarrow> in_sync vs vr)"
proof (cases on)
  case False
  then have "compress_header oe p PPP_IP s = Some (p, vj_protocol TYPE_IP, s\<lparr>u_vj := u_vj s\<rparr>)"
    using vj by (simp add: compress_header_def vj_ready_def vj_protocol_def)
  then show ?thesis by (rule that) (simp_all add: vj_receive_def False)
next
  case True
  then have y: "in_sync (u_vj s) (u_vj r)" "vj_enabled (u_pcb s)" using vj by (simp_all add: vj_ready_def)
  obtain ty q vs where c: "vj_compress_tcp (oe_clone oe) (oe_len0 oe) p (u_vj s) = Some (ty, q, vs)"
    and rc: "\<And>env. rx_ok q env \<Longrightarrow> \<exists>r'. vj_receive env ty q (u_vj r) = (Some p, r') \<and> in_sync vs r'"
    using vj_step [OF y(1) p [OF True]] by blast
  have "compress_header oe p PPP_IP s = Some (q, vj_protocol ty, s\<lparr>u_vj := vs\<rparr>)" using c y by (simp add: compress_header_def)
  then show ?thesis by (rule that) (use rc True in blast)+
qed

lemma sent_one [simp]: "sent_frames s (do_call (Link_output frame protocol) s') = [(frame, protocol)]" if "u_calls s' = u_calls s"
  using that by (simp add: sent_frames_def map_filter_def)

lemma ip_packets_simps [simp]:
  "ip_packets (do_call (Ip4_input p) u) = ip_packets u @ [p]" "ip_packets (u\<lparr>u_vj := v\<rparr>) = ip_packets u"
  "ip_packets (on_unit_pcb g u) = ip_packets u"
  by (simp_all add: ip_packets_def map_filter_def)

definition tunnel_ok :: "bool \<Rightarrow> nat \<Rightarrow> ppp_unit \<Rightarrow> ppp_unit \<Rightarrow> bool" where
  "tunnel_ok on d s r \<longleftrightarrow> sender_ready s \<and> receiver_ready r \<and> vj_ready on s r \<and> behind d (mppe_comp (u_pcb s)) (mppe_decomp (u_pcb r))"

lemma tunnel_step:
  assumes ok: "tunnel_ok on d s r" and b: "buffers_ok oe ie" and p: "on \<Longrightarrow> p ! 9 = IP_PROTO_TCP \<Longrightarrow> vj_segment p"
  obtains s' frame where "ppp_netif_output_ip4 oe p s = Some (oe_link oe, s')" "sent_frames s s' = [(frame, PPP_COMP)]"
    "d < 2048 \<Longrightarrow> ip_packets (ppp_input ie [hi8 PPP_COMP # lo8 PPP_COMP # frame] r) = ip_packets r @ [p]
       \<and> tunnel_ok on 0 s' (ppp_input ie [hi8 PPP_COMP # lo8 PPP_COMP # frame] r)"
    "\<not> on \<Longrightarrow> tunnel_ok on (Suc d) s' r"
proof -
  have vj: "vj_ready on s r" and sr: "sender_ready s" and rr: "receiver_ready r"
    and bh: "behind d (mppe_comp (u_pcb s)) (mppe_decomp (u_pcb r))" using ok by (simp_all add: tunnel_ok_def)
  obtain ty q vs where h: "compress_header oe p PPP_IP s = Some (q, vj_protocol ty, s\<lparr>u_vj := vs\<rparr>)" "ty = TYPE_IP \<or> on"
    and rc: "\<And>env. rx_ok q env \<Longrightarrow> \<exists>vr. vj_receive env ty q (u_vj r) = (Some p, vr) \<and> (on \<longrightarrow> in_sync vs vr)"
    by (rule compress_header_step [where oe = oe, OF vj p]) (assumption | rule that)+
  obtain frame st where c: "mppe_compress True ERR_OK q (vj_protocol ty) (mppe_comp (u_pcb s)) = (ERR_OK, Some frame, st)"
    using compress_ok [of q "vj_protocol ty" "mppe_comp (u_pcb s)"] by blast
  define s' where "s' = do_call (Link_output frame PPP_COMP) (on_unit_pcb (\<lambda>pcb. pcb\<lparr>mppe_comp := st\<rparr>) (s\<lparr>u_vj := vs\<rparr>))"
  have "CI_MPPE \<noteq> 0" by (simp add: CI_MPPE_def)
  then have out: "ppp_netif_output_ip4 oe p s = Some (oe_link oe, s')"
    using h(1) c sr b by (simp add: ppp_netif_output_ip4_def ppp_netif_output_def sender_ready_def ppp_transmit_def buffers_ok_def s'_def)
  have sent: "sent_frames s s' = [(frame, PPP_COMP)]" by (simp add: s'_def)
  have sr': "sender_ready s'" using sr by (simp add: sender_ready_def s'_def)
  have arrived: "ip_packets (ppp_input ie [hi8 PPP_COMP # lo8 PPP_COMP # frame] r) = ip_packets r @ [p]
       \<and> tunnel_ok on 0 s' (ppp_input ie [hi8 PPP_COMP # lo8 PPP_COMP # frame] r)" if d: "d < 2048"
  proof -
    obtain st' where m: "mppe_decompress [frame] (mppe_decomp (u_pcb r)) = (ERR_OK, [], [plain_frame (vj_protocol ty) q], st')"
      "behind 0 st st'" using decompress_stateless [OF bh d c] by blast
    have "rx_ok q ((ie_rx ie)\<lparr>rx_len0 := length q\<rparr>)" using b by (simp add: buffers_ok_def rx_ok_def)
    then obtain vr where v: "vj_receive ((ie_rx ie)\<lparr>rx_len0 := length q\<rparr>) ty q (u_vj r) = (Some p, vr)" "on \<longrightarrow> in_sync vs vr"
      using rc by blast
    have en: "ty = TYPE_IP \<or> vj_enabled (u_pcb r)" using h(2) vj by (auto simp: vj_ready_def)
    let ?u = "on_unit_pcb (\<lambda>pcb. pcb\<lparr>mppe_decomp := st'\<rparr>) r"
    have i: "ppp_input ie [hi8 PPP_COMP # lo8 PPP_COMP # frame] r = do_call (Ip4_input p) (?u\<lparr>u_vj := vr\<rparr>)"
      using receive_frame [OF rr m(1) vj_protocol_even, where ie = ie] dispatch_packet [where ie = ie and q = q and ty = ty and u = ?u and p = p and vr = vr] v(1) en by simp
    show ?thesis
      unfolding i using sr' rr vj m(2) v(2)
      by (auto simp: tunnel_ok_def receiver_ready_def vj_ready_def s'_def)
  qed
  have "tunnel_ok on (Suc d) s' r" if "\<not> on"
    using compress_behind [OF bh c] sr' rr vj that by (auto simp: tunnel_ok_def vj_ready_def s'_def)
  with out sent arrived show ?thesis using that by blast
qed

text \<open>Losses are allowed without header compression, in bursts of less than half of the count space.\<close>

fun losses_ok :: "nat \<Rightarrow> bool list \<Rightarrow> bool" where
  "losses_ok d [] \<longleftrightarrow> True"
| "losses_ok d (a # as) \<longleftrightarrow> (if a then d < 2048 \<and> losses_ok 0 as else losses_ok (Suc d) as)"

lemma tunnel_run:
  assumes "tunnel_ok on d s r" and "losses_ok d (map fst ps)" and "on \<Longrightarrow> list_all fst ps"
    and "\<forall>(a, oe, ie, p) \<in> set ps. buffers_ok oe ie \<and> (on \<longrightarrow> p ! 9 = IP_PROTO_TCP \<longrightarrow> vj_segment p)"
  shows "\<exists>r'. tunnel ps s r = Some r' \<and> ip_packets r' = ip_packets r @ map (\<lambda>(a, oe, ie, p). p) (filter fst ps)"
  using assms
proof (induction ps arbitrary: s r d)
  case (Cons x ps)
  obtain a oe ie p where x: "x = (a, oe, ie, p)" by (cases x)
  have p: "buffers_ok oe ie" "on \<Longrightarrow> p ! 9 = IP_PROTO_TCP \<Longrightarrow> vj_segment p" using Cons.prems(4) x by auto
  obtain s' frame where st: "ppp_netif_output_ip4 oe p s = Some (oe_link oe, s')" "sent_frames s s' = [(frame, PPP_COMP)]"
    "d < 2048 \<Longrightarrow> ip_packets (ppp_input ie [hi8 PPP_COMP # lo8 PPP_COMP # frame] r) = ip_packets r @ [p]
       \<and> tunnel_ok on 0 s' (ppp_input ie [hi8 PPP_COMP # lo8 PPP_COMP # frame] r)"
    "\<not> on \<Longrightarrow> tunnel_ok on (Suc d) s' r"
    using tunnel_step [OF Cons.prems(1) p] by blast
  show ?case
  proof (cases a)
    case True
    let ?r = "ppp_input ie [hi8 PPP_COMP # lo8 PPP_COMP # frame] r"
    have d: "d < 2048" using Cons.prems(2) x True by simp
    have "\<exists>r'. tunnel ps s' ?r = Some r' \<and> ip_packets r' = ip_packets ?r @ map (\<lambda>(a, oe, ie, p). p) (filter fst ps)"
      by (rule Cons.IH [of 0]) (use st(3) [OF d] Cons.prems(2,3,4) x True in auto)
    then show ?thesis using st d x True by simp
  next
    case False
    then have "\<not> on" using Cons.prems(3) x by auto
    have "\<exists>r'. tunnel ps s' r = Some r' \<and> ip_packets r' = ip_packets r @ map (\<lambda>(a, oe, ie, p). p) (filter fst ps)"
      by (rule Cons.IH [of "Suc d"]) (use st(4) \<open>\<not> on\<close> Cons.prems(2,3,4) x False in auto)
    then show ?thesis using st x False by simp
  qed
qed simp

section \<open>Properties\<close>

text \<open>C11: the tunnel delivers what is sent: when both ends have switched on MPPE in stateless mode from the same 128-bit key and
  the pbuf layers of both ends have the buffers that are asked for, every IP packet whose frame arrives is handed to
  the IP layer of the other end as it was, in order and exactly once, and nothing else is. Without header compression this
  holds for all packets, and frames may be lost, in bursts of less than 2048. With header compression between fresh ends all frames
  arrive, and the packets that are TCP by their protocol octet are well-formed segments (\<open>vj_segment\<close>): a right IP length below 65536 and
  a right IP header checksum, headers of at least five words that lie within the packet, none of the reserved and congestion
  (ECN) bits of the TCP header, and an urgent pointer that is non-zero exactly when the segment is marked urgent.\<close>

theorem tunnel_delivers:
  assumes "sender_ready s" and "receiver_ready r"
    and "mppe_comp (u_pcb s) = fst (mppe_init MPPE_OPT_128 (mppe_set_key key m1))" and "\<not> stateful m1"
    and "mppe_decomp (u_pcb r) = fst (mppe_init MPPE_OPT_128 (mppe_set_key key m2))" and "\<not> stateful m2"
    and "vj_enabled (u_pcb s) = on" and "vj_enabled (u_pcb r) = on"
    and "losses_ok 0 (map fst ps)" and "on \<Longrightarrow> list_all fst ps"
    and "on \<Longrightarrow> u_vj s = (vj_compress_init zero_vj)\<lparr>maxSlotIndex := m, compressSlot := c\<rparr>"
    and "on \<Longrightarrow> length (rstate (u_vj r)) = 16 \<and> (\<forall>b \<in> set (rstate (u_vj r)). length (cs_hdr b) = 128)"
    and "\<forall>(a, oe, ie, p) \<in> set ps. buffers_ok oe ie \<and> (on \<longrightarrow> p ! 9 = IP_PROTO_TCP \<longrightarrow> vj_segment p)"
  shows "\<exists>r'. tunnel ps s r = Some r' \<and> ip_packets r' = ip_packets r @ map (\<lambda>(a, oe, ie, p). p) (filter fst ps)"
proof -
  have "behind 0 (mppe_comp (u_pcb s)) (mppe_decomp (u_pcb r))"
    unfolding assms(3,5) by (rule init_behind) (use assms(4,6) in simp_all)
  moreover have "vj_ready on s r" using assms(7,8,11,12) in_sync_init [of "u_vj r" c m] by (auto simp: vj_ready_def)
  ultimately have "tunnel_ok on 0 s r" using assms(1,2) by (simp add: tunnel_ok_def)
  then show ?thesis using assms(9,10,13) by (rule tunnel_run)
qed

definition demo_end :: "bool \<Rightarrow> ppp_unit" where
  "demo_end vj = (zero_unit 1500)\<lparr>u_phase := PPP_PHASE_RUNNING, u_vj := vj_compress_init zero_vj,
     u_pcb := (u_pcb (zero_unit 1500))\<lparr>if4_up := True, lcp_state := PPP_FSM_OPENED, vj_enabled := vj,
       ccp_transmit_method := CI_MPPE, ccp_receive_method := CI_MPPE,
       mppe_comp := fst (mppe_init MPPE_OPT_128 (mppe_set_key (replicate 16 7) zero_mppe)),
       mppe_decomp := fst (mppe_init MPPE_OPT_128 (mppe_set_key (replicate 16 7) zero_mppe))\<rparr>\<rparr>"

definition demo_out :: out_env where
  "demo_out = \<lparr>oe_clone = True, oe_len0 = 40, oe_alloc = True, oe_copied = ERR_OK, oe_link = ERR_OK\<rparr>"

definition demo_in :: in_env where
  "demo_in = \<lparr>ie_rx = demo_rx, ie_coalesce = True\<rparr>"

lemma demo_end_ready:
  "sender_ready (demo_end vj)" "receiver_ready (demo_end vj)" "vj_enabled (u_pcb (demo_end vj)) = vj"
  "mppe_comp (u_pcb (demo_end vj)) = fst (mppe_init MPPE_OPT_128 (mppe_set_key (replicate 16 7) zero_mppe))"
  "mppe_decomp (u_pcb (demo_end vj)) = fst (mppe_init MPPE_OPT_128 (mppe_set_key (replicate 16 7) zero_mppe))"
  "\<not> stateful zero_mppe" "buffers_ok demo_out demo_in" "ip_packets (demo_end vj) = []"
  "u_vj (demo_end vj) = vj_compress_init zero_vj"
  by (simp_all add: demo_end_def sender_ready_def receiver_ready_def zero_mppe_def blank_mppe_def buffers_ok_def demo_out_def
      demo_in_def demo_rx_def less_ppp_phase_def ip_packets_def zero_unit_def map_filter_def)

theorem tunnel_delivers_witness:
  "(\<exists>r. tunnel [(True, demo_out, demo_in, [1, 2]), (False, demo_out, demo_in, [3]), (True, demo_out, demo_in, [4])]
       (demo_end False) (demo_end False) = Some r \<and> ip_packets r = [[1, 2], [4]])
   \<and> (\<exists>r. tunnel [(True, demo_out, demo_in, demo_segment), (True, demo_out, demo_in, demo_next)]
       (demo_end True) (demo_end True) = Some r \<and> ip_packets r = [demo_segment, demo_next])"
proof
  have i: "u_vj (demo_end True) = (vj_compress_init zero_vj)\<lparr>maxSlotIndex := 15, compressSlot := 0\<rparr>"
    by (simp add: demo_end_ready vj_compress_init_def MAX_SLOTS_def)
  have l: "length (rstate (u_vj (demo_end True))) = 16" "\<forall>b \<in> set (rstate (u_vj (demo_end True))). length (cs_hdr b) = 128"
    by (simp_all add: demo_end_ready vj_compress_init_def zero_vj_def)
  let ?ps = "[(True, demo_out, demo_in, [1, 2]), (False, demo_out, demo_in, [3]), (True, demo_out, demo_in, [4])]"
  have "\<exists>r. tunnel ?ps (demo_end False) (demo_end False) = Some r
      \<and> ip_packets r = ip_packets (demo_end False) @ map (\<lambda>(a, oe, ie, p). p) (filter fst ?ps)"
    by (rule tunnel_delivers [where on = False, OF demo_end_ready(1,2,4,6,5,6,3,3)]) (simp_all add: demo_end_ready)
  then show "\<exists>r. tunnel ?ps (demo_end False) (demo_end False) = Some r \<and> ip_packets r = [[1, 2], [4]]"
    by (simp add: demo_end_ready del: tunnel.simps)
  let ?qs = "[(True, demo_out, demo_in, demo_segment), (True, demo_out, demo_in, demo_next)]"
  have "\<exists>r. tunnel ?qs (demo_end True) (demo_end True) = Some r
      \<and> ip_packets r = ip_packets (demo_end True) @ map (\<lambda>(a, oe, ie, p). p) (filter fst ?qs)"
    by (rule tunnel_delivers [where on = True, OF demo_end_ready(1,2,4,6,5,6,3,3) _ _ i]) (simp_all add: demo_end_ready(7) demo_ok l)
  then show "\<exists>r. tunnel ?qs (demo_end True) (demo_end True) = Some r \<and> ip_packets r = [demo_segment, demo_next]"
    by (simp add: demo_end_ready del: tunnel.simps)
qed

text \<open>a Protocol-Reject for an encrypted packet can name a wrong protocol: when the decrypted packet has a compressed
  protocol field of one octet, the packet that is sent back starts with an octet of the MPPE header where the
  high octet of the protocol number belongs.\<close>

theorem protocol_reject_garbled:
  assumes "receiver_ready r" and "2 \<le> length frame"
    and "mppe_decompress [frame] (mppe_decomp (u_pcb r)) = (ERR_OK, events, [b # c # rest], st)"
    and "b AND 1 \<noteq> 0" and "ucast b \<notin> {PPP_IP, PPP_VJC_COMP, PPP_VJC_UNCOMP}"
  shows "u_calls (ppp_input ie [hi8 PPP_COMP # lo8 PPP_COMP # frame] r) = u_calls r @ [Send_protrej (frame ! 1 # b # c # rest)]"
proof -
  have nl: "PPP_COMP \<noteq> PPP_LCP" by (simp add: ppp_protocols)
  have ph: "\<not> u_phase r \<le> PPP_PHASE_AUTHENTICATE" using assms(1) by (simp add: receiver_ready_def not_le)
  obtain x y zs where f: "frame = x # y # zs" using assms(2) by (cases frame; cases "tl frame") auto
  have "unat b < 2 ^ LENGTH(8)" by (rule unsigned_less)
  then have small: "(ucast b :: u16) < 256" by (simp add: word_less_nat_alt unsigned_ucast_eq take_bit_eq_mod)
  have "ucast b \<notin> set protocols" using small by (auto simp: protocols_def ppp_protocols)
  then show ?thesis
    using assms ph nl f
    by (simp add: ppp_input_def Let_def comp_octets receiver_ready_def decompress_frame_def pbuf_remove_header_def
        on_unit_pcb_def ppp_dispatch_def pbuf_add_header_def MPPE_OVHD_def)
qed

theorem protocol_reject_garbled_witness:
  "\<exists>frame. u_calls (ppp_input demo_in [hi8 PPP_COMP # lo8 PPP_COMP # frame] (demo_end False)) = [Send_protrej [frame ! 1, 0x2b, 7, 9]]"
proof -
  obtain frame s' where c: "mppe_compress True ERR_OK [9] 0x2b07 (mppe_comp (u_pcb (demo_end False))) = (ERR_OK, Some frame, s')"
    using compress_ok [of "[9]" "0x2b07" "mppe_comp (u_pcb (demo_end False))"] by blast
  have bh: "behind 0 (mppe_comp (u_pcb (demo_end False))) (mppe_decomp (u_pcb (demo_end False)))"
    unfolding demo_end_ready by (rule init_behind) (simp_all add: demo_end_ready)
  obtain r' where d: "mppe_decompress [frame] (mppe_decomp (u_pcb (demo_end False))) = (ERR_OK, [], [plain_frame 0x2b07 [9]], r')"
    using decompress_stateless [OF bh _ c] by auto
  have p: "plain_frame 0x2b07 [9] = [0x2b, 7, 9]" by (simp add: plain_frame_def)
  have l: "2 \<le> length frame" using d by (auto simp: mppe_decompress_def bogon_def MPPE_OVHD_def Let_def split: if_splits)
  have "u_calls (demo_end False) = []" by (simp add: demo_end_def zero_unit_def)
  then show ?thesis
    using protocol_reject_garbled [OF demo_end_ready(2) l d [unfolded p], of demo_in] by (auto simp: ppp_protocols)
qed

text \<open>C5: no IP packet passes unencrypted: in every state of every run from a fresh control block with the engine's settings,
  with any CCP traffic, any packets from both sides and any changes of the interface: when a packet is sent, nothing is
  handed to the link, or one frame is, which is the MPPE encryption of that packet (after header compression) under the
  current transmit state, a full 128-bit key in stateless mode; when a frame is received, nothing is handed to the
  link, and a packet is handed to the IP layer only if the frame is an MPPE frame, the current receive state is a
  full 128-bit key in stateless mode, and the packet is what that frame decrypts to under it (after header decompression);
  the calls that change the interface hand nothing to either.\<close>

theorem no_plaintext_passes:
  assumes "link_reach (ccp_init base f0, u0) (f, u)" and "fresh_pcb (f_pcb f0)" and "u_pcb u0 = f_pcb f0"
  shows "(\<forall>env pb protocol e u'. ppp_netif_output env pb protocol u = Some (e, u') \<longrightarrow>
        new_calls u u' = []
        \<or> strong (mppe_comp (u_pcb u))
          \<and> (\<exists>pb' protocol' u1 frame st. compress_header env pb protocol u = Some (pb', protocol', u1)
              \<and> mppe_compress (oe_alloc env) (oe_copied env) pb' protocol' (mppe_comp (u_pcb u)) = (ERR_OK, Some frame, st)
              \<and> new_calls u u' = [Link_output frame PPP_COMP]))
    \<and> (\<forall>env pb frame protocol. Link_output frame protocol \<notin> set (new_calls u (ppp_input env pb u)))
    \<and> (\<forall>env pb packet. Ip4_input packet \<in> set (new_calls u (ppp_input env pb u)) \<longrightarrow>
        get16 (hd pb) 0 = PPP_COMP \<and> ccp_receive_method (u_pcb u) = CI_MPPE \<and> strong (mppe_decomp (u_pcb u))
        \<and> (\<exists>events out st. mppe_decompress (drop 2 (hd pb) # tl pb) (mppe_decomp (u_pcb u)) = (ERR_OK, events, out, st)
             \<and> stands_for env (u_vj u) (unprefix out) packet))
    \<and> (\<forall>a frame protocol packet. Link_output frame protocol \<notin> set (new_calls u (unit_do a u))
         \<and> Ip4_input packet \<notin> set (new_calls u (unit_do a u)))"
proof -
  have "ccp_init base f0\<lparr>f_pcb := u_pcb u0\<rparr> = ccp_init base f0"
    using assms(3) by (simp add: ccp_init_def fsm_init_def)
  then have "link_inv (ccp_init base f0, u0)" using fresh_inv [OF assms(2)] by (simp add: link_inv_def)
  then have i: "link_inv (f, u)" by (rule link_reach_inv [OF assms(1)])
  show ?thesis
  proof (intro conjI allI impI)
    fix a frame protocol packet
    show "Link_output frame protocol \<notin> set (new_calls u (unit_do a u))" "Ip4_input packet \<notin> set (new_calls u (unit_do a u))"
      using unit_do_calls by blast+
  qed (use output_step [OF i] input_step [OF i] in blast)+
qed

text \<open>A run in which a packet is sent and one is received.\<close>

lemma link_ccp_reach:
  assumes "ccp_reach f0 f" and "u_pcb u0 = f_pcb f0"
  shows "link_reach (f0, u0) (f, u0\<lparr>u_pcb := f_pcb f\<rparr>)"
  using assms
proof (induction rule: ccp_reach.induct)
  case ccp_start
  have "u0\<lparr>u_pcb := f_pcb f0\<rparr> = u0" using ccp_start by (cases u0) simp
  then show ?case using link_reach.link_start [of "(f0, u0)"] by simp
next
  case (ccp_step f base a)
  then show ?case
    using link_reach.link_negotiate [of "(f0, u0)" f "u0\<lparr>u_pcb := f_pcb f\<rparr>" "ccp_do base a f" base a] by simp
qed

lemma strong_behind: "strong r \<Longrightarrow> behind 0 (r\<lparr>mbits := 0x90\<rparr>) r"
  by (simp add: strong_def mppe_ok_def behind_def good_bits_def same_key_def)

theorem no_plaintext_passes_witness:
  "\<exists>f u frame frame' e u'. link_reach (ccp_init demo_base demo_ccp, (zero_unit 1500)\<lparr>u_pcb := demo_pcb\<rparr>) (f, u)
     \<and> ppp_netif_output demo_out [1] PPP_IP u = Some (e, u') \<and> new_calls u u' = [Link_output frame PPP_COMP]
     \<and> strong (mppe_comp (u_pcb u))
     \<and> new_calls u (ppp_input demo_in [hi8 PPP_COMP # lo8 PPP_COMP # frame'] u) = [Ip4_input [2]]
     \<and> strong (mppe_decomp (u_pcb u))"
proof -
  let ?init = "ccp_init demo_base demo_ccp" and ?start = "(zero_unit 1500)\<lparr>u_pcb := demo_pcb\<rparr>"
  define f1 where "f1 = ccp_do demo_base Ccp_lowerup (ccp_do demo_base Ccp_open ?init)"
  define f2 where "f2 = ccp_do demo_base (Ccp_input (ccp_packet CONFREQ 7)) f1"
  define f3 where "f3 = ccp_do demo_base (Ccp_input (ccp_packet CONFACK (f_reqid f2))) f2"
  have m: "ccp_transmit_method (f_pcb f3) = CI_MPPE" "ccp_receive_method (f_pcb f3) = CI_MPPE"
    using ccp_honest_run [of demo_ccp demo_base 7] demo_pcb_ok unfolding f3_def f2_def f1_def by (simp_all add: demo_base_def Let_def)
  have p0: "f_pcb ?init = demo_pcb" by (simp add: ccp_init_def fsm_init_def)
  have fresh: "fresh_pcb (f_pcb demo_ccp)" using demo_pcb_ok by (simp add: can_encrypt_def)
  have reach: "ccp_reach ?init f3" unfolding f3_def f2_def f1_def by (intro ccp_reach.ccp_step ccp_reach.ccp_start)
  have sr: "strong (mppe_decomp (f_pcb f3))"
    using ccp_reach_inv [OF reach fresh_inv [OF fresh]] m(2) by (simp add: ccp_inv_def ccp_J_def)
  define u where "u = unit_do (Do_lcp_state PPP_FSM_OPENED) (unit_do (Do_phase PPP_PHASE_RUNNING)
     (unit_do (Do_sifvjcomp False 0 0) (unit_do Do_sifup (?start\<lparr>u_pcb := f_pcb f3\<rparr>))))"
  have l: "link_reach (?init, ?start) (f3, u)"
    unfolding u_def using p0 reach by (intro link_reach.link_configure link_ccp_reach) simp_all
  have u: "sender_ready u" "receiver_ready u" "\<not> vj_enabled (u_pcb u)" "mppe_decomp (u_pcb u) = mppe_decomp (f_pcb f3)"
    using m by (simp_all add: u_def unit_do_def sifup_def sifvjcomp_def sender_ready_def receiver_ready_def new_phase_def
        less_ppp_phase_def)
  obtain frame st where c: "mppe_compress True ERR_OK [1] PPP_IP (mppe_comp (u_pcb u)) = (ERR_OK, Some frame, st)"
    using compress_ok [of "[1]" PPP_IP "mppe_comp (u_pcb u)"] by blast
  let ?u' = "do_call (Link_output frame PPP_COMP) (on_unit_pcb (\<lambda>pcb. pcb\<lparr>mppe_comp := st\<rparr>) u)"
  have "CI_MPPE \<noteq> 0" by (simp add: CI_MPPE_def)
  then have out: "ppp_netif_output demo_out [1] PPP_IP u = Some (ERR_OK, ?u')"
    using c u by (simp add: ppp_netif_output_def compress_header_def ppp_transmit_def sender_ready_def demo_out_def)
  have new: "new_calls u ?u' = [Link_output frame PPP_COMP]" by (simp add: new_calls_def)
  obtain frame' st' where c': "mppe_compress True ERR_OK [2] PPP_IP ((mppe_decomp (u_pcb u))\<lparr>mbits := 0x90\<rparr>) = (ERR_OK, Some frame', st')"
    using compress_ok by blast
  obtain r where d: "mppe_decompress [frame'] (mppe_decomp (u_pcb u)) = (ERR_OK, [], [plain_frame PPP_IP [2]], r)"
    using decompress_stateless [OF strong_behind _ c'] sr u(4) by auto
  have "hi8 PPP_IP AND 1 = 0" by (simp add: ppp_protocols hi8_def)
  then have inp: "new_calls u (ppp_input demo_in [hi8 PPP_COMP # lo8 PPP_COMP # frame'] u) = [Ip4_input [2]]"
    using receive_frame [OF u(2) d, of demo_in] by (simp add: ppp_dispatch_def new_calls_def)
  have "u_pcb ?start = f_pcb demo_ccp" by simp
  note safe = no_plaintext_passes [OF l fresh this]
  have "strong (mppe_comp (u_pcb u))"
    using safe [THEN conjunct1, rule_format, OF out] new by simp
  moreover have "Ip4_input [2] \<in> set (new_calls u (ppp_input demo_in [hi8 PPP_COMP # lo8 PPP_COMP # frame'] u))" using inp by simp
  then have "strong (mppe_decomp (u_pcb u))" using safe by blast
  ultimately show ?thesis using l out new inp by blast
qed

end
