(* ===== verification/Des.thy ===== *)
theory Des
  imports Hash_Stream
begin

text \<open>
  \<open>src/lwip/src/netif/ppp/polarssl/des.c\<close>: the key schedule and the block function of DES on 64-bit registers
  (\<open>unsigned long\<close>), with the tables that merge the S-boxes with the permutation that follows them, and the proof
  that the decryption schedule inverts the encryption.
\<close>

section \<open>Tables\<close>

definition SB1 :: "u64 list" where
  "SB1 = [0x01010400, 0x00000000, 0x00010000, 0x01010404, 0x01010004, 0x00010404, 0x00000004, 0x00010000,
     0x00000400, 0x01010400, 0x01010404, 0x00000400, 0x01000404, 0x01010004, 0x01000000, 0x00000004,
     0x00000404, 0x01000400, 0x01000400, 0x00010400, 0x00010400, 0x01010000, 0x01010000, 0x01000404,
     0x00010004, 0x01000004, 0x01000004, 0x00010004, 0x00000000, 0x00000404, 0x00010404, 0x01000000,
     0x00010000, 0x01010404, 0x00000004, 0x01010000, 0x01010400, 0x01000000, 0x01000000, 0x00000400,
     0x01010004, 0x00010000, 0x00010400, 0x01000004, 0x00000400, 0x00000004, 0x01000404, 0x00010404,
     0x01010404, 0x00010004, 0x01010000, 0x01000404, 0x01000004, 0x00000404, 0x00010404, 0x01010400,
     0x00000404, 0x01000400, 0x01000400, 0x00000000, 0x00010004, 0x00010400, 0x00000000, 0x01010004]"

definition SB2 :: "u64 list" where
  "SB2 = [0x80108020, 0x80008000, 0x00008000, 0x00108020, 0x00100000, 0x00000020, 0x80100020, 0x80008020,
     0x80000020, 0x80108020, 0x80108000, 0x80000000, 0x80008000, 0x00100000, 0x00000020, 0x80100020,
     0x00108000, 0x00100020, 0x80008020, 0x00000000, 0x80000000, 0x00008000, 0x00108020, 0x80100000,
     0x00100020, 0x80000020, 0x00000000, 0x00108000, 0x00008020, 0x80108000, 0x80100000, 0x00008020,
     0x00000000, 0x00108020, 0x80100020, 0x00100000, 0x80008020, 0x80100000, 0x80108000, 0x00008000,
     0x80100000, 0x80008000, 0x00000020, 0x80108020, 0x00108020, 0x00000020, 0x00008000, 0x80000000,
     0x00008020, 0x80108000, 0x00100000, 0x80000020, 0x00100020, 0x80008020, 0x80000020, 0x00100020,
     0x00108000, 0x00000000, 0x80008000, 0x00008020, 0x80000000, 0x80100020, 0x80108020, 0x00108000]"

definition SB3 :: "u64 list" where
  "SB3 = [0x00000208, 0x08020200, 0x00000000, 0x08020008, 0x08000200, 0x00000000, 0x00020208, 0x08000200,
     0x00020008, 0x08000008, 0x08000008, 0x00020000, 0x08020208, 0x00020008, 0x08020000, 0x00000208,
     0x08000000, 0x00000008, 0x08020200, 0x00000200, 0x00020200, 0x08020000, 0x08020008, 0x00020208,
     0x08000208, 0x00020200, 0x00020000, 0x08000208, 0x00000008, 0x08020208, 0x00000200, 0x08000000,
     0x08020200, 0x08000000, 0x00020008, 0x00000208, 0x00020000, 0x08020200, 0x08000200, 0x00000000,
     0x00000200, 0x00020008, 0x08020208, 0x08000200, 0x08000008, 0x00000200, 0x00000000, 0x08020008,
     0x08000208, 0x00020000, 0x08000000, 0x08020208, 0x00000008, 0x00020208, 0x00020200, 0x08000008,
     0x08020000, 0x08000208, 0x00000208, 0x08020000, 0x00020208, 0x00000008, 0x08020008, 0x00020200]"

definition SB4 :: "u64 list" where
  "SB4 = [0x00802001, 0x00002081, 0x00002081, 0x00000080, 0x00802080, 0x00800081, 0x00800001, 0x00002001,
     0x00000000, 0x00802000, 0x00802000, 0x00802081, 0x00000081, 0x00000000, 0x00800080, 0x00800001,
     0x00000001, 0x00002000, 0x00800000, 0x00802001, 0x00000080, 0x00800000, 0x00002001, 0x00002080,
     0x00800081, 0x00000001, 0x00002080, 0x00800080, 0x00002000, 0x00802080, 0x00802081, 0x00000081,
     0x00800080, 0x00800001, 0x00802000, 0x00802081, 0x00000081, 0x00000000, 0x00000000, 0x00802000,
     0x00002080, 0x00800080, 0x00800081, 0x00000001, 0x00802001, 0x00002081, 0x00002081, 0x00000080,
     0x00802081, 0x00000081, 0x00000001, 0x00002000, 0x00800001, 0x00002001, 0x00802080, 0x00800081,
     0x00002001, 0x00002080, 0x00800000, 0x00802001, 0x00000080, 0x00800000, 0x00002000, 0x00802080]"

definition SB5 :: "u64 list" where
  "SB5 = [0x00000100, 0x02080100, 0x02080000, 0x42000100, 0x00080000, 0x00000100, 0x40000000, 0x02080000,
     0x40080100, 0x00080000, 0x02000100, 0x40080100, 0x42000100, 0x42080000, 0x00080100, 0x40000000,
     0x02000000, 0x40080000, 0x40080000, 0x00000000, 0x40000100, 0x42080100, 0x42080100, 0x02000100,
     0x42080000, 0x40000100, 0x00000000, 0x42000000, 0x02080100, 0x02000000, 0x42000000, 0x00080100,
     0x00080000, 0x42000100, 0x00000100, 0x02000000, 0x40000000, 0x02080000, 0x42000100, 0x40080100,
     0x02000100, 0x40000000, 0x42080000, 0x02080100, 0x40080100, 0x00000100, 0x02000000, 0x42080000,
     0x42080100, 0x00080100, 0x42000000, 0x42080100, 0x02080000, 0x00000000, 0x40080000, 0x42000000,
     0x00080100, 0x02000100, 0x40000100, 0x00080000, 0x00000000, 0x40080000, 0x02080100, 0x40000100]"

definition SB6 :: "u64 list" where
  "SB6 = [0x20000010, 0x20400000, 0x00004000, 0x20404010, 0x20400000, 0x00000010, 0x20404010, 0x00400000,
     0x20004000, 0x00404010, 0x00400000, 0x20000010, 0x00400010, 0x20004000, 0x20000000, 0x00004010,
     0x00000000, 0x00400010, 0x20004010, 0x00004000, 0x00404000, 0x20004010, 0x00000010, 0x20400010,
     0x20400010, 0x00000000, 0x00404010, 0x20404000, 0x00004010, 0x00404000, 0x20404000, 0x20000000,
     0x20004000, 0x00000010, 0x20400010, 0x00404000, 0x20404010, 0x00400000, 0x00004010, 0x20000010,
     0x00400000, 0x20004000, 0x20000000, 0x00004010, 0x20000010, 0x20404010, 0x00404000, 0x20400000,
     0x00404010, 0x20404000, 0x00000000, 0x20400010, 0x00000010, 0x00004000, 0x20400000, 0x00404010,
     0x00004000, 0x00400010, 0x20004010, 0x00000000, 0x20404000, 0x20000000, 0x00400010, 0x20004010]"

definition SB7 :: "u64 list" where
  "SB7 = [0x00200000, 0x04200002, 0x04000802, 0x00000000, 0x00000800, 0x04000802, 0x00200802, 0x04200800,
     0x04200802, 0x00200000, 0x00000000, 0x04000002, 0x00000002, 0x04000000, 0x04200002, 0x00000802,
     0x04000800, 0x00200802, 0x00200002, 0x04000800, 0x04000002, 0x04200000, 0x04200800, 0x00200002,
     0x04200000, 0x00000800, 0x00000802, 0x04200802, 0x00200800, 0x00000002, 0x04000000, 0x00200800,
     0x04000000, 0x00200800, 0x00200000, 0x04000802, 0x04000802, 0x04200002, 0x04200002, 0x00000002,
     0x00200002, 0x04000000, 0x04000800, 0x00200000, 0x04200800, 0x00000802, 0x00200802, 0x04200800,
     0x00000802, 0x04000002, 0x04200802, 0x04200000, 0x00200800, 0x00000000, 0x00000002, 0x04200802,
     0x00000000, 0x00200802, 0x04200000, 0x00000800, 0x04000002, 0x04000800, 0x00000800, 0x00200002]"

definition SB8 :: "u64 list" where
  "SB8 = [0x10001040, 0x00001000, 0x00040000, 0x10041040, 0x10000000, 0x10001040, 0x00000040, 0x10000000,
     0x00040040, 0x10040000, 0x10041040, 0x00041000, 0x10041000, 0x00041040, 0x00001000, 0x00000040,
     0x10040000, 0x10000040, 0x10001000, 0x00001040, 0x00041000, 0x00040040, 0x10040040, 0x10041000,
     0x00001040, 0x00000000, 0x00000000, 0x10040040, 0x10000040, 0x10001000, 0x00041040, 0x00040000,
     0x00041040, 0x00040000, 0x10041000, 0x00001000, 0x00000040, 0x10040040, 0x00001000, 0x00041040,
     0x10001000, 0x00000040, 0x10000040, 0x10040000, 0x10040040, 0x10000000, 0x00040000, 0x10001040,
     0x00000000, 0x10041040, 0x00040040, 0x10000040, 0x10040000, 0x10001000, 0x10001040, 0x00000000,
     0x10041040, 0x00041000, 0x00041000, 0x00001040, 0x00001040, 0x00040040, 0x10000000, 0x10041000]"

definition LHs :: "u64 list" where
  "LHs = [0x00000000, 0x00000001, 0x00000100, 0x00000101, 0x00010000, 0x00010001, 0x00010100, 0x00010101,
     0x01000000, 0x01000001, 0x01000100, 0x01000101, 0x01010000, 0x01010001, 0x01010100, 0x01010101]"

definition RHs :: "u64 list" where
  "RHs = [0x00000000, 0x01000000, 0x00010000, 0x01010000, 0x00000100, 0x01000100, 0x00010100, 0x01010100,
     0x00000001, 0x01000001, 0x00010001, 0x01010001, 0x00000101, 0x01000101, 0x00010101, 0x01010101]"

section \<open>The code\<close>

text \<open>
  The line \<open>T = ((X >> n) ^ Y) & m; Y ^= T; X ^= (T << n)\<close> that the permutations are made of, and the rotation
  \<open>((X << n) | (X >> (32 - n))) & 0xFFFFFFFF\<close>.
\<close>

definition swap_bits :: "nat \<Rightarrow> u64 \<Rightarrow> u64 \<times> u64 \<Rightarrow> u64 \<times> u64" where
  "swap_bits n m = (\<lambda>(X, Y). let T = (drop_bit n X XOR Y) AND m in (X XOR push_bit n T, Y XOR T))"

definition rot32 :: "nat \<Rightarrow> u64 \<Rightarrow> u64" where
  "rot32 n X = (push_bit n X OR drop_bit (32 - n) X) AND 0xFFFFFFFF"

definition flip_pair :: "'a \<times> 'a \<Rightarrow> 'a \<times> 'a" where
  "flip_pair = (\<lambda>(x, y). (y, x))"

definition DES_IP :: "u64 \<times> u64 \<Rightarrow> u64 \<times> u64" where
  "DES_IP p =
     (let p = swap_bits 4 0x0F0F0F0F p; p = swap_bits 16 0x0000FFFF p;
          p = flip_pair (swap_bits 2 0x33333333 (flip_pair p)); p = flip_pair (swap_bits 8 0x00FF00FF (flip_pair p));
          (X, Y) = p; Y = rot32 1 Y;
          (X, Y) = swap_bits 0 0xAAAAAAAA (X, Y)
      in (rot32 1 X, Y))"

definition DES_FP :: "u64 \<times> u64 \<Rightarrow> u64 \<times> u64" where
  "DES_FP p =
     (let (X, Y) = p; X = rot32 31 X;
          (X, Y) = swap_bits 0 0xAAAAAAAA (X, Y);
          Y = rot32 31 Y; p = (X, Y);
          p = flip_pair (swap_bits 8 0x00FF00FF (flip_pair p)); p = flip_pair (swap_bits 2 0x33333333 (flip_pair p));
          p = swap_bits 16 0x0000FFFF p
      in swap_bits 4 0x0F0F0F0F p)"

definition six :: "nat \<Rightarrow> u64 \<Rightarrow> nat" where
  "six n T = unat (drop_bit n T AND 0x3F)"

definition DES_ROUND :: "u64 \<Rightarrow> u64 \<Rightarrow> u64 \<Rightarrow> u64 \<Rightarrow> u64" where
  "DES_ROUND sk0 sk1 X Y =
     (let T = sk0 XOR X;
          Y = Y XOR (SB8 ! six 0 T XOR SB6 ! six 8 T XOR SB4 ! six 16 T XOR SB2 ! six 24 T);
          T = sk1 XOR (push_bit 28 X OR drop_bit 4 X)
      in Y XOR (SB7 ! six 0 T XOR SB5 ! six 8 T XOR SB3 ! six 16 T XOR SB1 ! six 24 T))"

definition nibble :: "nat \<Rightarrow> u64 \<Rightarrow> nat" where
  "nibble n X = unat (drop_bit n X AND 0xF)"

text \<open>Permuted choice 1.\<close>

definition des_pc1 :: "octets \<Rightarrow> u64 \<times> u64" where
  "des_pc1 key =
     (let X = GET_ULONG_BE key 0; Y = GET_ULONG_BE key 4;
          (Y, X) = swap_bits 4 0x0F0F0F0F (Y, X);
          (Y, X) = swap_bits 0 0x10101010 (Y, X);
          X = push_bit 3 (LHs ! nibble 0 X) OR push_bit 2 (LHs ! nibble 8 X)
            OR push_bit 1 (LHs ! nibble 16 X) OR LHs ! nibble 24 X
            OR push_bit 7 (LHs ! nibble 5 X) OR push_bit 6 (LHs ! nibble 13 X)
            OR push_bit 5 (LHs ! nibble 21 X) OR push_bit 4 (LHs ! nibble 29 X);
          Y = push_bit 3 (RHs ! nibble 1 Y) OR push_bit 2 (RHs ! nibble 9 Y)
            OR push_bit 1 (RHs ! nibble 17 Y) OR RHs ! nibble 25 Y
            OR push_bit 7 (RHs ! nibble 4 Y) OR push_bit 6 (RHs ! nibble 12 Y)
            OR push_bit 5 (RHs ! nibble 20 Y) OR push_bit 4 (RHs ! nibble 28 Y)
      in (X AND 0x0FFFFFFF, Y AND 0x0FFFFFFF))"

definition rot28 :: "nat \<Rightarrow> u64 \<Rightarrow> u64" where
  "rot28 n X = (push_bit n X OR drop_bit (28 - n) X) AND 0x0FFFFFFF"

definition des_subkeys :: "u64 \<Rightarrow> u64 \<Rightarrow> u64 list" where
  "des_subkeys X Y =
     [(push_bit 4 X AND 0x24000000) OR (push_bit 28 X AND 0x10000000)
      OR (push_bit 14 X AND 0x08000000) OR (push_bit 18 X AND 0x02080000)
      OR (push_bit 6 X AND 0x01000000) OR (push_bit 9 X AND 0x00200000)
      OR (drop_bit 1 X AND 0x00100000) OR (push_bit 10 X AND 0x00040000)
      OR (push_bit 2 X AND 0x00020000) OR (drop_bit 10 X AND 0x00010000)
      OR (drop_bit 13 Y AND 0x00002000) OR (drop_bit 4 Y AND 0x00001000)
      OR (push_bit 6 Y AND 0x00000800) OR (drop_bit 1 Y AND 0x00000400)
      OR (drop_bit 14 Y AND 0x00000200) OR (Y AND 0x00000100)
      OR (drop_bit 5 Y AND 0x00000020) OR (drop_bit 10 Y AND 0x00000010)
      OR (drop_bit 3 Y AND 0x00000008) OR (drop_bit 18 Y AND 0x00000004)
      OR (drop_bit 26 Y AND 0x00000002) OR (drop_bit 24 Y AND 0x00000001),
      (push_bit 15 X AND 0x20000000) OR (push_bit 17 X AND 0x10000000)
      OR (push_bit 10 X AND 0x08000000) OR (push_bit 22 X AND 0x04000000)
      OR (drop_bit 2 X AND 0x02000000) OR (push_bit 1 X AND 0x01000000)
      OR (push_bit 16 X AND 0x00200000) OR (push_bit 11 X AND 0x00100000)
      OR (push_bit 3 X AND 0x00080000) OR (drop_bit 6 X AND 0x00040000)
      OR (push_bit 15 X AND 0x00020000) OR (drop_bit 4 X AND 0x00010000)
      OR (drop_bit 2 Y AND 0x00002000) OR (push_bit 8 Y AND 0x00001000)
      OR (drop_bit 14 Y AND 0x00000808) OR (drop_bit 9 Y AND 0x00000400)
      OR (Y AND 0x00000200) OR (push_bit 7 Y AND 0x00000100)
      OR (drop_bit 7 Y AND 0x00000020) OR (drop_bit 3 Y AND 0x00000011)
      OR (push_bit 2 Y AND 0x00000004) OR (drop_bit 21 Y AND 0x00000002)]"

definition des_shift :: "nat \<Rightarrow> nat" where
  "des_shift i = (if i < 2 \<or> i = 8 \<or> i = 15 then 1 else 2)"

fun des_schedule :: "nat list \<Rightarrow> u64 \<times> u64 \<Rightarrow> u64 list" where
  "des_schedule [] p = []"
| "des_schedule (i # is) p =
     (let X = rot28 (des_shift i) (fst p); Y = rot28 (des_shift i) (snd p)
      in des_subkeys X Y @ des_schedule is (X, Y))"

definition des_setkey :: "octets \<Rightarrow> u64 list" where
  "des_setkey key = des_schedule [0..<16] (des_pc1 key)"

definition des_setkey_enc :: "octets \<Rightarrow> u64 list" where
  "des_setkey_enc key = des_setkey key"

definition SWAP :: "nat \<Rightarrow> nat \<Rightarrow> 'a list \<Rightarrow> 'a list" where
  "SWAP i j sk = sk[i := sk ! j, j := sk ! i]"

definition des_setkey_dec :: "octets \<Rightarrow> u64 list" where
  "des_setkey_dec key = fold (\<lambda>i sk. SWAP (2 * i + 1) (31 - 2 * i) (SWAP (2 * i) (30 - 2 * i) sk)) [0..<8] (des_setkey key)"

fun des_rounds :: "u64 list \<Rightarrow> u64 \<times> u64 \<Rightarrow> u64 \<times> u64" where
  "des_rounds (a # b # c # d # sk) (X, Y) =
     (let X = DES_ROUND a b Y X; Y = DES_ROUND c d X Y in des_rounds sk (X, Y))"
| "des_rounds _ p = p"

definition des_crypt_ecb :: "u64 list \<Rightarrow> octets \<Rightarrow> octets" where
  "des_crypt_ecb sk input =
     (let p = DES_IP (GET_ULONG_BE input 0, GET_ULONG_BE input 4);
          p = des_rounds sk p;
          (Y, X) = DES_FP (snd p, fst p)
      in PUT_ULONG_BE Y @ PUT_ULONG_BE X)"

section \<open>The permutations\<close>

definition small :: "u64 \<Rightarrow> bool" where
  "small w \<longleftrightarrow> (\<forall>i \<ge> 32. \<not> bit w i)"

definition small2 :: "u64 \<times> u64 \<Rightarrow> bool" where
  "small2 p \<longleftrightarrow> small (fst p) \<and> small (snd p)"

lemma bit_mask32 [simp]: "bit (0xFFFFFFFF :: int) i \<longleftrightarrow> i < 32"
proof -
  have "(0xFFFFFFFF :: int) = mask 32" by (simp add: mask_eq_exp_minus_1)
  then show ?thesis by (simp only: bit_mask_iff) simp
qed

lemma small_iff: "small w \<longleftrightarrow> w AND 0xFFFFFFFF = w"
proof
  assume "small w"
  then show "w AND 0xFFFFFFFF = w" by (intro bit_word_eqI) (auto simp: small_def bit_simps not_less [symmetric])
next
  assume "w AND 0xFFFFFFFF = w"
  moreover have "\<not> bit (w AND 0xFFFFFFFF) i" if "i \<ge> 32" for i using that by (simp add: bit_simps)
  ultimately show "small w" by (simp add: small_def)
qed

lemma small_xor [simp]: "small v \<Longrightarrow> small w \<Longrightarrow> small (v XOR w)"
  by (simp add: small_def bit_simps)

lemma small_rot32 [simp]: "small (rot32 n w)"
  by (simp add: small_def rot32_def bit_simps)

lemma bit_rot32: "small w \<Longrightarrow> 0 < n \<Longrightarrow> n < 32 \<Longrightarrow> bit (rot32 n w) i = (i < 32 \<and> bit w (if n \<le> i then i - n else i + 32 - n))"
  by (auto simp: rot32_def bit_simps small_def add.commute)

lemma rot32_back: "small w \<Longrightarrow> rot32 31 (rot32 1 w) = w" "small w \<Longrightarrow> rot32 1 (rot32 31 w) = w"
proof -
  assume w: "small w"
  have "bit (rot32 31 (rot32 1 w)) i = bit w i" "bit (rot32 1 (rot32 31 w)) i = bit w i" for i
  proof -
    consider "i = 0" | "i = 31" | "0 < i" "i < 31" | "32 \<le> i" by linarith
    then show "bit (rot32 31 (rot32 1 w)) i = bit w i" "bit (rot32 1 (rot32 31 w)) i = bit w i"
      using w by (cases; simp add: bit_rot32 small_def)+
  qed
  then show "rot32 31 (rot32 1 w) = w" "rot32 1 (rot32 31 w) = w" by (auto intro: bit_word_eqI)
qed

lemmas rot32_back_simps [simp] = rot32_back rot32_back [unfolded One_nat_def]

definition fits :: "nat \<Rightarrow> u64 \<Rightarrow> bool" where
  "fits n m \<longleftrightarrow> n \<le> 16 \<and> (\<forall>i. bit m i \<longrightarrow> i + n < 32)"

lemma fits_masks [simp]:
  "fits 4 0x0F0F0F0F" "fits 16 0x0000FFFF" "fits 2 0x33333333" "fits 8 0x00FF00FF" "fits 0 0xAAAAAAAA" "fits 0 0x10101010"
proof -
  have r: "fits n m" if "n \<le> 16" "push_bit n m AND 0xFFFFFFFF = push_bit n m" "m AND 0xFFFFFFFF = m" for n and m :: u64
  proof -
    have "i + n < 32" if b: "bit m i" for i
    proof (rule ccontr)
      assume "\<not> i + n < 32"
      moreover have "i < 32" using b that small_iff [of m] \<open>m AND 0xFFFFFFFF = m\<close> by (auto simp: small_def not_le [symmetric])
      moreover have "bit (push_bit n m) (i + n)" using b calculation \<open>n \<le> 16\<close> by (simp add: bit_simps)
      ultimately show False using \<open>push_bit n m AND 0xFFFFFFFF = push_bit n m\<close> small_iff [of "push_bit n m"] by (simp add: small_def)
    qed
    then show ?thesis using that by (simp add: fits_def)
  qed
  show "fits 4 0x0F0F0F0F" "fits 16 0x0000FFFF" "fits 2 0x33333333" "fits 8 0x00FF00FF" "fits 0 0xAAAAAAAA" "fits 0 0x10101010"
    by (rule r; simp)+
qed

lemma bit_swap:
  assumes "fits n m"
  shows "bit (fst (swap_bits n m (X, Y))) i = (if n \<le> i \<and> bit m (i - n) then bit Y (i - n) else bit X i)"
    "bit (snd (swap_bits n m (X, Y))) i = (if bit m i then bit X (i + n) else bit Y i)"
  using assms bit_imp_le_length [of X i] bit_imp_le_length [of "m" "i - n"]
  by (auto simp: swap_bits_def Let_def bit_simps fits_def add.commute)

lemma small_swap [simp]: "fits n m \<Longrightarrow> small2 p \<Longrightarrow> small2 (swap_bits n m p)"
  by (cases p) (auto simp: small2_def small_def bit_swap fits_def)

lemma swap_twice [simp]: "fits n m \<Longrightarrow> swap_bits n m (swap_bits n m p) = p"
proof -
  assume f: "fits n m"
  obtain X Y where p: "p = (X, Y)" by fastforce
  obtain X' Y' where q: "swap_bits n m (X, Y) = (X', Y')" by fastforce
  have b: "bit X' i = (if n \<le> i \<and> bit m (i - n) then bit Y (i - n) else bit X i)"
    "bit Y' i = (if bit m i then bit X (i + n) else bit Y i)" for i
    using bit_swap [OF f, of X Y i] q by simp_all
  have "fst (swap_bits n m (X', Y')) = X" "snd (swap_bits n m (X', Y')) = Y"
    by (rule bit_word_eqI; simp add: bit_swap [OF f] b)+
  then have "swap_bits n m (X', Y') = (X, Y)" by (simp add: prod_eq_iff)
  then show ?thesis using p q by simp
qed

lemma flip_flip [simp]: "flip_pair (flip_pair p) = p" "small2 (flip_pair p) = small2 p"
  "fst (flip_pair p) = snd p" "snd (flip_pair p) = fst p"
  by (auto simp: flip_pair_def small2_def split: prod.split)

lemma flip_make [simp]: "flip_pair (x, y) = (y, x)"
  by (simp add: flip_pair_def)

lemma flip_eq: "(snd p, fst p) = flip_pair p"
  by (simp add: flip_pair_def split: prod.split)

lemma small2_pair [simp]: "small2 (x, y) \<longleftrightarrow> small x \<and> small y"
  by (simp add: small2_def)

lemma DES_IP_eq:
  "DES_IP p = (let p = flip_pair (swap_bits 8 0x00FF00FF (swap_bits 2 0x33333333 (flip_pair (swap_bits 16 0x0000FFFF (swap_bits 4 0x0F0F0F0F p)))));
     q = swap_bits 0 0xAAAAAAAA (fst p, rot32 1 (snd p)) in (rot32 1 (fst q), snd q))"
  by (simp add: DES_IP_def Let_def split_beta)

lemma DES_FP_eq:
  "DES_FP p = (let q = swap_bits 0 0xAAAAAAAA (rot32 31 (fst p), snd p)
     in swap_bits 4 0x0F0F0F0F (swap_bits 16 0x0000FFFF (flip_pair (swap_bits 2 0x33333333 (swap_bits 8 0x00FF00FF (flip_pair (fst q, rot32 31 (snd q))))))))"
  by (simp add: DES_FP_def Let_def split_beta)

lemma small2D [simp, dest]: "small2 p \<Longrightarrow> small (fst p)" "small2 p \<Longrightarrow> small (snd p)"
  by (simp_all add: small2_def)

lemma small_DES_IP [simp]: "small2 p \<Longrightarrow> small2 (DES_IP p)"
  unfolding DES_IP_eq Let_def by simp

lemma FP_IP [simp]: "small2 p \<Longrightarrow> DES_FP (DES_IP p) = p"
  unfolding DES_IP_eq DES_FP_eq Let_def by simp

lemma IP_FP [simp]: "small2 p \<Longrightarrow> DES_IP (DES_FP p) = p"
  unfolding DES_IP_eq DES_FP_eq Let_def by simp

lemma small_DES_FP [simp]: "small2 p \<Longrightarrow> small2 (DES_FP p)"
  unfolding DES_FP_eq Let_def by simp

section \<open>The rounds\<close>

lemma six_less [simp]: "six n T < 64"
proof -
  have "drop_bit n T AND 0x3F \<le> 0x3F" by (rule word_and_le1)
  then have "unat (drop_bit n T AND 0x3F) \<le> unat (0x3F :: u64)" by (simp only: word_le_nat_alt)
  then show ?thesis by (simp add: six_def)
qed

lemma SB_small:
  "list_all small SB1" "list_all small SB2" "list_all small SB3" "list_all small SB4"
  "list_all small SB5" "list_all small SB6" "list_all small SB7" "list_all small SB8"
  by (simp_all add: small_iff SB1_def SB2_def SB3_def SB4_def SB5_def SB6_def SB7_def SB8_def)

lemma SB_length [simp]:
  "length SB1 = 64" "length SB2 = 64" "length SB3 = 64" "length SB4 = 64"
  "length SB5 = 64" "length SB6 = 64" "length SB7 = 64" "length SB8 = 64"
  by (simp_all add: SB1_def SB2_def SB3_def SB4_def SB5_def SB6_def SB7_def SB8_def)

lemma small_SB [simp]:
  assumes "i < 64"
  shows "small (SB1 ! i)" "small (SB2 ! i)" "small (SB3 ! i)" "small (SB4 ! i)"
    "small (SB5 ! i)" "small (SB6 ! i)" "small (SB7 ! i)" "small (SB8 ! i)"
  using SB_small assms by (simp_all add: list_all_length)

definition des_f :: "u64 \<times> u64 \<Rightarrow> u64 \<Rightarrow> u64" where
  "des_f k X = DES_ROUND (fst k) (snd k) X 0"

lemma DES_ROUND_f: "DES_ROUND a b X Y = Y XOR des_f (a, b) X"
  by (simp add: DES_ROUND_def des_f_def Let_def xor.assoc)

lemma small_des_f [simp]: "small (des_f k X)"
  by (simp add: des_f_def DES_ROUND_def Let_def)

definition feistel :: "u64 \<times> u64 \<Rightarrow> u64 \<times> u64 \<Rightarrow> u64 \<times> u64" where
  "feistel k p = (snd p, fst p XOR des_f k (snd p))"

fun pairs :: "'a list \<Rightarrow> ('a \<times> 'a) list" where
  "pairs (a # b # xs) = (a, b) # pairs xs"
| "pairs _ = []"

lemma pairs_length [simp]: "length (pairs xs) = length xs div 2"
  by (induction xs rule: pairs.induct) simp_all

lemma des_rounds_feistel:
  "length sk mod 4 = 0 \<Longrightarrow> des_rounds sk p = fold feistel (pairs sk) p"
  by (induction sk p rule: des_rounds.induct) (auto simp: feistel_def DES_ROUND_f Let_def)

lemma feistel_back: "flip_pair (feistel k (flip_pair (feistel k p))) = p"
  by (simp add: feistel_def flip_pair_def xor.assoc split: prod.split)

lemma small_feistel: "small2 p \<Longrightarrow> small2 (fold feistel ks p)"
  by (induction ks arbitrary: p) (simp_all add: feistel_def)

lemma feistel_inverse: "flip_pair (fold feistel (rev ks) (flip_pair (fold feistel ks p))) = p"
proof (induction ks arbitrary: p)
  case (Cons k ks)
  have "fold feistel (rev ks) (flip_pair (fold feistel ks (feistel k p))) = flip_pair (feistel k p)"
    using Cons [of "feistel k p"] by (metis flip_flip(1))
  then show ?case by (simp add: feistel_back)
qed simp

section \<open>Octets\<close>

lemma bit_GET_BE:
  "bit (GET_ULONG_BE b i) j = (j < 32 \<and> bit (b ! (i + (3 - j div 8))) (j mod 8))"
proof -
  consider "j < 8" | "8 \<le> j" "j < 16" | "16 \<le> j" "j < 24" | "24 \<le> j" "j < 32" | "32 \<le> j" by linarith
  then show ?thesis
  proof cases
    case 2 then have "j div 8 = 1" "j mod 8 = j - 8" by presburger+
    with 2 show ?thesis by (auto simp: GET_ULONG_BE_def bit_simps dest: bit_imp_le_length)
  next
    case 3 then have "j div 8 = 2" "j mod 8 = j - 16" by presburger+
    with 3 show ?thesis by (auto simp: GET_ULONG_BE_def bit_simps dest: bit_imp_le_length)
  next
    case 4 then have "j div 8 = 3" "j mod 8 = j - 24" by presburger+
    with 4 show ?thesis by (auto simp: GET_ULONG_BE_def bit_simps dest: bit_imp_le_length)
  qed (auto simp: GET_ULONG_BE_def bit_simps dest: bit_imp_le_length)
qed

lemma small_GET_BE [simp]: "small (GET_ULONG_BE b i)"
  by (simp add: small_def bit_GET_BE)

lemma length_PUT_BE [simp]: "length (PUT_ULONG_BE w) = 4"
  by (simp add: PUT_ULONG_BE_def)

lemma GET_PUT_BE:
  assumes "small v" "small w"
  shows "GET_ULONG_BE (PUT_ULONG_BE v @ PUT_ULONG_BE w) 0 = v" "GET_ULONG_BE (PUT_ULONG_BE v @ PUT_ULONG_BE w) 4 = w"
proof -
  have r: "GET_ULONG_BE bs i = v" if "small v" "bs ! i = ucast (drop_bit 24 v)" "bs ! (i + 1) = ucast (drop_bit 16 v)"
    "bs ! (i + 2) = ucast (drop_bit 8 v)" "bs ! (i + 3) = ucast v" for bs i v
  proof (rule bit_word_eqI)
    fix j :: nat
    consider "j < 8" | "8 \<le> j" "j < 16" | "16 \<le> j" "j < 24" | "24 \<le> j" "j < 32" | "32 \<le> j" by linarith
    then show "bit (GET_ULONG_BE bs i) j = bit v j"
      using that by cases (auto simp: GET_ULONG_BE_def bit_simps small_def dest: bit_imp_le_length)
  qed
  show "GET_ULONG_BE (PUT_ULONG_BE v @ PUT_ULONG_BE w) 0 = v" "GET_ULONG_BE (PUT_ULONG_BE v @ PUT_ULONG_BE w) 4 = w"
    using assms by (auto intro!: r simp: PUT_ULONG_BE_def)
qed

lemma PUT_GET_BE:
  assumes "i + 3 < length b"
  shows "PUT_ULONG_BE (GET_ULONG_BE b i) = [b ! i, b ! (i + 1), b ! (i + 2), b ! (i + 3)]"
proof -
  have o: "ucast (drop_bit (8 * k) (GET_ULONG_BE b i)) = b ! (i + (3 - k))" if "k < 4" for k
  proof (rule bit_word_eqI)
    fix j assume j: "j < LENGTH(8)"
    then have "(8 * k + j) div 8 = k" "(8 * k + j) mod 8 = j" by auto
    then show "bit (ucast (drop_bit (8 * k) (GET_ULONG_BE b i)) :: u8) j = bit (b ! (i + (3 - k))) j"
      using j that by (auto simp: bit_simps bit_GET_BE add.commute)
  qed
  show ?thesis using o [of 0] o [of 1] o [of 2] o [of 3] by (simp add: PUT_ULONG_BE_def)
qed

section \<open>Decryption\<close>

lemma length_schedule [simp]: "length (des_schedule is p) = 2 * length is"
  by (induction "is" p rule: des_schedule.induct) (simp_all add: Let_def des_subkeys_def)

lemma length_setkey [simp]: "length (des_setkey key) = 32"
  by (simp add: des_setkey_def)

lemma setkey_dec_rev: "length (des_setkey_dec key) = 32" "pairs (des_setkey_dec key) = rev (pairs (des_setkey key))"
proof -
  have u: "[0..<8] = [0, 1, 2, 3, 4, 5, 6, 7 :: nat]" by code_simp
  obtain a where a: "des_setkey key = a" "length a = 32" by simp
  obtain a0 a1 a2 a3 a4 a5 a6 a7 a8 a9 a10 a11 a12 a13 a14 a15 a16 a17 a18 a19 a20 a21 a22 a23 a24 a25 a26 a27 a28 a29 a30 a31
    where e: "a = [a0, a1, a2, a3, a4, a5, a6, a7, a8, a9, a10, a11, a12, a13, a14, a15, a16, a17, a18, a19, a20, a21, a22,
       a23, a24, a25, a26, a27, a28, a29, a30, a31]"
    using a(2) by (auto simp: length_Suc_conv numeral_eq_Suc)
  show "length (des_setkey_dec key) = 32" "pairs (des_setkey_dec key) = rev (pairs (des_setkey key))"
    by (simp_all add: des_setkey_dec_def a(1) e u SWAP_def)
qed

lemma des_crypt_eq:
  assumes "length sk = 32"
  shows "des_crypt_ecb sk b = (let q = DES_FP (flip_pair (fold feistel (pairs sk) (DES_IP (GET_ULONG_BE b 0, GET_ULONG_BE b 4))))
     in PUT_ULONG_BE (fst q) @ PUT_ULONG_BE (snd q))"
  using assms by (simp add: des_crypt_ecb_def des_rounds_feistel Let_def flip_pair_def split_beta)

text \<open>DES decryption inverts encryption: a block encrypted under a key's schedule is recovered with the decryption
  schedule of the same key, for every key and every block of eight octets.\<close>

theorem des_roundtrip:
  assumes "length b = 8"
  shows "des_crypt_ecb (des_setkey_dec key) (des_crypt_ecb (des_setkey_enc key) b) = b"
proof -
  let ?p = "(GET_ULONG_BE b 0, GET_ULONG_BE b 4)" and ?ks = "pairs (des_setkey key)"
  let ?q = "flip_pair (fold feistel ?ks (DES_IP ?p))"
  have q: "small2 (DES_FP ?q)" by (intro small_DES_FP) (simp add: small_feistel)
  have "(GET_ULONG_BE (des_crypt_ecb (des_setkey_enc key) b) 0, GET_ULONG_BE (des_crypt_ecb (des_setkey_enc key) b) 4) = DES_FP ?q"
    using GET_PUT_BE [of "fst (DES_FP ?q)" "snd (DES_FP ?q)"] q by (simp add: des_crypt_eq des_setkey_enc_def Let_def)
  then have "des_crypt_ecb (des_setkey_dec key) (des_crypt_ecb (des_setkey_enc key) b)
      = PUT_ULONG_BE (fst (DES_FP (DES_IP ?p))) @ PUT_ULONG_BE (snd (DES_FP (DES_IP ?p)))"
    by (simp add: des_crypt_eq setkey_dec_rev Let_def small_feistel feistel_inverse del: FP_IP)
  also have "\<dots> = b"
    using assms by (simp add: PUT_GET_BE) (auto simp: length_Suc_conv numeral_eq_Suc)
  finally show ?thesis .
qed

theorem des_roundtrip_witness:
  "des_crypt_ecb (des_setkey_dec [0x13, 0x34, 0x57, 0x79, 0x9b, 0xbc, 0xdf, 0xf1])
     (des_crypt_ecb (des_setkey_enc [0x13, 0x34, 0x57, 0x79, 0x9b, 0xbc, 0xdf, 0xf1]) [1, 2, 3, 4, 5, 6, 7, 8]) = [1, 2, 3, 4, 5, 6, 7, 8]"
  by (rule des_roundtrip) simp

end
