(* ===== verification/Des_Fips.thy ===== *)
theory Des_Fips
  imports Des
begin

text \<open>
  The Data Encryption Standard as FIPS 46-3 states it, on lists of bits and with the tables of the standard, and the
  proof that \<open>src/lwip/src/netif/ppp/polarssl/des.c\<close> computes it. The code works on registers that are rotated by one
  bit, keeps the eight six-bit groups of a round key in two words, and looks up the S-box and the permutation after
  it in one table.
\<close>

section \<open>The standard\<close>

type_synonym bits = "bool list"

definition fips_IP :: "nat list" where
  "fips_IP = [58, 50, 42, 34, 26, 18, 10, 2, 60, 52, 44, 36, 28, 20, 12, 4,
     62, 54, 46, 38, 30, 22, 14, 6, 64, 56, 48, 40, 32, 24, 16, 8,
     57, 49, 41, 33, 25, 17, 9, 1, 59, 51, 43, 35, 27, 19, 11, 3,
     61, 53, 45, 37, 29, 21, 13, 5, 63, 55, 47, 39, 31, 23, 15, 7]"

definition fips_FP :: "nat list" where
  "fips_FP = [40, 8, 48, 16, 56, 24, 64, 32, 39, 7, 47, 15, 55, 23, 63, 31,
     38, 6, 46, 14, 54, 22, 62, 30, 37, 5, 45, 13, 53, 21, 61, 29,
     36, 4, 44, 12, 52, 20, 60, 28, 35, 3, 43, 11, 51, 19, 59, 27,
     34, 2, 42, 10, 50, 18, 58, 26, 33, 1, 41, 9, 49, 17, 57, 25]"

definition fips_E :: "nat list" where
  "fips_E = [32, 1, 2, 3, 4, 5, 4, 5, 6, 7, 8, 9, 8, 9, 10, 11,
     12, 13, 12, 13, 14, 15, 16, 17, 16, 17, 18, 19, 20, 21, 20, 21,
     22, 23, 24, 25, 24, 25, 26, 27, 28, 29, 28, 29, 30, 31, 32, 1]"

definition fips_P :: "nat list" where
  "fips_P = [16, 7, 20, 21, 29, 12, 28, 17, 1, 15, 23, 26, 5, 18, 31, 10,
     2, 8, 24, 14, 32, 27, 3, 9, 19, 13, 30, 6, 22, 11, 4, 25]"

definition fips_PC1 :: "nat list" where
  "fips_PC1 = [57, 49, 41, 33, 25, 17, 9, 1, 58, 50, 42, 34, 26, 18, 10, 2,
     59, 51, 43, 35, 27, 19, 11, 3, 60, 52, 44, 36, 63, 55, 47, 39,
     31, 23, 15, 7, 62, 54, 46, 38, 30, 22, 14, 6, 61, 53, 45, 37,
     29, 21, 13, 5, 28, 20, 12, 4]"

definition fips_PC2 :: "nat list" where
  "fips_PC2 = [14, 17, 11, 24, 1, 5, 3, 28, 15, 6, 21, 10, 23, 19, 12, 4,
     26, 8, 16, 7, 27, 20, 13, 2, 41, 52, 31, 37, 47, 55, 30, 40,
     51, 45, 33, 48, 44, 49, 39, 56, 34, 53, 46, 42, 50, 36, 29, 32]"

definition fips_S :: "nat list list" where
  "fips_S =
    [[14, 4, 13, 1, 2, 15, 11, 8, 3, 10, 6, 12, 5, 9, 0, 7, 0, 15, 7, 4, 14, 2, 13, 1, 10, 6, 12, 11, 9, 5, 3, 8,
      4, 1, 14, 8, 13, 6, 2, 11, 15, 12, 9, 7, 3, 10, 5, 0, 15, 12, 8, 2, 4, 9, 1, 7, 5, 11, 3, 14, 10, 0, 6, 13],
     [15, 1, 8, 14, 6, 11, 3, 4, 9, 7, 2, 13, 12, 0, 5, 10, 3, 13, 4, 7, 15, 2, 8, 14, 12, 0, 1, 10, 6, 9, 11, 5,
      0, 14, 7, 11, 10, 4, 13, 1, 5, 8, 12, 6, 9, 3, 2, 15, 13, 8, 10, 1, 3, 15, 4, 2, 11, 6, 7, 12, 0, 5, 14, 9],
     [10, 0, 9, 14, 6, 3, 15, 5, 1, 13, 12, 7, 11, 4, 2, 8, 13, 7, 0, 9, 3, 4, 6, 10, 2, 8, 5, 14, 12, 11, 15, 1,
      13, 6, 4, 9, 8, 15, 3, 0, 11, 1, 2, 12, 5, 10, 14, 7, 1, 10, 13, 0, 6, 9, 8, 7, 4, 15, 14, 3, 11, 5, 2, 12],
     [7, 13, 14, 3, 0, 6, 9, 10, 1, 2, 8, 5, 11, 12, 4, 15, 13, 8, 11, 5, 6, 15, 0, 3, 4, 7, 2, 12, 1, 10, 14, 9,
      10, 6, 9, 0, 12, 11, 7, 13, 15, 1, 3, 14, 5, 2, 8, 4, 3, 15, 0, 6, 10, 1, 13, 8, 9, 4, 5, 11, 12, 7, 2, 14],
     [2, 12, 4, 1, 7, 10, 11, 6, 8, 5, 3, 15, 13, 0, 14, 9, 14, 11, 2, 12, 4, 7, 13, 1, 5, 0, 15, 10, 3, 9, 8, 6,
      4, 2, 1, 11, 10, 13, 7, 8, 15, 9, 12, 5, 6, 3, 0, 14, 11, 8, 12, 7, 1, 14, 2, 13, 6, 15, 0, 9, 10, 4, 5, 3],
     [12, 1, 10, 15, 9, 2, 6, 8, 0, 13, 3, 4, 14, 7, 5, 11, 10, 15, 4, 2, 7, 12, 9, 5, 6, 1, 13, 14, 0, 11, 3, 8,
      9, 14, 15, 5, 2, 8, 12, 3, 7, 0, 4, 10, 1, 13, 11, 6, 4, 3, 2, 12, 9, 5, 15, 10, 11, 14, 1, 7, 6, 0, 8, 13],
     [4, 11, 2, 14, 15, 0, 8, 13, 3, 12, 9, 7, 5, 10, 6, 1, 13, 0, 11, 7, 4, 9, 1, 10, 14, 3, 5, 12, 2, 15, 8, 6,
      1, 4, 11, 13, 12, 3, 7, 14, 10, 15, 6, 8, 0, 5, 9, 2, 6, 11, 13, 8, 1, 4, 10, 7, 9, 5, 0, 15, 14, 2, 3, 12],
     [13, 2, 8, 4, 6, 15, 11, 1, 10, 9, 3, 14, 5, 0, 12, 7, 1, 15, 13, 8, 10, 3, 7, 4, 12, 5, 6, 11, 0, 14, 9, 2,
      7, 11, 4, 1, 9, 12, 14, 2, 0, 6, 10, 13, 15, 3, 5, 8, 2, 1, 14, 7, 4, 10, 8, 13, 15, 12, 9, 0, 3, 5, 6, 11]]"

definition fips_shifts :: "nat list" where
  "fips_shifts = [1, 1, 2, 2, 2, 2, 2, 2, 1, 2, 2, 2, 2, 2, 2, 1]"

definition permute :: "nat list \<Rightarrow> bits \<Rightarrow> bits" where
  "permute t b = map (\<lambda>i. b ! (i - 1)) t"

definition xor_bits :: "bits \<Rightarrow> bits \<Rightarrow> bits" where
  "xor_bits b c = map2 (\<noteq>) b c"

definition bits_nat :: "bits \<Rightarrow> nat" where
  "bits_nat b = fold (\<lambda>x n. 2 * n + of_bool x) b 0"

definition nat_bits :: "nat \<Rightarrow> nat \<Rightarrow> bits" where
  "nat_bits n v = map (\<lambda>i. odd (v div 2 ^ (n - 1 - i))) [0..<n]"

definition fips_sbox :: "nat \<Rightarrow> bits \<Rightarrow> bits" where
  "fips_sbox k b = nat_bits 4 (fips_S ! k ! (16 * bits_nat [b ! 0, b ! 5] + bits_nat [b ! 1, b ! 2, b ! 3, b ! 4]))"

definition fips_f :: "bits \<Rightarrow> bits \<Rightarrow> bits" where
  "fips_f R K =
     (let x = xor_bits (permute fips_E R) K
      in permute fips_P (concat (map (\<lambda>k. fips_sbox k (take 6 (drop (6 * k) x))) [0..<8])))"

definition fips_round :: "bits \<Rightarrow> bits \<times> bits \<Rightarrow> bits \<times> bits" where
  "fips_round K = (\<lambda>(L, R). (R, xor_bits L (fips_f R K)))"

fun fips_schedule :: "nat list \<Rightarrow> bits \<times> bits \<Rightarrow> bits list" where
  "fips_schedule [] p = []"
| "fips_schedule (s # ss) (C, D) =
     (let C = rotate s C; D = rotate s D in permute fips_PC2 (C @ D) # fips_schedule ss (C, D))"

definition fips_keys :: "bits \<Rightarrow> bits list" where
  "fips_keys key = (let p = permute fips_PC1 key in fips_schedule fips_shifts (take 28 p, drop 28 p))"

definition fips_encrypt :: "bits \<Rightarrow> bits \<Rightarrow> bits" where
  "fips_encrypt key b =
     (let p = permute fips_IP b; (L, R) = fold fips_round (fips_keys key) (take 32 p, drop 32 p)
      in permute fips_FP (R @ L))"

text \<open>The bits of a string of octets, most significant first.\<close>

definition octet_bits :: "octets \<Rightarrow> bits" where
  "octet_bits bs = concat (map (\<lambda>b. map (\<lambda>i. bit b (7 - i)) [0..<8]) bs)"

section \<open>Bits of a register\<close>

definition bits32 :: "u64 \<Rightarrow> bits" where
  "bits32 w = map (\<lambda>i. bit w (31 - i)) [0..<32]"

definition rbits :: "u64 \<Rightarrow> bits" where
  "rbits w = map (\<lambda>i. bit w ((32 - i) mod 32)) [0..<32]"

definition bits28 :: "u64 \<Rightarrow> bits" where
  "bits28 w = map (\<lambda>i. bit w (27 - i)) [0..<28]"

lemma bit_swap_pair:
  assumes "fits n m"
  shows "bit (fst (swap_bits n m p)) i = (if n \<le> i \<and> bit m (i - n) then bit (snd p) (i - n) else bit (fst p) i)"
    "bit (snd (swap_bits n m p)) i = (if bit m i then bit (fst p) (i + n) else bit (snd p) i)"
  using bit_swap [OF assms, of "fst p" "snd p" i] by simp_all

lemma upt8: "[0..<8] = [0, 1, 2, 3, 4, 5, 6, 7 :: nat]" by code_simp
lemma upt28: "[0..<28] = [0, 1, 2, 3, 4, 5, 6, 7, 8, 9, 10, 11, 12, 13, 14, 15, 16, 17, 18, 19, 20, 21, 22, 23, 24, 25,
    26, 27 :: nat]" by code_simp
lemma upt32: "[0..<32] = [0, 1, 2, 3, 4, 5, 6, 7, 8, 9, 10, 11, 12, 13, 14, 15, 16, 17, 18, 19, 20, 21, 22, 23, 24, 25,
    26, 27, 28, 29, 30, 31 :: nat]" by code_simp

lemma IP_fips:
  assumes "small2 p"
  shows "rbits (fst (DES_IP p)) @ rbits (snd (DES_IP p)) = permute fips_IP (bits32 (fst p) @ bits32 (snd p))"
  unfolding DES_IP_eq Let_def rbits_def bits32_def permute_def fips_IP_def upt32
  using assms by (simp add: bit_swap_pair bit_rot32)

lemma octet_bits_GET:
  assumes "length b = 8"
  shows "bits32 (GET_ULONG_BE b 0) @ bits32 (GET_ULONG_BE b 4) = octet_bits b"
proof -
  obtain b0 b1 b2 b3 b4 b5 b6 b7 where b: "b = [b0, b1, b2, b3, b4, b5, b6, b7]"
    using assms by (auto simp: length_Suc_conv numeral_eq_Suc)
  show ?thesis unfolding b octet_bits_def bits32_def upt8 upt32 by (simp add: bit_GET_BE)
qed

lemma length_bits [simp]: "length (bits32 w) = 32" "length (rbits w) = 32" "length (bits28 w) = 28"
  by (simp_all add: bits32_def rbits_def bits28_def)

lemma FP_IP_bits:
  assumes "length b = 64"
  shows "permute fips_FP (permute fips_IP b) = b"
proof -
  have c: "list_all (\<lambda>i. fips_IP ! (fips_FP ! i - 1) = i + 1 \<and> fips_FP ! i \<le> 64 \<and> 0 < fips_FP ! i) [0..<64]"
    by code_simp
  have l: "length fips_FP = 64" "length fips_IP = 64" by (simp_all add: fips_FP_def fips_IP_def)
  show ?thesis
  proof (rule nth_equalityI)
    show "length (permute fips_FP (permute fips_IP b)) = length b" using l assms by (simp add: permute_def)
  next
    fix i assume "i < length (permute fips_FP (permute fips_IP b))"
    then have i: "i < 64" using l by (simp add: permute_def)
    then have f: "fips_IP ! (fips_FP ! i - 1) = i + 1" "fips_FP ! i \<le> 64" "0 < fips_FP ! i"
      using c by (simp_all add: list_all_length)
    then have "fips_FP ! i - 1 < 64" by simp
    then show "permute fips_FP (permute fips_IP b) ! i = b ! i"
      using f(1) i l by (simp add: permute_def)
  qed
qed

lemma FP_fips:
  assumes "small2 p"
  shows "bits32 (fst (DES_FP p)) @ bits32 (snd (DES_FP p)) = permute fips_FP (rbits (fst p) @ rbits (snd p))"
  using IP_fips [OF small_DES_FP [OF assms]] FP_IP_bits [of "bits32 (fst (DES_FP p)) @ bits32 (snd (DES_FP p))"] assms
  by simp

section \<open>Key schedule\<close>

lemma bit_nibble: "bit (nibble n X) k = (k < 4 \<and> bit X (n + k))"
proof -
  have "bit (nibble n X) k = bit (drop_bit n X AND 0xF) k" by (simp only: nibble_def bit_unsigned_iff) (auto simp: possible_bit_def)
  moreover have "(0xF :: u64) = mask 4" by (simp add: mask_eq_exp_minus_1)
  ultimately show ?thesis
    by (auto simp: bit_and_iff bit_mask_iff bit_drop_bit_eq possible_bit_def dest: bit_imp_le_length)
qed

lemma nibble_less: "nibble n X < 16"
proof -
  have "drop_bit n X AND 0xF \<le> 0xF" by (rule word_and_le1)
  then have "unat (drop_bit n X AND 0xF) \<le> unat (0xF :: u64)" by (simp only: word_le_nat_alt)
  then show ?thesis by (simp add: nibble_def)
qed

lemma half_tables:
  "list_all (\<lambda>v. list_all (\<lambda>j. bit (LHs ! v) j = (j mod 8 = 0 \<and> bit v (j div 8)) \<and>
      bit (RHs ! v) j = (j mod 8 = 0 \<and> bit v (3 - j div 8))) [0..<32]) [0..<16]"
  unfolding LHs_def RHs_def by code_simp

lemma bit_half_tables:
  assumes "j < 32"
  shows "bit (LHs ! nibble n X) j = (j mod 8 = 0 \<and> bit X (n + j div 8))"
    "bit (RHs ! nibble n X) j = (j mod 8 = 0 \<and> bit X (n + (3 - j div 8)))"
proof -
  have "bit (LHs ! nibble n X) j = (j mod 8 = 0 \<and> bit (nibble n X) (j div 8)) \<and>
      bit (RHs ! nibble n X) j = (j mod 8 = 0 \<and> bit (nibble n X) (3 - j div 8))"
    using half_tables nibble_less [of n X] assms by (auto simp: list_all_length)
  then show "bit (LHs ! nibble n X) j = (j mod 8 = 0 \<and> bit X (n + j div 8))"
    "bit (RHs ! nibble n X) j = (j mod 8 = 0 \<and> bit X (n + (3 - j div 8)))"
    using assms by (auto simp: bit_nibble)
qed

lemma bit_times2: "bit ((w :: u64) * 2) k = (0 < k \<and> k < 64 \<and> bit w (k - 1))"
  using bit_double_iff [of w k] by (auto simp: mult.commute possible_bit_def)

definition choose_X :: "u64 \<Rightarrow> u64" where
  "choose_X X = (push_bit 3 (LHs ! nibble 0 X) OR push_bit 2 (LHs ! nibble 8 X)
            OR push_bit 1 (LHs ! nibble 16 X) OR LHs ! nibble 24 X
            OR push_bit 7 (LHs ! nibble 5 X) OR push_bit 6 (LHs ! nibble 13 X)
            OR push_bit 5 (LHs ! nibble 21 X) OR push_bit 4 (LHs ! nibble 29 X)) AND 0x0FFFFFFF"

definition choose_Y :: "u64 \<Rightarrow> u64" where
  "choose_Y Y = (push_bit 3 (RHs ! nibble 1 Y) OR push_bit 2 (RHs ! nibble 9 Y)
            OR push_bit 1 (RHs ! nibble 17 Y) OR RHs ! nibble 25 Y
            OR push_bit 7 (RHs ! nibble 4 Y) OR push_bit 6 (RHs ! nibble 12 Y)
            OR push_bit 5 (RHs ! nibble 20 Y) OR push_bit 4 (RHs ! nibble 28 Y)) AND 0x0FFFFFFF"

lemma des_pc1_choose:
  "des_pc1 key = (let p = swap_bits 0 0x10101010 (swap_bits 4 0x0F0F0F0F (GET_ULONG_BE key 4, GET_ULONG_BE key 0))
     in (choose_X (snd p), choose_Y (fst p)))"
  by (simp add: des_pc1_def choose_X_def choose_Y_def Let_def split_beta)

lemma bits28_choose:
  "bits28 (choose_X w) = map (bit w) [3, 11, 19, 27, 7, 15, 23, 31, 2, 10, 18, 26, 6, 14, 22, 30, 1, 9, 17, 25, 5, 13, 21, 29, 0, 8, 16, 24]"
  "bits28 (choose_Y w) = map (bit w) [1, 9, 17, 25, 5, 13, 21, 29, 2, 10, 18, 26, 6, 14, 22, 30, 3, 11, 19, 27, 7, 15, 23, 31, 4, 12, 20, 28]"
  unfolding bits28_def upt28 choose_X_def choose_Y_def
  by (simp_all add: bit_simps bit_half_tables bit_times2 numeral_2_eq_2 [symmetric])

lemma PC1_fips:
  assumes "length key = 8"
  shows "bits28 (fst (des_pc1 key)) = take 28 (permute fips_PC1 (octet_bits key))"
    "bits28 (snd (des_pc1 key)) = drop 28 (permute fips_PC1 (octet_bits key))"
  unfolding octet_bits_GET [OF assms, symmetric] des_pc1_choose Let_def fst_conv snd_conv bits28_choose permute_def fips_PC1_def
    bits32_def upt32
  by (simp_all add: bit_swap_pair)

definition small28 :: "u64 \<Rightarrow> bool" where
  "small28 w \<longleftrightarrow> (\<forall>i \<ge> 28. \<not> bit w i)"

lemma bit_mask28 [simp]: "bit (0x0FFFFFFF :: int) i \<longleftrightarrow> i < 28"
proof -
  have "(0x0FFFFFFF :: int) = mask 28" by (simp add: mask_eq_exp_minus_1)
  then show ?thesis by (simp only: bit_mask_iff) simp
qed

lemma small28_rot [simp]: "small28 (rot28 n w)" and small28_pc1: "small28 (fst (des_pc1 key))" "small28 (snd (des_pc1 key))"
  by (simp_all add: small28_def rot28_def des_pc1_def Let_def split_beta bit_simps)

lemma bit_rot28: "small28 w \<Longrightarrow> n < 28 \<Longrightarrow> bit (rot28 n w) i = (i < 28 \<and> bit w (if n \<le> i then i - n else i + 28 - n))"
  by (auto simp: rot28_def bit_simps small28_def add.commute)

lemma bits28_rot:
  assumes "small28 w" "0 < n" "n < 28"
  shows "bits28 (rot28 n w) = rotate n (bits28 w)"
proof (rule nth_equalityI)
  fix i assume "i < length (bits28 (rot28 n w))"
  then have i: "i < 28" by simp
  have m: "(n + i) mod 28 = (if n + i < 28 then n + i else n + i - 28)" using i assms by (simp add: mod_if)
  show "bits28 (rot28 n w) ! i = rotate n (bits28 w) ! i"
    using assms i by (auto simp: bits28_def nth_rotate bit_rot28 m add.commute [of i n])
qed simp

definition packed :: "u64 \<times> u64 \<Rightarrow> bits \<Rightarrow> bool" where
  "packed k K \<longleftrightarrow> length K = 48 \<and>
     map (bit (snd k)) [29, 28, 27, 26, 25, 24] @ map (bit (fst k)) [29, 28, 27, 26, 25, 24]
     @ map (bit (snd k)) [21, 20, 19, 18, 17, 16] @ map (bit (fst k)) [21, 20, 19, 18, 17, 16]
     @ map (bit (snd k)) [13, 12, 11, 10, 9, 8] @ map (bit (fst k)) [13, 12, 11, 10, 9, 8]
     @ map (bit (snd k)) [5, 4, 3, 2, 1, 0] @ map (bit (fst k)) [5, 4, 3, 2, 1, 0] = K"

lemma subkeys_packed:
  "packed (des_subkeys X Y ! 0, des_subkeys X Y ! 1) (permute fips_PC2 (bits28 X @ bits28 Y))"
  unfolding packed_def des_subkeys_def permute_def fips_PC2_def bits28_def upt28
  by (simp add: bit_simps bit_times2 numeral_2_eq_2 [symmetric])

section \<open>The round function\<close>

text \<open>Where the four output bits of each S-box end up in the rotated register.\<close>

definition spread_masks :: "u64 list list" where
  "spread_masks = [[0x01000000, 0x00010000, 0x00000400, 0x00000004],
     [0x00100000, 0x00000020, 0x80000000, 0x00008000],
     [0x00000200, 0x00020000, 0x00000008, 0x08000000],
     [0x00000080, 0x00002000, 0x00800000, 0x00000001],
     [0x02000000, 0x00080000, 0x00000100, 0x40000000],
     [0x20000000, 0x00000010, 0x00400000, 0x00004000],
     [0x00000002, 0x00200000, 0x00000800, 0x04000000],
     [0x10000000, 0x00000040, 0x00040000, 0x00001000]]"

definition spread :: "nat \<Rightarrow> bits \<Rightarrow> u64" where
  "spread k l = (if l ! 0 then spread_masks ! k ! 0 else 0) XOR (if l ! 1 then spread_masks ! k ! 1 else 0)
     XOR (if l ! 2 then spread_masks ! k ! 2 else 0) XOR (if l ! 3 then spread_masks ! k ! 3 else 0)"

lemma nat_bits_4: "nat_bits 4 v = [odd (v div 8), odd (v div 4), odd (v div 2), odd v]"
  by (simp add: nat_bits_def upt_rec)

lemmas sbox_eval = spread_def spread_masks_def fips_sbox_def fips_S_def nat_bits_4 bits_nat_def

lemma SB1_sbox: "SB1 ! bits_nat [b0, b1, b2, b3, b4, b5] = spread 0 (fips_sbox 0 [b0, b1, b2, b3, b4, b5])"
  unfolding SB1_def by (cases b0; cases b1; cases b2; cases b3; cases b4; cases b5; simp add: sbox_eval)

lemma SB2_sbox: "SB2 ! bits_nat [b0, b1, b2, b3, b4, b5] = spread 1 (fips_sbox 1 [b0, b1, b2, b3, b4, b5])"
  unfolding SB2_def by (cases b0; cases b1; cases b2; cases b3; cases b4; cases b5; simp add: sbox_eval)

lemma SB3_sbox: "SB3 ! bits_nat [b0, b1, b2, b3, b4, b5] = spread 2 (fips_sbox 2 [b0, b1, b2, b3, b4, b5])"
  unfolding SB3_def by (cases b0; cases b1; cases b2; cases b3; cases b4; cases b5; simp add: sbox_eval)

lemma SB4_sbox: "SB4 ! bits_nat [b0, b1, b2, b3, b4, b5] = spread 3 (fips_sbox 3 [b0, b1, b2, b3, b4, b5])"
  unfolding SB4_def by (cases b0; cases b1; cases b2; cases b3; cases b4; cases b5; simp add: sbox_eval)

lemma SB5_sbox: "SB5 ! bits_nat [b0, b1, b2, b3, b4, b5] = spread 4 (fips_sbox 4 [b0, b1, b2, b3, b4, b5])"
  unfolding SB5_def by (cases b0; cases b1; cases b2; cases b3; cases b4; cases b5; simp add: sbox_eval)

lemma SB6_sbox: "SB6 ! bits_nat [b0, b1, b2, b3, b4, b5] = spread 5 (fips_sbox 5 [b0, b1, b2, b3, b4, b5])"
  unfolding SB6_def by (cases b0; cases b1; cases b2; cases b3; cases b4; cases b5; simp add: sbox_eval)

lemma SB7_sbox: "SB7 ! bits_nat [b0, b1, b2, b3, b4, b5] = spread 6 (fips_sbox 6 [b0, b1, b2, b3, b4, b5])"
  unfolding SB7_def by (cases b0; cases b1; cases b2; cases b3; cases b4; cases b5; simp add: sbox_eval)

lemma SB8_sbox: "SB8 ! bits_nat [b0, b1, b2, b3, b4, b5] = spread 7 (fips_sbox 7 [b0, b1, b2, b3, b4, b5])"
  unfolding SB8_def by (cases b0; cases b1; cases b2; cases b3; cases b4; cases b5; simp add: sbox_eval)

lemma horner:
  fixes v :: nat
  assumes "v = 2 * a + r0" "a = 2 * b + r1" "b = 2 * c + r2" "c = 2 * d + r3" "d = 2 * f + r4"
  shows "2 * (2 * (2 * (2 * (2 * f + r4) + r3) + r2) + r1) + r0 = v"
  by (simp only: assms)

lemma bits_nat_bits: "v < 64 \<Longrightarrow> bits_nat [bit v 5, bit v 4, bit v 3, bit v 2, bit v 1, bit v 0] = v"
proof -
  assume v: "v < 64"
  have h: "w = 2 * (w div 2) + w mod 2" for w :: nat by simp
  have e: "v = 2 * (v div 2) + v mod 2" "v div 2 = 2 * (v div 4) + v div 2 mod 2" "v div 4 = 2 * (v div 8) + v div 4 mod 2"
    "v div 8 = 2 * (v div 16) + v div 8 mod 2" "v div 16 = 2 * (v div 32) + v div 16 mod 2"
    using h [of v] h [of "v div 2"] h [of "v div 4"] h [of "v div 8"] h [of "v div 16"]
    by (simp_all only: div_mult2_eq [symmetric] mult_numeral_1 num.simps numeral_times_numeral arith_simps)
  have e': "v div 32 mod 2 = v div 32" using v by (intro mod_less) (simp add: div_less_iff_less_mult)
  have "bits_nat [bit v 5, bit v 4, bit v 3, bit v 2, bit v 1, bit v 0] =
      2 * (2 * (2 * (2 * (2 * (v div 32 mod 2) + v div 16 mod 2) + v div 8 mod 2) + v div 4 mod 2) + v div 2 mod 2) + v mod 2"
    by (simp add: bits_nat_def bit_iff_odd of_bool_odd_eq_mod_2)
  also have "\<dots> = v" unfolding e' by (rule horner [OF e])
  finally show ?thesis .
qed

lemma six_bits: "six n T = bits_nat [bit T (n + 5), bit T (n + 4), bit T (n + 3), bit T (n + 2), bit T (n + 1), bit T n]"
proof -
  have "bit (six n T) k = bit T (n + k)" if "k < 6" for k
  proof -
    have "bit (six n T) k = bit (drop_bit n T AND 0x3F) k" by (simp only: six_def bit_unsigned_iff) (auto simp: possible_bit_def)
    moreover have "(0x3F :: u64) = mask 6" by (simp add: mask_eq_exp_minus_1)
    ultimately show ?thesis
      using that by (auto simp: bit_and_iff bit_mask_iff bit_drop_bit_eq possible_bit_def dest: bit_imp_le_length)
  qed
  then show ?thesis using bits_nat_bits [OF six_less, of n T] by simp
qed

lemma length_sbox [simp]: "length (fips_sbox k b) = 4"
  by (simp add: fips_sbox_def nat_bits_4)

lemma four_elements: "length l = 4 \<Longrightarrow> \<exists>a b c d. l = [a, b, c, d]"
  by (auto simp: length_Suc_conv numeral_eq_Suc)

lemma bit_if_word: "bit (if b then w else 0) i = (b \<and> bit w i)" for w :: u64
  by simp

lemma rbits_spread:
  assumes "length l0 = 4" "length l1 = 4" "length l2 = 4" "length l3 = 4" "length l4 = 4" "length l5 = 4" "length l6 = 4" "length l7 = 4"
  shows "rbits ((spread 7 l7 XOR spread 5 l5 XOR spread 3 l3 XOR spread 1 l1)
      XOR (spread 6 l6 XOR spread 4 l4 XOR spread 2 l2 XOR spread 0 l0))
    = permute fips_P (l0 @ l1 @ l2 @ l3 @ l4 @ l5 @ l6 @ l7)"
proof -
  obtain a0 a1 a2 a3 where l0: "l0 = [a0, a1, a2, a3]" using four_elements [OF assms(1)] by blast
  obtain b0 b1 b2 b3 where l1: "l1 = [b0, b1, b2, b3]" using four_elements [OF assms(2)] by blast
  obtain c0 c1 c2 c3 where l2: "l2 = [c0, c1, c2, c3]" using four_elements [OF assms(3)] by blast
  obtain d0 d1 d2 d3 where l3: "l3 = [d0, d1, d2, d3]" using four_elements [OF assms(4)] by blast
  obtain e0 e1 e2 e3 where l4: "l4 = [e0, e1, e2, e3]" using four_elements [OF assms(5)] by blast
  obtain f0 f1 f2 f3 where l5: "l5 = [f0, f1, f2, f3]" using four_elements [OF assms(6)] by blast
  obtain g0 g1 g2 g3 where l6: "l6 = [g0, g1, g2, g3]" using four_elements [OF assms(7)] by blast
  obtain h0 h1 h2 h3 where l7: "l7 = [h0, h1, h2, h3]" using four_elements [OF assms(8)] by blast
  show ?thesis
    unfolding l0 l1 l2 l3 l4 l5 l6 l7 spread_def spread_masks_def permute_def fips_P_def rbits_def upt32
    by (simp add: bit_xor_iff bit_if_word split del: if_split)
qed

definition sixes :: "nat \<Rightarrow> u64 \<Rightarrow> bits" where
  "sixes n T = [bit T (n + 5), bit T (n + 4), bit T (n + 3), bit T (n + 2), bit T (n + 1), bit T n]"

lemma SB_sixes:
  "SB1 ! six n T = spread 0 (fips_sbox 0 (sixes n T))" "SB2 ! six n T = spread 1 (fips_sbox 1 (sixes n T))"
  "SB3 ! six n T = spread 2 (fips_sbox 2 (sixes n T))" "SB4 ! six n T = spread 3 (fips_sbox 3 (sixes n T))"
  "SB5 ! six n T = spread 4 (fips_sbox 4 (sixes n T))" "SB6 ! six n T = spread 5 (fips_sbox 5 (sixes n T))"
  "SB7 ! six n T = spread 6 (fips_sbox 6 (sixes n T))" "SB8 ! six n T = spread 7 (fips_sbox 7 (sixes n T))"
  unfolding six_bits sixes_def SB1_sbox SB2_sbox SB3_sbox SB4_sbox SB5_sbox SB6_sbox SB7_sbox SB8_sbox by (rule refl)+

lemma sixes_E:
  assumes "packed k K" "small X"
  shows "xor_bits (permute fips_E (rbits X)) K =
    (let T0 = fst k XOR X; T1 = snd k XOR (push_bit 28 X OR drop_bit 4 X)
     in sixes 24 T1 @ sixes 24 T0 @ sixes 16 T1 @ sixes 16 T0 @ sixes 8 T1 @ sixes 8 T0 @ sixes 0 T1 @ sixes 0 T0)"
proof -
  have s: "\<not> bit X i" if "32 \<le> i" for i using assms(2) that by (simp add: small_def)
  show ?thesis
    using assms(1) unfolding packed_def permute_def fips_E_def rbits_def upt32 xor_bits_def sixes_def Let_def
    by (auto simp: bit_simps s numeral_2_eq_2 [symmetric])
qed

lemma length_sixes [simp]: "length (sixes n T) = 6"
  by (simp add: sixes_def)

lemma f_fips:
  assumes "packed k K" "small X"
  shows "rbits (des_f k X) = fips_f (rbits X) K"
proof -
  define T0 T1 where "T0 = fst k XOR X" and "T1 = snd k XOR (push_bit 28 X OR drop_bit 4 X)"
  have "xor_bits (permute fips_E (rbits X)) K =
      sixes 24 T1 @ sixes 24 T0 @ sixes 16 T1 @ sixes 16 T0 @ sixes 8 T1 @ sixes 8 T0 @ sixes 0 T1 @ sixes 0 T0"
    using sixes_E [OF assms] by (simp add: T0_def T1_def Let_def)
  then have "fips_f (rbits X) K = permute fips_P (fips_sbox 0 (sixes 24 T1) @ fips_sbox 1 (sixes 24 T0)
      @ fips_sbox 2 (sixes 16 T1) @ fips_sbox 3 (sixes 16 T0) @ fips_sbox 4 (sixes 8 T1) @ fips_sbox 5 (sixes 8 T0)
      @ fips_sbox 6 (sixes 0 T1) @ fips_sbox 7 (sixes 0 T0))"
    unfolding fips_f_def Let_def upt8 by simp
  then show ?thesis
    unfolding des_f_def DES_ROUND_def Let_def T0_def [symmetric] T1_def [symmetric] SB_sixes xor.left_neutral
    by (simp only: rbits_spread length_sbox)
qed

section \<open>Encryption\<close>

lemma rbits_xor: "rbits (v XOR w) = xor_bits (rbits v) (rbits w)"
  by (rule nth_equalityI) (simp_all add: rbits_def xor_bits_def bit_xor_iff)

definition key_rel :: "(u64 \<times> u64) list \<Rightarrow> bits list \<Rightarrow> bool" where
  "key_rel ks Ks \<longleftrightarrow> list_all2 packed ks Ks"

lemma rounds_fips:
  assumes "key_rel ks Ks" "small2 p"
  shows "(rbits (fst (fold feistel ks p)), rbits (snd (fold feistel ks p))) = fold fips_round Ks (rbits (fst p), rbits (snd p))"
  using assms unfolding key_rel_def
proof (induction arbitrary: p rule: list_all2_induct)
  case (Cons k ks K Ks)
  have "small2 (feistel k p)" using Cons.prems by (simp add: feistel_def)
  moreover have "fips_round K (rbits (fst p), rbits (snd p)) = (rbits (fst (feistel k p)), rbits (snd (feistel k p)))"
    using f_fips [OF Cons.hyps(1), of "snd p"] Cons.prems by (simp add: fips_round_def feistel_def rbits_xor)
  ultimately show ?case using Cons.IH [of "feistel k p"] by simp
qed simp

lemma schedule_fips:
  assumes "small28 X" "small28 Y"
  shows "key_rel (pairs (des_schedule is (X, Y))) (fips_schedule (map des_shift is) (bits28 X, bits28 Y))"
  using assms
proof (induction "is" arbitrary: X Y)
  case (Cons i "is")
  let ?X = "rot28 (des_shift i) X" and ?Y = "rot28 (des_shift i) Y"
  have r: "bits28 ?X = rotate (des_shift i) (bits28 X)" "bits28 ?Y = rotate (des_shift i) (bits28 Y)"
    using Cons.prems bits28_rot [of X "des_shift i"] bits28_rot [of Y "des_shift i"] by (simp_all add: des_shift_def)
  have "pairs (des_subkeys ?X ?Y @ l) = (des_subkeys ?X ?Y ! 0, des_subkeys ?X ?Y ! 1) # pairs l" for l
    by (simp add: des_subkeys_def)
  then show ?case
    using Cons.IH [of ?X ?Y] subkeys_packed [of ?X ?Y] by (simp add: key_rel_def Let_def r)
qed (simp add: key_rel_def)

lemma keys_fips:
  assumes "length key = 8"
  shows "key_rel (pairs (des_setkey key)) (fips_keys (octet_bits key))"
proof -
  have "fips_shifts = map des_shift [0..<16]" unfolding fips_shifts_def des_shift_def by code_simp
  then show ?thesis
    using schedule_fips [OF small28_pc1, of "[0..<16]" key key] PC1_fips [OF assms]
    by (simp add: des_setkey_def fips_keys_def Let_def)
qed

lemma bits32_PUT:
  assumes "small v" "small w"
  shows "octet_bits (PUT_ULONG_BE v @ PUT_ULONG_BE w) = bits32 v @ bits32 w"
  using octet_bits_GET [of "PUT_ULONG_BE v @ PUT_ULONG_BE w"] GET_PUT_BE [OF assms] by simp

lemma des_block_fips:
  assumes "length key = 8" "length b = 8"
  shows "octet_bits (des_crypt_ecb (des_setkey_enc key) b) = fips_encrypt (octet_bits key) (octet_bits b)"
proof -
  let ?p = "(GET_ULONG_BE b 0, GET_ULONG_BE b 4)" and ?ks = "pairs (des_setkey key)"
  let ?q = "fold feistel ?ks (DES_IP ?p)"
  have p: "small2 (DES_IP ?p)" by simp
  have ip: "rbits (fst (DES_IP ?p)) @ rbits (snd (DES_IP ?p)) = permute fips_IP (octet_bits b)"
    using IP_fips [of ?p] octet_bits_GET [OF assms(2)] by simp
  have tk: "take 32 (permute fips_IP (octet_bits b)) = rbits (fst (DES_IP ?p))"
    "drop 32 (permute fips_IP (octet_bits b)) = rbits (snd (DES_IP ?p))"
    unfolding ip [symmetric] by simp_all
  have q: "small2 (flip_pair ?q)" using small_feistel [OF p, of ?ks] by simp
  have "octet_bits (des_crypt_ecb (des_setkey_enc key) b) = bits32 (fst (DES_FP (flip_pair ?q))) @ bits32 (snd (DES_FP (flip_pair ?q)))"
    using small_DES_FP [OF q] by (simp add: des_crypt_eq des_setkey_enc_def Let_def bits32_PUT)
  also have "\<dots> = permute fips_FP (rbits (snd ?q) @ rbits (fst ?q))"
    using FP_fips [OF q] by simp
  also have "\<dots> = fips_encrypt (octet_bits key) (octet_bits b)"
    using rounds_fips [OF keys_fips [OF assms(1)] p, symmetric] by (simp add: fips_encrypt_def Let_def tk)
  finally show ?thesis .
qed

text \<open>C36: for every key and block of eight octets, the cipher block that the code computes is the one of FIPS 46-3.\<close>

theorem des_is_fips:
  assumes "length key = 8" "length b = 8"
  shows "octet_bits (des_crypt_ecb (des_setkey_enc key) b) = fips_encrypt (octet_bits key) (octet_bits b)"
  using assms by (rule des_block_fips)

theorem des_is_fips_witness:
  "octet_bits (des_crypt_ecb (des_setkey_enc [0x13, 0x34, 0x57, 0x79, 0x9b, 0xbc, 0xdf, 0xf1]) [1, 2, 3, 4, 5, 6, 7, 8])
   = fips_encrypt (octet_bits [0x13, 0x34, 0x57, 0x79, 0x9b, 0xbc, 0xdf, 0xf1]) (octet_bits [1, 2, 3, 4, 5, 6, 7, 8])"
  by (rule des_is_fips) simp_all

end
