(* ===== verification/Md4.thy ===== *)
theory Md4
  imports Hash_Stream
begin

text \<open>
  \<open>src/lwip/src/netif/ppp/polarssl/md4.c\<close>: the forty-eight rounds on 64-bit registers, and the
  proof that the digest is the one RFC 1320 defines on 32-bit words. The little-endian word lemmas are
  shared with MD5.
\<close>

section \<open>The code\<close>

definition md_init :: "u64 list" where
  "md_init = [0x67452301, 0xEFCDAB89, 0x98BADCFE, 0x10325476]"

definition md4_starts :: "hash_ctx \<Rightarrow> hash_ctx" where
  "md4_starts ctx = ctx\<lparr>total0 := 0, total1 := 0, hstate := md_init\<rparr>"

type_synonym regs4 = "u64 \<times> u64 \<times> u64 \<times> u64"

definition md_words :: "octets \<Rightarrow> u64 list" where
  "md_words data = map (\<lambda>i. GET_ULONG_LE data (4 * i)) [0..<16]"

text \<open>The index of \<open>X\<close> and the shift of the forty-eight lines \<open>P(...)\<close>, in their order.\<close>

definition md4_table :: "(nat \<times> nat) list" where
  "md4_table =
     [(0, 3), (1, 7), (2, 11), (3, 19), (4, 3), (5, 7), (6, 11), (7, 19),
      (8, 3), (9, 7), (10, 11), (11, 19), (12, 3), (13, 7), (14, 11), (15, 19),
      (0, 3), (4, 5), (8, 9), (12, 13), (1, 3), (5, 5), (9, 9), (13, 13),
      (2, 3), (6, 5), (10, 9), (14, 13), (3, 3), (7, 5), (11, 9), (15, 13),
      (0, 3), (8, 9), (4, 11), (12, 15), (2, 3), (10, 9), (6, 11), (14, 15),
      (1, 3), (9, 9), (5, 11), (13, 15), (3, 3), (11, 9), (7, 11), (15, 15)]"

text \<open>The sum that a line adds to its first register; \<open>F\<close> and the constant change every sixteen lines.\<close>

definition md4_sum :: "nat \<Rightarrow> u64 \<Rightarrow> u64 \<Rightarrow> u64 \<Rightarrow> u64 \<Rightarrow> u64" where
  "md4_sum i x y z w =
     (if i < 16 then ((x AND y) OR (NOT x AND z)) + w
      else if i < 32 then ((x AND y) OR (x AND z) OR (y AND z)) + w + 0x5A827999
      else (x XOR y XOR z) + w + 0x6ED9EBA1)"

text \<open>
  One line \<open>P(a, b, c, d, x, s)\<close>; the tuple is rotated so that its first component is the register
  the next line updates.
\<close>

definition md4_P :: "u64 list \<Rightarrow> nat \<Rightarrow> regs4 \<Rightarrow> regs4" where
  "md4_P X i r =
     (case r of (a, b, c, d) \<Rightarrow>
        (d, rot_S (a + md4_sum i b c d (X ! fst (md4_table ! i))) (snd (md4_table ! i)), b, c))"

definition md4_process :: block_fun where
  "md4_process data st =
     (case fold (md4_P (md_words data)) [0..<48] (st ! 0, st ! 1, st ! 2, st ! 3) of
        (a, b, c, d) \<Rightarrow> [st ! 0 + a, st ! 1 + b, st ! 2 + c, st ! 3 + d])"

definition md4_update :: "octets \<Rightarrow> hash_ctx \<Rightarrow> hash_ctx" where
  "md4_update input ctx = hash_update md4_process input ctx"

definition md4_finish :: "hash_ctx \<Rightarrow> octets" where
  "md4_finish ctx = concat (map PUT_ULONG_LE (hstate (hash_finish md4_process enc_LE ctx)))"

definition md4 :: "hash_ctx \<Rightarrow> octets \<Rightarrow> octets" where
  "md4 stack input = md4_finish (md4_update input (md4_starts stack))"

section \<open>RFC 1320\<close>

definition word_le :: "octets \<Rightarrow> nat \<Rightarrow> u32" where
  "word_le b i = ucast (b ! i) OR push_bit 8 (ucast (b ! (i + 1)))
     OR push_bit 16 (ucast (b ! (i + 2))) OR push_bit 24 (ucast (b ! (i + 3)))"

definition word_octets_le :: "u32 \<Rightarrow> octets" where
  "word_octets_le w = [ucast w, ucast (drop_bit 8 w), ucast (drop_bit 16 w), ucast (drop_bit 24 w)]"

definition md_iv :: "u32 list" where
  "md_iv = [0x67452301, 0xefcdab89, 0x98badcfe, 0x10325476]"

text \<open>The order of the words: in sequence, by columns, and by bit reversal.\<close>

definition rfc1320_word :: "nat \<Rightarrow> nat" where
  "rfc1320_word i =
     (if i < 16 then i
      else if i < 32 then 4 * (i mod 4) + (i - 16) div 4
      else 8 * (i mod 2) + 4 * (i div 2 mod 2) + 2 * (i div 4 mod 2) + i div 8 mod 2)"

definition rfc1320_shift :: "nat \<Rightarrow> nat" where
  "rfc1320_shift i =
     (if i < 16 then [3, 7, 11, 19] ! (i mod 4)
      else if i < 32 then [3, 5, 9, 13] ! (i mod 4)
      else [3, 9, 11, 15] ! (i mod 4))"

definition rfc1320_f :: "nat \<Rightarrow> u32 \<Rightarrow> u32 \<Rightarrow> u32 \<Rightarrow> u32" where
  "rfc1320_f i x y z =
     (if i < 16 then (x AND y) OR (NOT x AND z)
      else if i < 32 then (x AND y) OR (x AND z) OR (y AND z)
      else x XOR y XOR z)"

definition rfc1320_k :: "nat \<Rightarrow> u32" where
  "rfc1320_k i = (if i < 16 then 0 else if i < 32 then 0x5a827999 else 0x6ed9eba1)"

definition rfc1320_step :: "octets \<Rightarrow> nat \<Rightarrow> u32 \<times> u32 \<times> u32 \<times> u32 \<Rightarrow> u32 \<times> u32 \<times> u32 \<times> u32" where
  "rfc1320_step data i r =
     (case r of (a, b, c, d) \<Rightarrow>
        (d, rotl (rfc1320_shift i) (a + rfc1320_f i b c d + word_le data (4 * rfc1320_word i) + rfc1320_k i), b, c))"

definition rfc1320_compress :: "octets \<Rightarrow> u32 list \<Rightarrow> u32 list" where
  "rfc1320_compress data h =
     (case fold (rfc1320_step data) [0..<48] (h ! 0, h ! 1, h ! 2, h ! 3) of
        (a, b, c, d) \<Rightarrow> [a + h ! 0, b + h ! 1, c + h ! 2, d + h ! 3])"

definition rfc1320_md4 :: "octets \<Rightarrow> octets" where
  "rfc1320_md4 m = concat (map word_octets_le (merkle_damgard rfc1320_compress octets_le md_iv m))"

section \<open>Little-endian words\<close>

definition low4 :: "regs4 \<Rightarrow> u32 \<times> u32 \<times> u32 \<times> u32" where
  "low4 r = (case r of (a, b, c, d) \<Rightarrow> (low a, low b, low c, low d))"

lemma low_GET_LE [simp]: "low (GET_ULONG_LE b i) = word_le b i"
  unfolding low_def GET_ULONG_LE_def word_le_def
  by (rule bit_word_eqI) (auto simp: bit_simps)

lemma PUT_ULONG_LE_low: "PUT_ULONG_LE w = word_octets_le (low w)"
proof -
  have "k \<le> 24 \<Longrightarrow> (ucast (drop_bit k w) :: u8) = ucast (drop_bit k (low w))" for k
    unfolding low_def by (rule bit_word_eqI) (auto simp: bit_simps)
  from this [of 24] this [of 16] this [of 8] this [of 0] show ?thesis
    by (simp add: PUT_ULONG_LE_def word_octets_le_def)
qed

lemma md_words_nth: "k < 16 \<Longrightarrow> low (md_words data ! k) = word_le data (4 * k)"
  by (simp add: md_words_def)

lemma low_md_init: "map low md_init = md_iv"
  by (simp add: md_init_def md_iv_def)

text \<open>Rounds refine round by round.\<close>

lemma fold_rounds:
  assumes "\<And>i r. i < n \<Longrightarrow> low4 (P i r) = Q i (low4 r)"
  shows "low4 (fold P [0..<n] r) = fold Q [0..<n] (low4 r)"
  using assms by (induction n) simp_all

section \<open>The rounds\<close>

lemma upt_48: "list_all p [0..<48] \<Longrightarrow> i < 48 \<Longrightarrow> p (i :: nat)"
  by (simp add: list_all_iff)

lemma md4_table_rfc:
  assumes "i < 48"
  shows "md4_table ! i = (rfc1320_word i, rfc1320_shift i)" and "rfc1320_word i < 16"
    and "0 < rfc1320_shift i" and "rfc1320_shift i < 32"
proof -
  have "list_all (\<lambda>i. md4_table ! i = (rfc1320_word i, rfc1320_shift i) \<and> rfc1320_word i < 16
      \<and> 0 < rfc1320_shift i \<and> rfc1320_shift i < 32) [0..<48]"
    by code_simp
  from upt_48 [OF this assms]
  show "md4_table ! i = (rfc1320_word i, rfc1320_shift i)" and "rfc1320_word i < 16"
    and "0 < rfc1320_shift i" and "rfc1320_shift i < 32" by auto
qed

lemma low_md4_P:
  assumes "i < 48"
  shows "low4 (md4_P (md_words data) i r) = rfc1320_step data i (low4 r)"
proof -
  have "low (md4_sum i x y z w) = rfc1320_f i (low x) (low y) (low z) + low w + rfc1320_k i" for x y z w
    by (simp add: md4_sum_def rfc1320_f_def rfc1320_k_def)
  then show ?thesis
    using md4_table_rfc [OF assms] md_words_nth
    by (cases r) (simp add: md4_P_def rfc1320_step_def low4_def ac_simps)
qed

lemma md4_process_low:
  "length st = 4 \<Longrightarrow> map low (md4_process data st) = rfc1320_compress data (map low st)"
  using fold_rounds [of 48 "md4_P (md_words data)" "rfc1320_step data" "(st ! 0, st ! 1, st ! 2, st ! 3)", OF low_md4_P, symmetric]
  by (simp add: md4_process_def rfc1320_compress_def low4_def ac_simps split: prod.splits)

interpretation md4_hash: block_hash md4_process rfc1320_compress enc_LE octets_le md_init
proof
  show "length st = length md_init \<Longrightarrow> length (md4_process data st) = length md_init" for st data
    by (simp add: md4_process_def md_init_def split: prod.split)
qed (use md4_process_low enc_length_field in \<open>simp_all add: md_init_def enc_LE_def PUT_ULONG_LE_def\<close>)

section \<open>The digest\<close>

lemma md4_stream:
  assumes "length (hbuf ctx) = 64" and "list_all (\<lambda>d. length d < 2 ^ 31) ds"
  shows "md4_finish (foldl (\<lambda>c d. md4_update d c) (md4_starts ctx) ds) = rfc1320_md4 (concat ds)"
proof -
  have put: "map PUT_ULONG_LE xs = map word_octets_le (map low xs)" for xs
    by (simp add: PUT_ULONG_LE_low)
  show ?thesis
    unfolding md4_finish_def rfc1320_md4_def put
    using md4_hash.digest_of_stream [OF assms] low_md_init
    by (simp add: md4_update_def md4_starts_def)
qed

text \<open>the bundled MD4, with which MS-CHAP hashes the password, is the MD4 of RFC 1320: however the input
  is cut into calls of \<open>md4_update\<close>, the digest equals the one the RFC defines on 32-bit words for the
  concatenated input; the table of word indices and shifts written out in the code is the RFC's.\<close>

theorem md4_is_rfc1320:
  assumes "length (hbuf ctx) = 64" and "list_all (\<lambda>d. length d < 2 ^ 31) ds"
  shows "md4_finish (foldl (\<lambda>c d. md4_update d c) (md4_starts ctx) ds) = rfc1320_md4 (concat ds)"
  using assms by (rule md4_stream)

theorem md4_is_rfc1320_witness:
  "md4_finish (md4_update [0x63] (md4_update [0x61, 0x62]
     (md4_starts \<lparr>total0 = 7, total1 = 9, hstate = [], hbuf = replicate 64 0xAA\<rparr>)))
   = rfc1320_md4 [0x61, 0x62, 0x63]"
  using md4_is_rfc1320 [of "\<lparr>total0 = 7, total1 = 9, hstate = [], hbuf = replicate 64 0xAA\<rparr>" "[[0x61, 0x62], [0x63]]"]
  by simp

end
