(* ===== verification/Md5.thy ===== *)
theory Md5
  imports Md4
begin

text \<open>
  \<open>src/lwip/src/netif/ppp/polarssl/md5.c\<close>: the sixty-four rounds on 64-bit registers, and the proof
  that the digest is the one RFC 1321 defines on 32-bit words.
\<close>

section \<open>The code\<close>

definition md5_starts :: "hash_ctx \<Rightarrow> hash_ctx" where
  "md5_starts ctx = ctx\<lparr>total0 := 0, total1 := 0, hstate := md_init\<rparr>"

text \<open>Word index, shift and constant of the sixty-four lines \<open>P(...)\<close>, in their order.\<close>

definition md5_table :: "(nat \<times> nat \<times> int) list" where
  "md5_table =
     [(0, 7, 0xD76AA478), (1, 12, 0xE8C7B756), (2, 17, 0x242070DB), (3, 22, 0xC1BDCEEE),
      (4, 7, 0xF57C0FAF), (5, 12, 0x4787C62A), (6, 17, 0xA8304613), (7, 22, 0xFD469501),
      (8, 7, 0x698098D8), (9, 12, 0x8B44F7AF), (10, 17, 0xFFFF5BB1), (11, 22, 0x895CD7BE),
      (12, 7, 0x6B901122), (13, 12, 0xFD987193), (14, 17, 0xA679438E), (15, 22, 0x49B40821),
      (1, 5, 0xF61E2562), (6, 9, 0xC040B340), (11, 14, 0x265E5A51), (0, 20, 0xE9B6C7AA),
      (5, 5, 0xD62F105D), (10, 9, 0x02441453), (15, 14, 0xD8A1E681), (4, 20, 0xE7D3FBC8),
      (9, 5, 0x21E1CDE6), (14, 9, 0xC33707D6), (3, 14, 0xF4D50D87), (8, 20, 0x455A14ED),
      (13, 5, 0xA9E3E905), (2, 9, 0xFCEFA3F8), (7, 14, 0x676F02D9), (12, 20, 0x8D2A4C8A),
      (5, 4, 0xFFFA3942), (8, 11, 0x8771F681), (11, 16, 0x6D9D6122), (14, 23, 0xFDE5380C),
      (1, 4, 0xA4BEEA44), (4, 11, 0x4BDECFA9), (7, 16, 0xF6BB4B60), (10, 23, 0xBEBFBC70),
      (13, 4, 0x289B7EC6), (0, 11, 0xEAA127FA), (3, 16, 0xD4EF3085), (6, 23, 0x04881D05),
      (9, 4, 0xD9D4D039), (12, 11, 0xE6DB99E5), (15, 16, 0x1FA27CF8), (2, 23, 0xC4AC5665),
      (0, 6, 0xF4292244), (7, 10, 0x432AFF97), (14, 15, 0xAB9423A7), (5, 21, 0xFC93A039),
      (12, 6, 0x655B59C3), (3, 10, 0x8F0CCC92), (10, 15, 0xFFEFF47D), (1, 21, 0x85845DD1),
      (8, 6, 0x6FA87E4F), (15, 10, 0xFE2CE6E0), (6, 15, 0xA3014314), (13, 21, 0x4E0811A1),
      (4, 6, 0xF7537E82), (11, 10, 0xBD3AF235), (2, 15, 0x2AD7D2BB), (9, 21, 0xEB86D391)]"

definition md5_F :: "nat \<Rightarrow> u64 \<Rightarrow> u64 \<Rightarrow> u64 \<Rightarrow> u64" where
  "md5_F i x y z =
     (if i < 16 then z XOR (x AND (y XOR z))
      else if i < 32 then y XOR (z AND (x XOR y))
      else if i < 48 then x XOR y XOR z
      else y XOR (x OR NOT z))"

definition md5_P :: "u64 list \<Rightarrow> nat \<Rightarrow> regs4 \<Rightarrow> regs4" where
  "md5_P X i r =
     (case r of (a, b, c, d) \<Rightarrow>
        (case md5_table ! i of (k, s, t) \<Rightarrow>
           (d, rot_S (a + (md5_F i b c d + X ! k + word_of_int t)) s + b, b, c)))"

definition md5_process :: block_fun where
  "md5_process data st =
     (case fold (md5_P (md_words data)) [0..<64] (st ! 0, st ! 1, st ! 2, st ! 3) of
        (a, b, c, d) \<Rightarrow> [st ! 0 + a, st ! 1 + b, st ! 2 + c, st ! 3 + d])"

definition md5_update :: "octets \<Rightarrow> hash_ctx \<Rightarrow> hash_ctx" where
  "md5_update input ctx = hash_update md5_process input ctx"

definition md5_finish :: "hash_ctx \<Rightarrow> octets" where
  "md5_finish ctx = concat (map PUT_ULONG_LE (hstate (hash_finish md5_process enc_LE ctx)))"

definition md5 :: "hash_ctx \<Rightarrow> octets \<Rightarrow> octets" where
  "md5 stack input = md5_finish (md5_update input (md5_starts stack))"

section \<open>RFC 1321\<close>

text \<open>The table of the RFC, the integer parts of the scaled sines, in hexadecimal as the RFC prints it.\<close>

definition rfc1321_T :: "int list" where
  "rfc1321_T =
     [0xd76aa478, 0xe8c7b756, 0x242070db, 0xc1bdceee, 0xf57c0faf, 0x4787c62a, 0xa8304613, 0xfd469501,
      0x698098d8, 0x8b44f7af, 0xffff5bb1, 0x895cd7be, 0x6b901122, 0xfd987193, 0xa679438e, 0x49b40821,
      0xf61e2562, 0xc040b340, 0x265e5a51, 0xe9b6c7aa, 0xd62f105d, 0x02441453, 0xd8a1e681, 0xe7d3fbc8,
      0x21e1cde6, 0xc33707d6, 0xf4d50d87, 0x455a14ed, 0xa9e3e905, 0xfcefa3f8, 0x676f02d9, 0x8d2a4c8a,
      0xfffa3942, 0x8771f681, 0x6d9d6122, 0xfde5380c, 0xa4beea44, 0x4bdecfa9, 0xf6bb4b60, 0xbebfbc70,
      0x289b7ec6, 0xeaa127fa, 0xd4ef3085, 0x04881d05, 0xd9d4d039, 0xe6db99e5, 0x1fa27cf8, 0xc4ac5665,
      0xf4292244, 0x432aff97, 0xab9423a7, 0xfc93a039, 0x655b59c3, 0x8f0ccc92, 0xffeff47d, 0x85845dd1,
      0x6fa87e4f, 0xfe2ce6e0, 0xa3014314, 0x4e0811a1, 0xf7537e82, 0xbd3af235, 0x2ad7d2bb, 0xeb86d391]"

definition rfc1321_word :: "nat \<Rightarrow> nat" where
  "rfc1321_word i =
     (if i < 16 then i else if i < 32 then (5 * i + 1) mod 16
      else if i < 48 then (3 * i + 5) mod 16 else 7 * i mod 16)"

definition rfc1321_shift :: "nat \<Rightarrow> nat" where
  "rfc1321_shift i = [[7, 12, 17, 22], [5, 9, 14, 20], [4, 11, 16, 23], [6, 10, 15, 21]] ! (i div 16) ! (i mod 4)"

definition rfc1321_f :: "nat \<Rightarrow> u32 \<Rightarrow> u32 \<Rightarrow> u32 \<Rightarrow> u32" where
  "rfc1321_f i x y z =
     (if i < 16 then (x AND y) OR (NOT x AND z)
      else if i < 32 then (x AND z) OR (y AND NOT z)
      else if i < 48 then x XOR y XOR z
      else y XOR (x OR NOT z))"

definition rfc1321_step :: "octets \<Rightarrow> nat \<Rightarrow> u32 \<times> u32 \<times> u32 \<times> u32 \<Rightarrow> u32 \<times> u32 \<times> u32 \<times> u32" where
  "rfc1321_step data i r =
     (case r of (a, b, c, d) \<Rightarrow>
        (d, b + rotl (rfc1321_shift i)
           (a + rfc1321_f i b c d + word_le data (4 * rfc1321_word i) + word_of_int (rfc1321_T ! i)), b, c))"

definition rfc1321_compress :: "octets \<Rightarrow> u32 list \<Rightarrow> u32 list" where
  "rfc1321_compress data h =
     (case fold (rfc1321_step data) [0..<64] (h ! 0, h ! 1, h ! 2, h ! 3) of
        (a, b, c, d) \<Rightarrow> [a + h ! 0, b + h ! 1, c + h ! 2, d + h ! 3])"

definition rfc1321_md5 :: "octets \<Rightarrow> octets" where
  "rfc1321_md5 m = concat (map word_octets_le (merkle_damgard rfc1321_compress octets_le md_iv m))"

section \<open>The rounds\<close>

lemma upt_64: "list_all p [0..<64] \<Longrightarrow> i < 64 \<Longrightarrow> p (i :: nat)"
  by (simp add: list_all_iff)

lemma md5_table_rfc:
  assumes "i < 64"
  shows "md5_table ! i = (rfc1321_word i, rfc1321_shift i, rfc1321_T ! i)" and "rfc1321_word i < 16"
    and "0 < rfc1321_shift i" and "rfc1321_shift i < 32"
proof -
  have "list_all (\<lambda>i. md5_table ! i = (rfc1321_word i, rfc1321_shift i, rfc1321_T ! i) \<and> rfc1321_word i < 16
      \<and> 0 < rfc1321_shift i \<and> rfc1321_shift i < 32) [0..<64]"
    by code_simp
  from upt_64 [OF this assms]
  show "md5_table ! i = (rfc1321_word i, rfc1321_shift i, rfc1321_T ! i)" and "rfc1321_word i < 16"
    and "0 < rfc1321_shift i" and "rfc1321_shift i < 32" by auto
qed

lemma low_word_of_int [simp]: "low (word_of_int k) = word_of_int k"
  unfolding low_def by (rule bit_word_eqI) (auto simp: bit_simps)

lemma low_md5_F: "low (md5_F i x y z) = rfc1321_f i (low x) (low y) (low z)"
  unfolding md5_F_def rfc1321_f_def
  by (auto intro!: bit_word_eqI simp: bit_simps)

lemma low_md5_P:
  assumes "i < 64"
  shows "low4 (md5_P (md_words data) i r) = rfc1321_step data i (low4 r)"
  using md5_table_rfc [OF assms] md_words_nth low_md5_F
  by (cases r) (simp add: md5_P_def rfc1321_step_def low4_def ac_simps)

lemma md5_process_low:
  "length st = 4 \<Longrightarrow> map low (md5_process data st) = rfc1321_compress data (map low st)"
  using fold_rounds [of 64 "md5_P (md_words data)" "rfc1321_step data" "(st ! 0, st ! 1, st ! 2, st ! 3)", OF low_md5_P, symmetric]
  by (simp add: md5_process_def rfc1321_compress_def low4_def ac_simps split: prod.splits)

interpretation md5_hash: block_hash md5_process rfc1321_compress enc_LE octets_le md_init
proof
  show "length st = length md_init \<Longrightarrow> length (md5_process data st) = length md_init" for st data
    by (simp add: md5_process_def md_init_def split: prod.split)
qed (use md5_process_low enc_length_field in \<open>simp_all add: md_init_def enc_LE_def PUT_ULONG_LE_def\<close>)

section \<open>The digest\<close>

lemma md5_stream:
  assumes "length (hbuf ctx) = 64" and "list_all (\<lambda>d. length d < 2 ^ 31) ds"
  shows "md5_finish (foldl (\<lambda>c d. md5_update d c) (md5_starts ctx) ds) = rfc1321_md5 (concat ds)"
proof -
  have put: "map PUT_ULONG_LE xs = map word_octets_le (map low xs)" for xs
    by (simp add: PUT_ULONG_LE_low)
  show ?thesis
    unfolding md5_finish_def rfc1321_md5_def put
    using md5_hash.digest_of_stream [OF assms] low_md_init
    by (simp add: md5_update_def md5_starts_def)
qed

text \<open>the bundled MD5 is the MD5 of RFC 1321: however the input is cut into calls of \<open>md5_update\<close>, the
  digest equals the one the RFC defines on 32-bit words for the concatenated input, although the code keeps
  its registers in 64-bit words and uses rewritten round functions.\<close>

theorem md5_is_rfc1321:
  assumes "length (hbuf ctx) = 64" and "list_all (\<lambda>d. length d < 2 ^ 31) ds"
  shows "md5_finish (foldl (\<lambda>c d. md5_update d c) (md5_starts ctx) ds) = rfc1321_md5 (concat ds)"
  using assms by (rule md5_stream)

theorem md5_is_rfc1321_witness:
  "md5_finish (md5_update [0x63] (md5_update [0x61, 0x62]
     (md5_starts \<lparr>total0 = 7, total1 = 9, hstate = [], hbuf = replicate 64 0xAA\<rparr>)))
   = rfc1321_md5 [0x61, 0x62, 0x63]"
  using md5_is_rfc1321 [of "\<lparr>total0 = 7, total1 = 9, hstate = [], hbuf = replicate 64 0xAA\<rparr>" "[[0x61, 0x62], [0x63]]"]
  by simp

end
