(* ===== verification/Ppp_Magic.thy ===== *)
theory Ppp_Magic
  imports Md5 Ppp_Mppe
begin

text \<open>
  \<open>src/lwip/src/netif/ppp/magic.c\<close> in the variant this build compiles (\<open>PPP_MD5_RANDM\<close>): a pool that is stirred with
  MD5 and read with MD5 of the pool and a counter. The clock and \<open>LWIP_RAND\<close> are arguments; words lie in memory with
  the least significant octet first.
\<close>

record magic_state =
  magic_randpool :: octets
  magic_randcount :: u64
  magic_randomseed :: u32

definition magic_churnrand :: "octets option \<Rightarrow> u32 \<Rightarrow> u32 \<Rightarrow> magic_state \<Rightarrow> magic_state" where
  "magic_churnrand rand_data jiffies rnd m =
     (let ctx = md5_update (magic_randpool m) (md5_starts stack_ctx)
      in case rand_data of
           Some d \<Rightarrow> m\<lparr>magic_randpool := md5_finish (md5_update d ctx)\<rparr>
         | None \<Rightarrow>
             (let seed = magic_randomseed m + jiffies
              in m\<lparr>magic_randomseed := seed,
                   magic_randpool := md5_finish (md5_update (word_octets_le seed @ word_octets_le rnd) ctx)\<rparr>))"

definition magic_init :: "u32 \<Rightarrow> u32 \<Rightarrow> magic_state \<Rightarrow> magic_state" where
  "magic_init jiffies rnd m = magic_churnrand None jiffies rnd m"

definition magic_randomize :: "u32 \<Rightarrow> u32 \<Rightarrow> magic_state \<Rightarrow> magic_state" where
  "magic_randomize jiffies rnd m = magic_churnrand None jiffies rnd m"

definition magic_block :: "magic_state \<Rightarrow> octets" where
  "magic_block m = md5_finish (md5_update (octets_le (magic_randcount m)) (md5_update (magic_randpool m) (md5_starts stack_ctx)))"

function magic_random_bytes :: "nat \<Rightarrow> magic_state \<Rightarrow> octets \<times> magic_state" where
  "magic_random_bytes buf_len m =
     (if buf_len = 0 then ([], m)
      else (let n = min buf_len 16;
                (rest, m') = magic_random_bytes (buf_len - n) (m\<lparr>magic_randcount := magic_randcount m + 1\<rparr>)
            in (take n (magic_block m) @ rest, m')))"
  by pat_completeness auto
termination by (relation "measure fst") auto

declare magic_random_bytes.simps [simp del]

definition magic :: "magic_state \<Rightarrow> u32 \<times> magic_state" where
  "magic m = (let (b, m') = magic_random_bytes 4 m in (word_le b 0, m'))"

definition magic_pow :: "nat \<Rightarrow> magic_state \<Rightarrow> u32 \<times> magic_state" where
  "magic_pow pow m = (let (r, m') = magic m in (ucast ((ucast r :: u64) AND NOT (push_bit pow (NOT 0))), m'))"

section \<open>Properties\<close>

lemma length_md5_finish: "length (hstate (hash_finish md5_process enc_LE c)) = 4 \<Longrightarrow> length (md5_finish c) = 16"
  by (simp add: md5_finish_def PUT_ULONG_LE_def length_concat comp_def sum_list_triv)

lemma length_rfc1321 [simp]: "length (rfc1321_md5 m) = 16"
proof -
  have "length (fold rfc1321_compress bs iv) = 4" if "length iv = 4" for bs iv
    using that by (induction bs arbitrary: iv) (simp_all add: rfc1321_compress_def split: prod.split)
  then show ?thesis
    by (simp add: rfc1321_md5_def merkle_damgard_def length_concat comp_def word_octets_le_def sum_list_triv md_iv_def)
qed

lemma magic_block_md5:
  assumes "length (magic_randpool m) = 16"
  shows "magic_block m = rfc1321_md5 (magic_randpool m @ octets_le (magic_randcount m))"
  using md5_stream [of stack_ctx "[magic_randpool m, octets_le (magic_randcount m)]"] assms
  by (simp add: magic_block_def stack_ctx_def)

lemma magic_random_state:
  "snd (magic_random_bytes n m) = m\<lparr>magic_randcount := magic_randcount m + of_nat ((n + 15) div 16)\<rparr>"
proof (induction n m rule: magic_random_bytes.induct)
  case (1 n m)
  show ?case
  proof (cases "n = 0")
    case False
    have "(n + 15) div 16 = Suc ((n - min n 16 + 15) div 16)"
      using False by (cases "n \<le> 16") (auto simp: min_def le_div_geq)
    then show ?thesis
      using 1 [OF False refl] False
      by (subst magic_random_bytes.simps) (simp add: Let_def split_beta add_ac)
  qed (simp add: magic_random_bytes.simps)
qed

text \<open>The octets are the MD5 digests of the pool with the successive values of the counter.\<close>

lemma magic_random_prefix:
  assumes "length (magic_randpool m) = 16"
  shows "fst (magic_random_bytes n m) =
    take n (concat (map (\<lambda>i. rfc1321_md5 (magic_randpool m @ octets_le (magic_randcount m + of_nat i))) [0..<(n + 15) div 16]))"
  using assms
proof (induction n m rule: magic_random_bytes.induct)
  case (1 n m)
  let ?m = "m\<lparr>magic_randcount := magic_randcount m + 1\<rparr>" and ?k = "min n 16"
  let ?b = "\<lambda>c i. rfc1321_md5 (magic_randpool m @ octets_le (c + of_nat i))"
  show ?case
  proof (cases "n = 0")
    case False
    have k: "(n + 15) div 16 = Suc ((n - ?k + 15) div 16)"
      using False by (cases "n \<le> 16") (auto simp: min_def le_div_geq)
    have ih: "fst (magic_random_bytes (n - ?k) ?m) =
        take (n - ?k) (concat (map (?b (magic_randcount m + 1)) [0..<(n - ?k + 15) div 16]))"
      using 1(1) [OF False refl] 1(2) by simp
    have sh: "map (?b (magic_randcount m)) [1..<Suc j] = map (?b (magic_randcount m + 1)) [0..<j]" for j
      by (induction j) (simp_all add: add_ac)
    have "concat (map (?b (magic_randcount m)) [0..<Suc j]) = magic_block m @ concat (map (?b (magic_randcount m + 1)) [0..<j])" for j
    proof -
      have "map (?b (magic_randcount m)) [0..<Suc j] = ?b (magic_randcount m) 0 # map (?b (magic_randcount m)) [1..<Suc j]"
        by (subst upt_conv_Cons) simp_all
      then show ?thesis using sh [of j] magic_block_md5 [OF 1(2)] by simp
    qed
    moreover have "length (magic_block m) = 16" using magic_block_md5 [OF 1(2)] by simp
    ultimately show ?thesis
      using ih False unfolding k
      by (subst magic_random_bytes.simps, cases "n \<le> 16") (simp_all add: Let_def split_beta magic_block_md5 [OF 1(2)])
  qed (simp add: magic_random_bytes.simps)
qed

lemma length_magic_random:
  assumes "length (magic_randpool m) = 16"
  shows "length (fst (magic_random_bytes n m)) = n"
proof -
  have "length (concat (map f [0..<j])) = 16 * j" if "\<And>i. length (f i) = 16" for f :: "nat \<Rightarrow> octets" and j
    using that by (simp add: length_concat comp_def sum_list_triv)
  then show ?thesis unfolding magic_random_prefix [OF assms] by simp
qed

lemma magic_pow_less: "pow \<le> 32 \<Longrightarrow> unat (fst (magic_pow pow m)) < 2 ^ pow"
proof -
  assume p: "pow \<le> 32"
  have "(ucast ((ucast r :: u64) AND NOT (push_bit pow (NOT 0))) :: u32) = take_bit pow r" for r :: u32
    using p by (intro bit_word_eqI) (auto simp: bit_simps)
  then show ?thesis by (simp add: magic_pow_def split_beta unsigned_take_bit_eq take_bit_nat_less_exp)
qed

lemma magic_pool_kept: "length (magic_randpool m) = 16 \<Longrightarrow> length (magic_randpool (magic_randomize j r m)) = 16"
  using md5_stream [of stack_ctx "[magic_randpool m, word_octets_le (magic_randomseed m + j) @ word_octets_le r]"]
  by (simp add: magic_randomize_def magic_churnrand_def Let_def stack_ctx_def word_octets_le_def)

end
