(* ===== verification/Chap_Ms.thy ===== *)
theory Chap_Ms
  imports Des_Fips Md4 Ppp_Magic Ppp_Pcb
begin

text \<open>
  MS-CHAP and MS-CHAPv2 (\<open>src/lwip/src/netif/ppp/chap_ms.c\<close> and \<open>pppcrypt.c\<close>): the response to a challenge, the check
  of the answer that proves the server knows the password too, and the encryption keys that both ends
  derive. A string of the C code is a \<open>string\<close>; the password is its octets. Memory behind an array is an argument where
  the code reads it.
\<close>

section \<open>pppcrypt.c\<close>

definition pppcrypt_get_7bits :: "(nat \<Rightarrow> u8) \<Rightarrow> nat \<Rightarrow> u8" where
  "pppcrypt_get_7bits input startBit =
     (let word = push_bit 8 (ucast (input (startBit div 8)) :: u32);
          word = word OR ucast (input (startBit div 8 + 1));
          word = drop_bit (15 - (startBit mod 8 + 7)) word
      in ucast (word AND 0xFE))"

definition pppcrypt_56_to_64_bit_key :: "(nat \<Rightarrow> u8) \<Rightarrow> octets" where
  "pppcrypt_56_to_64_bit_key key =
     [pppcrypt_get_7bits key 0, pppcrypt_get_7bits key 7, pppcrypt_get_7bits key 14, pppcrypt_get_7bits key 21,
      pppcrypt_get_7bits key 28, pppcrypt_get_7bits key 35, pppcrypt_get_7bits key 42, pppcrypt_get_7bits key 49]"

section \<open>chap_ms.c\<close>

definition MD4_SIGNATURE_SIZE :: nat where "MD4_SIGNATURE_SIZE = 16"
definition MAX_NT_PASSWORD :: nat where "MAX_NT_PASSWORD = 256"
definition MS_CHAP_RESPONSE_LEN :: nat where "MS_CHAP_RESPONSE_LEN = 49"
definition MS_CHAP2_RESPONSE_LEN :: nat where "MS_CHAP2_RESPONSE_LEN = 49"
definition MS_AUTH_RESPONSE_LENGTH :: nat where "MS_AUTH_RESPONSE_LENGTH = 40"
definition MS_CHAP_NTRESP :: nat where "MS_CHAP_NTRESP = 24"
definition MS_CHAP_USENT :: nat where "MS_CHAP_USENT = 48"
definition MS_CHAP2_PEER_CHALLENGE :: nat where "MS_CHAP2_PEER_CHALLENGE = 0"
definition MS_CHAP2_PEER_CHAL_LEN :: nat where "MS_CHAP2_PEER_CHAL_LEN = 16"
definition MS_CHAP2_NTRESP :: nat where "MS_CHAP2_NTRESP = 24"
definition MS_CHAP2_AUTHENTICATEE :: bool where "MS_CHAP2_AUTHENTICATEE = False"
definition MS_CHAP2_AUTHENTICATOR :: bool where "MS_CHAP2_AUTHENTICATOR = True"

definition text_octets :: "string \<Rightarrow> octets" where
  "text_octets s = map of_char s"

text \<open>\<open>junk\<close> is the octet after the array \<open>ZPasswordHash\<close>, which the last step of the third key reads.\<close>

definition ChallengeResponse :: "u8 \<Rightarrow> octets \<Rightarrow> octets \<Rightarrow> octets" where
  "ChallengeResponse junk challenge PasswordHash =
     (let ZPasswordHash = memcpy_at 0 (take MD4_SIGNATURE_SIZE PasswordHash) (replicate 21 0);
          mem = (\<lambda>i. if i < 21 then ZPasswordHash ! i else junk);
          block = (\<lambda>off. des_crypt_ecb (des_setkey_enc (pppcrypt_56_to_64_bit_key (\<lambda>i. mem (off + i)))) challenge)
      in block 0 @ block 7 @ block 14)"

definition ChallengeHash :: "octets \<Rightarrow> octets \<Rightarrow> string \<Rightarrow> octets" where
  "ChallengeHash PeerChallenge rchallenge username =
     (let user = (case strrchr username (CHR 0x5C) of Some i \<Rightarrow> drop (Suc i) username | None \<Rightarrow> username)
      in take 8 (sha1_finish (foldl (\<lambda>c d. sha1_update d c) (sha1_starts stack_ctx)
            [take 16 PeerChallenge, take 16 rchallenge, text_octets user])))"

definition ascii2unicode :: "octets \<Rightarrow> octets" where
  "ascii2unicode pw = concat (map (\<lambda>c. [c, 0]) pw)"

definition NTPasswordHash :: "octets \<Rightarrow> octets" where
  "NTPasswordHash secret = md4_finish (md4_update secret (md4_starts stack_ctx))"

definition ChapMS_NT :: "u8 \<Rightarrow> octets \<Rightarrow> octets \<Rightarrow> octets" where
  "ChapMS_NT junk rchallenge secret = ChallengeResponse junk rchallenge (NTPasswordHash (ascii2unicode secret))"

definition ChapMS2_NT :: "u8 \<Rightarrow> octets \<Rightarrow> octets \<Rightarrow> string \<Rightarrow> octets \<Rightarrow> octets" where
  "ChapMS2_NT junk rchallenge PeerChallenge username secret =
     ChallengeResponse junk (ChallengeHash PeerChallenge rchallenge username) (NTPasswordHash (ascii2unicode secret))"

definition hex_digit :: "nat \<Rightarrow> u8" where
  "hex_digit d = of_nat (if d < 10 then 48 + d else 55 + d)"

definition sprintf_02X :: "u8 \<Rightarrow> octets" where
  "sprintf_02X b = [hex_digit (unat b div 16), hex_digit (unat b mod 16)]"

definition auth_Magic1 :: octets where
  "auth_Magic1 =
     [0x4D, 0x61, 0x67, 0x69, 0x63, 0x20, 0x73, 0x65, 0x72, 0x76, 0x65, 0x72, 0x20, 0x74, 0x6F, 0x20, 0x63, 0x6C, 0x69, 0x65,
      0x6E, 0x74, 0x20, 0x73, 0x69, 0x67, 0x6E, 0x69, 0x6E, 0x67, 0x20, 0x63, 0x6F, 0x6E, 0x73, 0x74, 0x61, 0x6E, 0x74]"

definition auth_Magic2 :: octets where
  "auth_Magic2 =
     [0x50, 0x61, 0x64, 0x20, 0x74, 0x6F, 0x20, 0x6D, 0x61, 0x6B, 0x65, 0x20, 0x69, 0x74, 0x20, 0x64, 0x6F, 0x20, 0x6D, 0x6F,
      0x72, 0x65, 0x20, 0x74, 0x68, 0x61, 0x6E, 0x20, 0x6F, 0x6E, 0x65, 0x20, 0x69, 0x74, 0x65, 0x72, 0x61, 0x74, 0x69, 0x6F,
      0x6E]"

definition GenerateAuthenticatorResponse :: "octets \<Rightarrow> octets \<Rightarrow> octets \<Rightarrow> octets \<Rightarrow> string \<Rightarrow> octets" where
  "GenerateAuthenticatorResponse PasswordHashHash NTResponse PeerChallenge rchallenge username =
     (let Digest = sha1_finish (foldl (\<lambda>c d. sha1_update d c) (sha1_starts stack_ctx)
            [take MD4_SIGNATURE_SIZE PasswordHashHash, take 24 NTResponse, auth_Magic1]);
          Challenge = ChallengeHash PeerChallenge rchallenge username;
          Digest = sha1_finish (foldl (\<lambda>c d. sha1_update d c) (sha1_starts stack_ctx) [Digest, Challenge, auth_Magic2])
      in concat (map sprintf_02X Digest))"

definition GenerateAuthenticatorResponsePlain :: "octets \<Rightarrow> octets \<Rightarrow> octets \<Rightarrow> octets \<Rightarrow> string \<Rightarrow> octets" where
  "GenerateAuthenticatorResponsePlain secret NTResponse PeerChallenge rchallenge username =
     GenerateAuthenticatorResponse (NTPasswordHash (NTPasswordHash (ascii2unicode secret))) NTResponse PeerChallenge rchallenge username"

definition Set_Start_Key :: "octets \<Rightarrow> octets \<Rightarrow> ppp_pcb \<Rightarrow> ppp_pcb" where
  "Set_Start_Key rchallenge secret pcb =
     (let PasswordHashHash = NTPasswordHash (NTPasswordHash (ascii2unicode secret));
          Digest = sha1_finish (foldl (\<lambda>c d. sha1_update d c) (sha1_starts stack_ctx)
            [take MD4_SIGNATURE_SIZE PasswordHashHash, take MD4_SIGNATURE_SIZE PasswordHashHash, take 8 rchallenge])
      in pcb\<lparr>mppe_comp := mppe_set_key Digest (mppe_comp pcb), mppe_decomp := mppe_set_key Digest (mppe_decomp pcb),
             mppe_keys_set := True\<rparr>)"

definition key_Magic1 :: octets where
  "key_Magic1 =
     [0x54, 0x68, 0x69, 0x73, 0x20, 0x69, 0x73, 0x20, 0x74, 0x68, 0x65, 0x20, 0x4d, 0x50, 0x50, 0x45, 0x20, 0x4d,
      0x61, 0x73, 0x74, 0x65, 0x72, 0x20, 0x4b, 0x65, 0x79]"

definition key_Magic2 :: octets where
  "key_Magic2 =
     [0x4f, 0x6e, 0x20, 0x74, 0x68, 0x65, 0x20, 0x63, 0x6c, 0x69, 0x65, 0x6e, 0x74, 0x20, 0x73, 0x69, 0x64, 0x65, 0x2c, 0x20,
      0x74, 0x68, 0x69, 0x73, 0x20, 0x69, 0x73, 0x20, 0x74, 0x68, 0x65, 0x20, 0x73, 0x65, 0x6e, 0x64, 0x20, 0x6b, 0x65, 0x79,
      0x3b, 0x20, 0x6f, 0x6e, 0x20, 0x74, 0x68, 0x65, 0x20, 0x73, 0x65, 0x72, 0x76, 0x65, 0x72, 0x20, 0x73, 0x69, 0x64, 0x65,
      0x2c, 0x20, 0x69, 0x74, 0x20, 0x69, 0x73, 0x20, 0x74, 0x68, 0x65, 0x20, 0x72, 0x65, 0x63, 0x65, 0x69, 0x76, 0x65, 0x20,
      0x6b, 0x65, 0x79, 0x2e]"

definition key_Magic3 :: octets where
  "key_Magic3 =
     [0x4f, 0x6e, 0x20, 0x74, 0x68, 0x65, 0x20, 0x63, 0x6c, 0x69, 0x65, 0x6e, 0x74, 0x20, 0x73, 0x69, 0x64, 0x65, 0x2c, 0x20,
      0x74, 0x68, 0x69, 0x73, 0x20, 0x69, 0x73, 0x20, 0x74, 0x68, 0x65, 0x20, 0x72, 0x65, 0x63, 0x65, 0x69, 0x76, 0x65, 0x20,
      0x6b, 0x65, 0x79, 0x3b, 0x20, 0x6f, 0x6e, 0x20, 0x74, 0x68, 0x65, 0x20, 0x73, 0x65, 0x72, 0x76, 0x65, 0x72, 0x20, 0x73,
      0x69, 0x64, 0x65, 0x2c, 0x20, 0x69, 0x74, 0x20, 0x69, 0x73, 0x20, 0x74, 0x68, 0x65, 0x20, 0x73, 0x65, 0x6e, 0x64, 0x20,
      0x6b, 0x65, 0x79, 0x2e]"

definition key_digest :: "octets \<Rightarrow> octets \<Rightarrow> octets" where
  "key_digest MasterKey s = sha1_finish (foldl (\<lambda>c d. sha1_update d c) (sha1_starts stack_ctx)
     [take 16 MasterKey, mppe_sha1_pad1, s, mppe_sha1_pad2])"

definition SetMasterKeys :: "octets \<Rightarrow> octets \<Rightarrow> bool \<Rightarrow> ppp_pcb \<Rightarrow> ppp_pcb" where
  "SetMasterKeys secret NTResponse IsServer pcb =
     (let PasswordHashHash = NTPasswordHash (NTPasswordHash (ascii2unicode secret));
          MasterKey = sha1_finish (foldl (\<lambda>c d. sha1_update d c) (sha1_starts stack_ctx)
            [take MD4_SIGNATURE_SIZE PasswordHashHash, take 24 NTResponse, key_Magic1]);
          send = key_digest MasterKey (if IsServer then key_Magic3 else key_Magic2);
          recv = key_digest MasterKey (if IsServer then key_Magic2 else key_Magic3)
      in pcb\<lparr>mppe_comp := mppe_set_key send (mppe_comp pcb), mppe_decomp := mppe_set_key recv (mppe_decomp pcb),
             mppe_keys_set := True\<rparr>)"

definition ChapMS :: "u8 \<Rightarrow> octets \<Rightarrow> octets \<Rightarrow> ppp_pcb \<Rightarrow> octets \<times> ppp_pcb" where
  "ChapMS junk rchallenge secret pcb =
     (let response = replicate MS_CHAP_RESPONSE_LEN 0;
          response = memcpy_at MS_CHAP_NTRESP (ChapMS_NT junk rchallenge secret) response;
          response = response[MS_CHAP_USENT := 1]
      in (response, Set_Start_Key rchallenge secret pcb))"

text \<open>
  \<open>ChapMS2\<close>: the response, the answer expected from the server (the \<open>authResponse\<close> argument) and the new keys. A
  missing \<open>PeerChallenge\<close> is taken from the random pool.
\<close>

definition ChapMS2 :: "u8 \<Rightarrow> octets \<Rightarrow> octets option \<Rightarrow> string \<Rightarrow> octets \<Rightarrow> bool \<Rightarrow> magic_state \<Rightarrow> ppp_pcb
    \<Rightarrow> octets \<times> octets \<times> magic_state \<times> ppp_pcb" where
  "ChapMS2 junk rchallenge PeerChallenge user secret authenticator m pcb =
     (let response = replicate MS_CHAP2_RESPONSE_LEN 0;
          (chal, m') = (case PeerChallenge of
             None \<Rightarrow> magic_random_bytes MS_CHAP2_PEER_CHAL_LEN m
           | Some c \<Rightarrow> (take MS_CHAP2_PEER_CHAL_LEN c, m));
          response = memcpy_at MS_CHAP2_PEER_CHALLENGE chal response;
          response = memcpy_at MS_CHAP2_NTRESP
            (ChapMS2_NT junk rchallenge (drop MS_CHAP2_PEER_CHALLENGE response) user secret) response;
          authResponse = GenerateAuthenticatorResponsePlain secret (drop MS_CHAP2_NTRESP response)
            (drop MS_CHAP2_PEER_CHALLENGE response) rchallenge user
      in (response, authResponse, m', SetMasterKeys secret (drop MS_CHAP2_NTRESP response) authenticator pcb))"

text \<open>
  The digests' operations. \<open>challenge\<close> points at the length octet of the challenge in the packet; the code skips it and
  reads eight or sixteen octets whatever it says, so the argument is the packet with the memory behind it.
\<close>

definition read_mem :: "(nat \<Rightarrow> u8) \<Rightarrow> nat \<Rightarrow> nat \<Rightarrow> octets" where
  "read_mem mem off n = map (\<lambda>i. mem (off + i)) [0..<n]"

definition chapms_make_response :: "u8 \<Rightarrow> (nat \<Rightarrow> u8) \<Rightarrow> octets \<Rightarrow> ppp_pcb \<Rightarrow> octets \<times> ppp_pcb" where
  "chapms_make_response junk challenge secret pcb =
     (let (r, pcb') = ChapMS junk (read_mem challenge 1 8) secret pcb in (of_nat MS_CHAP_RESPONSE_LEN # r, pcb'))"

definition chapms2_make_response :: "u8 \<Rightarrow> (nat \<Rightarrow> u8) \<Rightarrow> string \<Rightarrow> octets \<Rightarrow> magic_state \<Rightarrow> ppp_pcb
    \<Rightarrow> octets \<times> octets \<times> magic_state \<times> ppp_pcb" where
  "chapms2_make_response junk challenge our_name secret m pcb =
     (let (r, priv, m', pcb') = ChapMS2 junk (read_mem challenge 1 16) None our_name secret MS_CHAP2_AUTHENTICATEE m pcb
      in (of_nat MS_CHAP2_RESPONSE_LEN # r, priv, m', pcb'))"

definition chapms2_check_success :: "octets \<Rightarrow> octets \<Rightarrow> bool" where
  "chapms2_check_success msg priv =
     (if length msg < MS_AUTH_RESPONSE_LENGTH + 2 \<or> take 2 msg \<noteq> text_octets ''S='' then False
      else (let msg = drop 2 msg
            in if length msg < MS_AUTH_RESPONSE_LENGTH
                  \<or> take MS_AUTH_RESPONSE_LENGTH msg \<noteq> take MS_AUTH_RESPONSE_LENGTH priv then False
               else (let msg = drop MS_AUTH_RESPONSE_LENGTH msg
                     in if length msg \<ge> 3 \<and> take 3 msg = text_octets '' M='' then True
                        else if msg \<noteq> [] then False else True)))"

text \<open>The line that \<open>chapms_handle_failure\<close> reports.\<close>

datatype failure_report = Unknown_failure octets | Failed_with string

definition chap_error_text :: "int \<Rightarrow> string option" where
  "chap_error_text err =
     (if err = 646 then Some ''E=646 Restricted logon hours''
      else if err = 647 then Some ''E=647 Account disabled''
      else if err = 648 then Some ''E=648 Password expired''
      else if err = 649 then Some ''E=649 No dialin permission''
      else if err = 691 then Some ''E=691 Authentication failure''
      else if err = 709 then Some ''E=709 Error changing password''
      else None)"

definition c_string :: "octets \<Rightarrow> string" where
  "c_string b = map (\<lambda>x. char_of (unat x)) (takeWhile (\<lambda>x. x \<noteq> 0) b)"

definition chapms_handle_failure :: "octets \<Rightarrow> failure_report" where
  "chapms_handle_failure inp =
     (let len = min (length inp) 63; msg = c_string (take len inp)
      in if \<not> strncmp_eq msg ''E='' then Failed_with msg
         else (let err = sint (word_of_int (fst (strtol (drop 2 msg))) :: 32 word)
               in case (if len \<noteq> 0 then strstr msg '' M='' else None) of
                    Some i \<Rightarrow> Failed_with (drop (i + 3) msg)
                  | None \<Rightarrow> (case chap_error_text err of
                               Some t \<Rightarrow> Failed_with t
                             | None \<Rightarrow> Unknown_failure (take len inp))))"

end
