(* ===== verification/Ppp_Auth.thy ===== *)
theory Ppp_Auth
  imports Chap_Ms Ppp_Core Ppp_Ccp
begin

text \<open>
  Authentication and the phases of a link: \<open>src/lwip/src/netif/ppp/auth.c\<close>, the CHAP client of \<open>chap-new.c\<close> and the
  MD5 digest of \<open>chap-md5.c\<close>. The control block is a \<open>ppp_unit\<close> with the fields of \<open>ppp.h\<close> that these files keep; CCP is
  run, the calls into IPCP and LCP are recorded in the order in which they are made. A pbuf that a
  function allocates is counted until it is freed or written.
\<close>

section \<open>Data\<close>

datatype chap_digest_type = md5_digest | chapms_digest | chapms2_digest

definition CHAP_MD5 :: u8 where "CHAP_MD5 = 5"
definition CHAP_MICROSOFT :: u8 where "CHAP_MICROSOFT = 0x80"
definition CHAP_MICROSOFT_V2 :: u8 where "CHAP_MICROSOFT_V2 = 0x81"
definition MDTYPE_MICROSOFT_V2 :: u8 where "MDTYPE_MICROSOFT_V2 = 0x1"
definition MDTYPE_MICROSOFT :: u8 where "MDTYPE_MICROSOFT = 0x2"
definition MDTYPE_MD5 :: u8 where "MDTYPE_MD5 = 0x4"
definition MDTYPE_NONE :: u8 where "MDTYPE_NONE = 0"

fun digest_code :: "chap_digest_type \<Rightarrow> u8" where
  "digest_code md5_digest = CHAP_MD5"
| "digest_code chapms_digest = CHAP_MICROSOFT"
| "digest_code chapms2_digest = CHAP_MICROSOFT_V2"

definition chap_digests :: "chap_digest_type list" where
  "chap_digests = [md5_digest, chapms_digest, chapms2_digest]"

definition CHAP_DIGEST :: "u8 \<Rightarrow> u8" where
  "CHAP_DIGEST mdtype =
     (if mdtype AND MDTYPE_MD5 \<noteq> 0 then CHAP_MD5
      else if mdtype AND MDTYPE_MICROSOFT_V2 \<noteq> 0 then CHAP_MICROSOFT_V2
      else if mdtype AND MDTYPE_MICROSOFT \<noteq> 0 then CHAP_MICROSOFT else 0)"

definition LOWERUP :: u8 where "LOWERUP = 1"
definition AUTH_STARTED :: u8 where "AUTH_STARTED = 2"
definition AUTH_DONE :: u8 where "AUTH_DONE = 4"
definition AUTH_FAILED :: u8 where "AUTH_FAILED = 8"
definition CHAP_HDRLEN :: nat where "CHAP_HDRLEN = 4"
definition PPP_HDRLEN :: nat where "PPP_HDRLEN = 4"
definition CHAP_CHALLENGE :: u8 where "CHAP_CHALLENGE = 1"
definition CHAP_RESPONSE :: u8 where "CHAP_RESPONSE = 2"
definition CHAP_SUCCESS :: u8 where "CHAP_SUCCESS = 3"
definition CHAP_FAILURE :: u8 where "CHAP_FAILURE = 4"
definition MAXNAMELEN :: nat where "MAXNAMELEN = 256"
definition MAXSECRETLEN :: nat where "MAXSECRETLEN = 256"
definition MAX_RESPONSE_LEN :: nat where "MAX_RESPONSE_LEN = 64"
definition RESP_MAX_PKTLEN :: nat where "RESP_MAX_PKTLEN = PPP_HDRLEN + CHAP_HDRLEN + 4 + MAX_RESPONSE_LEN + MAXNAMELEN"
definition MD5_HASH_SIZE :: nat where "MD5_HASH_SIZE = 16"
definition CHAP_WITHPEER :: u16 where "CHAP_WITHPEER = 0x4"
definition CHAP_MD5_WITHPEER :: u16 where "CHAP_MD5_WITHPEER = 0x40"

record chap_client_state =
  chap_flags :: u8
  chap_name :: string
  chap_digest :: chap_digest_type
  chap_priv :: octets

datatype net_call = Ipcp_lowerup | Ipcp_lowerdown | Ipcp_open | Ipcp_close string

record auth_unit =
  a_unit :: ppp_unit
  a_ccp :: ccp_fsm
  a_chap :: chap_client_state
  a_magic :: magic_state
  a_pending :: u16
  a_np_open :: u8
  a_np_up :: u8
  a_net_calls :: "net_call list"
  a_held_pbufs :: nat
  a_reports :: "failure_report list"

definition on_unit :: "(ppp_unit \<Rightarrow> ppp_unit) \<Rightarrow> auth_unit \<Rightarrow> auth_unit" where
  "on_unit g s = s\<lparr>a_unit := g (a_unit s)\<rparr>"

definition on_chap :: "(chap_client_state \<Rightarrow> chap_client_state) \<Rightarrow> auth_unit \<Rightarrow> auth_unit" where
  "on_chap g s = s\<lparr>a_chap := g (a_chap s)\<rparr>"

definition net_call :: "net_call \<Rightarrow> auth_unit \<Rightarrow> auth_unit" where
  "net_call c s = s\<lparr>a_net_calls := a_net_calls s @ [c]\<rparr>"

text \<open>The CCP automaton works on the control block of the unit.\<close>

definition on_ccp :: "(ccp_fsm \<Rightarrow> ccp_fsm) \<Rightarrow> auth_unit \<Rightarrow> auth_unit" where
  "on_ccp g s =
     (let f = g ((a_ccp s)\<lparr>f_pcb := u_pcb (a_unit s)\<rparr>)
      in s\<lparr>a_ccp := f, a_unit := (a_unit s)\<lparr>u_pcb := f_pcb f\<rparr>\<rparr>)"

definition lcp_close_call :: "string \<Rightarrow> auth_unit \<Rightarrow> auth_unit" where
  "lcp_close_call reason s = on_unit (do_call (Lcp_close_call reason)) s"

section \<open>auth.c: networks\<close>

definition continue_networks :: "auth_unit \<Rightarrow> auth_unit" where
  "continue_networks s =
     (let s1 = net_call Ipcp_open s; s2 = s1\<lparr>a_np_open := a_np_open s1 + 1\<rparr>
      in if a_np_open s2 = 0 then lcp_close_call ''No network protocols running'' s2 else s2)"

definition start_networks :: "ccp_fsm fsm_env \<Rightarrow> auth_unit \<Rightarrow> auth_unit" where
  "start_networks base s =
     (let s1 = on_unit (new_phase PPP_PHASE_NETWORK) s; s2 = on_ccp (ccp_open base) s1
      in if mppe_opts (ccp_gotoptions (u_pcb (a_unit s2))) = 0 then continue_networks s2 else s2)"

definition network_phase :: "ccp_fsm fsm_env \<Rightarrow> auth_unit \<Rightarrow> auth_unit" where
  "network_phase base s = start_networks base s"

definition np_up :: "auth_unit \<Rightarrow> auth_unit" where
  "np_up s =
     (let s1 = (if a_np_up s = 0 then on_unit (new_phase PPP_PHASE_RUNNING) s else s)
      in s1\<lparr>a_np_up := a_np_up s1 + 1\<rparr>)"

definition np_down :: "auth_unit \<Rightarrow> auth_unit" where
  "np_down s =
     (let s1 = s\<lparr>a_np_up := a_np_up s - 1\<rparr>
      in if a_np_up s1 = 0 then on_unit (new_phase PPP_PHASE_NETWORK) s1 else s1)"

definition np_finished :: "auth_unit \<Rightarrow> auth_unit" where
  "np_finished s =
     (let s1 = s\<lparr>a_np_open := a_np_open s - 1\<rparr>
      in if unat (a_np_open s1) \<le> 0 then lcp_close_call ''No network protocols running'' s1 else s1)"

section \<open>auth.c: authentication\<close>

definition auth_withpeer_fail :: "auth_unit \<Rightarrow> auth_unit" where
  "auth_withpeer_fail s =
     lcp_close_call ''Failed to authenticate ourselves to peer'' (on_unit (\<lambda>u. u\<lparr>u_err := PPPERR_AUTHFAIL\<rparr>) s)"

definition auth_bit :: "u16 \<Rightarrow> u8 \<Rightarrow> u16" where
  "auth_bit protocol prot_flavor =
     (if protocol = PPP_CHAP
      then CHAP_WITHPEER OR (if prot_flavor = CHAP_MD5 then CHAP_MD5_WITHPEER
                             else if prot_flavor = CHAP_MICROSOFT then CHAP_MS_WITHPEER
                             else if prot_flavor = CHAP_MICROSOFT_V2 then CHAP_MS2_WITHPEER else 0)
      else 0)"

definition auth_withpeer_success :: "ccp_fsm fsm_env \<Rightarrow> u16 \<Rightarrow> u8 \<Rightarrow> auth_unit \<Rightarrow> auth_unit" where
  "auth_withpeer_success base protocol prot_flavor s =
     (let b = auth_bit protocol prot_flavor;
          s1 = on_unit (on_unit_pcb (\<lambda>pcb. pcb\<lparr>auth_done := auth_done pcb OR b\<rparr>)) s;
          s2 = s1\<lparr>a_pending := a_pending s1 AND NOT b\<rparr>
      in if a_pending s2 = 0 then network_phase base s2 else s2)"

text \<open>A control block without credentials has empty strings for its null pointers; the engine refuses an empty name.\<close>

definition get_secret :: "string \<Rightarrow> ppp_unit \<Rightarrow> octets option" where
  "get_secret client u =
     (if client = [] \<or> u_user u = [] \<or> u_passwd u = [] \<or> client \<noteq> u_user u then None
      else Some (text_octets (take MAXSECRETLEN (u_passwd u))))"

section \<open>chap-md5.c\<close>

definition chap_md5_make_response :: "u8 \<Rightarrow> (nat \<Rightarrow> u8) \<Rightarrow> octets \<Rightarrow> octets" where
  "chap_md5_make_response i challenge secret =
     (let challenge_len = unat (challenge 0)
      in of_nat MD5_HASH_SIZE # md5_finish (foldl (\<lambda>c d. md5_update d c) (md5_starts stack_ctx)
           [[i], secret, read_mem challenge 1 challenge_len]))"

section \<open>chap-new.c\<close>

definition chap_lowerup :: "auth_unit \<Rightarrow> auth_unit" where
  "chap_lowerup s = on_chap (\<lambda>c. c\<lparr>chap_flags := chap_flags c OR LOWERUP\<rparr>) s"

definition chap_lowerdown :: "auth_unit \<Rightarrow> auth_unit" where
  "chap_lowerdown s = on_chap (\<lambda>c. c\<lparr>chap_flags := 0\<rparr>) s"

text \<open>\<open>None\<close> is the fatal error of a digest that the table does not have.\<close>

definition chap_auth_with_peer :: "string \<Rightarrow> u8 \<Rightarrow> auth_unit \<Rightarrow> auth_unit option" where
  "chap_auth_with_peer our_name code s =
     (if our_name = [] then Some s
      else if chap_flags (a_chap s) AND AUTH_STARTED \<noteq> 0 then Some s
      else (case List.find (\<lambda>d. digest_code d = code) chap_digests of
              None \<Rightarrow> None
            | Some d \<Rightarrow> Some (on_chap (\<lambda>c. c\<lparr>chap_digest := d, chap_name := our_name,
                                               chap_flags := chap_flags c OR AUTH_STARTED\<rparr>) s)))"

text \<open>
  What surrounds a call: the pbuf allocator, the memory behind the packet and behind the padded hash, and
  the result of the link.
\<close>

record chap_env =
  ce_alloc :: bool
  ce_contiguous :: bool
  ce_behind :: "nat \<Rightarrow> u8"
  ce_junk :: u8
  ce_link :: err_t

definition packet_mem :: "chap_env \<Rightarrow> octets \<Rightarrow> nat \<Rightarrow> u8" where
  "packet_mem env pkt i = (if i < length pkt then pkt ! i else ce_behind env i)"

definition make_response :: "chap_env \<Rightarrow> u8 \<Rightarrow> octets \<Rightarrow> octets \<Rightarrow> auth_unit \<Rightarrow> octets \<times> auth_unit" where
  "make_response env i pkt secret s =
     (let mem = packet_mem env pkt; pcb = u_pcb (a_unit s)
      in case chap_digest (a_chap s) of
           md5_digest \<Rightarrow> (chap_md5_make_response i mem secret, s)
         | chapms_digest \<Rightarrow>
             (let (r, pcb') = chapms_make_response (ce_junk env) mem secret pcb
              in (r, on_unit (on_unit_pcb (\<lambda>_. pcb')) s))
         | chapms2_digest \<Rightarrow>
             (let (r, priv, m, pcb') = chapms2_make_response (ce_junk env) mem (chap_name (a_chap s)) secret (a_magic s) pcb
              in (r, on_unit (on_unit_pcb (\<lambda>_. pcb'))
                       (on_chap (\<lambda>c. c\<lparr>chap_priv := memcpy_at 0 (priv @ [0]) (chap_priv c)\<rparr>) (s\<lparr>a_magic := m\<rparr>)))))"

definition MAKEHEADER :: "u16 \<Rightarrow> octets" where
  "MAKEHEADER t = [0xff, 0x03, hi8 t, lo8 t]"

definition response_packet :: "u8 \<Rightarrow> octets \<Rightarrow> string \<Rightarrow> octets" where
  "response_packet i r name =
     (let clen = unat (r ! 0); len = CHAP_HDRLEN + clen + 1 + length name
      in MAKEHEADER PPP_CHAP @ [CHAP_RESPONSE, i, of_nat (len div 256), of_nat len] @ take (Suc clen) r @ text_octets name)"

definition chap_respond :: "chap_env \<Rightarrow> u8 \<Rightarrow> octets \<Rightarrow> nat \<Rightarrow> auth_unit \<Rightarrow> auth_unit" where
  "chap_respond env i pkt len s0 =
     (if \<not> ce_alloc env then s0
      else if \<not> ce_contiguous env then s0
      else (let s = s0\<lparr>a_held_pbufs := Suc (a_held_pbufs s0)\<rparr>; c = a_chap s
            in if chap_flags c AND (LOWERUP OR AUTH_STARTED) \<noteq> LOWERUP OR AUTH_STARTED then s
               else if len < 2 \<or> len < unat (packet_mem env pkt 0) + 1 then s
               else (let secret = (case get_secret (chap_name c) (a_unit s) of Some x \<Rightarrow> x | None \<Rightarrow> []);
                         (r, s1) = make_response env i pkt secret s;
                         s2 = s1\<lparr>a_held_pbufs := a_held_pbufs s1 - 1\<rparr>
                     in on_unit (\<lambda>u. snd (ppp_write (ce_link env) (response_packet i r (chap_name c)) u)) s2)))"

definition status_result :: "u8 \<Rightarrow> octets \<Rightarrow> chap_client_state \<Rightarrow> bool" where
  "status_result code msg c \<longleftrightarrow>
     code = CHAP_SUCCESS \<and> (chap_digest c = chapms2_digest \<longrightarrow> chapms2_check_success msg (chap_priv c))"

definition report_failure :: "u8 \<Rightarrow> octets \<Rightarrow> auth_unit \<Rightarrow> auth_unit" where
  "report_failure code msg s =
     (if code \<noteq> CHAP_SUCCESS \<and> chap_digest (a_chap s) \<noteq> md5_digest
      then s\<lparr>a_reports := a_reports s @ [chapms_handle_failure msg]\<rparr> else s)"

definition chap_handle_status :: "ccp_fsm fsm_env \<Rightarrow> u8 \<Rightarrow> octets \<Rightarrow> auth_unit \<Rightarrow> auth_unit" where
  "chap_handle_status base code msg s =
     (if chap_flags (a_chap s) AND (AUTH_DONE OR AUTH_STARTED OR LOWERUP) \<noteq> AUTH_STARTED OR LOWERUP then s
      else (let s1 = on_chap (\<lambda>c. c\<lparr>chap_flags := chap_flags c OR AUTH_DONE\<rparr>) s;
                s2 = report_failure code msg s1
            in if status_result code msg (a_chap s1)
               then auth_withpeer_success base PPP_CHAP (digest_code (chap_digest (a_chap s2))) s2
               else auth_withpeer_fail (on_chap (\<lambda>c. c\<lparr>chap_flags := chap_flags c OR AUTH_FAILED\<rparr>) s2)))"

definition chap_input :: "ccp_fsm fsm_env \<Rightarrow> chap_env \<Rightarrow> octets \<Rightarrow> auth_unit \<Rightarrow> auth_unit" where
  "chap_input base env inpacket s =
     (if length inpacket < CHAP_HDRLEN then s
      else (let code = inpacket ! 0; i = inpacket ! 1; len = unat (get16 inpacket 2); pkt = drop CHAP_HDRLEN inpacket
            in if len < CHAP_HDRLEN \<or> len > length inpacket then s
               else (let len = len - CHAP_HDRLEN
                     in if code = CHAP_CHALLENGE then chap_respond env i pkt len s
                        else if code = CHAP_FAILURE \<or> code = CHAP_SUCCESS then chap_handle_status base code (take len pkt) s
                        else s)))"

definition chap_protrej :: "auth_unit \<Rightarrow> auth_unit" where
  "chap_protrej s =
     (if chap_flags (a_chap s) AND (AUTH_STARTED OR AUTH_DONE) = AUTH_STARTED
      then auth_withpeer_fail (on_chap (\<lambda>c. c\<lparr>chap_flags := chap_flags c AND NOT AUTH_STARTED\<rparr>) s)
      else s)"

section \<open>auth.c: the link\<close>

definition link_established :: "ccp_fsm fsm_env \<Rightarrow> bool \<Rightarrow> u8 \<Rightarrow> auth_unit \<Rightarrow> auth_unit option" where
  "link_established base neg_chap chap_mdtype s =
     (let s1 = on_unit (new_phase PPP_PHASE_AUTHENTICATE) (on_ccp (ccp_lowerup base) (net_call Ipcp_lowerup (chap_lowerup s)))
      in case (if neg_chap then chap_auth_with_peer (u_user (a_unit s1)) (CHAP_DIGEST chap_mdtype) s1 else Some s1) of
           None \<Rightarrow> None
         | Some s2 \<Rightarrow>
             (let auth = (if neg_chap then CHAP_WITHPEER else 0);
                  s3 = on_unit (on_unit_pcb (\<lambda>pcb. pcb\<lparr>auth_done := 0\<rparr>)) (s2\<lparr>a_pending := auth\<rparr>)
              in Some (if auth = 0 then network_phase base s3 else s3)))"

definition lcp_down_text :: octets where
  "lcp_down_text = text_octets ''LCP down''"

definition upper_layers_down :: "ccp_fsm fsm_env \<Rightarrow> auth_unit \<Rightarrow> auth_unit" where
  "upper_layers_down base s =
     (let s1 = net_call (Ipcp_close ''LCP down'') (net_call Ipcp_lowerdown (chap_lowerdown s));
          s2 = on_ccp (ccp_close base (Some lcp_down_text)) (on_ccp (ccp_lowerdown base) s1)
      in s2\<lparr>a_np_open := 0, a_np_up := 0\<rparr>)"

definition link_down :: "ccp_fsm fsm_env \<Rightarrow> auth_unit \<Rightarrow> auth_unit" where
  "link_down base s =
     (let s1 = upper_layers_down base s
      in if u_phase (a_unit s1) \<noteq> PPP_PHASE_DEAD then on_unit (new_phase PPP_PHASE_ESTABLISH) s1 else s1)"

definition link_terminated :: "auth_unit \<Rightarrow> auth_unit" where
  "link_terminated s =
     (if u_phase (a_unit s) = PPP_PHASE_DEAD then s
      else on_unit (\<lambda>u. ppp_link_terminated (do_call Lcp_lowerdown_call (new_phase PPP_PHASE_DISCONNECT u))) s)"

end
