(* ===== verification/Ppp_Ipcp.thy ===== *)
theory Ppp_Ipcp
  imports Ppp_Options Ppp_Auth Lwip_Def
begin

text \<open>
  IPCP, the negotiation of IP addresses: \<open>src/lwip/src/netif/ppp/ipcp.c\<close> as a client of the automaton of \<open>fsm.c\<close>. Addresses
  are kept in network byte order, as the code keeps them. The callback \<open>ipcp_up\<close> may close the automaton that called it;
  \<open>ipcp_base\<close> are the callbacks without it, which is all that closing uses.
\<close>

section \<open>Data\<close>

definition CI_ADDRS :: u8 where "CI_ADDRS = 1"
definition CI_COMPRESSTYPE :: u8 where "CI_COMPRESSTYPE = 2"
definition CI_ADDR :: u8 where "CI_ADDR = 3"
definition CI_MS_DNS1 :: u8 where "CI_MS_DNS1 = 129"
definition CI_MS_DNS2 :: u8 where "CI_MS_DNS2 = 131"
definition IPCP_VJ_COMP :: u16 where "IPCP_VJ_COMP = 0x2d"
definition IPCP_VJ_COMP_OLD :: u16 where "IPCP_VJ_COMP_OLD = 0x37"
definition MAX_STATES :: nat where "MAX_STATES = 16"
definition CILEN_VOID :: nat where "CILEN_VOID = 2"
definition CILEN_COMPRESS :: nat where "CILEN_COMPRESS = 4"
definition CILEN_VJ :: nat where "CILEN_VJ = 6"
definition CILEN_ADDR :: nat where "CILEN_ADDR = 6"
definition CILEN_ADDRS :: nat where "CILEN_ADDRS = 10"

record ipcp_options =
  neg_addr :: bool
  old_addrs :: bool
  req_addr :: bool
  neg_vj :: bool
  old_vj :: bool
  cflag :: bool
  accept_local :: bool
  accept_remote :: bool
  req_dns1 :: bool
  req_dns2 :: bool
  ouraddr :: u32
  hisaddr :: u32
  dnsaddr0 :: u32
  dnsaddr1 :: u32
  vj_proto :: u16
  maxslotindex :: u8

definition no_options :: ipcp_options where
  "no_options = \<lparr>neg_addr = False, old_addrs = False, req_addr = False, neg_vj = False, old_vj = False, cflag = False,
     accept_local = False, accept_remote = False, req_dns1 = False, req_dns2 = False, ouraddr = 0, hisaddr = 0,
     dnsaddr0 = 0, dnsaddr1 = 0, vj_proto = 0, maxslotindex = 0\<rparr>"

record ip_unit =
  i_auth :: auth_unit
  ipcp_wantoptions :: ipcp_options
  ipcp_gotoptions :: ipcp_options
  ipcp_allowoptions :: ipcp_options
  ipcp_hisoptions :: ipcp_options
  ipcp_is_open :: bool
  ipcp_is_up :: bool
  usepeerdns :: bool
  noremoteip :: bool
  ask_for_local :: bool

type_synonym ipcp_fsm = "ip_unit pfsm"

definition on_auth :: "(auth_unit \<Rightarrow> auth_unit) \<Rightarrow> ip_unit \<Rightarrow> ip_unit" where
  "on_auth g i = i\<lparr>i_auth := g (i_auth i)\<rparr>"

definition put_long :: "u32 \<Rightarrow> octets" where
  "put_long w = [hi8 (ucast (drop_bit 16 w)), lo8 (ucast (drop_bit 16 w)), hi8 (ucast w), lo8 (ucast w)]"

text \<open>An address of a packet, as \<open>GETLONG\<close> and \<open>lwip_htonl\<close> give it.\<close>

definition get_addr :: "octets \<Rightarrow> nat \<Rightarrow> u32" where
  "get_addr p i = lwip_htonl (get32 p i)"

section \<open>Our own options\<close>

definition ipcp_resetci :: "ipcp_fsm \<Rightarrow> ipcp_fsm" where
  "ipcp_resetci f = on_pcb (\<lambda>i.
     let wo = ipcp_wantoptions i; ao = ipcp_allowoptions i;
         wo = wo\<lparr>req_addr := (neg_addr wo \<or> old_addrs wo) \<and> (neg_addr ao \<or> old_addrs ao)\<rparr>;
         wo = (if ouraddr wo = 0 then wo\<lparr>accept_local := True\<rparr> else wo);
         wo = (if hisaddr wo = 0 then wo\<lparr>accept_remote := True\<rparr> else wo);
         wo = wo\<lparr>req_dns1 := usepeerdns i, req_dns2 := usepeerdns i\<rparr>;
         go = (if \<not> ask_for_local i then wo\<lparr>ouraddr := 0\<rparr> else wo)
     in i\<lparr>ipcp_wantoptions := wo, ipcp_gotoptions := go, ipcp_hisoptions := no_options\<rparr>) f"

text \<open>\<open>ipcp_cilen\<close> first goes over to the old forms if the peer used them.\<close>

definition old_forms :: "ip_unit \<Rightarrow> ipcp_options" where
  "old_forms i =
     (let go = ipcp_gotoptions i; wo = ipcp_wantoptions i; ho = ipcp_hisoptions i;
          go = (if neg_addr go \<and> old_addrs go \<and> \<not> neg_addr ho \<and> old_addrs ho then go\<lparr>neg_addr := False\<rparr> else go)
      in if neg_vj wo \<and> \<not> neg_vj go \<and> \<not> old_vj go \<and> neg_vj ho \<and> old_vj ho
         then go\<lparr>neg_vj := True, old_vj := True, vj_proto := vj_proto ho\<rparr> else go)"

definition vj_len :: "ipcp_options \<Rightarrow> nat" where
  "vj_len go = (if old_vj go then CILEN_COMPRESS else CILEN_VJ)"

definition own_length :: "ipcp_options \<Rightarrow> nat" where
  "own_length go =
     (if \<not> neg_addr go \<and> old_addrs go then CILEN_ADDRS else 0) + (if neg_vj go then vj_len go else 0)
     + (if neg_addr go then CILEN_ADDR else 0) + (if req_dns1 go then CILEN_ADDR else 0) + (if req_dns2 go then CILEN_ADDR else 0)"

definition ipcp_cilen :: "ipcp_fsm \<Rightarrow> nat \<times> ipcp_fsm" where
  "ipcp_cilen f = (let go = old_forms (f_pcb f) in (own_length go, on_pcb (\<lambda>i. i\<lparr>ipcp_gotoptions := go\<rparr>) f))"

definition ci_addrs :: "ipcp_options \<Rightarrow> octets" where
  "ci_addrs go = [CI_ADDRS, of_nat CILEN_ADDRS] @ put_long (lwip_htonl (ouraddr go)) @ put_long (lwip_htonl (hisaddr go))"

definition ci_vj :: "ipcp_options \<Rightarrow> octets" where
  "ci_vj go = [CI_COMPRESSTYPE, of_nat (vj_len go), hi8 (vj_proto go), lo8 (vj_proto go)]
     @ (if old_vj go then [] else [maxslotindex go, of_bool (cflag go)])"

definition ci_addr :: "u8 \<Rightarrow> u32 \<Rightarrow> octets" where
  "ci_addr opt val = [opt, of_nat CILEN_ADDR] @ put_long (lwip_htonl val)"

text \<open>An option is added if it fits; the first component is whether it is still asked for.\<close>

definition add_ci :: "bool \<Rightarrow> octets \<Rightarrow> octets \<times> nat \<Rightarrow> bool \<times> octets \<times> nat" where
  "add_ci neg ci out =
     (if \<not> neg then (False, out)
      else if length ci \<le> snd out then (True, fst out @ ci, snd out - length ci) else (False, out))"

definition ipcp_addci :: "ipcp_fsm \<Rightarrow> nat \<Rightarrow> octets \<times> ipcp_fsm" where
  "ipcp_addci f n =
     (let go = ipcp_gotoptions (f_pcb f); old = (\<not> neg_addr go \<and> old_addrs go);
          (b, out) = add_ci old (ci_addrs go) ([], n);
          go = (if old \<and> \<not> b then go\<lparr>old_addrs := False\<rparr> else go);
          (b, out) = add_ci (neg_vj go) (ci_vj go) out; go = go\<lparr>neg_vj := b\<rparr>;
          (b, out) = add_ci (neg_addr go) (ci_addr CI_ADDR (ouraddr go)) out; go = go\<lparr>neg_addr := b\<rparr>;
          (b, out) = add_ci (req_dns1 go) (ci_addr CI_MS_DNS1 (dnsaddr0 go)) out; go = go\<lparr>req_dns1 := b\<rparr>;
          (b, out) = add_ci (req_dns2 go) (ci_addr CI_MS_DNS2 (dnsaddr1 go)) out; go = go\<lparr>req_dns2 := b\<rparr>
      in (fst out, on_pcb (\<lambda>i. i\<lparr>ipcp_gotoptions := go\<rparr>) f))"

section \<open>Answers to our options\<close>

text \<open>\<open>None\<close> is the jump to \<open>bad\<close>.\<close>

definition ack_addrs :: "ipcp_options \<Rightarrow> octets \<Rightarrow> octets option" where
  "ack_addrs go p =
     (if \<not> neg_addr go \<and> old_addrs go
      then (if length p < CILEN_ADDRS \<or> p ! 1 \<noteq> of_nat CILEN_ADDRS \<or> p ! 0 \<noteq> CI_ADDRS
               \<or> ouraddr go \<noteq> get_addr p 2 \<or> hisaddr go \<noteq> get_addr p 6 then None
            else Some (drop CILEN_ADDRS p))
      else Some p)"

definition ack_vj :: "ipcp_options \<Rightarrow> octets \<Rightarrow> octets option" where
  "ack_vj go p =
     (if neg_vj go
      then (if length p < vj_len go \<or> p ! 1 \<noteq> of_nat (vj_len go) \<or> p ! 0 \<noteq> CI_COMPRESSTYPE \<or> get16 p 2 \<noteq> vj_proto go
               \<or> \<not> old_vj go \<and> (p ! 4 \<noteq> maxslotindex go \<or> p ! 5 \<noteq> of_bool (cflag go)) then None
            else Some (drop (vj_len go) p))
      else Some p)"

definition ack_addr :: "u8 \<Rightarrow> bool \<Rightarrow> u32 \<Rightarrow> octets \<Rightarrow> octets option" where
  "ack_addr opt neg val p =
     (if neg
      then (if length p < CILEN_ADDR \<or> p ! 1 \<noteq> of_nat CILEN_ADDR \<or> p ! 0 \<noteq> opt \<or> val \<noteq> get_addr p 2 then None
            else Some (drop CILEN_ADDR p))
      else Some p)"

definition ipcp_ackci :: "ipcp_fsm \<Rightarrow> octets \<Rightarrow> bool" where
  "ipcp_ackci f p =
     (let go = ipcp_gotoptions (f_pcb f)
      in Option.bind (ack_addrs go p) (\<lambda>p. Option.bind (ack_vj go p) (\<lambda>p.
         Option.bind (ack_addr CI_ADDR (neg_addr go) (ouraddr go) p) (\<lambda>p.
         Option.bind (ack_addr CI_MS_DNS1 (req_dns1 go) (dnsaddr0 go) p) (\<lambda>p.
         ack_addr CI_MS_DNS2 (req_dns2 go) (dnsaddr1 go) p)))) = Some [])"

text \<open>
  A Nak. The state of the walk is the pointer \<open>p\<close> (what follows it), the length that is left, the options that have been
  seen and the options to ask for next. They are two things because a Nak of the VJ option that is treated as a
  reject moves the pointer by four octets and the length by six.
\<close>

type_synonym nak_state = "octets \<times> nat \<times> ipcp_options \<times> ipcp_options"

definition nak_at :: "bool \<Rightarrow> u8 \<Rightarrow> nat \<Rightarrow> octets \<Rightarrow> nat \<Rightarrow> bool" where
  "nak_at neg opt cilen p len \<longleftrightarrow> neg \<and> cilen \<le> len \<and> p ! 1 = of_nat cilen \<and> p ! 0 = opt"

definition nak_addrs :: "ipcp_options \<Rightarrow> bool \<Rightarrow> nak_state \<Rightarrow> nak_state" where
  "nak_addrs go treat_as_reject s =
     (let (p, len, no, try) = s
      in if nak_at (\<not> neg_addr go \<and> old_addrs go) CI_ADDRS CILEN_ADDRS p len
         then (let a1 = get_addr p 2; a2 = get_addr p 6;
                   try1 = (if treat_as_reject then try\<lparr>old_addrs := False\<rparr>
                           else (let t = (if accept_local go \<and> a1 \<noteq> 0 then try\<lparr>ouraddr := a1\<rparr> else try)
                                 in if accept_remote go \<and> a2 \<noteq> 0 then t\<lparr>hisaddr := a2\<rparr> else t))
               in (drop CILEN_ADDRS p, len - CILEN_ADDRS, no\<lparr>old_addrs := True\<rparr>, try1))
         else s)"

definition nak_vj :: "ipcp_options \<Rightarrow> bool \<Rightarrow> nak_state \<Rightarrow> nak_state" where
  "nak_vj go treat_as_reject s =
     (let (p, len, no, try) = s; cishort = get16 p 2; no1 = no\<lparr>neg_vj := True\<rparr>
      in if nak_at (neg_vj go) CI_COMPRESSTYPE CILEN_VJ p len
         then (if treat_as_reject then (drop 4 p, len - CILEN_VJ, no1, try\<lparr>neg_vj := False\<rparr>)
               else (drop 6 p, len - CILEN_VJ, no1,
                     if cishort = IPCP_VJ_COMP
                     then (let t = try\<lparr>old_vj := False\<rparr>;
                               t = (if p ! 4 < maxslotindex go then t\<lparr>maxslotindex := p ! 4\<rparr> else t)
                           in if p ! 5 = 0 then t\<lparr>cflag := False\<rparr> else t)
                     else try\<lparr>neg_vj := False\<rparr>))
         else if nak_at (neg_vj go) CI_COMPRESSTYPE CILEN_COMPRESS p len
         then (drop 4 p, len - CILEN_COMPRESS, no1,
               if treat_as_reject then try\<lparr>neg_vj := False\<rparr>
               else if cishort = IPCP_VJ_COMP \<or> cishort = IPCP_VJ_COMP_OLD then try\<lparr>old_vj := True, vj_proto := cishort\<rparr>
               else try\<lparr>neg_vj := False\<rparr>)
         else s)"

definition nak_addr :: "ipcp_options \<Rightarrow> bool \<Rightarrow> nak_state \<Rightarrow> nak_state" where
  "nak_addr go treat_as_reject s =
     (let (p, len, no, try) = s
      in if nak_at (neg_addr go) CI_ADDR CILEN_ADDR p len
         then (drop CILEN_ADDR p, len - CILEN_ADDR, no\<lparr>neg_addr := True\<rparr>,
               if treat_as_reject then try\<lparr>neg_addr := False, old_addrs := False\<rparr>
               else if accept_local go \<and> get_addr p 2 \<noteq> 0 then try\<lparr>ouraddr := get_addr p 2\<rparr> else try)
         else s)"

definition nak_dns1 :: "ipcp_options \<Rightarrow> bool \<Rightarrow> nak_state \<Rightarrow> nak_state" where
  "nak_dns1 go treat_as_reject s =
     (let (p, len, no, try) = s
      in if nak_at (req_dns1 go) CI_MS_DNS1 CILEN_ADDR p len
         then (drop CILEN_ADDR p, len - CILEN_ADDR, no\<lparr>req_dns1 := True\<rparr>,
               if treat_as_reject then try\<lparr>req_dns1 := False\<rparr> else try\<lparr>dnsaddr0 := get_addr p 2\<rparr>)
         else s)"

definition nak_dns2 :: "ipcp_options \<Rightarrow> bool \<Rightarrow> nak_state \<Rightarrow> nak_state" where
  "nak_dns2 go treat_as_reject s =
     (let (p, len, no, try) = s
      in if nak_at (req_dns2 go) CI_MS_DNS2 CILEN_ADDR p len
         then (drop CILEN_ADDR p, len - CILEN_ADDR, no\<lparr>req_dns2 := True\<rparr>,
               if treat_as_reject then try\<lparr>req_dns2 := False\<rparr> else try\<lparr>dnsaddr1 := get_addr p 2\<rparr>)
         else s)"

text \<open>One option that we did not ask for, and all of them.\<close>

definition nak_extra :: "ipcp_options \<Rightarrow> octets \<Rightarrow> nat \<Rightarrow> ipcp_options \<Rightarrow> ipcp_options \<Rightarrow> (ipcp_options \<times> ipcp_options) option" where
  "nak_extra go p cilen no try =
     (let citype = p ! 0; a1 = get_addr p 2; a2 = get_addr p 6
      in if citype = CI_COMPRESSTYPE
         then (if neg_vj go \<or> neg_vj no \<or> cilen \<noteq> CILEN_VJ \<and> cilen \<noteq> CILEN_COMPRESS then None
               else Some (no\<lparr>neg_vj := True\<rparr>, try))
         else if citype = CI_ADDRS
         then (if \<not> neg_addr go \<and> old_addrs go \<or> old_addrs no \<or> cilen \<noteq> CILEN_ADDRS then None
               else (let t = try\<lparr>neg_addr := False\<rparr>;
                         t = (if a1 \<noteq> 0 \<and> accept_local go then t\<lparr>ouraddr := a1\<rparr> else t);
                         t = (if a2 \<noteq> 0 \<and> accept_remote go then t\<lparr>hisaddr := a2\<rparr> else t)
                     in Some (no\<lparr>old_addrs := True\<rparr>, t)))
         else if citype = CI_ADDR
         then (if neg_addr go \<or> neg_addr no \<or> cilen \<noteq> CILEN_ADDR then None
               else (let t = try\<lparr>old_addrs := False\<rparr>;
                         t = (if a1 \<noteq> 0 \<and> accept_local go then t\<lparr>ouraddr := a1\<rparr> else t);
                         t = (if ouraddr t \<noteq> 0 then t\<lparr>neg_addr := True\<rparr> else t)
                     in Some (no\<lparr>neg_addr := True\<rparr>, t)))
         else if citype = CI_MS_DNS1
         then (if req_dns1 go \<or> req_dns1 no \<or> cilen \<noteq> CILEN_ADDR then None
               else Some (no\<lparr>req_dns1 := True\<rparr>, try\<lparr>dnsaddr0 := a1, req_dns1 := True\<rparr>))
         else if citype = CI_MS_DNS2
         then (if req_dns2 go \<or> req_dns2 no \<or> cilen \<noteq> CILEN_ADDR then None
               else Some (no\<lparr>req_dns2 := True\<rparr>, try\<lparr>dnsaddr1 := a1, req_dns2 := True\<rparr>))
         else Some (no, try))"

function nak_rest :: "ipcp_options \<Rightarrow> octets \<Rightarrow> nat \<Rightarrow> ipcp_options \<Rightarrow> ipcp_options \<Rightarrow> ipcp_options option" where
  "nak_rest go p len no try =
     (if len < CILEN_VOID then Some try
      else (let cilen = unat (p ! 1)
            in if cilen < CILEN_VOID \<or> len < cilen then None
               else (case nak_extra go p cilen no try of
                       None \<Rightarrow> None
                     | Some (no1, try1) \<Rightarrow> nak_rest go (drop cilen p) (len - cilen) no1 try1)))"
  by pat_completeness auto
termination
  by (relation "measure (\<lambda>(go, p, len, no, try). len)") (auto simp: CILEN_VOID_def)

declare nak_rest.simps [simp del]

definition ipcp_nakci :: "ipcp_fsm \<Rightarrow> octets \<Rightarrow> bool \<Rightarrow> int \<times> ipcp_fsm" where
  "ipcp_nakci f p treat_as_reject =
     (let go = ipcp_gotoptions (f_pcb f);
          (p, len, no, try) = nak_dns2 go treat_as_reject (nak_dns1 go treat_as_reject (nak_addr go treat_as_reject
            (nak_vj go treat_as_reject (nak_addrs go treat_as_reject (p, length p, no_options, go)))))
      in case nak_rest go p len no try of
           None \<Rightarrow> (0, f)
         | Some try1 \<Rightarrow>
             (1, if f_state f \<noteq> PPP_FSM_OPENED then on_pcb (\<lambda>i. i\<lparr>ipcp_gotoptions := try1\<rparr>) f else f))"

text \<open>A Reject: what is left of the packet, and the options to ask for next.\<close>

definition rej_addrs :: "ipcp_options \<Rightarrow> octets \<times> ipcp_options \<Rightarrow> (octets \<times> ipcp_options) option" where
  "rej_addrs go s =
     (let (p, try) = s
      in if nak_at (\<not> neg_addr go \<and> old_addrs go) CI_ADDRS CILEN_ADDRS p (length p)
         then (if get_addr p 2 \<noteq> ouraddr go \<or> get_addr p 6 \<noteq> hisaddr go then None
               else Some (drop CILEN_ADDRS p, try\<lparr>old_addrs := False\<rparr>))
         else Some s)"

definition rej_vj :: "ipcp_options \<Rightarrow> octets \<times> ipcp_options \<Rightarrow> (octets \<times> ipcp_options) option" where
  "rej_vj go s =
     (let (p, try) = s
      in if nak_at (neg_vj go) CI_COMPRESSTYPE (vj_len go) p (length p)
         then (if get16 p 2 \<noteq> vj_proto go \<or> \<not> old_vj go \<and> (p ! 4 \<noteq> maxslotindex go \<or> p ! 5 \<noteq> of_bool (cflag go)) then None
               else Some (drop (vj_len go) p, try\<lparr>neg_vj := False\<rparr>))
         else Some s)"

definition rej_addr :: "u8 \<Rightarrow> bool \<Rightarrow> u32 \<Rightarrow> (ipcp_options \<Rightarrow> ipcp_options) \<Rightarrow> octets \<times> ipcp_options \<Rightarrow> (octets \<times> ipcp_options) option" where
  "rej_addr opt neg val clear s =
     (let (p, try) = s
      in if nak_at neg opt CILEN_ADDR p (length p)
         then (if get_addr p 2 \<noteq> val then None else Some (drop CILEN_ADDR p, clear try))
         else Some s)"

definition ipcp_rejci :: "ipcp_fsm \<Rightarrow> octets \<Rightarrow> int \<times> ipcp_fsm" where
  "ipcp_rejci f p =
     (let go = ipcp_gotoptions (f_pcb f)
      in case Option.bind (rej_addrs go (p, go)) (\<lambda>s. Option.bind (rej_vj go s) (\<lambda>s.
              Option.bind (rej_addr CI_ADDR (neg_addr go) (ouraddr go) (\<lambda>t. t\<lparr>neg_addr := False\<rparr>) s) (\<lambda>s.
              Option.bind (rej_addr CI_MS_DNS1 (req_dns1 go) (dnsaddr0 go) (\<lambda>t. t\<lparr>req_dns1 := False\<rparr>) s) (\<lambda>s.
              rej_addr CI_MS_DNS2 (req_dns2 go) (dnsaddr1 go) (\<lambda>t. t\<lparr>req_dns2 := False\<rparr>) s)))) of
           Some ([], try) \<Rightarrow> (1, if f_state f \<noteq> PPP_FSM_OPENED then on_pcb (\<lambda>i. i\<lparr>ipcp_gotoptions := try\<rparr>) f else f)
         | _ \<Rightarrow> (0, f))"

section \<open>The options of the peer\<close>

text \<open>
  The loop as \<open>ipcp_reqci\<close> has it. Other than in \<open>ccp_reqci\<close> the output pointer \<open>ucp\<close> also moves over the
  options that are accepted, and is set back when the first one is not.
\<close>

function ci_scan ::
  "'s judge \<Rightarrow> bool \<Rightarrow> 's \<Rightarrow> octets \<Rightarrow> nat \<Rightarrow> nat \<Rightarrow> u8 \<Rightarrow> nat \<Rightarrow> u8 \<times> octets \<times> nat \<times> 's" where
  "ci_scan judge reject_if_disagree st buf cip l rc ucp =
     (if l = 0 \<or> length buf < cip + l then (rc, buf, ucp, st)
      else (let (orc, opt, cilen, st') = judge_front judge reject_if_disagree st (take l (drop cip buf));
                buf1 = memcpy_at cip opt buf
            in if orc = CONFACK \<and> rc \<noteq> CONFACK \<or> orc = CONFNAK \<and> rc = CONFREJ
               then ci_scan judge reject_if_disagree st' buf1 (cip + cilen) (l - cilen) rc ucp
               else (let (rc1, ucp1) = (if orc = CONFNAK \<and> rc = CONFACK then (CONFNAK, 0)
                                        else if orc = CONFREJ \<and> rc \<noteq> CONFREJ then (CONFREJ, 0) else (rc, ucp));
                         buf2 = (if ucp1 \<noteq> cip then memcpy_at ucp1 (take cilen (drop cip buf1)) buf1 else buf1)
                     in ci_scan judge reject_if_disagree st' buf2 (cip + cilen) (l - cilen) rc1 (ucp1 + cilen))))"
  by pat_completeness auto
termination
proof (relation "measure (\<lambda>(judge, rd, st, buf, cip, l, rc, ucp). l)", goal_cases)
  case (2 judge rd st buf cip l rc ucp x orc y opt z cilen st' buf1)
  then have "judge_front judge rd st (take l (drop cip buf)) = (orc, opt, cilen, st')" by simp
  from judge_front_length(1) [OF _ this] 2(1) show ?case by auto
next
  case (3 judge rd st buf cip l rc ucp x orc y opt z cilen st' buf1 w rc1 ucp1 buf2)
  then have "judge_front judge rd st (take l (drop cip buf)) = (orc, opt, cilen, st')" by simp
  from judge_front_length(1) [OF _ this] 3(1) show ?case by auto
qed simp

declare ci_scan.simps [simp del]

definition set_want :: "(ipcp_options \<Rightarrow> ipcp_options) \<Rightarrow> ip_unit \<Rightarrow> ip_unit" where
  "set_want g i = i\<lparr>ipcp_wantoptions := g (ipcp_wantoptions i)\<rparr>"

definition set_his :: "(ipcp_options \<Rightarrow> ipcp_options) \<Rightarrow> ip_unit \<Rightarrow> ip_unit" where
  "set_his g i = i\<lparr>ipcp_hisoptions := g (ipcp_hisoptions i)\<rparr>"

definition his_disputed :: "ipcp_options \<Rightarrow> u32 \<Rightarrow> bool" where
  "his_disputed wo a \<longleftrightarrow> a \<noteq> hisaddr wo \<and> (a = 0 \<or> \<not> accept_remote wo)"

definition req_addrs :: "bool \<Rightarrow> ip_unit \<Rightarrow> octets \<Rightarrow> u8 \<times> octets \<times> ip_unit" where
  "req_addrs reject_if_disagree i p =
     (let wo = ipcp_wantoptions i; ho = ipcp_hisoptions i; ao = ipcp_allowoptions i
      in if \<not> old_addrs ao \<or> neg_addr ho \<or> length p \<noteq> CILEN_ADDRS then (CONFREJ, p, i)
         else (let a1 = get_addr p 2; a2 = get_addr p 6
               in if \<not> his_disputed wo a1 \<and> a1 = 0 \<and> hisaddr wo = 0
                  then (CONFREJ, p, set_want (\<lambda>w. w\<lparr>req_addr := False\<rparr>) i)
                  else (let p1 = (if his_disputed wo a1 \<and> \<not> reject_if_disagree then put32 2 (lwip_htonl (hisaddr wo)) p else p);
                            bad = (a2 \<noteq> ouraddr wo \<and> (a2 = 0 \<or> \<not> accept_local wo));
                            p2 = (if bad \<and> \<not> reject_if_disagree then put32 6 (lwip_htonl (ouraddr wo)) p1 else p1);
                            i1 = (if a2 \<noteq> ouraddr wo \<and> \<not> bad then set_want (\<lambda>w. w\<lparr>ouraddr := a2\<rparr>) i else i)
                        in (if his_disputed wo a1 \<or> bad then CONFNAK else CONFACK, p2,
                            set_his (\<lambda>h. h\<lparr>old_addrs := True, hisaddr := a1, ouraddr := a2\<rparr>) i1))))"

definition req_addr_ci :: "bool \<Rightarrow> ip_unit \<Rightarrow> octets \<Rightarrow> u8 \<times> octets \<times> ip_unit" where
  "req_addr_ci reject_if_disagree i p =
     (let wo = ipcp_wantoptions i; ho = ipcp_hisoptions i; ao = ipcp_allowoptions i
      in if \<not> neg_addr ao \<or> old_addrs ho \<or> length p \<noteq> CILEN_ADDR then (CONFREJ, p, i)
         else (let a1 = get_addr p 2; i1 = set_his (\<lambda>h. h\<lparr>neg_addr := True, hisaddr := a1\<rparr>) i
               in if his_disputed wo a1
                  then (CONFNAK, if \<not> reject_if_disagree then put32 2 (lwip_htonl (hisaddr wo)) p else p, i1)
                  else if a1 = 0 \<and> hisaddr wo = 0 then (CONFREJ, p, set_want (\<lambda>w. w\<lparr>req_addr := False\<rparr>) i)
                  else (CONFACK, p, i1)))"

definition req_dns :: "ip_unit \<Rightarrow> octets \<Rightarrow> u8 \<times> octets \<times> ip_unit" where
  "req_dns i p =
     (let ao = ipcp_allowoptions i; d = (if p ! 0 = CI_MS_DNS2 then dnsaddr1 ao else dnsaddr0 ao)
      in if d = 0 \<or> length p \<noteq> CILEN_ADDR then (CONFREJ, p, i)
         else if get_addr p 2 \<noteq> d then (CONFNAK, put32 2 (lwip_htonl d) p, i)
         else (CONFACK, p, i))"

definition req_vj :: "bool \<Rightarrow> ip_unit \<Rightarrow> octets \<Rightarrow> u8 \<times> octets \<times> ip_unit" where
  "req_vj reject_if_disagree i p =
     (let wo = ipcp_wantoptions i; ao = ipcp_allowoptions i; cishort = get16 p 2
      in if \<not> neg_vj ao \<or> length p \<noteq> CILEN_VJ \<and> length p \<noteq> CILEN_COMPRESS then (CONFREJ, p, i)
         else if \<not> (cishort = IPCP_VJ_COMP \<or> cishort = IPCP_VJ_COMP_OLD \<and> length p = CILEN_COMPRESS) then (CONFREJ, p, i)
         else if length p = CILEN_VJ
         then (let big = (maxslotindex ao < p ! 4); bad = (p ! 5 \<noteq> 0 \<and> \<not> cflag ao);
                   p1 = (if big \<and> \<not> reject_if_disagree then p[4 := maxslotindex ao] else p);
                   p2 = (if bad \<and> \<not> reject_if_disagree then p1[5 := of_bool (cflag wo)] else p1)
               in (if big \<or> bad then CONFNAK else CONFACK, p2,
                   set_his (\<lambda>h. h\<lparr>neg_vj := True, vj_proto := cishort, maxslotindex := p ! 4, cflag := bit (p ! 5) 0\<rparr>) i))
         else (CONFACK, p, set_his (\<lambda>h. h\<lparr>neg_vj := True, vj_proto := cishort, old_vj := True,
                             maxslotindex := of_nat (MAX_STATES - 1), cflag := True\<rparr>) i))"

definition ipcp_req_option :: "bool \<Rightarrow> ip_unit judge" where
  "ipcp_req_option reject_if_disagree i p =
     (if p ! 0 = CI_ADDRS then req_addrs reject_if_disagree i p
      else if p ! 0 = CI_ADDR then req_addr_ci reject_if_disagree i p
      else if p ! 0 = CI_MS_DNS1 \<or> p ! 0 = CI_MS_DNS2 then req_dns i p
      else if p ! 0 = CI_COMPRESSTYPE then req_vj reject_if_disagree i p
      else (CONFREJ, p, i))"

definition ipcp_reqci :: "ipcp_fsm \<Rightarrow> octets \<Rightarrow> bool \<Rightarrow> (u8 \<times> octets) \<times> ipcp_fsm" where
  "ipcp_reqci f inp reject_if_disagree =
     (let i0 = (f_pcb f)\<lparr>ipcp_hisoptions := no_options\<rparr>;
          (rc, buf, ucp, i1) = ci_scan (ipcp_req_option reject_if_disagree) reject_if_disagree i0 inp 0 (length inp) CONFACK 0;
          wo = ipcp_wantoptions i1; ho = ipcp_hisoptions i1
      in if rc \<noteq> CONFREJ \<and> \<not> neg_addr ho \<and> \<not> old_addrs ho \<and> req_addr wo \<and> \<not> reject_if_disagree \<and> \<not> noremoteip i1
         then (let ucp1 = (if rc = CONFACK then 0 else ucp);
                   i2 = (if rc = CONFACK then set_want (\<lambda>w. w\<lparr>req_addr := False\<rparr>) i1 else i1)
               in ((CONFNAK, take ucp1 buf @ ci_addr CI_ADDR (hisaddr wo)), f\<lparr>f_pcb := i2\<rparr>))
         else ((rc, take ucp buf), f\<lparr>f_pcb := i1\<rparr>))"

section \<open>The interface\<close>

definition ipcp_down :: "ipcp_fsm \<Rightarrow> ipcp_fsm" where
  "ipcp_down f = on_pcb (\<lambda>i.
     let go = ipcp_gotoptions i; ho = ipcp_hisoptions i;
         i1 = (if ipcp_is_up i then on_auth np_down (i\<lparr>ipcp_is_up := False\<rparr>) else i)
     in on_auth (on_unit (\<lambda>u. cdns (dnsaddr0 go) (dnsaddr1 go) (cifaddr (ouraddr go) (hisaddr ho)
          (sifdown (sifvjcomp False 0 0 u))))) i1) f"

definition ipcp_finished :: "ipcp_fsm \<Rightarrow> ipcp_fsm" where
  "ipcp_finished f = on_pcb (\<lambda>i. if ipcp_is_open i then on_auth np_finished (i\<lparr>ipcp_is_open := False\<rparr>) else i) f"

definition ipcp_base :: "ipcp_fsm fsm_env \<Rightarrow> ipcp_fsm fsm_env" where
  "ipcp_base base = base\<lparr>
     cb_resetci := Some ipcp_resetci, cb_cilen := Some ipcp_cilen, cb_addci := Some ipcp_addci, cb_ackci := Some ipcp_ackci,
     cb_nakci := Some ipcp_nakci, cb_rejci := Some ipcp_rejci, cb_reqci := Some ipcp_reqci, cb_up := None,
     cb_down := Some ipcp_down, cb_starting := None, cb_finished := Some ipcp_finished, cb_retransmit := None, cb_extcode := None\<rparr>"

definition ipcp_close :: "ipcp_fsm fsm_env \<Rightarrow> octets option \<Rightarrow> ipcp_fsm \<Rightarrow> ipcp_fsm" where
  "ipcp_close base reason f = fsm_close (ipcp_base base) reason f"

definition IP_LOOPBACKNET :: u32 where "IP_LOOPBACKNET = 127"
definition IP_MULTICAST :: "u32 \<Rightarrow> bool" where "IP_MULTICAST a \<longleftrightarrow> a AND 0xf0000000 = 0xe0000000"
definition IP_BADCLASS :: "u32 \<Rightarrow> bool" where "IP_BADCLASS a \<longleftrightarrow> a AND 0xf0000000 = 0xf0000000"

definition unauthorized :: "u32 \<Rightarrow> bool" where
  "unauthorized a \<longleftrightarrow> drop_bit 24 a = IP_LOOPBACKNET \<or> IP_MULTICAST a \<or> IP_BADCLASS a"

definition configure :: "ip_unit \<Rightarrow> ip_unit" where
  "configure i =
     (let go = ipcp_gotoptions i; ho = ipcp_hisoptions i;
          i1 = on_auth (on_unit (\<lambda>u. sifup (sifaddr (ouraddr go) (hisaddr ho) (get_mask (ouraddr go))
                 (sifvjcomp (neg_vj ho) (of_bool (cflag ho)) (maxslotindex ho) u)))) i;
          i2 = set_want (\<lambda>w. w\<lparr>ouraddr := ouraddr go\<rparr>) i1
      in (on_auth np_up i2)\<lparr>ipcp_is_up := True\<rparr>)"

definition settle_dns :: "ip_unit \<Rightarrow> ip_unit" where
  "settle_dns i =
     (let go = ipcp_gotoptions i;
          go1 = go\<lparr>dnsaddr0 := (if req_dns1 go then dnsaddr0 go else 0), dnsaddr1 := (if req_dns2 go then dnsaddr1 go else 0)\<rparr>;
          i1 = i\<lparr>ipcp_gotoptions := go1\<rparr>
      in if usepeerdns i1 \<and> (dnsaddr0 go1 \<noteq> 0 \<or> dnsaddr1 go1 \<noteq> 0)
         then on_auth (on_unit (sdns (dnsaddr0 go1) (dnsaddr1 go1))) i1 else i1)"

definition settle_his :: "ip_unit \<Rightarrow> ip_unit" where
  "settle_his i =
     (if hisaddr (ipcp_hisoptions i) = 0 \<and> \<not> noremoteip i then set_his (\<lambda>h. h\<lparr>hisaddr := lwip_htonl 0x0a404040\<rparr>) i else i)"

definition ipcp_up :: "ipcp_fsm fsm_env \<Rightarrow> ipcp_fsm \<Rightarrow> ipcp_fsm" where
  "ipcp_up base f =
     (let i = f_pcb f; go = ipcp_gotoptions i; wo = ipcp_wantoptions i; ho = ipcp_hisoptions i;
          i1 = (if \<not> neg_addr ho \<and> \<not> old_addrs ho then set_his (\<lambda>h. h\<lparr>hisaddr := hisaddr wo\<rparr>) i else i)
      in if \<not> (neg_addr go \<or> old_addrs go) \<and> (neg_addr wo \<or> old_addrs wo) \<and> ouraddr wo \<noteq> 0
         then ipcp_close base (Some (text_octets ''Refused our IP address'')) (f\<lparr>f_pcb := i1\<rparr>)
         else if ouraddr go = 0
         then ipcp_close base (Some (text_octets ''Could not determine local IP address'')) (f\<lparr>f_pcb := i1\<rparr>)
         else (let i2 = settle_dns (settle_his i1); his = hisaddr (ipcp_hisoptions i2)
               in if his \<noteq> 0 \<and> unauthorized (lwip_htonl his)
                  then ipcp_close base (Some (text_octets ''Unauthorized remote IP address'')) (f\<lparr>f_pcb := i2\<rparr>)
                  else f\<lparr>f_pcb := configure i2\<rparr>))"

definition ipcp_callbacks :: "ipcp_fsm fsm_env \<Rightarrow> ipcp_fsm fsm_env" where
  "ipcp_callbacks base = (ipcp_base base)\<lparr>cb_up := Some (ipcp_up base)\<rparr>"

section \<open>Entry points\<close>

definition ipcp_init :: "ipcp_fsm fsm_env \<Rightarrow> ipcp_fsm \<Rightarrow> ipcp_fsm" where
  "ipcp_init base f =
     (let f1 = (fsm_init (ipcp_callbacks base) (f\<lparr>f_protocol := PPP_IPCP\<rparr>))\<lparr>f_maxnakloops := 100\<rparr>
      in on_pcb (\<lambda>i. i\<lparr>
           ipcp_wantoptions := (ipcp_wantoptions i)\<lparr>neg_addr := True, old_addrs := True, neg_vj := True,
             vj_proto := IPCP_VJ_COMP, maxslotindex := of_nat (MAX_STATES - 1), cflag := True\<rparr>,
           ipcp_allowoptions := (ipcp_allowoptions i)\<lparr>neg_addr := True, old_addrs := True, neg_vj := True,
             maxslotindex := of_nat (MAX_STATES - 1), cflag := True\<rparr>\<rparr>) f1)"

definition ipcp_open :: "ipcp_fsm fsm_env \<Rightarrow> ipcp_fsm \<Rightarrow> ipcp_fsm" where
  "ipcp_open base f = on_pcb (\<lambda>i. i\<lparr>ipcp_is_open := True\<rparr>) (fsm_open (ipcp_callbacks base) f)"

definition ipcp_lowerup :: "ipcp_fsm fsm_env \<Rightarrow> ipcp_fsm \<Rightarrow> ipcp_fsm" where
  "ipcp_lowerup base f = fsm_lowerup (ipcp_callbacks base) f"

definition ipcp_lowerdown :: "ipcp_fsm fsm_env \<Rightarrow> ipcp_fsm \<Rightarrow> ipcp_fsm" where
  "ipcp_lowerdown base f = fsm_lowerdown (ipcp_callbacks base) f"

definition ipcp_input :: "ipcp_fsm fsm_env \<Rightarrow> octets \<Rightarrow> ipcp_fsm \<Rightarrow> ipcp_fsm" where
  "ipcp_input base p f = fsm_input (ipcp_callbacks base) p f"

definition ipcp_protrej :: "ipcp_fsm fsm_env \<Rightarrow> ipcp_fsm \<Rightarrow> ipcp_fsm" where
  "ipcp_protrej base f = fsm_lowerdown (ipcp_callbacks base) f"

end
