(* ===== verification/Ppp_Ipcp_Correct.thy ===== *)
theory Ppp_Ipcp_Correct
  imports Ppp_Ipcp
begin

text \<open>
  What IPCP (\<open>src/lwip/src/netif/ppp/ipcp.c\<close>) guarantees: an acknowledgement is accepted exactly if it repeats our request,
  the reply to a request of the peer holds exactly the options with the worst verdict, and the interface comes up only with
  usable addresses.
\<close>

section \<open>Packets\<close>

lemma length_put_long [simp]: "length (put_long w) = 4"
  by (simp add: put_long_def)

lemma get32_put_long [simp]: "get32 (put_long w @ r) 0 = w"
  by (simp add: get32_def get16_def put_long_def)

lemma get32_shift: "get32 (a # b # p) (Suc (Suc i)) = get32 p i" "get32 (a # p) (Suc i) = get32 p i"
  by (simp_all add: get32_def get16_def)

lemma put_long_get32: "put_long (get32 p i) = [p ! i, p ! (i + 1), p ! (i + 2), p ! (i + 3)]"
proof -
  have "ucast (drop_bit 16 (get32 p i)) = get16 p i" "ucast (get32 p i) = get16 p (i + 2)"
    unfolding get32_def by (rule u32_of_u16)+
  then show ?thesis by (simp add: put_long_def numeral_3_eq_3)
qed

lemma list6: "length p \<ge> 6 \<Longrightarrow> p = [p ! 0, p ! 1, p ! 2, p ! 3, p ! 4, p ! 5] @ drop 6 p"
  by (cases p; cases "tl p"; cases "tl (tl p)"; cases "tl (tl (tl p))"; cases "tl (tl (tl (tl p)))"; cases "tl (tl (tl (tl (tl p))))")
    (auto simp: numeral_eq_Suc)

lemma lens: "length (ci_addr opt v) = CILEN_ADDR" "length (ci_vj go) = vj_len go" "length (ci_addrs go) = CILEN_ADDRS"
  by (simp_all add: ci_addr_def ci_vj_def ci_addrs_def vj_len_def CILEN_ADDR_def CILEN_VJ_def CILEN_COMPRESS_def CILEN_ADDRS_def)

lemma addr_at: "get_addr (ci_addr opt v @ r) 2 = v"
  by (simp add: get_addr_def ci_addr_def numeral_2_eq_2 get32_shift lwip_htonl_involution)

lemma ack_addr_iff: "ack_addr opt True v p = Some r \<longleftrightarrow> p = ci_addr opt v @ r"
proof
  assume a: "ack_addr opt True v p = Some r"
  then have "length p \<ge> 6" "p ! 1 = 6" "p ! 0 = opt" "v = lwip_htonl (get32 p 2)" "r = drop 6 p"
    by (auto simp: ack_addr_def get_addr_def CILEN_ADDR_def split: if_splits)
  then show "p = ci_addr opt v @ r"
    using list6 [of p] put_long_get32 [of p 2] by (simp add: ci_addr_def CILEN_ADDR_def lwip_htonl_involution)
next
  assume p: "p = ci_addr opt v @ r"
  show "ack_addr opt True v p = Some r"
    using addr_at [of opt v r] lens(1) [of opt v] unfolding p ack_addr_def
    by (simp add: ci_addr_def CILEN_ADDR_def)
qed

lemma list4: "length p \<ge> 4 \<Longrightarrow> p = [p ! 0, p ! 1, p ! 2, p ! 3] @ drop 4 p"
  by (cases p; cases "tl p"; cases "tl (tl p)"; cases "tl (tl (tl p))") (auto simp: numeral_eq_Suc)

lemma list10:
  assumes "length p \<ge> 10"
  shows "p = [p ! 0, p ! 1, p ! 2, p ! 3, p ! 4, p ! 5, p ! 6, p ! 7, p ! 8, p ! 9] @ drop 10 p"
proof -
  have "length (drop 6 p) \<ge> 4" using assms by simp
  from list4 [OF this] list6 [of p] assms show ?thesis by (simp add: add.commute [of _ "6 :: nat"])
qed

lemma ack_addrs_iff:
  assumes "\<not> neg_addr go" "old_addrs go"
  shows "ack_addrs go p = Some r \<longleftrightarrow> p = ci_addrs go @ r"
proof
  assume a: "ack_addrs go p = Some r"
  then have "length p \<ge> 10" "p ! 1 = 10" "p ! 0 = CI_ADDRS" "ouraddr go = lwip_htonl (get32 p 2)"
    "hisaddr go = lwip_htonl (get32 p 6)" "r = drop 10 p"
    using assms by (auto simp: ack_addrs_def get_addr_def CILEN_ADDRS_def split: if_splits)
  then show "p = ci_addrs go @ r"
    using list10 [of p] put_long_get32 [of p 2] put_long_get32 [of p 6]
    by (simp add: ci_addrs_def CILEN_ADDRS_def lwip_htonl_involution)
next
  assume p: "p = ci_addrs go @ r"
  have "get32 (put_long v @ put_long w @ r) 4 = w" for v w
    by (simp add: get32_def get16_def put_long_def)
  then show "ack_addrs go p = Some r"
    using assms lens(3) [of go] unfolding p ack_addrs_def
    by (simp add: ci_addrs_def CILEN_ADDRS_def get_addr_def get32_shift lwip_htonl_involution numeral_eq_Suc)
qed

lemma ack_vj_iff:
  assumes "neg_vj go"
  shows "ack_vj go p = Some r \<longleftrightarrow> p = ci_vj go @ r"
proof
  assume a: "ack_vj go p = Some r"
  then have l: "length p \<ge> vj_len go" "p ! 1 = of_nat (vj_len go)" "p ! 0 = CI_COMPRESSTYPE" "get16 p 2 = vj_proto go" "r = drop (vj_len go) p"
    "\<not> old_vj go \<Longrightarrow> p ! 4 = maxslotindex go \<and> p ! 5 = of_bool (cflag go)"
    using assms by (auto simp: ack_vj_def split: if_splits)
  have "p ! 2 = hi8 (vj_proto go)" "p ! 3 = lo8 (vj_proto go)"
    using hi_get16 [of p 2] lo_get16 [of p 2] l(4) by (simp_all add: numeral_3_eq_3)
  then show "p = ci_vj go @ r"
    using l list4 [of p] list6 [of p]
    by (cases "old_vj go") (simp_all add: ci_vj_def vj_len_def CILEN_VJ_def CILEN_COMPRESS_def)
next
  assume p: "p = ci_vj go @ r"
  have "get16 (a # b # hi8 w # lo8 w # q) 2 = w" for a b w q by (simp add: get16_def numeral_2_eq_2)
  then show "ack_vj go p = Some r"
    using assms lens(2) [of go] unfolding p ack_vj_def
    by (cases "old_vj go") (simp_all add: ci_vj_def vj_len_def CILEN_VJ_def CILEN_COMPRESS_def)
qed

section \<open>Our request and its acknowledgement\<close>

definition own_options :: "ipcp_options \<Rightarrow> octets" where
  "own_options go =
     (if \<not> neg_addr go \<and> old_addrs go then ci_addrs go else []) @ (if neg_vj go then ci_vj go else [])
     @ (if neg_addr go then ci_addr CI_ADDR (ouraddr go) else [])
     @ (if req_dns1 go then ci_addr CI_MS_DNS1 (dnsaddr0 go) else []) @ (if req_dns2 go then ci_addr CI_MS_DNS2 (dnsaddr1 go) else [])"

lemma length_own: "length (own_options go) = own_length go"
  by (simp add: own_options_def own_length_def lens)

lemma ack_false [simp]: "ack_addr opt False v p = Some p" "\<not> neg_vj go \<Longrightarrow> ack_vj go p = Some p"
  "neg_addr go \<or> \<not> old_addrs go \<Longrightarrow> ack_addrs go p = Some p"
  by (auto simp: ack_addr_def ack_vj_def ack_addrs_def)

lemma ackci_iff: "ipcp_ackci f p \<longleftrightarrow> p = own_options (ipcp_gotoptions (f_pcb f))"
proof -
  let ?go = "ipcp_gotoptions (f_pcb f)"
  have o: "ack_addrs ?go p = Some r \<longleftrightarrow> p = (if \<not> neg_addr ?go \<and> old_addrs ?go then ci_addrs ?go else []) @ r" for p r
    using ack_addrs_iff [of ?go p r] by auto
  have v: "ack_vj ?go p = Some r \<longleftrightarrow> p = (if neg_vj ?go then ci_vj ?go else []) @ r" for p r
    using ack_vj_iff [of ?go p r] by auto
  have a: "ack_addr opt b x p = Some r \<longleftrightarrow> p = (if b then ci_addr opt x else []) @ r" for opt b x p r
    using ack_addr_iff [of opt x p r] by (cases b) auto
  show ?thesis by (simp add: ipcp_ackci_def Let_def bind_eq_Some_conv o v a own_options_def)
qed

lemma add_ci_fits:
  assumes "length c = (if b then length ci else 0)" "c = (if b then ci else [])" "length out + length c + m \<le> n"
  shows "add_ci b ci (out, n - length out) = (b, out @ c, n - length (out @ c))"
  using assms by (auto simp: add_ci_def)

lemma addci_full:
  assumes "own_length (ipcp_gotoptions (f_pcb f)) \<le> n"
  shows "ipcp_addci f n = (own_options (ipcp_gotoptions (f_pcb f)), f)"
proof -
  define go where "go = ipcp_gotoptions (f_pcb f)"
  define a b c d e where ci: "a = (if \<not> neg_addr go \<and> old_addrs go then ci_addrs go else [])" "b = (if neg_vj go then ci_vj go else [])"
    "c = (if neg_addr go then ci_addr CI_ADDR (ouraddr go) else [])" "d = (if req_dns1 go then ci_addr CI_MS_DNS1 (dnsaddr0 go) else [])"
    "e = (if req_dns2 go then ci_addr CI_MS_DNS2 (dnsaddr1 go) else [])"
  have o: "own_options go = a @ b @ c @ d @ e" by (simp add: own_options_def ci)
  then have n: "length a + length b + length c + length d + length e \<le> n"
    using assms length_own [of go] by (simp add: go_def)
  have 1: "add_ci (\<not> neg_addr go \<and> old_addrs go) (ci_addrs go) ([], n) = (\<not> neg_addr go \<and> old_addrs go, a, n - length a)"
    using add_ci_fits [of a "\<not> neg_addr go \<and> old_addrs go" "ci_addrs go" "[]" 0 n] n ci(1) by simp
  have 2: "add_ci (neg_vj go) (ci_vj go) (a, n - length a) = (neg_vj go, a @ b, n - length (a @ b))"
    by (rule add_ci_fits [of b _ _ _ 0]) (use n ci(2) in simp_all)
  have 3: "add_ci (neg_addr go) (ci_addr CI_ADDR (ouraddr go)) (a @ b, n - length (a @ b))
      = (neg_addr go, (a @ b) @ c, n - length ((a @ b) @ c))"
    by (rule add_ci_fits [of c _ _ _ 0]) (use n ci(3) in simp_all)
  have 4: "add_ci (req_dns1 go) (ci_addr CI_MS_DNS1 (dnsaddr0 go)) ((a @ b) @ c, n - length ((a @ b) @ c))
      = (req_dns1 go, ((a @ b) @ c) @ d, n - length (((a @ b) @ c) @ d))"
    by (rule add_ci_fits [of d _ _ _ 0]) (use n ci(4) in simp_all)
  have 5: "add_ci (req_dns2 go) (ci_addr CI_MS_DNS2 (dnsaddr1 go)) (((a @ b) @ c) @ d, n - length (((a @ b) @ c) @ d))
      = (req_dns2 go, (((a @ b) @ c) @ d) @ e, n - length ((((a @ b) @ c) @ d) @ e))"
    by (rule add_ci_fits [of e _ _ _ 0]) (use n ci(5) in simp_all)
  have u: "go\<lparr>neg_vj := neg_vj go\<rparr> = go" "go\<lparr>neg_addr := neg_addr go\<rparr> = go"
    "go\<lparr>req_dns1 := req_dns1 go\<rparr> = go" "go\<lparr>req_dns2 := req_dns2 go\<rparr> = go" by simp_all
  have k: "(if x \<and> \<not> x then y else z) = z" for x and y z :: ipcp_options by simp
  have "ipcp_addci f n = (own_options go, on_pcb (\<lambda>i. i\<lparr>ipcp_gotoptions := go\<rparr>) f)"
    unfolding ipcp_addci_def Let_def go_def [symmetric] 1 prod.case k 2 u 3 4 5 o by simp
  then show ?thesis by (simp add: go_def on_pcb_def)
qed

section \<open>The reply to a request\<close>

lemma ci_scan_opt_scan:
  assumes "cip + l = length buf" "ucp \<le> cip \<and> (rc = CONFACK \<longrightarrow> ucp = cip)" "is_verdict rc" "option_judge judge"
    and "opt_scan judge dn st buf cip l rc (if rc = CONFACK then 0 else ucp) = (rc', buf', retp, st')"
  shows "ci_scan judge dn st buf cip l rc ucp = (rc', buf', if rc' = CONFACK then length buf else retp, st')"
  using assms
proof (induction l arbitrary: st buf cip rc ucp rule: less_induct)
  case (less l)
  show ?case
  proof (cases "l = 0")
    case True
    then show ?thesis using less.prems by (auto simp: opt_scan.simps ci_scan.simps)
  next
    case False
    let ?q = "take l (drop cip buf)"
    have q: "?q \<noteq> []" using False less.prems(1) by simp
    obtain v opt n s1 where f: "judge_front judge dn st ?q = (v, opt, n, s1)" by (metis prod.exhaust)
    note fr = option_judge.front [OF less.prems(4) q f]
    have n: "n \<le> l" "l - n < l" using fr(3,4) False by simp_all
    let ?b1 = "memcpy_at cip opt buf"
    have b1: "length ?b1 = length buf" using less.prems(1) fr(2) n by simp
    have b2: "length (memcpy_at k (take n (drop cip ?b1)) ?b1) = length buf" if "k \<le> cip" for k
      using that less.prems(1) n b1 by simp
    let ?c = "\<lambda>k. if k \<noteq> cip then memcpy_at k (take n (drop cip ?b1)) ?b1 else ?b1"
    have opt: "opt_scan judge dn st buf cip l r u =
        (if v = CONFACK \<or> (v = CONFNAK \<and> r = CONFREJ) then opt_scan judge dn s1 ?b1 (cip + n) (l - n) r u
         else (let k = (if v = CONFREJ \<and> r = CONFNAK then 0 else u)
               in opt_scan judge dn s1 (?c k) (cip + n) (l - n) v (k + n)))" for r u
      using False less.prems(1) f by (subst opt_scan.simps) (auto simp: Let_def)
    have ci: "ci_scan judge dn st buf cip l rc ucp =
        (if v = CONFACK \<and> rc \<noteq> CONFACK \<or> v = CONFNAK \<and> rc = CONFREJ then ci_scan judge dn s1 ?b1 (cip + n) (l - n) rc ucp
         else (let (r, k) = (if v = CONFNAK \<and> rc = CONFACK then (CONFNAK, 0) else if v = CONFREJ \<and> rc \<noteq> CONFREJ then (CONFREJ, 0) else (rc, ucp))
               in ci_scan judge dn s1 (?c k) (cip + n) (l - n) r (k + n)))"
      using False less.prems(1) f by (subst ci_scan.simps) (auto simp: Let_def)
    have ih: "ci_scan judge dn s1 b (cip + n) (l - n) r u = (rc', buf', if rc' = CONFACK then length buf else retp, st')"
      if "opt_scan judge dn s1 b (cip + n) (l - n) r (if r = CONFACK then 0 else u) = (rc', buf', retp, st')"
        "length b = length buf" "u \<le> cip + n \<and> (r = CONFACK \<longrightarrow> u = cip + n)" "is_verdict r" for b r u
      using less.IH [OF n(2) _ that(3,4) less.prems(4) that(1)] that(2) less.prems(1) n(1) by simp
    have lc: "length (?c k) = length buf" if "k \<le> cip" for k using b1 b2 that by simp
    have vs: "v = CONFACK \<or> v = CONFNAK \<or> v = CONFREJ" "rc = CONFACK \<or> rc = CONFNAK \<or> rc = CONFREJ"
      using fr(1) less.prems(3) by (auto simp: is_verdict_def)
    have ne: "CONFNAK \<noteq> CONFACK" "CONFREJ \<noteq> CONFACK" "CONFREJ \<noteq> CONFNAK" "CONFNAK \<noteq> CONFREJ" "CONFACK \<noteq> CONFREJ" "CONFACK \<noteq> CONFNAK"
      by (simp_all add: fsm_codes)
    consider (skip) "v = CONFACK \<and> rc \<noteq> CONFACK \<or> v = CONFNAK \<and> rc = CONFREJ" | (pass) "v = CONFACK" "rc = CONFACK"
      | (first) "v \<noteq> CONFACK" "rc = CONFACK \<or> v = CONFREJ \<and> rc = CONFNAK" | (same) "v = rc" "rc \<noteq> CONFACK"
      using vs by (auto simp: fsm_codes)
    then show ?thesis
    proof cases
      case skip
      then have r: "rc \<noteq> CONFACK" by (auto simp: fsm_codes)
      have "ci_scan judge dn st buf cip l rc ucp = ci_scan judge dn s1 ?b1 (cip + n) (l - n) rc ucp"
        using ci skip by auto
      also have "\<dots> = (rc', buf', if rc' = CONFACK then length buf else retp, st')"
        using opt [of rc ucp] skip r less.prems(2,3,5) b1 by (intro ih) auto
      finally show ?thesis .
    next
      case pass
      then have u: "ucp = cip" using less.prems(2) by simp
      have "ci_scan judge dn st buf cip l rc ucp = ci_scan judge dn s1 ?b1 (cip + n) (l - n) CONFACK (cip + n)"
        using ci pass u by (simp add: fsm_codes)
      also have "\<dots> = (rc', buf', if rc' = CONFACK then length buf else retp, st')"
        using opt [of CONFACK 0] pass less.prems(5) b1 by (intro ih) (simp_all add: is_verdict_def)
      finally show ?thesis .
    next
      case first
      have "ci_scan judge dn st buf cip l rc ucp = ci_scan judge dn s1 (?c 0) (cip + n) (l - n) v n"
        using ci first vs(1) ne by (elim disjE) simp_all
      also have "\<dots> = (rc', buf', if rc' = CONFACK then length buf else retp, st')"
      proof (rule ih)
        show "opt_scan judge dn s1 (?c 0) (cip + n) (l - n) v (if v = CONFACK then 0 else n) = (rc', buf', retp, st')"
          using opt [of rc "if rc = CONFACK then 0 else ucp"] first less.prems(5) ne vs(1) by (elim disjE) (simp_all add: Let_def)
      qed (use first lc [of 0] fr(1) in simp_all)
      finally show ?thesis .
    next
      case same
      have "ci_scan judge dn st buf cip l rc ucp = ci_scan judge dn s1 (?c ucp) (cip + n) (l - n) rc (ucp + n)"
        using ci same vs(1) ne by (elim disjE) simp_all
      also have "\<dots> = (rc', buf', if rc' = CONFACK then length buf else retp, st')"
      proof (rule ih)
        show "opt_scan judge dn s1 (?c ucp) (cip + n) (l - n) rc (if rc = CONFACK then 0 else ucp + n) = (rc', buf', retp, st')"
          using opt [of rc ucp] same less.prems(5) ne vs(1) by (elim disjE) (simp_all add: Let_def)
      qed (use same less.prems(2,3) lc [of ucp] in simp_all)
      finally show ?thesis .
    qed
  qed
qed

lemma req_shape:
  assumes "ipcp_req_option dn i p = (v, q, i')"
  shows "is_verdict v \<and> length q = length p \<and> (v = CONFACK \<longrightarrow> q = p)"
  using assms
  by (auto simp: ipcp_req_option_def req_addrs_def req_addr_ci_def req_dns_def req_vj_def Let_def is_verdict_def fsm_codes
      split: if_splits)

interpretation ipcp_walk: option_judge "ipcp_req_option dn" for dn
  by unfold_locales (use req_shape in blast)+

lemma acked_unchanged:
  "judge_all (ipcp_req_option dn) dn i p = (js, i') \<Longrightarrow> all_acked js \<Longrightarrow> concat (map snd js) = p"
proof (induction "length p" arbitrary: p i js rule: less_induct)
  case less
  show ?case
  proof (cases "p = []")
    case True
    then show ?thesis using less.prems by (simp add: judge_all.simps)
  next
    case False
    obtain v q n i1 where f: "judge_front (ipcp_req_option dn) dn i p = (v, q, n, i1)" by (metis prod.exhaust)
    obtain js1 where j: "judge_all (ipcp_req_option dn) dn i1 (drop n p) = (js1, i')" "js = (v, q) # js1"
      using less.prems(1) False f by (auto simp: judge_all.simps [of _ _ _ p] split: prod.splits)
    have v: "v = CONFACK" "all_acked js1" using less.prems(2) j(2) by (simp_all add: all_acked_def)
    have "q = take n p"
      using f v(1) req_shape [of dn i "take (unat (p ! 1)) p"]
      by (auto simp: judge_front_def Let_def fsm_codes split: if_splits prod.splits)
    moreover have "concat (map snd js1) = drop n p"
      using less.hyps [OF _ j(1) v(2)] judge_front_length [OF False f] False by simp
    ultimately show ?thesis using j(2) by simp
  qed
qed

lemma reqci_walk:
  assumes "judge_all (ipcp_req_option dn) dn ((f_pcb f)\<lparr>ipcp_hisoptions := no_options\<rparr>) p = (js, i)"
  defines "wo \<equiv> ipcp_wantoptions i" and "ho \<equiv> ipcp_hisoptions i"
  shows "ipcp_reqci f p dn =
    (if worst js \<noteq> CONFREJ \<and> \<not> neg_addr ho \<and> \<not> old_addrs ho \<and> req_addr wo \<and> \<not> dn \<and> \<not> noremoteip i
     then ((CONFNAK, (if worst js = CONFACK then [] else picked CONFNAK js) @ ci_addr CI_ADDR (hisaddr wo)),
           f\<lparr>f_pcb := (if worst js = CONFACK then set_want (\<lambda>w. w\<lparr>req_addr := False\<rparr>) i else i)\<rparr>)
     else ((worst js, if worst js = CONFACK then p else picked (worst js) js), f\<lparr>f_pcb := i\<rparr>))"
proof -
  let ?j = "ipcp_req_option dn" and ?i = "(f_pcb f)\<lparr>ipcp_hisoptions := no_options\<rparr>"
  obtain rc buf retp i1 where o: "opt_scan ?j dn ?i p 0 (length p) CONFACK 0 = (rc, buf, retp, i1)" by (metis prod.exhaust)
  have c: "ci_scan ?j dn ?i p 0 (length p) CONFACK 0 = (rc, buf, if rc = CONFACK then length p else retp, i1)"
    using ci_scan_opt_scan [where cip = 0 and l = "length p" and rc = CONFACK and ucp = 0 and judge = ?j and buf = p and dn = dn and st = ?i and rc' = rc and buf' = buf and retp = retp and st' = i1] o
    by (simp add: is_verdict_def ipcp_walk.option_judge_axioms)
  note r = ipcp_walk.scan_reply [OF o assms(1)]
  have a: "buf = p" if "rc = CONFACK"
    using r(2,3) that worst_acked [of js] ipcp_walk.all_verdicts [OF assms(1)] acked_unchanged [OF assms(1)] by simp
  have w: "worst js = CONFNAK" if "worst js \<noteq> CONFACK" "worst js \<noteq> CONFREJ"
    using that worst_verdict [of js] by (auto simp: is_verdict_def)
  show ?thesis
    using a r w by (auto simp: ipcp_reqci_def c Let_def wo_def ho_def)
qed

section \<open>The interface\<close>

lemma auth_fields [simp]:
  "i_auth (on_auth g i) = g (i_auth i)" "ipcp_wantoptions (on_auth g i) = ipcp_wantoptions i"
  "ipcp_gotoptions (on_auth g i) = ipcp_gotoptions i" "ipcp_hisoptions (on_auth g i) = ipcp_hisoptions i"
  "ipcp_allowoptions (on_auth g i) = ipcp_allowoptions i" "noremoteip (on_auth g i) = noremoteip i" "usepeerdns (on_auth g i) = usepeerdns i"
  "ipcp_is_open (on_auth g i) = ipcp_is_open i" "ipcp_is_up (on_auth g i) = ipcp_is_up i"
  "i_auth (set_his h i) = i_auth i" "i_auth (set_want h i) = i_auth i" "ipcp_hisoptions (set_his h i) = h (ipcp_hisoptions i)"
  "ipcp_gotoptions (set_his h i) = ipcp_gotoptions i" "ipcp_wantoptions (set_his h i) = ipcp_wantoptions i"
  "ipcp_allowoptions (set_his h i) = ipcp_allowoptions i" "noremoteip (set_his h i) = noremoteip i" "usepeerdns (set_his h i) = usepeerdns i"
  "ipcp_wantoptions (set_want h i) = h (ipcp_wantoptions i)" "ipcp_hisoptions (set_want h i) = ipcp_hisoptions i"
  "ipcp_gotoptions (set_want h i) = ipcp_gotoptions i"
  by (simp_all add: on_auth_def set_his_def set_want_def)

lemma np_unit [simp]:
  "u_pcb (a_unit (np_up a)) = u_pcb (a_unit a)" "u_ip (a_unit (np_up a)) = u_ip (a_unit a)" "u_gw (a_unit (np_up a)) = u_gw (a_unit a)"
  "u_dns (a_unit (np_up a)) = u_dns (a_unit a)" "u_netmask (a_unit (np_up a)) = u_netmask (a_unit a)"
  "u_pcb (a_unit (np_down a)) = u_pcb (a_unit a)" "u_ip (a_unit (np_down a)) = u_ip (a_unit a)"
  "u_pcb (a_unit (np_finished a)) = u_pcb (a_unit a)" "u_ip (a_unit (np_finished a)) = u_ip (a_unit a)"
  by (simp_all add: np_up_def np_down_def np_finished_def Let_def on_unit_def new_phase_def lcp_close_call_def do_call_def)

definition interface_down :: "ip_unit \<Rightarrow> bool" where
  "interface_down i \<longleftrightarrow> \<not> if4_up (u_pcb (a_unit (i_auth i))) \<and> u_ip (a_unit (i_auth i)) = 0 \<and> \<not> vj_enabled (u_pcb (a_unit (i_auth i)))"

lemma down_interface: "interface_down (f_pcb (ipcp_down f))"
  by (simp add: ipcp_down_def interface_down_def on_pcb_def Let_def on_unit_def cdns_def cifaddr_def sifdown_def sifvjcomp_def
      do_call_def on_unit_pcb_def)

lemma finished_interface: "interface_down (f_pcb f) \<Longrightarrow> interface_down (f_pcb (ipcp_finished f))"
  by (simp add: ipcp_finished_def on_pcb_def interface_down_def)

lemma ipcp_table:
  "cb_down (ipcp_base base) = Some ipcp_down" "cb_finished (ipcp_base base) = Some ipcp_finished"
  "cb_up (ipcp_callbacks base) = Some (ipcp_up base)" "cb_resetci (ipcp_callbacks base) = Some ipcp_resetci"
  "cb_cilen (ipcp_callbacks base) = Some ipcp_cilen" "cb_addci (ipcp_callbacks base) = Some ipcp_addci"
  "cb_ackci (ipcp_callbacks base) = Some ipcp_ackci" "cb_nakci (ipcp_callbacks base) = Some ipcp_nakci"
  "cb_reqci (ipcp_callbacks base) = Some ipcp_reqci" "pbuf_ok (ipcp_callbacks base) = pbuf_ok base"
  "peer_mru (ipcp_callbacks base) = peer_mru base" "max_conf_req_transmits (ipcp_callbacks base) = max_conf_req_transmits base"
  by (simp_all add: ipcp_callbacks_def ipcp_base_def)

lemma pcb_prim [simp]:
  "f_pcb (note_event e f) = f_pcb f" "f_pcb (TIMEOUT f) = f_pcb f" "f_pcb (UNTIMEOUT f) = f_pcb f"
  "f_pcb (goto s f) = f_pcb f" "f_pcb (fsm_sdata env code i d f) = f_pcb f" "f_pcb (send_termreq env f) = f_pcb f"
  "f_pcb (next_id f) = f_pcb f" "f_pcb (on_pcb g f) = g (f_pcb f)" "f_state (on_pcb g f) = f_state f"
  by (simp_all add: note_event_def TIMEOUT_def UNTIMEOUT_def goto_def fsm_sdata_def Let_def send_termreq_def next_id_def on_pcb_def)

lemma close_opened:
  assumes "f_state f = PPP_FSM_OPENED"
  shows "f_state (ipcp_close base r f) \<in> {PPP_FSM_CLOSING, PPP_FSM_CLOSED}" "interface_down (f_pcb (ipcp_close base r f))"
proof -
  let ?g = "ipcp_down (note_event Down (f\<lparr>f_term_reason := r,
      f_term_reason_len := (case r of None \<Rightarrow> 0 | Some x \<Rightarrow> of_nat (min (length x) 255))\<rparr>))"
  have d: "interface_down (f_pcb ?g)" by (rule down_interface)
  have s: "f_state (ipcp_finished h) = f_state h" for h by (simp add: ipcp_finished_def)
  show "f_state (ipcp_close base r f) \<in> {PPP_FSM_CLOSING, PPP_FSM_CLOSED}" "interface_down (f_pcb (ipcp_close base r f))"
    using assms d finished_interface
    by (simp_all add: ipcp_close_def fsm_close_def Let_def terminate_layer_def call_back_def ipcp_table s goto_def note_event_def)
qed

definition peer_address_ok :: "u32 \<Rightarrow> bool" where
  "peer_address_ok a \<longleftrightarrow> a = 0 \<or> \<not> unauthorized (lwip_htonl a)"

lemma settle_fields [simp]:
  "ipcp_hisoptions (settle_dns i) = ipcp_hisoptions i" "ouraddr (ipcp_gotoptions (settle_dns i)) = ouraddr (ipcp_gotoptions i)"
  "ipcp_gotoptions (settle_his i) = ipcp_gotoptions i" "i_auth (settle_his i) = i_auth i"
  by (simp_all add: settle_dns_def settle_his_def Let_def)

lemma configured:
  defines "u \<equiv> \<lambda>i. a_unit (i_auth (configure i))"
  shows "if4_up (u_pcb (u i))" "u_ip (u i) = ouraddr (ipcp_gotoptions i)" "u_gw (u i) = hisaddr (ipcp_hisoptions i)"
    "ipcp_hisoptions (configure i) = ipcp_hisoptions i" "u_dns (u i) = u_dns (a_unit (i_auth i))"
  by (simp_all add: u_def configure_def Let_def on_unit_def sifup_def sifaddr_def sifvjcomp_def do_call_def)

lemma up_cases:
  "(\<exists>r x. ipcp_up base f = ipcp_close base r (f\<lparr>f_pcb := x\<rparr>))
   \<or> (\<exists>i. ipcp_up base f = f\<lparr>f_pcb := configure i\<rparr> \<and> ouraddr (ipcp_gotoptions i) = ouraddr (ipcp_gotoptions (f_pcb f))
          \<and> ouraddr (ipcp_gotoptions i) \<noteq> 0 \<and> peer_address_ok (hisaddr (ipcp_hisoptions i)))"
proof -
  define ho where "ho = ipcp_hisoptions (f_pcb f)"
  define i1 where "i1 = (if \<not> neg_addr ho \<and> \<not> old_addrs ho
    then set_his (\<lambda>h. h\<lparr>hisaddr := hisaddr (ipcp_wantoptions (f_pcb f))\<rparr>) (f_pcb f) else f_pcb f)"
  have g: "ipcp_gotoptions i1 = ipcp_gotoptions (f_pcb f)" by (simp add: i1_def)
  note u = ipcp_up_def [of base f, unfolded Let_def, folded ho_def, folded i1_def]
  let ?A = "\<not> (neg_addr (ipcp_gotoptions (f_pcb f)) \<or> old_addrs (ipcp_gotoptions (f_pcb f)))
    \<and> (neg_addr (ipcp_wantoptions (f_pcb f)) \<or> old_addrs (ipcp_wantoptions (f_pcb f))) \<and> ouraddr (ipcp_wantoptions (f_pcb f)) \<noteq> 0"
  let ?B = "ouraddr (ipcp_gotoptions (f_pcb f)) = 0" and ?i = "settle_dns (settle_his i1)"
  let ?C = "hisaddr (ipcp_hisoptions ?i) \<noteq> 0 \<and> unauthorized (lwip_htonl (hisaddr (ipcp_hisoptions ?i)))"
  have c: ?thesis if "ipcp_up base f = ipcp_close base r (f\<lparr>f_pcb := x\<rparr>)" for r x using that by blast
  consider ?A | "\<not> ?A" ?B | "\<not> ?A" "\<not> ?B" ?C | "\<not> ?A" "\<not> ?B" "\<not> ?C" by blast
  then show ?thesis
  proof cases
    case 1
    show ?thesis by (rule c, unfold u, rule if_P, rule 1)
  next
    case 2
    show ?thesis by (rule c, unfold u if_not_P [OF 2(1)], rule if_P, rule 2)
  next
    case 3
    show ?thesis by (rule c, unfold u if_not_P [OF 3(1)] if_not_P [OF 3(2)], rule if_P, rule 3)
  next
    case 4
    have "ipcp_up base f = f\<lparr>f_pcb := configure ?i\<rparr>"
      by (unfold u if_not_P [OF 4(1)] if_not_P [OF 4(2)], rule if_not_P, rule 4)
    moreover have "peer_address_ok (hisaddr (ipcp_hisoptions ?i))" using 4(3) unfolding peer_address_ok_def by blast
    ultimately show ?thesis using 4(2) g by (intro disjI2 exI [of _ ?i]) simp
  qed
qed

section \<open>An honest server\<close>

definition ipcp_packet :: "u8 \<Rightarrow> u8 \<Rightarrow> octets \<Rightarrow> octets" where
  "ipcp_packet code i d = [code, i] @ put_short (4 + length d) @ d"

lemma packet_input:
  assumes "f_state f \<noteq> PPP_FSM_INITIAL" "f_state f \<noteq> PPP_FSM_STARTING" "length d < 65000"
  shows "fsm_input env (ipcp_packet code i d) f = fsm_dispatch env code i d (ipcp_packet code i d) f"
proof -
  have "get_short (put_short n @ d) = n" if "n < 65536" for n
    using that by (simp add: get_short_def put_short_def unat_of_nat)
  from this [of "4 + length d"] show ?thesis
    using assms by (simp add: fsm_input_def ipcp_packet_def Let_def HEADERLEN_def put_short_def)
qed

text \<open>What \<open>ipcp_init\<close> leaves for the engine, which knows no address and asks the server for the name servers.\<close>

definition client_want :: ipcp_options where
  "client_want = no_options\<lparr>neg_addr := True, old_addrs := True, neg_vj := True, vj_proto := IPCP_VJ_COMP,
     maxslotindex := of_nat (MAX_STATES - 1), cflag := True\<rparr>"

definition client_allow :: ipcp_options where
  "client_allow = no_options\<lparr>neg_addr := True, old_addrs := True, neg_vj := True,
     maxslotindex := of_nat (MAX_STATES - 1), cflag := True\<rparr>"

definition asks_all :: "ip_unit \<Rightarrow> bool" where
  "asks_all i \<longleftrightarrow> ipcp_wantoptions i = client_want \<and> ipcp_allowoptions i = client_allow
     \<and> usepeerdns i \<and> \<not> noremoteip i \<and> \<not> ask_for_local i"

definition first_options :: ipcp_options where
  "first_options = client_want\<lparr>req_addr := True, accept_local := True, accept_remote := True, req_dns1 := True, req_dns2 := True\<rparr>"

lemmas option_bits = first_options_def client_want_def client_allow_def no_options_def

lemma own_length_le: "own_length go \<le> 34"
  by (simp add: own_length_def vj_len_def CILEN_ADDRS_def CILEN_VJ_def CILEN_COMPRESS_def CILEN_ADDR_def)

text \<open>A request in one equation, when the option list changes nothing as it is written.\<close>

lemma sconfreq_form:
  assumes "pbuf_ok env"
    and "f1 = (if \<not> negotiating (f_state g)
        then (call_back (cb_resetci env) Resetci g)\<lparr>f_nakloops := 0, f_rnakloops := 0\<rparr> else g)"
    and "f3 = f1\<lparr>f_retransmits := max_conf_req_transmits env, f_id := f_id f1 + 1, f_reqid := f_id f1 + 1\<rparr>\<lparr>f_seen_ack := False\<rparr>"
    and "own_cilen env f3 = (n, f3)" "own_ci env n f3 = (ci, f3)"
  shows "fsm_sconfreq env False g = TIMEOUT ((note_event (Send (cp_packet (f_protocol f3) CONFREQ (f_reqid f3) (take n ci))) f3)
    \<lparr>f_retransmits := f_retransmits f3 - 1\<rparr>)"
proof -
  have "fsm_sconfreq env False g = (let (n, f3) = own_cilen env f3
      in if \<not> pbuf_ok env then f3
         else (let (ci, f4) = own_ci env n f3;
                   f5 = note_event (Send (cp_packet (f_protocol f4) CONFREQ (f_reqid f4) (take n ci))) f4
               in TIMEOUT (f5\<lparr>f_retransmits := f_retransmits f5 - 1\<rparr>)))"
    unfolding fsm_sconfreq_def assms(2) [symmetric] assms(3) by (simp add: Let_def)
  then show ?thesis using assms(1) unfolding assms(4) by (simp add: Let_def assms(5) note_event_def)
qed

text \<open>A request: the options as they are, or as they are reset.\<close>

lemma sconfreq_ipcp:
  fixes base and g :: ipcp_fsm
  assumes "pbuf_ok base" "peer_mru base \<ge> 38" "old_forms i = ipcp_gotoptions i"
    and "i = (if negotiating (f_state g) then f_pcb g else f_pcb (ipcp_resetci g))"
  defines "h \<equiv> fsm_sconfreq (ipcp_callbacks base) False g"
  shows "f_pcb h = i" "f_state h = f_state g" "\<not> f_seen_ack h" "f_maxnakloops h = f_maxnakloops g"
    "f_nakloops h = (if negotiating (f_state g) then f_nakloops g else 0)"
    "f_rnakloops h = (if negotiating (f_state g) then f_rnakloops g else 0)"
proof -
  define f1 where "f1 = (if \<not> negotiating (f_state g)
    then (call_back (cb_resetci (ipcp_callbacks base)) Resetci g)\<lparr>f_nakloops := 0, f_rnakloops := 0\<rparr> else g)"
  define f3 where "f3 = f1\<lparr>f_retransmits := max_conf_req_transmits (ipcp_callbacks base), f_id := f_id f1 + 1,
    f_reqid := f_id f1 + 1\<rparr>\<lparr>f_seen_ack := False\<rparr>"
  have p: "f_pcb f3 = i" using assms(4) by (simp add: f3_def f1_def ipcp_table call_back_def ipcp_resetci_def note_event_def)
  have s: "f_state f3 = f_state g" "\<not> f_seen_ack f3" "f_maxnakloops f3 = f_maxnakloops g"
      "f_nakloops f3 = (if negotiating (f_state g) then f_nakloops g else 0)"
      "f_rnakloops f3 = (if negotiating (f_state g) then f_rnakloops g else 0)"
    by (simp_all add: f3_def f1_def ipcp_table call_back_def ipcp_resetci_def note_event_def on_pcb_def)
  have c: "own_cilen (ipcp_callbacks base) f3 = (own_length (ipcp_gotoptions i), f3)"
    using own_length_le [of "ipcp_gotoptions i"] assms(2,3)
    by (simp add: own_cilen_def ipcp_table ipcp_cilen_def p HEADERLEN_def on_pcb_def Let_def)
  have a: "own_ci (ipcp_callbacks base) (own_length (ipcp_gotoptions i)) f3 = (own_options (ipcp_gotoptions i), f3)"
    using addci_full [of f3 "own_length (ipcp_gotoptions i)"] length_own [of "ipcp_gotoptions i"]
    by (auto simp: own_ci_def ipcp_table p)
  have e: "pbuf_ok (ipcp_callbacks base)" using assms(1) by (simp add: ipcp_table)
  note h = sconfreq_form [OF e f1_def f3_def c a, folded h_def]
  show "f_pcb h = i" "f_state h = f_state g" "\<not> f_seen_ack h" "f_maxnakloops h = f_maxnakloops g"
    "f_nakloops h = (if negotiating (f_state g) then f_nakloops g else 0)"
    "f_rnakloops h = (if negotiating (f_state g) then f_rnakloops g else 0)"
    using p s by (simp_all add: h TIMEOUT_def note_event_def)
qed

lemma nak_at_addr: "nak_at b opt n (ci_addr o' v @ r) len \<longleftrightarrow> b \<and> n \<le> len \<and> of_nat n = (6 :: u8) \<and> opt = o'"
  by (auto simp: nak_at_def ci_addr_def CILEN_ADDR_def)

lemma drop_addr: "drop 6 (ci_addr opt v @ r) = r" "drop CILEN_ADDR (ci_addr opt v @ r) = r" "length (ci_addr opt v @ r) = 6 + length r"
  by (simp_all add: ci_addr_def CILEN_ADDR_def)

lemmas ci_codes = CI_ADDRS_def CI_COMPRESSTYPE_def CI_ADDR_def CI_MS_DNS1_def CI_MS_DNS2_def

text \<open>The server's Nak with the addresses to use.\<close>

lemma nakci_addresses:
  assumes "ipcp_gotoptions (f_pcb f) = first_options" "f_state f \<noteq> PPP_FSM_OPENED" "a \<noteq> 0"
  shows "ipcp_nakci f (ci_addr CI_ADDR a @ ci_addr CI_MS_DNS1 d1 @ ci_addr CI_MS_DNS2 d2) False
    = (1, on_pcb (\<lambda>i. i\<lparr>ipcp_gotoptions := first_options\<lparr>ouraddr := a, dnsaddr0 := d1, dnsaddr1 := d2\<rparr>\<rparr>) f)"
proof -
  let ?go = first_options
  have b: "neg_addr ?go" "neg_vj ?go" "req_dns1 ?go" "req_dns2 ?go" "accept_local ?go" by (simp_all add: option_bits)
  let ?p2 = "ci_addr CI_MS_DNS2 d2 @ []" let ?p1 = "ci_addr CI_MS_DNS1 d1 @ ?p2" let ?p0 = "ci_addr CI_ADDR a @ ?p1"
  have 1: "nak_addrs ?go False (?p0, 18, no_options, ?go) = (?p0, 18, no_options, ?go)"
    using b by (simp add: nak_addrs_def nak_at_def)
  have 2: "nak_vj ?go False (?p0, 18, no_options, ?go) = (?p0, 18, no_options, ?go)"
    unfolding nak_vj_def Let_def prod.case nak_at_addr by (simp add: ci_codes)
  have 3: "nak_addr ?go False (?p0, 18, no_options, ?go) = (?p1, 12, no_options\<lparr>neg_addr := True\<rparr>, ?go\<lparr>ouraddr := a\<rparr>)"
    using b assms(3) unfolding nak_addr_def Let_def prod.case nak_at_addr drop_addr addr_at by (simp add: CILEN_ADDR_def)
  have 4: "nak_dns1 ?go False (?p1, 12, no, t) = (?p2, 6, no\<lparr>req_dns1 := True\<rparr>, t\<lparr>dnsaddr0 := d1\<rparr>)" for no t
    using b unfolding nak_dns1_def Let_def prod.case nak_at_addr drop_addr addr_at by (simp add: CILEN_ADDR_def)
  have 5: "nak_dns2 ?go False (?p2, 6, no, t) = ([], 0, no\<lparr>req_dns2 := True\<rparr>, t\<lparr>dnsaddr1 := d2\<rparr>)" for no t
    using b unfolding nak_dns2_def Let_def prod.case nak_at_addr drop_addr addr_at by (simp add: CILEN_ADDR_def)
  have l: "length (ci_addr CI_ADDR a @ ci_addr CI_MS_DNS1 d1 @ ci_addr CI_MS_DNS2 d2) = 18"
    by (simp add: lens CILEN_ADDR_def)
  show ?thesis
    using assms(2) unfolding ipcp_nakci_def Let_def assms(1) l
    using 1 2 3 4 5 by (simp add: nak_rest.simps CILEN_VOID_def)
qed

text \<open>The server's own request for its address.\<close>

lemma reqci_address:
  assumes "ipcp_allowoptions i = client_allow" "i = f_pcb f" "hisaddr (ipcp_wantoptions i) = 0" "accept_remote (ipcp_wantoptions i)" "b \<noteq> 0"
  shows "ipcp_reqci f (ci_addr CI_ADDR b) False =
    ((CONFACK, ci_addr CI_ADDR b), f\<lparr>f_pcb := i\<lparr>ipcp_hisoptions := no_options\<lparr>neg_addr := True, hisaddr := b\<rparr>\<rparr>\<rparr>)"
proof -
  let ?p = "ci_addr CI_ADDR b" and ?i = "(f_pcb f)\<lparr>ipcp_hisoptions := no_options\<rparr>"
  let ?h = "i\<lparr>ipcp_hisoptions := no_options\<lparr>neg_addr := True, hisaddr := b\<rparr>\<rparr>"
  have p: "?p ! 0 = CI_ADDR" "?p ! 1 = 6" "length ?p = 6" "get_addr ?p 2 = b"
    using addr_at [of CI_ADDR b "[]"] by (simp_all add: lens CILEN_ADDR_def, simp_all add: ci_addr_def CILEN_ADDR_def)
  have o: "ipcp_req_option False ?i ?p = (CONFACK, ?p, ?h)"
    using assms p by (simp add: ipcp_req_option_def req_addr_ci_def his_disputed_def set_his_def ci_codes client_allow_def no_options_def
        CILEN_ADDR_def Let_def)
  have f: "judge_front (ipcp_req_option False) False ?i ?p = (CONFACK, ?p, 6, ?h)"
    using o p by (simp add: judge_front_def bad_option_def)
  have n: "?p \<noteq> []" "drop 6 ?p = []" using p(3) by auto
  have j: "judge_all (ipcp_req_option False) False ?i ?p = ([(CONFACK, ?p)], ?h)"
    using f n by (simp add: judge_all.simps)
  show ?thesis unfolding reqci_walk [OF j] by (simp add: worst_def fsm_codes)
qed

end
