(* ===== verification/Chap_Ms_Correct.thy ===== *)
theory Chap_Ms_Correct
  imports Chap_Ms
begin

text \<open>
  MS-CHAPv2 as RFC 2759 and the key derivation as RFC 3079 define them, on the hash functions and the cipher of
  their standards, and the proof that \<open>src/lwip/src/netif/ppp/chap_ms.c\<close> computes them: the response that is
  sent, the answer that is expected from the server, and the keys of both directions.
\<close>

section \<open>RFC 2759 and RFC 3079\<close>

fun octets_of_bits :: "bits \<Rightarrow> octets" where
  "octets_of_bits (a # b # c # d # e # f # g # h # bs) =
     of_nat (bits_nat [a, b, c, d, e, f, g, h]) # octets_of_bits bs"
| "octets_of_bits _ = []"

text \<open>A seven octet key with a parity bit (that DES ignores) after every seven bits.\<close>

definition rfc_parity :: "bits \<Rightarrow> bits" where
  "rfc_parity b = concat (map (\<lambda>k. take 7 (drop (7 * k) b) @ [False]) [0..<8])"

definition rfc2759_DesEncrypt :: "octets \<Rightarrow> octets \<Rightarrow> octets" where
  "rfc2759_DesEncrypt clear key = octets_of_bits (fips_encrypt (rfc_parity (octet_bits key)) (octet_bits clear))"

definition rfc2759_ChallengeResponse :: "octets \<Rightarrow> octets \<Rightarrow> octets" where
  "rfc2759_ChallengeResponse challenge hash =
     (let z = hash @ replicate 5 0
      in rfc2759_DesEncrypt challenge (take 7 z) @ rfc2759_DesEncrypt challenge (take 7 (drop 7 z))
         @ rfc2759_DesEncrypt challenge (drop 14 z))"

definition rfc_user_name :: "string \<Rightarrow> string" where
  "rfc_user_name s = rev (takeWhile (\<lambda>c. c \<noteq> CHR 0x5C) (rev s))"

definition rfc2759_ChallengeHash :: "octets \<Rightarrow> octets \<Rightarrow> string \<Rightarrow> octets" where
  "rfc2759_ChallengeHash peer auth user = take 8 (fips_sha1 (peer @ auth @ text_octets (rfc_user_name user)))"

definition rfc2759_NtPasswordHash :: "octets \<Rightarrow> octets" where
  "rfc2759_NtPasswordHash password = rfc1320_md4 (concat (map (\<lambda>c. [c, 0]) password))"

definition rfc2759_NTResponse :: "octets \<Rightarrow> octets \<Rightarrow> string \<Rightarrow> octets \<Rightarrow> octets" where
  "rfc2759_NTResponse auth peer user password =
     rfc2759_ChallengeResponse (rfc2759_ChallengeHash peer auth user) (rfc2759_NtPasswordHash password)"

definition rfc_hash_hash :: "octets \<Rightarrow> octets" where
  "rfc_hash_hash password = rfc1320_md4 (rfc2759_NtPasswordHash password)"

definition rfc2759_AuthenticatorResponse :: "octets \<Rightarrow> octets \<Rightarrow> octets \<Rightarrow> octets \<Rightarrow> string \<Rightarrow> octets" where
  "rfc2759_AuthenticatorResponse password nt peer auth user =
     (let digest = fips_sha1 (rfc_hash_hash password @ nt @ text_octets ''Magic server to client signing constant'')
      in concat (map sprintf_02X (fips_sha1 (digest @ rfc2759_ChallengeHash peer auth user
           @ text_octets ''Pad to make it do more than one iteration''))))"

definition rfc3079_MasterKey :: "octets \<Rightarrow> octets \<Rightarrow> octets" where
  "rfc3079_MasterKey password nt =
     take 16 (fips_sha1 (rfc_hash_hash password @ nt @ text_octets ''This is the MPPE Master Key''))"

definition rfc3079_StartKey :: "octets \<Rightarrow> bool \<Rightarrow> bool \<Rightarrow> octets" where
  "rfc3079_StartKey master is_send is_server =
     (let s = (if is_send \<noteq> is_server
               then ''On the client side, this is the send key; on the server side, it is the receive key.''
               else ''On the client side, this is the receive key; on the server side, it is the send key.'')
      in take 16 (fips_sha1 (master @ replicate 40 0 @ text_octets s @ replicate 40 0xf2)))"

section \<open>Digests\<close>

lemma stack_hbuf [simp]: "length (hbuf stack_ctx) = 64"
  by (simp add: stack_ctx_def)

lemma length_fips_sha1 [simp]: "length (fips_sha1 m) = 20"
proof -
  have "length (fold fips_compress bs iv) = 5" if "length iv = 5" for bs iv
    using that by (induction bs arbitrary: iv) (simp_all add: fips_compress_def split: prod.split)
  then show ?thesis
    by (simp add: fips_sha1_def merkle_damgard_def length_concat comp_def word_octets_be_def sum_list_triv fips_iv_def)
qed

lemma length_rfc1320 [simp]: "length (rfc1320_md4 m) = 16"
proof -
  have "length (fold rfc1320_compress bs iv) = 4" if "length iv = 4" for bs iv
    using that by (induction bs arbitrary: iv) (simp_all add: rfc1320_compress_def split: prod.split)
  then show ?thesis
    by (simp add: rfc1320_md4_def merkle_damgard_def length_concat comp_def word_octets_le_def sum_list_triv md_iv_def)
qed

lemma length_unicode [simp]: "length (concat (map (\<lambda>c. [c, 0]) pw)) = 2 * length pw"
  by (simp add: length_concat comp_def sum_list_triv)

lemma NTPasswordHash_rfc: "length m < 2 ^ 31 \<Longrightarrow> NTPasswordHash m = rfc1320_md4 m"
  using md4_stream [of stack_ctx "[m]"] by (simp add: NTPasswordHash_def)

lemma password_hash:
  assumes "length pw \<le> 256"
  shows "NTPasswordHash (ascii2unicode pw) = rfc2759_NtPasswordHash pw"
    "NTPasswordHash (rfc2759_NtPasswordHash pw) = rfc_hash_hash pw"
  using assms by (simp_all add: NTPasswordHash_rfc ascii2unicode_def rfc2759_NtPasswordHash_def rfc_hash_hash_def)

lemma length_password_hash [simp]: "length (rfc2759_NtPasswordHash pw) = 16" "length (rfc_hash_hash pw) = 16"
  by (simp_all add: rfc2759_NtPasswordHash_def rfc_hash_hash_def)

lemma user_name:
  "(case strrchr s (CHR 0x5C) of Some i \<Rightarrow> drop (Suc i) s | None \<Rightarrow> s) = rfc_user_name s"
proof (cases "strrchr s (CHR 0x5C)")
  case None
  then have "CHR 0x5C \<notin> set s" by (auto simp: strrchr_def last_pos_None)
  then have "takeWhile (\<lambda>c. c \<noteq> CHR 0x5C) (rev s) = rev s" by (auto simp: takeWhile_eq_all_conv)
  then show ?thesis using None by (simp add: rfc_user_name_def del: takeWhile_eq_all_conv)
next
  case (Some i)
  then have i: "i < length s" "s ! i = CHR 0x5C" "\<forall>x \<in> set (drop (Suc i) s). x \<noteq> CHR 0x5C"
    using last_pos_Some [of "\<lambda>x. x = CHR 0x5C" s i] by (simp_all add: strrchr_def)
  from i(3) have "takeWhile (\<lambda>c. c \<noteq> CHR 0x5C) (rev (drop (Suc i) s) @ CHR 0x5C # rev (take i s)) = rev (drop (Suc i) s)"
    by (subst takeWhile_append2) auto
  moreover have "rev s = rev (drop (Suc i) s) @ CHR 0x5C # rev (take i s)"
    using arg_cong [OF id_take_nth_drop [OF i(1)], of rev] i(2) by simp
  ultimately show ?thesis using Some by (simp add: rfc_user_name_def)
qed

lemma user_name_shorter: "length (rfc_user_name s) \<le> length s"
  using length_takeWhile_le [of _ "rev s"] by (simp add: rfc_user_name_def)

lemma ChallengeHash_rfc:
  assumes "length peer \<ge> 16" "length auth \<ge> 16" "length user < 2 ^ 31"
  shows "ChallengeHash peer auth user = rfc2759_ChallengeHash (take 16 peer) (take 16 auth) user"
  using sha1_stream [of stack_ctx "[take 16 peer, take 16 auth, text_octets (rfc_user_name user)]"] assms
    user_name_shorter [of user]
  by (simp add: ChallengeHash_def user_name rfc2759_ChallengeHash_def text_octets_def)

section \<open>The cipher\<close>


lemma bits_nat_octet: "of_nat (bits_nat [bit b 7, bit b 6, bit b 5, bit b 4, bit b 3, bit b 2, bit b 1, bit b 0]) = (b :: u8)"
proof -
  have "of_nat (bits_nat [b7, b6, b5, b4, b3, b2, b1, b0]) =
      of_bool b7 * 128 + of_bool b6 * 64 + of_bool b5 * 32 + of_bool b4 * 16 + of_bool b3 * 8 + of_bool b2 * 4
      + of_bool b1 * 2 + (of_bool b0 :: u8)" for b7 b6 b5 b4 b3 b2 b1 b0
    by (cases b7; cases b6; cases b5; cases b4; cases b3; cases b2; cases b1; cases b0; simp add: bits_nat_def)
  moreover have "b = horner_sum of_bool 2 (map (bit b) [0..<8])"
    using horner_sum_bit_eq_take_bit [of b 8] by (simp add: take_bit_word_eq_self)
  moreover have "map (bit b) [0..<8] = [bit b 0, bit b 1, bit b 2, bit b 3, bit b 4, bit b 5, bit b 6, bit b 7]"
    by (simp add: upt8)
  ultimately show ?thesis by (simp add: algebra_simps)
qed

lemma octets_bits: "octets_of_bits (octet_bits bs) = bs"
proof (induction bs)
  case (Cons b bs)
  have "octet_bits (b # bs) = bit b 7 # bit b 6 # bit b 5 # bit b 4 # bit b 3 # bit b 2 # bit b 1 # bit b 0 # octet_bits bs"
    unfolding octet_bits_def upt8 by simp
  then show ?case using Cons bits_nat_octet [of b] by simp
qed (simp add: octet_bits_def)

lemma bit_get_7bits:
  assumes "j < 8"
  shows "bit (pppcrypt_get_7bits key sb) j = (j \<noteq> 0 \<and>
    (if sb mod 8 \<le> j then bit (key (sb div 8)) (j - sb mod 8) else bit (key (sb div 8 + 1)) (8 - sb mod 8 + j)))"
proof -
  have "sb mod 8 < 8" by simp
  moreover have "bit (0xFE :: int) j = (j \<noteq> 0)" using assms by (cases j) (auto simp: less_Suc_eq numeral_eq_Suc)
  ultimately show ?thesis
    using assms by (auto simp: pppcrypt_get_7bits_def Let_def bit_simps dest: bit_imp_le_length)
qed

lemma key_parity:
  "octet_bits (pppcrypt_56_to_64_bit_key key) = rfc_parity (octet_bits [key 0, key 1, key 2, key 3, key 4, key 5, key 6])"
  unfolding octet_bits_def pppcrypt_56_to_64_bit_key_def rfc_parity_def upt8
  by (simp add: bit_get_7bits numeral_2_eq_2 [symmetric] numeral_3_eq_3 [symmetric])

lemma DesEncrypt_rfc:
  assumes "length clear = 8" "\<And>i. i < 7 \<Longrightarrow> mem i = key ! i" "length key = 7"
  shows "des_crypt_ecb (des_setkey_enc (pppcrypt_56_to_64_bit_key mem)) clear = rfc2759_DesEncrypt clear key"
proof -
  have "[mem 0, mem 1, mem 2, mem 3, mem 4, mem 5, mem 6] = key"
    unfolding list_eq_iff_nth_eq using assms(2,3) by (simp add: nth_Cons' less_Suc_eq numeral_eq_Suc)
  moreover have "length (pppcrypt_56_to_64_bit_key mem) = 8" by (simp add: pppcrypt_56_to_64_bit_key_def)
  ultimately have "octet_bits (des_crypt_ecb (des_setkey_enc (pppcrypt_56_to_64_bit_key mem)) clear)
      = fips_encrypt (rfc_parity (octet_bits key)) (octet_bits clear)"
    using des_block_fips [of "pppcrypt_56_to_64_bit_key mem" clear] assms(1) key_parity [of mem] by simp
  then show ?thesis
    using octets_bits [of "des_crypt_ecb (des_setkey_enc (pppcrypt_56_to_64_bit_key mem)) clear"]
    by (simp add: rfc2759_DesEncrypt_def)
qed

lemma ChallengeResponse_rfc:
  assumes "length challenge = 8" "length hash = 16"
  shows "ChallengeResponse junk challenge hash = rfc2759_ChallengeResponse challenge hash"
proof -
  have z: "memcpy_at 0 hash (replicate 21 0) = hash @ replicate 5 0"
    using assms(2) by (simp add: memcpy_at_def)
  have "des_crypt_ecb (des_setkey_enc (pppcrypt_56_to_64_bit_key
        (\<lambda>i. if off + i < 21 then (hash @ replicate 5 0) ! (off + i) else junk))) challenge
      = rfc2759_DesEncrypt challenge (take 7 (drop off (hash @ replicate 5 0)))" if "off \<le> 14" for off
    using assms that by (intro DesEncrypt_rfc) (simp_all del: drop_append take_append)
  from this [of 0, unfolded add_0] this [of 7] this [of 14] show ?thesis
    using assms(2) by (simp add: ChallengeResponse_def Let_def z MD4_SIGNATURE_SIZE_def rfc2759_ChallengeResponse_def)
qed

lemma length_crypt [simp]: "length (des_crypt_ecb sk b) = 8"
  by (simp add: des_crypt_ecb_def Let_def split_beta)

lemma length_ChallengeResponse [simp]: "length (ChallengeResponse junk challenge hash) = 24"
  by (simp add: ChallengeResponse_def Let_def)

lemma NT_rfc:
  assumes "length auth = 16" "length peer \<ge> 16" "length user < 2 ^ 31" "length pw \<le> 256"
  shows "ChapMS2_NT junk auth peer user pw = rfc2759_NTResponse auth (take 16 peer) user pw"
proof -
  have "length (rfc2759_ChallengeHash (take 16 peer) auth user) = 8" by (simp add: rfc2759_ChallengeHash_def)
  then show ?thesis
    using assms ChallengeHash_rfc [of peer auth user]
    by (simp add: ChapMS2_NT_def rfc2759_NTResponse_def password_hash ChallengeResponse_rfc)
qed

section \<open>The answer of the server and the keys\<close>

lemma magic_texts:
  "auth_Magic1 = text_octets ''Magic server to client signing constant''"
  "auth_Magic2 = text_octets ''Pad to make it do more than one iteration''"
  "key_Magic1 = text_octets ''This is the MPPE Master Key''"
  "key_Magic2 = text_octets ''On the client side, this is the send key; on the server side, it is the receive key.''"
  "key_Magic3 = text_octets ''On the client side, this is the receive key; on the server side, it is the send key.''"
  by (simp_all add: text_octets_def auth_Magic1_def auth_Magic2_def key_Magic1_def key_Magic2_def key_Magic3_def)

lemma Authenticator_rfc:
  assumes "length auth = 16" "length peer \<ge> 16" "length user < 2 ^ 31" "length pw \<le> 256" "length nt \<ge> 24"
  shows "GenerateAuthenticatorResponsePlain pw nt peer auth user
    = rfc2759_AuthenticatorResponse pw (take 24 nt) (take 16 peer) auth user"
  using assms ChallengeHash_rfc [of peer auth user]
    sha1_stream [of stack_ctx "[rfc_hash_hash pw, take 24 nt, auth_Magic1]"]
    sha1_stream [of stack_ctx "[fips_sha1 (rfc_hash_hash pw @ take 24 nt @ auth_Magic1),
      rfc2759_ChallengeHash (take 16 peer) auth user, auth_Magic2]"]
  by (simp add: GenerateAuthenticatorResponsePlain_def GenerateAuthenticatorResponse_def rfc2759_AuthenticatorResponse_def
      password_hash MD4_SIGNATURE_SIZE_def magic_texts rfc2759_ChallengeHash_def text_octets_def Let_def)

lemma key_digest_rfc:
  "take 16 (key_digest (fips_sha1 m) s) = take 16 (fips_sha1 (take 16 (fips_sha1 m) @ replicate 40 0 @ s @ replicate 40 0xf2))"
  if "length s < 2 ^ 31"
  using that sha1_stream [of stack_ctx "[take 16 (fips_sha1 m), mppe_sha1_pad1, s, mppe_sha1_pad2]"]
  by (simp add: key_digest_def mppe_sha1_pad1_def mppe_sha1_pad2_def)

lemma keys_rfc:
  assumes "length pw \<le> 256" "length nt \<ge> 24"
  shows "SetMasterKeys pw nt server pcb = pcb\<lparr>
      mppe_comp := (mppe_comp pcb)\<lparr>master_key := rfc3079_StartKey (rfc3079_MasterKey pw (take 24 nt)) True server\<rparr>,
      mppe_decomp := (mppe_decomp pcb)\<lparr>master_key := rfc3079_StartKey (rfc3079_MasterKey pw (take 24 nt)) False server\<rparr>,
      mppe_keys_set := True\<rparr>"
proof -
  have l: "length key_Magic2 < 2 ^ 31" "length key_Magic3 < 2 ^ 31" by (simp_all add: key_Magic2_def key_Magic3_def)
  have "sha1_finish (foldl (\<lambda>c d. sha1_update d c) (sha1_starts stack_ctx) [rfc_hash_hash pw, take 24 nt, key_Magic1])
      = fips_sha1 (rfc_hash_hash pw @ take 24 nt @ key_Magic1)"
    using sha1_stream [of stack_ctx "[rfc_hash_hash pw, take 24 nt, key_Magic1]"] by (simp add: key_Magic1_def)
  then show ?thesis
    using assms key_digest_rfc [OF l(1)] key_digest_rfc [OF l(2)]
    by (auto simp: SetMasterKeys_def Let_def password_hash MD4_SIGNATURE_SIZE_def mppe_set_key_def MPPE_MAX_KEY_LEN_def
        rfc3079_StartKey_def rfc3079_MasterKey_def magic_texts)
qed

lemma mschap2_response:
  assumes "length auth = 16" "length user < 2 ^ 31" "length pw \<le> 256" "length (magic_randpool m) = 16"
    and "peer = fst (magic_random_bytes 16 m)" "nt = rfc2759_NTResponse auth peer user pw"
  shows "ChapMS2 junk auth None user pw MS_CHAP2_AUTHENTICATEE m pcb =
    (peer @ replicate 8 0 @ nt @ [0],
     rfc2759_AuthenticatorResponse pw nt peer auth user,
     snd (magic_random_bytes 16 m),
     pcb\<lparr>mppe_comp := (mppe_comp pcb)\<lparr>master_key := rfc3079_StartKey (rfc3079_MasterKey pw nt) True False\<rparr>,
         mppe_decomp := (mppe_decomp pcb)\<lparr>master_key := rfc3079_StartKey (rfc3079_MasterKey pw nt) False False\<rparr>,
         mppe_keys_set := True\<rparr>)"
proof -
  have p: "length peer = 16" using length_magic_random [OF assms(4)] assms(5) by simp
  let ?r = "peer @ replicate 33 0"
  have n: "ChapMS2_NT junk auth ?r user pw = nt" using NT_rfc [of auth ?r user pw junk] assms p by simp
  have nl: "length nt = 24" unfolding n [symmetric] by (simp add: ChapMS2_NT_def)
  have r: "memcpy_at 24 nt ?r = peer @ replicate 8 0 @ nt @ [0]"
    using p nl by (simp add: memcpy_at_def)
  have a: "GenerateAuthenticatorResponsePlain pw (nt @ [0]) (peer @ replicate 8 0 @ nt @ [0]) auth user
      = rfc2759_AuthenticatorResponse pw nt peer auth user"
    using Authenticator_rfc [of auth "peer @ replicate 8 0 @ nt @ [0]" user pw "nt @ [0]"] assms p nl by simp
  have d: "drop 24 (peer @ replicate 8 0 @ nt @ [0]) = nt @ [0]" using p by simp
  have k: "SetMasterKeys pw (nt @ [0]) False pcb = pcb\<lparr>
      mppe_comp := (mppe_comp pcb)\<lparr>master_key := rfc3079_StartKey (rfc3079_MasterKey pw nt) True False\<rparr>,
      mppe_decomp := (mppe_decomp pcb)\<lparr>master_key := rfc3079_StartKey (rfc3079_MasterKey pw nt) False False\<rparr>,
      mppe_keys_set := True\<rparr>"
    using keys_rfc [of pw "nt @ [0]" False pcb] assms(3) nl by simp
  have m0: "memcpy_at 0 peer (replicate 49 0) = ?r" using p by (simp add: memcpy_at_def)
  show ?thesis
    using assms(5) m0 n r a d k
    by (simp add: ChapMS2_def MS_CHAP2_RESPONSE_LEN_def MS_CHAP2_PEER_CHAL_LEN_def MS_CHAP2_PEER_CHALLENGE_def
        MS_CHAP2_NTRESP_def MS_CHAP2_AUTHENTICATEE_def split_beta Let_def del: append_assoc)
qed

text \<open>C34: the answer to an MS-CHAPv2 challenge is the one of RFC 2759, and the keys are those of RFC 3079: for every
  user name, password of at most 256 octets and challenge of 16 octets, the response holds the random peer
  challenge, eight zero octets, the NT-Response and the flags; the answer kept to check the server with is the
  RFC's authenticator response; and the master keys of both directions are the RFC's start keys for the client. The
  octet that the code reads behind the padded hash has no influence.\<close>

theorem mschap2_is_rfc2759:
  assumes "length auth = 16" "length user < 2 ^ 31" "length pw \<le> 256" "length (magic_randpool m) = 16"
    and "peer = fst (magic_random_bytes 16 m)" "nt = rfc2759_NTResponse auth peer user pw"
  shows "ChapMS2 junk auth None user pw MS_CHAP2_AUTHENTICATEE m pcb =
    (peer @ replicate 8 0 @ nt @ [0],
     rfc2759_AuthenticatorResponse pw nt peer auth user,
     snd (magic_random_bytes 16 m),
     pcb\<lparr>mppe_comp := (mppe_comp pcb)\<lparr>master_key := rfc3079_StartKey (rfc3079_MasterKey pw nt) True False\<rparr>,
         mppe_decomp := (mppe_decomp pcb)\<lparr>master_key := rfc3079_StartKey (rfc3079_MasterKey pw nt) False False\<rparr>,
         mppe_keys_set := True\<rparr>)"
  using assms by (rule mschap2_response)

definition demo_magic :: magic_state where
  "demo_magic = \<lparr>magic_randpool = replicate 16 9, magic_randcount = 0, magic_randomseed = 0\<rparr>"

definition demo_keys :: ppp_pcb where
  "demo_keys = \<lparr>require_mppe = True, refuse_mppe_stateful = True, refuse_mppe_40 = True, refuse_mppe_128 = False,
     auth_done = 0, mppe_keys_set = False, lcp_state = PPP_FSM_OPENED, if4_up = False, vj_enabled = False,
     ccp_wantoptions = \<lparr>mppe_opts = 0, cmethod = 0\<rparr>, ccp_gotoptions = \<lparr>mppe_opts = 0, cmethod = 0\<rparr>,
     ccp_allowoptions = \<lparr>mppe_opts = 0, cmethod = 0\<rparr>, ccp_hisoptions = \<lparr>mppe_opts = 0, cmethod = 0\<rparr>,
     ccp_all_rejected = False, ccp_localstate = 0, ccp_receive_method = 0, ccp_transmit_method = 0,
     mppe_comp = blank_mppe, mppe_decomp = blank_mppe, netif_mtu = 1500, rack_timers = 0, pcb_calls = []\<rparr>"

theorem mschap2_is_rfc2759_witness:
  "fst (ChapMS2 7 (replicate 16 1) None ''me'' (text_octets ''pass'') MS_CHAP2_AUTHENTICATEE demo_magic demo_keys)
   = (let peer = fst (magic_random_bytes 16 demo_magic)
      in peer @ replicate 8 0 @ rfc2759_NTResponse (replicate 16 1) peer ''me'' (text_octets ''pass'') @ [0])"
  using mschap2_is_rfc2759 [of "replicate 16 1" "''me''" "text_octets ''pass''" demo_magic _ _ 7 demo_keys, OF _ _ _ _ refl refl]
  by (simp add: demo_magic_def text_octets_def Let_def)

lemma success_iff:
  assumes "length priv \<ge> 40"
  shows "chapms2_check_success msg priv \<longleftrightarrow>
    (\<exists>tail. msg = text_octets ''S='' @ take 40 priv @ tail \<and> (tail = [] \<or> take 3 tail = text_octets '' M=''))"
proof
  assume a: "chapms2_check_success msg priv"
  then have m: "length msg \<ge> 42" "take 2 msg = text_octets ''S=''" "take 40 (drop 2 msg) = take 40 priv"
    "drop 40 (drop 2 msg) = [] \<or> take 3 (drop 40 (drop 2 msg)) = text_octets '' M=''"
    by (auto simp: chapms2_check_success_def MS_AUTH_RESPONSE_LENGTH_def Let_def split: if_splits)
  have "msg = take 2 msg @ take 40 (drop 2 msg) @ drop 40 (drop 2 msg)" by (metis append_take_drop_id)
  then show "\<exists>tail. msg = text_octets ''S='' @ take 40 priv @ tail \<and> (tail = [] \<or> take 3 tail = text_octets '' M='')"
    using m by metis
next
  assume "\<exists>tail. msg = text_octets ''S='' @ take 40 priv @ tail \<and> (tail = [] \<or> take 3 tail = text_octets '' M='')"
  then obtain tail where "msg = text_octets ''S='' @ take 40 priv @ tail" "tail = [] \<or> take 3 tail = text_octets '' M=''"
    by blast
  moreover have "length tail \<ge> 3" if "take 3 tail = text_octets '' M=''"
  proof -
    have "length (take 3 tail) = 3" unfolding that by (simp add: text_octets_def)
    then show ?thesis by simp
  qed
  ultimately show "chapms2_check_success msg priv"
    using assms by (auto simp: chapms2_check_success_def MS_AUTH_RESPONSE_LENGTH_def Let_def text_octets_def)
qed

text \<open>only the server's own answer is accepted: a Success message passes exactly if it is \<open>S=\<close>, the forty digits
  that were computed from the password, and nothing or a text that starts with \<open> M=\<close>.\<close>

theorem chapms2_success_iff:
  assumes "length priv \<ge> 40"
  shows "chapms2_check_success msg priv \<longleftrightarrow>
    (\<exists>tail. msg = text_octets ''S='' @ take 40 priv @ tail \<and> (tail = [] \<or> take 3 tail = text_octets '' M=''))"
  using assms by (rule success_iff)

theorem chapms2_success_iff_witness:
  "chapms2_check_success (text_octets ''S='' @ replicate 40 65 @ text_octets '' M=ok'') (replicate 64 65)
   \<and> \<not> chapms2_check_success (text_octets ''S='' @ replicate 40 66) (replicate 64 65)"
proof -
  have n: "replicate 40 (66 :: u8) \<noteq> replicate 40 65 @ t" for t by (simp add: numeral_eq_Suc)
  show ?thesis
    using chapms2_success_iff [of "replicate 64 65" "text_octets ''S='' @ replicate 40 65 @ text_octets '' M=ok''"]
      chapms2_success_iff [of "replicate 64 65" "text_octets ''S='' @ replicate 40 66"]
    by (simp add: text_octets_def n)
qed

section \<open>Both ends of the link\<close>

lemma mirror_keys:
  assumes "length pw \<le> 256" "length nt \<ge> 24"
  shows "\<exists>key. mppe_comp (SetMasterKeys pw nt server c) = mppe_set_key key (mppe_comp c)
    \<and> mppe_decomp (SetMasterKeys pw nt (\<not> server) s) = mppe_set_key key (mppe_decomp s)"
proof -
  let ?k = "rfc3079_StartKey (rfc3079_MasterKey pw (take 24 nt)) True server"
  have "rfc3079_StartKey m False (\<not> server) = rfc3079_StartKey m True server" for m
    by (simp add: rfc3079_StartKey_def)
  moreover have "length ?k = 16" by (simp add: rfc3079_StartKey_def Let_def)
  ultimately have "mppe_comp (SetMasterKeys pw nt server c) = mppe_set_key ?k (mppe_comp c)
    \<and> mppe_decomp (SetMasterKeys pw nt (\<not> server) s) = mppe_set_key ?k (mppe_decomp s)"
    using assms by (simp add: keys_rfc mppe_set_key_def MPPE_MAX_KEY_LEN_def)
  then show ?thesis by blast
qed

definition delivers :: "u8 \<Rightarrow> mppe \<Rightarrow> mppe \<Rightarrow> (bool \<times> u16 \<times> octets) list \<Rightarrow> bool" where
  "delivers opts s r ps \<longleftrightarrow> mppe_link ps (fst (mppe_init opts s)) (fst (mppe_init opts r))
     = map (\<lambda>(_, protocol, packet). (ERR_OK, plain_frame protocol packet)) (filter fst ps)"

text \<open>C35: authentication gives the two ends a working encrypted link: when the server derives its keys from the same
  password and from the response that the client sent, and both start a stateless session of the agreed key length, then
  every packet that arrives is decrypted to what was sent, in both directions, whatever packets the network
  loses, as long as no burst of losses reaches half of the coherency counts.\<close>

theorem mschap2_link_works:
  assumes "length auth = 16" "length user < 2 ^ 31" "length pw \<le> 256" "length (magic_randpool m) = 16"
    and "ChapMS2 junk auth None user pw MS_CHAP2_AUTHENTICATEE m c = (response, expected, m', c')"
    and "s' = SetMasterKeys pw (drop MS_CHAP2_NTRESP response) MS_CHAP2_AUTHENTICATOR s"
    and "\<not> stateful (mppe_comp c)" "\<not> stateful (mppe_decomp c)" "\<not> stateful (mppe_comp s)" "\<not> stateful (mppe_decomp s)"
    and "opts AND MPPE_OPT_128 \<noteq> 0 \<or> opts AND MPPE_OPT_40 \<noteq> 0" "opts AND MPPE_OPT_STATEFUL = 0" "bursts_ok 0 ps"
  shows "delivers opts (mppe_comp c') (mppe_decomp s') ps \<and> delivers opts (mppe_comp s') (mppe_decomp c') ps"
proof -
  let ?peer = "fst (magic_random_bytes 16 m)"
  define nt where "nt = rfc2759_NTResponse auth ?peer user pw"
  have p: "length ?peer = 16" using length_magic_random [OF assms(4)] by simp
  have n: "length nt = 24"
    using NT_rfc [of auth ?peer user pw junk] assms(1-3) p unfolding nt_def
    by (metis ChapMS2_NT_def length_ChallengeResponse order_refl take_all)
  have r: "response = ?peer @ replicate 8 0 @ nt @ [0]"
    and c': "c' = SetMasterKeys pw (nt @ [0]) False c"
    using mschap2_response [OF assms(1-4) refl nt_def, of junk c] assms(5) keys_rfc [of pw "nt @ [0]" False c] assms(3) n by simp_all
  have d: "drop MS_CHAP2_NTRESP response = nt @ [0]" using r p by (simp add: MS_CHAP2_NTRESP_def)
  obtain k1 where k1: "mppe_comp c' = mppe_set_key k1 (mppe_comp c)" "mppe_decomp s' = mppe_set_key k1 (mppe_decomp s)"
    using mirror_keys [of pw "nt @ [0]" False c s] assms(3,6) n c' d by (auto simp: MS_CHAP2_AUTHENTICATOR_def)
  obtain k2 where k2: "mppe_comp s' = mppe_set_key k2 (mppe_comp s)" "mppe_decomp c' = mppe_set_key k2 (mppe_decomp c)"
    using mirror_keys [of pw "nt @ [0]" True s c] assms(3,6) n c' d by (auto simp: MS_CHAP2_AUTHENTICATOR_def)
  have "delivers opts (mppe_comp c') (mppe_decomp s') ps"
    using init_behind [OF assms(7,10,11,12), of k1] assms(13) unfolding delivers_def k1 by (rule mppe_link_stateless)
  moreover have "delivers opts (mppe_comp s') (mppe_decomp c') ps"
    using init_behind [OF assms(9,8,11,12), of k2] assms(13) unfolding delivers_def k2 by (rule mppe_link_stateless)
  ultimately show ?thesis ..
qed

theorem mschap2_link_works_witness:
  "delivers MPPE_OPT_128
     (mppe_comp (snd (snd (snd (ChapMS2 7 (replicate 16 1) None ''me'' (text_octets ''pass'') MS_CHAP2_AUTHENTICATEE demo_magic demo_keys)))))
     (mppe_decomp (SetMasterKeys (text_octets ''pass'')
        (drop MS_CHAP2_NTRESP (fst (ChapMS2 7 (replicate 16 1) None ''me'' (text_octets ''pass'') MS_CHAP2_AUTHENTICATEE demo_magic demo_keys)))
        MS_CHAP2_AUTHENTICATOR demo_keys))
     [(True, 0x21, [1, 2, 3]), (False, 0x21, [4]), (True, 0x21, [5, 6])]"
proof -
  obtain r e m' c' where c: "ChapMS2 7 (replicate 16 1) None ''me'' (text_octets ''pass'') MS_CHAP2_AUTHENTICATEE demo_magic demo_keys = (r, e, m', c')"
    by (metis prod.exhaust)
  show ?thesis
    unfolding c fst_conv snd_conv
    by (rule mschap2_link_works [OF _ _ _ _ c refl, THEN conjunct1])
      (simp_all add: demo_magic_def demo_keys_def blank_mppe_def text_octets_def MPPE_OPT_128_def MPPE_OPT_STATEFUL_def)
qed

end
