(* ===== verification/Ppp_Auth_Frame.thy ===== *)
theory Ppp_Auth_Frame
  imports Ppp_Auth Ppp_Ccp_Correct Chap_Ms_Correct
begin

text \<open>
  What CCP leaves alone, for the proofs about authentication: whatever the peer sends, CCP never changes what has been
  authenticated, and it asks for MPPE and lets the networks continue only when the keys come from one MS-CHAP exchange or
  LCP has been told to close the link.
\<close>

definition auth_frame :: "u16 \<Rightarrow> bool \<Rightarrow> ppp_pcb \<Rightarrow> bool" where
  "auth_frame v b pcb \<longleftrightarrow> auth_done pcb = v \<and> engine_settings pcb
     \<and> (b \<or> mppe_opts (ccp_gotoptions pcb) \<noteq> 0 \<or> Continue_networks \<in> set (pcb_calls pcb) \<longrightarrow> ready pcb)"

lemma frame_update [simp]:
  "auth_frame v b (pcb\<lparr>ccp_hisoptions := ho\<rparr>) = auth_frame v b pcb"
  "auth_frame v b (pcb\<lparr>ccp_all_rejected := x\<rparr>) = auth_frame v b pcb"
  "auth_frame v b (pcb\<lparr>ccp_localstate := n\<rparr>) = auth_frame v b pcb"
  "auth_frame v b (pcb\<lparr>rack_timers := t\<rparr>) = auth_frame v b pcb"
  "auth_frame v b (pcb\<lparr>ccp_receive_method := n\<rparr>) = auth_frame v b pcb"
  "auth_frame v b (pcb\<lparr>ccp_transmit_method := n\<rparr>) = auth_frame v b pcb"
  "auth_frame v b (pcb\<lparr>mppe_comp := st\<rparr>) = auth_frame v b pcb"
  "auth_frame v b (pcb\<lparr>mppe_decomp := st\<rparr>) = auth_frame v b pcb"
  "auth_frame v b (pcb\<lparr>netif_mtu := m\<rparr>) = auth_frame v b pcb"
  by (simp_all add: auth_frame_def)

lemma frame_close: "auth_frame v b pcb \<Longrightarrow> auth_frame v b (call (Close_lcp r) pcb)"
  by (auto simp: auth_frame_def ready_def call_def engine_settings_def)

lemma frame_got:
  "auth_frame v b pcb \<Longrightarrow> (mppe_opts go \<noteq> 0 \<longrightarrow> mppe_opts (ccp_gotoptions pcb) \<noteq> 0) \<Longrightarrow>
     auth_frame v b (pcb\<lparr>ccp_gotoptions := go\<rparr>)"
  by (auto simp: auth_frame_def)

lemma frame_set [simp]: "auth_frame v b (ccp_set x y r t pcb) = auth_frame v b pcb"
  by (simp add: ccp_set_def)

lemma frame_calls: "auth_frame v b pcb \<Longrightarrow> Continue_networks \<notin> set cs \<Longrightarrow> auth_frame v b (pcb\<lparr>pcb_calls := pcb_calls pcb @ cs\<rparr>)"
  by (auto simp: auth_frame_def ready_def engine_settings_def)

lemma mppe_calls: "Continue_networks \<notin> mppe_call ` set es"
  by (auto simp: mppe_call_def split: mppe_event.splits)

lemma frame_init:
  assumes "auth_frame v b pcb"
  shows "auth_frame v b (init_comp m pcb)" "auth_frame v b (init_decomp m pcb)"
proof -
  have "auth_frame v b (pcb\<lparr>mppe_comp := st, pcb_calls := pcb_calls pcb @ map mppe_call es\<rparr>)"
    "auth_frame v b (pcb\<lparr>mppe_decomp := st, pcb_calls := pcb_calls pcb @ map mppe_call es\<rparr>)" for st es
    using assms mppe_calls frame_calls [of v b "pcb\<lparr>mppe_comp := st\<rparr>" "map mppe_call es"]
      frame_calls [of v b "pcb\<lparr>mppe_decomp := st\<rparr>" "map mppe_call es"] by simp_all
  then show "auth_frame v b (init_comp m pcb)" "auth_frame v b (init_decomp m pcb)"
    by (simp_all add: init_comp_def init_decomp_def Let_def split_beta)
qed

lemma frame_resetci:
  assumes "auth_frame v b pcb"
  shows "auth_frame v b (resetci_pcb pcb)" "mppe_opts (ccp_gotoptions (resetci_pcb pcb)) = MPPE_OPT_128"
proof -
  have e: "engine_settings pcb" using assms by (simp add: auth_frame_def)
  show "auth_frame v b (resetci_pcb pcb)" "mppe_opts (ccp_gotoptions (resetci_pcb pcb)) = MPPE_OPT_128"
    using assms unfolding resetci_engine [OF e] by (auto simp: auth_frame_def engine_settings_def ready_def not_available_def)
qed

lemma frame_option:
  assumes "auth_frame v b pcb" "ccp_req_option (pcb, rej) p = (r, q, (pcb', rej'))"
  shows "auth_frame v b pcb'"
proof -
  have "auth_frame v b (set_his_mppe m pcb)" "auth_frame v b (snd (accept_mppe m (set_his_mppe m' pcb)))" for m m'
    using assms(1) frame_init(1) [of v b "set_his_mppe m' pcb"] by (simp_all add: set_his_mppe_def accept_mppe_def Let_def)
  then show ?thesis
    using assms by (auto simp: ccp_req_option_def Let_def split_beta split: if_splits option.splits)
qed

lemma frame_judge_all:
  "judge_all ccp_req_option dn (pcb, rej) p = (js, (pcb', rej')) \<Longrightarrow> auth_frame v b pcb \<Longrightarrow> auth_frame v b pcb'"
proof (induction "length p" arbitrary: p pcb rej js rule: less_induct)
  case less
  show ?case
  proof (cases "p = []")
    case True
    then show ?thesis using less.prems by (simp add: judge_all.simps)
  next
    case False
    obtain r q n pcb1 rej1 where f: "judge_front ccp_req_option dn (pcb, rej) p = (r, q, n, (pcb1, rej1))" by (metis prod.exhaust)
    obtain js1 where j: "judge_all ccp_req_option dn (pcb1, rej1) (drop n p) = (js1, (pcb', rej'))"
      using less.prems(1) False f by (auto simp: judge_all.simps [of _ _ _ p] split: prod.splits)
    have "auth_frame v b pcb1"
      using f less.prems(2) frame_option [OF less.prems(2)]
      by (auto simp: judge_front_def Let_def split: if_splits prod.splits)
    then show ?thesis using less.hyps [OF _ j] judge_front_length [OF False f] False by simp
  qed
qed

lemma frame_reqci:
  assumes "auth_frame v b (f_pcb f)"
  shows "auth_frame v b (f_pcb (snd (ccp_reqci f p dn)))"
proof -
  obtain ret out f' where c: "ccp_reqci f p dn = ((ret, out), f')" by (metis prod.exhaust)
  show ?thesis
  proof (rule ccp_reqci_walk [OF c])
    fix js pcb1 rej
    assume j: "judge_all ccp_req_option dn
       ((f_pcb f)\<lparr>ccp_hisoptions := \<lparr>mppe_opts = 0, cmethod = (if p \<noteq> [] then p ! 0 else 0)\<rparr>\<rparr>, True) p = (js, (pcb1, rej))"
      and p: "f_pcb f' = (let pcb2 = (if ret = CONFREJ \<and> length out = length p then pcb1\<lparr>ccp_all_rejected := True\<rparr> else pcb1)
                    in if ret = CONFREJ \<and> mppe_opts (ccp_allowoptions pcb1) \<noteq> 0 \<and> rej
                       then call (Close_lcp ''MPPE required but peer negotiation failed'') pcb2 else pcb2)"
    have "auth_frame v b pcb1" using frame_judge_all [OF j, of v b] assms by simp
    then show ?thesis using c p by (simp add: Let_def frame_close)
  qed
qed

lemma frame_others:
  assumes "auth_frame v b (f_pcb f)"
  shows "auth_frame v b (f_pcb (snd (ccp_nakci f p tr)))" "auth_frame v b (f_pcb (snd (ccp_rejci f p)))"
    "auth_frame v b (f_pcb (snd (ccp_addci f n)))" "auth_frame v b (f_pcb (snd (ccp_extcode base f code i p)))"
    "auth_frame v b (f_pcb (ccp_up f))" "auth_frame v b (f_pcb (ccp_down f))"
proof -
  note c = frame_close [OF assms]
  have g: "auth_frame v b (f_pcb f\<lparr>ccp_gotoptions := ccp_gotoptions (f_pcb f)\<rparr>)" using assms by simp
  show "auth_frame v b (f_pcb (snd (ccp_nakci f p tr)))"
    using assms c by (auto simp: ccp_nakci_def Let_def intro!: frame_got)
  show "auth_frame v b (f_pcb (snd (ccp_rejci f p)))"
    using assms c by (auto simp: ccp_rejci_def Let_def intro!: frame_got)
  show "auth_frame v b (f_pcb (snd (ccp_addci f n)))"
    using assms frame_init [OF assms]
    by (auto simp: ccp_addci_def Let_def init_decomp_def split_beta intro!: frame_got)
  show "auth_frame v b (f_pcb (snd (ccp_extcode base f code i p)))"
    using assms by (simp add: ccp_extcode_def ccp_reset_comp_def ccp_reset_decomp_def f_pcb_prim)
  show "auth_frame v b (f_pcb (ccp_up f))"
    using assms by (auto simp: ccp_up_def Let_def call_def auth_frame_def engine_settings_def ready_def ccp_set_def)
  show "auth_frame v b (f_pcb (ccp_down f))"
    using assms by (auto simp: ccp_down_def Let_def ccp_set_def intro!: frame_got frame_close)
qed

interpretation framed: fsm_agreement "ccp_callbacks base"
  "\<lambda>c. auth_frame v b (pcb_of c)" "\<lambda>_. True" "\<lambda>_. True" for base v b
proof unfold_locales
  show "cb_up (ccp_callbacks base) \<noteq> None" "cb_down (ccp_callbacks base) \<noteq> None" by (simp_all add: ccp_callbacks_def)
  note simps = ccp_callbacks_def pcb_of_client Let_def
  fix f :: ccp_fsm and g g' h n code inp i cb
  assume "auth_frame v b (pcb_of (client_part f))"
  then have J: "auth_frame v b (f_pcb f)" by simp
  note o = frame_others [OF J]
  show "let c = client_part (snd (nakrej_result (ccp_callbacks base) code inp f))
      in auth_frame v b (pcb_of c) \<and> (True \<longrightarrow> True) \<and> (True \<longrightarrow> True)"
    using o by (simp add: simps nakrej_result_def)
  show "let c = client_part (snd (ext_answer (ccp_callbacks base) code i inp f))
      in auth_frame v b (pcb_of c) \<and> (True \<longrightarrow> True) \<and> (True \<longrightarrow> True)"
    using o by (simp add: simps ext_answer_def)
  show "auth_frame v b (pcb_of (client_part (g f))) \<and> True"
    if "cb_down (ccp_callbacks base) = Some g" using that o by (auto simp: simps)
  show "auth_frame v b (pcb_of (client_part (g f))) \<and> True"
    if "cb_resetci (ccp_callbacks base) = Some g" using that frame_resetci [OF J] by (auto simp: simps ccp_resetci_def on_pcb_def)
  show "auth_frame v b (pcb_of (client_part (snd (h f)))) \<and> True \<and> (True \<longrightarrow> True)"
    if "cb_cilen (ccp_callbacks base) = Some h" using that J by (auto simp: simps ccp_cilen_def)
  show "auth_frame v b (pcb_of (client_part (snd (g' f n)))) \<and> True \<and> (True \<longrightarrow> True)"
    if "cb_addci (ccp_callbacks base) = Some g'" using that o by (auto simp: simps)
  show "let c = client_part (snd (reqci_answer (ccp_callbacks base) inp f))
      in auth_frame v b (pcb_of c) \<and> True \<and> (fst (fst (reqci_answer (ccp_callbacks base) inp f)) = CONFACK \<longrightarrow> True)"
    using frame_reqci [OF J] by (simp add: simps reqci_answer_def)
  show "auth_frame v b (pcb_of (client_part (g f))) \<and> True"
    if "cb_up (ccp_callbacks base) = Some g" using that o by (auto simp: simps)
  show "auth_frame v b (pcb_of (client_part (g f))) \<and> True \<and> (True \<longrightarrow> True)"
    if "cb \<in> {cb_starting (ccp_callbacks base), cb_finished (ccp_callbacks base), cb_retransmit (ccp_callbacks base)}"
      "cb = Some g" using that by (auto simp: simps)
qed

lemma framed_agreed: "framed.agreed v b f = auth_frame v b (f_pcb f)"
  by (simp add: framed.agreed_def)

lemmas frame_fsm = framed.agreed_lower [unfolded framed_agreed] framed.agreed_open [unfolded framed_agreed]
  framed.agreed_close [unfolded framed_agreed] framed.agreed_timeout [unfolded framed_agreed]
  framed.agreed_input [unfolded framed_agreed]

lemma frame_ccp_open: "auth_frame v b (f_pcb f) \<Longrightarrow> auth_frame v b (f_pcb (ccp_open base f))"
  by (simp add: ccp_open_def Let_def ccp_resetci_def frame_resetci frame_fsm)

lemma frame_ccp_close: "auth_frame v b (f_pcb f) \<Longrightarrow> auth_frame v b (f_pcb (ccp_close base r f))"
  by (simp add: ccp_close_def frame_fsm)

lemma frame_ccp_do:
  assumes "auth_frame v b (f_pcb f)"
  shows "auth_frame v b (f_pcb (ccp_do base a f))"
  using assms
  by (cases a) (simp_all add: ccp_do_def ccp_lowerup_def ccp_lowerdown_def frame_fsm frame_ccp_open frame_ccp_close
      ccp_input_def ccp_protrej_def ccp_resetrequest_def ccp_rack_timeout_def Let_def frame_close next_id_def f_pcb_prim)

end
