(* ===== verification/Ppp_Auth_Run.thy ===== *)
theory Ppp_Auth_Run
  imports Ppp_Auth_Frame
begin

text \<open>
  The runs of a link after LCP is up (\<open>src/lwip/src/netif/ppp/auth.c\<close> and \<open>chap-new.c\<close> with CCP), their invariant, and which
  packets can change what has been authenticated.
\<close>

section \<open>Runs\<close>

text \<open>
  The events of a link after \<open>link_established\<close>. Packets of CCP are dropped before the network phase (\<open>ppp_input\<close>), its timers
  run only from then on; \<open>ccp_up\<close> calls \<open>continue_networks\<close>; IPCP comes up only after it was opened.
\<close>

datatype auth_event = Chap_packet chap_env octets | Chap_rejected | Ccp_event ccp_call | Np_up | Np_down

definition ccp_event :: "ccp_fsm fsm_env \<Rightarrow> ccp_call \<Rightarrow> auth_unit \<Rightarrow> auth_unit" where
  "ccp_event base a s =
     (let n = length (pcb_calls (u_pcb (a_unit s))); s' = on_ccp (ccp_do base a) s
      in if Continue_networks \<in> set (drop n (pcb_calls (u_pcb (a_unit s')))) then continue_networks s' else s')"

definition auth_do :: "ccp_fsm fsm_env \<times> auth_event \<Rightarrow> auth_unit \<Rightarrow> auth_unit" where
  "auth_do e s =
     (case snd e of
        Chap_packet env p \<Rightarrow> chap_input (fst e) env p s
      | Chap_rejected \<Rightarrow> chap_protrej s
      | Ccp_event a \<Rightarrow> if u_phase (a_unit s) \<in> {PPP_PHASE_NETWORK, PPP_PHASE_RUNNING} then ccp_event (fst e) a s else s
      | Np_up \<Rightarrow> if a_np_open s \<noteq> 0 then np_up s else s
      | Np_down \<Rightarrow> if a_np_up s \<noteq> 0 then np_down s else s)"

definition auth_run :: "(ccp_fsm fsm_env \<times> auth_event) list \<Rightarrow> auth_unit \<Rightarrow> auth_unit" where
  "auth_run es s = fold auth_do es s"

lemma auth_run_simps [simp]: "auth_run [] s = s" "auth_run (es @ [e]) s = auth_do e (auth_run es s)"
  by (simp_all add: auth_run_def)

text \<open>The message of a status packet, and the packets that \<open>chap_handle_status\<close> accepts.\<close>

definition chap_message :: "octets \<Rightarrow> octets" where
  "chap_message p = take (unat (get16 p 2) - CHAP_HDRLEN) (drop CHAP_HDRLEN p)"

definition good_status :: "octets \<Rightarrow> chap_client_state \<Rightarrow> bool" where
  "good_status p c \<longleftrightarrow> CHAP_HDRLEN \<le> unat (get16 p 2) \<and> unat (get16 p 2) \<le> length p \<and> p ! 0 = CHAP_SUCCESS
     \<and> chap_flags c AND (AUTH_DONE OR AUTH_STARTED OR LOWERUP) = AUTH_STARTED OR LOWERUP
     \<and> (chap_digest c = chapms2_digest \<longrightarrow> chapms2_check_success (chap_message p) (chap_priv c))"

section \<open>The invariant\<close>

definition chap_bit :: "auth_unit \<Rightarrow> u16" where
  "chap_bit s = auth_bit PPP_CHAP (digest_code (chap_digest (a_chap s)))"

definition auth_inv :: "auth_unit \<Rightarrow> bool" where
  "auth_inv s \<longleftrightarrow> (let pcb = u_pcb (a_unit s) in
     auth_frame (auth_done pcb) (Ipcp_open \<in> set (a_net_calls s)) pcb
     \<and> auth_done pcb \<in> {0, chap_bit s}
     \<and> (\<not> bit (chap_flags (a_chap s)) 2 \<longrightarrow> auth_done pcb = 0)
     \<and> u_phase (a_unit s) \<in> {PPP_PHASE_AUTHENTICATE, PPP_PHASE_NETWORK, PPP_PHASE_RUNNING}
     \<and> (u_phase (a_unit s) = PPP_PHASE_AUTHENTICATE \<longrightarrow> f_state (a_ccp s) = PPP_FSM_CLOSED)
     \<and> (u_phase (a_unit s) \<noteq> PPP_PHASE_AUTHENTICATE \<or> Ipcp_open \<in> set (a_net_calls s) \<longrightarrow> auth_done pcb = chap_bit s)
     \<and> (u_phase (a_unit s) = PPP_PHASE_RUNNING \<or> a_np_open s \<noteq> 0 \<or> a_np_up s \<noteq> 0 \<longrightarrow> Ipcp_open \<in> set (a_net_calls s)))"

lemma chap_flag_bits:
  "bit (f OR AUTH_DONE) 2" "bit (f OR AUTH_FAILED) 2 = bit f 2" "bit (f AND NOT AUTH_STARTED) 2 = bit f 2"
  "f AND (AUTH_DONE OR AUTH_STARTED OR LOWERUP) = AUTH_STARTED OR LOWERUP \<longleftrightarrow> \<not> bit f 2 \<and> bit f 1 \<and> bit f 0"
proof -
  show "bit (f OR AUTH_DONE) 2" "bit (f OR AUTH_FAILED) 2 = bit f 2" "bit (f AND NOT AUTH_STARTED) 2 = bit f 2"
    by (simp_all add: AUTH_DONE_def AUTH_FAILED_def AUTH_STARTED_def bit_simps)
  have m: "AUTH_DONE OR AUTH_STARTED OR LOWERUP = 7" "AUTH_STARTED OR LOWERUP = 3"
    by (simp_all add: AUTH_DONE_def AUTH_STARTED_def LOWERUP_def)
  have b: "bit (7 :: int) k = (k < 3)" "bit (3 :: int) k = (k < 2)" for k
    using bit_mask_iff [where 'a = int, of 3 k] bit_mask_iff [where 'a = int, of 2 k] by (simp_all add: mask_eq_exp_minus_1)
  have "f AND 7 = 3 \<longleftrightarrow> \<not> bit f 2 \<and> bit f 1 \<and> bit f 0"
  proof
    assume h: "f AND 7 = 3"
    then have "bit (f AND 7) k = bit (3 :: u8) k" for k by simp
    from this [of 0] this [of 1] this [of 2] show "\<not> bit f 2 \<and> bit f 1 \<and> bit f 0" by (simp add: bit_simps b)
  next
    assume "\<not> bit f 2 \<and> bit f 1 \<and> bit f 0"
    then show "f AND 7 = 3" by (intro u8_eqI) (simp_all add: bit_simps b)
  qed
  then show "f AND (AUTH_DONE OR AUTH_STARTED OR LOWERUP) = AUTH_STARTED OR LOWERUP \<longleftrightarrow> \<not> bit f 2 \<and> bit f 1 \<and> bit f 0"
    using m by metis
qed

section \<open>The steps keep it\<close>

lemma unit_fields [simp]:
  "a_unit (on_unit g s) = g (a_unit s)" "a_chap (on_unit g s) = a_chap s" "a_net_calls (on_unit g s) = a_net_calls s"
  "a_np_open (on_unit g s) = a_np_open s" "a_np_up (on_unit g s) = a_np_up s" "a_pending (on_unit g s) = a_pending s"
  "a_magic (on_unit g s) = a_magic s" "a_ccp (on_unit g s) = a_ccp s" "a_held_pbufs (on_unit g s) = a_held_pbufs s"
  "a_chap (on_chap h s) = h (a_chap s)" "a_unit (on_chap h s) = a_unit s" "a_net_calls (on_chap h s) = a_net_calls s"
  "a_np_open (on_chap h s) = a_np_open s" "a_np_up (on_chap h s) = a_np_up s" "a_pending (on_chap h s) = a_pending s"
  "a_magic (on_chap h s) = a_magic s" "a_ccp (on_chap h s) = a_ccp s" "a_held_pbufs (on_chap h s) = a_held_pbufs s"
  "a_unit (net_call c s) = a_unit s" "a_chap (net_call c s) = a_chap s" "a_net_calls (net_call c s) = a_net_calls s @ [c]"
  "a_np_open (net_call c s) = a_np_open s" "a_np_up (net_call c s) = a_np_up s" "a_ccp (net_call c s) = a_ccp s"
  "a_pending (net_call c s) = a_pending s" "a_magic (net_call c s) = a_magic s"
  by (simp_all add: on_unit_def on_chap_def net_call_def)

lemma ccp_fields [simp]:
  "a_unit (on_ccp g s) = (a_unit s)\<lparr>u_pcb := f_pcb (g ((a_ccp s)\<lparr>f_pcb := u_pcb (a_unit s)\<rparr>))\<rparr>"
  "a_ccp (on_ccp g s) = g ((a_ccp s)\<lparr>f_pcb := u_pcb (a_unit s)\<rparr>)"
  "a_chap (on_ccp g s) = a_chap s" "a_net_calls (on_ccp g s) = a_net_calls s" "a_np_open (on_ccp g s) = a_np_open s"
  "a_np_up (on_ccp g s) = a_np_up s" "a_pending (on_ccp g s) = a_pending s" "a_magic (on_ccp g s) = a_magic s"
  by (simp_all add: on_ccp_def Let_def)

lemma core_fields [simp]:
  "u_pcb (do_call c u) = u_pcb u" "u_phase (do_call c u) = u_phase u" "u_user (do_call c u) = u_user u"
  "u_passwd (do_call c u) = u_passwd u"
  "u_pcb (new_phase p u) = u_pcb u" "u_phase (new_phase p u) = p" "u_user (new_phase p u) = u_user u"
  "u_passwd (new_phase p u) = u_passwd u"
  "u_pcb (on_unit_pcb h u) = h (u_pcb u)" "u_phase (on_unit_pcb h u) = u_phase u" "u_user (on_unit_pcb h u) = u_user u"
  "u_passwd (on_unit_pcb h u) = u_passwd u"
  "u_calls (do_call c u) = u_calls u @ [c]" "u_calls (new_phase p u) = u_calls u" "u_calls (on_unit_pcb h u) = u_calls u"
  by (simp_all add: do_call_def new_phase_def on_unit_pcb_def)

lemma auth_bits [simp]: "auth_bit PPP_CHAP (digest_code d) \<noteq> 0" "mschap_auths 0 = 0" "0 OR (w :: u16) = w"
proof -
  have "bit (auth_bit PPP_CHAP c) 2" for c
    by (simp add: auth_bit_def CHAP_WITHPEER_def bit_simps)
  then show "auth_bit PPP_CHAP (digest_code d) \<noteq> 0" by (metis bit_0_eq bot_apply bot_bool_def)
qed (simp_all add: mschap_auths_def count_bits.simps)

text \<open>What is ready without any authentication was told to close; so it stays ready when one is noted.\<close>

lemma frame_auth_done:
  "auth_frame 0 b pcb \<Longrightarrow> auth_frame v b (pcb\<lparr>auth_done := v\<rparr>)"
  by (auto simp: auth_frame_def ready_def engine_settings_def)

lemma frame_keys:
  "auth_frame v b pcb \<Longrightarrow> auth_frame v b (pcb\<lparr>mppe_comp := x, mppe_decomp := y, mppe_keys_set := True\<rparr>)"
  by (auto simp: auth_frame_def ready_def engine_settings_def)

lemma frame_opened: "auth_frame v b pcb \<Longrightarrow> ready pcb \<Longrightarrow> auth_frame v b' pcb"
  by (simp add: auth_frame_def)

text \<open>An answer changes the keys and the traffic, and nothing that the invariant speaks of.\<close>

lemma keys_shape:
  "\<exists>x y. snd (chapms_make_response junk mem secret pcb) = pcb\<lparr>mppe_comp := x, mppe_decomp := y, mppe_keys_set := True\<rparr>"
  "\<exists>x y. snd (snd (snd (chapms2_make_response junk mem name secret m pcb)))
     = pcb\<lparr>mppe_comp := x, mppe_decomp := y, mppe_keys_set := True\<rparr>"
  by (auto simp: chapms_make_response_def ChapMS_def Set_Start_Key_def chapms2_make_response_def ChapMS2_def SetMasterKeys_def
      Let_def split_beta)

lemma response_step:
  assumes "make_response env i pkt secret s = (r, s')"
  shows "a_net_calls s' = a_net_calls s" "a_np_open s' = a_np_open s" "a_np_up s' = a_np_up s" "a_pending s' = a_pending s"
    "u_phase (a_unit s') = u_phase (a_unit s)" "u_user (a_unit s') = u_user (a_unit s)" "a_ccp s' = a_ccp s"
    "u_passwd (a_unit s') = u_passwd (a_unit s)"
    "chap_flags (a_chap s') = chap_flags (a_chap s)" "chap_digest (a_chap s') = chap_digest (a_chap s)"
    "chap_name (a_chap s') = chap_name (a_chap s)"
    "u_pcb (a_unit s') = u_pcb (a_unit s) \<or>
      (\<exists>x y. u_pcb (a_unit s') = (u_pcb (a_unit s))\<lparr>mppe_comp := x, mppe_decomp := y, mppe_keys_set := True\<rparr>)"
  using assms keys_shape(1) [of "ce_junk env" "packet_mem env pkt" secret "u_pcb (a_unit s)"]
    keys_shape(2) [of "ce_junk env" "packet_mem env pkt" "chap_name (a_chap s)" secret "a_magic s" "u_pcb (a_unit s)"]
  by (auto simp: make_response_def Let_def split_beta split: chap_digest_type.splits) blast+

lemma respond_step:
  fixes s
  defines "s' \<equiv> \<lambda>env i pkt len. chap_respond env i pkt len s"
  shows "a_net_calls (s' env i pkt len) = a_net_calls s" "a_np_open (s' env i pkt len) = a_np_open s"
    "a_np_up (s' env i pkt len) = a_np_up s" "a_pending (s' env i pkt len) = a_pending s" "a_ccp (s' env i pkt len) = a_ccp s"
    "u_phase (a_unit (s' env i pkt len)) = u_phase (a_unit s)" "u_user (a_unit (s' env i pkt len)) = u_user (a_unit s)"
    "u_passwd (a_unit (s' env i pkt len)) = u_passwd (a_unit s)"
    "chap_flags (a_chap (s' env i pkt len)) = chap_flags (a_chap s)"
    "chap_digest (a_chap (s' env i pkt len)) = chap_digest (a_chap s)"
    "chap_name (a_chap (s' env i pkt len)) = chap_name (a_chap s)"
    "u_pcb (a_unit (s' env i pkt len)) = u_pcb (a_unit s) \<or>
      (\<exists>x y. u_pcb (a_unit (s' env i pkt len)) = (u_pcb (a_unit s))\<lparr>mppe_comp := x, mppe_decomp := y, mppe_keys_set := True\<rparr>)"
  using response_step [of env i pkt _ "s\<lparr>a_held_pbufs := Suc (a_held_pbufs s)\<rparr>"]
  by (simp_all add: s'_def chap_respond_def Let_def ppp_write_def split: prod.split)

lemma respond_pcb:
  "auth_done (u_pcb (a_unit (chap_respond env i pkt len s))) = auth_done (u_pcb (a_unit s))"
  "auth_frame v b (u_pcb (a_unit s)) \<Longrightarrow> auth_frame v b (u_pcb (a_unit (chap_respond env i pkt len s)))"
  using respond_step(12) [of env i pkt len s] frame_keys [of v b "u_pcb (a_unit s)"] by auto

lemma respond_inv: "auth_inv s \<Longrightarrow> auth_inv (chap_respond env i pkt len s)"
  by (simp add: auth_inv_def Let_def chap_bit_def respond_step(1-11) respond_pcb)

lemma continue_inv:
  assumes "auth_inv s" "ready (u_pcb (a_unit s))" "auth_done (u_pcb (a_unit s)) = chap_bit s"
  shows "auth_inv (continue_networks s)"
  using assms frame_opened
  by (auto simp: auth_inv_def Let_def continue_networks_def lcp_close_call_def chap_bit_def)

lemma ccp_event_inv:
  assumes "auth_inv s" "u_phase (a_unit s) \<noteq> PPP_PHASE_AUTHENTICATE"
  shows "auth_inv (ccp_event base a s)"
proof -
  let ?s = "on_ccp (ccp_do base a) s"
  let ?v = "auth_done (u_pcb (a_unit s))" and ?b = "Ipcp_open \<in> set (a_net_calls s)"
  have f: "auth_frame ?v ?b (u_pcb (a_unit ?s))"
    using assms(1) by (simp add: auth_inv_def Let_def frame_ccp_do)
  then have v: "auth_done (u_pcb (a_unit ?s)) = ?v" by (simp add: auth_frame_def)
  have i: "auth_inv ?s" "auth_done (u_pcb (a_unit ?s)) = chap_bit ?s"
    using assms f v by (auto simp: auth_inv_def Let_def chap_bit_def)
  have "ready (u_pcb (a_unit ?s))" if "Continue_networks \<in> set (drop n (pcb_calls (u_pcb (a_unit ?s))))" for n
    using that f by (auto simp: auth_frame_def dest: in_set_dropD)
  then show ?thesis using i continue_inv by (simp add: ccp_event_def Let_def del: ccp_fields)
qed

lemma np_inv:
  assumes "auth_inv s"
  shows "a_np_open s \<noteq> 0 \<Longrightarrow> auth_inv (np_up s)" "a_np_up s \<noteq> 0 \<Longrightarrow> auth_inv (np_down s)"
  using assms by (auto simp: auth_inv_def Let_def np_up_def np_down_def chap_bit_def)

lemma fail_inv: "auth_inv s \<Longrightarrow> auth_inv (auth_withpeer_fail s)"
  by (simp add: auth_withpeer_fail_def auth_inv_def lcp_close_call_def chap_bit_def Let_def)

lemma open_keeps_mppe:
  assumes "engine_settings (f_pcb f)" "f_state f \<in> {PPP_FSM_INITIAL, PPP_FSM_CLOSED}"
  shows "mppe_opts (ccp_gotoptions (f_pcb (ccp_open base f))) = MPPE_OPT_128"
proof -
  have "mppe_opts (ccp_gotoptions (f_pcb (snd (ccp_addci g n)))) = mppe_opts (ccp_gotoptions (f_pcb g))" for g n
    by (simp add: ccp_addci_def Let_def init_decomp_def split_beta)
  then have c: "mppe_opts (ccp_gotoptions (f_pcb (snd (own_ci (ccp_callbacks base) n g)))) = mppe_opts (ccp_gotoptions (f_pcb g))" for n g
    by (simp add: own_ci_def ccp_table)
  have d: "snd (own_cilen (ccp_callbacks base) g) = g" for g by (simp add: own_cilen_def ccp_table ccp_cilen_def)
  have e: "engine_settings (resetci_pcb pcb)" "mppe_opts (ccp_gotoptions (resetci_pcb pcb)) = MPPE_OPT_128"
    if "engine_settings pcb" for pcb
    using that by (simp_all add: resetci_engine, simp add: engine_settings_def)
  have "mppe_opts (ccp_gotoptions (f_pcb (fsm_sconfreq (ccp_callbacks base) False g))) = MPPE_OPT_128"
    if "engine_settings (f_pcb g)" "f_state g = PPP_FSM_CLOSED" for g
    using that c d e by (simp add: fsm_sconfreq_def Let_def split_beta ccp_table call_back_def ccp_resetci_def negotiating_def)
  moreover have "cb_starting (ccp_callbacks base) = None" by (simp add: ccp_callbacks_def)
  moreover have "engine_settings (ccp_set x y 0 0 (f_pcb f))" for x y using assms(1) by (simp add: ccp_set_def)
  ultimately show ?thesis
    using assms e by (auto simp: ccp_open_def Let_def fsm_open_def ccp_resetci_def call_back_def)
qed

lemma network_inv:
  assumes "auth_inv s" "\<not> bit (chap_flags (a_chap s)) 2"
  shows "auth_inv (auth_withpeer_success base PPP_CHAP (digest_code (chap_digest (a_chap s)))
     (on_chap (\<lambda>c. c\<lparr>chap_flags := chap_flags c OR AUTH_DONE\<rparr>) s))"
proof -
  let ?b = "chap_bit s" and ?o = "Ipcp_open \<in> set (a_net_calls s)"
  let ?pcb = "(u_pcb (a_unit s))\<lparr>auth_done := ?b\<rparr>" and ?f = "(a_ccp s)\<lparr>f_pcb := (u_pcb (a_unit s))\<lparr>auth_done := chap_bit s\<rparr>\<rparr>"
  have z: "auth_done (u_pcb (a_unit s)) = 0" "?b \<noteq> 0" using assms by (simp_all add: auth_inv_def Let_def chap_bit_def)
  have i: "u_phase (a_unit s) = PPP_PHASE_AUTHENTICATE" "\<not> ?o" "f_state (a_ccp s) = PPP_FSM_CLOSED"
      "a_np_open s = 0" "a_np_up s = 0" "auth_frame 0 ?o (u_pcb (a_unit s))"
    using assms(1) z by (auto simp: auth_inv_def Let_def)
  have f: "auth_frame ?b ?o ?pcb" using i(6) by (rule frame_auth_done)
  then have m: "mppe_opts (ccp_gotoptions (f_pcb (ccp_open base ?f))) = MPPE_OPT_128"
    using i(3) by (intro open_keeps_mppe) (simp_all add: auth_frame_def)
  have "auth_frame ?b ?o (f_pcb (ccp_open base ?f))" using f by (intro frame_ccp_open) simp
  moreover from this have "auth_done (f_pcb (ccp_open base ?f)) = ?b" by (simp add: auth_frame_def)
  ultimately show ?thesis
    using i z f m
    by (simp add: auth_withpeer_success_def network_phase_def start_networks_def Let_def auth_inv_def chap_bit_def
        chap_flag_bits)
qed

lemma report_fields [simp]: "a_unit (report_failure c m s) = a_unit s" "a_chap (report_failure c m s) = a_chap s"
  "auth_inv (report_failure c m s) = auth_inv s"
  by (simp_all add: report_failure_def auth_inv_def chap_bit_def)

lemma status_inv:
  assumes "auth_inv s"
  shows "auth_inv (chap_handle_status base code msg s)"
proof (cases "bit (chap_flags (a_chap s)) 2 \<or> \<not> bit (chap_flags (a_chap s)) 1 \<or> \<not> bit (chap_flags (a_chap s)) 0")
  case True
  then show ?thesis using assms by (auto simp: chap_handle_status_def chap_flag_bits)
next
  case False
  let ?s = "on_chap (\<lambda>c. c\<lparr>chap_flags := chap_flags c OR AUTH_DONE\<rparr>) s"
  have "auth_inv ?s" using assms False by (auto simp: auth_inv_def chap_bit_def Let_def chap_flag_bits)
  then have x: "auth_inv (auth_withpeer_fail (on_chap (\<lambda>c. c\<lparr>chap_flags := chap_flags c OR AUTH_FAILED\<rparr>) (report_failure code msg ?s)))"
    by (intro fail_inv) (simp add: auth_inv_def chap_bit_def Let_def chap_flag_bits report_failure_def)
  have "report_failure code msg ?s = ?s" if "status_result code msg c" for c
    using that by (simp add: status_result_def report_failure_def)
  then show ?thesis
    using x network_inv [OF assms] False by (auto simp: chap_handle_status_def Let_def chap_flag_bits)
qed

lemma chap_input_inv: "auth_inv s \<Longrightarrow> auth_inv (chap_input base env p s)"
  by (simp add: chap_input_def Let_def respond_inv status_inv)

lemma protrej_inv: "auth_inv s \<Longrightarrow> auth_inv (chap_protrej s)"
  by (auto simp: chap_protrej_def intro!: fail_inv) (simp add: auth_inv_def chap_bit_def Let_def chap_flag_bits)

lemma auth_do_inv: "auth_inv s \<Longrightarrow> auth_inv (auth_do e s)"
  by (auto simp: auth_do_def chap_input_inv protrej_inv np_inv intro!: ccp_event_inv split: auth_event.split)

lemma auth_run_inv: "auth_inv s \<Longrightarrow> auth_inv (auth_run es s)"
  by (induction es rule: rev_induct) (simp_all add: auth_do_inv)

section \<open>The start of a link\<close>

definition idle_link :: "auth_unit \<Rightarrow> bool" where
  "idle_link s \<longleftrightarrow> engine_settings (u_pcb (a_unit s)) \<and> mppe_opts (ccp_gotoptions (u_pcb (a_unit s))) = 0
     \<and> Continue_networks \<notin> set (pcb_calls (u_pcb (a_unit s))) \<and> f_state (a_ccp s) = PPP_FSM_INITIAL
     \<and> Ipcp_open \<notin> set (a_net_calls s) \<and> a_np_open s = 0 \<and> a_np_up s = 0 \<and> chap_flags (a_chap s) = 0
     \<and> length (chap_priv (a_chap s)) = 64 \<and> length (magic_randpool (a_magic s)) = 16"

lemma established_inv:
  assumes "idle_link s" "link_established base True mdtype s = Some s'"
  shows "auth_inv s'" "u_phase (a_unit s') = PPP_PHASE_AUTHENTICATE" "auth_done (u_pcb (a_unit s')) = 0"
proof -
  have l: "ccp_lowerup base g = goto PPP_FSM_CLOSED g" if "f_state g = PPP_FSM_INITIAL" for g
    using that by (simp add: ccp_lowerup_def fsm_lowerup_def)
  have b: "\<not> bit (LOWERUP OR AUTH_STARTED) 2" "\<not> bit LOWERUP 2" "CHAP_WITHPEER \<noteq> 0"
    by (simp_all add: LOWERUP_def AUTH_STARTED_def CHAP_WITHPEER_def bit_simps)
  show "auth_inv s'" "u_phase (a_unit s') = PPP_PHASE_AUTHENTICATE" "auth_done (u_pcb (a_unit s')) = 0"
    using assms l b
    by (auto simp: link_established_def idle_link_def chap_auth_with_peer_def auth_inv_def Let_def chap_lowerup_def
        f_pcb_prim goto_def auth_frame_def engine_settings_def split: if_splits option.splits)
qed

section \<open>Which packets authenticate\<close>

lemma status_done:
  assumes "auth_inv s"
  shows "auth_done (u_pcb (a_unit (chap_handle_status base code msg s))) \<noteq> auth_done (u_pcb (a_unit s)) \<Longrightarrow>
    \<not> bit (chap_flags (a_chap s)) 2 \<and> bit (chap_flags (a_chap s)) 1 \<and> bit (chap_flags (a_chap s)) 0
    \<and> status_result code msg (a_chap s)"
  by (auto simp: chap_handle_status_def Let_def chap_flag_bits auth_withpeer_fail_def lcp_close_call_def
      on_unit_def status_result_def report_failure_def split: if_splits)

lemma do_done:
  assumes "auth_inv s" "auth_done (u_pcb (a_unit (auth_do e s))) \<noteq> auth_done (u_pcb (a_unit s))"
  shows "\<exists>env p. snd e = Chap_packet env p \<and> good_status p (a_chap s)"
proof (cases "snd e")
  case (Chap_packet env p)
  have code: "code = CHAP_SUCCESS" if "status_result code m c" for code m c using that by (simp add: status_result_def)
  have "good_status p (a_chap s)"
    using assms(2) status_done [OF assms(1)] Chap_packet code
    by (auto simp: auth_do_def chap_input_def Let_def respond_pcb good_status_def chap_flag_bits chap_message_def status_result_def
        split: if_splits)
  then show ?thesis using Chap_packet by blast
next
  case (Ccp_event a)
  have "auth_frame (auth_done (u_pcb (a_unit s))) (Ipcp_open \<in> set (a_net_calls s)) (u_pcb (a_unit s))"
    using assms(1) by (simp add: auth_inv_def Let_def)
  from frame_ccp_do [of _ _ "(a_ccp s)\<lparr>f_pcb := u_pcb (a_unit s)\<rparr>", simplified, OF this, of "fst e" a]
  have "auth_done (u_pcb (a_unit (ccp_event (fst e) a s))) = auth_done (u_pcb (a_unit s))"
    by (simp add: ccp_event_def Let_def continue_networks_def lcp_close_call_def auth_frame_def)
  then show ?thesis using assms(2) Ccp_event by (simp add: auth_do_def split: if_splits)
qed (use assms(2) in \<open>auto simp: auth_do_def chap_protrej_def auth_withpeer_fail_def lcp_close_call_def np_up_def np_down_def
       Let_def on_unit_def split: if_splits\<close>)

lemma run_done:
  assumes "auth_inv s" "auth_done (u_pcb (a_unit s)) = 0" "auth_done (u_pcb (a_unit (auth_run es s))) \<noteq> 0"
  shows "\<exists>es1 base env p es2. es = es1 @ (base, Chap_packet env p) # es2 \<and> good_status p (a_chap (auth_run es1 s))"
  using assms(3)
proof (induction es rule: rev_induct)
  case (snoc e es)
  show ?case
  proof (cases "auth_done (u_pcb (a_unit (auth_run es s))) = 0")
    case True
    then obtain env p where "snd e = Chap_packet env p" "good_status p (a_chap (auth_run es s))"
      using do_done [OF auth_run_inv [OF assms(1)], of e es] snoc.prems by auto
    then show ?thesis by (metis prod.collapse)
  next
    case False
    then show ?thesis using snoc.IH by fastforce
  qed
qed (use assms(2) in simp)

section \<open>What the client expects from the server\<close>

definition credentials :: "auth_unit \<Rightarrow> string \<times> chap_digest_type \<times> octets \<times> octets \<times> string \<times> string" where
  "credentials s = (chap_name (a_chap s), chap_digest (a_chap s), chap_priv (a_chap s), magic_randpool (a_magic s),
     u_user (a_unit s), u_passwd (a_unit s))"

definition link_secret :: "auth_unit \<Rightarrow> octets" where
  "link_secret s = (case get_secret (chap_name (a_chap s)) (a_unit s) of Some x \<Rightarrow> x | None \<Rightarrow> [])"

text \<open>The sixteen octets that \<open>chapms2_make_response\<close> takes for the challenge, and the answer that proves the password.\<close>

definition challenge_of :: "chap_env \<Rightarrow> octets \<Rightarrow> octets" where
  "challenge_of env p = read_mem (packet_mem env (drop CHAP_HDRLEN p)) 1 16"

definition server_proof :: "octets \<Rightarrow> string \<Rightarrow> octets \<Rightarrow> octets \<Rightarrow> octets" where
  "server_proof pw name auth peer = rfc2759_AuthenticatorResponse pw (rfc2759_NTResponse auth peer name pw) peer auth name"

lemma length_proof [simp]: "length (rfc2759_AuthenticatorResponse pw nt peer auth user) = 40"
  by (simp add: rfc2759_AuthenticatorResponse_def Let_def length_concat comp_def sprintf_02X_def sum_list_triv)

lemma length_secret: "length (link_secret s) \<le> 256"
  by (simp add: link_secret_def get_secret_def MAXSECRETLEN_def text_octets_def)

text \<open>The packets that the client has written to the link.\<close>

definition written :: "auth_unit \<Rightarrow> octets list" where
  "written s = List.map_filter (\<lambda>c. case c of Link_write p \<Rightarrow> Some p | _ \<Rightarrow> None) (u_calls (a_unit s))"

lemma written_simps [simp]:
  "written (on_unit (do_call (Lcp_close_call r)) s) = written s" "written (on_chap g s) = written s" "written (on_ccp h s) = written s"
  "written (net_call c s) = written s" "written (on_unit (new_phase ph) s) = written s" "written (on_unit (on_unit_pcb k) s) = written s"
  "written (on_unit (\<lambda>u. u\<lparr>u_err := e\<rparr>) s) = written s" "written (s\<lparr>a_pending := w\<rparr>) = written s"
  "written (s\<lparr>a_np_open := b\<rparr>) = written s" "written (s\<lparr>a_np_up := b\<rparr>) = written s" "written (s\<lparr>a_held_pbufs := n\<rparr>) = written s"
  "written (s\<lparr>a_magic := mg\<rparr>) = written s" "written (report_failure code msg s) = written s"
  "written (on_unit (do_call (Link_write x)) s) = written s @ [x]"
  by (simp_all add: written_def on_unit_def on_chap_def net_call_def do_call_def new_phase_def on_unit_pcb_def map_filter_def
      report_failure_def)

definition client_view :: "auth_unit \<Rightarrow> (string \<times> chap_digest_type \<times> octets \<times> octets \<times> string \<times> string) \<times> octets list" where
  "client_view s = (credentials s, written s)"

lemma status_view: "client_view (chap_handle_status base code msg s) = client_view s"
  by (simp add: client_view_def chap_handle_status_def Let_def auth_withpeer_fail_def lcp_close_call_def
      auth_withpeer_success_def network_phase_def start_networks_def continue_networks_def)
     (simp add: credentials_def report_failure_def)

lemma other_view:
  assumes "\<And>env p. snd e \<noteq> Chap_packet env p"
  shows "client_view (auth_do e s) = client_view s"
proof (cases "snd e")
  case (Ccp_event a)
  then show ?thesis
    by (simp add: client_view_def auth_do_def ccp_event_def Let_def continue_networks_def lcp_close_call_def)
       (simp add: credentials_def)
qed (use assms in \<open>simp_all add: client_view_def auth_do_def chap_protrej_def auth_withpeer_fail_def lcp_close_call_def np_up_def
       np_down_def Let_def, simp_all add: credentials_def\<close>)

text \<open>
  A challenge is ignored, or it is answered: then the answer is written and the proof that the server owes for it, with the
  random octets drawn for it, is what the client keeps.
\<close>

definition answer_to :: "string \<Rightarrow> octets \<Rightarrow> chap_env \<Rightarrow> octets \<Rightarrow> octets \<Rightarrow> octets" where
  "answer_to user pw env p peer =
     response_packet (p ! 1) (49 # peer @ replicate 8 0 @ rfc2759_NTResponse (challenge_of env p) peer user pw @ [0]) user"

definition answered :: "chap_env \<Rightarrow> octets \<Rightarrow> auth_unit \<Rightarrow> auth_unit \<Rightarrow> bool" where
  "answered env p s s' \<longleftrightarrow> (let peer = fst (magic_random_bytes 16 (a_magic s)); name = chap_name (a_chap s); pw = link_secret s in
     credentials s' = (name, chap_digest (a_chap s), memcpy_at 0 (server_proof pw name (challenge_of env p) peer @ [0]) (chap_priv (a_chap s)),
       magic_randpool (a_magic s), u_user (a_unit s), u_passwd (a_unit s))
     \<and> written s' = written s @ [answer_to name pw env p peer])"

lemma respond_cases:
  assumes "chap_digest (a_chap s) = chapms2_digest" "length (magic_randpool (a_magic s)) = 16"
    and "length (chap_name (a_chap s)) < 2 ^ 31"
    and s'_def: "s' = chap_respond env (p ! 1) (drop CHAP_HDRLEN p) len s"
  shows "client_view s' = client_view s \<or> answered env p s s'"
proof -
  let ?pw = "link_secret s" and ?name = "chap_name (a_chap s)" and ?m = "a_magic s" and ?pcb = "u_pcb (a_unit s)"
  let ?peer = "fst (magic_random_bytes 16 ?m)"
  have r: "chapms2_make_response (ce_junk env) (packet_mem env (drop CHAP_HDRLEN p)) ?name ?pw ?m pcb =
      (of_nat MS_CHAP2_RESPONSE_LEN # ?peer @ replicate 8 0 @ rfc2759_NTResponse (challenge_of env p) ?peer ?name ?pw @ [0],
       server_proof ?pw ?name (challenge_of env p) ?peer, snd (magic_random_bytes 16 ?m),
       snd (snd (snd (chapms2_make_response (ce_junk env) (packet_mem env (drop CHAP_HDRLEN p)) ?name ?pw ?m pcb))))" for pcb
    using mschap2_response [of "challenge_of env p" ?name ?pw ?m ?peer _ "ce_junk env" pcb, OF _ assms(3) length_secret assms(2) refl refl]
    by (simp add: chapms2_make_response_def challenge_of_def [symmetric] server_proof_def) (simp add: challenge_of_def read_mem_def)
  obtain pcb' where r': "chapms2_make_response (ce_junk env) (packet_mem env (drop CHAP_HDRLEN p)) ?name ?pw ?m ?pcb =
      (49 # ?peer @ replicate 8 0 @ rfc2759_NTResponse (challenge_of env p) ?peer ?name ?pw @ [0],
       server_proof ?pw ?name (challenge_of env p) ?peer, snd (magic_random_bytes 16 ?m), pcb')"
    using r [of ?pcb] by (simp add: MS_CHAP2_RESPONSE_LEN_def)
  have m: "magic_randpool (snd (magic_random_bytes 16 ?m)) = magic_randpool ?m" by (simp add: magic_random_state)
  have sec: "(case get_secret ?name (a_unit s) of Some x \<Rightarrow> x | None \<Rightarrow> []) = ?pw" by (simp add: link_secret_def)
  let ?go = "\<not> (\<not> ce_alloc env \<or> \<not> ce_contiguous env)"
    and ?ready = "\<not> (chap_flags (a_chap s) AND (LOWERUP OR AUTH_STARTED) \<noteq> LOWERUP OR AUTH_STARTED
        \<or> len < 2 \<or> len < unat (packet_mem env (drop CHAP_HDRLEN p) 0) + 1)"
  let ?after = "on_unit (do_call (Link_write (answer_to ?name ?pw env p ?peer)))
        ((on_unit (on_unit_pcb (\<lambda>_. pcb')) (on_chap (\<lambda>c. c\<lparr>chap_priv := memcpy_at 0
            (server_proof ?pw ?name (challenge_of env p) ?peer @ [0]) (chap_priv c)\<rparr>) (s\<lparr>a_magic := snd (magic_random_bytes 16 ?m)\<rparr>)))
         \<lparr>a_held_pbufs := a_held_pbufs s\<rparr>)"
  have ans: "s' = ?after" if ?go ?ready
    using that r' assms(1) sec
    by (simp add: s'_def chap_respond_def Let_def make_response_def ppp_write_def answer_to_def on_unit_def on_chap_def)
  have skip: "s' = s" if "\<not> ?go" using that by (auto simp: s'_def chap_respond_def)
  have hold: "s' = s\<lparr>a_held_pbufs := Suc (a_held_pbufs s)\<rparr>" if ?go "\<not> ?ready"
    using that by (auto simp: s'_def chap_respond_def Let_def)
  consider "s' = s" | "s' = s\<lparr>a_held_pbufs := Suc (a_held_pbufs s)\<rparr>" | "s' = ?after" using ans skip hold by blast
  then show ?thesis
  proof cases
    case 3
    then have "credentials s' = (?name, chap_digest (a_chap s), memcpy_at 0 (server_proof ?pw ?name (challenge_of env p) ?peer @ [0])
        (chap_priv (a_chap s)), magic_randpool ?m, u_user (a_unit s), u_passwd (a_unit s))"
      using m by (simp add: credentials_def)
    moreover have "written s' = written s @ [answer_to ?name ?pw env p ?peer]" unfolding 3 by simp
    ultimately show ?thesis by (simp add: answered_def Let_def)
  qed (simp_all add: client_view_def, simp add: credentials_def)
qed

lemma do_cases:
  assumes "chap_digest (a_chap s) = chapms2_digest" "length (magic_randpool (a_magic s)) = 16" "length (chap_name (a_chap s)) < 2 ^ 31"
  shows "client_view (auth_do e s) = client_view s
    \<or> (\<exists>env p. snd e = Chap_packet env p \<and> p ! 0 = CHAP_CHALLENGE \<and> answered env p s (auth_do e s))"
proof (cases "\<exists>env p. snd e = Chap_packet env p")
  case True
  then obtain env p where e: "snd e = Chap_packet env p" by blast
  then have i: "auth_do e s = chap_input (fst e) env p s" by (simp add: auth_do_def)
  consider "client_view (auth_do e s) = client_view s"
    | len where "p ! 0 = CHAP_CHALLENGE" "auth_do e s = chap_respond env (p ! 1) (drop CHAP_HDRLEN p) len s"
  proof (cases "length p < CHAP_HDRLEN \<or> unat (get16 p 2) < CHAP_HDRLEN \<or> length p < unat (get16 p 2) \<or> p ! 0 \<noteq> CHAP_CHALLENGE")
    case True
    then have "client_view (auth_do e s) = client_view s" by (auto simp: i chap_input_def Let_def status_view)
    then show ?thesis by (rule that(1))
  next
    case False
    then show ?thesis by (intro that(2)) (simp_all add: i chap_input_def)
  qed
  then show ?thesis using respond_cases [OF assms] e by cases blast+
next
  case False
  then show ?thesis using other_view by blast
qed

text \<open>
  The digits that the client expects after the events \<open>es\<close>: those it was created with as long as it has answered nothing, and
  otherwise the server's proof for the challenge that it answered last and the octets that it drew for that answer.
\<close>

definition expects :: "string \<Rightarrow> octets \<Rightarrow> auth_unit \<Rightarrow> (ccp_fsm fsm_env \<times> auth_event) list \<Rightarrow> octets \<Rightarrow> bool" where
  "expects user pw s1 es d \<longleftrightarrow>
     written (auth_run es s1) = written s1 \<and> d = take 40 (chap_priv (a_chap s1))
     \<or> (\<exists>xs base env p ys peer. es = xs @ (base, Chap_packet env p) # ys \<and> p ! 0 = CHAP_CHALLENGE
          \<and> peer = fst (magic_random_bytes 16 (a_magic (auth_run xs s1)))
          \<and> written (auth_run es s1) = written (auth_run xs s1) @ [answer_to user pw env p peer]
          \<and> d = server_proof pw user (challenge_of env p) peer)"

definition proof_inv :: "auth_unit \<Rightarrow> (ccp_fsm fsm_env \<times> auth_event) list \<Rightarrow> bool" where
  "proof_inv s1 es \<longleftrightarrow> (let s = auth_run es s1 in
     chap_name (a_chap s) = chap_name (a_chap s1) \<and> chap_digest (a_chap s) = chapms2_digest
     \<and> length (chap_priv (a_chap s)) = 64 \<and> length (magic_randpool (a_magic s)) = 16 \<and> link_secret s = link_secret s1
     \<and> expects (chap_name (a_chap s1)) (link_secret s1) s1 es (take 40 (chap_priv (a_chap s))))"

lemma proof_same:
  assumes "proof_inv s1 es" "client_view (auth_do e (auth_run es s1)) = client_view (auth_run es s1)"
  shows "proof_inv s1 (es @ [e])"
proof -
  let ?s = "auth_run es s1"
  have l: "link_secret (auth_do e ?s) = link_secret ?s" and w: "written (auth_do e ?s) = written ?s"
    using assms(2) by (simp_all add: client_view_def credentials_def link_secret_def get_secret_def)
  have "expects n pw s1 (es @ [e]) d" if "expects n pw s1 es d" for n pw d
    using that w unfolding expects_def auth_run_simps by (metis append.assoc append_Cons)
  then show ?thesis using assms l by (simp add: proof_inv_def client_view_def credentials_def Let_def)
qed

lemma proof_answered:
  assumes "proof_inv s1 es" "snd e = Chap_packet env p" "p ! 0 = CHAP_CHALLENGE" "answered env p (auth_run es s1) (auth_do e (auth_run es s1))"
  shows "proof_inv s1 (es @ [e])"
proof -
  let ?s = "auth_run es s1"
  let ?peer = "fst (magic_random_bytes 16 (a_magic ?s))" and ?n = "chap_name (a_chap s1)" and ?pw = "link_secret s1"
  have i: "chap_name (a_chap ?s) = ?n" "link_secret ?s = ?pw" "length (chap_priv (a_chap ?s)) = 64" "chap_digest (a_chap ?s) = chapms2_digest"
      "length (magic_randpool (a_magic ?s)) = 16" using assms(1) by (simp_all add: proof_inv_def Let_def)
  have c: "credentials (auth_do e ?s) = (?n, chapms2_digest, memcpy_at 0 (server_proof ?pw ?n (challenge_of env p) ?peer @ [0]) (chap_priv (a_chap ?s)),
       magic_randpool (a_magic ?s), u_user (a_unit ?s), u_passwd (a_unit ?s))"
    and w: "written (auth_do e ?s) = written ?s @ [answer_to ?n ?pw env p ?peer]"
    using assms(4) i by (simp_all add: answered_def Let_def)
  have l: "link_secret (auth_do e ?s) = link_secret ?s" using c i(1) by (simp add: credentials_def link_secret_def get_secret_def)
  have d: "take 40 (chap_priv (a_chap (auth_do e ?s))) = server_proof ?pw ?n (challenge_of env p) ?peer"
      "length (chap_priv (a_chap (auth_do e ?s))) = 64"
    using c i(3) by (simp_all add: credentials_def memcpy_at_def server_proof_def)
  have "es @ [e] = es @ (fst e, Chap_packet env p) # []" using assms(2) by (metis prod.collapse)
  then have "expects ?n ?pw s1 (es @ [e]) (server_proof ?pw ?n (challenge_of env p) ?peer)"
    using w assms(3) unfolding expects_def auth_run_simps by blast
  then show ?thesis using i c l d by (simp add: proof_inv_def credentials_def Let_def)
qed

lemma proof_run:
  assumes "proof_inv s1 []" "length (chap_name (a_chap s1)) < 2 ^ 31"
  shows "proof_inv s1 es"
proof (induction es rule: rev_induct)
  case (snoc e es)
  then have "chap_digest (a_chap (auth_run es s1)) = chapms2_digest" "length (magic_randpool (a_magic (auth_run es s1))) = 16"
      "length (chap_name (a_chap (auth_run es s1))) < 2 ^ 31"
    using assms(2) by (simp_all add: proof_inv_def Let_def)
  from do_cases [OF this, of e] show ?case using proof_same [OF snoc] proof_answered [OF snoc] by blast
qed (rule assms)

lemma established_client:
  assumes "idle_link s0" "link_established base True mdtype s0 = Some s1" "u_user (a_unit s0) \<noteq> []"
  shows "chap_name (a_chap s1) = u_user (a_unit s0)" "digest_code (chap_digest (a_chap s1)) = CHAP_DIGEST mdtype"
    "chap_priv (a_chap s1) = chap_priv (a_chap s0)" "a_magic s1 = a_magic s0" "chap_flags (a_chap s1) = 3" "a_pending s1 = CHAP_WITHPEER"
    "u_user (a_unit s1) = u_user (a_unit s0)" "u_passwd (a_unit s1) = u_passwd (a_unit s0)" "a_net_calls s1 = a_net_calls s0 @ [Ipcp_lowerup]"
    "a_ccp s1 = (a_ccp s0)\<lparr>f_pcb := u_pcb (a_unit s0), f_state := PPP_FSM_CLOSED\<rparr>"
    "u_pcb (a_unit s1) = (u_pcb (a_unit s0))\<lparr>auth_done := 0\<rparr>" "u_calls (a_unit s1) = u_calls (a_unit s0)"
proof -
  have l: "ccp_lowerup base g = goto PPP_FSM_CLOSED g" if "f_state g = PPP_FSM_INITIAL" for g
    using that by (simp add: ccp_lowerup_def fsm_lowerup_def)
  have b: "CHAP_WITHPEER \<noteq> 0" "LOWERUP AND AUTH_STARTED = 0" "LOWERUP OR AUTH_STARTED = 3"
    by (simp_all add: LOWERUP_def AUTH_STARTED_def CHAP_WITHPEER_def)
  have fl: "chap_flags (a_chap s0) = 0" and st: "f_state (a_ccp s0) = PPP_FSM_INITIAL" using assms(1) by (simp_all add: idle_link_def)
  let ?t = "on_unit (new_phase PPP_PHASE_AUTHENTICATE) (on_ccp (ccp_lowerup base) (net_call Ipcp_lowerup (chap_lowerup s0)))"
  have t: "chap_flags (a_chap ?t) = LOWERUP" "u_user (a_unit ?t) = u_user (a_unit s0)"
    using fl by (simp_all add: chap_lowerup_def)
  obtain d where d: "List.find (\<lambda>d. digest_code d = CHAP_DIGEST mdtype) chap_digests = Some d"
    using assms(2,3) t b(2) by (auto simp: link_established_def Let_def chap_auth_with_peer_def split: option.splits)
  then have dc: "digest_code d = CHAP_DIGEST mdtype" by (auto simp: find_Some_iff)
  have s1: "s1 = on_unit (on_unit_pcb (\<lambda>pcb. pcb\<lparr>auth_done := 0\<rparr>))
      ((on_chap (\<lambda>c. c\<lparr>chap_digest := d, chap_name := u_user (a_unit s0), chap_flags := chap_flags c OR AUTH_STARTED\<rparr>) ?t)
       \<lparr>a_pending := CHAP_WITHPEER\<rparr>)"
    using assms(2,3) t b(1,2) d unfolding link_established_def Let_def chap_auth_with_peer_def by simp
  show "chap_name (a_chap s1) = u_user (a_unit s0)" "digest_code (chap_digest (a_chap s1)) = CHAP_DIGEST mdtype"
    "chap_priv (a_chap s1) = chap_priv (a_chap s0)" "a_magic s1 = a_magic s0" "chap_flags (a_chap s1) = 3" "a_pending s1 = CHAP_WITHPEER"
    "u_user (a_unit s1) = u_user (a_unit s0)" "u_passwd (a_unit s1) = u_passwd (a_unit s0)" "a_net_calls s1 = a_net_calls s0 @ [Ipcp_lowerup]"
    "a_ccp s1 = (a_ccp s0)\<lparr>f_pcb := u_pcb (a_unit s0), f_state := PPP_FSM_CLOSED\<rparr>"
    "u_pcb (a_unit s1) = (u_pcb (a_unit s0))\<lparr>auth_done := 0\<rparr>" "u_calls (a_unit s1) = u_calls (a_unit s0)"
    using dc b(3) fl st by (simp_all add: s1 chap_lowerup_def l goto_def)
qed

lemma V2_code: "digest_code d = CHAP_MICROSOFT_V2 \<longleftrightarrow> d = chapms2_digest"
  by (cases d) (simp_all add: CHAP_MICROSOFT_V2_def CHAP_MICROSOFT_def CHAP_MD5_def)

lemma established_proof:
  assumes "idle_link s0" "link_established base True mdtype s0 = Some s1" "u_user (a_unit s0) \<noteq> []" "CHAP_DIGEST mdtype = CHAP_MICROSOFT_V2"
  shows "proof_inv s1 []" "link_secret s1 = text_octets (take MAXSECRETLEN (u_passwd (a_unit s0)))"
  using established_client [OF assms(1-3)] assms
  by (auto simp: proof_inv_def expects_def V2_code idle_link_def link_secret_def get_secret_def text_octets_def)

end
