(* ===== verification/Ppp_Auth_Correct.thy ===== *)
theory Ppp_Auth_Correct
  imports Ppp_Auth_Run
begin

text \<open>
  What authentication guarantees for the link (\<open>src/lwip/src/netif/ppp/auth.c\<close> and \<open>chap-new.c\<close> with CCP): the network
  phase is entered only through a valid Success message, IP is started only with keys of exactly one MS-CHAP
  exchange, and an honest server gets there. Also the defects that the model shows: a Success that no
  challenge preceded is accepted, and a challenge that is ignored costs a pbuf.
\<close>

section \<open>An honest server\<close>

lemma ccp_open_request:
  fixes base
  assumes "ccp_inv f" "f_state f = PPP_FSM_CLOSED" "f_flags f = 0" "mppe_keys_set (f_pcb f)" "mschap_auths (auth_done (f_pcb f)) = 1"
    "pbuf_ok base" "peer_mru base \<ge> 10"
  defines "f1 \<equiv> ccp_open base f"
  shows "f_state f1 = PPP_FSM_REQSENT" "\<not> f_seen_ack f1" "mppe_opts (ccp_gotoptions (f_pcb f1)) = MPPE_OPT_128"
    "cmethod (ccp_gotoptions (f_pcb f1)) = CI_MPPE" "mppe_opts (ccp_allowoptions (f_pcb f1)) = MPPE_OPT_128"
    "netif_mtu (f_pcb f1) = netif_mtu (f_pcb f)" "pcb_calls (f_pcb f1) = pcb_calls (f_pcb f)" "ccp_inv f1"
proof -
  let ?g = "ccp_resetci (on_pcb (ccp_set True False 0 0) f)"
  have e: "engine_settings (ccp_set True False 0 0 (f_pcb f))" using assms(1) by (simp add: ccp_inv_def ccp_J_def ccp_set_def)
  note r = resetci_engine [OF e]
  have g: "ccp_J (f_pcb ?g)" using resetci_J(1) ccp_inv_set [OF assms(1), of True False] by (simp add: ccp_resetci_def ccp_inv_def)
  have p: "f_state ?g = PPP_FSM_CLOSED" "f_flags ?g = 0" "netif_mtu (f_pcb ?g) = netif_mtu (f_pcb f)"
      "pcb_calls (f_pcb ?g) = pcb_calls (f_pcb f)" "not_available (f_pcb ?g) = []" "mppe_opts (ccp_gotoptions (f_pcb ?g)) = MPPE_OPT_128"
    using assms(2-5) by (simp_all add: ccp_resetci_def on_pcb_def r [unfolded ccp_set_def] ccp_set_def not_available_def)
  have f1: "f1 = goto PPP_FSM_REQSENT (fsm_sconfreq (ccp_callbacks base) False ?g)"
    using assms(2) p by (simp add: f1_def ccp_open_def Let_def fsm_open_def ccp_anycompress_def)
  show "f_state f1 = PPP_FSM_REQSENT" by (simp add: f1 goto_def)
  show "\<not> f_seen_ack f1" "mppe_opts (ccp_gotoptions (f_pcb f1)) = MPPE_OPT_128"
    "cmethod (ccp_gotoptions (f_pcb f1)) = CI_MPPE" "mppe_opts (ccp_allowoptions (f_pcb f1)) = MPPE_OPT_128"
    "netif_mtu (f_pcb f1) = netif_mtu (f_pcb f)" "pcb_calls (f_pcb f1) = pcb_calls (f_pcb f)"
    using ccp_sconfreq [OF g assms(6,7)] p by (simp_all add: f1 negotiating_def)
  show "ccp_inv f1" using assms(1) by (simp add: f1_def ccp_open_inv)
qed

section \<open>A Success message\<close>

lemma pending_cleared: "CHAP_WITHPEER AND NOT (auth_bit PPP_CHAP c) = 0"
proof -
  have "w AND NOT (w OR x) = 0" for w x :: u16 by (intro bit_word_eqI) (auto simp: bit_simps)
  then show ?thesis by (simp add: auth_bit_def)
qed

lemma success_step:
  fixes base
  assumes "auth_inv s" "good_status p (a_chap s)" "a_pending s = CHAP_WITHPEER"
  defines "f \<equiv> ccp_open base ((a_ccp s)\<lparr>f_pcb := (u_pcb (a_unit s))\<lparr>auth_done := chap_bit s\<rparr>\<rparr>)"
  shows "u_phase (a_unit (chap_input base env p s)) = PPP_PHASE_NETWORK" "a_net_calls (chap_input base env p s) = a_net_calls s"
    "u_pcb (a_unit (chap_input base env p s)) = f_pcb f" "a_ccp (chap_input base env p s) = f"
    "a_np_open (chap_input base env p s) = 0" "a_np_up (chap_input base env p s) = 0"
    "u_calls (a_unit (chap_input base env p s)) = u_calls (a_unit s)"
proof -
  let ?s = "on_chap (\<lambda>c. c\<lparr>chap_flags := chap_flags c OR AUTH_DONE\<rparr>) s"
  have fl: "\<not> bit (chap_flags (a_chap s)) 2" "chap_flags (a_chap s) AND (AUTH_DONE OR AUTH_STARTED OR LOWERUP) = AUTH_STARTED OR LOWERUP"
    using assms(2) by (simp_all add: good_status_def chap_flag_bits)
  have z: "auth_done (u_pcb (a_unit s)) = 0" "u_phase (a_unit s) = PPP_PHASE_AUTHENTICATE" "f_state (a_ccp s) = PPP_FSM_CLOSED"
      "engine_settings (u_pcb (a_unit s))" "a_np_open s = 0" "a_np_up s = 0"
    using assms(1) fl(1) by (auto simp: auth_inv_def Let_def chap_bit_def auth_frame_def)
  have m: "mppe_opts (ccp_gotoptions (f_pcb f)) = MPPE_OPT_128"
    unfolding f_def using z by (intro open_keeps_mppe) (simp_all add: engine_settings_def)
  have p: "length p \<ge> CHAP_HDRLEN" "p ! 0 = CHAP_SUCCESS" "\<not> unat (get16 p 2) < CHAP_HDRLEN" "\<not> length p < unat (get16 p 2)"
    using assms(2) by (auto simp: good_status_def)
  have "chap_input base env p s = auth_withpeer_success base PPP_CHAP (digest_code (chap_digest (a_chap s))) ?s"
    using p fl assms(2)
    by (simp add: chap_input_def Let_def CHAP_SUCCESS_def CHAP_CHALLENGE_def chap_handle_status_def status_result_def
        report_failure_def good_status_def chap_message_def)
  also have "\<dots> = start_networks base ((on_unit (on_unit_pcb (\<lambda>pcb. pcb\<lparr>auth_done := auth_done pcb OR chap_bit s\<rparr>)) ?s)\<lparr>a_pending := 0\<rparr>)"
    using assms(3) pending_cleared by (simp add: auth_withpeer_success_def network_phase_def chap_bit_def Let_def)
  finally show "u_phase (a_unit (chap_input base env p s)) = PPP_PHASE_NETWORK" "a_net_calls (chap_input base env p s) = a_net_calls s"
    "u_pcb (a_unit (chap_input base env p s)) = f_pcb f" "a_ccp (chap_input base env p s) = f"
    "a_np_open (chap_input base env p s) = 0" "a_np_up (chap_input base env p s) = 0"
    "u_calls (a_unit (chap_input base env p s)) = u_calls (a_unit s)"
    using m z by (simp_all add: start_networks_def Let_def f_def)
qed

lemma open_calls:
  assumes "engine_settings (f_pcb f)" "f_state f = PPP_FSM_CLOSED"
  shows "set (pcb_calls (f_pcb f) @ not_available (f_pcb f)) \<subseteq> set (pcb_calls (f_pcb (ccp_open base f)))"
proof -
  let ?f = "ccp_resetci (on_pcb (ccp_set True False 0 0) f)"
  have a: "set (pcb_calls (f_pcb g)) \<subseteq> set (pcb_calls (f_pcb (snd (own_ci (ccp_callbacks base) n g))))" for g n
    by (auto simp: own_ci_def ccp_table ccp_addci_def Let_def init_decomp_def split_beta)
  have r: "pcb_calls (resetci_pcb pcb) = pcb_calls pcb @ not_available pcb" "engine_settings (resetci_pcb pcb)"
      "mppe_opts (ccp_gotoptions (resetci_pcb pcb)) = MPPE_OPT_128"
    if "engine_settings pcb" for pcb
    using that by (simp_all add: resetci_engine, simp add: engine_settings_def)
  have s: "set (pcb_calls (f_pcb g)) \<subseteq> set (pcb_calls (f_pcb (fsm_sconfreq (ccp_callbacks base) False g)))"
    if "engine_settings (f_pcb g)" "f_state g = PPP_FSM_CLOSED" for g
  proof -
    define x where "x = (ccp_resetci (note_event Resetci g))\<lparr>f_nakloops := 0, f_rnakloops := 0,
      f_retransmits := max_conf_req_transmits base, f_id := f_id (ccp_resetci (note_event Resetci g)) + 1,
      f_reqid := f_id (ccp_resetci (note_event Resetci g)) + 1, f_seen_ack := False\<rparr>"
    have "snd (own_cilen (ccp_callbacks base) x) = x" by (simp add: own_cilen_def ccp_table ccp_cilen_def)
    then have "f_pcb (fsm_sconfreq (ccp_callbacks base) False g) = (if pbuf_ok base
        then f_pcb (snd (own_ci (ccp_callbacks base) (fst (own_cilen (ccp_callbacks base) x)) x)) else f_pcb x)"
      using that(2) by (simp add: fsm_sconfreq_def Let_def split_beta ccp_table call_back_def negotiating_def x_def)
    moreover have "f_pcb x = resetci_pcb (f_pcb g)" by (simp add: x_def ccp_resetci_def)
    ultimately show ?thesis using a [of x "fst (own_cilen (ccp_callbacks base) x)"] r(1) [OF that(1)] by auto
  qed
  have e: "engine_settings (ccp_set x y 0 0 (f_pcb f))" "not_available (ccp_set x y 0 0 (f_pcb f)) = not_available (f_pcb f)"
      "pcb_calls (ccp_set x y 0 0 (f_pcb f)) = pcb_calls (f_pcb f)" for x y
    using assms(1) by (simp_all add: ccp_set_def not_available_def)
  show ?thesis
    using s [of "?f\<lparr>f_flags := fl\<rparr>" for fl] s [of ?f] r [OF e(1)] e assms
    by (auto simp: ccp_open_def Let_def fsm_open_def ccp_resetci_def)
qed

section \<open>The packets of an honest server\<close>

definition chap_packet :: "u8 \<Rightarrow> u8 \<Rightarrow> octets \<Rightarrow> octets" where
  "chap_packet code i d = [code, i, hi8 (of_nat (4 + length d)), lo8 (of_nat (4 + length d))] @ d"

lemma chap_packet_fields:
  assumes "length d < 65532"
  shows "unat (get16 (chap_packet code i d) 2) = 4 + length d" "chap_packet code i d ! 0 = code" "chap_packet code i d ! 1 = i"
    "length (chap_packet code i d) = 4 + length d" "drop 4 (chap_packet code i d) = d" "chap_message (chap_packet code i d) = d"
proof -
  have g: "get16 (chap_packet code i d) 2 = of_nat (4 + length d)"
    by (rule hi_lo_eqI) (simp_all add: chap_packet_def)
  then show u: "unat (get16 (chap_packet code i d) 2) = 4 + length d"
    using assms by (simp add: unat_of_nat del: of_nat_add)
  show "chap_packet code i d ! 0 = code" "chap_packet code i d ! 1 = i" "length (chap_packet code i d) = 4 + length d"
    "drop 4 (chap_packet code i d) = d" "chap_message (chap_packet code i d) = d"
    using u by (simp_all add: chap_message_def CHAP_HDRLEN_def) (simp_all add: chap_packet_def)
qed

lemma challenge_step:
  fixes base and i :: u8
  assumes "chap_digest (a_chap s) = chapms2_digest" "chap_flags (a_chap s) = 3" "length (magic_randpool (a_magic s)) = 16"
    and "length (chap_name (a_chap s)) < 2 ^ 31" "length (chap_priv (a_chap s)) = 64"
    and "length auth = 16" "length sname < 65000" "ce_alloc env" "ce_contiguous env"
  defines "peer \<equiv> fst (magic_random_bytes 16 (a_magic s))"
  defines "nt \<equiv> rfc2759_NTResponse auth peer (chap_name (a_chap s)) (link_secret s)"
  defines "s' \<equiv> chap_input base env (chap_packet CHAP_CHALLENGE i (16 # auth @ sname)) s"
  shows "u_calls (a_unit s') = u_calls (a_unit s) @
      [Link_write (response_packet i (49 # peer @ replicate 8 0 @ nt @ [0]) (chap_name (a_chap s)))]"
    "a_chap s' = (a_chap s)\<lparr>chap_priv := memcpy_at 0 (server_proof (link_secret s) (chap_name (a_chap s)) auth peer @ [0]) (chap_priv (a_chap s))\<rparr>"
    "u_pcb (a_unit s') = (u_pcb (a_unit s))\<lparr>
       mppe_comp := (mppe_comp (u_pcb (a_unit s)))\<lparr>master_key := rfc3079_StartKey (rfc3079_MasterKey (link_secret s) nt) True False\<rparr>,
       mppe_decomp := (mppe_decomp (u_pcb (a_unit s)))\<lparr>master_key := rfc3079_StartKey (rfc3079_MasterKey (link_secret s) nt) False False\<rparr>,
       mppe_keys_set := True\<rparr>"
    "a_held_pbufs s' = a_held_pbufs s"
proof -
  let ?p = "chap_packet CHAP_CHALLENGE i (16 # auth @ sname)"
  have f: "unat (get16 ?p 2) = 21 + length sname" "?p ! 0 = CHAP_CHALLENGE" "?p ! 1 = i" "length ?p = 21 + length sname"
      "drop CHAP_HDRLEN ?p = 16 # auth @ sname"
    using chap_packet_fields [of "16 # auth @ sname" CHAP_CHALLENGE i] assms(6,7) by (simp_all add: CHAP_HDRLEN_def)
  have m: "packet_mem env (16 # auth @ sname) 0 = 16" by (simp add: packet_mem_def)
  have "read_mem (packet_mem env (16 # auth @ sname)) 1 16 = map (\<lambda>i. auth ! i) [0..<16]"
    unfolding read_mem_def using assms(6) by (intro map_cong) (simp_all add: packet_mem_def nth_append)
  then have a: "read_mem (packet_mem env (16 # auth @ sname)) 1 16 = auth" using assms(6) map_nth [of auth] by simp
  let ?s = "s\<lparr>a_held_pbufs := Suc (a_held_pbufs s)\<rparr>"
  have sec: "(case get_secret (chap_name (a_chap s)) (a_unit s) of Some x \<Rightarrow> x | None \<Rightarrow> []) = link_secret s"
    by (simp add: link_secret_def)
  note r = mschap2_response [OF assms(6,4) length_secret [of s] assms(3) meta_eq_to_obj_eq [OF peer_def]
      meta_eq_to_obj_eq [OF nt_def], of "ce_junk env" "u_pcb (a_unit s)"]
  have s': "s' = chap_respond env i (16 # auth @ sname) (17 + length sname) s"
    using f by (simp add: s'_def chap_input_def CHAP_HDRLEN_def CHAP_CHALLENGE_def Let_def)
  have fl: "chap_flags (a_chap s) AND (LOWERUP OR AUTH_STARTED) = LOWERUP OR AUTH_STARTED"
    using assms(2) by (simp add: LOWERUP_def AUTH_STARTED_def)
  note all = s' chap_respond_def Let_def make_response_def chapms2_make_response_def ppp_write_def MS_CHAP2_RESPONSE_LEN_def server_proof_def
  show "u_calls (a_unit s') = u_calls (a_unit s) @
      [Link_write (response_packet i (49 # peer @ replicate 8 0 @ nt @ [0]) (chap_name (a_chap s)))]"
    using assms(1,8,9) fl m a r sec by (simp add: all do_call_def on_unit_pcb_def)
  show "a_chap s' = (a_chap s)\<lparr>chap_priv := memcpy_at 0 (server_proof (link_secret s) (chap_name (a_chap s)) auth peer @ [0]) (chap_priv (a_chap s))\<rparr>"
    using assms(1,8,9) fl m a r sec nt_def by (simp add: all)
  show "u_pcb (a_unit s') = (u_pcb (a_unit s))\<lparr>
       mppe_comp := (mppe_comp (u_pcb (a_unit s)))\<lparr>master_key := rfc3079_StartKey (rfc3079_MasterKey (link_secret s) nt) True False\<rparr>,
       mppe_decomp := (mppe_decomp (u_pcb (a_unit s)))\<lparr>master_key := rfc3079_StartKey (rfc3079_MasterKey (link_secret s) nt) False False\<rparr>,
       mppe_keys_set := True\<rparr>"
    using assms(1,8,9) fl m a r sec by (simp add: all)
  show "a_held_pbufs s' = a_held_pbufs s"
    using assms(1,8,9) fl m a r sec by (simp add: all)
qed

section \<open>Properties\<close>

text \<open>C6: the link leaves the authentication phase only through the server's proof of the password: in every run of a link
  with MS-CHAPv2, with any packets of the peer in any order, if the network phase is reached or IPCP is opened, then
  before that a Success message arrived whose forty digits are the RFC 2759 authenticator response for the password of the
  user, the challenge of the peer that the client had answered last, and the sixteen octets that the client had drawn from
  its random number generator for that very answer -- or the forty octets that the unit was created with, and then the
  client had not answered any challenge yet.\<close>

theorem network_needs_server_proof:
  assumes "idle_link s0" "link_established base True mdtype s0 = Some s1" "CHAP_DIGEST mdtype = CHAP_MICROSOFT_V2"
    and "u_user (a_unit s0) \<noteq> []" "length (u_user (a_unit s0)) < 2 ^ 31"
    and "u_phase (a_unit (auth_run es s1)) \<noteq> PPP_PHASE_AUTHENTICATE \<or> Ipcp_open \<in> set (a_net_calls (auth_run es s1))"
  shows "\<exists>es1 e env p es2 digits tail. es = es1 @ (e, Chap_packet env p) # es2 \<and> p ! 0 = CHAP_SUCCESS
    \<and> chap_message p = text_octets ''S='' @ digits @ tail
    \<and> expects (u_user (a_unit s0)) (text_octets (take MAXSECRETLEN (u_passwd (a_unit s0)))) s1 es1 digits
    \<and> chap_priv (a_chap s1) = chap_priv (a_chap s0)"
proof -
  note c = established_client [OF assms(1,2,4)] and i = established_inv [OF assms(1,2)]
  note pr = established_proof [OF assms(1,2,4,3)]
  have "auth_done (u_pcb (a_unit (auth_run es s1))) \<noteq> 0"
    using auth_run_inv [OF i(1), of es] assms(6) by (auto simp: auth_inv_def Let_def chap_bit_def)
  from run_done [OF i(1,3) this] obtain es1 e env p es2 where
    e: "es = es1 @ (e, Chap_packet env p) # es2" and g: "good_status p (a_chap (auth_run es1 s1))" by blast
  have "proof_inv s1 es1" using c(1) assms(5) by (intro proof_run [OF pr(1)]) simp
  then have q: "chap_digest (a_chap (auth_run es1 s1)) = chapms2_digest" "length (chap_priv (a_chap (auth_run es1 s1))) = 64"
      "expects (u_user (a_unit s0)) (link_secret s1) s1 es1 (take 40 (chap_priv (a_chap (auth_run es1 s1))))"
    using c(1) by (simp_all add: proof_inv_def Let_def)
  then have "chapms2_check_success (chap_message p) (chap_priv (a_chap (auth_run es1 s1)))"
    using g by (simp add: good_status_def)
  then obtain tail where "chap_message p = text_octets ''S='' @ take 40 (chap_priv (a_chap (auth_run es1 s1))) @ tail"
    using q(2) success_iff [of "chap_priv (a_chap (auth_run es1 s1))" "chap_message p"] by auto
  moreover have "p ! 0 = CHAP_SUCCESS" using g by (simp add: good_status_def)
  ultimately show ?thesis using e q(3) c(3) pr(2) by metis
qed

text \<open>C8: IP starts only on an authenticated link with keys: in every run after \<open>link_established\<close> with CHAP, whatever
  digest was agreed and whatever the peer sends, IPCP is opened or the link running only when the peer has accepted our
  authentication, and MPPE keys were set by exactly one MS-CHAP exchange -- unless LCP has already been told to
  close the link.\<close>

theorem ip_needs_authentication:
  assumes "idle_link s0" "link_established base True mdtype s0 = Some s1" "s = auth_run es s1"
    and "Ipcp_open \<in> set (a_net_calls s) \<or> u_phase (a_unit s) = PPP_PHASE_RUNNING"
  shows "auth_done (u_pcb (a_unit s)) = auth_bit PPP_CHAP (digest_code (chap_digest (a_chap s)))
    \<and> (mppe_keys_set (u_pcb (a_unit s)) \<and> mschap_auths (auth_done (u_pcb (a_unit s))) = 1
       \<or> (\<exists>r. Close_lcp r \<in> set (pcb_calls (u_pcb (a_unit s)))))"
  using auth_run_inv [OF established_inv(1) [OF assms(1,2)], of es] assms(3,4)
  by (auto simp: auth_inv_def Let_def chap_bit_def auth_frame_def ready_def)

lemma zero_success_accepted:
  assumes "idle_link s0" "link_established base True mdtype s0 = Some s1" "CHAP_DIGEST mdtype = CHAP_MICROSOFT_V2"
    and "u_user (a_unit s0) \<noteq> []" "chap_priv (a_chap s0) = replicate 64 0" "\<not> mppe_keys_set (u_pcb (a_unit s0))"
    and "p = [CHAP_SUCCESS, i, 0, 46] @ text_octets ''S='' @ replicate 40 0" "s = chap_input base env p s1"
  shows "u_phase (a_unit s) = PPP_PHASE_NETWORK
    \<and> Close_lcp ''MPPE required but not available'' \<in> set (pcb_calls (u_pcb (a_unit s)))
    \<and> Ipcp_open \<notin> set (a_net_calls s)"
proof -
  note c = established_client [OF assms(1,2,4)] and i = established_inv [OF assms(1,2)]
  have d: "chap_digest (a_chap s1) = chapms2_digest" using c(2) assms(3) V2_code by simp
  have "get16 p 2 = 46" "length p = 46" "chap_message p = text_octets ''S='' @ take 40 (chap_priv (a_chap s1)) @ []"
    using c(3) assms(5) by (simp_all add: assms(7) get16_def text_octets_def chap_message_def CHAP_HDRLEN_def)
  moreover from this have "chapms2_check_success (chap_message p) (chap_priv (a_chap s1))"
    using success_iff [of "chap_priv (a_chap s1)" "chap_message p"] c(3) assms(5) by auto
  ultimately have g: "good_status p (a_chap s1)"
    using c(5) by (simp add: good_status_def CHAP_HDRLEN_def assms(7) AUTH_DONE_def AUTH_STARTED_def LOWERUP_def)
  let ?pcb = "(u_pcb (a_unit s1))\<lparr>auth_done := chap_bit s1\<rparr>"
  note st = success_step [OF i(1) g c(6), of base env]
  have e: "engine_settings ?pcb" "\<not> mppe_keys_set ?pcb" "Ipcp_open \<notin> set (a_net_calls s1)"
    using assms(1,6) c(9,11) by (simp_all add: idle_link_def engine_settings_def)
  have "set (not_available ?pcb) \<subseteq> set (pcb_calls (u_pcb (a_unit s)))"
    using open_calls [of "(a_ccp s1)\<lparr>f_pcb := ?pcb\<rparr>" base] e c(10) assms(8) st(3) by simp
  moreover have "Close_lcp ''MPPE required but not available'' \<in> set (not_available ?pcb)" using e by (simp add: not_available_def)
  ultimately show ?thesis using st(1,2) e(3) assms(8) by auto
qed

text \<open>C38: a Success without a challenge is accepted, and does not lead to traffic: when the peer sends, as its first packet, a
  Success for the forty zero octets that a new unit holds, the client takes the server for authenticated and enters the
  network phase. Because no keys were set, LCP is told to close the link and IPCP is not opened by this packet.\<close>

theorem success_without_challenge:
  assumes "idle_link s0" "link_established base True mdtype s0 = Some s1" "CHAP_DIGEST mdtype = CHAP_MICROSOFT_V2"
    and "u_user (a_unit s0) \<noteq> []" "chap_priv (a_chap s0) = replicate 64 0" "\<not> mppe_keys_set (u_pcb (a_unit s0))"
    and "p = [CHAP_SUCCESS, i, 0, 46] @ text_octets ''S='' @ replicate 40 0" "s = chap_input base env p s1"
  shows "u_phase (a_unit s) = PPP_PHASE_NETWORK
    \<and> Close_lcp ''MPPE required but not available'' \<in> set (pcb_calls (u_pcb (a_unit s)))
    \<and> Ipcp_open \<notin> set (a_net_calls s)"
  using assms by (rule zero_success_accepted)

lemma V2_counts: "mschap_auths (auth_bit PPP_CHAP CHAP_MICROSOFT_V2) = 1"
  by (simp add: auth_bit_def CHAP_MICROSOFT_V2_def CHAP_MICROSOFT_def CHAP_MD5_def CHAP_WITHPEER_def CHAP_MS_WITHPEER_def
      CHAP_MS_PEER_def CHAP_MS2_WITHPEER_def CHAP_MS2_PEER_def mschap_auths_def count_bits.simps drop_bit_eq_div)

lemma ccp_event_fields:
  assumes "f_pcb (a_ccp s) = u_pcb (a_unit s)" "f = ccp_do base a (a_ccp s)" "pcb_calls (f_pcb f) = pcb_calls (u_pcb (a_unit s)) @ cs"
  shows "a_ccp (ccp_event base a s) = f" "u_pcb (a_unit (ccp_event base a s)) = f_pcb f"
    "a_net_calls (ccp_event base a s) = a_net_calls s @ (if Continue_networks \<in> set cs then [Ipcp_open] else [])"
    "Continue_networks \<notin> set cs \<Longrightarrow> a_np_open (ccp_event base a s) = a_np_open s"
    "a_np_open s = 0 \<Longrightarrow> u_calls (a_unit (ccp_event base a s)) = u_calls (a_unit s)"
proof -
  have "(a_ccp s)\<lparr>f_pcb := u_pcb (a_unit s)\<rparr> = a_ccp s" using assms(1) by simp
  then show "a_ccp (ccp_event base a s) = f" "u_pcb (a_unit (ccp_event base a s)) = f_pcb f"
    "a_net_calls (ccp_event base a s) = a_net_calls s @ (if Continue_networks \<in> set cs then [Ipcp_open] else [])"
    "Continue_networks \<notin> set cs \<Longrightarrow> a_np_open (ccp_event base a s) = a_np_open s"
    "a_np_open s = 0 \<Longrightarrow> u_calls (a_unit (ccp_event base a s)) = u_calls (a_unit s)"
    using assms(2,3) by (simp_all add: ccp_event_def Let_def continue_networks_def lcp_close_call_def)
qed

lemma honest_run:
  assumes "idle_link s0" "fresh_pcb (u_pcb (a_unit s0))" "netif_mtu (u_pcb (a_unit s0)) \<noteq> 0" "pcb_calls (u_pcb (a_unit s0)) = []"
    and "f_flags (a_ccp s0) = 0" "link_established base True mdtype s0 = Some s1" "CHAP_DIGEST mdtype = CHAP_MICROSOFT_V2"
    and "user = u_user (a_unit s0)" "user \<noteq> []" "length user < 2 ^ 31" "pw = text_octets (take MAXSECRETLEN (u_passwd (a_unit s0)))"
    and "length auth = 16" "length sname < 65000" "ce_alloc env" "ce_contiguous env" "pbuf_ok base" "peer_mru base \<ge> 10"
    and "peer = fst (magic_random_bytes 16 (a_magic s0))" "nt = rfc2759_NTResponse auth peer user pw"
    and "s2 = chap_input base env (chap_packet CHAP_CHALLENGE i (16 # auth @ sname)) s1"
    and "s3 = chap_input base env (chap_packet CHAP_SUCCESS i
               (text_octets ''S='' @ rfc2759_AuthenticatorResponse pw nt peer auth user)) s2"
    and "s4 = ccp_event base (Ccp_input (ccp_packet CONFREQ j)) s3"
    and "s5 = ccp_event base (Ccp_input (ccp_packet CONFACK (f_reqid (a_ccp s4)))) s4"
  shows "u_calls (a_unit s2) = u_calls (a_unit s1) @ [Link_write (response_packet i (49 # peer @ replicate 8 0 @ nt @ [0]) user)]
    \<and> u_phase (a_unit s3) = PPP_PHASE_NETWORK \<and> a_net_calls s4 = a_net_calls s1 \<and> a_net_calls s5 = a_net_calls s1 @ [Ipcp_open]
    \<and> f_state (a_ccp s5) = PPP_FSM_OPENED \<and> ccp_transmit_method (u_pcb (a_unit s5)) = CI_MPPE
    \<and> ccp_receive_method (u_pcb (a_unit s5)) = CI_MPPE \<and> pcb_calls (u_pcb (a_unit s5)) = [Continue_networks]
    \<and> u_calls (a_unit s1) = u_calls (a_unit s0) \<and> u_calls (a_unit s5) = u_calls (a_unit s2)"
proof -
  have un: "u_user (a_unit s0) \<noteq> []" using assms(8,9) by simp
  note c = established_client [OF assms(1,6) un] and i1 = established_inv(1) [OF assms(1,6)]
  note pr = established_proof [OF assms(1,6) un assms(7)]
  have n1: "chap_name (a_chap s1) = user" using c(1) assms(8) by simp
  have l1: "chap_digest (a_chap s1) = chapms2_digest" "chap_flags (a_chap s1) = 3" "length (magic_randpool (a_magic s1)) = 16"
      "length (chap_name (a_chap s1)) < 2 ^ 31" "length (chap_priv (a_chap s1)) = 64"
    using c assms(1,7,10) n1 V2_code by (auto simp: idle_link_def)
  note ch = challenge_step [OF l1 assms(12-15), of base i, unfolded n1 pr(2) c(4), folded assms(11), folded assms(18),
      folded assms(19), folded assms(20)]
  let ?d = "rfc2759_AuthenticatorResponse pw nt peer auth user" and ?S = "text_octets ''S=''"
  have sp: "server_proof pw user auth peer = ?d" using assms(19) by (simp add: server_proof_def)
  have i2: "auth_inv s2" unfolding assms(20) by (rule chap_input_inv [OF i1])
  have u2: "a_pending s2 = CHAP_WITHPEER" "a_net_calls s2 = a_net_calls s1" "a_ccp s2 = a_ccp s1"
    using c(6) by (simp_all add: assms(20) chap_input_def Let_def chap_packet_def CHAP_CHALLENGE_def CHAP_SUCCESS_def CHAP_FAILURE_def
        respond_step)
  have pv: "take 40 (chap_priv (a_chap s2)) = ?d" "length (chap_priv (a_chap s2)) = 64"
    using l1(5) ch(2) sp by (simp_all add: memcpy_at_def)
  note cp = chap_packet_fields [of "?S @ ?d" CHAP_SUCCESS i]
  have "chapms2_check_success (?S @ ?d) (chap_priv (a_chap s2))" using pv success_iff [of "chap_priv (a_chap s2)" "?S @ ?d"] by auto
  then have g: "good_status (chap_packet CHAP_SUCCESS i (?S @ ?d)) (a_chap s2)"
    using cp ch(2) l1(2) by (simp add: good_status_def CHAP_HDRLEN_def text_octets_def AUTH_DONE_def AUTH_STARTED_def LOWERUP_def)
  define pcb where "pcb = (u_pcb (a_unit s2))\<lparr>auth_done := chap_bit s2\<rparr>"
  define f where "f = (a_ccp s2)\<lparr>f_pcb := pcb\<rparr>"
  note st = success_step [OF i2 g u2(1), of base env, folded pcb_def, folded f_def, folded assms(21)]
  have fr: "fresh_pcb pcb" using assms(2) ch(3) c(11)
    by (simp add: pcb_def fresh_pcb_def engine_settings_def keyable_def rfc3079_StartKey_def Let_def)
  have fp: "f_pcb f = pcb" "f_state f = PPP_FSM_CLOSED" "f_flags f = 0" "mppe_keys_set pcb" "netif_mtu pcb \<noteq> 0" "pcb_calls pcb = []"
      "mschap_auths (auth_done pcb) = 1"
    using c(2,10,11) u2(3) ch(2,3) assms(3,4,5,7) l1(1) V2_counts by (simp_all add: f_def pcb_def chap_bit_def)
  have fi: "ccp_inv f" using fr fp(1,2) by (simp add: ccp_inv_def ccp_J_def ccp_D_def fresh_pcb_def zero_options_def)
  note o = ccp_open_request [OF fi fp(2,3) _ _ assms(16,17), unfolded fp(1), OF fp(4,7)]
  let ?f1 = "ccp_open base f"
  let ?f2 = "ccp_do base (Ccp_input (ccp_packet CONFREQ j)) ?f1"
  let ?f3 = "ccp_do base (Ccp_input (ccp_packet CONFACK (f_reqid ?f2))) ?f2"
  have h: "f_state ?f3 = PPP_FSM_OPENED" "ccp_transmit_method (f_pcb ?f3) = CI_MPPE" "ccp_receive_method (f_pcb ?f3) = CI_MPPE"
      "pcb_calls (f_pcb ?f2) = []" "pcb_calls (f_pcb ?f3) = [Continue_networks]"
    using ccp_honest_from [OF o(8) _ o(1-5), of base j] o(6,7) fp(5,6) by (simp_all add: Let_def)
  have e4: "a_ccp s4 = ?f2" "u_pcb (a_unit s4) = f_pcb ?f2" "a_net_calls s4 = a_net_calls s3" "a_np_open s4 = 0"
      "u_calls (a_unit s4) = u_calls (a_unit s3)"
    using ccp_event_fields [of s3 ?f2 base "Ccp_input (ccp_packet CONFREQ j)" "[]"] st(3,4,5) h(4) o(7) fp(6) assms(22) by simp_all
  have e5: "a_ccp s5 = ?f3" "u_pcb (a_unit s5) = f_pcb ?f3" "a_net_calls s5 = a_net_calls s4 @ [Ipcp_open]"
      "u_calls (a_unit s5) = u_calls (a_unit s4)"
    using ccp_event_fields [of s4 ?f3 base "Ccp_input (ccp_packet CONFACK (f_reqid ?f2))" "[Continue_networks]"] e4 h(4,5) assms(23)
    by simp_all
  show ?thesis using ch(1) st(1,2,7) u2(2) e4 e5 h c(12) by simp
qed

text \<open>C7: an honest server gets the client to IP over an encrypted link: after LCP is up, a challenge is answered with
  the RFC 2759 response for the user and the password, the server's authenticator response moves the link to the network
  phase without opening IPCP yet, and the two CCP packets for 128-bit MPPE then switch on encryption in both
  directions and open IPCP; the answer to the challenge is the only call into the rest of PPP in the whole run, and the
  request to start the networks the only one that CCP makes, so LCP is never told to close.\<close>

theorem honest_server_gets_ip:
  assumes "idle_link s0" "fresh_pcb (u_pcb (a_unit s0))" "netif_mtu (u_pcb (a_unit s0)) \<noteq> 0" "pcb_calls (u_pcb (a_unit s0)) = []"
    and "f_flags (a_ccp s0) = 0" "link_established base True mdtype s0 = Some s1" "CHAP_DIGEST mdtype = CHAP_MICROSOFT_V2"
    and "user = u_user (a_unit s0)" "user \<noteq> []" "length user < 2 ^ 31" "pw = text_octets (take MAXSECRETLEN (u_passwd (a_unit s0)))"
    and "length auth = 16" "length sname < 65000" "ce_alloc env" "ce_contiguous env" "pbuf_ok base" "peer_mru base \<ge> 10"
    and "peer = fst (magic_random_bytes 16 (a_magic s0))" "nt = rfc2759_NTResponse auth peer user pw"
    and "s2 = chap_input base env (chap_packet CHAP_CHALLENGE i (16 # auth @ sname)) s1"
    and "s3 = chap_input base env (chap_packet CHAP_SUCCESS i
               (text_octets ''S='' @ rfc2759_AuthenticatorResponse pw nt peer auth user)) s2"
    and "s4 = ccp_event base (Ccp_input (ccp_packet CONFREQ j)) s3"
    and "s5 = ccp_event base (Ccp_input (ccp_packet CONFACK (f_reqid (a_ccp s4)))) s4"
  shows "u_calls (a_unit s2) = u_calls (a_unit s1) @ [Link_write (response_packet i (49 # peer @ replicate 8 0 @ nt @ [0]) user)]
    \<and> u_phase (a_unit s3) = PPP_PHASE_NETWORK \<and> a_net_calls s4 = a_net_calls s1 \<and> a_net_calls s5 = a_net_calls s1 @ [Ipcp_open]
    \<and> f_state (a_ccp s5) = PPP_FSM_OPENED \<and> ccp_transmit_method (u_pcb (a_unit s5)) = CI_MPPE
    \<and> ccp_receive_method (u_pcb (a_unit s5)) = CI_MPPE \<and> pcb_calls (u_pcb (a_unit s5)) = [Continue_networks]
    \<and> u_calls (a_unit s1) = u_calls (a_unit s0) \<and> u_calls (a_unit s5) = u_calls (a_unit s2)"
  using assms by (rule honest_run)

text \<open>C39: every challenge that is ignored costs a pbuf: when the CHAP client gets a challenge that is too short for its
  own length octet, or one while it is not ready for challenges, the packet that was allocated for the answer is
  neither sent nor freed; n such packets hold n pbufs, and change nothing else.\<close>

theorem ignored_challenges_leak:
  assumes "ce_alloc env" "ce_contiguous env" "length d < 65532"
    and "length d < 2 \<or> length d \<le> unat (d ! 0) \<or> chap_flags (a_chap s) AND (LOWERUP OR AUTH_STARTED) \<noteq> LOWERUP OR AUTH_STARTED"
  shows "((chap_input base env (chap_packet CHAP_CHALLENGE i d)) ^^ n) s = s\<lparr>a_held_pbufs := a_held_pbufs s + n\<rparr>"
proof (induction n)
  case (Suc n)
  note f = chap_packet_fields [OF assms(3), of CHAP_CHALLENGE i]
  have "chap_input base env (chap_packet CHAP_CHALLENGE i d) t = chap_respond env i d (length d) t" for t
    using f by (simp add: chap_input_def CHAP_HDRLEN_def Let_def CHAP_CHALLENGE_def)
  moreover have "packet_mem env d 0 = d ! 0" if "\<not> length d < 2" using that by (auto simp: packet_mem_def)
  ultimately show ?case using assms Suc by (auto simp: chap_respond_def Let_def)
qed simp

lemma response_fits:
  "r ! 0 = 49 \<Longrightarrow> length r = 50 \<Longrightarrow> length (response_packet i r name) \<le> RESP_MAX_PKTLEN \<longleftrightarrow> length name \<le> 274"
  by (simp add: response_packet_def Let_def MAKEHEADER_def text_octets_def RESP_MAX_PKTLEN_def PPP_HDRLEN_def CHAP_HDRLEN_def
      MAX_RESPONSE_LEN_def MAXNAMELEN_def)

section \<open>A concrete link\<close>

definition demo_client :: auth_unit where
  "demo_client =
     \<lparr>a_unit = (zero_unit 1400)\<lparr>u_pcb := ppp_set_mppe (PPP_MPPE_ENABLE OR PPP_MPPE_REFUSE_40) (u_pcb (zero_unit 1400)),
        u_user := ''me'', u_passwd := ''pass''\<rparr>,
      a_ccp = ccp_init demo_base demo_ccp,
      a_chap = \<lparr>chap_flags = 0, chap_name = [], chap_digest = md5_digest, chap_priv = replicate 64 0\<rparr>,
      a_magic = demo_magic, a_pending = 0, a_np_open = 0, a_np_up = 0, a_net_calls = [], a_held_pbufs = 0, a_reports = []\<rparr>"

definition demo_link :: auth_unit where
  "demo_link = the (link_established demo_base True MDTYPE_MICROSOFT_V2 demo_client)"

definition demo_env :: chap_env where
  "demo_env = \<lparr>ce_alloc = True, ce_contiguous = True, ce_behind = (\<lambda>_. 0), ce_junk = 0, ce_link = ERR_OK\<rparr>"

lemma demo_digest [simp]: "CHAP_DIGEST MDTYPE_MICROSOFT_V2 = CHAP_MICROSOFT_V2"
  by (simp add: CHAP_DIGEST_def MDTYPE_MICROSOFT_V2_def MDTYPE_MD5_def)

lemma demo_fresh: "fresh_pcb (u_pcb (a_unit demo_client))" "pcb_calls (u_pcb (a_unit demo_client)) = []"
    "netif_mtu (u_pcb (a_unit demo_client)) = 1400" "\<not> mppe_keys_set (u_pcb (a_unit demo_client))"
  using engine_sets_mppe
  by (simp_all add: demo_client_def fresh_pcb_def zero_unit_def zero_options_def keyable_def zero_mppe_def blank_mppe_def,
      simp_all add: ppp_set_mppe_def)

lemma demo_user [simp]: "u_user (a_unit demo_client) = ''me''" "u_passwd (a_unit demo_client) = ''pass''"
    "chap_priv (a_chap demo_client) = replicate 64 0" "f_flags (a_ccp demo_client) = 0"
  by (simp_all add: demo_client_def ccp_init_def fsm_init_def)

lemma demo_idle: "idle_link demo_client"
  using demo_fresh(1,2)
  by (simp add: idle_link_def fresh_pcb_def zero_options_def) (simp add: demo_client_def ccp_init_def fsm_init_def demo_magic_def)

lemma demo_established: "link_established demo_base True MDTYPE_MICROSOFT_V2 demo_client = Some demo_link"
proof -
  have "chap_flags (a_chap demo_client) = 0" by (simp add: demo_client_def)
  then have "link_established demo_base True MDTYPE_MICROSOFT_V2 demo_client \<noteq> None"
    by (simp add: link_established_def Let_def chap_auth_with_peer_def chap_lowerup_def chap_digests_def LOWERUP_def AUTH_STARTED_def
        CHAP_MICROSOFT_V2_def CHAP_MICROSOFT_def CHAP_MD5_def)
  then show ?thesis by (auto simp: demo_link_def)
qed

lemma demo_base_ok [simp]: "pbuf_ok demo_base" "peer_mru demo_base = 1500" "ce_alloc demo_env" "ce_contiguous demo_env"
  by (simp_all add: demo_base_def demo_env_def)

definition zero_success :: octets where
  "zero_success = [CHAP_SUCCESS, 7, 0, 46] @ text_octets ''S='' @ replicate 40 0"

theorem success_without_challenge_witness:
  "u_phase (a_unit (chap_input demo_base demo_env zero_success demo_link)) = PPP_PHASE_NETWORK
   \<and> Ipcp_open \<notin> set (a_net_calls (chap_input demo_base demo_env zero_success demo_link))"
  using success_without_challenge [OF demo_idle demo_established demo_digest _ _ demo_fresh(4), of zero_success 7 _ demo_env]
  by (simp add: zero_success_def)

theorem ignored_challenges_leak_witness:
  "a_held_pbufs (((chap_input demo_base demo_env (chap_packet CHAP_CHALLENGE 1 [9, 9])) ^^ 5) demo_link) = a_held_pbufs demo_link + 5"
  using ignored_challenges_leak [of demo_env "[9, 9]" demo_link 5 demo_base 1] by simp

definition demo_auth :: octets where "demo_auth = replicate 16 3"

definition demo_success :: octets where
  "demo_success = (let peer = fst (magic_random_bytes 16 (a_magic demo_client)); pw = text_octets (take MAXSECRETLEN ''pass'')
     in chap_packet CHAP_SUCCESS 1 (text_octets ''S='' @
          rfc2759_AuthenticatorResponse pw (rfc2759_NTResponse demo_auth peer ''me'' pw) peer demo_auth ''me''))"

definition demo_s3 :: auth_unit where
  "demo_s3 = chap_input demo_base demo_env demo_success
     (chap_input demo_base demo_env (chap_packet CHAP_CHALLENGE 1 (16 # demo_auth @ [65])) demo_link)"

definition demo_s4 :: auth_unit where
  "demo_s4 = ccp_event demo_base (Ccp_input (ccp_packet CONFREQ 1)) demo_s3"

definition demo_s5 :: auth_unit where
  "demo_s5 = ccp_event demo_base (Ccp_input (ccp_packet CONFACK (f_reqid (a_ccp demo_s4)))) demo_s4"

lemmas demo_steps = demo_s3_def [unfolded demo_success_def Let_def] demo_s4_def demo_s5_def

lemma demo_lengths: "length demo_auth = 16" "length [65 :: u8] < 65000" "netif_mtu (u_pcb (a_unit demo_client)) \<noteq> 0"
    "''me'' \<noteq> []" "length ''me'' < 2 ^ 31" "10 \<le> peer_mru demo_base"
  using demo_fresh(3) by (simp_all add: demo_auth_def)

lemmas demo_premises = demo_idle demo_fresh(1) demo_lengths(3) demo_fresh(2) demo_user(4) demo_established demo_digest
  demo_user(1) [symmetric] demo_lengths(4,5) arg_cong [OF demo_user(2) [symmetric], of "\<lambda>x. text_octets (take MAXSECRETLEN x)"]
  demo_lengths(1,2) demo_base_ok(3,4,1) demo_lengths(6)

theorem honest_server_gets_ip_witness:
  "u_phase (a_unit demo_s3) = PPP_PHASE_NETWORK \<and> a_net_calls demo_s5 = a_net_calls demo_link @ [Ipcp_open]
   \<and> ccp_transmit_method (u_pcb (a_unit demo_s5)) = CI_MPPE"
  using honest_server_gets_ip [OF demo_premises refl refl refl demo_steps] by simp

lemma ccp_event_phase [simp]: "u_phase (a_unit (ccp_event base a s)) = u_phase (a_unit s)"
  by (simp add: ccp_event_def Let_def continue_networks_def lcp_close_call_def)

definition demo_events :: "(ccp_fsm fsm_env \<times> auth_event) list" where
  "demo_events = map (Pair demo_base)
     [Chap_packet demo_env (chap_packet CHAP_CHALLENGE 1 (16 # demo_auth @ [65])), Chap_packet demo_env demo_success,
      Ccp_event (Ccp_input (ccp_packet CONFREQ 1)), Ccp_event (Ccp_input (ccp_packet CONFACK (f_reqid (a_ccp demo_s4))))]"

lemma demo_run: "auth_run demo_events demo_link = demo_s5" "Ipcp_open \<in> set (a_net_calls demo_s5)"
proof -
  note h = honest_run [OF demo_premises refl refl refl demo_steps]
  show "Ipcp_open \<in> set (a_net_calls demo_s5)" using h by simp
  have "u_phase (a_unit demo_s3) = PPP_PHASE_NETWORK" using h by blast
  moreover from this have "u_phase (a_unit demo_s4) = PPP_PHASE_NETWORK" by (simp add: demo_s4_def)
  ultimately show "auth_run demo_events demo_link = demo_s5"
    by (simp add: auth_run_def auth_do_def demo_events_def demo_s3_def [symmetric] demo_s4_def [symmetric] demo_s5_def [symmetric])
qed

theorem ip_needs_authentication_witness:
  "auth_done (u_pcb (a_unit demo_s5)) = auth_bit PPP_CHAP (digest_code (chap_digest (a_chap demo_s5)))"
  using ip_needs_authentication [OF demo_idle demo_established refl, of demo_events] demo_run by simp

text \<open>The digits of the honest run are those that the client expects, for the challenge that it answered.\<close>

theorem network_needs_server_proof_witness:
  "\<exists>es1 e env p es2 digits. demo_events = es1 @ (e, Chap_packet env p) # es2 \<and> p ! 0 = CHAP_SUCCESS
     \<and> expects ''me'' (text_octets (take MAXSECRETLEN ''pass'')) demo_link es1 digits"
proof -
  have "u_phase (a_unit (auth_run demo_events demo_link)) \<noteq> PPP_PHASE_AUTHENTICATE
      \<or> Ipcp_open \<in> set (a_net_calls (auth_run demo_events demo_link))"
    using demo_run by simp
  from network_needs_server_proof [OF demo_idle demo_established demo_digest _ _ this]
  obtain es1 e env p es2 digits where "demo_events = es1 @ (e, Chap_packet env p) # es2" "p ! 0 = CHAP_SUCCESS"
    "expects ''me'' (text_octets (take MAXSECRETLEN ''pass'')) demo_link es1 digits" by auto
  then show ?thesis by blast
qed

end
