(* ===== verification/Ppp_Ipcp_Run.thy ===== *)
theory Ppp_Ipcp_Run
  imports Ppp_Ipcp_Correct Ppp_Auth_Correct
begin

text \<open>
  The negotiation of IPCP with an honest server, from \<open>ipcp_init\<close> to the interface that is up, and the properties of
  \<open>src/lwip/src/netif/ppp/ipcp.c\<close>.
\<close>

section \<open>The steps of the negotiation\<close>

text \<open>How far the negotiation with the server is.\<close>

definition ip_stage :: "ppp_state \<Rightarrow> auth_unit \<Rightarrow> ipcp_options \<Rightarrow> ipcp_options \<Rightarrow> ipcp_fsm \<Rightarrow> bool" where
  "ip_stage s a go ho f \<longleftrightarrow> f_state f = s \<and> \<not> f_seen_ack f \<and> f_maxnakloops f = 100 \<and> f_nakloops f = 0
     \<and> (let i = f_pcb f in i_auth i = a \<and> ipcp_wantoptions i = first_options \<and> ipcp_allowoptions i = client_allow
          \<and> ipcp_gotoptions i = go \<and> ipcp_hisoptions i = ho \<and> usepeerdns i \<and> \<not> noremoteip i)"

lemma resetci_client:
  assumes "asks_all (f_pcb f)"
  shows "f_pcb (ipcp_resetci f) = (f_pcb f)\<lparr>ipcp_wantoptions := first_options, ipcp_gotoptions := first_options, ipcp_hisoptions := no_options\<rparr>"
  using assms by (simp add: ipcp_resetci_def asks_all_def option_bits Let_def)

lemma open_stage:
  assumes "f_state f = PPP_FSM_CLOSED" "f_flags f = 0" "asks_all (f_pcb f)" "f_maxnakloops f = 100" "pbuf_ok base" "peer_mru base \<ge> 38"
  shows "ip_stage PPP_FSM_REQSENT (i_auth (f_pcb f)) first_options no_options (ipcp_open base f)" "f_rnakloops (ipcp_open base f) = 0"
proof -
  define i where "i = f_pcb (ipcp_resetci f)"
  have n: "\<not> negotiating (f_state f)" using assms(1) by (simp add: negotiating_def)
  note v = resetci_client [OF assms(3), folded i_def]
  have o: "old_forms i = ipcp_gotoptions i" by (simp add: v old_forms_def option_bits Let_def)
  have "i = (if negotiating (f_state f) then f_pcb f else f_pcb (ipcp_resetci f))" using n by (simp add: i_def)
  note s = sconfreq_ipcp [OF assms(5,6) o this]
  have e: "ipcp_open base f = on_pcb (\<lambda>i. i\<lparr>ipcp_is_open := True\<rparr>) (goto PPP_FSM_REQSENT (fsm_sconfreq (ipcp_callbacks base) False f))"
    using assms(1,2) by (simp add: ipcp_open_def fsm_open_def has_flag_def)
  show "ip_stage PPP_FSM_REQSENT (i_auth (f_pcb f)) first_options no_options (ipcp_open base f)" "f_rnakloops (ipcp_open base f) = 0"
    using s n assms(3,4) by (simp_all add: e ip_stage_def goto_def on_pcb_def v asks_all_def)
qed

lemma nak_stage:
  assumes "ip_stage PPP_FSM_REQSENT au first_options no_options f" "f_rnakloops f = 0" "a \<noteq> 0" "pbuf_ok base" "peer_mru base \<ge> 38"
  shows "ip_stage PPP_FSM_REQSENT au (first_options\<lparr>ouraddr := a, dnsaddr0 := d1, dnsaddr1 := d2\<rparr>) no_options
    (ipcp_input base (ipcp_packet CONFNAK (f_reqid f) (ci_addr CI_ADDR a @ ci_addr CI_MS_DNS1 d1 @ ci_addr CI_MS_DNS2 d2)) f)"
proof -
  let ?d = "ci_addr CI_ADDR a @ ci_addr CI_MS_DNS1 d1 @ ci_addr CI_MS_DNS2 d2" and ?env = "ipcp_callbacks base"
  let ?go = "first_options\<lparr>ouraddr := a, dnsaddr0 := d1, dnsaddr1 := d2\<rparr>"
  define f1 where "f1 = on_pcb (\<lambda>i. i\<lparr>ipcp_gotoptions := ?go\<rparr>) (count_nak CONFNAK f)"
  have st: "f_state f = PPP_FSM_REQSENT" "f_maxnakloops f = 100" "\<not> f_seen_ack f" "ipcp_gotoptions (f_pcb f) = first_options"
    using assms(1) by (simp_all add: ip_stage_def Let_def)
  have l: "length ?d < 65000" by (simp add: lens CILEN_ADDR_def)
  have "ipcp_nakci (count_nak CONFNAK f) ?d False = (1, f1)"
    unfolding f1_def using st assms(3) by (intro nakci_addresses) (simp_all add: count_nak_def)
  then have r: "nakrej_result ?env CONFNAK ?d (count_nak CONFNAK f) = (1, f1)"
    using st(2) assms(2) by (simp add: nakrej_result_def ipcp_table, simp add: count_nak_def word_le_nat_alt)
  have i: "ipcp_input base (ipcp_packet CONFNAK (f_reqid f) ?d) f = fsm_rconfnakrej ?env CONFNAK (f_reqid f) ?d f"
    using packet_input [OF _ _ l, of f ?env CONFNAK] st(1) by (simp add: ipcp_input_def fsm_dispatch_def fsm_codes)
  define g where "g = UNTIMEOUT (f1\<lparr>f_seen_ack := True\<rparr>)"
  have e: "fsm_rconfnakrej ?env CONFNAK (f_reqid f) ?d f = fsm_sconfreq ?env False g"
    using st r by (simp add: fsm_rconfnakrej_def g_def, simp add: f1_def count_nak_def on_pcb_def)
  have gs: "f_state g = PPP_FSM_REQSENT" "f_maxnakloops g = 100" "f_nakloops g = 0" "f_pcb g = f_pcb f1"
    using assms(1) by (simp_all add: g_def f1_def UNTIMEOUT_def note_event_def count_nak_def on_pcb_def ip_stage_def)
  have p: "f_pcb f1 = (f_pcb f)\<lparr>ipcp_gotoptions := ?go\<rparr>" by (simp add: f1_def on_pcb_def count_nak_def)
  have o: "old_forms (f_pcb g) = ipcp_gotoptions (f_pcb g)"
    using assms(1) by (simp add: gs(4) p old_forms_def ip_stage_def Let_def option_bits)
  have "f_pcb g = (if negotiating (f_state g) then f_pcb g else f_pcb (ipcp_resetci g))" by (simp add: gs(1) negotiating_def)
  note s = sconfreq_ipcp [OF assms(4,5) o this]
  show ?thesis unfolding i e
    using s gs p assms(1) by (simp add: ip_stage_def Let_def negotiating_def)
qed

lemma request_stage:
  assumes "ip_stage PPP_FSM_REQSENT au go no_options f" "b \<noteq> 0"
  shows "ip_stage PPP_FSM_ACKSENT au go (no_options\<lparr>neg_addr := True, hisaddr := b\<rparr>)
    (ipcp_input base (ipcp_packet CONFREQ k (ci_addr CI_ADDR b)) f)"
proof -
  let ?d = "ci_addr CI_ADDR b" and ?env = "ipcp_callbacks base"
  let ?f = "f\<lparr>f_pcb := (f_pcb f)\<lparr>ipcp_hisoptions := no_options\<lparr>neg_addr := True, hisaddr := b\<rparr>\<rparr>\<rparr>"
  have st: "f_state f = PPP_FSM_REQSENT" "f_maxnakloops f = 100" "f_nakloops f = 0"
    using assms(1) by (simp_all add: ip_stage_def Let_def)
  have l: "length ?d < 65000" by (simp add: lens CILEN_ADDR_def)
  have i: "ipcp_input base (ipcp_packet CONFREQ k ?d) f = answer_confreq ?env k ?d f"
    using packet_input [OF _ _ l, of f ?env CONFREQ] st(1)
    by (simp add: ipcp_input_def fsm_dispatch_def fsm_rconfreq_def before_answer_def)
  have "ipcp_reqci f ?d False = ((CONFACK, ?d), ?f)"
    using assms by (intro reqci_address) (simp_all add: ip_stage_def Let_def option_bits)
  then have r: "reqci_answer ?env ?d f = ((CONFACK, ?d), ?f)" using st by (simp add: reqci_answer_def ipcp_table)
  show ?thesis unfolding i answer_confreq_def r
    using assms(1) by (simp add: ip_stage_def Let_def goto_def fsm_sdata_def note_event_def)
qed

lemma ack_stage:
  assumes "ip_stage PPP_FSM_ACKSENT au go ho f"
  shows "\<exists>g. ipcp_input base (ipcp_packet CONFACK (f_reqid f) (own_options go)) f = ipcp_up base g
    \<and> f_state g = PPP_FSM_OPENED \<and> f_pcb g = f_pcb f"
proof -
  let ?env = "ipcp_callbacks base"
  let ?g = "note_event Up ((goto PPP_FSM_OPENED (UNTIMEOUT (f\<lparr>f_seen_ack := True, f_rnakloops := 0\<rparr>)))\<lparr>f_retransmits := max_conf_req_transmits ?env\<rparr>)"
  have st: "f_state f = PPP_FSM_ACKSENT" "\<not> f_seen_ack f" "ipcp_gotoptions (f_pcb f) = go"
    using assms by (simp_all add: ip_stage_def Let_def)
  have l: "length (own_options go) < 65000" using own_length_le [of go] by (simp add: length_own)
  have "ipcp_input base (ipcp_packet CONFACK (f_reqid f) (own_options go)) f = fsm_rconfack ?env (f_reqid f) (own_options go) f"
    using packet_input [OF _ _ l, of f ?env CONFACK] st(1) by (simp add: ipcp_input_def fsm_dispatch_def fsm_codes)
  also have "\<dots> = ipcp_up base ?g"
    using st ackci_iff [of f "own_options go"]
    by (simp add: fsm_rconfack_def ack_ok_def ipcp_table call_back_def note_event_def Let_def)
  finally show ?thesis by (intro exI [of _ ?g]) (simp add: goto_def note_event_def UNTIMEOUT_def)
qed

lemma up_client:
  assumes "ipcp_gotoptions (f_pcb g) = first_options\<lparr>ouraddr := a, dnsaddr0 := d1, dnsaddr1 := d2\<rparr>" "a \<noteq> 0"
    and "ipcp_hisoptions (f_pcb g) = no_options\<lparr>neg_addr := True, hisaddr := b\<rparr>" "b \<noteq> 0" "\<not> unauthorized (lwip_htonl b)"
    and "usepeerdns (f_pcb g)" "d1 \<noteq> 0"
  shows "ipcp_up base g = g\<lparr>f_pcb := configure ((f_pcb g)\<lparr>i_auth := on_unit (sdns d1 d2) (i_auth (f_pcb g))\<rparr>)\<rparr>"
proof -
  have h: "settle_his (f_pcb g) = f_pcb g" using assms(3,4) by (simp add: settle_his_def)
  have d: "settle_dns (f_pcb g) = (f_pcb g)\<lparr>i_auth := on_unit (sdns d1 d2) (i_auth (f_pcb g))\<rparr>"
    using assms(1,6,7) by (simp add: settle_dns_def Let_def option_bits on_auth_def)
  have n: "neg_addr (ipcp_gotoptions (f_pcb g))" "ouraddr (ipcp_gotoptions (f_pcb g)) \<noteq> 0"
    using assms(1,2) by (simp_all add: option_bits)
  show ?thesis using n assms(3,5) by (simp add: ipcp_up_def Let_def h d)
qed

text \<open>What \<open>ipcp_init\<close> makes of a control block whose options are zero.\<close>

definition fresh_client :: "ip_unit \<Rightarrow> bool" where
  "fresh_client i \<longleftrightarrow> ipcp_wantoptions i = no_options \<and> ipcp_allowoptions i = no_options
     \<and> usepeerdns i \<and> \<not> noremoteip i \<and> \<not> ask_for_local i"

lemma init_client:
  fixes base
  assumes "fresh_client (f_pcb f)"
  defines "g \<equiv> ipcp_lowerup base (ipcp_init base f)"
  shows "f_state g = PPP_FSM_CLOSED" "f_flags g = 0" "asks_all (f_pcb g)" "f_maxnakloops g = 100" "i_auth (f_pcb g) = i_auth (f_pcb f)"
  using assms(1)
  by (simp_all add: g_def ipcp_lowerup_def ipcp_init_def fsm_lowerup_def fsm_init_def on_pcb_def goto_def Let_def fresh_client_def
      asks_all_def client_want_def client_allow_def)

lemma own_request:
  assumes "ip_stage s au go ho f" "neg_vj go" "neg_addr ho"
  shows "fst (ipcp_addci f (fst (ipcp_cilen f))) = own_options go"
proof -
  have "old_forms (f_pcb f) = go" using assms by (simp add: ip_stage_def Let_def old_forms_def)
  then show ?thesis using addci_full [of f "own_length go"] assms(1) by (simp add: ipcp_cilen_def ip_stage_def Let_def)
qed

lemma configured_phase: "a_np_up (i_auth i) = 0 \<Longrightarrow> u_phase (a_unit (i_auth (configure i))) = PPP_PHASE_RUNNING" "ipcp_is_up (configure i)"
  by (simp_all add: configure_def Let_def np_up_def on_unit_def new_phase_def)

section \<open>Properties\<close>

lemma reply_length:
  assumes "judge_all (ipcp_req_option dn) dn st p = (js, i)" "worst js \<noteq> CONFACK"
  shows "length (picked (worst js) js) \<le> length p"
proof -
  obtain rc buf retp i1 where o: "opt_scan (ipcp_req_option dn) dn st p 0 (length p) CONFACK 0 = (rc, buf, retp, i1)" by (metis prod.exhaust)
  note r = ipcp_walk.scan_reply [OF o assms(1)]
  have "length (take retp buf) \<le> length p" using r(6) by simp
  then show ?thesis using r(2,4) assms(2) by simp
qed

text \<open>C27: An acknowledgement of our IPCP request is accepted if and only if it repeats, octet for octet, the request that was
  written, which has the announced length.
\<close>

theorem ipcp_ack_exact:
  assumes "ipcp_cilen f = (m, f1)" "m \<le> n" "ipcp_addci f1 n = (req, f2)"
  shows "length req = m \<and> (ipcp_ackci f2 p \<longleftrightarrow> p = req)"
proof -
  have c: "m = own_length (old_forms (f_pcb f))" "ipcp_gotoptions (f_pcb f1) = old_forms (f_pcb f)"
    using assms(1) by (auto simp: ipcp_cilen_def Let_def)
  have "(req, f2) = (own_options (old_forms (f_pcb f)), f1)"
    using addci_full [of f1 n] assms(2,3) c by simp
  then show ?thesis using c by (simp add: length_own ackci_iff)
qed

text \<open>C26: The reply to a request of the peer: with the verdicts on its options, one after the other, the reply is a Nak that asks the
  peer for its address exactly when no option was rejected, the peer named no address, we want it to, it may not
  go without one (\<open>noremoteip\<close>) and Naks are still allowed; it holds exactly the options the peer should change, followed by that question,
  and if nothing else was wrong the question is not asked again. In every other case the reply is the worst verdict: an Ack
  repeats the request, and every option was accepted; a Nak or a Reject holds exactly the options with that verdict.
  The reply is at most as long as the request, six octets longer with the question.
\<close>

theorem ipcp_reqci_reply:
  assumes "judge_all (ipcp_req_option dn) dn ((f_pcb f)\<lparr>ipcp_hisoptions := no_options\<rparr>) p = (js, i)"
    and "ipcp_reqci f p dn = ((rc, out), f')"
    and "ask \<longleftrightarrow> worst js \<noteq> CONFREJ \<and> \<not> neg_addr (ipcp_hisoptions i) \<and> \<not> old_addrs (ipcp_hisoptions i)
           \<and> req_addr (ipcp_wantoptions i) \<and> \<not> dn \<and> \<not> noremoteip i"
  shows "(ask \<longrightarrow> rc = CONFNAK \<and> out = picked CONFNAK js @ ci_addr CI_ADDR (hisaddr (ipcp_wantoptions i))
           \<and> f' = f\<lparr>f_pcb := (if all_acked js then set_want (\<lambda>w. w\<lparr>req_addr := False\<rparr>) i else i)\<rparr>)
    \<and> (\<not> ask \<longrightarrow> rc = worst js \<and> out = (if all_acked js then p else picked rc js) \<and> f' = f\<lparr>f_pcb := i\<rparr>)
    \<and> (worst js = CONFACK \<longleftrightarrow> all_acked js) \<and> is_verdict rc \<and> length out \<le> length p + (if ask then 6 else 0)"
proof -
  have ne: "CONFNAK \<noteq> CONFACK" "CONFNAK \<noteq> CONFREJ" "CONFREJ \<noteq> CONFACK" "is_verdict CONFNAK" by (simp_all add: fsm_codes is_verdict_def)
  have "worst js = CONFACK" if "all_acked js"
  proof -
    have "CONFREJ \<notin> fst ` set js" "CONFNAK \<notin> fst ` set js" using that ne(1,3) by (auto simp: all_acked_def)
    then show ?thesis by (simp add: worst_def)
  qed
  then have w: "worst js = CONFACK \<longleftrightarrow> all_acked js" using worst_acked [of js] ipcp_walk.all_verdicts [OF assms(1)] by blast
  have none: "picked CONFNAK js = []" if "all_acked js"
    using that by (induction js) (auto simp: all_acked_def fsm_codes)
  note l = reply_length [OF assms(1)]
  show ?thesis
  proof (cases ask)
    case True
    then have r: "rc = CONFNAK" "out = (if worst js = CONFACK then [] else picked CONFNAK js) @ ci_addr CI_ADDR (hisaddr (ipcp_wantoptions i))"
        "f' = f\<lparr>f_pcb := (if all_acked js then set_want (\<lambda>w. w\<lparr>req_addr := False\<rparr>) i else i)\<rparr>"
      using reqci_walk [OF assms(1)] assms(2,3) by (simp_all add: w)
    have n: "worst js = CONFACK \<or> worst js = CONFNAK" using True assms(3) worst_verdict [of js] by (auto simp: is_verdict_def)
    have "out = picked CONFNAK js @ ci_addr CI_ADDR (hisaddr (ipcp_wantoptions i))" using r(2) w none by auto
    moreover have "length (picked CONFNAK js) \<le> length p" using n l w none ne by auto
    ultimately show ?thesis using True r(1,3) ne w by (simp add: lens CILEN_ADDR_def)
  next
    case False
    then have r: "rc = worst js" "out = (if worst js = CONFACK then p else picked (worst js) js)" "f' = f\<lparr>f_pcb := i\<rparr>"
      using reqci_walk [OF assms(1)] assms(2,3) by (simp_all add: if_not_P)
    moreover have "length out \<le> length p" using r(2) l by (cases "worst js = CONFACK") simp_all
    ultimately show ?thesis using False w by simp
  qed
qed

text \<open>C10: When IPCP has been opened, either the IPv4 interface is up with the negotiated address of ours, which is not zero, and
  an address of the server that is not a loopback, multicast or reserved one; or IPCP is being closed and the interface is down
  without an address.
\<close>

theorem ipcp_up_addresses:
  assumes "f_state f = PPP_FSM_OPENED" "f' = ipcp_up base f" "u = a_unit (i_auth (f_pcb f'))"
  shows "f_state f' = PPP_FSM_OPENED \<and> if4_up (u_pcb u) \<and> u_ip u = ouraddr (ipcp_gotoptions (f_pcb f)) \<and> u_ip u \<noteq> 0
      \<and> u_gw u = hisaddr (ipcp_hisoptions (f_pcb f')) \<and> peer_address_ok (u_gw u)
    \<or> f_state f' \<in> {PPP_FSM_CLOSING, PPP_FSM_CLOSED} \<and> interface_down (f_pcb f')"
  using up_cases [of base f]
proof (elim disjE exE conjE)
  fix r x assume "ipcp_up base f = ipcp_close base r (f\<lparr>f_pcb := x\<rparr>)"
  then show ?thesis using close_opened [of "f\<lparr>f_pcb := x\<rparr>" base r] assms(1,2) by simp
next
  fix i assume "ipcp_up base f = f\<lparr>f_pcb := configure i\<rparr>" "ouraddr (ipcp_gotoptions i) = ouraddr (ipcp_gotoptions (f_pcb f))"
    "ouraddr (ipcp_gotoptions i) \<noteq> 0" "peer_address_ok (hisaddr (ipcp_hisoptions i))"
  then show ?thesis using assms configured [of i] by simp
qed

text \<open>C9: With an honest server the negotiation of addresses ends in the interface being up. From a fresh control block, \<open>ipcp_init\<close>,
  the lower layer coming up and \<open>ipcp_open\<close> send a request; a server that names our address and the name servers in a Nak, asks for
  its own address and acknowledges our second request gets IPCP opened with exactly these addresses on the interface, and the
  link is in the running phase.
\<close>

theorem ipcp_honest_run:
  assumes "fresh_client (f_pcb f0)" "pbuf_ok base" "peer_mru base \<ge> 38" "a \<noteq> 0" "d1 \<noteq> 0" "b \<noteq> 0" "\<not> unauthorized (lwip_htonl b)"
    and "a_np_up (i_auth (f_pcb f0)) = 0"
    and "f1 = ipcp_open base (ipcp_lowerup base (ipcp_init base f0))"
    and "f2 = ipcp_input base (ipcp_packet CONFNAK (f_reqid f1) (ci_addr CI_ADDR a @ ci_addr CI_MS_DNS1 d1 @ ci_addr CI_MS_DNS2 d2)) f1"
    and "f3 = ipcp_input base (ipcp_packet CONFREQ k (ci_addr CI_ADDR b)) f2"
    and "f4 = ipcp_input base (ipcp_packet CONFACK (f_reqid f3) (fst (ipcp_addci f3 (fst (ipcp_cilen f3))))) f3"
    and "u = a_unit (i_auth (f_pcb f4))"
  shows "f_state f4 = PPP_FSM_OPENED \<and> ipcp_is_up (f_pcb f4) \<and> if4_up (u_pcb u) \<and> u_ip u = a \<and> u_gw u = b \<and> u_dns u = (d1, d2)
    \<and> u_phase u = PPP_PHASE_RUNNING"
proof -
  let ?go = "first_options\<lparr>ouraddr := a, dnsaddr0 := d1, dnsaddr1 := d2\<rparr>" and ?ho = "no_options\<lparr>neg_addr := True, hisaddr := b\<rparr>"
  let ?au = "i_auth (f_pcb f0)"
  note c = init_client [OF assms(1), of base]
  have s1: "ip_stage PPP_FSM_REQSENT ?au first_options no_options f1" "f_rnakloops f1 = 0"
    using open_stage [OF c(1-4) assms(2,3)] unfolding assms(9) c(5) by blast+
  have s2: "ip_stage PPP_FSM_REQSENT ?au ?go no_options f2"
    unfolding assms(10) by (rule nak_stage [OF s1 assms(4,2,3)])
  have s3: "ip_stage PPP_FSM_ACKSENT ?au ?go ?ho f3"
    unfolding assms(11) by (rule request_stage [OF s2 assms(6)])
  have "fst (ipcp_addci f3 (fst (ipcp_cilen f3))) = own_options ?go"
    by (rule own_request [OF s3]) (simp_all add: option_bits)
  with ack_stage [OF s3, of base] assms(12) obtain g where g: "f4 = ipcp_up base g" "f_state g = PPP_FSM_OPENED" "f_pcb g = f_pcb f3"
    by auto
  have p: "i_auth (f_pcb g) = ?au" "ipcp_gotoptions (f_pcb g) = ?go" "ipcp_hisoptions (f_pcb g) = ?ho" "usepeerdns (f_pcb g)"
    using s3 unfolding g(3) by (simp_all add: ip_stage_def Let_def)
  define i where "i = (f_pcb g)\<lparr>i_auth := on_unit (sdns d1 d2) ?au\<rparr>"
  have f4: "f4 = g\<lparr>f_pcb := configure i\<rparr>"
    unfolding g(1) i_def p(1) [symmetric] by (rule up_client [OF p(2) assms(4) p(3) assms(6,7) p(4) assms(5)])
  have i: "a_np_up (i_auth i) = 0" "ipcp_gotoptions i = ?go" "ipcp_hisoptions i = ?ho" "u_dns (a_unit (i_auth i)) = (d1, d2)"
    using p(2,3) assms(8) by (simp_all add: i_def on_unit_def sdns_def)
  show ?thesis
    using g(2) configured [of i] configured_phase [of i] i by (simp add: assms(13) f4)
qed

section \<open>A concrete link\<close>

definition demo_ip_base :: "ipcp_fsm fsm_env" where
  "demo_ip_base = \<lparr>max_conf_req_transmits = 10, max_term_transmits = 2, max_nak_loops = 5, peer_mru = 1500, pbuf_ok = True,
     cb_resetci = None, cb_cilen = None, cb_addci = None, cb_ackci = None, cb_nakci = None, cb_rejci = None,
     cb_reqci = None, cb_up = None, cb_down = None, cb_starting = None, cb_finished = None, cb_retransmit = None,
     cb_extcode = None\<rparr>"

definition demo_ip :: ipcp_fsm where
  "demo_ip = fsm.extend demo_fsm (pfsm.fields \<lparr>i_auth = demo_client, ipcp_wantoptions = no_options, ipcp_gotoptions = no_options,
     ipcp_allowoptions = no_options, ipcp_hisoptions = no_options, ipcp_is_open = False, ipcp_is_up = False,
     usepeerdns = True, noremoteip = False, ask_for_local = False\<rparr>)"

lemma demo_ip_fresh: "fresh_client (f_pcb demo_ip)" "a_np_up (i_auth (f_pcb demo_ip)) = 0" "pbuf_ok demo_ip_base" "38 \<le> peer_mru demo_ip_base"
  by (simp_all add: demo_ip_def fresh_client_def fsm.defs pfsm.defs demo_client_def demo_ip_base_def)

lemma demo_server: "\<not> unauthorized (lwip_htonl 0x0100000a)"
  by (simp add: unauthorized_def IP_LOOPBACKNET_def IP_MULTICAST_def IP_BADCLASS_def lwip_htonl_def)

definition demo_asks :: ipcp_fsm where
  "demo_asks = demo_ip\<lparr>f_pcb := (f_pcb demo_ip)\<lparr>ipcp_gotoptions := no_options\<lparr>neg_addr := True, ouraddr := 0x0200000a\<rparr>\<rparr>\<rparr>"

theorem ipcp_ack_exact_witness:
  "ipcp_ackci demo_asks [3, 6, 10, 0, 0, 2] \<and> \<not> ipcp_ackci demo_asks [3, 6, 10, 0, 0, 3]"
proof -
  have w: "ipcp_wantoptions (f_pcb demo_ip) = no_options" using demo_ip_fresh(1) by (simp add: fresh_client_def)
  have "old_forms (f_pcb demo_asks) = ipcp_gotoptions (f_pcb demo_asks)"
    by (simp add: old_forms_def demo_asks_def w Let_def no_options_def)
  then have c: "ipcp_cilen demo_asks = (6, demo_asks)"
    by (simp add: ipcp_cilen_def Let_def on_pcb_def, simp add: demo_asks_def own_length_def no_options_def CILEN_ADDR_def)
  have "ipcp_addci demo_asks 6 = (own_options (ipcp_gotoptions (f_pcb demo_asks)), demo_asks)"
    by (rule addci_full) (simp add: demo_asks_def own_length_def no_options_def CILEN_ADDR_def)
  then have a: "ipcp_addci demo_asks 6 = ([3, 6, 10, 0, 0, 2], demo_asks)"
    by (simp add: demo_asks_def own_options_def no_options_def ci_addr_def CI_ADDR_def CILEN_ADDR_def put_long_def lwip_htonl_def
        hi8_def lo8_def)
  show ?thesis
    using ipcp_ack_exact [OF c order_refl a, of "[3, 6, 10, 0, 0, 2]"] ipcp_ack_exact [OF c order_refl a, of "[3, 6, 10, 0, 0, 3]"] by simp
qed

text \<open>A client that wants the peer to name its address gets an empty request and asks; an unknown option is rejected.\<close>

theorem ipcp_reqci_reply_witness:
  "fst (ipcp_reqci demo_ip [9, 2] False) = (CONFREJ, [9, 2])
   \<and> fst (ipcp_reqci (on_pcb (set_want (\<lambda>w. w\<lparr>req_addr := True\<rparr>)) demo_ip) [] False) = (CONFNAK, ci_addr CI_ADDR 0)"
proof
  let ?i = "(f_pcb demo_ip)\<lparr>ipcp_hisoptions := no_options\<rparr>"
  have "judge_front (ipcp_req_option False) False ?i [9, 2] = (CONFREJ, [9, 2], 2, ?i)"
    by (simp add: judge_front_def bad_option_def ipcp_req_option_def ci_codes)
  then have j: "judge_all (ipcp_req_option False) False ?i [9, 2] = ([(CONFREJ, [9, 2])], ?i)"
    by (simp add: judge_all.simps)
  obtain out rc f' where r: "ipcp_reqci demo_ip [9, 2] False = ((rc, out), f')" by (metis prod.exhaust)
  from ipcp_reqci_reply [OF j r refl] show "fst (ipcp_reqci demo_ip [9, 2] False) = (CONFREJ, [9, 2])"
    by (simp add: r worst_def all_acked_def fsm_codes)
  let ?f = "on_pcb (set_want (\<lambda>w. w\<lparr>req_addr := True\<rparr>)) demo_ip"
  have j0: "judge_all (ipcp_req_option False) False ((f_pcb ?f)\<lparr>ipcp_hisoptions := no_options\<rparr>) [] = ([], (f_pcb ?f)\<lparr>ipcp_hisoptions := no_options\<rparr>)"
    by (simp add: judge_all.simps)
  obtain out rc f' where r: "ipcp_reqci ?f [] False = ((rc, out), f')" by (metis prod.exhaust)
  have w: "hisaddr (ipcp_wantoptions (f_pcb demo_ip)) = 0" "\<not> noremoteip (f_pcb ?f)"
    using demo_ip_fresh(1) by (simp_all add: fresh_client_def set_want_def on_pcb_def no_options_def)
  from ipcp_reqci_reply [OF j0 r refl] show "fst (ipcp_reqci ?f [] False) = (CONFNAK, ci_addr CI_ADDR 0)"
    unfolding r using w by (simp add: worst_def no_options_def fsm_codes)
qed

theorem ipcp_up_addresses_witness:
  "interface_down (f_pcb (ipcp_up demo_ip_base (demo_ip\<lparr>f_state := PPP_FSM_OPENED\<rparr>)))"
proof -
  have o: "ouraddr (ipcp_gotoptions (f_pcb demo_ip)) = 0"
    by (simp add: demo_ip_def fsm.defs pfsm.defs no_options_def)
  show ?thesis
    using ipcp_up_addresses [of "demo_ip\<lparr>f_state := PPP_FSM_OPENED\<rparr>", OF _ refl refl, of demo_ip_base] by (auto simp: o)
qed

definition demo_ip1 :: ipcp_fsm where
  "demo_ip1 = ipcp_open demo_ip_base (ipcp_lowerup demo_ip_base (ipcp_init demo_ip_base demo_ip))"

definition demo_ip2 :: ipcp_fsm where
  "demo_ip2 = ipcp_input demo_ip_base (ipcp_packet CONFNAK (f_reqid demo_ip1)
     (ci_addr CI_ADDR 0x0200000a @ ci_addr CI_MS_DNS1 0x08080808 @ ci_addr CI_MS_DNS2 0x04040808)) demo_ip1"

definition demo_ip3 :: ipcp_fsm where
  "demo_ip3 = ipcp_input demo_ip_base (ipcp_packet CONFREQ 1 (ci_addr CI_ADDR 0x0100000a)) demo_ip2"

definition demo_ip4 :: ipcp_fsm where
  "demo_ip4 = ipcp_input demo_ip_base (ipcp_packet CONFACK (f_reqid demo_ip3) (fst (ipcp_addci demo_ip3 (fst (ipcp_cilen demo_ip3))))) demo_ip3"

theorem ipcp_honest_run_witness:
  "f_state demo_ip4 = PPP_FSM_OPENED \<and> u_ip (a_unit (i_auth (f_pcb demo_ip4))) = 0x0200000a \<and> u_gw (a_unit (i_auth (f_pcb demo_ip4))) = 0x0100000a"
  using ipcp_honest_run [OF demo_ip_fresh(1,3,4) _ _ _ demo_server demo_ip_fresh(2) demo_ip1_def demo_ip2_def demo_ip3_def demo_ip4_def refl]
  by simp

end
