(* ===== verification/Ppp_Lcp.thy ===== *)
theory Ppp_Lcp
  imports Ppp_Options Ppp_Auth Ppp_Ipcp
begin

text \<open>
  LCP, the negotiation of the link: \<open>src/lwip/src/netif/ppp/lcp.c\<close> as a client of the automaton of \<open>fsm.c\<close>, with
  \<open>auth.c\<close> above it. Callbacks of LCP call the automaton again: \<open>lcp_finished\<close> takes the lower layer down and \<open>lcp_nakci\<close> may
  close the link. The callbacks come in three layers, each with those that the next one needs. What \<open>auth.c\<close> and CCP
  ask of LCP while LCP calls them is recorded, as there.
\<close>

section \<open>Data\<close>

definition CI_MRU :: u8 where "CI_MRU = 1"
definition CI_ASYNCMAP :: u8 where "CI_ASYNCMAP = 2"
definition CI_AUTHTYPE :: u8 where "CI_AUTHTYPE = 3"
definition CI_MAGICNUMBER :: u8 where "CI_MAGICNUMBER = 5"
definition CI_PCOMPRESSION :: u8 where "CI_PCOMPRESSION = 7"
definition CI_ACCOMPRESSION :: u8 where "CI_ACCOMPRESSION = 8"
definition CI_CALLBACK :: u8 where "CI_CALLBACK = 13"
definition CI_SSNHF :: u8 where "CI_SSNHF = 18"
definition CI_EPDISC :: u8 where "CI_EPDISC = 19"
definition CBCP_OPT :: u8 where "CBCP_OPT = 6"
definition PROTREJ :: u8 where "PROTREJ = 8"
definition ECHOREQ :: u8 where "ECHOREQ = 9"
definition ECHOREP :: u8 where "ECHOREP = 10"
definition DISCREQ :: u8 where "DISCREQ = 11"
definition IDENTIF :: u8 where "IDENTIF = 12"
definition TIMEREM :: u8 where "TIMEREM = 13"
definition CILEN_CHAR :: nat where "CILEN_CHAR = 3"
definition CILEN_SHORT :: nat where "CILEN_SHORT = 4"
definition CILEN_CHAP :: nat where "CILEN_CHAP = 5"
definition CILEN_LONG :: nat where "CILEN_LONG = 6"
definition MAX_ENDP_LEN :: nat where "MAX_ENDP_LEN = 20"
definition PPP_DEFMRU :: u16 where "PPP_DEFMRU = 1500"
definition PPP_MRU :: u16 where "PPP_MRU = 1500"
definition PPP_MAXMRU :: u16 where "PPP_MAXMRU = 1500"
definition PPP_MINMRU :: u16 where "PPP_MINMRU = 128"
definition DELAYED_UP :: u8 where "DELAYED_UP = 0x80"

record epdisc =
  ep_class :: u8
  ep_length :: u8
  ep_value :: octets

record lcp_options =
  lcp_passive :: bool
  lcp_silent :: bool
  neg_mru :: bool
  neg_asyncmap :: bool
  neg_chap :: bool
  neg_magicnumber :: bool
  neg_pcompression :: bool
  neg_accompression :: bool
  neg_cbcp :: bool
  neg_ssnhf :: bool
  neg_endpoint :: bool
  mru :: u16
  chap_mdtype :: u8
  asyncmap :: u32
  magicnumber :: u32
  numloops :: u8
  endpoint :: epdisc

definition no_lcp :: lcp_options where
  "no_lcp = \<lparr>lcp_passive = False, lcp_silent = False, neg_mru = False, neg_asyncmap = False, neg_chap = False, neg_magicnumber = False,
     neg_pcompression = False, neg_accompression = False, neg_cbcp = False, neg_ssnhf = False, neg_endpoint = False, mru = 0,
     chap_mdtype = 0, asyncmap = 0, magicnumber = 0, numloops = 0,
     endpoint = \<lparr>ep_class = 0, ep_length = 0, ep_value = replicate MAX_ENDP_LEN 0\<rparr>\<rparr>"

text \<open>
  \<open>l_credentials\<close>: the pointers to user and password are set. \<open>l_fatal\<close>: no digest was found for the code that LCP agreed to,
  where the code stops. The last two fields count the pending timeouts.
\<close>

record lcp_unit =
  l_auth :: auth_unit
  lcp_wantoptions :: lcp_options
  lcp_gotoptions :: lcp_options
  lcp_allowoptions :: lcp_options
  lcp_hisoptions :: lcp_options
  l_peer_mru :: u16
  lcp_echos_pending :: u8
  lcp_echo_number :: u8
  lcp_echo_timer_running :: bool
  l_credentials :: bool
  noendpoint :: bool
  lax_recv :: bool
  listen_time :: u16
  lcp_loopbackfail :: u8
  lcp_echo_interval :: u8
  lcp_echo_fails :: u8
  l_fatal :: bool
  l_delay_timers :: nat
  l_echo_timers :: nat

type_synonym lcp_fsm = "lcp_unit pfsm"

definition on_lauth :: "(auth_unit \<Rightarrow> auth_unit) \<Rightarrow> lcp_unit \<Rightarrow> lcp_unit" where
  "on_lauth g i = i\<lparr>l_auth := g (l_auth i)\<rparr>"

text \<open>The control block holds the automaton; the copy of its state that the other layers read is brought up to date.\<close>

definition lcp_sync :: "lcp_fsm \<Rightarrow> lcp_fsm" where
  "lcp_sync f = on_pcb (on_lauth (on_unit (on_unit_pcb (\<lambda>pcb. pcb\<lparr>lcp_state := f_state f\<rparr>)))) f"

definition call_auth :: "(auth_unit \<Rightarrow> auth_unit) \<Rightarrow> lcp_fsm \<Rightarrow> lcp_fsm" where
  "call_auth g f = on_pcb (on_lauth g) (lcp_sync f)"

definition clear_flag :: "u8 \<Rightarrow> lcp_fsm \<Rightarrow> lcp_fsm" where
  "clear_flag b f = f\<lparr>f_flags := f_flags f AND NOT b\<rparr>"

definition set_flag :: "u8 \<Rightarrow> lcp_fsm \<Rightarrow> lcp_fsm" where
  "set_flag b f = f\<lparr>f_flags := f_flags f OR b\<rparr>"

definition untimeout_delay :: "lcp_fsm \<Rightarrow> lcp_fsm" where
  "untimeout_delay f = on_pcb (\<lambda>i. i\<lparr>l_delay_timers := l_delay_timers i - 1\<rparr>) f"

definition CHAP_MDTYPE :: "u8 \<Rightarrow> u8" where
  "CHAP_MDTYPE m = (m XOR (m - 1)) AND m"

definition CHAP_MDTYPE_D :: "u8 \<Rightarrow> u8" where
  "CHAP_MDTYPE_D d =
     (if d = CHAP_MICROSOFT_V2 then MDTYPE_MICROSOFT_V2 else if d = CHAP_MICROSOFT then MDTYPE_MICROSOFT
      else if d = CHAP_MD5 then MDTYPE_MD5 else 0)"

definition CHAP_CANDIGEST :: "u8 \<Rightarrow> u8 \<Rightarrow> bool" where
  "CHAP_CANDIGEST m d =
     (if d = CHAP_MICROSOFT_V2 then m AND MDTYPE_MICROSOFT_V2 \<noteq> 0 else if d = CHAP_MICROSOFT then m AND MDTYPE_MICROSOFT \<noteq> 0
      else if d = CHAP_MD5 then m AND MDTYPE_MD5 \<noteq> 0 else False)"

definition CHAP_MDTYPE_SUPPORTED :: u8 where
  "CHAP_MDTYPE_SUPPORTED = MDTYPE_MICROSOFT_V2 OR MDTYPE_MICROSOFT OR MDTYPE_MD5"

section \<open>Our own options\<close>

definition allowed_auth :: "lcp_unit \<Rightarrow> lcp_options" where
  "allowed_auth i =
     (let ao = lcp_allowoptions i; u = a_unit (l_auth i)
      in if l_credentials i
         then (let md = chap_mdtype ao;
                   md = (if u_refuse_chap u then md AND NOT MDTYPE_MD5 else md);
                   md = (if u_refuse_mschap u then md AND NOT MDTYPE_MICROSOFT else md);
                   md = (if u_refuse_mschap_v2 u then md AND NOT MDTYPE_MICROSOFT_V2 else md)
               in ao\<lparr>chap_mdtype := md, neg_chap := (md \<noteq> MDTYPE_NONE)\<rparr>)
         else ao\<lparr>neg_chap := False, chap_mdtype := MDTYPE_NONE\<rparr>)"

definition lcp_resetci :: "lcp_fsm \<Rightarrow> lcp_fsm" where
  "lcp_resetci f = on_pcb (\<lambda>i.
     let ao = allowed_auth i; (m, ms) = magic (a_magic (l_auth i));
         wo = (lcp_wantoptions i)\<lparr>magicnumber := m, numloops := 0\<rparr>;
         go = wo\<lparr>neg_ssnhf := False, neg_endpoint := False\<rparr>;
         ao = (if noendpoint i then ao\<lparr>neg_endpoint := False\<rparr> else ao)
     in (on_lauth (\<lambda>s. s\<lparr>a_magic := ms\<rparr>) i)\<lparr>lcp_wantoptions := wo, lcp_gotoptions := go, lcp_allowoptions := ao, l_peer_mru := PPP_DEFMRU\<rparr>) f"

definition asks_mru :: "lcp_options \<Rightarrow> bool" where
  "asks_mru go \<longleftrightarrow> neg_mru go \<and> mru go \<noteq> PPP_DEFMRU"

definition asks_asyncmap :: "lcp_options \<Rightarrow> bool" where
  "asks_asyncmap go \<longleftrightarrow> neg_asyncmap go \<and> asyncmap go \<noteq> 0xffffffff"

definition lcp_cilen :: "lcp_fsm \<Rightarrow> nat \<times> lcp_fsm" where
  "lcp_cilen f =
     (let go = lcp_gotoptions (f_pcb f)
      in ((if asks_mru go then CILEN_SHORT else 0) + (if asks_asyncmap go then CILEN_LONG else 0)
          + (if neg_chap go then CILEN_CHAP else 0) + (if neg_cbcp go then CILEN_CHAR else 0)
          + (if neg_magicnumber go then CILEN_LONG else 0) + (if neg_pcompression go then CILEN_VOID else 0)
          + (if neg_accompression go then CILEN_VOID else 0) + (if neg_ssnhf go then CILEN_VOID else 0)
          + (if neg_endpoint go then CILEN_CHAR + unat (ep_length (endpoint go)) else 0), f))"

definition ci_void :: "u8 \<Rightarrow> octets" where "ci_void opt = [opt, of_nat CILEN_VOID]"
definition ci_char :: "u8 \<Rightarrow> u8 \<Rightarrow> octets" where "ci_char opt v = [opt, of_nat CILEN_CHAR, v]"
definition ci_short :: "u8 \<Rightarrow> u16 \<Rightarrow> octets" where "ci_short opt v = [opt, of_nat CILEN_SHORT, hi8 v, lo8 v]"
definition ci_chap :: "u8 \<Rightarrow> octets" where "ci_chap m = [CI_AUTHTYPE, of_nat CILEN_CHAP, hi8 PPP_CHAP, lo8 PPP_CHAP, CHAP_DIGEST m]"
definition ci_long :: "u8 \<Rightarrow> u32 \<Rightarrow> octets" where "ci_long opt v = [opt, of_nat CILEN_LONG] @ put_long v"

definition ci_endp :: "epdisc \<Rightarrow> octets" where
  "ci_endp e = [CI_EPDISC, of_nat CILEN_CHAR + ep_length e, ep_class e] @ take (unat (ep_length e)) (ep_value e)"

text \<open>Each option we ask for, in the order of the packet.\<close>

definition lcp_cis :: "lcp_options \<Rightarrow> (bool \<times> octets) list" where
  "lcp_cis go =
     [(asks_mru go, ci_short CI_MRU (mru go)), (asks_asyncmap go, ci_long CI_ASYNCMAP (asyncmap go)),
      (neg_chap go, ci_chap (chap_mdtype go)), (neg_cbcp go, ci_char CI_CALLBACK CBCP_OPT),
      (neg_magicnumber go, ci_long CI_MAGICNUMBER (magicnumber go)), (neg_pcompression go, ci_void CI_PCOMPRESSION),
      (neg_accompression go, ci_void CI_ACCOMPRESSION), (neg_ssnhf go, ci_void CI_SSNHF), (neg_endpoint go, ci_endp (endpoint go))]"

definition lcp_addci :: "lcp_fsm \<Rightarrow> nat \<Rightarrow> octets \<times> lcp_fsm" where
  "lcp_addci f n = (concat (map snd (filter fst (lcp_cis (lcp_gotoptions (f_pcb f))))), f)"

section \<open>Answers to our options\<close>

text \<open>\<open>None\<close> is the jump to \<open>bad\<close>.\<close>

definition lack_void :: "u8 \<Rightarrow> bool \<Rightarrow> octets \<Rightarrow> octets option" where
  "lack_void opt neg p =
     (if neg then (if length p < CILEN_VOID \<or> p ! 1 \<noteq> of_nat CILEN_VOID \<or> p ! 0 \<noteq> opt then None else Some (drop CILEN_VOID p)) else Some p)"

definition lack_short :: "u8 \<Rightarrow> bool \<Rightarrow> u16 \<Rightarrow> octets \<Rightarrow> octets option" where
  "lack_short opt neg v p =
     (if neg then (if length p < CILEN_SHORT \<or> p ! 1 \<noteq> of_nat CILEN_SHORT \<or> p ! 0 \<noteq> opt \<or> get16 p 2 \<noteq> v then None
                   else Some (drop CILEN_SHORT p)) else Some p)"

definition lack_char :: "u8 \<Rightarrow> bool \<Rightarrow> u8 \<Rightarrow> octets \<Rightarrow> octets option" where
  "lack_char opt neg v p =
     (if neg then (if length p < CILEN_CHAR \<or> p ! 1 \<noteq> of_nat CILEN_CHAR \<or> p ! 0 \<noteq> opt \<or> p ! 2 \<noteq> v then None
                   else Some (drop CILEN_CHAR p)) else Some p)"

definition lack_chap :: "bool \<Rightarrow> u8 \<Rightarrow> octets \<Rightarrow> octets option" where
  "lack_chap neg m p =
     (if neg then (if length p < CILEN_CHAP \<or> p ! 1 \<noteq> of_nat CILEN_CHAP \<or> p ! 0 \<noteq> CI_AUTHTYPE \<or> get16 p 2 \<noteq> PPP_CHAP
                      \<or> p ! 4 \<noteq> CHAP_DIGEST m then None else Some (drop CILEN_CHAP p)) else Some p)"

definition lack_long :: "u8 \<Rightarrow> bool \<Rightarrow> u32 \<Rightarrow> octets \<Rightarrow> octets option" where
  "lack_long opt neg v p =
     (if neg then (if length p < CILEN_LONG \<or> p ! 1 \<noteq> of_nat CILEN_LONG \<or> p ! 0 \<noteq> opt \<or> get32 p 2 \<noteq> v then None
                   else Some (drop CILEN_LONG p)) else Some p)"

definition lack_endp :: "bool \<Rightarrow> epdisc \<Rightarrow> octets \<Rightarrow> octets option" where
  "lack_endp neg e p =
     (let n = CILEN_CHAR + unat (ep_length e)
      in if neg then (if length p < n \<or> unat (p ! 1) \<noteq> n \<or> p ! 0 \<noteq> CI_EPDISC \<or> p ! 2 \<noteq> ep_class e
                         \<or> (\<exists>i < unat (ep_length e). p ! (3 + i) \<noteq> ep_value e ! i) then None
                      else Some (drop n p)) else Some p)"

definition lcp_ackci :: "lcp_fsm \<Rightarrow> octets \<Rightarrow> bool" where
  "lcp_ackci f p =
     (let go = lcp_gotoptions (f_pcb f)
      in Option.bind (lack_short CI_MRU (asks_mru go) (mru go) p) (\<lambda>p.
         Option.bind (lack_long CI_ASYNCMAP (asks_asyncmap go) (asyncmap go) p) (\<lambda>p.
         Option.bind (lack_chap (neg_chap go) (chap_mdtype go) p) (\<lambda>p.
         Option.bind (lack_char CI_CALLBACK (neg_cbcp go) CBCP_OPT p) (\<lambda>p.
         Option.bind (lack_long CI_MAGICNUMBER (neg_magicnumber go) (magicnumber go) p) (\<lambda>p.
         Option.bind (lack_void CI_PCOMPRESSION (neg_pcompression go) p) (\<lambda>p.
         Option.bind (lack_void CI_ACCOMPRESSION (neg_accompression go) p) (\<lambda>p.
         Option.bind (lack_void CI_SSNHF (neg_ssnhf go) p) (\<lambda>p.
         lack_endp (neg_endpoint go) (endpoint go) p)))))))) = Some [])"

text \<open>
  Closing the link. \<open>lcp_lower\<close> are the callbacks that taking the lower layer down uses, \<open>lcp_closing\<close> those of closing.
\<close>

definition lcp_echo_lowerdown :: "lcp_fsm \<Rightarrow> lcp_fsm" where
  "lcp_echo_lowerdown f =
     on_pcb (\<lambda>i. if lcp_echo_timer_running i then i\<lparr>l_echo_timers := l_echo_timers i - 1, lcp_echo_timer_running := False\<rparr> else i) f"

definition lcp_down :: "ccp_fsm fsm_env \<Rightarrow> lcp_fsm \<Rightarrow> lcp_fsm" where
  "lcp_down cb f =
     on_pcb (\<lambda>i. let go = lcp_gotoptions i
                  in (on_lauth (on_unit (\<lambda>u. ppp_recv_config (if neg_asyncmap go then asyncmap go else 0xffffffff) (neg_pcompression go)
                        (neg_accompression go) (ppp_send_config 0xffffffff False False u))) i)\<lparr>l_peer_mru := PPP_DEFMRU\<rparr>)
       (call_auth (link_down cb) (lcp_echo_lowerdown f))"

definition lcp_starting :: "lcp_fsm \<Rightarrow> lcp_fsm" where
  "lcp_starting f = f"

definition lcp_lower :: "ccp_fsm fsm_env \<Rightarrow> lcp_fsm fsm_env \<Rightarrow> lcp_fsm fsm_env" where
  "lcp_lower cb base = base\<lparr>cb_resetci := None, cb_cilen := None, cb_addci := None, cb_ackci := None, cb_nakci := None,
     cb_rejci := None, cb_reqci := None, cb_up := None, cb_down := Some (lcp_down cb), cb_starting := Some lcp_starting,
     cb_finished := None, cb_retransmit := None, cb_extcode := None\<rparr>"

definition lcp_lowerdown :: "ccp_fsm fsm_env \<Rightarrow> lcp_fsm fsm_env \<Rightarrow> lcp_fsm \<Rightarrow> lcp_fsm" where
  "lcp_lowerdown cb base f =
     lcp_sync (if has_flag DELAYED_UP f then untimeout_delay (clear_flag DELAYED_UP f) else fsm_lowerdown (lcp_lower cb base) f)"

definition lcp_finished :: "ccp_fsm fsm_env \<Rightarrow> lcp_fsm fsm_env \<Rightarrow> lcp_fsm \<Rightarrow> lcp_fsm" where
  "lcp_finished cb base f =
     (if u_phase (a_unit (l_auth (f_pcb f))) = PPP_PHASE_DEAD then f
      else on_pcb (on_lauth (on_unit ppp_link_terminated))
             (lcp_lowerdown cb base (on_pcb (on_lauth (on_unit (\<lambda>u. do_call Lcp_lowerdown_call (new_phase PPP_PHASE_DISCONNECT u)))) f)))"

definition lcp_closing :: "ccp_fsm fsm_env \<Rightarrow> lcp_fsm fsm_env \<Rightarrow> lcp_fsm fsm_env" where
  "lcp_closing cb base = (lcp_lower cb base)\<lparr>cb_finished := Some (lcp_finished cb base)\<rparr>"

definition lcp_close :: "ccp_fsm fsm_env \<Rightarrow> lcp_fsm fsm_env \<Rightarrow> string \<Rightarrow> lcp_fsm \<Rightarrow> lcp_fsm" where
  "lcp_close cb base reason f =
     (let f1 = (if u_phase (a_unit (l_auth (f_pcb f))) \<noteq> PPP_PHASE_DEAD
                then on_pcb (on_lauth (on_unit (new_phase PPP_PHASE_TERMINATE))) f else f);
          f2 = (if has_flag DELAYED_UP f1 then goto PPP_FSM_STOPPED (untimeout_delay f1) else f1);
          f3 = fsm_close (lcp_closing cb base) (Some (text_octets reason)) f2
      in lcp_sync (if f_state f2 = PPP_FSM_STOPPED \<and> has_flag (OPT_PASSIVE OR OPT_SILENT OR DELAYED_UP) f3
                   then lcp_finished cb base (clear_flag DELAYED_UP f3) else f3))"

text \<open>A Nak. The state of the walk: what is left of the packet, the options that have been seen, the options to ask for next.\<close>

type_synonym lnak = "octets \<times> lcp_options \<times> lcp_options"

definition lnak_at :: "bool \<Rightarrow> u8 \<Rightarrow> nat \<Rightarrow> octets \<Rightarrow> bool" where
  "lnak_at neg opt cilen p \<longleftrightarrow> neg \<and> cilen \<le> length p \<and> p ! 1 = of_nat cilen \<and> p ! 0 = opt"

definition lnak_mru :: "lcp_options \<Rightarrow> lcp_options \<Rightarrow> lnak \<Rightarrow> lnak" where
  "lnak_mru go wo s =
     (let (p, no, tri) = s; v = get16 p 2
      in if lnak_at (asks_mru go) CI_MRU CILEN_SHORT p
         then (drop CILEN_SHORT p, no\<lparr>neg_mru := True\<rparr>, if v \<le> mru wo \<or> v \<le> PPP_DEFMRU then tri\<lparr>mru := v\<rparr> else tri) else s)"

definition lnak_asyncmap :: "lcp_options \<Rightarrow> lnak \<Rightarrow> lnak" where
  "lnak_asyncmap go s =
     (let (p, no, tri) = s
      in if lnak_at (asks_asyncmap go) CI_ASYNCMAP CILEN_LONG p
         then (drop CILEN_LONG p, no\<lparr>neg_asyncmap := True\<rparr>, tri\<lparr>asyncmap := asyncmap go OR get32 p 2\<rparr>) else s)"

text \<open>
  The test whether the peer proposes the digest that it refused is not what it looks like: in
  \<open>cichar != CHAP_DIGEST(go->chap_mdtype)\<close> the comparison binds closer than the conditional of the macro.
\<close>

definition other_digest :: "u8 \<Rightarrow> u8 \<Rightarrow> bool" where
  "other_digest cichar m \<longleftrightarrow> cichar \<noteq> m AND MDTYPE_MD5 \<or> m AND MDTYPE_MICROSOFT_V2 \<noteq> 0 \<or> m AND MDTYPE_MICROSOFT \<noteq> 0"

definition lnak_auth :: "lcp_options \<Rightarrow> lnak \<Rightarrow> lnak option" where
  "lnak_auth go s =
     (let (p, no, tri) = s; cilen = unat (p ! 1); no1 = no\<lparr>neg_chap := neg_chap go\<rparr>
      in if neg_chap go \<and> CILEN_SHORT \<le> length p \<and> p ! 0 = CI_AUTHTYPE \<and> CILEN_SHORT \<le> cilen \<and> cilen \<le> length p
         then (if get16 p 2 = PPP_CHAP \<and> cilen = CILEN_CHAP
               then (if other_digest (p ! 4) (chap_mdtype go)
                     then (if CHAP_CANDIGEST (chap_mdtype go) (p ! 4)
                           then Some (drop cilen p, no1, tri\<lparr>chap_mdtype := CHAP_MDTYPE_D (p ! 4)\<rparr>)
                           else (let md = chap_mdtype tri AND NOT (CHAP_MDTYPE (chap_mdtype tri)); t = tri\<lparr>chap_mdtype := md\<rparr>
                                 in Some (drop cilen p, no1, if md = MDTYPE_NONE then t\<lparr>neg_chap := False\<rparr> else t)))
                     else None)
               else Some (drop cilen p, no1, tri\<lparr>neg_chap := False\<rparr>))
         else Some s)"

definition lnak_cbcp :: "lcp_options \<Rightarrow> lnak \<Rightarrow> lnak" where
  "lnak_cbcp go s =
     (let (p, no, tri) = s
      in if lnak_at (neg_cbcp go) CI_CALLBACK CILEN_CHAR p
         then (drop CILEN_CHAR p, no\<lparr>neg_cbcp := True\<rparr>, tri\<lparr>neg_cbcp := False\<rparr>) else s)"

definition lnak_magic :: "lcp_options \<Rightarrow> u32 \<Rightarrow> lnak \<Rightarrow> lnak" where
  "lnak_magic go m s =
     (let (p, no, tri) = s
      in if lnak_at (neg_magicnumber go) CI_MAGICNUMBER CILEN_LONG p
         then (drop CILEN_LONG p, no\<lparr>neg_magicnumber := True\<rparr>, tri\<lparr>magicnumber := m\<rparr>) else s)"

definition lnak_void :: "u8 \<Rightarrow> bool \<Rightarrow> (bool \<Rightarrow> lcp_options \<Rightarrow> lcp_options) \<Rightarrow> lnak \<Rightarrow> lnak" where
  "lnak_void opt neg upd s =
     (let (p, no, tri) = s
      in if lnak_at neg opt CILEN_VOID p then (drop CILEN_VOID p, upd True no, upd False tri) else s)"

definition lnak_endp :: "lcp_options \<Rightarrow> lnak \<Rightarrow> lnak" where
  "lnak_endp go s =
     (let (p, no, tri) = s; n = unat (p ! 1)
      in if neg_endpoint go \<and> CILEN_CHAR \<le> length p \<and> p ! 0 = CI_EPDISC \<and> CILEN_CHAR \<le> n \<and> n \<le> length p
         then (drop n p, no\<lparr>neg_endpoint := True\<rparr>, tri\<lparr>neg_endpoint := False\<rparr>) else s)"

text \<open>One option that we did not ask for, and all of them.\<close>

definition lnak_extra :: "lcp_options \<Rightarrow> lcp_options \<Rightarrow> octets \<Rightarrow> nat \<Rightarrow> lcp_options \<Rightarrow> lcp_options option" where
  "lnak_extra go no p cilen tri =
     (let t = p ! 0; v = get16 p 2
      in if t = CI_MRU
         then (if asks_mru go \<or> neg_mru no \<or> cilen \<noteq> CILEN_SHORT then None
               else Some (if v < PPP_DEFMRU then tri\<lparr>neg_mru := True, mru := v\<rparr> else tri))
         else if t = CI_ASYNCMAP then (if asks_asyncmap go \<or> neg_asyncmap no \<or> cilen \<noteq> CILEN_LONG then None else Some tri)
         else if t = CI_AUTHTYPE then (if neg_chap go \<or> neg_chap no then None else Some tri)
         else if t = CI_MAGICNUMBER then (if neg_magicnumber go \<or> neg_magicnumber no \<or> cilen \<noteq> CILEN_LONG then None else Some tri)
         else if t = CI_PCOMPRESSION then (if neg_pcompression go \<or> neg_pcompression no \<or> cilen \<noteq> CILEN_VOID then None else Some tri)
         else if t = CI_ACCOMPRESSION then (if neg_accompression go \<or> neg_accompression no \<or> cilen \<noteq> CILEN_VOID then None else Some tri)
         else if t = CI_SSNHF
         then (if neg_ssnhf go \<or> neg_ssnhf no \<or> cilen \<noteq> CILEN_VOID then None else Some (tri\<lparr>neg_ssnhf := True\<rparr>))
         else if t = CI_EPDISC then (if neg_endpoint go \<or> neg_endpoint no \<or> cilen < CILEN_CHAR then None else Some tri)
         else Some tri)"

function lnak_rest :: "lcp_options \<Rightarrow> lcp_options \<Rightarrow> octets \<Rightarrow> lcp_options \<Rightarrow> lcp_options option" where
  "lnak_rest go no p tri =
     (if length p < CILEN_VOID then Some tri
      else (let cilen = unat (p ! 1)
            in if cilen < CILEN_VOID \<or> length p < cilen then None
               else (case lnak_extra go no p cilen tri of None \<Rightarrow> None | Some tri1 \<Rightarrow> lnak_rest go no (drop cilen p) tri1)))"
  by pat_completeness auto
termination
  by (relation "measure (\<lambda>(go, no, p, tri). length p)") (auto simp: CILEN_VOID_def)

declare lnak_rest.simps [simp del]

definition lcp_nakci :: "ccp_fsm fsm_env \<Rightarrow> lcp_fsm fsm_env \<Rightarrow> lcp_fsm \<Rightarrow> octets \<Rightarrow> bool \<Rightarrow> int \<times> lcp_fsm" where
  "lcp_nakci cb base f p treat_as_reject =
     (let go = lcp_gotoptions (f_pcb f); wo = lcp_wantoptions (f_pcb f)
      in case lnak_auth go (lnak_asyncmap go (lnak_mru go wo (p, no_lcp, go))) of
           None \<Rightarrow> (0, f)
         | Some s \<Rightarrow>
             (let s1 = lnak_cbcp go s; looped_back = lnak_at (neg_magicnumber go) CI_MAGICNUMBER CILEN_LONG (fst s1);
                  (m, ms) = magic (a_magic (l_auth (f_pcb f)));
                  f1 = (if looped_back then on_pcb (on_lauth (\<lambda>a. a\<lparr>a_magic := ms\<rparr>)) f else f);
                  (p, no, tri) = lnak_endp go (lnak_void CI_SSNHF (neg_ssnhf go) (\<lambda>b t. t\<lparr>neg_ssnhf := b\<rparr>)
                    (lnak_void CI_ACCOMPRESSION (neg_accompression go) (\<lambda>b t. t\<lparr>neg_accompression := b\<rparr>)
                    (lnak_void CI_PCOMPRESSION (neg_pcompression go) (\<lambda>b t. t\<lparr>neg_pcompression := b\<rparr>) (lnak_magic go m s1))))
              in case lnak_rest go no p tri of
                   None \<Rightarrow> (0, f1)
                 | Some tri1 \<Rightarrow>
                     if f_state f1 = PPP_FSM_OPENED then (1, f1)
                     else (let tri2 = tri1\<lparr>numloops := (if looped_back then numloops tri1 + 1 else 0)\<rparr>;
                               f2 = (if looped_back \<and> lcp_loopbackfail (f_pcb f1) \<le> numloops tri2
                                     then lcp_close cb base ''Loopback detected''
                                            (on_pcb (on_lauth (on_unit (\<lambda>u. u\<lparr>u_err := PPPERR_LOOPBACK\<rparr>))) f1) else f1)
                           in (1, on_pcb (\<lambda>i. i\<lparr>lcp_gotoptions := tri2\<rparr>) f2))))"

text \<open>A Reject: what is left of the packet, and the options to ask for next.\<close>

definition lrej :: "bool \<Rightarrow> octets \<Rightarrow> (lcp_options \<Rightarrow> lcp_options) \<Rightarrow> octets \<times> lcp_options \<Rightarrow> (octets \<times> lcp_options) option" where
  "lrej neg ci clear s =
     (let (p, tri) = s; n = length ci
      in if neg \<and> n \<le> length p \<and> p ! 1 = ci ! 1 \<and> p ! 0 = ci ! 0
         then (if take n p = ci then Some (drop n p, clear tri) else None) else Some s)"

fun lrej_all :: "(bool \<times> octets \<times> (lcp_options \<Rightarrow> lcp_options)) list \<Rightarrow> octets \<times> lcp_options \<Rightarrow> (octets \<times> lcp_options) option" where
  "lrej_all [] s = Some s"
| "lrej_all ((neg, ci, clear) # xs) s = Option.bind (lrej neg ci clear s) (lrej_all xs)"

definition lcp_rejects :: "lcp_options \<Rightarrow> (bool \<times> octets \<times> (lcp_options \<Rightarrow> lcp_options)) list" where
  "lcp_rejects go =
     [(neg_mru go, ci_short CI_MRU (mru go), \<lambda>t. t\<lparr>neg_mru := False\<rparr>),
      (neg_asyncmap go, ci_long CI_ASYNCMAP (asyncmap go), \<lambda>t. t\<lparr>neg_asyncmap := False\<rparr>),
      (neg_chap go, ci_chap (chap_mdtype go), \<lambda>t. t\<lparr>neg_chap := False\<rparr>),
      (neg_cbcp go, ci_char CI_CALLBACK CBCP_OPT, \<lambda>t. t\<lparr>neg_cbcp := False\<rparr>),
      (neg_magicnumber go, ci_long CI_MAGICNUMBER (magicnumber go), \<lambda>t. t\<lparr>neg_magicnumber := False\<rparr>),
      (neg_pcompression go, ci_void CI_PCOMPRESSION, \<lambda>t. t\<lparr>neg_pcompression := False\<rparr>),
      (neg_accompression go, ci_void CI_ACCOMPRESSION, \<lambda>t. t\<lparr>neg_accompression := False\<rparr>),
      (neg_ssnhf go, ci_void CI_SSNHF, \<lambda>t. t\<lparr>neg_ssnhf := False\<rparr>),
      (neg_endpoint go, ci_endp (endpoint go), \<lambda>t. t\<lparr>neg_endpoint := False\<rparr>)]"

definition lcp_rejci :: "lcp_fsm \<Rightarrow> octets \<Rightarrow> int \<times> lcp_fsm" where
  "lcp_rejci f p =
     (let go = lcp_gotoptions (f_pcb f)
      in case lrej_all (lcp_rejects go) (p, go) of
           Some ([], tri) \<Rightarrow> (1, if f_state f \<noteq> PPP_FSM_OPENED then on_pcb (\<lambda>i. i\<lparr>lcp_gotoptions := tri\<rparr>) f else f)
         | _ \<Rightarrow> (0, f))"

section \<open>The options of the peer\<close>

definition lcp_set_his :: "(lcp_options \<Rightarrow> lcp_options) \<Rightarrow> lcp_unit \<Rightarrow> lcp_unit" where
  "lcp_set_his g i = i\<lparr>lcp_hisoptions := g (lcp_hisoptions i)\<rparr>"

text \<open>One option: the verdict, what goes into the Nak, and the new state.\<close>

definition lreq_mru :: "lcp_unit \<Rightarrow> octets \<Rightarrow> u8 \<times> octets \<times> lcp_unit" where
  "lreq_mru i p =
     (let v = get16 p 2
      in if \<not> neg_mru (lcp_allowoptions i) \<or> length p \<noteq> CILEN_SHORT then (CONFREJ, [], i)
         else if v < PPP_MINMRU then (CONFNAK, ci_short CI_MRU PPP_MINMRU, i)
         else (CONFACK, [], lcp_set_his (\<lambda>h. h\<lparr>neg_mru := True, mru := v\<rparr>) i))"

definition lreq_asyncmap :: "lcp_unit \<Rightarrow> octets \<Rightarrow> u8 \<times> octets \<times> lcp_unit" where
  "lreq_asyncmap i p =
     (let v = get32 p 2; ao = lcp_allowoptions i
      in if \<not> neg_asyncmap ao \<or> length p \<noteq> CILEN_LONG then (CONFREJ, [], i)
         else if asyncmap ao AND NOT v \<noteq> 0 then (CONFNAK, ci_long CI_ASYNCMAP (asyncmap ao OR v), i)
         else (CONFACK, [], lcp_set_his (\<lambda>h. h\<lparr>neg_asyncmap := True, asyncmap := v\<rparr>) i))"

definition lreq_auth :: "lcp_unit \<Rightarrow> octets \<Rightarrow> u8 \<times> octets \<times> lcp_unit" where
  "lreq_auth i p =
     (let ao = lcp_allowoptions i
      in if length p < CILEN_SHORT \<or> \<not> neg_chap ao then (CONFREJ, [], i)
         else if get16 p 2 = PPP_CHAP
         then (if length p \<noteq> CILEN_CHAP then (CONFREJ, [], i)
               else if \<not> CHAP_CANDIGEST (chap_mdtype ao) (p ! 4) then (CONFNAK, ci_chap (chap_mdtype ao), i)
               else (CONFACK, [], lcp_set_his (\<lambda>h. h\<lparr>chap_mdtype := CHAP_MDTYPE_D (p ! 4), neg_chap := True\<rparr>) i))
         else (CONFNAK, ci_chap (chap_mdtype ao), i))"

definition lreq_magic :: "lcp_unit \<Rightarrow> octets \<Rightarrow> u8 \<times> octets \<times> lcp_unit" where
  "lreq_magic i p =
     (let v = get32 p 2; go = lcp_gotoptions i; (m, ms) = magic (a_magic (l_auth i))
      in if \<not> (neg_magicnumber (lcp_allowoptions i) \<or> neg_magicnumber go) \<or> length p \<noteq> CILEN_LONG then (CONFREJ, [], i)
         else if neg_magicnumber go \<and> v = magicnumber go
         then (CONFNAK, ci_long CI_MAGICNUMBER m, on_lauth (\<lambda>a. a\<lparr>a_magic := ms\<rparr>) i)
         else (CONFACK, [], lcp_set_his (\<lambda>h. h\<lparr>neg_magicnumber := True, magicnumber := v\<rparr>) i))"

definition lreq_void :: "bool \<Rightarrow> (lcp_options \<Rightarrow> lcp_options) \<Rightarrow> lcp_unit \<Rightarrow> octets \<Rightarrow> u8 \<times> octets \<times> lcp_unit" where
  "lreq_void allow upd i p =
     (if \<not> allow \<or> length p \<noteq> CILEN_VOID then (CONFREJ, [], i) else (CONFACK, [], lcp_set_his upd i))"

definition lreq_endp :: "lcp_unit \<Rightarrow> octets \<Rightarrow> u8 \<times> octets \<times> lcp_unit" where
  "lreq_endp i p =
     (if \<not> neg_endpoint (lcp_allowoptions i) \<or> length p < CILEN_CHAR \<or> CILEN_CHAR + MAX_ENDP_LEN < length p then (CONFREJ, [], i)
      else (CONFACK, [], lcp_set_his (\<lambda>h. h\<lparr>neg_endpoint := True, endpoint :=
              \<lparr>ep_class = p ! 2, ep_length = of_nat (length p - CILEN_CHAR),
               ep_value = memcpy_at 0 (drop CILEN_CHAR p) (ep_value (endpoint h))\<rparr>\<rparr>) i))"

definition lcp_req_option :: "lcp_unit \<Rightarrow> octets \<Rightarrow> u8 \<times> octets \<times> lcp_unit" where
  "lcp_req_option i p =
     (let t = p ! 0; ao = lcp_allowoptions i
      in if t = CI_MRU then lreq_mru i p
         else if t = CI_ASYNCMAP then lreq_asyncmap i p
         else if t = CI_AUTHTYPE then lreq_auth i p
         else if t = CI_MAGICNUMBER then lreq_magic i p
         else if t = CI_PCOMPRESSION then lreq_void (neg_pcompression ao) (\<lambda>h. h\<lparr>neg_pcompression := True\<rparr>) i p
         else if t = CI_ACCOMPRESSION then lreq_void (neg_accompression ao) (\<lambda>h. h\<lparr>neg_accompression := True\<rparr>) i p
         else if t = CI_SSNHF then lreq_void (neg_ssnhf ao) (\<lambda>h. h\<lparr>neg_ssnhf := True\<rparr>) i p
         else if t = CI_EPDISC then lreq_endp i p
         else (CONFREJ, [], i))"

text \<open>The verdict on the option at the front of \<open>q\<close>, its contribution to the Nak, its length.\<close>

definition lcp_front :: "bool \<Rightarrow> lcp_unit \<Rightarrow> octets \<Rightarrow> u8 \<times> octets \<times> nat \<times> lcp_unit" where
  "lcp_front reject_if_disagree st q =
     (let l = length q
      in if bad_option l q then (CONFREJ, [], l, st)
         else (let n = unat (q ! 1); (orc, nk, st') = lcp_req_option st (take n q)
               in (if orc = CONFNAK \<and> reject_if_disagree \<and> q ! 0 \<noteq> CI_MAGICNUMBER then CONFREJ else orc, nk, n, st')))"

lemma lcp_front_length:
  assumes "q \<noteq> []" "lcp_front dn st q = (v, nk, n, st')"
  shows "0 < n" "n \<le> length q"
  using assms by (auto simp: lcp_front_def bad_option_def Let_def split: if_splits prod.splits)

text \<open>
  The loop: \<open>rejp\<close> is where the next rejected option goes in the buffer of the request, \<open>nak\<close> what is in the buffer of the Nak. The
  code does not compare that with the 512 octets of the buffer, and the model has no limit for it. The second condition of the
  end never holds in the call that is made.
\<close>

function lcp_scan :: "bool \<Rightarrow> lcp_unit \<Rightarrow> octets \<Rightarrow> nat \<Rightarrow> nat \<Rightarrow> u8 \<Rightarrow> nat \<Rightarrow> octets \<Rightarrow> u8 \<times> octets \<times> nat \<times> octets \<times> lcp_unit" where
  "lcp_scan dn st buf cip l rc rejp nak =
     (if l = 0 \<or> length buf < cip + l then (rc, buf, rejp, nak, st)
      else (let (orc, nk, n, st') = lcp_front dn st (take l (drop cip buf)); nak1 = nak @ nk
            in if orc = CONFREJ
               then lcp_scan dn st' (if cip \<noteq> rejp then memcpy_at rejp (take n (drop cip buf)) buf else buf)
                      (cip + n) (l - n) CONFREJ (rejp + n) nak1
               else lcp_scan dn st' buf (cip + n) (l - n) (if orc = CONFNAK \<and> rc \<noteq> CONFREJ then CONFNAK else rc) rejp nak1))"
  by pat_completeness auto
termination
proof (relation "measure (\<lambda>(dn, st, buf, cip, l, rc, rejp, nak). l)", goal_cases)
  case (2 dn st buf cip l rc rejp nak x orc y nk z n st' nak1)
  then have "lcp_front dn st (take l (drop cip buf)) = (orc, nk, n, st')" by simp
  from lcp_front_length(1) [OF _ this] 2(1) show ?case by auto
next
  case (3 dn st buf cip l rc rejp nak x orc y nk z n st' nak1)
  then have "lcp_front dn st (take l (drop cip buf)) = (orc, nk, n, st')" by simp
  from lcp_front_length(1) [OF _ this] 3(1) show ?case by auto
qed simp

declare lcp_scan.simps [simp del]

text \<open>\<open>nak_ok\<close>: the buffer for the Nak can be allocated in one piece. Without it the code returns 0 as the code of the answer.\<close>

definition lcp_reqci :: "bool \<Rightarrow> lcp_fsm \<Rightarrow> octets \<Rightarrow> bool \<Rightarrow> (u8 \<times> octets) \<times> lcp_fsm" where
  "lcp_reqci nak_ok f inp reject_if_disagree =
     (let i0 = (f_pcb f)\<lparr>lcp_hisoptions := no_lcp\<rparr>
      in if \<not> nak_ok then ((0, inp), f\<lparr>f_pcb := i0\<rparr>)
         else (let (rc, buf, rejp, nak, i1) = lcp_scan reject_if_disagree i0 inp 0 (length inp) CONFACK 0 []
               in ((rc, if rc = CONFNAK then nak else if rc = CONFREJ then take rejp buf else buf), f\<lparr>f_pcb := i1\<rparr>)))"

section \<open>Echoes\<close>

definition LcpLinkFailure :: "ccp_fsm fsm_env \<Rightarrow> lcp_fsm fsm_env \<Rightarrow> lcp_fsm \<Rightarrow> lcp_fsm" where
  "LcpLinkFailure cb base f =
     (if f_state f = PPP_FSM_OPENED
      then lcp_close cb base ''Peer not responding'' (on_pcb (on_lauth (on_unit (\<lambda>u. u\<lparr>u_err := PPPERR_PEERDEAD\<rparr>))) f) else f)"

definition LcpSendEchoRequest :: "ccp_fsm fsm_env \<Rightarrow> lcp_fsm fsm_env \<Rightarrow> lcp_fsm \<Rightarrow> lcp_fsm" where
  "LcpSendEchoRequest cb base f =
     (let i = f_pcb f;
          f1 = (if lcp_echo_fails i \<noteq> 0 \<and> lcp_echo_fails i \<le> lcp_echos_pending i
                then on_pcb (\<lambda>i. i\<lparr>lcp_echos_pending := 0\<rparr>) (LcpLinkFailure cb base f) else f);
          i1 = f_pcb f1
      in if f_state f1 = PPP_FSM_OPENED
         then on_pcb (\<lambda>i. i\<lparr>lcp_echo_number := lcp_echo_number i1 + 1, lcp_echos_pending := lcp_echos_pending i1 + 1\<rparr>)
                (fsm_sdata base ECHOREQ (lcp_echo_number i1) (put_long (magicnumber (lcp_gotoptions i1))) f1)
         else f1)"

definition LcpEchoCheck :: "ccp_fsm fsm_env \<Rightarrow> lcp_fsm fsm_env \<Rightarrow> lcp_fsm \<Rightarrow> lcp_fsm" where
  "LcpEchoCheck cb base f =
     (let f1 = LcpSendEchoRequest cb base f
      in if f_state f1 \<noteq> PPP_FSM_OPENED then f1
         else on_pcb (\<lambda>i. i\<lparr>l_echo_timers := l_echo_timers i + 1, lcp_echo_timer_running := True\<rparr>) f1)"

definition LcpEchoTimeout :: "ccp_fsm fsm_env \<Rightarrow> lcp_fsm fsm_env \<Rightarrow> lcp_fsm \<Rightarrow> lcp_fsm" where
  "LcpEchoTimeout cb base f =
     (if lcp_echo_timer_running (f_pcb f)
      then lcp_sync (LcpEchoCheck cb base (on_pcb (\<lambda>i. i\<lparr>lcp_echo_timer_running := False\<rparr>) f)) else f)"

definition lcp_received_echo_reply :: "octets \<Rightarrow> lcp_unit \<Rightarrow> lcp_unit" where
  "lcp_received_echo_reply inp i =
     (let go = lcp_gotoptions i
      in if length inp < 4 then i
         else if neg_magicnumber go \<and> get32 inp 0 = magicnumber go then i
         else i\<lparr>lcp_echos_pending := 0\<rparr>)"

definition lcp_echo_lowerup :: "ccp_fsm fsm_env \<Rightarrow> lcp_fsm fsm_env \<Rightarrow> lcp_fsm \<Rightarrow> lcp_fsm" where
  "lcp_echo_lowerup cb base f =
     (let f1 = on_pcb (\<lambda>i. i\<lparr>lcp_echos_pending := 0, lcp_echo_number := 0, lcp_echo_timer_running := False\<rparr>) f
      in if lcp_echo_interval (f_pcb f1) \<noteq> 0 then LcpEchoCheck cb base f1 else f1)"

section \<open>The link\<close>

definition link_mtu :: "lcp_unit \<Rightarrow> int" where
  "link_mtu i =
     (let ho = lcp_hisoptions i; go = lcp_gotoptions i; wo = lcp_wantoptions i; ao = lcp_allowoptions i;
          mtu = uint (if neg_mru ho then mru ho else PPP_DEFMRU);
          m = (if neg_mru go then max (uint (mru wo)) (uint (mru go)) else uint PPP_DEFMRU)
      in min (min mtu m) (uint (mru ao)))"

definition lcp_configure :: "lcp_unit \<Rightarrow> lcp_unit" where
  "lcp_configure i =
     (let go = lcp_gotoptions i; ho = lcp_hisoptions i;
          i1 = i\<lparr>lcp_gotoptions := (if neg_magicnumber go then go else go\<lparr>magicnumber := 0\<rparr>),
                 lcp_hisoptions := (if neg_magicnumber ho then ho else ho\<lparr>magicnumber := 0\<rparr>)\<rparr>;
          i2 = on_lauth (on_unit (\<lambda>u. ppp_recv_config (if lax_recv i then 0 else if neg_asyncmap go then asyncmap go else 0xffffffff)
                 (neg_pcompression go) (neg_accompression go)
                 (ppp_send_config (if neg_asyncmap ho then asyncmap ho else 0xffffffff) (neg_pcompression ho) (neg_accompression ho)
                   (ppp_netif_set_mtu (link_mtu i) u)))) i1
      in if neg_mru ho then i2\<lparr>l_peer_mru := mru ho\<rparr> else i2)"

definition call_link_established :: "ccp_fsm fsm_env \<Rightarrow> lcp_unit \<Rightarrow> lcp_unit" where
  "call_link_established cb i =
     (case link_established cb (neg_chap (lcp_hisoptions i)) (chap_mdtype (lcp_hisoptions i)) (l_auth i) of
        None \<Rightarrow> i\<lparr>l_fatal := True\<rparr>
      | Some a \<Rightarrow> i\<lparr>l_auth := a\<rparr>)"

definition lcp_up :: "ccp_fsm fsm_env \<Rightarrow> lcp_fsm fsm_env \<Rightarrow> lcp_fsm \<Rightarrow> lcp_fsm" where
  "lcp_up cb base f =
     on_pcb (call_link_established cb) (lcp_sync (lcp_echo_lowerup cb base (on_pcb lcp_configure f)))"

definition lcp_protrej :: "ccp_fsm fsm_env \<Rightarrow> lcp_fsm fsm_env \<Rightarrow> lcp_fsm \<Rightarrow> lcp_fsm" where
  "lcp_protrej cb base f = fsm_protreject (lcp_closing cb base) f"

text \<open>A Protocol-Reject is passed on; for IPCP it has the effect of \<open>ipcp_lowerdown\<close>, and is recorded as that.\<close>

definition lcp_rprotrej :: "ccp_fsm fsm_env \<Rightarrow> lcp_fsm fsm_env \<Rightarrow> octets \<Rightarrow> lcp_fsm \<Rightarrow> lcp_fsm" where
  "lcp_rprotrej cb base inp f =
     (if length inp < 2 \<or> f_state f \<noteq> PPP_FSM_OPENED then f
      else (let prot = get16 inp 0
            in if prot = PPP_LCP then lcp_protrej cb base f
               else if prot = PPP_CHAP then call_auth chap_protrej f
               else if prot = PPP_IPCP then call_auth (net_call Ipcp_lowerdown) f
               else if prot = PPP_CCP then call_auth (on_ccp (ccp_protrej cb)) f
               else f))"

definition lcp_extcode :: "ccp_fsm fsm_env \<Rightarrow> lcp_fsm fsm_env \<Rightarrow> lcp_fsm \<Rightarrow> u8 \<Rightarrow> u8 \<Rightarrow> octets \<Rightarrow> bool \<times> lcp_fsm" where
  "lcp_extcode cb base f code i inp =
     (if code = PROTREJ then (True, lcp_rprotrej cb base inp f)
      else if code = ECHOREQ
      then (True, if f_state f \<noteq> PPP_FSM_OPENED then f
                  else fsm_sdata base ECHOREP i (take (length inp) (put_long (magicnumber (lcp_gotoptions (f_pcb f))) @ drop 4 inp)) f)
      else if code = ECHOREP then (True, on_pcb (lcp_received_echo_reply inp) f)
      else if code = DISCREQ \<or> code = IDENTIF \<or> code = TIMEREM then (True, f)
      else (False, f))"

definition lcp_callbacks :: "ccp_fsm fsm_env \<Rightarrow> bool \<Rightarrow> lcp_fsm fsm_env \<Rightarrow> lcp_fsm fsm_env" where
  "lcp_callbacks cb nak_ok base = (lcp_closing cb base)\<lparr>
     cb_resetci := Some lcp_resetci, cb_cilen := Some lcp_cilen, cb_addci := Some lcp_addci, cb_ackci := Some lcp_ackci,
     cb_nakci := Some (lcp_nakci cb base), cb_rejci := Some lcp_rejci, cb_reqci := Some (lcp_reqci nak_ok),
     cb_up := Some (lcp_up cb base), cb_extcode := Some (lcp_extcode cb base)\<rparr>"

section \<open>Entry points\<close>

definition lcp_init :: "lcp_fsm fsm_env \<Rightarrow> lcp_fsm \<Rightarrow> lcp_fsm" where
  "lcp_init base f =
     lcp_sync (on_pcb (\<lambda>i. i\<lparr>
       lcp_wantoptions := no_lcp\<lparr>neg_mru := True, mru := PPP_MRU, neg_asyncmap := True, neg_magicnumber := True,
         neg_pcompression := True, neg_accompression := True\<rparr>,
       lcp_allowoptions := no_lcp\<lparr>neg_mru := True, mru := PPP_MAXMRU, neg_asyncmap := True, neg_chap := True,
         chap_mdtype := CHAP_MDTYPE_SUPPORTED, neg_magicnumber := True, neg_pcompression := True, neg_accompression := True,
         neg_endpoint := True\<rparr>\<rparr>) (fsm_init base (f\<lparr>f_protocol := PPP_LCP\<rparr>)))"

definition lcp_open :: "ccp_fsm fsm_env \<Rightarrow> bool \<Rightarrow> lcp_fsm fsm_env \<Rightarrow> lcp_fsm \<Rightarrow> lcp_fsm" where
  "lcp_open cb nak_ok base f =
     (let wo = lcp_wantoptions (f_pcb f); f1 = clear_flag (OPT_PASSIVE OR OPT_SILENT) f;
          f2 = (if lcp_passive wo then set_flag OPT_PASSIVE f1 else f1);
          f3 = (if lcp_silent wo then set_flag OPT_SILENT f2 else f2)
      in lcp_sync (fsm_open (lcp_callbacks cb nak_ok base) f3))"

definition lcp_lowerup :: "ccp_fsm fsm_env \<Rightarrow> bool \<Rightarrow> lcp_fsm fsm_env \<Rightarrow> lcp_fsm \<Rightarrow> lcp_fsm" where
  "lcp_lowerup cb nak_ok base f =
     (let wo = lcp_wantoptions (f_pcb f);
          f1 = on_pcb (\<lambda>i. (on_lauth (on_unit (\<lambda>u. ppp_recv_config (if lax_recv i then 0 else 0xffffffff) (neg_pcompression wo)
                 (neg_accompression wo) (ppp_send_config 0xffffffff False False u))) i)\<lparr>l_peer_mru := PPP_DEFMRU\<rparr>) f
      in lcp_sync (if listen_time (f_pcb f1) \<noteq> 0
                   then on_pcb (\<lambda>i. i\<lparr>l_delay_timers := l_delay_timers i + 1\<rparr>) (set_flag DELAYED_UP f1)
                   else fsm_lowerup (lcp_callbacks cb nak_ok base) f1))"

definition lcp_delayed_up :: "ccp_fsm fsm_env \<Rightarrow> bool \<Rightarrow> lcp_fsm fsm_env \<Rightarrow> lcp_fsm \<Rightarrow> lcp_fsm" where
  "lcp_delayed_up cb nak_ok base f =
     (if has_flag DELAYED_UP f then lcp_sync (fsm_lowerup (lcp_callbacks cb nak_ok base) (clear_flag DELAYED_UP f)) else f)"

definition lcp_input :: "ccp_fsm fsm_env \<Rightarrow> bool \<Rightarrow> lcp_fsm fsm_env \<Rightarrow> octets \<Rightarrow> lcp_fsm \<Rightarrow> lcp_fsm" where
  "lcp_input cb nak_ok base p f =
     (let f1 = (if has_flag DELAYED_UP f
                then fsm_lowerup (lcp_callbacks cb nak_ok base) (untimeout_delay (clear_flag DELAYED_UP f)) else f)
      in lcp_sync (fsm_input (lcp_callbacks cb nak_ok base) p f1))"

definition lcp_timeout :: "ccp_fsm fsm_env \<Rightarrow> bool \<Rightarrow> lcp_fsm fsm_env \<Rightarrow> lcp_fsm \<Rightarrow> lcp_fsm" where
  "lcp_timeout cb nak_ok base f = lcp_sync (fsm_timeout (lcp_callbacks cb nak_ok base) (UNTIMEOUT f))"

definition lcp_sprotrej :: "lcp_fsm fsm_env \<Rightarrow> octets \<Rightarrow> lcp_fsm \<Rightarrow> lcp_fsm" where
  "lcp_sprotrej base p f = fsm_sdata base PROTREJ (f_id f + 1) p (f\<lparr>f_id := f_id f + 1\<rparr>)"

end
