(* ===== verification/Ppp_Guard.thy ===== *)
theory Ppp_Guard
  imports Ppp_Agreement
begin

text \<open>
  Invariants of a control protocol whose callbacks may move the automaton (\<open>src/lwip/src/netif/ppp/fsm.c\<close>) themselves, as LCP's do.
  The locale \<open>fsm_guarded\<close> takes an invariant and a guard that the reset of the options establishes; no callback may
  enter the negotiation. It derives that the guard holds whenever the automaton negotiates or is open.
\<close>

definition live :: "ppp_state \<Rightarrow> bool" where
  "live s \<longleftrightarrow> s \<in> {PPP_FSM_REQSENT, PPP_FSM_ACKRCVD, PPP_FSM_ACKSENT, PPP_FSM_OPENED}"

lemma live_simps [simp]:
  "live PPP_FSM_REQSENT" "live PPP_FSM_ACKRCVD" "live PPP_FSM_ACKSENT" "live PPP_FSM_OPENED"
  "\<not> live PPP_FSM_INITIAL" "\<not> live PPP_FSM_STARTING" "\<not> live PPP_FSM_CLOSED" "\<not> live PPP_FSM_STOPPED"
  "\<not> live PPP_FSM_CLOSING" "\<not> live PPP_FSM_STOPPING" "negotiating s \<Longrightarrow> live s"
  by (auto simp: live_def negotiating_def)

lemma state_prim [simp]:
  "f_state (note_event e f) = f_state f" "f_state (TIMEOUT f) = f_state f" "f_state (UNTIMEOUT f) = f_state f"
  "f_state (goto s f) = s" "f_state (fsm_sdata env c i d f) = f_state f" "f_state (send_termreq env f) = f_state f"
  "f_state (count_nak c f) = f_state f"
  by (simp_all add: note_event_def TIMEOUT_def UNTIMEOUT_def goto_def fsm_sdata_def send_termreq_def next_id_def count_nak_def Let_def)

locale fsm_guarded =
  fixes env :: "'c envir" and J R :: "'c \<Rightarrow> bool"
  assumes g_resetci: "\<exists>g. cb_resetci env = Some g \<and> (\<forall>f. J (client_part f) \<longrightarrow> J (client_part (g f)) \<and> R (client_part (g f)))"
    and g_quiet: "cb \<in> {cb_down env, cb_starting env, cb_finished env, cb_retransmit env} \<Longrightarrow> cb = Some g \<Longrightarrow> J (client_part f) \<Longrightarrow>
        J (client_part (g f)) \<and> (R (client_part f) \<longrightarrow> R (client_part (g f))) \<and> (live (f_state (g f)) \<longrightarrow> live (f_state f))"
    and g_own: "J (client_part f) \<Longrightarrow> R (client_part f) \<Longrightarrow>
        J (client_part (snd (own_cilen env f))) \<and> R (client_part (snd (own_cilen env f)))"
        "J (client_part f) \<Longrightarrow> R (client_part f) \<Longrightarrow>
        J (client_part (snd (own_ci env n f))) \<and> R (client_part (snd (own_ci env n f)))"
    and g_nakrej: "J (client_part f) \<Longrightarrow> let g = snd (nakrej_result env code inp f) in
        J (client_part g) \<and> (R (client_part f) \<longrightarrow> R (client_part g)) \<and> (live (f_state g) \<longrightarrow> live (f_state f))"
    and g_ext: "J (client_part f) \<Longrightarrow> let g = snd (ext_answer env code i inp f) in
        J (client_part g) \<and> (R (client_part f) \<longrightarrow> R (client_part g)) \<and> (live (f_state g) \<longrightarrow> live (f_state f))"
    and g_reqci: "J (client_part f) \<Longrightarrow> R (client_part f) \<Longrightarrow>
        J (client_part (snd (reqci_answer env inp f))) \<and> R (client_part (snd (reqci_answer env inp f)))"
    and g_up: "cb_up env = Some g \<Longrightarrow> J (client_part f) \<Longrightarrow> R (client_part f) \<Longrightarrow> J (client_part (g f)) \<and> R (client_part (g f))"
begin

definition safe :: "'c fsm_scheme \<Rightarrow> bool" where
  "safe f \<longleftrightarrow> J (client_part f) \<and> (live (f_state f) \<longrightarrow> R (client_part f))"

definition guarded :: "'c fsm_scheme \<Rightarrow> bool" where
  "guarded f \<longleftrightarrow> J (client_part f) \<and> R (client_part f)"

lemma guarded_safe: "guarded f \<Longrightarrow> safe f"
  and safe_live: "safe f \<Longrightarrow> live (f_state f) \<Longrightarrow> guarded f"
  and safe_J: "safe f \<Longrightarrow> J (client_part f)" "guarded f \<Longrightarrow> J (client_part f)"
  by (simp_all add: safe_def guarded_def)

lemma prim [simp]:
  "safe (note_event e f) = safe f" "safe (TIMEOUT f) = safe f" "safe (UNTIMEOUT f) = safe f" "safe (fsm_sdata env' c i d f) = safe f"
  "safe (f\<lparr>f_retransmits := r\<rparr>) = safe f" "safe (f\<lparr>f_seen_ack := b\<rparr>) = safe f" "safe (f\<lparr>f_nakloops := r\<rparr>) = safe f"
  "safe (f\<lparr>f_rnakloops := r\<rparr>) = safe f" "safe (f\<lparr>f_id := r\<rparr>) = safe f" "safe (count_nak c f) = safe f" "safe (send_termreq env' f) = safe f"
  "safe (f\<lparr>f_term_reason := t, f_term_reason_len := r\<rparr>) = safe f"
  "guarded (note_event e f) = guarded f" "guarded (TIMEOUT f) = guarded f" "guarded (UNTIMEOUT f) = guarded f" "guarded (goto s f) = guarded f"
  "guarded (fsm_sdata env' c i d f) = guarded f" "guarded (f\<lparr>f_retransmits := r\<rparr>) = guarded f" "guarded (f\<lparr>f_seen_ack := b\<rparr>) = guarded f"
  "guarded (f\<lparr>f_nakloops := r\<rparr>) = guarded f" "guarded (f\<lparr>f_rnakloops := r\<rparr>) = guarded f"
  "guarded (f\<lparr>f_nakloops := x, f_rnakloops := y\<rparr>) = guarded f" "guarded (f\<lparr>f_retransmits := x, f_id := y, f_reqid := z\<rparr>) = guarded f"
  "guarded (f\<lparr>f_seen_ack := b, f_rnakloops := x\<rparr>) = guarded f" "safe (f\<lparr>f_seen_ack := b, f_rnakloops := x\<rparr>) = safe f"
  by (simp_all add: safe_def guarded_def)

lemma safe_goto: "J (client_part f) \<Longrightarrow> \<not> live s \<Longrightarrow> safe (goto s f)"
  by (simp add: safe_def)

lemma quiet:
  assumes "safe f" "cb \<in> {cb_down env, cb_starting env, cb_finished env, cb_retransmit env, None}"
  shows "safe (call_back cb e f)" "guarded f \<Longrightarrow> guarded (call_back cb e f)"
  using assms g_quiet [of cb _ "note_event e f"] by (cases cb; auto simp: call_back_def safe_def guarded_def)+

lemma guarded_up: "guarded f \<Longrightarrow> guarded (call_back (cb_up env) e f)"
  using g_up [of _ "note_event e f"] by (cases "cb_up env") (auto simp: call_back_def guarded_def)

lemma sconfreq:
  assumes "J (client_part f)" "negotiating (f_state f) \<Longrightarrow> R (client_part f)"
  shows "guarded (fsm_sconfreq env r f)"
proof -
  have "guarded (call_back (cb_resetci env) e f)" for e
    using g_resetci assms(1) by (auto simp: call_back_def guarded_def)
  moreover have "guarded (snd (own_cilen env g))" "guarded (snd (own_ci env n g))" if "guarded g" for g n
    using that g_own [of g] by (simp_all add: guarded_def)
  ultimately show ?thesis
    using assms by (auto simp: fsm_sconfreq_def Let_def split_beta guarded_def [of f])
qed

lemma safe_sconfreq: "safe f \<Longrightarrow> guarded (fsm_sconfreq env r f)"
  by (rule sconfreq) (auto simp: safe_def)

lemma safe_lower: "safe f \<Longrightarrow> safe (fsm_lowerup env f)" "safe f \<Longrightarrow> safe (fsm_lowerdown env f)"
proof -
  assume f: "safe f"
  show "safe (fsm_lowerup env f)"
    using f safe_sconfreq [OF f, of False] by (auto simp: fsm_lowerup_def safe_goto safe_J guarded_safe split: ppp_state.split)
  have "safe (call_back (cb_starting env) Starting (goto PPP_FSM_STARTING f))" "safe (call_back (cb_down env) Down f)"
    using quiet(1) [of "goto PPP_FSM_STARTING f"] quiet(1) [OF f] safe_goto [OF safe_J(1) [OF f]] by auto
  then show "safe (fsm_lowerdown env f)"
    using f by (auto simp: fsm_lowerdown_def safe_goto safe_J split: ppp_state.split)
qed

lemma safe_restart: "safe f \<Longrightarrow> safe (fsm_restart env f)"
  by (simp add: fsm_restart_def safe_lower)

lemma safe_open: "safe f \<Longrightarrow> safe (fsm_open env f)"
proof -
  assume f: "safe f"
  have "safe (call_back (cb_starting env) Starting (goto PPP_FSM_STARTING f))"
    using quiet(1) [of "goto PPP_FSM_STARTING f"] safe_goto [OF safe_J(1) [OF f]] by auto
  then show ?thesis
    using f safe_sconfreq [OF f, of False]
    by (auto simp: fsm_open_def safe_goto safe_J guarded_safe safe_restart split: ppp_state.split)
qed

lemma ending:
  assumes "J (client_part f)" "\<not> live s" "cb \<in> {cb_starting env, cb_finished env, cb_retransmit env, None}"
  shows "safe (call_back cb e (goto s f))"
  using quiet(1) [OF safe_goto [OF assms(1,2)]] assms(3) by blast

lemma safe_terminate:
  assumes "safe f" "s = PPP_FSM_CLOSING \<or> s = PPP_FSM_STOPPING"
  shows "safe (terminate_layer env s f)"
proof -
  have "safe (call_back (cb_down env) Down f)" using quiet(1) [OF assms(1)] by blast
  then show ?thesis
    using assms by (auto simp: terminate_layer_def Let_def safe_goto safe_J intro!: ending)
qed

lemma safe_close: "safe f \<Longrightarrow> safe (fsm_close env r f)"
  by (auto simp: fsm_close_def Let_def safe_goto safe_J intro!: safe_terminate split: ppp_state.split)

lemma safe_timeout: "safe f \<Longrightarrow> safe (fsm_timeout env f)"
proof -
  assume f: "safe f"
  have r: "safe (call_back (cb_retransmit env) Retransmit f)" using quiet(1) [OF f] by blast
  have s: "guarded (fsm_sconfreq env True (call_back (cb_retransmit env) Retransmit f))" by (rule safe_sconfreq [OF r])
  show ?thesis
    using f s by (auto simp: fsm_timeout_def Let_def guarded_safe safe_goto safe_J intro!: ending)
qed

lemma answer:
  assumes "guarded f"
  shows "safe (answer_confreq env i inp f)"
proof -
  have g: "guarded (snd (reqci_answer env inp f))" using g_reqci [of f inp] assms by (simp add: guarded_def)
  obtain code out h where r: "reqci_answer env inp f = ((code, out), h)" by (metis prod.exhaust)
  have h: "guarded h" using g r by simp
  have "guarded (answer_confreq env i inp f)"
    unfolding answer_confreq_def r prod.case Let_def using h by (simp add: guarded_up)
  then show ?thesis by (rule guarded_safe)
qed

lemma safe_confreq:
  assumes "safe f" "f_state f \<noteq> PPP_FSM_INITIAL" "f_state f \<noteq> PPP_FSM_STARTING"
  shows "safe (fsm_rconfreq env i inp f)"
proof -
  have "safe (call_back (cb_down env) Down f)" using quiet(1) [OF assms(1)] by blast
  then have "guarded (before_answer env f)" if "f_state f \<notin> {PPP_FSM_CLOSED, PPP_FSM_CLOSING, PPP_FSM_STOPPING}"
    using that assms safe_sconfreq [of "call_back (cb_down env) Down f" False] safe_sconfreq [OF assms(1), of False]
    by (cases "f_state f") (simp_all add: before_answer_def safe_live)
  then show ?thesis using assms(1) answer by (auto simp: fsm_rconfreq_def)
qed

lemma safe_confack: "safe f \<Longrightarrow> safe (fsm_rconfack env i inp f)"
proof -
  assume f: "safe f"
  let ?f = "f\<lparr>f_seen_ack := True, f_rnakloops := 0\<rparr>"
  have s: "safe ?f" "f_state ?f = f_state f" using f by simp_all
  have d: "safe (call_back (cb_down env) Down ?f)" using quiet(1) [OF s(1)] by blast
  have u: "safe (call_back (cb_up env) Up ((goto PPP_FSM_OPENED (UNTIMEOUT ?f))\<lparr>f_retransmits := n\<rparr>))" if "live (f_state f)" for n
    using that safe_live [OF f] by (intro guarded_safe guarded_up) simp
  have q: "safe (goto PPP_FSM_REQSENT (fsm_sconfreq env False g))" if "safe g" for g
    using that safe_sconfreq by (simp add: guarded_safe)
  have a: "safe (goto PPP_FSM_ACKRCVD ?f)" if "live (f_state f)"
    using that safe_live [OF f] by (intro guarded_safe) simp
  show ?thesis
    using f s d u a q [of "UNTIMEOUT ?f"] q [OF d] by (cases "f_state f") (auto simp: fsm_rconfack_def Let_def)
qed

lemma safe_confnakrej: "safe f \<Longrightarrow> safe (fsm_rconfnakrej env code i inp f)"
proof -
  assume f: "safe f"
  obtain r g where n: "nakrej_result env code inp (count_nak code f) = (r, g)" by (metis prod.exhaust)
  have g: "safe g" using g_nakrej [of "count_nak code f" code inp] f n by (auto simp: safe_def Let_def)
  let ?g = "g\<lparr>f_seen_ack := True\<rparr>"
  have s: "safe ?g" "f_state ?g = f_state g" using g by simp_all
  have d: "safe (call_back (cb_down env) Down ?g)" using quiet(1) [OF s(1)] by blast
  have q: "guarded (fsm_sconfreq env False h)" if "safe h" for h
    using that by (rule safe_sconfreq)
  have t: "safe (goto PPP_FSM_STOPPED (UNTIMEOUT ?g))" using safe_J(1) [OF s(1)] by (intro safe_goto) simp_all
  show ?thesis
    using f s d t q [of "UNTIMEOUT ?g"] q [OF d] g
    by (cases "f_state g") (auto simp: fsm_rconfnakrej_def n Let_def guarded_safe)
qed

lemma safe_term:
  assumes "safe f"
  shows "safe (fsm_rtermreq env i f)" "safe (fsm_rtermack env f)" "safe (fsm_rcoderej inp f)" "safe (fsm_protreject env f)"
proof -
  note j = safe_J(1) [OF assms]
  have d: "safe (call_back (cb_down env) Down (goto PPP_FSM_STOPPING (f\<lparr>f_retransmits := 0\<rparr>)))"
    using quiet(1) [OF safe_goto [of "f\<lparr>f_retransmits := 0\<rparr>" PPP_FSM_STOPPING]] j by simp
  have r: "safe (goto PPP_FSM_REQSENT f)" if "live (f_state f)" using safe_live [OF assms that] by (simp add: guarded_safe)
  have q: "safe (goto PPP_FSM_REQSENT (fsm_sconfreq env False (call_back (cb_down env) Down f)))"
    using quiet(1) [OF assms] safe_sconfreq by (simp add: guarded_safe)
  show "safe (fsm_rtermreq env i f)" using assms d r by (cases "f_state f") (auto simp: fsm_rtermreq_def Let_def)
  show "safe (fsm_rtermack env f)"
    using assms r q j by (cases "f_state f") (auto simp: fsm_rtermack_def intro!: ending)
  show "safe (fsm_rcoderej inp f)" using assms r by (auto simp: fsm_rcoderej_def)
  show "safe (fsm_protreject env f)"
    using assms j safe_terminate [OF assms] by (cases "f_state f") (auto simp: fsm_protreject_def intro!: ending)
qed

lemma safe_input:
  assumes "safe f"
  shows "safe (fsm_input env p f)"
proof -
  have x: "safe (snd (ext_answer env code i inp f))" for code i inp
    using g_ext [of f code i inp] assms by (auto simp: safe_def Let_def)
  have "safe (fsm_dispatch env code i inp q f)" if "f_state f \<noteq> PPP_FSM_INITIAL" "f_state f \<noteq> PPP_FSM_STARTING" for code i inp q
    using assms x [of code i inp] safe_confreq [OF assms that] safe_confack safe_confnakrej safe_term
    by (auto simp: fsm_dispatch_def Let_def split: prod.split bool.split)
  then show ?thesis using assms by (simp add: fsm_input_def Let_def)
qed

end

end
