(* ===== verification/Ppp_Lcp_Correct.thy ===== *)
theory Ppp_Lcp_Correct
  imports Ppp_Lcp Ppp_Guard Ppp_Auth_Run
begin

text \<open>
  What LCP guarantees under the engine's settings (\<open>src/lwip/src/netif/ppp/lcp.c\<close> with \<open>auth.c\<close> above it): in no run does it agree
  to another authentication than MS-CHAPv2, and the MTU it gives to the interface stays within its limits.
\<close>

section \<open>The invariant\<close>

text \<open>Above LCP: the engine asks for MS-CHAPv2 and nothing else, and a CHAP client that was started speaks it.\<close>

definition auth_ok :: "auth_unit \<Rightarrow> bool" where
  "auth_ok s \<longleftrightarrow> u_refuse_chap (a_unit s) \<and> u_refuse_mschap (a_unit s) \<and> \<not> u_refuse_mschap_v2 (a_unit s)
     \<and> (bit (chap_flags (a_chap s)) 1 \<longrightarrow> chap_digest (a_chap s) = chapms2_digest)"

definition own_ok :: "lcp_options \<Rightarrow> bool" where
  "own_ok go \<longleftrightarrow> \<not> neg_chap go \<and> mru go \<le> PPP_DEFMRU"

definition his_ok :: "lcp_options \<Rightarrow> bool" where
  "his_ok ho \<longleftrightarrow> (neg_chap ho \<longrightarrow> chap_mdtype ho = MDTYPE_MICROSOFT_V2) \<and> (neg_mru ho \<longrightarrow> PPP_MINMRU \<le> mru ho)"

definition lcp_J :: "lcp_unit \<Rightarrow> bool" where
  "lcp_J i \<longleftrightarrow> auth_ok (l_auth i) \<and> \<not> l_fatal i \<and> \<not> neg_chap (lcp_wantoptions i) \<and> mru (lcp_wantoptions i) = PPP_MRU
     \<and> mru (lcp_allowoptions i) = PPP_MAXMRU \<and> own_ok (lcp_gotoptions i) \<and> his_ok (lcp_hisoptions i)"

text \<open>After the options have been reset, what the peer may ask for is MS-CHAPv2 at most.\<close>

definition lcp_R :: "lcp_unit \<Rightarrow> bool" where
  "lcp_R i \<longleftrightarrow> (\<forall>d. CHAP_CANDIGEST (chap_mdtype (lcp_allowoptions i)) d \<longrightarrow> d = CHAP_MICROSOFT_V2)"

section \<open>What leaves the options alone\<close>

definition lcp_frame :: "lcp_unit \<Rightarrow> lcp_unit \<Rightarrow> bool" where
  "lcp_frame i j \<longleftrightarrow> lcp_wantoptions j = lcp_wantoptions i \<and> lcp_gotoptions j = lcp_gotoptions i
     \<and> lcp_allowoptions j = lcp_allowoptions i \<and> lcp_hisoptions j = lcp_hisoptions i \<and> l_fatal j = l_fatal i
     \<and> (auth_ok (l_auth i) \<longrightarrow> auth_ok (l_auth j))"

text \<open>A step that leaves the options alone and does not enter the negotiation.\<close>

definition quiet_step :: "lcp_fsm \<Rightarrow> lcp_fsm \<Rightarrow> bool" where
  "quiet_step f g \<longleftrightarrow> lcp_frame (f_pcb f) (f_pcb g) \<and> (live (f_state g) \<longrightarrow> live (f_state f))"

lemma frame_refl [simp]: "lcp_frame i i" and frame_trans: "lcp_frame i j \<Longrightarrow> lcp_frame j k \<Longrightarrow> lcp_frame i k"
  by (simp_all add: lcp_frame_def)

lemma quiet_refl [simp]: "quiet_step f f" and quiet_trans: "quiet_step f g \<Longrightarrow> quiet_step g h \<Longrightarrow> quiet_step f h"
  by (auto simp: quiet_step_def intro: frame_trans)

lemma frame_J: "lcp_frame i j \<Longrightarrow> lcp_J i \<Longrightarrow> lcp_J j" "lcp_frame i j \<Longrightarrow> lcp_R i \<Longrightarrow> lcp_R j"
  by (simp_all add: lcp_frame_def lcp_J_def lcp_R_def)

lemma frame_lauth: "(auth_ok (l_auth i) \<Longrightarrow> auth_ok (g (l_auth i))) \<Longrightarrow> lcp_frame i (on_lauth g i)"
  by (simp add: lcp_frame_def on_lauth_def)

lemma auth_ok_unit:
  "(\<And>u. u_refuse_chap (g u) = u_refuse_chap u \<and> u_refuse_mschap (g u) = u_refuse_mschap u \<and> u_refuse_mschap_v2 (g u) = u_refuse_mschap_v2 u)
     \<Longrightarrow> auth_ok (on_unit g s) = auth_ok s"
  by (simp add: auth_ok_def)

lemma refuse_simps [simp]:
  "u_refuse_chap (do_call c u) = u_refuse_chap u" "u_refuse_mschap (do_call c u) = u_refuse_mschap u"
  "u_refuse_mschap_v2 (do_call c u) = u_refuse_mschap_v2 u" "u_refuse_chap (new_phase p u) = u_refuse_chap u"
  "u_refuse_mschap (new_phase p u) = u_refuse_mschap u" "u_refuse_mschap_v2 (new_phase p u) = u_refuse_mschap_v2 u"
  "u_refuse_chap (on_unit_pcb h u) = u_refuse_chap u" "u_refuse_mschap (on_unit_pcb h u) = u_refuse_mschap u"
  "u_refuse_mschap_v2 (on_unit_pcb h u) = u_refuse_mschap_v2 u"
  by (simp_all add: do_call_def new_phase_def on_unit_pcb_def)

lemma auth_ok_simps [simp]:
  "auth_ok (on_unit (on_unit_pcb h) s) = auth_ok s" "auth_ok (on_unit (do_call c) s) = auth_ok s"
  "auth_ok (on_unit (new_phase p) s) = auth_ok s" "auth_ok (on_unit (\<lambda>u. u\<lparr>u_err := e\<rparr>) s) = auth_ok s"
  "auth_ok (on_unit ppp_link_terminated s) = auth_ok s" "auth_ok (net_call nc s) = auth_ok s" "auth_ok (on_ccp k s) = auth_ok s"
  "auth_ok (s\<lparr>a_magic := m\<rparr>) = auth_ok s" "auth_ok (s\<lparr>a_np_open := b\<rparr>) = auth_ok s" "auth_ok (s\<lparr>a_np_up := b\<rparr>) = auth_ok s"
  "auth_ok (s\<lparr>a_pending := w\<rparr>) = auth_ok s" "auth_ok (s\<lparr>a_held_pbufs := n\<rparr>) = auth_ok s" "auth_ok (report_failure c' m' s) = auth_ok s"
  by (simp_all add: auth_ok_def ppp_link_terminated_def report_failure_def)

lemma auth_ok_chap:
  "auth_ok s \<Longrightarrow> auth_ok (on_chap (\<lambda>c. c\<lparr>chap_flags := 0\<rparr>) s)"
  "auth_ok s \<Longrightarrow> auth_ok (on_chap (\<lambda>c. c\<lparr>chap_flags := chap_flags c AND x\<rparr>) s)"
  "auth_ok s \<Longrightarrow> auth_ok (on_chap (\<lambda>c. c\<lparr>chap_flags := chap_flags c OR AUTH_DONE\<rparr>) s)"
  "auth_ok s \<Longrightarrow> auth_ok (on_chap (\<lambda>c. c\<lparr>chap_flags := chap_flags c OR AUTH_FAILED\<rparr>) s)"
  "auth_ok s \<Longrightarrow> auth_ok (on_chap (\<lambda>c. c\<lparr>chap_flags := chap_flags c OR LOWERUP\<rparr>) s)"
  by (auto simp: auth_ok_def AUTH_DONE_def AUTH_FAILED_def LOWERUP_def bit_simps)

lemma auth_ok_fail: "auth_ok (auth_withpeer_fail s) = auth_ok s"
  by (simp add: auth_withpeer_fail_def lcp_close_call_def)

lemma auth_ok_above:
  "auth_ok s \<Longrightarrow> auth_ok (link_down cb s)" "auth_ok s \<Longrightarrow> auth_ok (chap_protrej s)"
  by (simp_all add: link_down_def upper_layers_down_def chap_lowerdown_def Let_def auth_ok_chap chap_protrej_def auth_ok_fail)

lemma quiet_pcb: "lcp_frame (f_pcb f) (g (f_pcb f)) \<Longrightarrow> quiet_step f (on_pcb g f)"
  by (simp add: quiet_step_def on_pcb_def)

lemma quiet_prim [simp]:
  "quiet_step f (note_event e f)" "quiet_step f (TIMEOUT f)" "quiet_step f (UNTIMEOUT f)" "quiet_step f (fsm_sdata env c i d f)"
  "quiet_step f (send_termreq env f)" "quiet_step f (f\<lparr>f_retransmits := r\<rparr>)" "quiet_step f (f\<lparr>f_flags := b\<rparr>)"
  "quiet_step f (f\<lparr>f_term_reason := t, f_term_reason_len := n\<rparr>)" "\<not> live s \<Longrightarrow> quiet_step f (goto s f)"
  by (simp_all add: quiet_step_def send_termreq_def next_id_def Let_def)

lemma quiet_sync [simp]: "quiet_step f (lcp_sync f)"
  unfolding lcp_sync_def by (intro quiet_pcb frame_lauth) simp

lemma quiet_call_auth: "(\<And>s. auth_ok s \<Longrightarrow> auth_ok (g s)) \<Longrightarrow> quiet_step f (call_auth g f)"
  unfolding call_auth_def by (rule quiet_trans [OF quiet_sync]) (intro quiet_pcb frame_lauth, simp)

lemma quiet_flags [simp]: "quiet_step f (clear_flag b f)" "quiet_step f (set_flag b f)" "quiet_step f (untimeout_delay f)"
  by (simp_all add: clear_flag_def set_flag_def untimeout_delay_def quiet_step_def lcp_frame_def on_pcb_def)

lemma quiet_down: "quiet_step f (lcp_down cb f)"
proof -
  have "quiet_step f (lcp_echo_lowerdown f)" unfolding lcp_echo_lowerdown_def by (intro quiet_pcb) (simp add: lcp_frame_def)
  moreover have "quiet_step g (call_auth (link_down cb) g)" for g by (rule quiet_call_auth) (simp add: auth_ok_above)
  moreover have "quiet_step g (on_pcb (\<lambda>i. let go = lcp_gotoptions i
      in (on_lauth (on_unit (\<lambda>u. ppp_recv_config (if neg_asyncmap go then asyncmap go else 0xffffffff) (neg_pcompression go)
            (neg_accompression go) (ppp_send_config 0xffffffff False False u))) i)\<lparr>l_peer_mru := PPP_DEFMRU\<rparr>) g)" for g
    by (intro quiet_pcb) (simp add: lcp_frame_def on_lauth_def Let_def auth_ok_unit ppp_recv_config_def ppp_send_config_def)
  ultimately show ?thesis unfolding lcp_down_def by (meson quiet_trans)
qed

lemma quiet_call: "(\<And>f. quiet_step f (g f)) \<Longrightarrow> cb = None \<or> cb = Some g \<Longrightarrow> quiet_step f (call_back cb e f)"
  by (auto simp: call_back_def) (rule quiet_trans [OF quiet_prim(1)], blast)

lemma quiet_lowerdown: "quiet_step f (lcp_lowerdown cb base f)"
proof -
  have d: "quiet_step g (call_back (cb_down (lcp_lower cb base)) Down g)" for g
    by (rule quiet_call [of "lcp_down cb"]) (simp_all add: quiet_down lcp_lower_def)
  have s: "quiet_step g (call_back (cb_starting (lcp_lower cb base)) Starting g)" for g
    by (rule quiet_call [of lcp_starting]) (simp_all add: lcp_starting_def lcp_lower_def)
  have "quiet_step f (fsm_lowerdown (lcp_lower cb base) f)"
    using quiet_trans [OF quiet_prim(9) s] quiet_trans [OF d quiet_prim(9)] quiet_trans [OF quiet_prim(9) quiet_prim(3)]
    by (cases "f_state f") (simp_all add: fsm_lowerdown_def)
  then show ?thesis
    unfolding lcp_lowerdown_def using quiet_trans [OF quiet_flags(1) quiet_flags(3)] quiet_trans [OF _ quiet_sync] by auto
qed

lemma quiet_finished: "quiet_step f (lcp_finished cb base f)"
proof -
  have a: "quiet_step g (on_pcb (on_lauth (on_unit (\<lambda>u. do_call Lcp_lowerdown_call (new_phase PPP_PHASE_DISCONNECT u)))) g)"
      "quiet_step g (on_pcb (on_lauth (on_unit ppp_link_terminated)) g)" for g
    by (intro quiet_pcb frame_lauth; simp add: auth_ok_unit)+
  show ?thesis unfolding lcp_finished_def using quiet_trans [OF quiet_trans [OF a(1) quiet_lowerdown] a(2)] by simp
qed

lemma quiet_ending:
  "quiet_step f (call_back (cb_finished (lcp_closing cb base)) e f)" "quiet_step f (call_back (cb_down (lcp_closing cb base)) e f)"
  "s = PPP_FSM_CLOSING \<or> s = PPP_FSM_STOPPING \<Longrightarrow> quiet_step f (terminate_layer (lcp_closing cb base) s f)"
proof -
  show fin: "quiet_step f (call_back (cb_finished (lcp_closing cb base)) e f)" for f
    by (rule quiet_call [of "lcp_finished cb base"]) (simp_all add: quiet_finished lcp_closing_def)
  show d: "quiet_step f (call_back (cb_down (lcp_closing cb base)) e f)" for f e
    by (rule quiet_call [of "lcp_down cb"]) (simp_all add: quiet_down lcp_closing_def lcp_lower_def)
  have fin': "quiet_step f (call_back (cb_finished (lcp_closing cb base)) e f)" for f e
    by (rule quiet_call [of "lcp_finished cb base"]) (simp_all add: quiet_finished lcp_closing_def)
  assume s: "s = PPP_FSM_CLOSING \<or> s = PPP_FSM_STOPPING"
  define f1 where "f1 = (if f_state f \<noteq> PPP_FSM_OPENED then UNTIMEOUT f else call_back (cb_down (lcp_closing cb base)) Down f)"
  define f2 where "f2 = send_termreq (lcp_closing cb base) (f1\<lparr>f_retransmits := max_term_transmits (lcp_closing cb base)\<rparr>)"
  have "quiet_step f f1" using d by (simp add: f1_def)
  then have f2: "quiet_step f f2" unfolding f2_def by (blast intro: quiet_trans quiet_prim(5,6))
  have "quiet_step f2 (call_back (cb_finished (lcp_closing cb base)) Finished (goto t f2))" if "\<not> live t" for t
    using quiet_trans [OF quiet_prim(9) [OF that] fin'] .
  moreover have "quiet_step f2 (goto s ((TIMEOUT f2)\<lparr>f_retransmits := n\<rparr>))" for n
    using s by (intro quiet_trans [OF quiet_prim(2) quiet_trans [OF quiet_prim(6) quiet_prim(9)]]) auto
  ultimately show "quiet_step f (terminate_layer (lcp_closing cb base) s f)"
    unfolding terminate_layer_def f1_def [symmetric] Let_def f2_def [symmetric] using quiet_trans [OF f2] by simp
qed

lemma quiet_fsm_close: "quiet_step f (fsm_close (lcp_closing cb base) r f)"
proof -
  let ?f = "f\<lparr>f_term_reason := r, f_term_reason_len := (case r of None \<Rightarrow> 0 | Some r \<Rightarrow> of_nat (min (length r) 255))\<rparr>"
  have "quiet_step ?f (fsm_close (lcp_closing cb base) r f)"
    by (cases "f_state f") (simp_all add: fsm_close_def Let_def quiet_ending(3))
  then show ?thesis using quiet_trans [OF quiet_prim(8)] by blast
qed

lemma quiet_close: "quiet_step f (lcp_close cb base reason f)"
proof -
  define f1 where "f1 = (if u_phase (a_unit (l_auth (f_pcb f))) \<noteq> PPP_PHASE_DEAD
      then on_pcb (on_lauth (on_unit (new_phase PPP_PHASE_TERMINATE))) f else f)"
  define f2 where "f2 = (if has_flag DELAYED_UP f1 then goto PPP_FSM_STOPPED (untimeout_delay f1) else f1)"
  define f3 where "f3 = fsm_close (lcp_closing cb base) (Some (text_octets reason)) f2"
  have "quiet_step f f1" unfolding f1_def by (auto intro!: quiet_pcb frame_lauth)
  moreover have "quiet_step f1 f2" unfolding f2_def using quiet_trans [OF quiet_flags(3) quiet_prim(9)] by auto
  moreover have "quiet_step f2 f3" unfolding f3_def by (rule quiet_fsm_close)
  ultimately have f3: "quiet_step f f3" by (blast intro: quiet_trans)
  have "quiet_step f3 (lcp_finished cb base (clear_flag DELAYED_UP f3))" by (rule quiet_trans [OF quiet_flags(1) quiet_finished])
  then show ?thesis
    unfolding lcp_close_def f1_def [symmetric] Let_def f2_def [symmetric] f3_def [symmetric]
    using quiet_trans [OF f3 quiet_sync] quiet_trans [OF f3 quiet_trans [OF _ quiet_sync]] by simp
qed

lemma quiet_protrej: "quiet_step f (lcp_protrej cb base f)"
proof -
  have "quiet_step f (call_back (cb_finished (lcp_closing cb base)) Finished (goto t g))" if "\<not> live t" "quiet_step f g" for t g
    using quiet_trans [OF that(2) quiet_trans [OF quiet_prim(9) [OF that(1)] quiet_ending(1)]] .
  then show ?thesis by (cases "f_state f") (simp_all add: lcp_protrej_def fsm_protreject_def quiet_ending(3))
qed

section \<open>Echoes and Protocol-Rejects\<close>

lemma quiet_echo:
  "quiet_step f (LcpLinkFailure cb base f)" "quiet_step f (LcpSendEchoRequest cb base f)" "quiet_step f (LcpEchoCheck cb base f)"
  "quiet_step f (LcpEchoTimeout cb base f)" "quiet_step f (lcp_echo_lowerup cb base f)"
proof -
  have e: "quiet_step f (on_pcb (on_lauth (on_unit (\<lambda>u. u\<lparr>u_err := e\<rparr>))) f)" for f e by (intro quiet_pcb frame_lauth) simp
  have p: "quiet_step f (on_pcb (\<lambda>i. i\<lparr>lcp_echos_pending := x\<rparr>) f)" "quiet_step f (on_pcb (\<lambda>i. i\<lparr>lcp_echo_timer_running := b\<rparr>) f)"
      "quiet_step f (on_pcb (\<lambda>i. i\<lparr>lcp_echo_number := x, lcp_echos_pending := y\<rparr>) f)"
      "quiet_step f (on_pcb (\<lambda>i. i\<lparr>lcp_echos_pending := x, lcp_echo_number := y, lcp_echo_timer_running := b\<rparr>) f)"
      "quiet_step f (on_pcb (\<lambda>i. i\<lparr>l_echo_timers := l_echo_timers i + 1, lcp_echo_timer_running := b\<rparr>) f)" for f x y b
    by (intro quiet_pcb; simp add: lcp_frame_def)+
  show lf: "quiet_step f (LcpLinkFailure cb base f)" for f
    unfolding LcpLinkFailure_def using quiet_trans [OF e quiet_close] by simp
  have f1: "quiet_step f (if c then on_pcb (\<lambda>i. i\<lparr>lcp_echos_pending := 0\<rparr>) (LcpLinkFailure cb base f) else f)" for f c
    using quiet_trans [OF lf p(1)] by simp
  show se: "quiet_step f (LcpSendEchoRequest cb base f)" for f
    unfolding LcpSendEchoRequest_def Let_def using f1 quiet_trans [OF f1 quiet_trans [OF quiet_prim(4) p(3)]] by auto
  show ec: "quiet_step f (LcpEchoCheck cb base f)" for f
    unfolding LcpEchoCheck_def Let_def using se quiet_trans [OF se p(5)] by simp
  show "quiet_step f (LcpEchoTimeout cb base f)"
    unfolding LcpEchoTimeout_def using quiet_trans [OF p(2) quiet_trans [OF ec quiet_sync]] by simp
  show "quiet_step f (lcp_echo_lowerup cb base f)"
    unfolding lcp_echo_lowerup_def Let_def using p(4) quiet_trans [OF p(4) ec] by simp
qed

lemma quiet_extcode: "quiet_step f (snd (lcp_extcode cb base f code i inp))"
proof -
  have "quiet_step f (call_auth chap_protrej f)" "quiet_step f (call_auth (net_call Ipcp_lowerdown) f)"
      "quiet_step f (call_auth (on_ccp (ccp_protrej cb)) f)"
    by (rule quiet_call_auth; simp add: auth_ok_above)+
  moreover have "quiet_step f (on_pcb (lcp_received_echo_reply inp) f)"
    by (intro quiet_pcb) (simp add: lcp_received_echo_reply_def lcp_frame_def Let_def)
  ultimately show ?thesis by (simp add: lcp_extcode_def lcp_rprotrej_def Let_def quiet_protrej)
qed

section \<open>Resetting our options\<close>

lemma own_ok_simps [simp]:
  "own_ok (go\<lparr>neg_ssnhf := b\<rparr>) = own_ok go" "own_ok (go\<lparr>neg_endpoint := b\<rparr>) = own_ok go" "own_ok (go\<lparr>numloops := n\<rparr>) = own_ok go"
  "own_ok (go\<lparr>magicnumber := m\<rparr>) = own_ok go" "own_ok (go\<lparr>asyncmap := m\<rparr>) = own_ok go" "own_ok (go\<lparr>neg_cbcp := b\<rparr>) = own_ok go"
  "own_ok (go\<lparr>neg_pcompression := b\<rparr>) = own_ok go" "own_ok (go\<lparr>neg_accompression := b\<rparr>) = own_ok go"
  "own_ok (go\<lparr>neg_mru := b\<rparr>) = own_ok go" "own_ok (go\<lparr>neg_asyncmap := b\<rparr>) = own_ok go" "own_ok (go\<lparr>neg_magicnumber := b\<rparr>) = own_ok go"
  by (simp_all add: own_ok_def)

lemma own_ok_mru: "own_ok go \<Longrightarrow> v \<le> PPP_DEFMRU \<Longrightarrow> own_ok (go\<lparr>mru := v\<rparr>)" "own_ok go \<Longrightarrow> own_ok (go\<lparr>neg_chap := False\<rparr>)"
  by (simp_all add: own_ok_def)

lemma md_masked:
  "((m AND NOT MDTYPE_MD5) AND NOT MDTYPE_MICROSOFT) AND MDTYPE_MICROSOFT = 0" "((m AND NOT MDTYPE_MD5) AND NOT MDTYPE_MICROSOFT) AND MDTYPE_MD5 = 0"
  by (intro bit_word_eqI; auto simp: bit_simps)+

lemma resetci_safe:
  assumes "lcp_J (f_pcb f)"
  shows "lcp_J (f_pcb (lcp_resetci f))" "lcp_R (f_pcb (lcp_resetci f))"
proof -
  let ?i = "f_pcb f"
  obtain m ms where g: "magic (a_magic (l_auth ?i)) = (m, ms)" by (cases "magic (a_magic (l_auth ?i))")
  have a: "mru (allowed_auth ?i) = mru (lcp_allowoptions ?i)" by (simp add: allowed_auth_def Let_def)
  have "u_refuse_chap (a_unit (l_auth ?i))" "u_refuse_mschap (a_unit (l_auth ?i))" "\<not> u_refuse_mschap_v2 (a_unit (l_auth ?i))"
    using assms by (simp_all add: lcp_J_def auth_ok_def)
  then have c: "CHAP_CANDIGEST (chap_mdtype (allowed_auth ?i)) d \<Longrightarrow> d = CHAP_MICROSOFT_V2" for d
    by (auto simp: allowed_auth_def Let_def CHAP_CANDIGEST_def md_masked MDTYPE_NONE_def split: if_splits)
  have w: "own_ok ((lcp_wantoptions ?i)\<lparr>magicnumber := m, numloops := 0, neg_ssnhf := False, neg_endpoint := False\<rparr>)"
    using assms by (simp add: lcp_J_def own_ok_def PPP_MRU_def PPP_DEFMRU_def)
  show "lcp_J (f_pcb (lcp_resetci f))"
    using assms w a g by (simp add: lcp_resetci_def lcp_J_def on_pcb_def Let_def on_lauth_def)
  show "lcp_R (f_pcb (lcp_resetci f))"
    using c g by (simp add: lcp_resetci_def lcp_R_def on_pcb_def Let_def on_lauth_def)
qed

section \<open>Answers to our options\<close>

definition nak_ok_state :: "lnak \<Rightarrow> bool" where
  "nak_ok_state s \<longleftrightarrow> own_ok (snd (snd s))"

lemma nak_steps:
  "nak_ok_state s \<Longrightarrow> mru wo = PPP_MRU \<Longrightarrow> nak_ok_state (lnak_mru go wo s)" "nak_ok_state s \<Longrightarrow> nak_ok_state (lnak_asyncmap go s)"
  "nak_ok_state s \<Longrightarrow> nak_ok_state (lnak_cbcp go s)" "nak_ok_state s \<Longrightarrow> nak_ok_state (lnak_magic go m s)"
  "nak_ok_state s \<Longrightarrow> (\<And>b t. own_ok (upd b t) = own_ok t) \<Longrightarrow> nak_ok_state (lnak_void opt neg upd s)"
  "nak_ok_state s \<Longrightarrow> nak_ok_state (lnak_endp go s)"
  by (auto simp: nak_ok_state_def lnak_mru_def lnak_asyncmap_def lnak_cbcp_def lnak_magic_def lnak_void_def lnak_endp_def Let_def
      own_ok_mru PPP_MRU_def PPP_DEFMRU_def split: prod.split)

lemma nak_auth: "\<not> neg_chap go \<Longrightarrow> lnak_auth go s = Some s"
  by (simp add: lnak_auth_def Let_def split: prod.split)

lemma own_ok_extra: "own_ok tri \<Longrightarrow> lnak_extra go no p cilen tri = Some t \<Longrightarrow> own_ok t"
  by (auto simp: lnak_extra_def Let_def own_ok_mru split: if_splits)

lemma own_ok_rest: "lnak_rest go no p tri = Some t \<Longrightarrow> own_ok tri \<Longrightarrow> own_ok t"
proof (induction go no p tri rule: lnak_rest.induct)
  case (1 go no p tri)
  show ?case
  proof (cases "length p < CILEN_VOID")
    case True
    then show ?thesis using "1.prems" by (simp add: lnak_rest.simps [of go no p tri])
  next
    case False
    then have c: "\<not> (unat (p ! 1) < CILEN_VOID \<or> length p < unat (p ! 1))"
      using "1.prems"(1) by (auto simp: lnak_rest.simps [of go no p tri] Let_def split: if_splits)
    obtain t1 where e: "lnak_extra go no p (unat (p ! 1)) tri = Some t1" "lnak_rest go no (drop (unat (p ! 1)) p) t1 = Some t"
      using "1.prems"(1) False c by (auto simp: lnak_rest.simps [of go no p tri] Let_def split: option.splits)
    show ?thesis using "1.IH" [OF False refl c e] own_ok_extra [OF "1.prems"(2) e(1)] by blast
  qed
qed

text \<open>A step after which our own options are new ones that are still acceptable.\<close>

lemma own_update:
  assumes "quiet_step f g" "lcp_J (f_pcb f)" "own_ok go"
  shows "lcp_J (f_pcb (on_pcb (\<lambda>i. i\<lparr>lcp_gotoptions := go\<rparr>) g))" "lcp_R (f_pcb f) \<Longrightarrow> lcp_R (f_pcb (on_pcb (\<lambda>i. i\<lparr>lcp_gotoptions := go\<rparr>) g))"
    "live (f_state (on_pcb (\<lambda>i. i\<lparr>lcp_gotoptions := go\<rparr>) g)) \<Longrightarrow> live (f_state f)"
  using assms frame_J [of "f_pcb f" "f_pcb g"] by (simp_all add: quiet_step_def lcp_J_def lcp_R_def on_pcb_def)

definition good_step :: "lcp_fsm \<Rightarrow> lcp_fsm \<Rightarrow> bool" where
  "good_step f g \<longleftrightarrow> lcp_J (f_pcb g) \<and> (lcp_R (f_pcb f) \<longrightarrow> lcp_R (f_pcb g)) \<and> (live (f_state g) \<longrightarrow> live (f_state f))"

lemma quiet_good: "quiet_step f g \<Longrightarrow> lcp_J (f_pcb f) \<Longrightarrow> good_step f g"
  using frame_J [of "f_pcb f" "f_pcb g"] by (auto simp: quiet_step_def good_step_def)

lemma update_good: "quiet_step f g \<Longrightarrow> lcp_J (f_pcb f) \<Longrightarrow> own_ok go \<Longrightarrow> good_step f (on_pcb (\<lambda>i. i\<lparr>lcp_gotoptions := go\<rparr>) g)"
  using own_update [of f g go] by (simp add: good_step_def)

lemma nakci_good:
  assumes J: "lcp_J (f_pcb f)"
  shows "good_step f (snd (lcp_nakci cb base f p dn))"
proof -
  let ?i = "f_pcb f"
  let ?go = "lcp_gotoptions ?i" and ?wo = "lcp_wantoptions ?i"
  have g: "\<not> neg_chap ?go" "own_ok ?go" "mru ?wo = PPP_MRU" using J by (simp_all add: lcp_J_def own_ok_def)
  obtain m ms where mg: "magic (a_magic (l_auth ?i)) = (m, ms)" by (cases "magic (a_magic (l_auth ?i))")
  define s1 where "s1 = lnak_cbcp ?go (lnak_asyncmap ?go (lnak_mru ?go ?wo (p, no_lcp, ?go)))"
  define lb where "lb = lnak_at (neg_magicnumber ?go) CI_MAGICNUMBER CILEN_LONG (fst s1)"
  define f1 where "f1 = (if lb then on_pcb (on_lauth (\<lambda>a. a\<lparr>a_magic := ms\<rparr>)) f else f)"
  obtain q no tri where s2: "lnak_endp ?go (lnak_void CI_SSNHF (neg_ssnhf ?go) (\<lambda>b t. t\<lparr>neg_ssnhf := b\<rparr>)
      (lnak_void CI_ACCOMPRESSION (neg_accompression ?go) (\<lambda>b t. t\<lparr>neg_accompression := b\<rparr>)
      (lnak_void CI_PCOMPRESSION (neg_pcompression ?go) (\<lambda>b t. t\<lparr>neg_pcompression := b\<rparr>) (lnak_magic ?go m s1)))) = (q, no, tri)"
    by (metis prod.exhaust)
  have "nak_ok_state (p, no_lcp, ?go)" using g(2) by (simp add: nak_ok_state_def)
  then have "nak_ok_state s1" unfolding s1_def using g(3) by (intro nak_steps(1-3))
  then have "nak_ok_state (q, no, tri)" unfolding s2 [symmetric] by (intro nak_steps(4-6)) simp_all
  then have t: "own_ok tri" by (simp add: nak_ok_state_def)
  have q1: "quiet_step f f1" unfolding f1_def by (auto intro!: quiet_pcb frame_lauth)
  have e: "lcp_nakci cb base f p dn = (case lnak_rest ?go no q tri of
      None \<Rightarrow> (0, f1)
    | Some tri1 \<Rightarrow> if f_state f1 = PPP_FSM_OPENED then (1, f1)
        else (let tri2 = tri1\<lparr>numloops := (if lb then numloops tri1 + 1 else 0)\<rparr>;
                  f2 = (if lb \<and> lcp_loopbackfail (f_pcb f1) \<le> numloops tri2
                        then lcp_close cb base ''Loopback detected'' (on_pcb (on_lauth (on_unit (\<lambda>u. u\<lparr>u_err := PPPERR_LOOPBACK\<rparr>))) f1) else f1)
              in (1, on_pcb (\<lambda>i. i\<lparr>lcp_gotoptions := tri2\<rparr>) f2)))"
    unfolding lcp_nakci_def Let_def nak_auth [OF g(1)] option.case s1_def [symmetric] mg prod.case s2 lb_def [symmetric] f1_def [symmetric] ..
  have err: "quiet_step f1 (lcp_close cb base r (on_pcb (on_lauth (on_unit (\<lambda>u. u\<lparr>u_err := x\<rparr>))) f1))" for r x
    by (rule quiet_trans [OF quiet_pcb quiet_close]) (simp add: frame_lauth)
  show ?thesis
  proof (cases "lnak_rest ?go no q tri")
    case None
    then show ?thesis using e quiet_good [OF q1 J] by simp
  next
    case (Some tri1)
    then have "own_ok (tri1\<lparr>numloops := x\<rparr>)" for x using own_ok_rest t by simp
    then show ?thesis using e Some quiet_good [OF q1 J] update_good [OF q1 J] update_good [OF quiet_trans [OF q1 err] J]
      by (auto simp: Let_def)
  qed
qed

lemma rej_step: "lrej neg ci clear (p, tri) = Some (q, t) \<Longrightarrow> own_ok tri \<Longrightarrow> (own_ok tri \<Longrightarrow> own_ok (clear tri)) \<Longrightarrow> own_ok t"
  by (auto simp: lrej_def Let_def split: if_splits)

lemma rej_all:
  assumes "lrej_all xs s = Some r" "own_ok (snd s)" "\<And>x t. x \<in> set xs \<Longrightarrow> own_ok t \<Longrightarrow> own_ok (snd (snd x) t)"
  shows "own_ok (snd r)"
  using assms
proof (induction xs arbitrary: s)
  case (Cons x xs)
  obtain neg ci clear where x: "x = (neg, ci, clear)" by (cases x)
  obtain s1 where s1: "lrej neg ci clear s = Some s1" "lrej_all xs s1 = Some r"
    using Cons.prems(1) by (auto simp: x bind_eq_Some_conv)
  have "own_ok (snd s1)"
    using rej_step [of neg ci clear "fst s" "snd s" "fst s1" "snd s1"] s1(1) Cons.prems(2) Cons.prems(3) [of x] x by simp
  then show ?case using Cons.IH [OF s1(2)] Cons.prems(3) by simp
qed simp

lemma rejci_good:
  assumes J: "lcp_J (f_pcb f)"
  shows "good_step f (snd (lcp_rejci f p))"
proof -
  let ?go = "lcp_gotoptions (f_pcb f)"
  have "own_ok ?go" using J by (simp add: lcp_J_def)
  then have "own_ok (snd r)" if "lrej_all (lcp_rejects ?go) (p, ?go) = Some r" for r
    by (intro rej_all [OF that]) (auto simp: lcp_rejects_def own_ok_mru)
  then show ?thesis
    using quiet_good [OF quiet_refl J] update_good [OF quiet_refl J]
    by (auto simp: lcp_rejci_def Let_def split: option.split list.split)
qed

section \<open>The options of the peer\<close>

lemma his_J: "lcp_J (lcp_set_his h i) \<longleftrightarrow> lcp_J (i\<lparr>lcp_hisoptions := no_lcp\<rparr>) \<and> his_ok (h (lcp_hisoptions i))"
    "lcp_R (lcp_set_his h i) = lcp_R i"
  by (auto simp: lcp_J_def lcp_R_def lcp_set_his_def his_ok_def no_lcp_def)

lemma his_forgotten: "lcp_J i \<Longrightarrow> lcp_J (i\<lparr>lcp_hisoptions := no_lcp\<rparr>)" "lcp_R (i\<lparr>lcp_hisoptions := h\<rparr>) = lcp_R i" "lcp_J i \<Longrightarrow> his_ok (lcp_hisoptions i)"
  by (auto simp: lcp_J_def lcp_R_def his_ok_def no_lcp_def)

lemma his_ok_simps [simp]:
  "his_ok (h\<lparr>neg_asyncmap := b\<rparr>) = his_ok h" "his_ok (h\<lparr>asyncmap := v\<rparr>) = his_ok h" "his_ok (h\<lparr>neg_magicnumber := b\<rparr>) = his_ok h"
  "his_ok (h\<lparr>neg_pcompression := b\<rparr>) = his_ok h" "his_ok (h\<lparr>neg_accompression := b\<rparr>) = his_ok h" "his_ok (h\<lparr>neg_ssnhf := b\<rparr>) = his_ok h"
  "his_ok (h\<lparr>neg_endpoint := b\<rparr>) = his_ok h" "his_ok (h\<lparr>endpoint := e\<rparr>) = his_ok h" "his_ok (h\<lparr>magicnumber := m\<rparr>) = his_ok h"
  by (simp_all add: his_ok_def)

lemma his_ok_new:
  "his_ok h \<Longrightarrow> PPP_MINMRU \<le> v \<Longrightarrow> his_ok (h\<lparr>neg_mru := True, mru := v\<rparr>)"
  "his_ok h \<Longrightarrow> his_ok (h\<lparr>chap_mdtype := MDTYPE_MICROSOFT_V2, neg_chap := True\<rparr>)"
  by (simp_all add: his_ok_def)

definition both :: "lcp_unit \<Rightarrow> bool" where
  "both i \<longleftrightarrow> lcp_J i \<and> lcp_R i"

lemma both_set: "both i \<Longrightarrow> (his_ok (lcp_hisoptions i) \<Longrightarrow> his_ok (h (lcp_hisoptions i))) \<Longrightarrow> both (lcp_set_his h i)"
  using his_forgotten by (simp add: both_def his_J)

lemma both_frame: "lcp_frame i j \<Longrightarrow> both i \<Longrightarrow> both j"
  by (simp add: both_def frame_J)

lemma req_option_both:
  assumes "both i" "lcp_req_option i p = (v, nk, i')"
  shows "both i'"
proof -
  have V2: "CHAP_MDTYPE_D (p ! 4) = MDTYPE_MICROSOFT_V2" if "CHAP_CANDIGEST (chap_mdtype (lcp_allowoptions i)) (p ! 4)"
    using that assms(1) by (simp add: both_def lcp_R_def CHAP_MDTYPE_D_def)
  have "both (on_lauth (\<lambda>a. a\<lparr>a_magic := ms\<rparr>) i)" for ms
    by (rule both_frame [OF frame_lauth assms(1)]) simp
  then have "both (snd (snd (lreq_magic i p)))"
    using assms(1) by (auto simp: lreq_magic_def Let_def split: prod.split intro!: both_set)
  moreover have "both (snd (snd (lreq_mru i p)))" using assms(1) by (simp add: lreq_mru_def Let_def both_set his_ok_new)
  moreover have "both (snd (snd (lreq_auth i p)))" using assms(1) V2 by (auto simp: lreq_auth_def Let_def intro!: both_set his_ok_new)
  moreover have "both (snd (snd (lreq_asyncmap i p)))" "both (snd (snd (lreq_endp i p)))"
    using assms(1) by (simp_all add: lreq_asyncmap_def lreq_endp_def Let_def both_set)
  moreover have "both (snd (snd (lreq_void allow upd i p)))" if "\<And>h. his_ok (upd h) = his_ok h" for allow upd
    using assms(1) that by (simp add: lreq_void_def both_set)
  ultimately have "both (snd (snd (lcp_req_option i p)))" using assms(1) by (simp add: lcp_req_option_def Let_def)
  then show ?thesis using assms(2) by simp
qed

lemma front_both: "both i \<Longrightarrow> lcp_front dn i q = (v, nk, n, i') \<Longrightarrow> both i'"
  by (auto simp: lcp_front_def Let_def split: if_splits prod.splits dest: req_option_both)

lemma scan_both:
  "both st \<Longrightarrow> lcp_scan dn st buf cip l rc rejp nak = (rc', buf', rejp', nak', st') \<Longrightarrow> both st'"
proof (induction l arbitrary: st buf cip rc rejp nak rule: less_induct)
  case (less l)
  show ?case
  proof (cases "l = 0 \<or> length buf < cip + l")
    case True
    then show ?thesis using less.prems by (auto simp: lcp_scan.simps [of dn st])
  next
    case False
    obtain orc nk n st1 where f: "lcp_front dn st (take l (drop cip buf)) = (orc, nk, n, st1)" by (metis prod.exhaust)
    have n: "l - n < l" using lcp_front_length(1) [OF _ f] False by auto
    show ?thesis
      using less.IH [OF n front_both [OF less.prems(1) f]] less.prems(2) False f
      by (auto simp: lcp_scan.simps [of dn st] Let_def split: if_splits)
  qed
qed

lemma reqci_both:
  assumes "both (f_pcb f)"
  shows "both (f_pcb (snd (lcp_reqci nak_ok f inp dn)))"
proof -
  let ?i = "(f_pcb f)\<lparr>lcp_hisoptions := no_lcp\<rparr>"
  have i: "both ?i" using assms his_forgotten by (simp add: both_def)
  obtain rc buf rejp nak i1 where s: "lcp_scan dn ?i inp 0 (length inp) CONFACK 0 [] = (rc, buf, rejp, nak, i1)" by (metis prod.exhaust)
  show ?thesis using i scan_both [OF i s] by (simp add: lcp_reqci_def Let_def s)
qed

section \<open>The link comes up\<close>

lemma started_V2:
  assumes "auth_ok s" "nc \<Longrightarrow> mdtype = MDTYPE_MICROSOFT_V2"
  shows "\<exists>s'. link_established cb nc mdtype s = Some s' \<and> auth_ok s'"
proof -
  define s1 where "s1 = on_unit (new_phase PPP_PHASE_AUTHENTICATE) (on_ccp (ccp_lowerup cb) (net_call Ipcp_lowerup (chap_lowerup s)))"
  have s1: "auth_ok s1" using assms(1) by (simp add: s1_def chap_lowerup_def auth_ok_chap)
  have "CHAP_DIGEST MDTYPE_MICROSOFT_V2 = CHAP_MICROSOFT_V2" by (simp add: CHAP_DIGEST_def MDTYPE_MICROSOFT_V2_def MDTYPE_MD5_def)
  moreover have "List.find (\<lambda>d. digest_code d = CHAP_MICROSOFT_V2) chap_digests = Some chapms2_digest"
    by (simp add: chap_digests_def CHAP_MICROSOFT_V2_def CHAP_MICROSOFT_def CHAP_MD5_def)
  moreover have "auth_ok (on_chap (\<lambda>c. c\<lparr>chap_digest := chapms2_digest, chap_name := nm, chap_flags := chap_flags c OR AUTH_STARTED\<rparr>) s1)" for nm
    using s1 by (simp add: auth_ok_def)
  ultimately have "\<exists>s2. (if nc then chap_auth_with_peer (u_user (a_unit s1)) (CHAP_DIGEST mdtype) s1 else Some s1) = Some s2 \<and> auth_ok s2"
    using s1 assms(2) by (auto simp: chap_auth_with_peer_def)
  then obtain s2 where s2: "(if nc then chap_auth_with_peer (u_user (a_unit s1)) (CHAP_DIGEST mdtype) s1 else Some s1) = Some s2" "auth_ok s2"
    by blast
  have n: "auth_ok (network_phase cb t) = auth_ok t" for t
    by (simp add: network_phase_def start_networks_def continue_networks_def Let_def lcp_close_call_def)
  show ?thesis
    unfolding link_established_def Let_def s1_def [symmetric] s2(1) using s2(2) n by simp
qed

lemma configure_both: "both i \<Longrightarrow> both (lcp_configure i)"
  by (auto simp: both_def lcp_J_def lcp_R_def lcp_configure_def Let_def on_lauth_def auth_ok_unit ppp_recv_config_def ppp_send_config_def
      ppp_netif_set_mtu_def)

lemma up_both:
  assumes "both (f_pcb f)"
  shows "both (f_pcb (lcp_up cb base f))"
proof -
  define g where "g = lcp_sync (lcp_echo_lowerup cb base (on_pcb lcp_configure f))"
  have "quiet_step (on_pcb lcp_configure f) g" unfolding g_def by (rule quiet_trans [OF quiet_echo(5) quiet_sync])
  moreover have "both (f_pcb (on_pcb lcp_configure f))" using configure_both [OF assms] by (simp add: on_pcb_def)
  ultimately have g: "both (f_pcb g)" using both_frame by (auto simp: quiet_step_def)
  then have "auth_ok (l_auth (f_pcb g))" "neg_chap (lcp_hisoptions (f_pcb g)) \<Longrightarrow> chap_mdtype (lcp_hisoptions (f_pcb g)) = MDTYPE_MICROSOFT_V2"
    by (simp_all add: both_def lcp_J_def his_ok_def)
  from started_V2 [OF this] obtain a where
    "link_established cb (neg_chap (lcp_hisoptions (f_pcb g))) (chap_mdtype (lcp_hisoptions (f_pcb g))) (l_auth (f_pcb g)) = Some a" "auth_ok a"
    by blast
  then have "both (call_link_established cb (f_pcb g))"
    using g by (simp add: call_link_established_def both_def lcp_J_def lcp_R_def)
  then show ?thesis unfolding lcp_up_def g_def [symmetric] by (simp add: on_pcb_def)
qed

section \<open>LCP as a client of the automaton\<close>

lemma lcp_table:
  "cb_resetci (lcp_callbacks cb nak_ok base) = Some lcp_resetci" "cb_cilen (lcp_callbacks cb nak_ok base) = Some lcp_cilen"
  "cb_addci (lcp_callbacks cb nak_ok base) = Some lcp_addci" "cb_nakci (lcp_callbacks cb nak_ok base) = Some (lcp_nakci cb base)"
  "cb_rejci (lcp_callbacks cb nak_ok base) = Some lcp_rejci" "cb_reqci (lcp_callbacks cb nak_ok base) = Some (lcp_reqci nak_ok)"
  "cb_up (lcp_callbacks cb nak_ok base) = Some (lcp_up cb base)" "cb_down (lcp_callbacks cb nak_ok base) = Some (lcp_down cb)"
  "cb_starting (lcp_callbacks cb nak_ok base) = Some lcp_starting" "cb_finished (lcp_callbacks cb nak_ok base) = Some (lcp_finished cb base)"
  "cb_retransmit (lcp_callbacks cb nak_ok base) = None" "cb_extcode (lcp_callbacks cb nak_ok base) = Some (lcp_extcode cb base)"
  by (simp_all add: lcp_callbacks_def lcp_closing_def lcp_lower_def)

interpretation lcp: fsm_guarded "lcp_callbacks cb nak_ok base" "\<lambda>c. lcp_J (pcb_of c)" "\<lambda>c. lcp_R (pcb_of c)" for cb nak_ok base
proof (unfold_locales, unfold pcb_of_client)
  fix f :: lcp_fsm and g c code inp i n
  show "\<exists>g. cb_resetci (lcp_callbacks cb nak_ok base) = Some g
      \<and> (\<forall>f. lcp_J (f_pcb f) \<longrightarrow> lcp_J (f_pcb (g f)) \<and> lcp_R (f_pcb (g f)))"
    by (simp add: lcp_table resetci_safe)
  show "lcp_J (f_pcb (g f)) \<and> (lcp_R (f_pcb f) \<longrightarrow> lcp_R (f_pcb (g f))) \<and> (live (f_state (g f)) \<longrightarrow> live (f_state f))"
    if "c \<in> {cb_down (lcp_callbacks cb nak_ok base), cb_starting (lcp_callbacks cb nak_ok base), cb_finished (lcp_callbacks cb nak_ok base),
        cb_retransmit (lcp_callbacks cb nak_ok base)}" "c = Some g" "lcp_J (f_pcb f)"
  proof -
    have "quiet_step f (g f)" using that(1,2) quiet_down quiet_finished by (auto simp: lcp_table lcp_starting_def)
    from quiet_good [OF this that(3)] show ?thesis by (simp add: good_step_def)
  qed
  show "lcp_J (f_pcb f) \<Longrightarrow> lcp_R (f_pcb f) \<Longrightarrow> lcp_J (f_pcb (snd (own_cilen (lcp_callbacks cb nak_ok base) f)))
      \<and> lcp_R (f_pcb (snd (own_cilen (lcp_callbacks cb nak_ok base) f)))"
    by (simp add: own_cilen_def lcp_table lcp_cilen_def Let_def)
  show "lcp_J (f_pcb f) \<Longrightarrow> lcp_R (f_pcb f) \<Longrightarrow> lcp_J (f_pcb (snd (own_ci (lcp_callbacks cb nak_ok base) n f)))
      \<and> lcp_R (f_pcb (snd (own_ci (lcp_callbacks cb nak_ok base) n f)))"
    by (simp add: own_ci_def lcp_table lcp_addci_def)
  show "lcp_J (f_pcb f) \<Longrightarrow> let g = snd (nakrej_result (lcp_callbacks cb nak_ok base) code inp f)
      in lcp_J (f_pcb g) \<and> (lcp_R (f_pcb f) \<longrightarrow> lcp_R (f_pcb g)) \<and> (live (f_state g) \<longrightarrow> live (f_state f))"
    using nakci_good [of f cb base inp] rejci_good [of f inp] by (simp add: nakrej_result_def lcp_table good_step_def Let_def)
  show "lcp_J (f_pcb f) \<Longrightarrow> let g = snd (ext_answer (lcp_callbacks cb nak_ok base) code i inp f)
      in lcp_J (f_pcb g) \<and> (lcp_R (f_pcb f) \<longrightarrow> lcp_R (f_pcb g)) \<and> (live (f_state g) \<longrightarrow> live (f_state f))"
    using quiet_good [OF quiet_extcode [of f cb base code i inp]] by (simp add: ext_answer_def lcp_table good_step_def Let_def)
  show "lcp_J (f_pcb f) \<Longrightarrow> lcp_R (f_pcb f) \<Longrightarrow> lcp_J (f_pcb (snd (reqci_answer (lcp_callbacks cb nak_ok base) inp f)))
      \<and> lcp_R (f_pcb (snd (reqci_answer (lcp_callbacks cb nak_ok base) inp f)))"
    using reqci_both [of f nak_ok inp] by (simp add: reqci_answer_def lcp_table both_def)
  show "cb_up (lcp_callbacks cb nak_ok base) = Some g \<Longrightarrow> lcp_J (f_pcb f) \<Longrightarrow> lcp_R (f_pcb f) \<Longrightarrow> lcp_J (f_pcb (g f)) \<and> lcp_R (f_pcb (g f))"
    using up_both [of f cb base] by (auto simp: lcp_table both_def)
qed

section \<open>Runs\<close>

lemma auth_ok_priv: "auth_ok (on_chap (\<lambda>c. c\<lparr>chap_priv := x c\<rparr>) s) = auth_ok s"
  by (simp add: auth_ok_def)

lemma auth_ok_do:
  assumes "auth_ok s"
  shows "auth_ok (auth_do e s)"
proof -
  have c: "auth_ok (continue_networks t) = auth_ok t" for t by (simp add: continue_networks_def Let_def lcp_close_call_def)
  have n: "auth_ok (auth_withpeer_success b p fl t) = auth_ok t" for b p fl t
    by (simp add: auth_withpeer_success_def network_phase_def start_networks_def Let_def c)
  have r: "auth_ok (chap_respond env i pkt len s)" for env i pkt len
    using assms
    by (simp add: chap_respond_def make_response_def ppp_write_def Let_def auth_ok_priv auth_ok_unit split: prod.split chap_digest_type.split)
  have h: "auth_ok (chap_handle_status b code msg s)" for b code msg
    using assms by (simp add: chap_handle_status_def Let_def n auth_ok_fail auth_ok_chap)
  show ?thesis
    using assms r h
    by (simp add: auth_do_def chap_input_def ccp_event_def np_up_def np_down_def Let_def c auth_ok_above split: auth_event.split)
qed

text \<open>What can happen to the link. A timer that fires is no longer pending.\<close>

datatype lcp_event = Lcp_open | Lcp_close string | Lcp_lowerup | Lcp_lowerdown | Lcp_delayed | Lcp_packet octets | Lcp_timer
  | Lcp_echo_timer | Lcp_reject octets | Lcp_above "ccp_fsm fsm_env \<times> auth_event"

definition lcp_do :: "ccp_fsm fsm_env \<Rightarrow> bool \<Rightarrow> lcp_fsm fsm_env \<Rightarrow> lcp_event \<Rightarrow> lcp_fsm \<Rightarrow> lcp_fsm" where
  "lcp_do cb nak_ok base a f =
     (case a of
        Lcp_open \<Rightarrow> lcp_open cb nak_ok base f
      | Lcp_close r \<Rightarrow> lcp_close cb base r f
      | Lcp_lowerup \<Rightarrow> lcp_lowerup cb nak_ok base f
      | Lcp_lowerdown \<Rightarrow> lcp_lowerdown cb base f
      | Lcp_delayed \<Rightarrow> lcp_delayed_up cb nak_ok base (untimeout_delay f)
      | Lcp_packet p \<Rightarrow> lcp_input cb nak_ok base p f
      | Lcp_timer \<Rightarrow> lcp_timeout cb nak_ok base f
      | Lcp_echo_timer \<Rightarrow> LcpEchoTimeout cb base (on_pcb (\<lambda>i. i\<lparr>l_echo_timers := l_echo_timers i - 1\<rparr>) f)
      | Lcp_reject p \<Rightarrow> lcp_sprotrej base p f
      | Lcp_above e \<Rightarrow> on_pcb (on_lauth (auth_do e)) f)"

inductive lcp_reach :: "lcp_fsm \<Rightarrow> lcp_fsm \<Rightarrow> bool" for f0 where
  lcp_start: "lcp_reach f0 f0"
| lcp_step: "lcp_reach f0 f \<Longrightarrow> lcp_reach f0 (lcp_do cb nak_ok base a f)"

definition lcp_safe :: "lcp_fsm \<Rightarrow> bool" where
  "lcp_safe f \<longleftrightarrow> lcp_J (f_pcb f) \<and> (live (f_state f) \<longrightarrow> lcp_R (f_pcb f))"

lemma lcp_safe_locale: "lcp.safe f = lcp_safe f"
  by (simp add: lcp.safe_def lcp_safe_def)

lemma quiet_safe: "quiet_step f g \<Longrightarrow> lcp_safe f \<Longrightarrow> lcp_safe g"
  using quiet_good [of f g] by (auto simp: lcp_safe_def good_step_def)

lemma do_safe:
  assumes "lcp_safe f"
  shows "lcp_safe (lcp_do cb nak_ok base a f)"
proof -
  note s = lcp.safe_open [unfolded lcp_safe_locale] lcp.safe_lower [unfolded lcp_safe_locale] lcp.safe_input [unfolded lcp_safe_locale]
    lcp.safe_timeout [unfolded lcp_safe_locale]
  have y: "lcp_safe g \<Longrightarrow> lcp_safe (lcp_sync g)" for g by (rule quiet_safe [OF quiet_sync])
  have o: "lcp_safe (lcp_open cb nak_ok base f)"
    unfolding lcp_open_def Let_def using assms quiet_safe [OF quiet_flags(1)] quiet_safe [OF quiet_flags(2)] by (intro y s(1)) auto
  have u: "lcp_safe (lcp_lowerup cb nak_ok base f)"
  proof -
    define f1 where "f1 = on_pcb (\<lambda>i. (on_lauth (on_unit (\<lambda>u. ppp_recv_config (if lax_recv i then 0 else 0xffffffff)
        (neg_pcompression (lcp_wantoptions (f_pcb f))) (neg_accompression (lcp_wantoptions (f_pcb f)))
        (ppp_send_config 0xffffffff False False u))) i)\<lparr>l_peer_mru := PPP_DEFMRU\<rparr>) f"
    have "quiet_step f f1" unfolding f1_def
      by (intro quiet_pcb) (simp add: lcp_frame_def on_lauth_def auth_ok_unit ppp_recv_config_def ppp_send_config_def)
    then have f1: "lcp_safe f1" using quiet_safe assms by blast
    have "quiet_step (set_flag DELAYED_UP f1) (on_pcb (\<lambda>i. i\<lparr>l_delay_timers := l_delay_timers i + 1\<rparr>) (set_flag DELAYED_UP f1))"
      by (intro quiet_pcb) (simp add: lcp_frame_def)
    then show ?thesis
      unfolding lcp_lowerup_def Let_def f1_def [symmetric]
      using y s(2) [OF f1] quiet_safe [OF quiet_trans [OF quiet_flags(2)] f1] by auto
  qed
  have ud: "lcp_safe (untimeout_delay f)" by (rule quiet_safe [OF quiet_flags(3) assms])
  have d: "lcp_safe (lcp_delayed_up cb nak_ok base (untimeout_delay f))"
    unfolding lcp_delayed_up_def using ud y s(2) [OF quiet_safe [OF quiet_flags(1) ud]] by simp
  have "quiet_step f (on_pcb (\<lambda>i. i\<lparr>l_echo_timers := l_echo_timers i - 1\<rparr>) f)"
    by (intro quiet_pcb) (simp add: lcp_frame_def)
  note ue = quiet_safe [OF quiet_echo(4) quiet_safe [OF this assms]]
  have i: "lcp_safe (lcp_input cb nak_ok base p f)" for p
    unfolding lcp_input_def Let_def
    using assms y s(4) s(2) [OF quiet_safe [OF quiet_trans [OF quiet_flags(1) quiet_flags(3)] assms]] by simp
  have t: "lcp_safe (lcp_timeout cb nak_ok base f)"
    unfolding lcp_timeout_def using y s(5) quiet_safe [OF quiet_prim(3) assms] by blast
  have r: "quiet_step f (lcp_sprotrej base p f)" for p
    by (simp add: lcp_sprotrej_def quiet_step_def)
  have e: "quiet_step f (on_pcb (on_lauth (auth_do e)) f)" for e by (intro quiet_pcb frame_lauth auth_ok_do)
  show ?thesis
    using o u d i t quiet_safe [OF quiet_close assms] quiet_safe [OF quiet_lowerdown assms] ue
      quiet_safe [OF r assms] quiet_safe [OF e assms]
    by (simp add: lcp_do_def split: lcp_event.split)
qed

lemma reach_safe: "lcp_reach f0 f \<Longrightarrow> lcp_safe f0 \<Longrightarrow> lcp_safe f"
  by (induction rule: lcp_reach.induct) (simp_all add: do_safe)

section \<open>Properties\<close>

text \<open>A unit as \<open>ppp_new\<close> allocates it and \<open>main\<close> configures it (\<open>ppp_set_auth (ppp, PPPAUTHTYPE_MSCHAP_V2, ...)\<close>).\<close>

definition fresh_lcp :: "lcp_unit \<Rightarrow> bool" where
  "fresh_lcp i \<longleftrightarrow> (\<exists>u user passwd. a_unit (l_auth i) = ppp_set_auth PPPAUTHTYPE_MSCHAP_V2 user passwd u) \<and> chap_flags (a_chap (l_auth i)) = 0
     \<and> lcp_gotoptions i = no_lcp \<and> lcp_hisoptions i = no_lcp \<and> \<not> l_fatal i"

lemma init_safe: "fresh_lcp (f_pcb f) \<Longrightarrow> lcp_safe (lcp_init base f)"
  by (auto simp: lcp_safe_def lcp_J_def fresh_lcp_def lcp_init_def fsm_init_def lcp_sync_def on_pcb_def on_lauth_def auth_ok_def own_ok_def his_ok_def
      no_lcp_def ppp_set_auth_def PPPAUTHTYPE_MSCHAP_V2_def PPPAUTHTYPE_CHAP_def PPPAUTHTYPE_MSCHAP_def)

lemma mtu_bounds:
  assumes "lcp_J i"
  shows "128 \<le> link_mtu i" "link_mtu i \<le> 1500"
proof -
  have m: "PPP_MINMRU \<le> v \<Longrightarrow> 128 \<le> uint v" for v :: u16
  proof -
    assume "PPP_MINMRU \<le> v"
    then have "unat PPP_MINMRU \<le> unat v" by (simp only: word_le_nat_alt)
    moreover have "unat PPP_MINMRU = 128" by (simp add: PPP_MINMRU_def)
    moreover have "int (unat v) = uint v" by simp
    ultimately show "128 \<le> uint v" by linarith
  qed
  have b: "neg_mru (lcp_hisoptions i) \<Longrightarrow> 128 \<le> uint (mru (lcp_hisoptions i))" "uint (mru (lcp_wantoptions i)) = 1500"
      "uint (mru (lcp_allowoptions i)) = 1500"
    using assms m by (auto simp: lcp_J_def his_ok_def PPP_MRU_def PPP_MAXMRU_def)
  show "128 \<le> link_mtu i" "link_mtu i \<le> 1500"
    using b by (auto simp: link_mtu_def Let_def PPP_DEFMRU_def)
qed

text \<open>C40: LCP agrees to MS-CHAPv2 and to nothing else: in every run of LCP with the layers above it, from a unit that the engine has
  configured (authentication set to MS-CHAPv2, no options negotiated yet, the CHAP client idle), with any packets, timers and calls in
  any order and any shortage of buffers: we never ask the peer to authenticate itself; whenever LCP has accepted an authentication
  protocol of the peer it is CHAP with MS-CHAPv2; a CHAP client that is started speaks MS-CHAPv2, and the fatal error for a
  digest that does not exist is never reached; and the MTU that LCP computes for the interface from the options in force
  is at least 128 and at most 1500.\<close>

theorem lcp_only_mschapv2:
  assumes "lcp_reach (lcp_init base f0) f" and "fresh_lcp (f_pcb f0)" and "i = f_pcb f"
  shows "\<not> neg_chap (lcp_gotoptions i)
    \<and> (neg_chap (lcp_hisoptions i) \<longrightarrow> CHAP_DIGEST (chap_mdtype (lcp_hisoptions i)) = CHAP_MICROSOFT_V2)
    \<and> (chap_flags (a_chap (l_auth i)) AND AUTH_STARTED \<noteq> 0 \<longrightarrow> chap_digest (a_chap (l_auth i)) = chapms2_digest)
    \<and> \<not> l_fatal i \<and> 128 \<le> link_mtu i \<and> link_mtu i \<le> 1500"
proof -
  have J: "lcp_J i" using reach_safe [OF assms(1) init_safe [OF assms(2)]] assms(3) by (simp add: lcp_safe_def)
  have "bit w 1" if "w AND AUTH_STARTED \<noteq> 0" for w :: u8
  proof (rule ccontr)
    assume "\<not> bit w 1"
    then have "w AND AUTH_STARTED = 0"
      by (intro bit_word_eqI) (auto simp: bit_simps AUTH_STARTED_def bit_2_iff dest: bit_imp_le_length)
    then show False using that by simp
  qed
  moreover have "CHAP_DIGEST MDTYPE_MICROSOFT_V2 = CHAP_MICROSOFT_V2" by (simp add: CHAP_DIGEST_def MDTYPE_MICROSOFT_V2_def MDTYPE_MD5_def)
  ultimately show ?thesis
    using J mtu_bounds [OF J] by (auto simp: lcp_J_def auth_ok_def own_ok_def his_ok_def)
qed

section \<open>A concrete link\<close>

definition demo_lcp_base :: "lcp_fsm fsm_env" where
  "demo_lcp_base = \<lparr>max_conf_req_transmits = 10, max_term_transmits = 2, max_nak_loops = 5, peer_mru = 1500, pbuf_ok = True,
     cb_resetci = None, cb_cilen = None, cb_addci = None, cb_ackci = None, cb_nakci = None, cb_rejci = None,
     cb_reqci = None, cb_up = None, cb_down = None, cb_starting = None, cb_finished = None, cb_retransmit = None,
     cb_extcode = None\<rparr>"

definition demo_link_unit :: auth_unit where
  "demo_link_unit =
     \<lparr>a_unit = ppp_set_auth PPPAUTHTYPE_MSCHAP_V2 ''me'' ''pass'' (zero_unit 1500), a_ccp = ccp_init demo_base demo_ccp,
      a_chap = \<lparr>chap_flags = 0, chap_name = [], chap_digest = md5_digest, chap_priv = replicate 64 0\<rparr>,
      a_magic = demo_magic, a_pending = 0, a_np_open = 0, a_np_up = 0, a_net_calls = [], a_held_pbufs = 0, a_reports = []\<rparr>"

definition demo_lcp :: lcp_fsm where
  "demo_lcp = fsm.extend demo_fsm (pfsm.fields \<lparr>l_auth = demo_link_unit, lcp_wantoptions = no_lcp, lcp_gotoptions = no_lcp,
     lcp_allowoptions = no_lcp, lcp_hisoptions = no_lcp, l_peer_mru = 0, lcp_echos_pending = 0, lcp_echo_number = 0,
     lcp_echo_timer_running = False, l_credentials = True, noendpoint = False, lax_recv = False, listen_time = 0, lcp_loopbackfail = 10,
     lcp_echo_interval = 0, lcp_echo_fails = 3, l_fatal = False, l_delay_timers = 0, l_echo_timers = 0\<rparr>)"

lemma demo_lcp_fresh: "fresh_lcp (f_pcb demo_lcp)"
  by (auto simp: demo_lcp_def fresh_lcp_def fsm.defs pfsm.defs demo_link_unit_def)

text \<open>The peer asks for MS-CHAPv2.\<close>

definition demo_lcp_run :: lcp_fsm where
  "demo_lcp_run = lcp_do demo_base True demo_lcp_base (Lcp_packet ([CONFREQ, 1, 0, 9] @ ci_chap MDTYPE_MICROSOFT_V2))
     (lcp_do demo_base True demo_lcp_base Lcp_lowerup (lcp_do demo_base True demo_lcp_base Lcp_open (lcp_init demo_lcp_base demo_lcp)))"

lemma demo_lcp_reach: "lcp_reach (lcp_init demo_lcp_base demo_lcp) demo_lcp_run"
  unfolding demo_lcp_run_def by (intro lcp_reach.lcp_step lcp_reach.lcp_start)

text \<open>Our request, sent when the link below comes up.\<close>

lemma lowerup_request:
  fixes cb nak_ok base
  assumes "f_state f = PPP_FSM_STARTING" "listen_time (f_pcb f) = 0" "\<not> has_flag OPT_SILENT f" "l_credentials (f_pcb f)"
    "\<not> u_refuse_mschap_v2 (a_unit (l_auth (f_pcb f)))" "chap_mdtype (lcp_allowoptions (f_pcb f)) = CHAP_MDTYPE_SUPPORTED"
  defines "g \<equiv> lcp_lowerup cb nak_ok base f"
  shows "f_state g = PPP_FSM_REQSENT" "neg_chap (lcp_allowoptions (f_pcb g))" "chap_mdtype (lcp_allowoptions (f_pcb g)) AND MDTYPE_MICROSOFT_V2 \<noteq> 0"
    "f_flags g = f_flags f"
proof -
  define f1 where "f1 = on_pcb (\<lambda>i. (on_lauth (on_unit (\<lambda>u. ppp_recv_config (if lax_recv i then 0 else 0xffffffff)
        (neg_pcompression (lcp_wantoptions (f_pcb f))) (neg_accompression (lcp_wantoptions (f_pcb f)))
        (ppp_send_config 0xffffffff False False u))) i)\<lparr>l_peer_mru := PPP_DEFMRU\<rparr>) f"
  have f1: "f_state f1 = PPP_FSM_STARTING" "\<not> has_flag OPT_SILENT f1" "f_flags f1 = f_flags f" "l_credentials (f_pcb f1)"
      "\<not> u_refuse_mschap_v2 (a_unit (l_auth (f_pcb f1)))" "lcp_allowoptions (f_pcb f1) = lcp_allowoptions (f_pcb f)" "listen_time (f_pcb f1) = 0"
    using assms(1-5) by (simp_all add: f1_def on_pcb_def on_lauth_def has_flag_def ppp_recv_config_def ppp_send_config_def)
  define f2 where "f2 = fsm_sconfreq (lcp_callbacks cb nak_ok base) False f1"
  have g: "g = lcp_sync (goto PPP_FSM_REQSENT f2)"
    unfolding g_def lcp_lowerup_def Let_def f1_def [symmetric] using f1(1,2,7) by (simp add: fsm_lowerup_def f2_def)
  let ?env = "lcp_callbacks cb nak_ok base"
  have own: "snd (own_cilen ?env h) = h" "snd (own_ci ?env n h) = h" for h n
    by (simp_all add: own_cilen_def own_ci_def lcp_table lcp_cilen_def lcp_addci_def Let_def)
  have reset: "f_pcb (call_back (cb_resetci ?env) e f1) = f_pcb (lcp_resetci f1)" "f_flags (call_back (cb_resetci ?env) e f1) = f_flags f1" for e
    by (simp_all add: lcp_table call_back_def lcp_resetci_def on_pcb_def note_event_def)
  have prim: "f_flags (TIMEOUT h) = f_flags h" "f_flags (fsm_sdata env c i d h) = f_flags h" for h :: lcp_fsm and env c i d
    by (simp_all add: TIMEOUT_def fsm_sdata_def note_event_def Let_def)
  have f2: "f_pcb f2 = f_pcb (lcp_resetci f1)" "f_flags f2 = f_flags f1"
    using f1(1) by (simp_all add: f2_def fsm_sconfreq_def Let_def negotiating_def split_beta own reset prim)
  have a: "lcp_allowoptions (f_pcb (lcp_resetci f1)) = allowed_auth (f_pcb f1) \<or>
      lcp_allowoptions (f_pcb (lcp_resetci f1)) = (allowed_auth (f_pcb f1))\<lparr>neg_endpoint := False\<rparr>"
    by (simp add: lcp_resetci_def on_pcb_def Let_def on_lauth_def split_beta)
  have md: "chap_mdtype (allowed_auth (f_pcb f1)) AND MDTYPE_MICROSOFT_V2 \<noteq> 0"
    using f1(4-6) assms(6)
    by (simp add: allowed_auth_def Let_def CHAP_MDTYPE_SUPPORTED_def MDTYPE_MICROSOFT_V2_def MDTYPE_MICROSOFT_def MDTYPE_MD5_def)
  moreover from this have "neg_chap (allowed_auth (f_pcb f1))"
    using f1(4) by (auto simp: allowed_auth_def Let_def MDTYPE_NONE_def)
  ultimately show "neg_chap (lcp_allowoptions (f_pcb g))" "chap_mdtype (lcp_allowoptions (f_pcb g)) AND MDTYPE_MICROSOFT_V2 \<noteq> 0"
    using a f2(1) by (auto simp: g lcp_sync_def on_pcb_def on_lauth_def)
  show "f_state g = PPP_FSM_REQSENT" "f_flags g = f_flags f" using f2(2) f1(3) by (simp_all add: g lcp_sync_def on_pcb_def goto_def)
qed

lemma request_V2:
  assumes "f_state f = PPP_FSM_REQSENT" "neg_chap (lcp_allowoptions (f_pcb f))" "chap_mdtype (lcp_allowoptions (f_pcb f)) AND MDTYPE_MICROSOFT_V2 \<noteq> 0"
    "\<not> has_flag DELAYED_UP f" "pbuf_ok base"
  shows "neg_chap (lcp_hisoptions (f_pcb (lcp_input cb True base ([CONFREQ, 1, 0, 9] @ ci_chap MDTYPE_MICROSOFT_V2) f)))"
proof -
  let ?ci = "ci_chap MDTYPE_MICROSOFT_V2" and ?i = "(f_pcb f)\<lparr>lcp_hisoptions := no_lcp\<rparr>"
  let ?j = "lcp_set_his (\<lambda>h. h\<lparr>chap_mdtype := MDTYPE_MICROSOFT_V2, neg_chap := True\<rparr>) ?i"
  have ci: "?ci = [CI_AUTHTYPE, 5, 0xc2, 0x23, 0x81]"
    by (simp add: ci_chap_def CILEN_CHAP_def CHAP_DIGEST_def MDTYPE_MICROSOFT_V2_def MDTYPE_MD5_def CHAP_MICROSOFT_V2_def ppp_protocols hi8_def lo8_def)
  have d: "CHAP_CANDIGEST (chap_mdtype (lcp_allowoptions (f_pcb f))) 0x81" "CHAP_MDTYPE_D 0x81 = MDTYPE_MICROSOFT_V2"
    using assms(3) by (simp_all add: CHAP_CANDIGEST_def CHAP_MDTYPE_D_def CHAP_MICROSOFT_V2_def)
  have "lreq_auth ?i ?ci = (CONFACK, [], ?j)"
    using assms(2) d by (simp add: lreq_auth_def ci get16_def ppp_protocols CILEN_SHORT_def CILEN_CHAP_def)
  then have "lcp_front dn ?i ?ci = (CONFACK, [], 5, ?j)" for dn
    by (simp add: lcp_front_def Let_def ci bad_option_def lcp_req_option_def CI_AUTHTYPE_def CI_MRU_def CI_ASYNCMAP_def fsm_codes)
  then have "lcp_scan dn ?i ?ci 0 (length ?ci) CONFACK 0 [] = (CONFACK, ?ci, 0, [], ?j)" for dn
    by (simp add: lcp_scan.simps ci fsm_codes)
  moreover have "CONFACK \<noteq> CONFNAK" "CONFACK \<noteq> CONFREJ" by (simp_all add: fsm_codes)
  ultimately have r: "lcp_reqci True f ?ci dn = ((CONFACK, ?ci), f\<lparr>f_pcb := ?j\<rparr>)" for dn
    unfolding lcp_reqci_def Let_def by simp
  have n: "get_short (0 # 9 # xs) = 9" for xs by (simp add: get_short_def)
  have l: "length ?ci = 5" by (simp add: ci)
  have y: "lcp_hisoptions (f_pcb (lcp_sync h)) = lcp_hisoptions (f_pcb h)" for h by (simp add: lcp_sync_def on_pcb_def on_lauth_def)
  have "fsm_input (lcp_callbacks cb True base) ([CONFREQ, 1, 0, 9] @ ?ci) f = answer_confreq (lcp_callbacks cb True base) 1 ?ci f"
    using assms(1) n l by (simp add: fsm_input_def Let_def HEADERLEN_def fsm_dispatch_def fsm_rconfreq_def before_answer_def)
  also have "\<dots> = (goto PPP_FSM_ACKSENT (fsm_sdata (lcp_callbacks cb True base) CONFACK 1 ?ci (f\<lparr>f_pcb := ?j\<rparr>)))\<lparr>f_nakloops := 0\<rparr>"
    using assms(1) r by (simp add: answer_confreq_def reqci_answer_def lcp_table Let_def)
  finally show ?thesis
    using assms(4) y by (simp add: lcp_input_def Let_def lcp_set_his_def)
qed

lemma demo_lcp_run_V2: "neg_chap (lcp_hisoptions (f_pcb demo_lcp_run))"
proof -
  let ?open = "lcp_do demo_base True demo_lcp_base Lcp_open (lcp_init demo_lcp_base demo_lcp)"
  have o: "f_state ?open = PPP_FSM_STARTING" "listen_time (f_pcb ?open) = 0" "f_flags ?open = 0" "l_credentials (f_pcb ?open)"
      "\<not> u_refuse_mschap_v2 (a_unit (l_auth (f_pcb ?open)))" "chap_mdtype (lcp_allowoptions (f_pcb ?open)) = CHAP_MDTYPE_SUPPORTED"
    by (simp_all add: lcp_do_def lcp_open_def lcp_init_def fsm_init_def demo_lcp_def fsm.defs pfsm.defs demo_fsm_def no_lcp_def on_pcb_def
        lcp_sync_def on_lauth_def clear_flag_def set_flag_def fsm_open_def lcp_table call_back_def lcp_starting_def goto_def note_event_def
        Let_def demo_link_unit_def ppp_set_auth_def PPPAUTHTYPE_MSCHAP_V2_def)
  let ?up = "lcp_lowerup demo_base True demo_lcp_base ?open"
  have fl: "\<not> has_flag OPT_SILENT ?open" using o(3) by (simp add: has_flag_def)
  note u = lowerup_request [OF o(1,2) fl o(4-6), of demo_base True demo_lcp_base]
  have "\<not> has_flag DELAYED_UP ?up" "pbuf_ok demo_lcp_base" using u(4) o(3) by (simp_all add: has_flag_def demo_lcp_base_def)
  from request_V2 [OF u(1-3) this] show ?thesis by (simp add: demo_lcp_run_def lcp_do_def)
qed

theorem lcp_only_mschapv2_witness:
  "CHAP_DIGEST (chap_mdtype (lcp_hisoptions (f_pcb demo_lcp_run))) = CHAP_MICROSOFT_V2 \<and> link_mtu (f_pcb demo_lcp_run) \<le> 1500"
  using lcp_only_mschapv2 [OF demo_lcp_reach demo_lcp_fresh refl] demo_lcp_run_V2 by simp

end
