(* ===== verification/Spec2Isabelle.thy ===== *)
theory Spec2Isabelle
  imports Proxy_Request_Correct Proxy_Engine Ppp_Hdlc Ppp_Tunnel Ppp_Ipcp_Run Ppp_Lcp_Correct
begin

text \<open>
  A verification development for the PPTP proxy client: a user-space engine
  (\<open>src/proxy-engine/main.c\<close>) that accepts HTTP, SOCKS5 and forwarded connections on the loopback
  interface and carries them over a PPTP tunnel, with the PPP, MPPE and TCP/IP code of the bundled lwIP
  (\<open>src/lwip\<close>).

  \<^bold>\<open>Parts and how they interact.\<close> \<open>main\<close> opens the listeners and the control socket, starts the PPTP
  child on a pseudo terminal and runs one loop: lwIP timers, \<open>select\<close>, octets from the terminal into
  \<open>pppos_input\<close>, control requests, new clients, and client data in both directions. Octets from the
  terminal are unframed (\<open>pppos.c\<close>), decrypted (\<open>mppe.c\<close> over \<open>arc4.c\<close> and \<open>sha1.c\<close>) and dispatched to
  the control protocols, which all run the automaton of \<open>fsm.c\<close>, or to TCP/IP, which calls back into
  \<open>main.c\<close>. The engine refuses remote traffic unless PPP is up with MPPE in both directions.

  \<^bold>\<open>Theories.\<close>
  \<^item> \<open>Prelude\<close>: machine types, C strings, searching, numbers, tokens, arrays, and their lemmas.
  \<^item> \<open>Byte_Buffer\<close>: \<open>append_bytes\<close> and the consuming \<open>memmove\<close>, on the fixed array and on lists; the locale
    \<open>byte_queue\<close> is the contract both meet, and no interleaving loses, reorders or invents a byte.
  \<^item> \<open>Lwip_Def\<close>, \<open>Ip4_Addr\<close>: \<open>src/lwip/src/core/def.c\<close> and \<open>ipv4/ip4_addr.c\<close>; text round trip of addresses,
    netmask check.
  \<^item> \<open>Proxy_State\<close>, \<open>Proxy_Connection\<close>: \<open>struct connection\<close>, \<open>struct listener\<close>, the globals as a record, and
    every lwIP callback as a function on one slot; calls to the operating system and to lwIP are appended
    to the field \<open>effects\<close>, and their answers are arguments. The locales \<open>slot_handler\<close> and \<open>pcb_handler\<close>
    state what a handler owes the connection table; each callback is an interpretation.
  \<^item> \<open>Proxy_Request\<close>, \<open>Proxy_Request_Correct\<close>: parsing of proxy requests; independence of segmentation,
    functional behaviour of HTTP \<open>CONNECT\<close>, absolute-form and SOCKS5 requests.
  \<^item> \<open>Proxy_Listeners\<close>, \<open>Proxy_Control\<close>: the listener table, its transactional replacement, \<open>APPLY\<close> requests
    and the control socket.
  \<^item> \<open>Proxy_Engine\<close>: start-up, the turn of the loop as an inductive relation, shutdown; the invariant of every
    reachable state, and that no remote connection exists without the encrypted link.
  \<^item> \<open>Ppp_Fsm\<close>: \<open>fsm.c\<close> with the protocol callbacks as functions on the state, in the record \<open>fsm_env\<close>; it
    refines the transition table of RFC 1661 for every protocol whose callbacks leave the automaton's own
    fields alone (the locale \<open>fsm_client\<close>).
  \<^item> \<open>Ppp_Options\<close>, \<open>Ppp_Agreement\<close>: what the control protocols share: the walk over the options of a
    Configure-Request (the locale \<open>option_judge\<close>: the reply carries exactly the options with the worst verdict)
    and the argument that what both sides acknowledged holds when the automaton opens (\<open>fsm_agreement\<close>).
  \<^item> \<open>Ppp_Pcb\<close>, \<open>Ppp_Ccp\<close>, \<open>Ppp_Ccp_Correct\<close>: the part of \<open>ppp_pcb\<close> that CCP uses and \<open>ccp.c\<close> as a client of both
    locales; under the engine's settings only 128-bit stateless MPPE is ever switched on.
  \<^item> \<open>Net_Bytes\<close>, \<open>Vj\<close>, \<open>Vj_Ring\<close>, \<open>Vj_Correct\<close>, \<open>Vj_Link\<close>: fields of packets, and \<open>vj.c\<close>: the ring of transmit states
    implements a list in the order of last use, compression is lossless for every sequence of well-formed
    packets, and the decompressor stays in bounds on every input.
  \<^item> \<open>Ppp_Const\<close>, \<open>Ppp_Core\<close>, \<open>Ppp_Core_Correct\<close>, \<open>Ppp_Tunnel\<close>: \<open>ppp.c\<close>; with CCP and MPPE, no IP packet passes
    unencrypted in either direction, and what enters one end of the tunnel comes out of the other.
  \<^item> \<open>Ppp_Hdlc\<close>: \<open>pppos.c\<close>; framing is lossless, the check sequence is the HDLC polynomial and detects
    single-octet errors.
  \<^item> \<open>Hash_Stream\<close>, \<open>Sha1\<close>, \<open>Md4\<close>, \<open>Md5\<close>: the bundled hashes at their C widths; the locale \<open>block_hash\<close> lifts
    the equality of block functions to whole digests, and its three interpretations give FIPS 180-4,
    RFC 1320 and RFC 1321.
  \<^item> \<open>Arc4\<close>, \<open>Ppp_Mppe\<close>: the cipher and the encryption layer; round trips under packet loss in stateless mode,
    recovery in stateful mode, refusal of plain frames, and the late-packet defect.
  \<^item> \<open>Des\<close>, \<open>Des_Fips\<close>: the bundled DES at its C widths; decryption inverts encryption, and the table-driven code on
    rotated registers computes the cipher that FIPS 46-3 defines on bit lists.
  \<^item> \<open>Ppp_Magic\<close>, \<open>Chap_Ms\<close>, \<open>Chap_Ms_Correct\<close>: \<open>magic.c\<close>, \<open>pppcrypt.c\<close> and \<open>chap_ms.c\<close>; the response, the expected
    answer and the keys are those of RFC 2759 and RFC 3079 on the standards' hashes and cipher, and client
    and server end up with keys that decrypt each other's packets.
  \<^item> \<open>Ppp_Auth\<close>, \<open>Ppp_Auth_Frame\<close>, \<open>Ppp_Auth_Run\<close>, \<open>Ppp_Auth_Correct\<close>: \<open>auth.c\<close>, \<open>chap-new.c\<close> and \<open>chap-md5.c\<close> with CCP; no
    sequence of packets reaches the network phase without the server's proof of the password, IPCP is opened only with
    keys of one MS-CHAP exchange, and an honest server gets there; two defects of the CHAP client. CCP is a second
    interpretation of \<open>fsm_agreement\<close>, for what it leaves alone.
  \<^item> \<open>Ppp_Ipcp\<close>, \<open>Ppp_Ipcp_Correct\<close>, \<open>Ppp_Ipcp_Run\<close>: \<open>ipcp.c\<close>; an acknowledgement must repeat the request, the reply to the
    peer is that of a second interpretation of \<open>option_judge\<close> (its loop is proved equal to the shared one), the
    interface comes up only with usable addresses, and with an honest server it does.
  \<^item> \<open>Ppp_Guard\<close>, \<open>Ppp_Lcp\<close>, \<open>Ppp_Lcp_Correct\<close>: the locale \<open>fsm_guarded\<close> (invariants of a protocol whose callbacks call the automaton
    again) and \<open>lcp.c\<close>, its interpretation, with \<open>auth.c\<close> above it; no run agrees to another authentication than MS-CHAPv2.

  \<^bold>\<open>State and errors.\<close> Structs are records, enums are datatypes, error codes are values of \<open>err_t\<close>, and a
  function that can fail returns an option, a sum or its error code. Machine integers are words where
  wrap-around matters (\<open>unsigned long\<close> is 64 bits, as on the target), and naturals where the code keeps them
  in range, which the invariants prove. A char array that holds a C string is the string.

  \<^bold>\<open>Termination.\<close> Every loop is a recursive function with a termination proof; there is no fuel. Loops that
  wait for the operating system recurse over the list of its answers.

  \<^bold>\<open>Not modelled.\<close> The user interface in Swift, the build and test scripts, the PPTP child (a bundled archive
  run as a process), lwIP's TCP, UDP, IP, DNS, memory and timer code (its answers are parameters and its
  callbacks are the steps of \<open>lwip_step\<close>), the parts of lwIP that the build leaves out
  (sockets, IPv6, Ethernet, applications, PAP, EAP, PPPoE, L2TP), log output, and the contents of
  uninitialised memory.
\<close>

end
